(* ===== verification/Prelude.thy ===== *)
theory Prelude
  imports Main "HOL-Library.Multiset"
begin

text \<open>
  Shared vocabulary of the development: the JavaScript values the frontend of
  Kanivet computes with, and the lemmas every component uses.

  \<^item> A JavaScript string is a HOL \<^typ>\<open>string\<close>: a sequence of code units below 256.
    Case mapping and white space follow the Latin-1 part of Unicode exactly.
  \<^item> An optional property (\<open>x?: T\<close>, \<open>undefined\<close>) is a value of an \<^typ>\<open>'a option\<close> type.
    \<open>a || b\<close> on strings is \<open>str_or\<close>: both \<open>undefined\<close> and the empty string are falsy.
  \<^item> Integral numbers are \<^typ>\<open>int\<close> or \<^typ>\<open>nat\<close>; the code's counters, positions, epochs
    and timestamps stay far below 2 ^ 53, where JavaScript numbers are exact.
  \<^item> \<open>Array.prototype.sort\<close> with a comparator is \<open>js_sort\<close>, a stable sort.
\<close>

named_theorems js_simps
  \<open>equations of the JavaScript vocabulary, unfolded by the component proofs\<close>

named_theorems inv_intros
  \<open>preservation of a component's invariant by its operations\<close>

section \<open>Truthiness and defaults\<close>

definition truthy_str :: "string option \<Rightarrow> bool" where
  "truthy_str a = (case a of None \<Rightarrow> False | Some s \<Rightarrow> s \<noteq> [])"

definition str_or :: "string option \<Rightarrow> string \<Rightarrow> string" where
  "str_or a d = (case a of None \<Rightarrow> d | Some s \<Rightarrow> if s = [] then d else s)"

definition opt_or :: "string option \<Rightarrow> string option \<Rightarrow> string option" where
  "opt_or a b = (if truthy_str a then a else b)"

definition nullish :: "'a option \<Rightarrow> 'a \<Rightarrow> 'a" where
  "nullish a d = (case a of None \<Rightarrow> d | Some x \<Rightarrow> x)"

definition num_or :: "int option \<Rightarrow> int \<Rightarrow> int" where
  "num_or a d = (case a of None \<Rightarrow> d | Some n \<Rightarrow> if n = 0 then d else n)"

definition truthy_num :: "int option \<Rightarrow> bool" where
  "truthy_num a = (case a of None \<Rightarrow> False | Some n \<Rightarrow> n \<noteq> 0)"

lemma truthy_str_simps [simp]:
  "truthy_str None = False" "truthy_str (Some s) = (s \<noteq> [])"
  by (simp_all add: truthy_str_def)

lemma str_or_simps [simp]:
  "str_or None d = d" "str_or (Some s) d = (if s = [] then d else s)"
  by (simp_all add: str_or_def)

lemma str_or_empty: "str_or a [] = (case a of None \<Rightarrow> [] | Some s \<Rightarrow> s)"
  by (cases a) auto

lemma nullish_simps [simp]: "nullish None d = d" "nullish (Some x) d = x"
  by (simp_all add: nullish_def)

lemma num_or_simps [simp]: "num_or None d = d" "num_or (Some n) d = (if n = 0 then d else n)"
  by (simp_all add: num_or_def)

lemma truthy_num_simps [simp]: "truthy_num None = False" "truthy_num (Some n) = (n \<noteq> 0)"
  by (simp_all add: truthy_num_def)

section \<open>Strings\<close>

definition code_unit :: "char \<Rightarrow> nat" where
  "code_unit c = of_char c"

definition lower_char :: "char \<Rightarrow> char" where
  "lower_char c =
     (let n = code_unit c in
      if (65 \<le> n \<and> n \<le> 90) \<or> (192 \<le> n \<and> n \<le> 222 \<and> n \<noteq> 215) then char_of (n + 32) else c)"

definition to_lower :: "string \<Rightarrow> string" where
  "to_lower s = map lower_char s"

definition is_space :: "char \<Rightarrow> bool" where
  "is_space c = (let n = code_unit c in (9 \<le> n \<and> n \<le> 13) \<or> n = 32 \<or> n = 160)"

definition trim_start :: "string \<Rightarrow> string" where
  "trim_start s = dropWhile is_space s"

definition js_trim :: "string \<Rightarrow> string" where
  "js_trim s = rev (trim_start (rev (trim_start s)))"

fun starts_with :: "string \<Rightarrow> string \<Rightarrow> bool" where
  "starts_with s [] = True"
| "starts_with [] (p # ps) = False"
| "starts_with (c # s) (p # ps) = (c = p \<and> starts_with s ps)"

definition ends_with :: "string \<Rightarrow> string \<Rightarrow> bool" where
  "ends_with s t = starts_with (rev s) (rev t)"

fun index_of_from :: "nat \<Rightarrow> string \<Rightarrow> string \<Rightarrow> nat option" where
  "index_of_from i [] t = (if t = [] then Some i else None)"
| "index_of_from i (c # s) t = (if starts_with (c # s) t then Some i else index_of_from (Suc i) s t)"

definition index_of :: "string \<Rightarrow> string \<Rightarrow> nat option" where
  "index_of s t = index_of_from 0 s t"

definition str_includes :: "string \<Rightarrow> string \<Rightarrow> bool" where
  "str_includes s t = (index_of s t \<noteq> None)"

fun split_char :: "char \<Rightarrow> string \<Rightarrow> string list" where
  "split_char d [] = [[]]"
| "split_char d (c # s) =
     (if c = d then [] # split_char d s
      else (case split_char d s of [] \<Rightarrow> [[c]] | p # ps \<Rightarrow> (c # p) # ps))"

fun join_with :: "string \<Rightarrow> string list \<Rightarrow> string" where
  "join_with d [] = []"
| "join_with d [p] = p"
| "join_with d (p # ps) = p @ d @ join_with d ps"

lemma starts_with_iff: "starts_with s p \<longleftrightarrow> (\<exists>r. s = p @ r)"
  by (induction s p rule: starts_with.induct) auto

lemma starts_with_append [simp]: "starts_with (p @ r) p"
  by (auto simp: starts_with_iff)

lemma ends_with_iff: "ends_with s t \<longleftrightarrow> (\<exists>r. s = r @ t)"
proof
  assume "ends_with s t"
  then obtain r where "rev s = rev t @ r" by (auto simp: ends_with_def starts_with_iff)
  then have "s = rev r @ t" by (metis rev_append rev_rev_ident)
  then show "\<exists>r. s = r @ t" by blast
next
  assume "\<exists>r. s = r @ t"
  then show "ends_with s t" by (auto simp: ends_with_def)
qed

lemma split_char_nonempty [simp]: "split_char d s \<noteq> []"
  by (induction s) (auto split: list.splits)

lemma join_with_Cons: "ps \<noteq> [] \<Longrightarrow> join_with d (p # ps) = p @ d @ join_with d ps"
  by (cases ps) auto

lemma join_split_char: "join_with [d] (split_char d s) = s"
proof (induction s)
  case (Cons c s)
  then show ?case
    by (cases "split_char d s"; cases "tl (split_char d s)")
       (auto simp: join_with_Cons neq_Nil_conv)
qed simp

lemma split_char_no_sep: "d \<notin> set s \<Longrightarrow> split_char d s = [s]"
  by (induction s) auto

lemma split_char_append:
  "d \<notin> set a \<Longrightarrow> split_char d (a @ d # b) = a # split_char d b"
  by (induction a) auto

lemma index_of_from_some:
  "index_of_from i s t = Some j \<Longrightarrow> i \<le> j \<and> j \<le> i + length s \<and> starts_with (drop (j - i) s) t"
proof (induction i s t rule: index_of_from.induct)
  case (2 i c s t)
  show ?case
  proof (cases "starts_with (c # s) t")
    case True
    with 2(2) show ?thesis by simp
  next
    case False
    with 2 have ih: "Suc i \<le> j \<and> j \<le> Suc i + length s \<and> starts_with (drop (j - Suc i) s) t"
      by simp
    then have "j - i = Suc (j - Suc i)" by arith
    with ih show ?thesis by simp
  qed
qed (auto split: if_splits)

lemma index_of_some:
  "index_of s t = Some j \<Longrightarrow> j \<le> length s \<and> starts_with (drop j s) t"
  using index_of_from_some [of 0 s t j] by (simp add: index_of_def)

section \<open>Decimal numerals\<close>

definition is_digit :: "char \<Rightarrow> bool" where
  "is_digit c = (let n = code_unit c in 48 \<le> n \<and> n \<le> 57)"

definition digit_val :: "char \<Rightarrow> nat" where
  "digit_val c = code_unit c - 48"

definition digits_val :: "string \<Rightarrow> nat" where
  "digits_val ds = foldl (\<lambda>acc c. 10 * acc + digit_val c) 0 ds"

text \<open>\<open>parseInt(s, 10)\<close>: white space, a sign, then the longest run of digits; \<open>None\<close> is NaN.\<close>

definition parse_int :: "string \<Rightarrow> int option" where
  "parse_int s =
     (let t = trim_start s;
          neg = (case t of c # _ \<Rightarrow> c = CHR ''-'' | [] \<Rightarrow> False);
          u = (case t of c # r \<Rightarrow> if c = CHR ''-'' \<or> c = CHR ''+'' then r else t | [] \<Rightarrow> []);
          ds = takeWhile is_digit u
      in if ds = [] then None
         else Some (if neg then - int (digits_val ds) else int (digits_val ds)))"

definition digit_char :: "nat \<Rightarrow> char" where
  "digit_char n = char_of (48 + n)"

fun show_nat :: "nat \<Rightarrow> string" where
  "show_nat n = (if n < 10 then [digit_char n] else show_nat (n div 10) @ [digit_char (n mod 10)])"

declare show_nat.simps [simp del]

definition show_int :: "int \<Rightarrow> string" where
  "show_int i = (if i < 0 then CHR ''-'' # show_nat (nat (- i)) else show_nat (nat i))"

section \<open>Stable sorting with a comparator\<close>

fun insert_by :: "('a \<Rightarrow> 'a \<Rightarrow> int) \<Rightarrow> 'a \<Rightarrow> 'a list \<Rightarrow> 'a list" where
  "insert_by cmp x [] = [x]"
| "insert_by cmp x (y # ys) = (if cmp x y \<le> 0 then x # y # ys else y # insert_by cmp x ys)"

fun js_sort :: "('a \<Rightarrow> 'a \<Rightarrow> int) \<Rightarrow> 'a list \<Rightarrow> 'a list" where
  "js_sort cmp [] = []"
| "js_sort cmp (x # xs) = insert_by cmp x (js_sort cmp xs)"

lemma mset_insert_by [simp]: "mset (insert_by cmp x ys) = add_mset x (mset ys)"
  by (induction ys) auto

lemma mset_js_sort [simp]: "mset (js_sort cmp xs) = mset xs"
  by (induction xs) auto

lemma set_js_sort [simp]: "set (js_sort cmp xs) = set xs"
  by (metis mset_js_sort set_mset_mset)

lemma length_js_sort [simp]: "length (js_sort cmp xs) = length xs"
  by (metis mset_js_sort size_mset)

lemma distinct_js_sort [simp]: "distinct (js_sort cmp xs) = distinct xs"
  by (metis mset_js_sort mset_eq_imp_distinct_iff)

lemma map_insert_by:
  "map f (insert_by (\<lambda>a b. cmp (f a) (f b)) x ys) = insert_by cmp (f x) (map f ys)"
  by (induction ys) auto

lemma map_js_sort:
  "map f (js_sort (\<lambda>a b. cmp (f a) (f b)) xs) = js_sort cmp (map f xs)"
  by (induction xs) (auto simp: map_insert_by)

text \<open>
  What the code assumes of a comparator it sorts with (and of \<open>localeCompare\<close>): it is a
  total preorder. Then the result is ordered, and equal elements keep their order.
\<close>

locale comparator =
  fixes cmp :: "'a \<Rightarrow> 'a \<Rightarrow> int"
  assumes cmp_total: "cmp x y \<le> 0 \<or> cmp y x \<le> 0"
    and cmp_trans: "cmp x y \<le> 0 \<Longrightarrow> cmp y z \<le> 0 \<Longrightarrow> cmp x z \<le> 0"
begin

lemma sorted_insert_by:
  "sorted_wrt (\<lambda>a b. cmp a b \<le> 0) ys \<Longrightarrow> sorted_wrt (\<lambda>a b. cmp a b \<le> 0) (insert_by cmp x ys)"
proof (induction ys)
  case (Cons y ys)
  show ?case
  proof (cases "cmp x y \<le> 0")
    case True
    with Cons.prems show ?thesis using cmp_trans by auto
  next
    case False
    then have "cmp y x \<le> 0" using cmp_total by blast
    moreover have "set (insert_by cmp x ys) = insert x (set ys)"
      by (metis mset_insert_by set_mset_add_mset_insert set_mset_mset)
    ultimately show ?thesis using Cons False by auto
  qed
qed simp

lemma sorted_js_sort: "sorted_wrt (\<lambda>a b. cmp a b \<le> 0) (js_sort cmp xs)"
  by (induction xs) (auto intro: sorted_insert_by)

lemma js_sort_id: "sorted_wrt (\<lambda>a b. cmp a b \<le> 0) xs \<Longrightarrow> js_sort cmp xs = xs"
proof (induction xs)
  case (Cons x xs)
  then show ?case by (cases xs) auto
qed simp

lemma js_sort_idem: "js_sort cmp (js_sort cmp xs) = js_sort cmp xs"
  by (simp add: js_sort_id sorted_js_sort)

end

text \<open>Comparison by code units, the collation of every string of ASCII letters of one case.\<close>

fun code_unit_compare :: "string \<Rightarrow> string \<Rightarrow> int" where
  "code_unit_compare [] [] = 0"
| "code_unit_compare [] (c # t) = -1"
| "code_unit_compare (c # s) [] = 1"
| "code_unit_compare (c # s) (d # t) =
     (if code_unit c < code_unit d then -1
      else if code_unit d < code_unit c then 1
      else code_unit_compare s t)"

lemma code_unit_compare_total: "code_unit_compare s t \<le> 0 \<or> code_unit_compare t s \<le> 0"
  by (induction s t rule: code_unit_compare.induct) auto

lemma code_unit_compare_trans:
  "code_unit_compare s t \<le> 0 \<Longrightarrow> code_unit_compare t u \<le> 0 \<Longrightarrow> code_unit_compare s u \<le> 0"
proof (induction s u arbitrary: t rule: code_unit_compare.induct)
  case (3 c s)
  then show ?case by (cases t) auto
next
  case (4 c s d u)
  then show ?case by (cases t) (auto split: if_splits)
qed auto

interpretation code_units: comparator code_unit_compare
  by unfold_locales (use code_unit_compare_total code_unit_compare_trans in blast)+

section \<open>Lists\<close>

definition nth_opt :: "'a list \<Rightarrow> nat \<Rightarrow> 'a option" where
  "nth_opt xs i = (if i < length xs then Some (xs ! i) else None)"

fun find_index_from :: "nat \<Rightarrow> ('a \<Rightarrow> bool) \<Rightarrow> 'a list \<Rightarrow> nat option" where
  "find_index_from i P [] = None"
| "find_index_from i P (x # xs) = (if P x then Some i else find_index_from (Suc i) P xs)"

definition find_index :: "('a \<Rightarrow> bool) \<Rightarrow> 'a list \<Rightarrow> nat option" where
  "find_index P xs = find_index_from 0 P xs"

lemma find_index_from_some:
  "find_index_from i P xs = Some j \<Longrightarrow>
     i \<le> j \<and> j < i + length xs \<and> P (xs ! (j - i)) \<and> (\<forall>k < j - i. \<not> P (xs ! k))"
proof (induction i P xs rule: find_index_from.induct)
  case (2 i P x xs)
  show ?case
  proof (cases "P x")
    case False
    with 2 have ih: "Suc i \<le> j \<and> j < Suc i + length xs \<and> P (xs ! (j - Suc i))
        \<and> (\<forall>k < j - Suc i. \<not> P (xs ! k))" by simp
    then have eq: "j - i = Suc (j - Suc i)" by arith
    have "\<not> P ((x # xs) ! k)" if "k < j - i" for k
      using that ih eq False by (cases k) auto
    with ih eq show ?thesis by simp
  qed (use 2 in simp)
qed simp

lemma find_index_some:
  "find_index P xs = Some j \<Longrightarrow> j < length xs \<and> P (xs ! j) \<and> (\<forall>k < j. \<not> P (xs ! k))"
  using find_index_from_some [of 0 P xs j] by (simp add: find_index_def)

lemma find_index_from_none: "find_index_from i P xs = None \<longleftrightarrow> (\<forall>x \<in> set xs. \<not> P x)"
  by (induction i P xs rule: find_index_from.induct) auto

lemma find_index_none: "find_index P xs = None \<longleftrightarrow> (\<forall>x \<in> set xs. \<not> P x)"
  by (simp add: find_index_def find_index_from_none)

lemma find_some_iff: "find P xs = Some x \<Longrightarrow> P x \<and> x \<in> set xs"
  by (auto simp: find_Some_iff)

lemma nth_opt_some: "nth_opt xs i = Some x \<longleftrightarrow> i < length xs \<and> xs ! i = x"
  by (auto simp: nth_opt_def)

lemmas nth_opt_simps = nth_opt_def nth_append nth_list_update

end
