(* ===== verification/JsMap.thy ===== *)
theory JsMap
  imports Prelude
begin

text \<open>
  The JavaScript \<open>Map\<close> and \<open>Set\<close>: they iterate in insertion order, and the code relies on
  it (the oldest topic of a cache is its first key). A map is an association list in
  insertion order; setting a key it has keeps the key's place. The locale \<open>ordered_map\<close>
  states the contract the components use, and is interpreted on this model.
\<close>

type_synonym ('k, 'v) jsmap = "('k \<times> 'v) list"

definition jm_get :: "('k, 'v) jsmap \<Rightarrow> 'k \<Rightarrow> 'v option" where
  "jm_get m k = map_of m k"

definition jm_keys :: "('k, 'v) jsmap \<Rightarrow> 'k list" where
  "jm_keys m = map fst m"

definition jm_values :: "('k, 'v) jsmap \<Rightarrow> 'v list" where
  "jm_values m = map snd m"

definition jm_has :: "('k, 'v) jsmap \<Rightarrow> 'k \<Rightarrow> bool" where
  "jm_has m k = (k \<in> set (jm_keys m))"

fun jm_set :: "('k, 'v) jsmap \<Rightarrow> 'k \<Rightarrow> 'v \<Rightarrow> ('k, 'v) jsmap" where
  "jm_set [] k v = [(k, v)]"
| "jm_set ((k', v') # m) k v = (if k' = k then (k, v) # m else (k', v') # jm_set m k v)"

definition jm_delete :: "('k, 'v) jsmap \<Rightarrow> 'k \<Rightarrow> ('k, 'v) jsmap" where
  "jm_delete m k = filter (\<lambda>p. fst p \<noteq> k) m"

definition jm_size :: "('k, 'v) jsmap \<Rightarrow> nat" where
  "jm_size m = length m"

definition jm_wf :: "('k, 'v) jsmap \<Rightarrow> bool" where
  "jm_wf m = distinct (jm_keys m)"

definition js_add :: "'a list \<Rightarrow> 'a \<Rightarrow> 'a list" where
  "js_add xs x = (if x \<in> set xs then xs else xs @ [x])"

definition js_set_of :: "'a list \<Rightarrow> 'a list" where
  "js_set_of xs = foldl js_add [] xs"

text \<open>\<open>new Map(entries)\<close> and \<open>Object.fromEntries\<close>: a repeated key keeps its place and takes the last value.\<close>

definition js_map_of :: "('k \<times> 'v) list \<Rightarrow> ('k, 'v) jsmap" where
  "js_map_of es = foldl (\<lambda>m (k, v). jm_set m k v) [] es"

section \<open>Laws\<close>

lemma jm_nil [simp]: "jm_keys [] = []" "jm_values [] = []" "\<not> jm_has [] k" "jm_size [] = 0"
  by (simp_all add: jm_keys_def jm_values_def jm_has_def jm_size_def)

lemma jm_has_get: "jm_has m k \<longleftrightarrow> jm_get m k \<noteq> None"
  by (auto simp: jm_has_def jm_get_def jm_keys_def map_of_eq_None_iff)

lemma jm_get_empty [simp]: "jm_get [] k = None"
  by (simp add: jm_get_def)

lemma jm_get_set [simp]: "jm_get (jm_set m k v) k' = (if k' = k then Some v else jm_get m k')"
  by (induction m) (auto simp: jm_get_def)

lemma jm_get_delete [simp]: "jm_get (jm_delete m k) k' = (if k' = k then None else jm_get m k')"
  by (induction m) (auto simp: jm_get_def jm_delete_def)

lemma jm_keys_set:
  "jm_keys (jm_set m k v) = (if jm_has m k then jm_keys m else jm_keys m @ [k])"
  by (induction m) (force simp: jm_keys_def jm_has_def)+

lemma jm_keys_delete: "jm_keys (jm_delete m k) = filter (\<lambda>x. x \<noteq> k) (jm_keys m)"
  by (induction m) (auto simp: jm_keys_def jm_delete_def)

lemma jm_has_set [simp]: "jm_has (jm_set m k v) k' \<longleftrightarrow> k' = k \<or> jm_has m k'"
  by (auto simp: jm_has_get)

lemma jm_has_delete [simp]: "jm_has (jm_delete m k) k' \<longleftrightarrow> k' \<noteq> k \<and> jm_has m k'"
  by (auto simp: jm_has_get)

lemma jm_set_new: "\<not> jm_has m k \<Longrightarrow> jm_set m k v = m @ [(k, v)]"
  by (induction m) (auto simp: jm_has_def jm_keys_def)

lemma jm_delete_new: "\<not> jm_has m k \<Longrightarrow> jm_delete m k = m"
  by (auto simp: jm_has_def jm_keys_def jm_delete_def filter_id_conv)

lemma jm_wf_empty [simp]: "jm_wf []"
  by (simp add: jm_wf_def jm_keys_def)

lemma jm_wf_set [simp, intro]: "jm_wf m \<Longrightarrow> jm_wf (jm_set m k v)"
  by (auto simp: jm_wf_def jm_keys_set jm_has_def)

lemma jm_wf_delete [simp, intro]: "jm_wf m \<Longrightarrow> jm_wf (jm_delete m k)"
  by (auto simp: jm_wf_def jm_keys_delete)

lemma jm_keys_filter: "jm_keys (filter (\<lambda>p. P (fst p)) m) = filter P (jm_keys m)"
  by (induction m) (auto simp: jm_keys_def)

lemma jm_keys_filter_case: "jm_keys (filter (\<lambda>(k, x). P k) m) = filter P (jm_keys m)"
  using jm_keys_filter [of P m] by (simp add: case_prod_unfold)

lemma jm_wf_filter_pairs: "jm_wf q \<Longrightarrow> jm_wf (filter F q)"
  by (simp add: jm_wf_def jm_keys_def distinct_map_filter)

lemma set_jm_set: "set (jm_set q k v) \<subseteq> insert (k, v) (set q)"
  by (induction q k v rule: jm_set.induct) auto

lemma jm_get_filter_pairs: "jm_wf m \<Longrightarrow> jm_get (filter P m) k =
    (case jm_get m k of None \<Rightarrow> None | Some v \<Rightarrow> if P (k, v) then Some v else None)"
proof (induction m)
  case (Cons p m)
  then have "jm_wf m" "map_of m (fst p) = None"
    by (auto simp: jm_wf_def jm_keys_def map_of_eq_None_iff)
  with Cons.IH show ?case by (cases p) (auto simp: jm_get_def split: option.split)
qed (simp add: jm_get_def)

lemma jm_get_filter_some: "jm_wf m \<Longrightarrow> jm_get (filter P m) k = Some v \<longleftrightarrow> jm_get m k = Some v \<and> P (k, v)"
  by (auto simp: jm_get_filter_pairs split: option.splits)

lemma jm_get_map_values: "jm_get (map (\<lambda>(k, v). (k, f k v)) m) q = map_option (f q) (jm_get m q)"
  by (induction m) (auto simp: jm_get_def)

lemma jm_size_keys: "jm_size m = length (jm_keys m)"
  by (simp add: jm_size_def jm_keys_def)

lemma jm_size_delete:
  assumes "jm_wf m" "jm_has m k"
  shows "jm_size (jm_delete m k) = jm_size m - 1"
proof -
  have d: "distinct (jm_keys m)" and k: "k \<in> set (jm_keys m)"
    using assms by (auto simp: jm_wf_def jm_has_def)
  have "filter (\<lambda>x. x \<noteq> k) (jm_keys m) = remove1 k (jm_keys m)"
    using d by (simp add: distinct_remove1_removeAll removeAll_filter_not_eq eq_commute)
  with k show ?thesis by (simp add: jm_size_keys jm_keys_delete length_remove1)
qed

lemma jm_values_get: "jm_wf m \<Longrightarrow> v \<in> set (jm_values m) \<longleftrightarrow> (\<exists>k. jm_get m k = Some v)"
  unfolding jm_wf_def jm_values_def jm_get_def jm_keys_def
  by (metis (no_types, lifting) image_iff list.set_map map_of_SomeD map_of_is_SomeI prod.collapse snd_conv)

lemma set_js_add [simp]: "set (js_add xs x) = insert x (set xs)"
  by (auto simp: js_add_def)

lemma distinct_js_add [simp]: "distinct (js_add xs x) = distinct xs"
  by (auto simp: js_add_def)

lemma foldl_js_add: "set (foldl js_add acc xs) = set acc \<union> set xs \<and>
    (distinct acc \<longrightarrow> distinct (foldl js_add acc xs))"
  by (induction xs arbitrary: acc) auto

lemma js_set_of [simp]: "set (js_set_of xs) = set xs" "distinct (js_set_of xs)"
  using foldl_js_add [of "[]" xs] by (simp_all add: js_set_of_def)

lemma js_set_of_distinct: "distinct xs \<Longrightarrow> js_set_of xs = xs"
proof -
  have "distinct (acc @ xs) \<Longrightarrow> foldl js_add acc xs = acc @ xs" for acc
    by (induction xs arbitrary: acc) (auto simp: js_add_def)
  from this [of "[]"] show "distinct xs \<Longrightarrow> js_set_of xs = xs" by (simp add: js_set_of_def)
qed

lemma foldl_jm_set_distinct:
  "distinct (jm_keys (m @ es)) \<Longrightarrow> foldl (\<lambda>m (k, v). jm_set m k v) m es = m @ es"
proof (induction es arbitrary: m)
  case (Cons e es)
  obtain k v where e: "e = (k, v)" by fastforce
  with Cons.prems have "\<not> jm_has m k" by (auto simp: jm_has_def jm_keys_def)
  moreover have "distinct (jm_keys ((m @ [e]) @ es))" using Cons.prems by simp
  ultimately show ?case using Cons.IH [of "m @ [e]"] by (simp add: e jm_set_new)
qed simp

lemma js_map_of_distinct: "distinct (jm_keys es) \<Longrightarrow> js_map_of es = es"
  using foldl_jm_set_distinct [of "[]" es] by (simp add: js_map_of_def)

lemma jm_wf_js_map_of [simp]: "jm_wf (js_map_of es)"
proof -
  have "jm_wf m \<Longrightarrow> jm_wf (foldl (\<lambda>m (k, v). jm_set m k v) m es)" for m
    by (induction es arbitrary: m) auto
  then show ?thesis by (simp add: js_map_of_def)
qed

section \<open>The contract of an insertion-ordered map\<close>

locale ordered_map =
  fixes get :: "'m \<Rightarrow> 'k \<Rightarrow> 'v option"
    and put :: "'m \<Rightarrow> 'k \<Rightarrow> 'v \<Rightarrow> 'm"
    and del :: "'m \<Rightarrow> 'k \<Rightarrow> 'm"
    and keys :: "'m \<Rightarrow> 'k list"
    and wf :: "'m \<Rightarrow> bool"
  assumes get_put: "get (put m k v) k' = (if k' = k then Some v else get m k')"
    and get_del: "get (del m k) k' = (if k' = k then None else get m k')"
    and keys_put: "keys (put m k v) = (if k \<in> set (keys m) then keys m else keys m @ [k])"
    and keys_del: "keys (del m k) = filter (\<lambda>x. x \<noteq> k) (keys m)"
    and keys_get: "k \<in> set (keys m) \<longleftrightarrow> get m k \<noteq> None"
    and wf_keys: "wf m \<longleftrightarrow> distinct (keys m)"
begin

text \<open>Deleting a key and setting it again moves it to the end: most recently used last.\<close>

lemma refresh_keys: "keys (put (del m k) k v) = filter (\<lambda>x. x \<noteq> k) (keys m) @ [k]"
  by (simp add: keys_put keys_del)

lemma wf_put: "wf m \<Longrightarrow> wf (put m k v)"
  by (simp add: wf_keys keys_put)

lemma wf_del: "wf m \<Longrightarrow> wf (del m k)"
  by (simp add: wf_keys keys_del)

lemma del_first:
  "wf m \<Longrightarrow> keys m = k # ks \<Longrightarrow> keys (del m k) = ks"
  by (auto simp: wf_keys keys_del filter_id_conv)

end

interpretation jm: ordered_map jm_get jm_set jm_delete jm_keys jm_wf
  by unfold_locales
     (auto simp: jm_keys_set jm_keys_delete jm_has_def [symmetric] jm_has_get jm_wf_def)

section \<open>Bounded caches\<close>

text \<open>
  The pattern of the code's caches: refresh the key, then delete the oldest keys while
  the map is larger than its bound. One locale for all of them, over any insertion-ordered
  map, with the eviction as the provider's operation.
\<close>

locale bounded_cache = ordered_map get put del keys wf
  for get :: "'m \<Rightarrow> 'k \<Rightarrow> 'v option" and put del keys wf +
  fixes bound :: nat
    and store :: "'m \<Rightarrow> 'k \<Rightarrow> 'v \<Rightarrow> 'm"
  assumes bound_pos: "0 < bound"
    and store_keys: "wf m \<Longrightarrow> keys (store m k v) =
      drop (length (keys (put (del m k) k v)) - bound) (keys (put (del m k) k v))"
    and store_get: "wf m \<Longrightarrow> k' \<in> set (keys (store m k v)) \<Longrightarrow>
      get (store m k v) k' = get (put (del m k) k v) k'"
begin

lemma wf_store: "wf m \<Longrightarrow> wf (store m k v)"
  by (metis distinct_drop store_keys wf_del wf_keys wf_put)

lemma store_bounded: "wf m \<Longrightarrow> length (keys (store m k v)) \<le> bound"
  by (simp add: store_keys)

lemma store_newest: "wf m \<Longrightarrow> last (keys (store m k v)) = k \<and> keys (store m k v) \<noteq> []"
  using bound_pos by (auto simp: store_keys refresh_keys last_drop)

lemma store_hit: "wf m \<Longrightarrow> get (store m k v) k = Some v"
proof -
  assume w: "wf m"
  have "k \<in> set (keys (store m k v))"
    using store_newest [OF w, of k v] last_in_set by metis
  then show ?thesis by (simp add: store_get w get_put)
qed

text \<open>Nothing is lost while there is room.\<close>

lemma store_keeps:
  assumes w: "wf m" and room: "length (filter (\<lambda>x. x \<noteq> k) (keys m)) < bound" and ne: "k' \<noteq> k"
  shows "get (store m k v) k' = get m k'"
proof -
  have ks: "keys (store m k v) = filter (\<lambda>x. x \<noteq> k) (keys m) @ [k]"
    using room by (simp add: store_keys w refresh_keys)
  show ?thesis
  proof (cases "k' \<in> set (keys m)")
    case True
    then have "k' \<in> set (keys (store m k v))" using ks ne by simp
    then show ?thesis by (simp add: store_get w get_put get_del ne)
  next
    case False
    then have "k' \<notin> set (keys (store m k v))" using ks ne by simp
    with False show ?thesis by (metis keys_get)
  qed
qed

end

text \<open>\<open>while (m.size > bound) m.delete(m.keys().next().value)\<close>\<close>

function evict_oldest :: "nat \<Rightarrow> ('k, 'v) jsmap \<Rightarrow> ('k, 'v) jsmap" where
  "evict_oldest bound m =
     (if jm_size m > bound then evict_oldest bound (jm_delete m (hd (jm_keys m))) else m)"
  by pat_completeness auto
termination
proof (relation "measure (\<lambda>(bound, m). length m)", goal_cases)
  case (2 bound m)
  then obtain k v m' where "m = (k, v) # m'" by (cases m) (auto simp: jm_size_def)
  then show ?case
    by (simp add: jm_delete_def jm_keys_def le_imp_less_Suc)
qed simp

declare evict_oldest.simps [simp del]

lemma evict_oldest_drop: "jm_wf m \<Longrightarrow> evict_oldest bound m = drop (length m - bound) m"
proof (induction bound m rule: evict_oldest.induct)
  case (1 bound m)
  show ?case
  proof (cases "jm_size m > bound")
    case True
    then obtain k v m' where m: "m = (k, v) # m'" by (cases m) (auto simp: jm_size_def)
    with 1(2) have k: "k \<notin> fst ` set m'" by (auto simp: jm_wf_def jm_keys_def)
    then have del: "jm_delete m (hd (jm_keys m)) = m'"
      by (force simp: m jm_delete_def jm_keys_def filter_id_conv)
    have "jm_wf m'" using 1(2) m by (auto simp: jm_wf_def jm_keys_def)
    with 1(1) True del have "evict_oldest bound m' = drop (length m' - bound) m'" by simp
    moreover have "length m - bound = Suc (length m' - bound)"
      using True m by (auto simp: jm_size_def)
    moreover have "evict_oldest bound m = evict_oldest bound m'"
      using True del by (simp add: evict_oldest.simps [of bound m])
    ultimately show ?thesis by (simp add: m)
  next
    case False
    then show ?thesis by (simp add: evict_oldest.simps [of bound m] jm_size_def)
  qed
qed

definition cache_store :: "nat \<Rightarrow> ('k, 'v) jsmap \<Rightarrow> 'k \<Rightarrow> 'v \<Rightarrow> ('k, 'v) jsmap" where
  "cache_store bound m k v = evict_oldest bound (jm_set (jm_delete m k) k v)"

lemma jm_get_drop:
  assumes "jm_wf m" "k \<in> set (jm_keys (drop n m))"
  shows "jm_get (drop n m) k = jm_get m k"
proof -
  obtain v where v: "(k, v) \<in> set (drop n m)"
    using assms(2) by (auto simp: jm_keys_def)
  have "jm_get (drop n m) k = Some v"
    using assms(1) v unfolding jm_get_def
    by (intro map_of_is_SomeI) (simp_all add: jm_wf_def jm_keys_def drop_map [symmetric] distinct_drop)
  moreover have "jm_get m k = Some v"
    using assms(1) v unfolding jm_get_def
    by (intro map_of_is_SomeI) (auto simp: jm_wf_def jm_keys_def dest: in_set_dropD)
  ultimately show ?thesis by simp
qed

lemma cache_store_contract:
  "0 < bound \<Longrightarrow> bounded_cache jm_get jm_set jm_delete jm_keys jm_wf bound (cache_store bound)"
proof (unfold_locales, goal_cases)
  case (2 m k v)
  then show ?case by (simp add: cache_store_def evict_oldest_drop jm_keys_def drop_map)
next
  case (3 m k' k v)
  then show ?case
    by (simp only: cache_store_def evict_oldest_drop jm_wf_set jm_wf_delete jm_get_drop)
qed

end
