(* ===== verification/ApiGate.thy ===== *)
theory ApiGate
  imports JsMap
begin

text \<open>
  The gate in front of long requests (\<open>services/api/client.ts\<close>, \<open>RequestGate\<close> and
  \<open>gateLongRequests\<close>): at most \<open>slots\<close> of them are on the wire, the others wait in the order
  they came. A request is a number; the promise of its \<open>acquire\<close> is its ticket. The task of
  a granted request starts when its continuation runs, which is a step of its own. Grants
  and sends are logged in \<open>ga_granted\<close> and \<open>ga_sent\<close>.
\<close>

section \<open>The gate\<close>

datatype ticket = Waiting | Granted | Running | Released | Refused | Direct

record gate =
  ga_holders :: int
  ga_queue :: "nat list"
  ga_tickets :: "(nat, ticket) jsmap"
  ga_signals :: "(nat, nat) jsmap"
  ga_aborted :: "nat list"
  ga_asked :: "nat list"
  ga_granted :: "nat list"
  ga_sent :: "nat list"

definition LONG_REQUEST_SLOTS :: int where
  "LONG_REQUEST_SLOTS = 2"

definition new_gate :: gate where
  "new_gate = \<lparr>ga_holders = 0, ga_queue = [], ga_tickets = [], ga_signals = [], ga_aborted = [], ga_asked = [],
     ga_granted = [], ga_sent = []\<rparr>"

definition set_ticket :: "nat \<Rightarrow> ticket \<Rightarrow> gate \<Rightarrow> gate" where
  "set_ticket i t g = g\<lparr>ga_tickets := jm_set (ga_tickets g) i t\<rparr>"

definition grant :: "nat \<Rightarrow> gate \<Rightarrow> gate" where
  "grant i g = set_ticket i Granted (g\<lparr>ga_holders := ga_holders g + 1, ga_granted := ga_granted g @ [i]\<rparr>)"

definition aborted_by :: "nat option \<Rightarrow> gate \<Rightarrow> bool" where
  "aborted_by s g = (case s of None \<Rightarrow> False | Some c \<Rightarrow> c \<in> set (ga_aborted g))"

definition acquire :: "int \<Rightarrow> nat \<Rightarrow> nat option \<Rightarrow> gate \<Rightarrow> gate" where
  "acquire slots i s g =
     (if aborted_by s g then set_ticket i Refused g
      else if ga_holders g < slots then grant i g
      else set_ticket i Waiting
        (g\<lparr>ga_queue := ga_queue g @ [i], ga_signals := (case s of None \<Rightarrow> ga_signals g | Some c \<Rightarrow> jm_set (ga_signals g) i c)\<rparr>))"

definition on_abort :: "nat \<Rightarrow> gate \<Rightarrow> gate" where
  "on_abort i g = set_ticket i Refused (g\<lparr>ga_queue := remove1 i (ga_queue g)\<rparr>)"

text \<open>Giving a slot back; a slot that is no longer held is not given back twice.\<close>

definition release :: "nat \<Rightarrow> gate \<Rightarrow> gate" where
  "release i g =
     (if jm_get (ga_tickets g) i \<in> {Some Granted, Some Running}
      then let g1 = set_ticket i Released (g\<lparr>ga_holders := ga_holders g - 1\<rparr>) in
           case ga_queue g1 of [] \<Rightarrow> g1 | j # q \<Rightarrow> grant j (g1\<lparr>ga_queue := q\<rparr>)
      else g)"

section \<open>Requests\<close>

text \<open>
  \<open>Asked i long s\<close>: the request \<open>i\<close> is made, with the signal \<open>s\<close>; \<open>Resumed i\<close>: \<open>run\<close> goes on with
  the slot it was granted; \<open>Settled i\<close>: its answer, or its failure; \<open>Aborted c\<close>: a signal.
\<close>

datatype gate_event = Asked nat bool "nat option" | Resumed nat | Settled nat | Aborted nat

definition sent :: "nat \<Rightarrow> ticket \<Rightarrow> gate \<Rightarrow> gate" where
  "sent i t g = set_ticket i t (g\<lparr>ga_sent := ga_sent g @ [i]\<rparr>)"

definition gateLongRequests :: "int \<Rightarrow> nat \<Rightarrow> bool \<Rightarrow> nat option \<Rightarrow> gate \<Rightarrow> gate" where
  "gateLongRequests slots i long s g =
     (if long then acquire slots i s (g\<lparr>ga_asked := ga_asked g @ [i]\<rparr>) else sent i Direct g)"

definition abort :: "nat \<Rightarrow> gate \<Rightarrow> gate" where
  "abort c g = fold on_abort (filter (\<lambda>i. jm_get (ga_signals g) i = Some c) (ga_queue g)) (g\<lparr>ga_aborted := js_add (ga_aborted g) c\<rparr>)"

definition settle_request :: "nat \<Rightarrow> gate \<Rightarrow> gate" where
  "settle_request i g =
     (case jm_get (ga_tickets g) i of
        Some Running \<Rightarrow> release i g
      | Some Direct \<Rightarrow> set_ticket i Released g
      | _ \<Rightarrow> g)"

fun gate_do :: "int \<Rightarrow> gate_event \<Rightarrow> gate \<Rightarrow> gate" where
  "gate_do slots (Asked i long s) g = (if jm_has (ga_tickets g) i then g else gateLongRequests slots i long s g)"
| "gate_do slots (Resumed i) g = (if jm_get (ga_tickets g) i = Some Granted then sent i Running g else g)"
| "gate_do slots (Settled i) g = settle_request i g"
| "gate_do slots (Aborted c) g = abort c g"

definition gate_run :: "int \<Rightarrow> gate_event list \<Rightarrow> gate \<Rightarrow> gate" where
  "gate_run slots evs g = foldl (\<lambda>g ev. gate_do slots ev g) g evs"

text \<open>How many slots a sequence of events gives back.\<close>

fun releases :: "int \<Rightarrow> gate_event list \<Rightarrow> gate \<Rightarrow> nat" where
  "releases slots [] g = 0"
| "releases slots (ev # evs) g =
     (case ev of Settled i \<Rightarrow> if jm_get (ga_tickets g) i = Some Running then 1 else 0 | _ \<Rightarrow> 0)
       + releases slots evs (gate_do slots ev g)"

section \<open>The invariant\<close>

definition holding :: "gate \<Rightarrow> nat set" where
  "holding g = {i. jm_get (ga_tickets g) i \<in> {Some Granted, Some Running}}"

definition admitted :: "gate \<Rightarrow> nat \<Rightarrow> bool" where
  "admitted g i = (jm_get (ga_tickets g) i \<noteq> Some Refused)"

definition gate_ok :: "int \<Rightarrow> gate \<Rightarrow> bool" where
  "gate_ok slots g \<longleftrightarrow>
     ga_holders g = int (card (holding g)) \<and> ga_holders g \<le> slots
     \<and> (ga_queue g \<noteq> [] \<longrightarrow> ga_holders g = slots)
     \<and> distinct (ga_queue g) \<and> set (ga_queue g) = {i. jm_get (ga_tickets g) i = Some Waiting}
     \<and> ga_granted g @ ga_queue g = filter (admitted g) (ga_asked g)
     \<and> distinct (ga_asked g)
     \<and> (\<forall>i \<in> set (ga_asked g). jm_get (ga_tickets g) i \<notin> {None, Some Direct})
     \<and> (\<forall>i. jm_get (ga_tickets g) i \<in> {Some Waiting, Some Granted, Some Running, Some Refused} \<longrightarrow> i \<in> set (ga_asked g))
     \<and> distinct (ga_sent g)
     \<and> (\<forall>i \<in> set (ga_sent g). jm_get (ga_tickets g) i \<in> {Some Running, Some Released, Some Direct})"

lemma ticket_set [simp]: "jm_get (ga_tickets (set_ticket i t g)) j = (if j = i then Some t else jm_get (ga_tickets g) j)"
  by (simp add: set_ticket_def)

lemma set_ticket_same [simp]:
  "ga_holders (set_ticket i t g) = ga_holders g" "ga_queue (set_ticket i t g) = ga_queue g"
  "ga_signals (set_ticket i t g) = ga_signals g" "ga_aborted (set_ticket i t g) = ga_aborted g"
  "ga_asked (set_ticket i t g) = ga_asked g" "ga_granted (set_ticket i t g) = ga_granted g"
  "ga_sent (set_ticket i t g) = ga_sent g"
  by (simp_all add: set_ticket_def)

lemma finite_holding [simp]: "finite (holding g)"
proof -
  have "holding g \<subseteq> set (jm_keys (ga_tickets g))"
    by (auto simp: holding_def jm_has_def [symmetric] jm_has_get)
  then show ?thesis by (rule finite_subset) simp
qed

lemma holding_set_ticket [simp]:
  "holding (set_ticket i t g) = (if t \<in> {Granted, Running} then insert i (holding g) else holding g - {i})"
  by (auto simp: holding_def)

lemma holding_update [simp]:
  "holding (g\<lparr>ga_holders := h\<rparr>) = holding g" "holding (g\<lparr>ga_queue := q\<rparr>) = holding g"
  "holding (g\<lparr>ga_asked := a\<rparr>) = holding g" "holding (g\<lparr>ga_sent := a\<rparr>) = holding g"
  "holding (g\<lparr>ga_granted := a\<rparr>) = holding g"
  "holding (g\<lparr>ga_aborted := a\<rparr>) = holding g" "holding (g\<lparr>ga_signals := m\<rparr>) = holding g"
  by (simp_all add: holding_def)

lemma admitted_set_ticket [simp]: "admitted (set_ticket i t g) = (admitted g)(i := (t \<noteq> Refused))"
  by (rule ext) (simp add: admitted_def)

lemma admitted_update [simp]:
  "admitted (g\<lparr>ga_holders := h\<rparr>) = admitted g" "admitted (g\<lparr>ga_queue := q\<rparr>) = admitted g"
  "admitted (g\<lparr>ga_asked := a\<rparr>) = admitted g" "admitted (g\<lparr>ga_sent := a\<rparr>) = admitted g"
  "admitted (g\<lparr>ga_granted := a\<rparr>) = admitted g"
  "admitted (g\<lparr>ga_aborted := a\<rparr>) = admitted g" "admitted (g\<lparr>ga_signals := m\<rparr>) = admitted g"
  by (simp_all add: admitted_def fun_eq_iff)

lemma filter_upd_other [simp]: "i \<notin> set xs \<Longrightarrow> filter (f(i := b)) xs = filter f xs"
  by (rule filter_cong) auto

lemma filter_upd_false: "filter (f(i := False)) xs = removeAll i (filter f xs)"
  by (induction xs) auto

lemma admitted_idem [simp]: "admitted g i \<Longrightarrow> (admitted g)(i := True) = admitted g"
  by (simp add: fun_upd_idem)

lemma gate_ok_new [inv_intros]: "0 \<le> slots \<Longrightarrow> gate_ok slots new_gate"
  by (simp add: gate_ok_def new_gate_def holding_def)

text \<open>A request that was not made before.\<close>

lemma fresh_request:
  assumes "gate_ok slots g" "jm_get (ga_tickets g) i = None"
  shows "i \<notin> set (ga_asked g)" "i \<notin> set (ga_sent g)" "i \<notin> holding g" "i \<notin> set (ga_queue g)"
  using assms by (auto simp: gate_ok_def holding_def)

lemma gate_ok_direct [inv_intros]:
  assumes "gate_ok slots g" "jm_get (ga_tickets g) i = None"
  shows "gate_ok slots (sent i Direct g)"
  using assms fresh_request [OF assms] unfolding gate_ok_def by (auto simp: sent_def)

lemma gate_ok_asked [inv_intros]:
  assumes "gate_ok slots g" "jm_get (ga_tickets g) i = None"
  shows "gate_ok slots (gateLongRequests slots i long s g)"
proof (cases long)
  case True
  then show ?thesis
    using assms fresh_request [OF assms] unfolding gate_ok_def
    by (cases s) (auto simp: gateLongRequests_def acquire_def aborted_by_def grant_def)
qed (use gate_ok_direct [OF assms] in \<open>simp add: gateLongRequests_def\<close>)

lemma gate_ok_resumed [inv_intros]:
  assumes "gate_ok slots g" "jm_get (ga_tickets g) i = Some Granted"
  shows "gate_ok slots (sent i Running g)"
proof -
  have i: "i \<in> holding g" "i \<notin> set (ga_sent g)" "admitted g i"
    using assms by (auto simp: gate_ok_def holding_def admitted_def)
  then show ?thesis
    using assms unfolding gate_ok_def by (auto simp: sent_def insert_absorb)
qed

lemma gate_ok_released [inv_intros]:
  assumes ok: "gate_ok slots g" and i: "jm_get (ga_tickets g) i = Some Running"
  shows "gate_ok slots (release i g)"
proof -
  have h: "i \<in> holding g" "admitted g i" using i by (simp_all add: holding_def admitted_def)
  then have "0 < card (holding g)" by (auto simp: card_gt_0_iff)
  with h have c: "int (card (holding g - {i})) = int (card (holding g)) - 1"
    by (simp add: card_Diff_singleton)
  then have c': "int (card (holding g) - Suc 0) = int (card (holding g)) - 1" using h by (simp add: card_Diff_singleton)
  show ?thesis
  proof (cases "ga_queue g")
    case Nil
    then show ?thesis using ok i h unfolding gate_ok_def release_def Let_def by (auto simp: c')
  next
    case (Cons j q)
    then have "j \<in> set (ga_queue g)" by simp
    with ok have w: "jm_get (ga_tickets g) j = Some Waiting" unfolding gate_ok_def by blast
    with ok Cons have j: "jm_get (ga_tickets g) j = Some Waiting" "j \<notin> holding g" "j \<noteq> i" "j \<notin> set q" "j \<notin> set (ga_sent g)" "admitted g j"
      using i unfolding gate_ok_def by (auto simp: holding_def admitted_def)
    then have "int (card (insert j (holding g - {i}))) = int (card (holding g))" using c by simp
    then show ?thesis using ok i h j Cons unfolding gate_ok_def release_def Let_def by (auto simp: grant_def)
  qed
qed

lemma gate_ok_answered [inv_intros]:
  assumes "gate_ok slots g" "jm_get (ga_tickets g) i = Some Direct"
  shows "gate_ok slots (set_ticket i Released g)"
proof -
  have "i \<notin> set (ga_asked g)" "i \<notin> holding g" using assms by (auto simp: gate_ok_def holding_def)
  then show ?thesis using assms unfolding gate_ok_def by auto
qed

lemma gate_ok_on_abort:
  assumes ok: "gate_ok slots g" and i: "i \<in> set (ga_queue g)"
  shows "gate_ok slots (on_abort i g)"
proof -
  have w: "jm_get (ga_tickets g) i = Some Waiting" using ok i unfolding gate_ok_def by simp
  then have n: "i \<notin> holding g" "i \<notin> set (ga_sent g)" "i \<in> set (ga_asked g)" using ok unfolding gate_ok_def by (auto simp: holding_def)
  have all: "ga_granted g @ ga_queue g = filter (admitted g) (ga_asked g)" and d: "distinct (ga_asked g)" "distinct (ga_queue g)"
    using ok unfolding gate_ok_def by simp_all
  then have "distinct (ga_granted g @ ga_queue g)" by simp
  with i have g: "i \<notin> set (ga_granted g)" by auto
  have "filter ((admitted g)(i := False)) (ga_asked g) = removeAll i (ga_granted g @ ga_queue g)"
    by (simp only: filter_upd_false all)
  also have "\<dots> = ga_granted g @ remove1 i (ga_queue g)"
    using g d(2) by (simp add: distinct_remove1_removeAll)
  finally have eq: "ga_granted g @ remove1 i (ga_queue g) = filter ((admitted g)(i := False)) (ga_asked g)" ..
  show ?thesis
    using ok w n d eq unfolding gate_ok_def on_abort_def by auto
qed

lemma gate_ok_on_aborts:
  "gate_ok slots g \<Longrightarrow> distinct js \<Longrightarrow> set js \<subseteq> set (ga_queue g) \<Longrightarrow> gate_ok slots (fold on_abort js g)"
proof (induction js arbitrary: g)
  case (Cons i js)
  from Cons.prems have "distinct (ga_queue g)" by (simp add: gate_ok_def)
  with Cons.prems have "set js \<subseteq> set (ga_queue (on_abort i g))" by (auto simp: on_abort_def)
  with Cons show ?case by (simp add: gate_ok_on_abort)
qed simp

lemma gate_ok_abort [inv_intros]: "gate_ok slots g \<Longrightarrow> gate_ok slots (abort c g)"
  unfolding abort_def by (rule gate_ok_on_aborts) (auto simp: gate_ok_def)

lemma gate_ok_do [inv_intros]: "gate_ok slots g \<Longrightarrow> gate_ok slots (gate_do slots ev g)"
  by (cases ev) (auto simp: settle_request_def jm_has_get intro!: inv_intros split: option.split ticket.split)

lemma gate_ok_run [inv_intros]: "gate_ok slots g \<Longrightarrow> gate_ok slots (gate_run slots evs g)"
  unfolding gate_run_def by (induction evs arbitrary: g) (simp_all add: gate_ok_do)

section \<open>No one waits for ever\<close>

definition ahead :: "nat \<Rightarrow> nat list \<Rightarrow> nat" where
  "ahead i q = length (takeWhile (\<lambda>j. j \<noteq> i) q)"

lemma ahead_append [simp]: "i \<in> set q \<Longrightarrow> ahead i (q @ r) = ahead i q"
  by (simp add: ahead_def takeWhile_append1)

lemma ahead_Cons [simp]: "ahead i (j # q) = (if j = i then 0 else Suc (ahead i q))"
  by (simp add: ahead_def)

lemma ahead_nth: "distinct q \<Longrightarrow> p < length q \<Longrightarrow> ahead (q ! p) q = p"
proof (induction q arbitrary: p)
  case (Cons j q)
  then show ?case by (cases p) auto
qed simp

lemma ahead_remove1: "i \<in> set (remove1 j q) \<Longrightarrow> distinct q \<Longrightarrow> ahead i (remove1 j q) \<le> ahead i q"
  by (induction q) (auto split: if_splits)

lemma queue_on_aborts: "ga_queue (fold on_abort js g) = fold remove1 js (ga_queue g)"
  by (induction js arbitrary: g) (simp_all add: on_abort_def)

lemma set_removes: "set (fold remove1 js q) \<subseteq> set q"
  by (induction js arbitrary: q) (auto dest!: subsetD intro: notin_set_remove1 dest: set_remove1_subset [THEN subsetD])

lemma ahead_removes: "i \<in> set (fold remove1 js q) \<Longrightarrow> distinct q \<Longrightarrow> ahead i (fold remove1 js q) \<le> ahead i q"
proof (induction js arbitrary: q)
  case (Cons j js)
  then have "i \<in> set (remove1 j q)" using set_removes by fastforce
  with Cons.prems have "ahead i (remove1 j q) \<le> ahead i q" by (simp add: ahead_remove1)
  moreover have "ahead i (fold remove1 js (remove1 j q)) \<le> ahead i (remove1 j q)"
    using Cons.prems by (intro Cons.IH) simp_all
  ultimately show ?case by simp
qed simp

lemma queue_abort: "ga_queue (abort c g) = fold remove1 (filter (\<lambda>i. jm_get (ga_signals g) i = Some c) (ga_queue g)) (ga_queue g)"
  by (simp add: abort_def queue_on_aborts)

text \<open>A request that has left the queue does not come back; every slot given back moves the rest up.\<close>

lemma left_queue:
  assumes "gate_ok slots g" "jm_has (ga_tickets g) i" "i \<notin> set (ga_queue g)"
  shows "i \<notin> set (ga_queue (gate_do slots ev g))"
proof (cases ev)
  case (Settled j)
  then show ?thesis using assms(3)
    by (auto simp: settle_request_def release_def Let_def grant_def split: option.split ticket.split list.split)
next
  case (Aborted c)
  then show ?thesis using assms(3) set_removes by (fastforce simp: queue_abort)
qed (use assms in \<open>auto simp: gateLongRequests_def acquire_def sent_def grant_def\<close>)

lemma tickets_kept: "jm_has (ga_tickets g) i \<Longrightarrow> jm_has (ga_tickets (gate_do slots ev g)) i"
proof (cases ev)
  case (Aborted c)
  have "jm_has (ga_tickets (fold on_abort js h)) i" if "jm_has (ga_tickets h) i" for js h
    using that by (induction js arbitrary: h) (simp_all add: on_abort_def set_ticket_def)
  then show "jm_has (ga_tickets g) i \<Longrightarrow> ?thesis" using Aborted by (simp add: abort_def)
qed (auto simp: gateLongRequests_def acquire_def sent_def grant_def settle_request_def release_def Let_def set_ticket_def
       split: option.split ticket.split list.split)

lemma moves_up:
  assumes "gate_ok slots g" "i \<in> set (ga_queue g)" "i \<in> set (ga_queue (gate_do slots ev g))"
  shows "ahead i (ga_queue (gate_do slots ev g)) + releases slots [ev] g \<le> ahead i (ga_queue g)"
proof (cases ev)
  case (Asked j long s)
  then show ?thesis using assms by (auto simp: gateLongRequests_def acquire_def sent_def grant_def)
next
  case (Settled j)
  have "distinct (ga_queue g)" using assms(1) by (simp add: gate_ok_def)
  with Settled show ?thesis using assms(2,3)
    by (auto simp: settle_request_def release_def Let_def grant_def split: option.splits ticket.splits list.splits)
next
  case (Aborted c)
  have "distinct (ga_queue g)" using assms(1) by (simp add: gate_ok_def)
  with Aborted show ?thesis using assms(3) by (simp add: queue_abort ahead_removes)
qed (use assms in \<open>auto simp: sent_def\<close>)

lemma gate_run_Cons [simp]: "gate_run slots (ev # evs) g = gate_run slots evs (gate_do slots ev g)"
  by (simp add: gate_run_def)

lemma gate_run_Nil [simp]: "gate_run slots [] g = g"
  by (simp add: gate_run_def)

lemma out_of_queue:
  "gate_ok slots g \<Longrightarrow> jm_has (ga_tickets g) i \<Longrightarrow> i \<notin> set (ga_queue g) \<Longrightarrow> i \<notin> set (ga_queue (gate_run slots evs g))"
  by (induction evs arbitrary: g) (simp_all add: gate_ok_do tickets_kept left_queue)

lemma still_ahead:
  "gate_ok slots g \<Longrightarrow> i \<in> set (ga_queue g) \<Longrightarrow> i \<in> set (ga_queue (gate_run slots evs g)) \<Longrightarrow>
    ahead i (ga_queue (gate_run slots evs g)) + releases slots evs g \<le> ahead i (ga_queue g)"
proof (induction evs arbitrary: g)
  case (Cons ev evs)
  let ?g = "gate_do slots ev g"
  have "jm_has (ga_tickets g) i" using Cons.prems(1,2) by (auto simp: gate_ok_def jm_has_get)
  then have i: "i \<in> set (ga_queue ?g)"
    using Cons.prems out_of_queue [of slots ?g i evs] by (auto simp: gate_ok_do tickets_kept)
  then have "ahead i (ga_queue (gate_run slots evs ?g)) + releases slots evs ?g \<le> ahead i (ga_queue ?g)"
    using Cons by (simp add: gate_ok_do)
  moreover have "ahead i (ga_queue ?g) + releases slots [ev] g \<le> ahead i (ga_queue g)"
    by (rule moves_up [OF Cons.prems(1,2) i])
  ultimately show ?case by simp
qed simp

end
