(* ===== verification/ApiClient.thy ===== *)
theory ApiClient
  imports JsMap
begin

text \<open>
  The HTTP client of the backend's API (\<open>services/api/client.ts\<close>, \<open>ApiClient\<close>): a cache of
  answers for a minute, one round trip for identical reads under way, invalidation by a part
  of the key, and the recovery of a lost session. A round trip of \<open>fetchAndCache\<close> is an entry
  of \<open>cl_fetches\<close>, its promise the entry's stage; what each caller is given (a cached value or
  the promise of a round trip) is logged in \<open>cl_callers\<close>, what is sent and shown in \<open>cl_out\<close>.
  The text of \<open>JSON.stringify(params || {})\<close> is an argument. Left out: the log, the counters
  for the debug panel, the base URL and the header with the secret.
\<close>

section \<open>State\<close>

record failure =
  fl_status :: "int option"
  fl_error :: "string option"
  fl_refreshHeader :: bool

datatype 'd stage = OnWire | Recovering failure | Answered 'd | Failed failure

record 'd fetch =
  fe_key :: string
  fe_useCache :: bool
  fe_shared :: "string option"
  fe_stage :: "'d stage"
  fe_retried :: bool

datatype 'd handed = FromCache 'd | FromFetch nat

datatype api_out = Sent nat | RefreshSession | RecoveryToast | SessionInvalid

record 'd client =
  cl_cache :: "(string, 'd \<times> int) jsmap"
  cl_inflight :: "(string, nat) jsmap"
  cl_fetches :: "'d fetch list"
  cl_refreshing :: bool
  cl_callers :: "'d handed list"
  cl_out :: "api_out list"

definition CACHE_MS :: int where
  "CACHE_MS = 60000"

definition CACHE_LIMIT :: nat where
  "CACHE_LIMIT = 500"

definition new_client :: "'d client" where
  "new_client = \<lparr>cl_cache = [], cl_inflight = [], cl_fetches = [], cl_refreshing = False, cl_callers = [], cl_out = []\<rparr>"

definition getCacheKey :: "string \<Rightarrow> string \<Rightarrow> string" where
  "getCacheKey endpoint params = endpoint @ '':'' @ params"

section \<open>Reads\<close>

definition fetchAndCache :: "bool \<Rightarrow> string \<Rightarrow> string option \<Rightarrow> 'd client \<Rightarrow> 'd client" where
  "fetchAndCache useCache cacheKey shared c =
     c\<lparr>cl_fetches := cl_fetches c @ [\<lparr>fe_key = cacheKey, fe_useCache = useCache, fe_shared = shared, fe_stage = OnWire, fe_retried = False\<rparr>],
       cl_out := cl_out c @ [Sent (length (cl_fetches c))]\<rparr>"

definition give :: "'d handed \<Rightarrow> 'd client \<Rightarrow> 'd client" where
  "give g c = c\<lparr>cl_callers := cl_callers c @ [g]\<rparr>"

text \<open>The part \<open>request\<close> and \<open>requestFresh\<close> have in common: join the round trip under way, or start one.\<close>

definition join_or_start :: "string \<Rightarrow> bool \<Rightarrow> 'd client \<Rightarrow> 'd client" where
  "join_or_start key useCache c =
     (case jm_get (cl_inflight c) key of
        Some pending \<Rightarrow> give (FromFetch pending) c
      | None \<Rightarrow>
          let r = length (cl_fetches c) in
          give (FromFetch r) ((fetchAndCache useCache key (Some key) c)\<lparr>cl_inflight := jm_set (cl_inflight c) key r\<rparr>))"

definition api_request :: "string \<Rightarrow> string \<Rightarrow> bool \<Rightarrow> bool \<Rightarrow> int \<Rightarrow> 'd client \<Rightarrow> 'd client" where
  "api_request endpoint params useCache hasSignal now c =
     (let cacheKey = getCacheKey endpoint params in
      case (if useCache then jm_get (cl_cache c) cacheKey else None) of
        Some (d, timestamp) \<Rightarrow>
          if now - timestamp < CACHE_MS then give (FromCache d) c
          else if hasSignal then give (FromFetch (length (cl_fetches c))) (fetchAndCache useCache cacheKey None c)
          else join_or_start cacheKey True c
      | None \<Rightarrow>
          if \<not> useCache \<or> hasSignal then give (FromFetch (length (cl_fetches c))) (fetchAndCache useCache cacheKey None c)
          else join_or_start cacheKey True c)"

definition fresh_key :: "string \<Rightarrow> string \<Rightarrow> string" where
  "fresh_key endpoint params = ''fresh:'' @ getCacheKey endpoint params"

definition requestFresh :: "string \<Rightarrow> string \<Rightarrow> 'd client \<Rightarrow> 'd client" where
  "requestFresh endpoint params = join_or_start (fresh_key endpoint params) False"

section \<open>Answers\<close>

definition set_stage :: "nat \<Rightarrow> 'd stage \<Rightarrow> 'd client \<Rightarrow> 'd client" where
  "set_stage r s c = c\<lparr>cl_fetches := (cl_fetches c)[r := (cl_fetches c ! r)\<lparr>fe_stage := s\<rparr>]\<rparr>"

text \<open>Storing an answer; past the limit the old entries go, then the first ones.\<close>

definition store_answer :: "string \<Rightarrow> 'd \<Rightarrow> int \<Rightarrow> (string, 'd \<times> int) jsmap \<Rightarrow> (string, 'd \<times> int) jsmap" where
  "store_answer key d now cache =
     (let stored = jm_set cache key (d, now) in
      if jm_size stored > CACHE_LIMIT
      then evict_oldest CACHE_LIMIT (filter (\<lambda>(k, v, timestamp). \<not> timestamp < now - CACHE_MS) stored)
      else stored)"

definition answer_came :: "nat \<Rightarrow> 'd \<Rightarrow> int \<Rightarrow> 'd client \<Rightarrow> 'd client" where
  "answer_came r d now c =
     (let f = cl_fetches c ! r;
          c1 = set_stage r (Answered d) c
      in if fe_useCache f then c1\<lparr>cl_cache := store_answer (fe_key f) d now (cl_cache c1)\<rparr> else c1)"

text \<open>\<open>request.then(forget, forget)\<close>, once the round trip has settled.\<close>

definition forget :: "nat \<Rightarrow> 'd client \<Rightarrow> 'd client" where
  "forget r c =
     (case fe_shared (cl_fetches c ! r) of
        None \<Rightarrow> c
      | Some key \<Rightarrow> if jm_get (cl_inflight c) key = Some r then c\<lparr>cl_inflight := jm_delete (cl_inflight c) key\<rparr> else c)"

section \<open>Recovering the session\<close>

definition shown :: "api_out list \<Rightarrow> 'd client \<Rightarrow> 'd client" where
  "shown os c = c\<lparr>cl_out := cl_out c @ os\<rparr>"

definition session_lost :: "failure \<Rightarrow> bool" where
  "session_lost f = (fl_status f = Some 403
     \<and> (fl_error f = Some ''session_secret_mismatch'' \<or> fl_error f = Some ''session_secret_missing'' \<or> fl_refreshHeader f))"

text \<open>The response interceptor: a lost session is refreshed, by one refresh for all that wait.\<close>

definition failed :: "nat \<Rightarrow> failure \<Rightarrow> 'd client \<Rightarrow> 'd client" where
  "failed r f c =
     (if session_lost f
      then set_stage r (Recovering f)
             (if cl_refreshing c then c else shown [RefreshSession] (c\<lparr>cl_refreshing := True\<rparr>))
      else set_stage r (Failed f)
             (if fl_status f = Some 403 \<and> fl_error f = Some ''invalid_session'' then shown [SessionInvalid] c else c))"

definition go_on :: "bool \<Rightarrow> nat \<Rightarrow> 'd client \<Rightarrow> 'd client" where
  "go_on refreshed r c =
     (case fe_stage (cl_fetches c ! r) of
        Recovering f \<Rightarrow>
          if refreshed \<and> \<not> fe_retried (cl_fetches c ! r)
          then shown [Sent r] (c\<lparr>cl_fetches := (cl_fetches c)[r := (cl_fetches c ! r)\<lparr>fe_stage := OnWire, fe_retried := True\<rparr>]\<rparr>)
          else shown [RecoveryToast, SessionInvalid] (set_stage r (Failed f) c)
      | _ \<Rightarrow> c)"

definition refresh_done :: "bool \<Rightarrow> 'd client \<Rightarrow> 'd client" where
  "refresh_done refreshed c = fold (go_on refreshed) [0..<length (cl_fetches c)] (c\<lparr>cl_refreshing := False\<rparr>)"

section \<open>Invalidation\<close>

definition invalidateCachePattern :: "string \<Rightarrow> 'd client \<Rightarrow> 'd client" where
  "invalidateCachePattern pattern c =
     c\<lparr>cl_cache := filter (\<lambda>(k, v). \<not> str_includes k pattern) (cl_cache c),
       cl_inflight := filter (\<lambda>(k, v). \<not> str_includes k pattern) (cl_inflight c)\<rparr>"

definition clearCache :: "'d client \<Rightarrow> 'd client" where
  "clearCache c = c\<lparr>cl_cache := [], cl_inflight := []\<rparr>"

definition invalidateCache :: "string option \<Rightarrow> 'd client \<Rightarrow> 'd client" where
  "invalidateCache pattern c = (if truthy_str pattern then invalidateCachePattern (the pattern) c else clearCache c)"

section \<open>A session\<close>

datatype 'd client_event =
    Request string string bool bool int
  | RequestFresh string string
  | Answer nat 'd int
  | Failure nat failure
  | Forget nat
  | RefreshDone bool
  | Invalidate "string option"
  | InvalidatePattern string

definition stage_of :: "nat \<Rightarrow> 'd client \<Rightarrow> 'd stage option" where
  "stage_of r c = map_option fe_stage (nth_opt (cl_fetches c) r)"

definition settled :: "'d stage \<Rightarrow> bool" where
  "settled s = (case s of Answered d \<Rightarrow> True | Failed f \<Rightarrow> True | _ \<Rightarrow> False)"

fun client_do :: "'d client_event \<Rightarrow> 'd client \<Rightarrow> 'd client" where
  "client_do (Request endpoint params useCache hasSignal now) c = api_request endpoint params useCache hasSignal now c"
| "client_do (RequestFresh endpoint params) c = requestFresh endpoint params c"
| "client_do (Answer r d now) c = (if stage_of r c = Some OnWire then answer_came r d now c else c)"
| "client_do (Failure r f) c = (if stage_of r c = Some OnWire then failed r f c else c)"
| "client_do (Forget r) c = (case stage_of r c of None \<Rightarrow> c | Some s \<Rightarrow> if settled s then forget r c else c)"
| "client_do (RefreshDone ok) c = (if cl_refreshing c then refresh_done ok c else c)"
| "client_do (Invalidate pattern) c = invalidateCache pattern c"
| "client_do (InvalidatePattern pattern) c = invalidateCachePattern pattern c"

definition client_run :: "'d client_event list \<Rightarrow> 'd client \<Rightarrow> 'd client" where
  "client_run evs c = foldl (\<lambda>c ev. client_do ev c) c evs"

definition client_reachable :: "'d client \<Rightarrow> bool" where
  "client_reachable c = (\<exists>evs. c = client_run evs new_client)"

text \<open>Whether an event is an invalidation, and the key a read is shared under.\<close>

fun invalidates :: "'d client_event \<Rightarrow> bool" where
  "invalidates (Invalidate p) = True"
| "invalidates (InvalidatePattern p) = True"
| "invalidates ev = False"

fun read_key :: "'d client_event \<Rightarrow> string option" where
  "read_key (Request endpoint params useCache hasSignal now) = Some (getCacheKey endpoint params)"
| "read_key (RequestFresh endpoint params) = Some (fresh_key endpoint params)"
| "read_key ev = None"

section \<open>What the operations leave alone\<close>

lemma client_run_simps [simp]: "client_run [] c = c" "client_run (ev # evs) c = client_run evs (client_do ev c)"
  by (simp_all add: client_run_def)

lemma client_run_append: "client_run (evs @ fs) c = client_run fs (client_run evs c)"
  by (simp add: client_run_def)

lemma client_run_invariant:
  assumes "P c" "\<And>c ev. P c \<Longrightarrow> Q ev \<Longrightarrow> P (client_do ev c)" "list_all Q evs"
  shows "P (client_run evs c)"
  using assms(1,3) by (induction evs arbitrary: c) (simp_all add: assms(2))

lemma give_same [simp]:
  "cl_inflight (give g c) = cl_inflight c" "cl_fetches (give g c) = cl_fetches c" "cl_cache (give g c) = cl_cache c"
  "cl_refreshing (give g c) = cl_refreshing c" "cl_out (give g c) = cl_out c"
  by (simp_all add: give_def)

lemma show_same [simp]:
  "cl_inflight (shown os c) = cl_inflight c" "cl_fetches (shown os c) = cl_fetches c" "cl_cache (shown os c) = cl_cache c"
  "cl_refreshing (shown os c) = cl_refreshing c" "cl_out (shown os c) = cl_out c @ os" "cl_callers (shown os c) = cl_callers c"
  by (simp_all add: shown_def)

lemma set_stage_same [simp]:
  "cl_inflight (set_stage r s c) = cl_inflight c" "length (cl_fetches (set_stage r s c)) = length (cl_fetches c)"
  "cl_cache (set_stage r s c) = cl_cache c" "cl_refreshing (set_stage r s c) = cl_refreshing c" "cl_out (set_stage r s c) = cl_out c"
  by (simp_all add: set_stage_def)

text \<open>Requests keep their number, and what is known of them from the start.\<close>

definition same_fetches :: "'d client \<Rightarrow> 'd client \<Rightarrow> bool" where
  "same_fetches c c' = (map (\<lambda>f. (fe_key f, fe_useCache f, fe_shared f)) (cl_fetches c')
     = map (\<lambda>f. (fe_key f, fe_useCache f, fe_shared f)) (cl_fetches c))"

lemma same_fetches_refl [simp]: "same_fetches c c"
  by (simp add: same_fetches_def)

lemma same_fetches_trans: "same_fetches c c' \<Longrightarrow> same_fetches c' c'' \<Longrightarrow> same_fetches c c''"
  by (simp add: same_fetches_def)

lemma same_fetches_length: "same_fetches c c' \<Longrightarrow> length (cl_fetches c') = length (cl_fetches c)"
  unfolding same_fetches_def by (rule map_eq_imp_length_eq)

lemma same_fetches_shared:
  assumes "same_fetches c c'" "r < length (cl_fetches c)"
  shows "fe_shared (cl_fetches c' ! r) = fe_shared (cl_fetches c ! r)"
proof -
  let ?h = "\<lambda>f. (fe_key f, fe_useCache f, fe_shared f)"
  have "map ?h (cl_fetches c') ! r = map ?h (cl_fetches c) ! r" using assms(1) by (simp only: same_fetches_def)
  then show ?thesis using assms(2) same_fetches_length [OF assms(1)] by simp
qed

lemma same_fetches_update:
  "f = cl_fetches c ! r \<Longrightarrow> fe_key g = fe_key f \<Longrightarrow> fe_useCache g = fe_useCache f \<Longrightarrow> fe_shared g = fe_shared f \<Longrightarrow>
    same_fetches c (c\<lparr>cl_fetches := (cl_fetches c)[r := g]\<rparr>)"
  unfolding same_fetches_def
  by (cases "r < length (cl_fetches c)") (simp_all add: map_update list_update_same_conv list_update_beyond)

lemma same_fetches_stage [simp]: "same_fetches c (set_stage r s c)"
  unfolding set_stage_def by (rule same_fetches_update [OF refl]) simp_all

lemma same_fetches_fields [simp]:
  "same_fetches c (c'\<lparr>cl_cache := m\<rparr>) = same_fetches c c'" "same_fetches c (c'\<lparr>cl_inflight := n\<rparr>) = same_fetches c c'"
  "same_fetches c (c'\<lparr>cl_refreshing := b\<rparr>) = same_fetches c c'" "same_fetches c (shown os c') = same_fetches c c'"
  by (simp_all add: same_fetches_def)

lemma same_fetches_answer [simp]: "same_fetches c (answer_came r d now c)"
  by (simp add: answer_came_def Let_def)

lemma same_fetches_failed [simp]: "same_fetches c (failed r f c)"
  by (auto simp: failed_def intro: same_fetches_trans [OF _ same_fetches_stage])

lemma same_fetches_go_on [simp]: "same_fetches c (go_on b r c)"
  by (auto simp: go_on_def same_fetches_update split: stage.split)

lemma go_on_same [simp]:
  "cl_inflight (go_on b r c) = cl_inflight c" "cl_cache (go_on b r c) = cl_cache c"
  "cl_refreshing (go_on b r c) = cl_refreshing c"
  by (auto simp: go_on_def split: stage.split)

lemma fold_go_on_same:
  "cl_inflight (fold (go_on b) rs c) = cl_inflight c \<and> cl_cache (fold (go_on b) rs c) = cl_cache c
    \<and> cl_refreshing (fold (go_on b) rs c) = cl_refreshing c \<and> same_fetches c (fold (go_on b) rs c)"
  by (induction rs arbitrary: c) (auto intro: same_fetches_trans [OF same_fetches_go_on])

lemma refresh_done_same [simp]:
  "cl_inflight (refresh_done b c) = cl_inflight c" "cl_cache (refresh_done b c) = cl_cache c"
  "same_fetches c (refresh_done b c)" "\<not> cl_refreshing (refresh_done b c)"
  using fold_go_on_same [of b "[0..<length (cl_fetches c)]" "c\<lparr>cl_refreshing := False\<rparr>"]
  by (simp_all add: refresh_done_def same_fetches_def)

lemma answer_inflight [simp]: "cl_inflight (answer_came r d now c) = cl_inflight c"
  by (simp add: answer_came_def Let_def)

lemma failed_inflight [simp]: "cl_inflight (failed r f c) = cl_inflight c" "cl_cache (failed r f c) = cl_cache c"
  by (simp_all add: failed_def)

lemma forget_same [simp]: "cl_fetches (forget r c) = cl_fetches c" "cl_cache (forget r c) = cl_cache c"
  "cl_out (forget r c) = cl_out c" "cl_refreshing (forget r c) = cl_refreshing c"
  by (simp_all add: forget_def split: option.split)

lemma invalidate_same [simp]:
  "cl_fetches (invalidateCachePattern p c) = cl_fetches c" "cl_fetches (invalidateCache q c) = cl_fetches c"
  "cl_out (invalidateCachePattern p c) = cl_out c" "cl_out (invalidateCache q c) = cl_out c"
  "cl_refreshing (invalidateCachePattern p c) = cl_refreshing c" "cl_refreshing (invalidateCache q c) = cl_refreshing c"
  by (simp_all add: invalidateCache_def invalidateCachePattern_def clearCache_def)

section \<open>Invariants\<close>

text \<open>The effect of a read: nothing, one more round trip, or one more that is shared under its key.\<close>

definition read_effect :: "string \<Rightarrow> 'd client \<Rightarrow> 'd client \<Rightarrow> bool" where
  "read_effect k c c' =
     ((\<exists>g. c' = give g c \<and> (\<forall>r. g = FromFetch r \<longrightarrow> jm_get (cl_inflight c) k = Some r))
      \<or> (\<exists>u. c' = give (FromFetch (length (cl_fetches c))) (fetchAndCache u k None c))
      \<or> (\<exists>u. jm_get (cl_inflight c) k = None
          \<and> c' = give (FromFetch (length (cl_fetches c)))
             ((fetchAndCache u k (Some k) c)\<lparr>cl_inflight := jm_set (cl_inflight c) k (length (cl_fetches c))\<rparr>)))"

lemma read_effect_join: "read_effect k c (join_or_start k u c)"
  unfolding read_effect_def join_or_start_def Let_def by (cases "jm_get (cl_inflight c) k") auto

lemma read_effect_cached: "read_effect k c (give (FromCache d) c)"
  unfolding read_effect_def by blast

lemma read_effect_alone: "read_effect k c (give (FromFetch (length (cl_fetches c))) (fetchAndCache u k None c))"
  unfolding read_effect_def by blast

lemma read_effect_do: "read_key ev = Some k \<Longrightarrow> read_effect k c (client_do ev c)"
  by (cases ev) (auto simp: api_request_def requestFresh_def Let_def
      intro: read_effect_join read_effect_cached read_effect_alone split: option.split)

lemma read_cases [consumes 1, case_names same alone shared]:
  assumes "read_key ev = Some k"
  obtains g where "client_do ev c = give g c" "\<And>r. g = FromFetch r \<Longrightarrow> jm_get (cl_inflight c) k = Some r"
    | u where "client_do ev c = give (FromFetch (length (cl_fetches c))) (fetchAndCache u k None c)"
    | u where "jm_get (cl_inflight c) k = None"
        "client_do ev c = give (FromFetch (length (cl_fetches c)))
           ((fetchAndCache u k (Some k) c)\<lparr>cl_inflight := jm_set (cl_inflight c) k (length (cl_fetches c))\<rparr>)"
  using read_effect_do [OF assms, of c] unfolding read_effect_def by blast

text \<open>Everything else keeps the round trips and adds nothing to what is shared.\<close>

lemma same_fetches_same: "cl_fetches c' = cl_fetches c \<Longrightarrow> same_fetches c c'"
  by (simp add: same_fetches_def)

lemma not_read_fetches: "read_key ev = None \<Longrightarrow> same_fetches c (client_do ev c)"
  by (cases ev) (auto intro: same_fetches_same split: option.split)

lemma forget_inflight: "set (cl_inflight (forget r c)) \<subseteq> set (cl_inflight c)"
  by (auto simp: forget_def jm_delete_def split: option.split)

lemma invalidate_inflight: "set (cl_inflight (invalidateCachePattern p c)) \<subseteq> set (cl_inflight c)"
  "set (cl_inflight (invalidateCache q c)) \<subseteq> set (cl_inflight c)"
  by (auto simp: invalidateCache_def invalidateCachePattern_def clearCache_def)

lemma not_read_inflight: "read_key ev = None \<Longrightarrow> set (cl_inflight (client_do ev c)) \<subseteq> set (cl_inflight c)"
  by (cases ev) (simp_all add: forget_inflight invalidate_inflight split: option.split)

lemmas not_read = not_read_fetches not_read_inflight

definition newer :: "nat \<Rightarrow> string \<Rightarrow> 'd client \<Rightarrow> bool" where
  "newer n p c = (n \<le> length (cl_fetches c) \<and> (\<forall>(k, r) \<in> set (cl_inflight c). str_includes k p \<longrightarrow> n \<le> r))"

lemma newer_do: "newer n p c \<Longrightarrow> newer n p (client_do ev c)"
proof (cases "read_key ev")
  case None
  assume "newer n p c"
  then show ?thesis using not_read [OF None, of c] same_fetches_length [of c "client_do ev c"] by (auto simp: newer_def)
next
  case (Some k)
  assume n: "newer n p c"
  from Some show ?thesis
  proof (cases rule: read_cases [where c = c])
    case (same g)
    then show ?thesis using n by (simp add: newer_def)
  next
    case (alone u)
    then show ?thesis using n by (simp add: newer_def fetchAndCache_def)
  next
    case (shared u)
    then show ?thesis using n set_jm_set [of "cl_inflight c" k "length (cl_fetches c)"]
      by (auto simp: newer_def fetchAndCache_def)
  qed
qed

lemma newer_run: "newer n p c \<Longrightarrow> newer n p (client_run evs c)"
  by (induction evs arbitrary: c) (simp_all add: newer_do)

lemma newer_invalidated: "newer (length (cl_fetches c)) p (invalidateCachePattern p c)"
  by (auto simp: newer_def invalidateCachePattern_def)

lemma newer_given:
  assumes n: "newer n p c" and k: "read_key ev = Some k" "str_includes k p"
    and r: "last (cl_callers (client_do ev c)) = FromFetch r"
  shows "n \<le> r"
  using k(1)
proof (cases rule: read_cases [where c = c])
  case (same g)
  then have "(k, r) \<in> set (cl_inflight c)" using r by (auto simp: give_def jm_get_def dest: map_of_SomeD)
  with n k(2) show ?thesis by (auto simp: newer_def)
next
  case (alone u)
  then show ?thesis using r n by (simp add: give_def newer_def)
next
  case (shared u)
  then show ?thesis using r n by (simp add: give_def newer_def)
qed

text \<open>The cache: one entry per key, and never more than the limit.\<close>

definition cache_bounded :: "'d client \<Rightarrow> bool" where
  "cache_bounded c = (jm_wf (cl_cache c) \<and> jm_size (cl_cache c) \<le> CACHE_LIMIT)"

lemma store_answer_bounded:
  assumes "jm_wf m"
  shows "jm_wf (store_answer k d now m)" "jm_size (store_answer k d now m) \<le> CACHE_LIMIT"
proof -
  let ?m = "filter (\<lambda>(k, v, timestamp). \<not> timestamp < now - CACHE_MS) (jm_set m k (d, now))"
  have wf: "jm_wf ?m" using assms by (simp add: jm_wf_filter_pairs jm_wf_set)
  then have "evict_oldest CACHE_LIMIT ?m = drop (length ?m - CACHE_LIMIT) ?m" by (rule evict_oldest_drop)
  with wf have "jm_wf (evict_oldest CACHE_LIMIT ?m)" "jm_size (evict_oldest CACHE_LIMIT ?m) \<le> CACHE_LIMIT"
    by (simp_all add: jm_wf_def jm_keys_def drop_map [symmetric] distinct_drop jm_size_def)
  then show "jm_wf (store_answer k d now m)" "jm_size (store_answer k d now m) \<le> CACHE_LIMIT"
    using assms by (simp_all add: store_answer_def Let_def)
qed

lemma store_answer_last:
  assumes "jm_wf m" "jm_get m k = None"
  shows "jm_get (store_answer k d now m) k = Some (d, now)"
proof -
  let ?P = "\<lambda>(k, v, timestamp). \<not> timestamp < now - CACHE_MS"
  let ?m = "filter ?P m @ [(k, d, now)]"
  have set: "jm_set m k (d, now) = m @ [(k, d, now)]" using assms(2) by (simp add: jm_set_new jm_has_get)
  then have wf: "jm_wf (m @ [(k, d, now)])" using jm_wf_set [OF assms(1), of k "(d, now)"] by simp
  have f: "filter ?P (m @ [(k, d, now)]) = ?m" by (simp add: CACHE_MS_def)
  have wf': "jm_wf ?m" using jm_wf_filter_pairs [OF wf, of ?P] f by simp
  have get: "jm_get (n @ [(k, d, now)]) k = Some (d, now)" if "jm_wf (n @ [(k, d, now)])" for n
    using that by (auto simp: jm_get_def jm_wf_def jm_keys_def map_add_Some_iff map_of_eq_None_iff)
  have "drop (length ?m - CACHE_LIMIT) ?m = drop (length ?m - CACHE_LIMIT) (filter ?P m) @ [(k, d, now)]"
    by (simp add: CACHE_LIMIT_def)
  then have k: "k \<in> set (jm_keys (drop (length ?m - CACHE_LIMIT) ?m))" by (simp add: jm_keys_def)
  then have "jm_get (evict_oldest CACHE_LIMIT ?m) k = Some (d, now)"
    unfolding evict_oldest_drop [OF wf'] by (simp only: jm_get_drop [OF wf' k] get [OF wf'])
  moreover have "\<not> CACHE_MS < 0" by (simp add: CACHE_MS_def)
  ultimately show ?thesis using get [OF wf] by (simp add: store_answer_def Let_def set f)
qed

lemma cache_bounded_filter: "jm_wf m \<Longrightarrow> jm_size m \<le> n \<Longrightarrow> jm_wf (filter P m) \<and> jm_size (filter P m) \<le> n"
  by (auto simp: jm_wf_filter_pairs jm_size_def intro: le_trans [OF length_filter_le])

lemma cache_bounded_do: "cache_bounded c \<Longrightarrow> cache_bounded (client_do ev c)"
proof (cases "read_key ev")
  case (Some k)
  assume c: "cache_bounded c"
  from Some show ?thesis
    by (cases rule: read_cases [where c = c]) (use c in \<open>simp_all add: cache_bounded_def fetchAndCache_def\<close>)
next
  case None
  assume "cache_bounded c"
  with None show ?thesis
    by (cases ev) (auto simp: cache_bounded_def answer_came_def Let_def store_answer_bounded cache_bounded_filter
        invalidateCache_def invalidateCachePattern_def clearCache_def split: option.split)
qed

lemma cache_bounded_reachable: "client_reachable c \<Longrightarrow> cache_bounded c"
proof -
  assume "client_reachable c"
  then obtain evs where c: "c = client_run evs new_client" by (auto simp: client_reachable_def)
  show ?thesis unfolding c
  proof (rule client_run_invariant [where Q = "\<lambda>ev. True"])
    show "cache_bounded new_client" by (simp add: cache_bounded_def new_client_def)
  qed (simp_all add: cache_bounded_do list_all_def)
qed

text \<open>What is shared and not settled is the one under way for its key.\<close>

definition open_fetch :: "nat \<Rightarrow> 'd client \<Rightarrow> bool" where
  "open_fetch r c = (r < length (cl_fetches c) \<and> \<not> settled (fe_stage (cl_fetches c ! r)))"

definition shared_ok :: "nat \<Rightarrow> 'd client \<Rightarrow> bool" where
  "shared_ok n c = (\<forall>r k. n \<le> r \<longrightarrow> open_fetch r c \<longrightarrow> fe_shared (cl_fetches c ! r) = Some k \<longrightarrow> jm_get (cl_inflight c) k = Some r)"

lemma open_fields [simp]:
  "open_fetch r (c\<lparr>cl_cache := m\<rparr>) = open_fetch r c" "open_fetch r (c\<lparr>cl_inflight := i\<rparr>) = open_fetch r c"
  "open_fetch r (c\<lparr>cl_refreshing := b\<rparr>) = open_fetch r c" "open_fetch r (give g c) = open_fetch r c"
  "open_fetch r (shown os c) = open_fetch r c" "open_fetch r (forget q c) = open_fetch r c"
  "open_fetch r (invalidateCache p c) = open_fetch r c" "open_fetch r (invalidateCachePattern p' c) = open_fetch r c"
  by (simp_all add: open_fetch_def)

lemma open_new [simp]: "open_fetch r (fetchAndCache u k s c) \<longleftrightarrow> open_fetch r c \<or> r = length (cl_fetches c)"
  by (auto simp: open_fetch_def fetchAndCache_def nth_append settled_def)

lemma shared_new: "open_fetch r c \<Longrightarrow> fe_shared (cl_fetches (fetchAndCache u k s c) ! r) = fe_shared (cl_fetches c ! r)"
  "fe_shared (cl_fetches (fetchAndCache u k s c) ! length (cl_fetches c)) = s"
  by (simp_all add: open_fetch_def fetchAndCache_def nth_append)

lemma open_set_stage: "open_fetch q (set_stage r s c) \<Longrightarrow> open_fetch r c \<Longrightarrow> open_fetch q c"
  by (cases "q = r") (auto simp: open_fetch_def set_stage_def)

lemma open_on_wire: "stage_of r c = Some OnWire \<Longrightarrow> open_fetch r c"
  by (auto simp: stage_of_def nth_opt_def open_fetch_def settled_def split: if_splits)

lemma open_go_on: "open_fetch q (go_on b r c) \<Longrightarrow> open_fetch q c"
  by (cases "q = r") (auto simp: go_on_def open_fetch_def set_stage_def settled_def split: stage.splits if_splits)

lemma open_fold_go_on: "open_fetch q (fold (go_on b) rs c) \<Longrightarrow> open_fetch q c"
  by (induction rs arbitrary: c) (auto dest: open_go_on)

lemma open_refresh_done: "open_fetch q (refresh_done b c) \<Longrightarrow> open_fetch q c"
  unfolding refresh_done_def by (drule open_fold_go_on) simp

lemma open_answer: "stage_of r c = Some OnWire \<Longrightarrow> open_fetch q (answer_came r d now c) \<Longrightarrow> open_fetch q c"
  by (auto simp: answer_came_def Let_def split: if_splits dest: open_set_stage [OF _ open_on_wire])

lemma open_failed: "stage_of r c = Some OnWire \<Longrightarrow> open_fetch q (failed r f c) \<Longrightarrow> open_fetch q c"
  using open_set_stage [of q r _ "shown _ (c\<lparr>cl_refreshing := True\<rparr>)"] open_set_stage [of q r _ c]
    open_set_stage [of q r _ "shown _ c"] open_on_wire [of r c]
  by (auto simp: failed_def split: if_splits)

lemma open_not_read: "read_key ev = None \<Longrightarrow> open_fetch q (client_do ev c) \<Longrightarrow> open_fetch q c"
  by (cases ev) (auto split: option.splits if_splits dest: open_refresh_done open_answer open_failed)

lemma shared_ok_read: "shared_ok n c \<Longrightarrow> read_key ev = Some k \<Longrightarrow> shared_ok n (client_do ev c)"
proof -
  assume c: "shared_ok n c"
  assume "read_key ev = Some k"
  then show ?thesis
  proof (cases rule: read_cases [where c = c])
    case (same g)
    then show ?thesis using c by (simp add: shared_ok_def)
  next
    case (alone u)
    then show ?thesis using c by (auto simp: shared_ok_def shared_new) (simp add: fetchAndCache_def)
  next
    case (shared u)
    then show ?thesis using c by (auto simp: shared_ok_def shared_new)
  qed
qed

lemma shared_ok_forget:
  assumes "shared_ok n c" "settled (fe_stage (cl_fetches c ! r))"
  shows "shared_ok n (forget r c)"
proof -
  have "jm_get (cl_inflight (forget r c)) k = Some q"
    if "open_fetch q c" "jm_get (cl_inflight c) k = Some q" for k q
    using that assms(2) by (auto simp: forget_def open_fetch_def split: option.split)
  then show ?thesis using assms(1) by (auto simp: shared_ok_def)
qed

lemma shared_ok_other:
  assumes c: "shared_ok n c" and ev: "read_key ev = None" and same: "cl_inflight (client_do ev c) = cl_inflight c"
  shows "shared_ok n (client_do ev c)"
  unfolding shared_ok_def
proof (intro allI impI)
  fix r k
  assume r: "n \<le> r" "open_fetch r (client_do ev c)" "fe_shared (cl_fetches (client_do ev c) ! r) = Some k"
  have o: "open_fetch r c" by (rule open_not_read [OF ev r(2)])
  then have "fe_shared (cl_fetches c ! r) = Some k"
    using r(3) same_fetches_shared [OF not_read_fetches [OF ev], of r c] by (simp add: open_fetch_def)
  then show "jm_get (cl_inflight (client_do ev c)) k = Some r"
    using c r(1) o same by (simp add: shared_ok_def)
qed

lemma shared_ok_do:
  assumes c: "shared_ok n c" and i: "\<not> invalidates ev"
  shows "shared_ok n (client_do ev c)"
proof (cases "read_key ev")
  case (Some k)
  then show ?thesis by (rule shared_ok_read [OF c])
next
  case None
  show ?thesis
  proof (cases "\<exists>r. ev = Forget r")
    case True
    then show ?thesis using c
      by (auto simp: stage_of_def nth_opt_def shared_ok_forget split: option.split)
  next
    case False
    with None i have "cl_inflight (client_do ev c) = cl_inflight c" by (cases ev) simp_all
    then show ?thesis by (rule shared_ok_other [OF c None])
  qed
qed

lemma shared_ok_run: "shared_ok n c \<Longrightarrow> list_all (\<lambda>ev. \<not> invalidates ev) evs \<Longrightarrow> shared_ok n (client_run evs c)"
  by (rule client_run_invariant [where Q = "\<lambda>ev. \<not> invalidates ev"]) (auto intro: shared_ok_do)

text \<open>
  The recovery of the session: each request is sent once, or twice when it was sent again
  after a refresh, and one that waits for a refresh has one under way.
\<close>

definition sends :: "nat \<Rightarrow> 'd client \<Rightarrow> nat" where
  "sends r c = count_list (cl_out c) (Sent r)"

definition sends_ok :: "'d client \<Rightarrow> bool" where
  "sends_ok c = (\<forall>r. sends r c = (if r < length (cl_fetches c) then if fe_retried (cl_fetches c ! r) then 2 else 1 else 0))"

definition waits :: "nat \<Rightarrow> 'd client \<Rightarrow> bool" where
  "waits r c = (r < length (cl_fetches c) \<and> (\<exists>f. fe_stage (cl_fetches c ! r) = Recovering f))"

definition recovery_ok :: "'d client \<Rightarrow> bool" where
  "recovery_ok c = (sends_ok c \<and> (\<forall>r. waits r c \<longrightarrow> cl_refreshing c))"

lemma sends_fields [simp]:
  "sends r (give g c) = sends r c" "sends r (set_stage q s c) = sends r c" "sends r (forget q c) = sends r c"
  "sends r (c\<lparr>cl_cache := m\<rparr>) = sends r c" "sends r (c\<lparr>cl_inflight := i\<rparr>) = sends r c"
  "sends r (c\<lparr>cl_refreshing := b\<rparr>) = sends r c" "sends r (c\<lparr>cl_fetches := fs\<rparr>) = sends r c"
  "sends r (invalidateCache p c) = sends r c" "sends r (invalidateCachePattern p' c) = sends r c"
  "sends r (shown os c) = sends r c + count_list os (Sent r)"
  "sends r (fetchAndCache u k sh c) = sends r c + (if r = length (cl_fetches c) then 1 else 0)"
  by (auto simp: sends_def fetchAndCache_def)

lemma retried_set_stage [simp]: "fe_retried (cl_fetches (set_stage q s c) ! r) = fe_retried (cl_fetches c ! r)"
  unfolding set_stage_def by (cases "q = r"; cases "q < length (cl_fetches c)") (simp_all add: list_update_beyond)

lemma sends_ok_fields [simp]:
  "sends_ok (give g c) = sends_ok c" "sends_ok (set_stage q s c) = sends_ok c" "sends_ok (forget q c) = sends_ok c"
  "sends_ok (c\<lparr>cl_cache := m\<rparr>) = sends_ok c" "sends_ok (c\<lparr>cl_inflight := i\<rparr>) = sends_ok c"
  "sends_ok (c\<lparr>cl_refreshing := b\<rparr>) = sends_ok c"
  "sends_ok (invalidateCache p c) = sends_ok c" "sends_ok (invalidateCachePattern p' c) = sends_ok c"
  by (simp_all add: sends_ok_def)

lemma sends_ok_shown: "(\<And>r. Sent r \<notin> set os) \<Longrightarrow> sends_ok (shown os c) = sends_ok c"
  by (simp add: sends_ok_def)

lemma sends_ok_fetch: "sends_ok c \<Longrightarrow> sends_ok (fetchAndCache u k s c)"
  by (auto simp: sends_ok_def) (auto simp: fetchAndCache_def nth_append)

lemma sends_ok_go_on: "sends_ok c \<Longrightarrow> r < length (cl_fetches c) \<Longrightarrow> sends_ok (go_on b r c)"
  by (auto simp: go_on_def sends_ok_shown split: stage.split) (auto simp: sends_ok_def nth_list_update)

lemma length_go_on [simp]: "length (cl_fetches (go_on b r c)) = length (cl_fetches c)"
  by (rule same_fetches_length [OF same_fetches_go_on])

lemma sends_ok_fold: "sends_ok c \<Longrightarrow> (\<And>r. r \<in> set rs \<Longrightarrow> r < length (cl_fetches c)) \<Longrightarrow> sends_ok (fold (go_on b) rs c)"
  by (induction rs arbitrary: c) (simp_all add: sends_ok_go_on)

lemma sends_ok_refresh: "sends_ok c \<Longrightarrow> sends_ok (refresh_done b c)"
  unfolding refresh_done_def by (rule sends_ok_fold) simp_all

lemma waits_go_on: "waits q (go_on b r c) \<longleftrightarrow> waits q c \<and> q \<noteq> r"
  by (cases "r < length (cl_fetches c)"; cases "q = r")
    (auto simp: waits_def go_on_def set_stage_def list_update_beyond split: stage.splits)

lemma waits_fold: "waits q (fold (go_on b) rs c) \<longleftrightarrow> waits q c \<and> q \<notin> set rs"
  by (induction rs arbitrary: c) (auto simp: waits_go_on)

lemma waits_refresh: "\<not> waits q (refresh_done b c)"
  unfolding refresh_done_def waits_fold by (simp add: waits_def)

lemma waits_fields [simp]:
  "waits r (c\<lparr>cl_cache := m\<rparr>) = waits r c" "waits r (c\<lparr>cl_inflight := i\<rparr>) = waits r c"
  "waits r (c\<lparr>cl_refreshing := b\<rparr>) = waits r c" "waits r (give g c) = waits r c"
  "waits r (shown os c) = waits r c" "waits r (forget q c) = waits r c"
  "waits r (invalidateCache p c) = waits r c" "waits r (invalidateCachePattern p' c) = waits r c"
  by (simp_all add: waits_def)

lemma waits_fetch [simp]: "waits r (fetchAndCache u k s c) = waits r c"
  by (auto simp: waits_def fetchAndCache_def nth_append)

lemma waits_set_stage: "waits q (set_stage r s c) \<Longrightarrow> waits q c \<or> (\<exists>f. s = Recovering f)"
  by (cases "q = r") (auto simp: waits_def set_stage_def)

lemma recovery_ok_failed: "recovery_ok c \<Longrightarrow> recovery_ok (failed r f c)"
proof -
  assume c: "recovery_ok c"
  have "sends_ok (failed r f c)" using c by (auto simp: recovery_ok_def failed_def sends_ok_shown)
  moreover have "cl_refreshing (failed r f c)" if "waits q (failed r f c)" for q
    using that c by (auto simp: recovery_ok_def failed_def split: if_splits dest!: waits_set_stage)
  ultimately show ?thesis by (auto simp: recovery_ok_def)
qed

lemma recovery_ok_answer: "recovery_ok c \<Longrightarrow> recovery_ok (answer_came r d now c)"
  by (auto simp: recovery_ok_def answer_came_def Let_def dest: waits_set_stage split: if_splits)

lemma recovery_ok_refresh: "recovery_ok c \<Longrightarrow> recovery_ok (refresh_done b c)"
  by (simp add: recovery_ok_def sends_ok_refresh waits_refresh)

lemma recovery_ok_do: "recovery_ok c \<Longrightarrow> recovery_ok (client_do ev c)"
proof (cases "read_key ev")
  case (Some k)
  assume c: "recovery_ok c"
  have f: "cl_refreshing (fetchAndCache u k s c) = cl_refreshing c" for u s by (simp add: fetchAndCache_def)
  from Some show ?thesis
    by (cases rule: read_cases [where c = c]) (use c in \<open>simp_all add: recovery_ok_def sends_ok_fetch f\<close>)
next
  case None
  assume "recovery_ok c"
  with None show ?thesis
    by (cases ev) (auto simp: recovery_ok_failed recovery_ok_answer recovery_ok_refresh split: option.split,
        simp_all add: recovery_ok_def)
qed

lemma recovery_ok_reachable: "client_reachable c \<Longrightarrow> recovery_ok c"
proof -
  assume "client_reachable c"
  then obtain evs where c: "c = client_run evs new_client" by (auto simp: client_reachable_def)
  show ?thesis unfolding c
  proof (rule client_run_invariant [where Q = "\<lambda>ev. True"])
    show "recovery_ok new_client" by (simp add: recovery_ok_def sends_ok_def sends_def waits_def new_client_def)
  qed (simp_all add: recovery_ok_do list_all_def)
qed

end
