(* ===== verification/ApiProps.thy ===== *)
theory ApiProps
  imports ApiGate ApiClient
begin

text \<open>
  What the HTTP client promises: long requests leave connections free and are served in the
  order they came; a read never joins a round trip from before an invalidation of its key,
  although the answer of one may still be taken from the cache; identical reads share one round
  trip; a lost session costs each request one more attempt.
\<close>

section \<open>The gate\<close>

text \<open>C19: Whatever is asked, answered and aborted, at most two long requests hold a slot, a
  request waits only while both are held, requests are granted in the order they were asked
  (those aborted while waiting left out), each is sent at most once, and one that was refused
  is never sent.\<close>

theorem long_requests_gated:
  "let g = gate_run LONG_REQUEST_SLOTS evs new_gate in
    card (holding g) \<le> 2 \<and> (ga_queue g \<noteq> [] \<longrightarrow> card (holding g) = 2)
    \<and> ga_granted g @ ga_queue g = filter (admitted g) (ga_asked g)
    \<and> distinct (ga_sent g) \<and> (\<forall>i \<in> set (ga_sent g). admitted g i)"
proof -
  define g where "g = gate_run LONG_REQUEST_SLOTS evs new_gate"
  have ok: "gate_ok LONG_REQUEST_SLOTS g" unfolding g_def by (intro inv_intros) (simp add: LONG_REQUEST_SLOTS_def)
  then have h: "ga_holders g = int (card (holding g))" "ga_holders g \<le> 2" "ga_queue g \<noteq> [] \<Longrightarrow> ga_holders g = 2"
    "ga_granted g @ ga_queue g = filter (admitted g) (ga_asked g)" "distinct (ga_sent g)"
    "\<forall>i \<in> set (ga_sent g). jm_get (ga_tickets g) i \<in> {Some Running, Some Released, Some Direct}"
    unfolding gate_ok_def LONG_REQUEST_SLOTS_def by blast+
  then have "\<forall>i \<in> set (ga_sent g). admitted g i" by (auto simp: admitted_def)
  moreover have "card (holding g) \<le> 2" "ga_queue g \<noteq> [] \<longrightarrow> card (holding g) = 2" using h(1-3) by linarith+
  ultimately show ?thesis using h(4,5) by (simp add: g_def [symmetric] Let_def)
qed

lemma long_requests_gated_witness:
  "let g = gate_run LONG_REQUEST_SLOTS [Asked 1 True None, Asked 2 True None, Asked 3 True (Some 7), Asked 4 True None,
         Asked 5 False None, Resumed 1, Resumed 2, Aborted 7, Settled 1] new_gate in
     ga_queue g = [] \<and> ga_granted g = [1, 2, 4] \<and> ga_sent g = [5, 1, 2] \<and> card (holding g) \<le> 2"
proof -
  let ?evs = "[Asked 1 True None, Asked 2 True None, Asked 3 True (Some 7), Asked 4 True None,
         Asked 5 False None, Resumed 1, Resumed 2, Aborted 7, Settled 1]"
  have "ga_queue (gate_run LONG_REQUEST_SLOTS ?evs new_gate) = []"
       "ga_granted (gate_run LONG_REQUEST_SLOTS ?evs new_gate) = [1, 2, 4]"
       "ga_sent (gate_run LONG_REQUEST_SLOTS ?evs new_gate) = [5, 1, 2]" by code_simp+
  then show ?thesis using long_requests_gated [of ?evs] by (simp add: Let_def del: gate_run_Cons)
qed

text \<open>No waiting request is starved: with \<open>p\<close> others ahead of it, it has left the queue,
  granted or refused, once \<open>p + 1\<close> slots were given back, whatever else happens; and while it
  waits, both slots are held by requests that were granted.\<close>

lemma waiting_request_served:
  assumes g: "g = gate_run LONG_REQUEST_SLOTS before new_gate"
    and p: "p < length (ga_queue g)"
    and freed: "p < releases LONG_REQUEST_SLOTS evs g"
  shows "ga_queue g ! p \<notin> set (ga_queue (gate_run LONG_REQUEST_SLOTS evs g)) \<and> card (holding g) = 2"
proof -
  have ok: "gate_ok LONG_REQUEST_SLOTS g" unfolding g by (intro inv_intros) (simp add: LONG_REQUEST_SLOTS_def)
  then have d: "distinct (ga_queue g)" by (simp add: gate_ok_def)
  have "ga_queue g \<noteq> []" using p by auto
  with ok have "int (card (holding g)) = 2" unfolding gate_ok_def LONG_REQUEST_SLOTS_def by metis
  then have "card (holding g) = 2" by linarith
  moreover have "ga_queue g ! p \<notin> set (ga_queue (gate_run LONG_REQUEST_SLOTS evs g))"
  proof
    assume "ga_queue g ! p \<in> set (ga_queue (gate_run LONG_REQUEST_SLOTS evs g))"
    from still_ahead [OF ok _ this] have "releases LONG_REQUEST_SLOTS evs g \<le> ahead (ga_queue g ! p) (ga_queue g)"
      using p by simp
    then show False using freed p d by (simp add: ahead_nth)
  qed
  ultimately show ?thesis by simp
qed

lemma waiting_request_served_witness:
  "let g = gate_run LONG_REQUEST_SLOTS [Asked 1 True None, Asked 2 True None, Asked 3 True None, Asked 4 True None,
         Resumed 1, Resumed 2] new_gate in
     ga_queue g ! 1 = 4 \<and> ga_queue g ! 1 \<notin> set (ga_queue (gate_run LONG_REQUEST_SLOTS [Settled 2, Asked 5 True None, Settled 1] g))"
proof -
  let ?b = "[Asked 1 True None, Asked 2 True None, Asked 3 True None, Asked 4 True None, Resumed 1, Resumed 2]"
  let ?g = "gate_run LONG_REQUEST_SLOTS ?b new_gate"
  have "ga_queue ?g = [3, 4]" "releases LONG_REQUEST_SLOTS [Settled 2, Asked 5 True None, Settled 1] ?g = 2" by code_simp+
  then show ?thesis
    using waiting_request_served [OF refl, of 1 ?b "[Settled 2, Asked 5 True None, Settled 1]"]
    by (simp add: Let_def del: gate_run_Cons releases.simps)
qed

section \<open>The client\<close>

text \<open>Identical reads share a round trip until something is invalidated, and the cache is bounded.\<close>

lemma identical_reads_share:
  assumes quiet: "list_all (\<lambda>ev. \<not> invalidates ev) fs"
    and two: "length (cl_fetches c) \<le> q" "length (cl_fetches c) \<le> q'"
      "open_fetch q (client_run fs c)" "open_fetch q' (client_run fs c)"
      "fe_shared (cl_fetches (client_run fs c) ! q) = Some k" "fe_shared (cl_fetches (client_run fs c) ! q') = Some k"
  shows "q = q'"
proof -
  have "shared_ok (length (cl_fetches c)) c" by (simp add: shared_ok_def open_fetch_def)
  then have "shared_ok (length (cl_fetches c)) (client_run fs c)" by (rule shared_ok_run [OF _ quiet])
  then have "jm_get (cl_inflight (client_run fs c)) k = Some q" "jm_get (cl_inflight (client_run fs c)) k = Some q'"
    unfolding shared_ok_def using two by blast+
  then show ?thesis by simp
qed

text \<open>C20: A read made after an invalidation of its key never joins a round trip that was started
  before it, however much happened in between.\<close>

theorem joined_reads_current:
  assumes after: "after = client_run evs (client_do (Invalidate (Some p)) c)" and p: "p \<noteq> []"
    and ev: "read_key ev = Some k" "str_includes k p" "last (cl_callers (client_do ev after)) = FromFetch r"
  shows "length (cl_fetches c) \<le> r"
proof -
  have "newer (length (cl_fetches c)) p (client_do (Invalidate (Some p)) c)"
    using p newer_invalidated [of c p] by (simp add: invalidateCache_def)
  then have "newer (length (cl_fetches c)) p after" unfolding after by (rule newer_run)
  then show ?thesis by (rule newer_given [OF _ ev])
qed

definition example_client :: "string client" where
  "example_client = client_run [Request ''/cluster/namespaces'' ''{}'' True False 0] new_client"

lemma example_client_reachable: "client_reachable example_client"
  by (auto simp: example_client_def client_reachable_def simp del: client_run_simps)

lemma joined_reads_current_witness:
  "last (cl_callers (client_do (Request ''/cluster/namespaces'' ''{}'' True False 1)
      (client_run [RequestFresh ''/cluster/namespaces'' ''{}''] (client_do (Invalidate (Some ''/cluster/namespaces'')) example_client))))
     = FromFetch 2
   \<and> length (cl_fetches example_client) \<le> 2"
proof -
  have a: "last (cl_callers (client_do (Request ''/cluster/namespaces'' ''{}'' True False 1)
      (client_run [RequestFresh ''/cluster/namespaces'' ''{}''] (client_do (Invalidate (Some ''/cluster/namespaces'')) example_client))))
        = FromFetch 2" by code_simp
  have k: "read_key (Request ''/cluster/namespaces'' ''{}'' True False 1 :: string client_event) = Some ''/cluster/namespaces:{}''"
    "str_includes ''/cluster/namespaces:{}'' ''/cluster/namespaces''" by code_simp+
  show ?thesis using joined_reads_current [OF refl _ k a] a by simp
qed

text \<open>C21: The same does not hold of the cache: an answer to a cacheable round trip started before
  an invalidation of its key is stored when it comes, and callers are given it for a minute.\<close>

theorem late_answer_cached:
  assumes c: "client_reachable c"
    and r: "stage_of r c = Some OnWire" "fe_useCache (cl_fetches c ! r)" "fe_key (cl_fetches c ! r) = getCacheKey endpoint params"
    and p: "p \<noteq> []" "str_includes (getCacheKey endpoint params) p"
    and soon: "now' - now < CACHE_MS"
  shows "last (cl_callers (client_run [Invalidate (Some p), Answer r d now, Request endpoint params True hasSignal now'] c)) = FromCache d"
proof -
  let ?k = "getCacheKey endpoint params"
  define c1 where "c1 = invalidateCachePattern p c"
  have wf: "jm_wf (cl_cache c1)" using cache_bounded_reachable [OF c]
    by (simp add: c1_def invalidateCachePattern_def cache_bounded_def jm_wf_filter_pairs)
  have none: "jm_get (cl_cache c1) ?k = None"
    using cache_bounded_reachable [OF c] p(2)
    by (simp add: c1_def invalidateCachePattern_def cache_bounded_def jm_get_filter_pairs split: option.split)
  have "stage_of r c1 = Some OnWire" "fe_useCache (cl_fetches c1 ! r)" "fe_key (cl_fetches c1 ! r) = ?k"
    using r by (simp_all add: c1_def stage_of_def)
  then have "jm_get (cl_cache (client_do (Answer r d now) c1)) ?k = Some (d, now)"
    using store_answer_last [OF wf none, of d now] by (simp add: answer_came_def Let_def)
  then show ?thesis
    using p(1) soon by (simp add: invalidateCache_def c1_def [symmetric] api_request_def Let_def give_def)
qed

lemma late_answer_cached_witness:
  "last (cl_callers (client_run [Invalidate (Some ''/cluster/namespaces''), Answer 0 ''old'' 5,
      Request ''/cluster/namespaces'' ''{}'' True False 9] example_client)) = FromCache ''old''"
proof -
  have "stage_of 0 example_client = Some OnWire" "fe_useCache (cl_fetches example_client ! 0)"
    "fe_key (cl_fetches example_client ! 0) = getCacheKey ''/cluster/namespaces'' ''{}''"
    "str_includes (getCacheKey ''/cluster/namespaces'' ''{}'') ''/cluster/namespaces''" by code_simp+
  then show ?thesis
    using late_answer_cached [OF example_client_reachable, of 0 "''/cluster/namespaces''" "''{}''" "''/cluster/namespaces''" 9 5 "''old''" False]
    by (simp add: CACHE_MS_def del: client_run_simps)
qed

text \<open>A lost session costs a request one more attempt at most: each is sent once, or twice when
  a refresh succeeded; a request waits for the session only while a refresh is under way, and
  when that ends, none waits: each was sent again or has failed.\<close>

lemma session_recovery_bounded:
  assumes "client_reachable c" "r < length (cl_fetches c)"
  shows "sends r c = (if fe_retried (cl_fetches c ! r) then 2 else 1)
    \<and> (waits r c \<longrightarrow> cl_refreshing c) \<and> \<not> waits r (client_do (RefreshDone ok) c)"
proof (intro conjI impI)
  have ok: "recovery_ok c" using assms(1) by (rule recovery_ok_reachable)
  then show "sends r c = (if fe_retried (cl_fetches c ! r) then 2 else 1)"
    using assms(2) by (simp add: recovery_ok_def sends_ok_def)
  show "cl_refreshing c" if "waits r c" using ok that by (auto simp: recovery_ok_def)
  show "\<not> waits r (client_do (RefreshDone ok) c)" using ok by (auto simp: waits_refresh recovery_ok_def)
qed

definition lost_client :: "string client" where
  "lost_client = client_run [Request ''/a'' ''{}'' True False 0, Request ''/b'' ''{}'' True False 0,
     Failure 0 \<lparr>fl_status = Some 403, fl_error = Some ''session_secret_mismatch'', fl_refreshHeader = False\<rparr>,
     Failure 1 \<lparr>fl_status = Some 403, fl_error = None, fl_refreshHeader = True\<rparr>, RefreshDone True,
     Failure 1 \<lparr>fl_status = Some 403, fl_error = None, fl_refreshHeader = True\<rparr>] new_client"

lemma session_recovery_bounded_witness:
  "sends 1 lost_client = 2 \<and> waits 1 lost_client \<and> cl_refreshing lost_client \<and> \<not> waits 1 (client_do (RefreshDone True) lost_client)"
proof -
  have c: "client_reachable lost_client" by (auto simp: lost_client_def client_reachable_def simp del: client_run_simps)
  have "1 < length (cl_fetches lost_client)" "fe_retried (cl_fetches lost_client ! 1)" by code_simp+
  moreover have "waits 1 lost_client"
    unfolding waits_def by (rule conjI, code_simp, rule exI [of _ "\<lparr>fl_status = Some 403, fl_error = None, fl_refreshHeader = True\<rparr>"], code_simp)
  ultimately show ?thesis using session_recovery_bounded [OF c, of 1 True] by (simp del: client_do.simps)
qed

end
