(* ===== verification/EvidenceLoader.thy ===== *)
theory EvidenceLoader
  imports JsMap
begin

text \<open>
  The evidence behind a rightsizing suggestion (\<open>components/rightsizing/evidenceLoader.ts\<close>): a
  refresh is shared by every view of the workload and cancelled once none is left, a busy
  metrics store is asked once more, and a cached snapshot is shown until the refresh answers.

  Flights (the shared refreshes) and views (calls of \<open>loadEvidence\<close>) are on heaps. A view's
  \<open>vw_await\<close> is the flight its \<open>refresh\<close> awaits, with the argument \<open>retried\<close>; \<open>vw_retry\<close> its
  retry timer, \<open>ld_grace\<close> the timers of \<open>leave\<close>, each with its flight. What \<open>update\<close> is called
  with is logged in \<open>vw_shown\<close>. \<open>ee_retryAfter\<close> is the number of whole seconds a busy answer
  names, \<open>None\<close> for \<open>NaN\<close>.
\<close>

section \<open>State\<close>

record evidence_query =
  eq_cluster :: string
  eq_provider :: "string option"
  eq_profile :: string
  eq_window :: string
  eq_namespace :: string
  eq_vclusterNamespace :: "string option"
  eq_kind :: string
  eq_name :: string

record evidence_error =
  ee_status :: "int option"
  ee_retryAfter :: "int option"
  ee_error :: "string option"
  ee_message :: "string option"

record 'e evidence_state =
  es_evidence :: "'e option"
  es_refreshing :: bool
  es_error :: "string option"
  es_busy :: "string option"

record 'e flight =
  fg_key :: "string list"
  fg_refs :: int
  fg_settled :: bool
  fg_aborted :: bool
  fg_outcome :: "(evidence_error + 'e) option"

record 'e evidence_view =
  vw_key :: "string list"
  vw_live :: bool
  vw_freshSettled :: bool
  vw_freshSucceeded :: bool
  vw_evidence :: "'e option"
  vw_error :: "string option"
  vw_busy :: "string option"
  vw_flight :: "nat option"
  vw_await :: "(nat \<times> bool) option"
  vw_retry :: "int option"
  vw_cached :: bool
  vw_shown :: "'e evidence_state list"

record 'e loader =
  ld_held :: "(string list, 'e) jsmap"
  ld_inflight :: "(string list, nat) jsmap"
  ld_flights :: "'e flight list"
  ld_views :: "'e evidence_view list"
  ld_grace :: "nat list"

definition MAX_HELD :: nat where
  "MAX_HELD = 24"

definition BUSY_RETRY_MS :: int where
  "BUSY_RETRY_MS = 10000"

definition MAX_BUSY_RETRY_MS :: int where
  "MAX_BUSY_RETRY_MS = 120000"

definition new_loader :: "'e loader" where
  "new_loader = \<lparr>ld_held = [], ld_inflight = [], ld_flights = [], ld_views = [], ld_grace = []\<rparr>"

text \<open>The JSON text of the list is different for different lists.\<close>

definition keyOf :: "evidence_query \<Rightarrow> string list" where
  "keyOf q = [eq_cluster q, nullish (eq_provider q) ''auto'', eq_profile q, eq_window q, eq_namespace q,
     nullish (eq_vclusterNamespace q) [], eq_kind q, eq_name q]"

definition remember_evidence :: "string list \<Rightarrow> 'e \<Rightarrow> 'e loader \<Rightarrow> 'e loader" where
  "remember_evidence key e w = w\<lparr>ld_held := cache_store MAX_HELD (ld_held w) key e\<rparr>"

definition busyRetryMs :: "evidence_error \<Rightarrow> int option" where
  "busyRetryMs e =
     (if ee_status e \<noteq> Some 503 then None
      else case ee_retryAfter e of
             Some s \<Rightarrow> if s > 0 then Some (min (s * 1000) MAX_BUSY_RETRY_MS) else Some BUSY_RETRY_MS
           | None \<Rightarrow> Some BUSY_RETRY_MS)"

definition busyMessage :: "evidence_error \<Rightarrow> string" where
  "busyMessage e = str_or (ee_error e) ''The metrics store is busy''"

section \<open>Flights\<close>

definition upd_flight :: "nat \<Rightarrow> ('e flight \<Rightarrow> 'e flight) \<Rightarrow> 'e loader \<Rightarrow> 'e loader" where
  "upd_flight f g w = w\<lparr>ld_flights := (ld_flights w)[f := g (ld_flights w ! f)]\<rparr>"

definition upd_view :: "nat \<Rightarrow> ('e evidence_view \<Rightarrow> 'e evidence_view) \<Rightarrow> 'e loader \<Rightarrow> 'e loader" where
  "upd_view v g w = w\<lparr>ld_views := (ld_views w)[v := g (ld_views w ! v)]\<rparr>"

text \<open>The flight a view joins; a new one has no holder yet.\<close>

definition find_flight :: "string list \<Rightarrow> 'e loader \<Rightarrow> nat \<times> 'e loader" where
  "find_flight key w =
     (case jm_get (ld_inflight w) key of
        Some f \<Rightarrow> (f, w)
      | None \<Rightarrow> (length (ld_flights w),
          w\<lparr>ld_flights := ld_flights w @ [\<lparr>fg_key = key, fg_refs = 0, fg_settled = False, fg_aborted = False, fg_outcome = None\<rparr>],
            ld_inflight := jm_set (ld_inflight w) key (length (ld_flights w))\<rparr>))"

definition join_flight :: "string list \<Rightarrow> 'e loader \<Rightarrow> nat \<times> 'e loader" where
  "join_flight key w = (let (f, w1) = find_flight key w in (f, upd_flight f (\<lambda>x. x\<lparr>fg_refs := fg_refs x + 1\<rparr>) w1))"

definition leave :: "nat \<Rightarrow> 'e loader \<Rightarrow> 'e loader" where
  "leave f w =
     (let w1 = upd_flight f (\<lambda>x. x\<lparr>fg_refs := fg_refs x - 1\<rparr>) w in
      if fg_refs (ld_flights w1 ! f) > 0 \<or> fg_settled (ld_flights w1 ! f) then w1
      else w1\<lparr>ld_grace := ld_grace w1 @ [f]\<rparr>)"

definition forget_flight :: "nat \<Rightarrow> 'e loader \<Rightarrow> 'e loader" where
  "forget_flight f w =
     (let key = fg_key (ld_flights w ! f) in
      if jm_get (ld_inflight w) key = Some f then w\<lparr>ld_inflight := jm_delete (ld_inflight w) key\<rparr> else w)"

text \<open>A timer of \<open>leave\<close> fires.\<close>

definition grace_over :: "nat \<Rightarrow> 'e loader \<Rightarrow> 'e loader" where
  "grace_over f w =
     (let w1 = w\<lparr>ld_grace := remove1 f (ld_grace w)\<rparr> in
      if fg_refs (ld_flights w ! f) > 0 \<or> fg_settled (ld_flights w ! f) then w1
      else forget_flight f (upd_flight f (\<lambda>x. x\<lparr>fg_aborted := True\<rparr>) w1))"

text \<open>The refresh answers; no evidence is an error.\<close>

definition no_evidence :: evidence_error where
  "no_evidence = \<lparr>ee_status = None, ee_retryAfter = None, ee_error = None, ee_message = Some ''No workload evidence returned''\<rparr>"

definition settle_flight :: "nat \<Rightarrow> evidence_error + 'e option \<Rightarrow> 'e loader \<Rightarrow> 'e loader" where
  "settle_flight f ans w =
     (let (out, w1) = (case ans of
             Inl e \<Rightarrow> (Inl e, w)
           | Inr None \<Rightarrow> (Inl no_evidence, w)
           | Inr (Some e) \<Rightarrow> (Inr e, remember_evidence (fg_key (ld_flights w ! f)) e w))
      in forget_flight f (upd_flight f (\<lambda>x. x\<lparr>fg_settled := True, fg_outcome := Some out\<rparr>) w1))"

section \<open>Views\<close>

definition emit_view :: "nat \<Rightarrow> 'e loader \<Rightarrow> 'e loader" where
  "emit_view v = upd_view v (\<lambda>x. if vw_live x
     then x\<lparr>vw_shown := vw_shown x @ [\<lparr>es_evidence = vw_evidence x, es_refreshing = \<not> vw_freshSettled x,
            es_error = vw_error x, es_busy = vw_busy x\<rparr>]\<rparr> else x)"

definition leave_own :: "nat \<Rightarrow> 'e loader \<Rightarrow> 'e loader" where
  "leave_own v w = (case vw_flight (ld_views w ! v) of None \<Rightarrow> w | Some f \<Rightarrow> upd_view v (\<lambda>x. x\<lparr>vw_flight := None\<rparr>) (leave f w))"

definition refresh_view :: "nat \<Rightarrow> bool \<Rightarrow> 'e loader \<Rightarrow> 'e loader" where
  "refresh_view v retried w =
     (let (f, w1) = join_flight (vw_key (ld_views w ! v)) (leave_own v w) in
      upd_view v (\<lambda>x. x\<lparr>vw_flight := Some f, vw_await := Some (f, retried)\<rparr>) w1)"

text \<open>What \<open>refresh\<close> does when its flight has settled.\<close>

definition refreshed_view :: "bool \<Rightarrow> evidence_error + 'e \<Rightarrow> 'e evidence_view \<Rightarrow> 'e evidence_view" where
  "refreshed_view retried out x =
     (case out of
        Inr e \<Rightarrow> x\<lparr>vw_evidence := Some e, vw_freshSucceeded := True, vw_error := None, vw_busy := None, vw_freshSettled := True\<rparr>
      | Inl e \<Rightarrow>
          let wait = busyRetryMs e in
          if wait \<noteq> None \<and> \<not> retried \<and> vw_live x
          then x\<lparr>vw_busy := Some (busyMessage e), vw_retry := wait\<rparr>
          else x\<lparr>vw_busy := None, vw_freshSettled := True,
                 vw_error := Some (if wait \<noteq> None then busyMessage e
                   else str_or (ee_error e) (str_or (ee_message e) ''Failed to refresh evidence''))\<rparr>)"

definition go_on_view :: "nat \<Rightarrow> 'e loader \<Rightarrow> 'e loader" where
  "go_on_view v w =
     (case vw_await (ld_views w ! v) of
        None \<Rightarrow> w
      | Some (f, retried) \<Rightarrow>
          (case fg_outcome (ld_flights w ! f) of
             None \<Rightarrow> w
           | Some out \<Rightarrow> emit_view v (upd_view v (\<lambda>x. (refreshed_view retried out x)\<lparr>vw_await := None\<rparr>) w)))"

definition loadEvidence :: "evidence_query \<Rightarrow> 'e loader \<Rightarrow> 'e loader" where
  "loadEvidence q w =
     (let key = keyOf q; v = length (ld_views w); e = jm_get (ld_held w) key in
      refresh_view v False (emit_view v
        (w\<lparr>ld_views := ld_views w @ [\<lparr>vw_key = key, vw_live = True, vw_freshSettled = False, vw_freshSucceeded = False,
             vw_evidence = e, vw_error = None, vw_busy = None, vw_flight = None, vw_await = None, vw_retry = None,
             vw_cached = (e = None), vw_shown = []\<rparr>]\<rparr>)))"

definition cached_answer :: "nat \<Rightarrow> 'e option \<Rightarrow> 'e loader \<Rightarrow> 'e loader" where
  "cached_answer v snapshot w =
     (let x = ld_views w ! v; w1 = upd_view v (\<lambda>x. x\<lparr>vw_cached := False\<rparr>) w in
      case snapshot of
        Some e \<Rightarrow>
          if \<not> vw_freshSucceeded x \<and> vw_live x
          then emit_view v (upd_view v (\<lambda>x. x\<lparr>vw_evidence := Some e\<rparr>)
                 (if jm_has (ld_held w1) (vw_key x) then w1 else remember_evidence (vw_key x) e w1))
          else w1
      | None \<Rightarrow> w1)"

definition retry_due :: "nat \<Rightarrow> 'e loader \<Rightarrow> 'e loader" where
  "retry_due v w = refresh_view v True (upd_view v (\<lambda>x. x\<lparr>vw_retry := None\<rparr>) w)"

text \<open>The function \<open>loadEvidence\<close> returns.\<close>

definition dispose :: "nat \<Rightarrow> 'e loader \<Rightarrow> 'e loader" where
  "dispose v w = leave_own v (upd_view v (\<lambda>x. x\<lparr>vw_live := False, vw_retry := None, vw_cached := False\<rparr>) w)"

section \<open>The events\<close>

text \<open>
  An aborted refresh or snapshot request only fails, and only while it is under way.
  \<open>GoOn v\<close> is the continuation of the view's \<open>refresh\<close>, once its flight has settled.
\<close>

datatype 'e evidence_event =
    Load evidence_query
  | Dispose nat
  | Snapshot nat "'e option"
  | SnapshotFailed nat
  | Refreshed nat "'e option"
  | RefreshFailed nat evidence_error
  | GoOn nat
  | RetryDue nat
  | GraceOver nat

definition under_way :: "nat \<Rightarrow> 'e loader \<Rightarrow> bool" where
  "under_way f w = (f < length (ld_flights w) \<and> \<not> fg_settled (ld_flights w ! f))"

definition has_view :: "nat \<Rightarrow> 'e loader \<Rightarrow> bool" where
  "has_view v w = (v < length (ld_views w))"

fun evidence_do :: "'e evidence_event \<Rightarrow> 'e loader \<Rightarrow> 'e loader" where
  "evidence_do (Load q) w = loadEvidence q w"
| "evidence_do (Dispose v) w = (if has_view v w then dispose v w else w)"
| "evidence_do (Snapshot v e) w = (if has_view v w \<and> vw_cached (ld_views w ! v) then cached_answer v e w else w)"
| "evidence_do (SnapshotFailed v) w =
     (if has_view v w \<and> vw_cached (ld_views w ! v) then upd_view v (\<lambda>x. x\<lparr>vw_cached := False\<rparr>) w else w)"
| "evidence_do (Refreshed f e) w =
     (if under_way f w \<and> \<not> fg_aborted (ld_flights w ! f) then settle_flight f (Inr e) w else w)"
| "evidence_do (RefreshFailed f e) w = (if under_way f w then settle_flight f (Inl e) w else w)"
| "evidence_do (GoOn v) w = (if has_view v w then go_on_view v w else w)"
| "evidence_do (RetryDue v) w = (if has_view v w \<and> vw_retry (ld_views w ! v) \<noteq> None then retry_due v w else w)"
| "evidence_do (GraceOver f) w = (if f \<in> set (ld_grace w) then grace_over f w else w)"

definition evidence_run :: "'e evidence_event list \<Rightarrow> 'e loader \<Rightarrow> 'e loader" where
  "evidence_run evs w = foldl (\<lambda>w ev. evidence_do ev w) w evs"

end
