(* ===== verification/EvidenceProps.thy ===== *)
theory EvidenceProps
  imports EvidenceLoader
begin

text \<open>
  What the evidence loader keeps, whatever the order of answers, timers and views: the holders
  of a flight are counted exactly, a refresh is cancelled only when no view is left, one is
  under way per workload, and every open view has its answer or something that leads to it.
\<close>

section \<open>Flights and their holders\<close>

definition users :: "nat \<Rightarrow> 'e loader \<Rightarrow> nat set" where
  "users f w = {v. v < length (ld_views w) \<and> vw_flight (ld_views w ! v) = Some f}"

definition flight_ok :: "nat \<Rightarrow> 'e flight \<Rightarrow> 'e loader \<Rightarrow> bool" where
  "flight_ok f x w \<longleftrightarrow>
     fg_refs x = int (card (users f w))
     \<and> (fg_aborted x \<longrightarrow> users f w = {})
     \<and> (\<not> fg_settled x \<and> \<not> fg_aborted x \<longrightarrow> jm_get (ld_inflight w) (fg_key x) = Some f)
     \<and> (\<not> fg_settled x \<and> \<not> fg_aborted x \<and> users f w = {} \<longrightarrow> f \<in> set (ld_grace w))
     \<and> (fg_settled x \<longleftrightarrow> fg_outcome x \<noteq> None)"

definition flights_ok :: "'e loader \<Rightarrow> bool" where
  "flights_ok w \<longleftrightarrow>
     (\<forall>f < length (ld_flights w). flight_ok f (ld_flights w ! f) w)
     \<and> (\<forall>k f. jm_get (ld_inflight w) k = Some f \<longrightarrow>
          f < length (ld_flights w) \<and> fg_key (ld_flights w ! f) = k
          \<and> \<not> fg_settled (ld_flights w ! f) \<and> \<not> fg_aborted (ld_flights w ! f))
     \<and> (\<forall>v < length (ld_views w). \<forall>f. vw_flight (ld_views w ! v) = Some f \<longrightarrow>
          f < length (ld_flights w) \<and> fg_key (ld_flights w ! f) = vw_key (ld_views w ! v))"

lemma finite_users [simp]: "finite (users f w)"
  by (simp add: users_def)

lemma upd_view_same [simp]:
  "ld_flights (upd_view v g w) = ld_flights w" "ld_inflight (upd_view v g w) = ld_inflight w"
  "ld_grace (upd_view v g w) = ld_grace w" "ld_held (upd_view v g w) = ld_held w"
  "length (ld_views (upd_view v g w)) = length (ld_views w)"
  by (simp_all add: upd_view_def)

lemma upd_flight_same [simp]:
  "ld_views (upd_flight f g w) = ld_views w" "ld_inflight (upd_flight f g w) = ld_inflight w"
  "ld_grace (upd_flight f g w) = ld_grace w" "ld_held (upd_flight f g w) = ld_held w"
  "length (ld_flights (upd_flight f g w)) = length (ld_flights w)"
  by (simp_all add: upd_flight_def)

lemma view_at [simp]: "u < length (ld_views w) \<Longrightarrow> ld_views (upd_view v g w) ! u = (if u = v then g (ld_views w ! v) else ld_views w ! u)"
  by (simp add: upd_view_def nth_list_update)

lemma flight_at [simp]: "h < length (ld_flights w) \<Longrightarrow> ld_flights (upd_flight f g w) ! h = (if h = f then g (ld_flights w ! f) else ld_flights w ! h)"
  by (simp add: upd_flight_def nth_list_update)

lemma int_card_remove: "finite A \<Longrightarrow> x \<in> A \<Longrightarrow> int (card (A - {x})) = int (card A) - 1"
  by (metis card_Suc_Diff1 diff_add_cancel of_nat_Suc add.commute add_diff_cancel_left')

lemma users_upd_flight [simp]: "users f (upd_flight h g w) = users f w"
  by (simp add: users_def)

lemma users_upd_view: "v < length (ld_views w) \<Longrightarrow>
    users f (upd_view v g w) = (if vw_flight (g (ld_views w ! v)) = Some f then insert v (users f w) else users f w - {v})"
  by (auto simp: users_def split: if_splits)

lemma users_keep: "v < length (ld_views w) \<Longrightarrow> vw_flight (g (ld_views w ! v)) = vw_flight (ld_views w ! v) \<Longrightarrow>
    users f (upd_view v g w) = users f w"
  by (auto simp: users_def split: if_splits)

lemma users_fields [simp]:
  "users f (w\<lparr>ld_grace := gs\<rparr>) = users f w" "users f (w\<lparr>ld_inflight := i\<rparr>) = users f w"
  "users f (w\<lparr>ld_held := h\<rparr>) = users f w" "users f (w\<lparr>ld_flights := fs\<rparr>) = users f w"
  by (simp_all add: users_def)

text \<open>Writing a view's own fields.\<close>

lemma flights_ok_view:
  assumes "flights_ok w" "v < length (ld_views w)"
    and "vw_flight (g (ld_views w ! v)) = vw_flight (ld_views w ! v)" "vw_key (g (ld_views w ! v)) = vw_key (ld_views w ! v)"
  shows "flights_ok (upd_view v g w)"
proof -
  have "flight_ok f x (upd_view v g w) = flight_ok f x w" for f x
    using assms(2,3) by (simp add: flight_ok_def users_keep)
  then show ?thesis using assms unfolding flights_ok_def by simp
qed

lemma flights_ok_held [simp]: "flights_ok (w\<lparr>ld_held := h\<rparr>) = flights_ok w"
  by (simp add: flights_ok_def flight_ok_def)

lemma flights_inflight: "flights_ok w \<Longrightarrow> jm_get (ld_inflight w) k = Some f \<Longrightarrow>
    f < length (ld_flights w) \<and> fg_key (ld_flights w ! f) = k \<and> \<not> fg_settled (ld_flights w ! f) \<and> \<not> fg_aborted (ld_flights w ! f)"
  unfolding flights_ok_def by blast

lemma flights_at: "flights_ok w \<Longrightarrow> f < length (ld_flights w) \<Longrightarrow> flight_ok f (ld_flights w ! f) w"
  unfolding flights_ok_def by blast

lemma flights_own: "flights_ok w \<Longrightarrow> v < length (ld_views w) \<Longrightarrow> vw_flight (ld_views w ! v) = Some f \<Longrightarrow>
    f < length (ld_flights w) \<and> fg_key (ld_flights w ! f) = vw_key (ld_views w ! v)"
  unfolding flights_ok_def by blast

lemma inflight_forget:
  assumes "flights_ok w" "ld_inflight w1 = ld_inflight w" "fg_key (ld_flights w1 ! f) = fg_key (ld_flights w ! f)"
  shows "jm_get (ld_inflight (forget_flight f w1)) k = (if jm_get (ld_inflight w) k = Some f then None else jm_get (ld_inflight w) k)"
proof -
  consider "jm_get (ld_inflight w) k = Some f" "fg_key (ld_flights w ! f) = k" | "jm_get (ld_inflight w) k \<noteq> Some f"
    using flights_inflight [OF assms(1)] by blast
  then show ?thesis
  proof cases
    case 1
    then show ?thesis by (simp add: forget_flight_def Let_def assms(2,3))
  next
    case 2
    then show ?thesis by (cases "k = fg_key (ld_flights w ! f)") (simp_all add: forget_flight_def Let_def assms(2,3))
  qed
qed

lemma forget_flight_same [simp]:
  "ld_views (forget_flight f w) = ld_views w" "ld_grace (forget_flight f w) = ld_grace w"
  "ld_flights (forget_flight f w) = ld_flights w" "users h (forget_flight f w) = users h w"
  by (simp_all add: forget_flight_def Let_def)

lemma flights_okI:
  assumes "\<And>f. f < length (ld_flights w) \<Longrightarrow> flight_ok f (ld_flights w ! f) w"
    and "\<And>k f. jm_get (ld_inflight w) k = Some f \<Longrightarrow>
      f < length (ld_flights w) \<and> fg_key (ld_flights w ! f) = k \<and> \<not> fg_settled (ld_flights w ! f) \<and> \<not> fg_aborted (ld_flights w ! f)"
    and "\<And>v f. v < length (ld_views w) \<Longrightarrow> vw_flight (ld_views w ! v) = Some f \<Longrightarrow>
      f < length (ld_flights w) \<and> fg_key (ld_flights w ! f) = vw_key (ld_views w ! v)"
  shows "flights_ok w"
  unfolding flights_ok_def
proof (intro conjI allI impI)
  fix f assume "f < length (ld_flights w)"
  then show "flight_ok f (ld_flights w ! f) w" by (rule assms(1))
next
  fix k f assume "jm_get (ld_inflight w) k = Some f"
  from assms(2) [OF this] show "f < length (ld_flights w)" "fg_key (ld_flights w ! f) = k" "\<not> fg_settled (ld_flights w ! f)" "\<not> fg_aborted (ld_flights w ! f)"
    by auto
next
  fix v f assume "v < length (ld_views w)" "vw_flight (ld_views w ! v) = Some f"
  from assms(3) [OF this] show "f < length (ld_flights w)" "fg_key (ld_flights w ! f) = vw_key (ld_views w ! v)" by auto
qed

lemma flights_ok_leave_own:
  assumes ok: "flights_ok w" and v: "v < length (ld_views w)"
  shows "flights_ok (leave_own v w)"
proof (cases "vw_flight (ld_views w ! v)")
  case (Some f)
  have f: "f < length (ld_flights w)" "fg_refs (ld_flights w ! f) = int (card (users f w))"
    using ok v Some unfolding flights_ok_def flight_ok_def by auto
  have vf: "v \<in> users f w" using v Some by (simp add: users_def)
  then have c: "int (card (users f w - {v})) = int (card (users f w)) - 1" by (rule int_card_remove [OF finite_users])
  define w1 where "w1 = leave f w"
  have views: "ld_views w1 = ld_views w" "ld_inflight w1 = ld_inflight w" "length (ld_flights w1) = length (ld_flights w)"
    by (simp_all add: w1_def leave_def Let_def)
  have at: "ld_flights w1 ! h = (if h = f then (ld_flights w ! f)\<lparr>fg_refs := fg_refs (ld_flights w ! f) - 1\<rparr> else ld_flights w ! h)"
    if "h < length (ld_flights w)" for h
    using that f(1) by (simp add: w1_def leave_def Let_def)
  have grace: "set (ld_grace w) \<subseteq> set (ld_grace w1)" by (auto simp: w1_def leave_def Let_def)
  have last: "f \<in> set (ld_grace w1)" if "users f w - {v} = {}" "\<not> fg_settled (ld_flights w ! f)"
  proof -
    have "int (card (users f w)) = 1" using c that(1) by simp
    then show ?thesis using that(2) f by (simp add: w1_def leave_def Let_def)
  qed
  have us: "users h (upd_view v (\<lambda>x. x\<lparr>vw_flight := None\<rparr>) w1) = users h w - {v}" for h
    using v by (auto simp: users_def views split: if_splits)
  have others: "users h w - {v} = users h w" if "h \<noteq> f" for h
    using that Some by (auto simp: users_def)
  have "flight_ok h (ld_flights w1 ! h) (upd_view v (\<lambda>x. x\<lparr>vw_flight := None\<rparr>) w1)" if h: "h < length (ld_flights w)" for h
  proof (cases "h = f")
    case True
    have "flight_ok f (ld_flights w ! f) w" using ok f(1) by (simp add: flights_ok_def)
    then show ?thesis using True c last vf unfolding flight_ok_def at [OF h] us upd_view_same views by auto
  next
    case False
    have "flight_ok h (ld_flights w ! h) w" using ok h by (simp add: flights_ok_def)
    then show ?thesis using False grace unfolding flight_ok_def at [OF h] us others [OF False] upd_view_same views by auto
  qed
  moreover have "leave_own v w = upd_view v (\<lambda>x. x\<lparr>vw_flight := None\<rparr>) w1" by (simp add: leave_own_def Some w1_def)
  ultimately show ?thesis
    using ok f(1) unfolding flights_ok_def by (auto simp: views at)
qed (use ok in \<open>simp add: leave_own_def\<close>)

lemma flights_ok_join:
  assumes ok: "flights_ok w" and v: "v < length (ld_views w)" "vw_flight (ld_views w ! v) = None"
    and j: "join_flight (vw_key (ld_views w ! v)) w = (f, w1)"
    and g: "vw_flight (g (ld_views w ! v)) = Some f" "vw_key (g (ld_views w ! v)) = vw_key (ld_views w ! v)"
  shows "flights_ok (upd_view v g w1)" "f < length (ld_flights w1)" "ld_views w1 = ld_views w"
    "\<And>h. h < length (ld_flights w) \<Longrightarrow> h < length (ld_flights w1)
        \<and> fg_outcome (ld_flights w1 ! h) = fg_outcome (ld_flights w ! h) \<and> fg_key (ld_flights w1 ! h) = fg_key (ld_flights w ! h)"
proof -
  let ?k = "vw_key (ld_views w ! v)"
  obtain w0 where f: "find_flight ?k w = (f, w0)" and w1: "w1 = upd_flight f (\<lambda>x. x\<lparr>fg_refs := fg_refs x + 1\<rparr>) w0"
    using j by (auto simp: join_flight_def split: prod.splits)
  have vu: "v \<notin> users h w" for h using v by (simp add: users_def)
  have none: "users (length (ld_flights w)) w = {}"
    using ok unfolding flights_ok_def users_def by force
  have w0: "ld_views w0 = ld_views w" "ld_grace w0 = ld_grace w" "f < length (ld_flights w0)" "length (ld_flights w) \<le> length (ld_flights w0)"
    "\<And>h. h < length (ld_flights w) \<Longrightarrow> ld_flights w0 ! h = ld_flights w ! h"
    using f ok unfolding find_flight_def flights_ok_def by (auto simp: nth_append split: option.splits)
  have users0: "users h w0 = users h w" for h by (simp add: users_def w0)
  have ok0: "flight_ok h (ld_flights w0 ! h) w0 \<or> (h = f \<and> fg_refs (ld_flights w0 ! f) = int (card (users f w))
        \<and> \<not> fg_settled (ld_flights w0 ! f) \<and> \<not> fg_aborted (ld_flights w0 ! f) \<and> fg_outcome (ld_flights w0 ! f) = None
        \<and> fg_key (ld_flights w0 ! f) = ?k)" if "h < length (ld_flights w0)" for h
  proof (cases "jm_get (ld_inflight w) ?k")
    case None
    then have e: "f = length (ld_flights w)" "ld_inflight w0 = jm_set (ld_inflight w) ?k f"
      "ld_flights w0 = ld_flights w @ [\<lparr>fg_key = ?k, fg_refs = 0, fg_settled = False, fg_aborted = False, fg_outcome = None\<rparr>]"
      using f by (auto simp: find_flight_def)
    show ?thesis
    proof (cases "h = f")
      case True
      then show ?thesis using e none by simp
    next
      case False
      then have h: "h < length (ld_flights w)" using that e by simp
      then have "flight_ok h (ld_flights w ! h) w" using ok by (simp add: flights_ok_def)
      moreover have "jm_get (ld_inflight w) (fg_key (ld_flights w ! h)) = Some h \<Longrightarrow> fg_key (ld_flights w ! h) \<noteq> ?k"
        using None by auto
      ultimately show ?thesis using h e unfolding flight_ok_def users0 w0(2) w0(5) [OF h] by auto
    qed
  next
    case (Some h')
    then have "w0 = w" using f by (simp add: find_flight_def)
    then show ?thesis using ok that by (simp add: flights_ok_def)
  qed
  have inf: "h < length (ld_flights w0) \<and> fg_key (ld_flights w0 ! h) = k \<and> \<not> fg_settled (ld_flights w0 ! h) \<and> \<not> fg_aborted (ld_flights w0 ! h)"
    if "jm_get (ld_inflight w0) k = Some h" for k h
  proof (cases "jm_get (ld_inflight w) k = Some h")
    case True
    then show ?thesis using flights_inflight [OF ok True] w0(4,5) by auto
  next
    case False
    then show ?thesis using that f by (auto simp: find_flight_def split: option.splits if_splits)
  qed
  have cur: "jm_get (ld_inflight w0) ?k = Some f"
    using f by (auto simp: find_flight_def split: option.splits)
  have us: "users h (upd_view v g w1) = (if h = f then insert v (users h w) else users h w)" for h
    using v g(1) vu [of h] by (auto simp: users_upd_view w1 users0 w0(1))
  have at: "ld_flights w1 ! h = (if h = f then (ld_flights w0 ! f)\<lparr>fg_refs := fg_refs (ld_flights w0 ! f) + 1\<rparr> else ld_flights w0 ! h)"
    if "h < length (ld_flights w0)" for h using that by (simp add: w1)
  have fl: "flight_ok h (ld_flights w1 ! h) (upd_view v g w1)" if h: "h < length (ld_flights w0)" for h
  proof (cases "h = f")
    case True
    have "int (card (insert v (users f w))) = int (card (users f w)) + 1" using vu by simp
    then show ?thesis
      using ok0 [OF h] inf [OF cur] cur True unfolding flight_ok_def at [OF h] us users0 upd_view_same
      by (auto simp: w1)
  next
    case False
    then show ?thesis
      using ok0 [OF h] unfolding flight_ok_def at [OF h] us users0 upd_view_same by (auto simp: w1)
  qed
  have len: "length (ld_flights (upd_view v g w1)) = length (ld_flights w0)" by (simp add: w1)
  have own: "h < length (ld_flights w0) \<and> fg_key (ld_flights (upd_view v g w1) ! h) = vw_key (ld_views (upd_view v g w1) ! u)"
    if u: "u < length (ld_views w)" "vw_flight (ld_views (upd_view v g w1) ! u) = Some h" for u h
  proof (cases "u = v")
    case True
    then have "h = f" using u g(1) by (simp add: w1 w0(1))
    moreover have "fg_key (ld_flights w0 ! f) = ?k" using inf [OF cur] by simp
    ultimately show ?thesis using True u g(2) w0(3) by (simp add: w1 w0(1))
  next
    case False
    then have "vw_flight (ld_views w ! u) = Some h" using u by (simp add: w1 w0(1))
    then have "h < length (ld_flights w)" "fg_key (ld_flights w ! h) = vw_key (ld_views w ! u)"
      using flights_own [OF ok u(1)] by auto
    then show ?thesis using False u w0(4,5) by (auto simp: w1 w0(1))
  qed
  show "flights_ok (upd_view v g w1)"
  proof (rule flights_okI, goal_cases)
    case (1 h)
    then show ?case using fl [of h] by (simp add: w1)
  next
    case (2 k h)
    then have "jm_get (ld_inflight w0) k = Some h" by (simp add: w1)
    from inf [OF this] at [of h] show ?case by (cases "h = f") (simp_all add: w1)
  next
    case (3 u h)
    then have u: "u < length (ld_views w)" by (simp add: w1 w0(1))
    from own [OF u 3(2)] show ?case by (simp only: len)
  qed
  show "f < length (ld_flights w1)" "ld_views w1 = ld_views w" by (simp_all add: w1 w0)
  show "h < length (ld_flights w1) \<and> fg_outcome (ld_flights w1 ! h) = fg_outcome (ld_flights w ! h)
      \<and> fg_key (ld_flights w1 ! h) = fg_key (ld_flights w ! h)" if "h < length (ld_flights w)" for h
    using that w0(4,5) at [of h] by (auto simp: w1)
qed

lemma flights_ok_settle:
  assumes ok: "flights_ok w" and f: "f < length (ld_flights w)"
  shows "flights_ok (settle_flight f ans w)"
proof -
  define out where "out = (case ans of Inl e \<Rightarrow> Inl e | Inr None \<Rightarrow> Inl no_evidence | Inr (Some e) \<Rightarrow> Inr e)"
  define held where "held = (case ans of Inr (Some e) \<Rightarrow> ld_held (remember_evidence (fg_key (ld_flights w ! f)) e w) | _ \<Rightarrow> ld_held w)"
  define w1 where "w1 = upd_flight f (\<lambda>x. x\<lparr>fg_settled := True, fg_outcome := Some out\<rparr>) (w\<lparr>ld_held := held\<rparr>)"
  have s: "settle_flight f ans w = forget_flight f w1"
    by (simp add: settle_flight_def w1_def out_def held_def remember_evidence_def upd_flight_def split: sum.split option.split)
  have at: "ld_flights w1 ! h = (if h = f then (ld_flights w ! f)\<lparr>fg_settled := True, fg_outcome := Some out\<rparr> else ld_flights w ! h)"
    if "h < length (ld_flights w)" for h using that by (simp add: w1_def upd_flight_def nth_list_update)
  have same: "ld_views w1 = ld_views w" "ld_inflight w1 = ld_inflight w" "ld_grace w1 = ld_grace w" "length (ld_flights w1) = length (ld_flights w)"
    by (simp_all add: w1_def)
  have key: "fg_key (ld_flights w1 ! f) = fg_key (ld_flights w ! f)" using f at [OF f] by simp
  note inf = inflight_forget [OF ok same(2) key]
  have us: "users h w1 = users h w" for h by (simp add: w1_def)
  have "flight_ok h (ld_flights w1 ! h) (forget_flight f w1)" if h: "h < length (ld_flights w)" for h
  proof -
    have "flight_ok h (ld_flights w ! h) w" by (rule flights_at [OF ok h])
    then show ?thesis unfolding flight_ok_def forget_flight_same us same inf at [OF h] by auto
  qed
  note fl = this
  show ?thesis unfolding s
  proof (rule flights_okI, goal_cases)
    case (1 h)
    then show ?case using fl [of h] by (simp add: same)
  next
    case (2 k h)
    then have k: "jm_get (ld_inflight w) k = Some h" "h \<noteq> f" by (auto simp: inf split: if_splits)
    from flights_inflight [OF ok k(1)] at [of h] k(2) show ?case by (simp add: same)
  next
    case (3 u h)
    then show ?case using flights_own [OF ok, of u h] at [of h] by (auto simp: same)
  qed
qed

lemma flights_ok_grace:
  assumes ok: "flights_ok w" and f: "f \<in> set (ld_grace w)" "f < length (ld_flights w)"
  shows "flights_ok (grace_over f w)"
proof (cases "fg_refs (ld_flights w ! f) > 0 \<or> fg_settled (ld_flights w ! f)")
  case True
  have "h \<in> set (remove1 f (ld_grace w))" if "h \<noteq> f" "h \<in> set (ld_grace w)" for h using that by simp
  moreover have "users f w \<noteq> {} \<or> fg_settled (ld_flights w ! f)"
    using True ok f(2) unfolding flights_ok_def flight_ok_def by auto
  ultimately have "flight_ok h (ld_flights w ! h) (w\<lparr>ld_grace := remove1 f (ld_grace w)\<rparr>)" if "h < length (ld_flights w)" for h
    using ok that unfolding flights_ok_def flight_ok_def by (cases "h = f") auto
  with True show ?thesis using ok unfolding flights_ok_def grace_over_def Let_def by auto
next
  case False
  define w1 where "w1 = upd_flight f (\<lambda>x. x\<lparr>fg_aborted := True\<rparr>) (w\<lparr>ld_grace := remove1 f (ld_grace w)\<rparr>)"
  have s: "grace_over f w = forget_flight f w1" using False by (simp add: grace_over_def Let_def w1_def)
  have none: "users f w = {}" using False ok f(2) unfolding flights_ok_def flight_ok_def by auto
  have at: "ld_flights w1 ! h = (if h = f then (ld_flights w ! f)\<lparr>fg_aborted := True\<rparr> else ld_flights w ! h)"
    if "h < length (ld_flights w)" for h using that by (simp add: w1_def upd_flight_def nth_list_update)
  have same: "ld_views w1 = ld_views w" "ld_inflight w1 = ld_inflight w" "ld_grace w1 = remove1 f (ld_grace w)" "length (ld_flights w1) = length (ld_flights w)"
    by (simp_all add: w1_def)
  have key: "fg_key (ld_flights w1 ! f) = fg_key (ld_flights w ! f)" using f at [OF f(2)] by simp
  note inf = inflight_forget [OF ok same(2) key]
  have us: "users h w1 = users h w" for h by (simp add: w1_def)
  have "flight_ok h (ld_flights w1 ! h) (forget_flight f w1)" if h: "h < length (ld_flights w)" for h
  proof -
    have "flight_ok h (ld_flights w ! h) w" by (rule flights_at [OF ok h])
    then show ?thesis using none unfolding flight_ok_def forget_flight_same us same inf at [OF h] by auto
  qed
  note fl = this
  show ?thesis unfolding s
  proof (rule flights_okI, goal_cases)
    case (1 h)
    then show ?case using fl [of h] by (simp add: same)
  next
    case (2 k h)
    then have k: "jm_get (ld_inflight w) k = Some h" "h \<noteq> f" by (auto simp: inf split: if_splits)
    from flights_inflight [OF ok k(1)] at [of h] k(2) show ?case by (simp add: same)
  next
    case (3 u h)
    then show ?case using flights_own [OF ok, of u h] at [of h] by (auto simp: same)
  qed
qed

section \<open>Views\<close>

definition evidence_view_ok :: "'e loader \<Rightarrow> 'e evidence_view \<Rightarrow> bool" where
  "evidence_view_ok w x \<longleftrightarrow>
     (\<forall>f r. vw_await x = Some (f, r) \<longrightarrow>
        f < length (ld_flights w) \<and> fg_key (ld_flights w ! f) = vw_key x \<and> (vw_live x \<longrightarrow> vw_flight x = Some f))
     \<and> (vw_live x \<and> \<not> vw_freshSettled x \<longrightarrow> vw_await x \<noteq> None \<or> vw_retry x \<noteq> None)
     \<and> (vw_retry x \<noteq> None \<longrightarrow> vw_live x \<and> vw_await x = None \<and> \<not> vw_freshSettled x)
     \<and> (vw_freshSucceeded x \<longrightarrow> vw_freshSettled x)
     \<and> (\<not> vw_live x \<longrightarrow> vw_flight x = None)
     \<and> (vw_freshSettled x \<longrightarrow> vw_await x = None)
     \<and> (vw_freshSucceeded x \<longrightarrow>
          (\<exists>f e. f < length (ld_flights w) \<and> fg_key (ld_flights w ! f) = vw_key x
             \<and> fg_outcome (ld_flights w ! f) = Some (Inr e) \<and> vw_evidence x = Some e))"

definition views_ok :: "'e loader \<Rightarrow> bool" where
  "views_ok w = (\<forall>v < length (ld_views w). evidence_view_ok w (ld_views w ! v))"

text \<open>Flights are only added, keep their workload, and settle once.\<close>

definition grown :: "'e loader \<Rightarrow> 'e loader \<Rightarrow> bool" where
  "grown w w' = (\<forall>f < length (ld_flights w). f < length (ld_flights w') \<and> fg_key (ld_flights w' ! f) = fg_key (ld_flights w ! f)
     \<and> (\<forall>out. fg_outcome (ld_flights w ! f) = Some out \<longrightarrow> fg_outcome (ld_flights w' ! f) = Some out))"

lemma grown_refl [simp]: "grown w w"
  by (simp add: grown_def)

lemma grown_same: "ld_flights w' = ld_flights w \<Longrightarrow> grown w w'"
  by (simp add: grown_def)

lemma grown_trans: "grown w w' \<Longrightarrow> grown w' w'' \<Longrightarrow> grown w w''"
  by (simp add: grown_def)

lemma view_ok_grown: "grown w w' \<Longrightarrow> evidence_view_ok w x \<Longrightarrow> evidence_view_ok w' x"
proof -
  assume g: "grown w w'" and x: "evidence_view_ok w x"
  have "f < length (ld_flights w') \<and> fg_key (ld_flights w' ! f) = vw_key x \<and> (vw_live x \<longrightarrow> vw_flight x = Some f)"
    if "vw_await x = Some (f, r)" for f r
  proof -
    from that x have "f < length (ld_flights w) \<and> fg_key (ld_flights w ! f) = vw_key x \<and> (vw_live x \<longrightarrow> vw_flight x = Some f)"
      unfolding evidence_view_ok_def by blast
    with g show ?thesis by (simp add: grown_def)
  qed
  moreover have "\<exists>f e. f < length (ld_flights w') \<and> fg_key (ld_flights w' ! f) = vw_key x
      \<and> fg_outcome (ld_flights w' ! f) = Some (Inr e) \<and> vw_evidence x = Some e" if "vw_freshSucceeded x"
  proof -
    from that x obtain f e where "f < length (ld_flights w)" "fg_key (ld_flights w ! f) = vw_key x"
      "fg_outcome (ld_flights w ! f) = Some (Inr e)" "vw_evidence x = Some e" unfolding evidence_view_ok_def by blast
    with g have "f < length (ld_flights w') \<and> fg_key (ld_flights w' ! f) = vw_key x
        \<and> fg_outcome (ld_flights w' ! f) = Some (Inr e) \<and> vw_evidence x = Some e" by (simp add: grown_def)
    then show ?thesis by blast
  qed
  moreover have "vw_live x \<and> \<not> vw_freshSettled x \<longrightarrow> vw_await x \<noteq> None \<or> vw_retry x \<noteq> None"
    "vw_retry x \<noteq> None \<longrightarrow> vw_live x \<and> vw_await x = None \<and> \<not> vw_freshSettled x" "vw_freshSucceeded x \<longrightarrow> vw_freshSettled x"
    "\<not> vw_live x \<longrightarrow> vw_flight x = None" "vw_freshSettled x \<longrightarrow> vw_await x = None"
    using x unfolding evidence_view_ok_def by blast+
  ultimately show ?thesis unfolding evidence_view_ok_def by (intro conjI allI impI) blast+
qed

lemma grown_view [simp]: "grown w (upd_view v g w') = grown w w'"
  by (simp add: grown_def)

lemma grown_flight: "grown w w' \<Longrightarrow> (\<And>x. fg_key (g x) = fg_key x) \<Longrightarrow>
    (\<And>out. fg_outcome (ld_flights w' ! f) = Some out \<Longrightarrow> fg_outcome (g (ld_flights w' ! f)) = Some out) \<Longrightarrow>
    grown w (upd_flight f g w')"
  by (auto simp: grown_def)

lemma grown_leave: "grown w (leave f w)"
proof -
  have "grown w (upd_flight f (\<lambda>x. x\<lparr>fg_refs := fg_refs x - 1\<rparr>) w)" by (rule grown_flight) simp_all
  moreover have "grown w (w'\<lparr>ld_grace := gs\<rparr>) = grown w w'" for w' gs by (simp add: grown_def)
  ultimately show ?thesis by (simp add: leave_def Let_def)
qed

lemma grown_leave_own [simp]: "grown w (leave_own v w)"
  by (simp add: leave_own_def grown_leave split: option.split)

lemma leave_own_views:
  "length (ld_views (leave_own v w)) = length (ld_views w)"
  "u < length (ld_views w) \<Longrightarrow> ld_views (leave_own v w) ! u = (if u = v then (ld_views w ! v)\<lparr>vw_flight := None\<rparr> else ld_views w ! u)"
proof -
  have "ld_views (leave f w) = ld_views w" for f by (simp add: leave_def Let_def)
  then show "length (ld_views (leave_own v w)) = length (ld_views w)"
    "u < length (ld_views w) \<Longrightarrow> ld_views (leave_own v w) ! u = (if u = v then (ld_views w ! v)\<lparr>vw_flight := None\<rparr> else ld_views w ! u)"
    by (simp_all add: leave_own_def split: option.split)
qed

text \<open>A view joins the flight of its workload: the two invariants, but for what it lacked itself.\<close>

lemma refresh_view_ok:
  assumes fl: "flights_ok w" and v: "v < length (ld_views w)"
    and others: "\<And>u. u < length (ld_views w) \<Longrightarrow> u \<noteq> v \<Longrightarrow> evidence_view_ok w (ld_views w ! u)"
    and own: "vw_live (ld_views w ! v)" "vw_retry (ld_views w ! v) = None" "\<not> vw_freshSettled (ld_views w ! v)"
      "\<not> vw_freshSucceeded (ld_views w ! v)"
  shows "flights_ok (refresh_view v r w)" "views_ok (refresh_view v r w)" "grown w (refresh_view v r w)"
proof -
  let ?w = "leave_own v w" let ?x = "ld_views w ! v"
  obtain f w1 where j: "join_flight (vw_key ?x) ?w = (f, w1)" by (cases "join_flight (vw_key ?x) ?w")
  let ?g = "\<lambda>x :: 'a evidence_view. x\<lparr>vw_flight := Some f, vw_await := Some (f, r)\<rparr>"
  have r: "refresh_view v r w = upd_view v ?g w1" by (simp add: refresh_view_def j)
  have v': "v < length (ld_views ?w)" "vw_flight (ld_views ?w ! v) = None" "vw_key (ld_views ?w ! v) = vw_key ?x"
    using v by (simp_all add: leave_own_views)
  have fl1: "flights_ok ?w" by (rule flights_ok_leave_own [OF fl v])
  note J = flights_ok_join [OF fl1 v'(1,2), unfolded v'(3), OF j, of ?g]
  have ok: "flights_ok (upd_view v ?g w1)" "f < length (ld_flights w1)" "ld_views w1 = ld_views ?w"
    by (rule J; simp add: v')+
  have "grown ?w w1" using J(4) by (simp add: grown_def v')
  then have g: "grown w w1" by (rule grown_trans [OF grown_leave_own])
  show "flights_ok (refresh_view v r w)" unfolding r by (rule ok(1))
  show "grown w (refresh_view v r w)" using g by (simp add: r)
  have key: "fg_key (ld_flights w1 ! f) = vw_key ?x"
    using flights_own [OF ok(1), of v f] v by (simp add: ok(3) leave_own_views)
  show "views_ok (refresh_view v r w)"
    unfolding views_ok_def r
  proof (intro allI impI)
    fix u assume "u < length (ld_views (upd_view v ?g w1))"
    then have u: "u < length (ld_views w)" by (simp add: ok(3) leave_own_views)
    show "evidence_view_ok (upd_view v ?g w1) (ld_views (upd_view v ?g w1) ! u)"
    proof (cases "u = v")
      case True
      then show ?thesis using own v key ok(2) by (simp add: evidence_view_ok_def ok(3) leave_own_views)
    next
      case False
      have "evidence_view_ok (upd_view v ?g w1) (ld_views w ! u)"
        by (rule view_ok_grown [OF _ others [OF u False]]) (simp add: g)
      then show ?thesis using False u by (simp add: ok(3) leave_own_views)
    qed
  qed
qed

section \<open>Every event keeps the invariant\<close>

definition evidence_ok :: "'e loader \<Rightarrow> bool" where
  "evidence_ok w \<longleftrightarrow> flights_ok w \<and> views_ok w \<and> (\<forall>f \<in> set (ld_grace w). f < length (ld_flights w))
     \<and> jm_wf (ld_held w) \<and> jm_size (ld_held w) \<le> MAX_HELD"

definition bounded_ok :: "'e loader \<Rightarrow> bool" where
  "bounded_ok w \<longleftrightarrow> (\<forall>f \<in> set (ld_grace w). f < length (ld_flights w)) \<and> jm_wf (ld_held w) \<and> jm_size (ld_held w) \<le> MAX_HELD"

lemma evidence_ok_parts: "evidence_ok w \<longleftrightarrow> flights_ok w \<and> views_ok w \<and> bounded_ok w"
  by (auto simp: evidence_ok_def bounded_ok_def)

lemma cache_store_bounded: "jm_wf m \<Longrightarrow> jm_wf (cache_store MAX_HELD m k e) \<and> jm_size (cache_store MAX_HELD m k e) \<le> MAX_HELD"
proof -
  assume "jm_wf m"
  then have "jm_wf (jm_set (jm_delete m k) k e)" by simp
  then show ?thesis
    by (simp add: cache_store_def evict_oldest_drop jm_wf_def jm_keys_def drop_map [symmetric] distinct_drop jm_size_def)
qed

lemma bounded_ok_view [simp]: "bounded_ok (upd_view v g w) = bounded_ok w"
  by (simp add: bounded_ok_def)

lemma bounded_ok_flight [simp]: "bounded_ok (upd_flight f g w) = bounded_ok w"
  by (simp add: bounded_ok_def)

lemma bounded_ok_forget [simp]: "bounded_ok (forget_flight f w) = bounded_ok w"
  by (simp add: bounded_ok_def forget_flight_def Let_def)

lemma bounded_ok_remember: "bounded_ok w \<Longrightarrow> bounded_ok (remember_evidence k e w)"
  by (simp add: bounded_ok_def remember_evidence_def cache_store_bounded)

lemma bounded_ok_leave: "bounded_ok w \<Longrightarrow> f < length (ld_flights w) \<Longrightarrow> bounded_ok (leave f w)"
  by (auto simp: bounded_ok_def leave_def Let_def)

lemma bounded_ok_join: "bounded_ok w \<Longrightarrow> bounded_ok (snd (join_flight k w))"
  by (auto simp: join_flight_def find_flight_def bounded_ok_def intro: less_SucI split: option.split)

lemma bounded_ok_leave_own: "bounded_ok w \<Longrightarrow> flights_ok w \<Longrightarrow> v < length (ld_views w) \<Longrightarrow> bounded_ok (leave_own v w)"
  by (auto simp: leave_own_def bounded_ok_leave flights_own split: option.split)

lemma bounded_ok_refresh: "bounded_ok w \<Longrightarrow> flights_ok w \<Longrightarrow> v < length (ld_views w) \<Longrightarrow> bounded_ok (refresh_view v r w)"
  using bounded_ok_join [OF bounded_ok_leave_own, of w v "vw_key (ld_views w ! v)"]
  by (simp add: refresh_view_def case_prod_unfold Let_def)

lemma views_at: "views_ok w \<Longrightarrow> v < length (ld_views w) \<Longrightarrow> evidence_view_ok w (ld_views w ! v)"
  by (simp add: views_ok_def)

lemma views_ok_view:
  assumes "views_ok w" "v < length (ld_views w)" "evidence_view_ok w (g (ld_views w ! v))"
  shows "views_ok (upd_view v g w)"
  unfolding views_ok_def
proof (intro allI impI)
  fix u assume u: "u < length (ld_views (upd_view v g w))"
  have "evidence_view_ok (upd_view v g w) x = evidence_view_ok w x" for x by (simp add: evidence_view_ok_def)
  then show "evidence_view_ok (upd_view v g w) (ld_views (upd_view v g w) ! u)"
    using u assms by (cases "u = v") (simp_all add: views_ok_def)
qed

lemma views_ok_grown: "views_ok w \<Longrightarrow> grown w w' \<Longrightarrow> ld_views w' = ld_views w \<Longrightarrow> views_ok w'"
  by (auto simp: views_ok_def intro: view_ok_grown)

text \<open>What is shown is logged, and nothing else.\<close>

lemma emit_view_ok:
  assumes "flights_ok w" "v < length (ld_views w)"
  shows "flights_ok (emit_view v w)"
  unfolding emit_view_def by (rule flights_ok_view [OF assms]) simp_all

lemma view_ok_shown [simp]: "evidence_view_ok w (x\<lparr>vw_shown := l\<rparr>) = evidence_view_ok w x" "evidence_view_ok w (x\<lparr>vw_cached := b\<rparr>) = evidence_view_ok w x"
  by (simp_all add: evidence_view_ok_def)

lemma emit_views_ok:
  assumes "views_ok w" "v < length (ld_views w)"
  shows "views_ok (emit_view v w)"
  unfolding emit_view_def by (rule views_ok_view [OF assms]) (simp add: views_at [OF assms])

lemma emit_same [simp]: "bounded_ok (emit_view v w) = bounded_ok w" "length (ld_views (emit_view v w)) = length (ld_views w)"
  "grown w' (emit_view v w) = grown w' w"
  by (simp_all add: emit_view_def)

lemma emit_at: "u < length (ld_views w) \<Longrightarrow> u \<noteq> v \<Longrightarrow> ld_views (emit_view v w) ! u = ld_views w ! u"
  by (simp add: emit_view_def)

lemma emit_fields:
  assumes "v < length (ld_views w)"
  shows "vw_live (ld_views (emit_view v w) ! v) = vw_live (ld_views w ! v)"
    "vw_retry (ld_views (emit_view v w) ! v) = vw_retry (ld_views w ! v)"
    "vw_freshSettled (ld_views (emit_view v w) ! v) = vw_freshSettled (ld_views w ! v)"
    "vw_freshSucceeded (ld_views (emit_view v w) ! v) = vw_freshSucceeded (ld_views w ! v)"
  using assms by (simp_all add: emit_view_def)

lemma evidence_ok_load:
  assumes ok: "evidence_ok w"
  shows "evidence_ok (loadEvidence q w)"
proof -
  define x where "x = \<lparr>vw_key = keyOf q, vw_live = True, vw_freshSettled = False, vw_freshSucceeded = False,
     vw_evidence = jm_get (ld_held w) (keyOf q), vw_error = None, vw_busy = None, vw_flight = None, vw_await = None,
     vw_retry = None, vw_cached = (jm_get (ld_held w) (keyOf q) = None), vw_shown = []\<rparr>"
  define w1 where "w1 = w\<lparr>ld_views := ld_views w @ [x]\<rparr>"
  let ?v = "length (ld_views w)"
  have l: "loadEvidence q w = refresh_view ?v False (emit_view ?v w1)" by (simp add: loadEvidence_def Let_def w1_def x_def)
  have v: "?v < length (ld_views w1)" by (simp add: w1_def)
  have parts: "flights_ok w" "views_ok w" "bounded_ok w" using ok by (simp_all add: evidence_ok_parts)
  have us: "users f w1 = users f w" for f by (auto simp: users_def w1_def x_def nth_append)
  have fl: "flights_ok w1"
  proof (rule flights_okI, goal_cases)
    case (1 f)
    then show ?case using flights_at [OF parts(1), of f] unfolding flight_ok_def us by (simp add: w1_def)
  next
    case (2 k f)
    then show ?case using flights_inflight [OF parts(1), of k f] by (simp add: w1_def)
  next
    case (3 v f)
    then show ?case using flights_own [OF parts(1), of v f] by (auto simp: w1_def x_def nth_append split: if_splits)
  qed
  have fle: "flights_ok (emit_view ?v w1)" by (rule emit_view_ok [OF fl v])
  have b: "bounded_ok (emit_view ?v w1)" using parts(3) unfolding emit_same by (simp add: w1_def bounded_ok_def)
  have v': "?v < length (ld_views (emit_view ?v w1))" using v by simp
  have others: "evidence_view_ok (emit_view ?v w1) (ld_views (emit_view ?v w1) ! u)"
    if u: "u < length (ld_views (emit_view ?v w1))" "u \<noteq> ?v" for u
  proof -
    have "u < length (ld_views w)" "u < length (ld_views w1)" using u by (auto simp: w1_def)
    then have "ld_views (emit_view ?v w1) ! u = ld_views w ! u" "evidence_view_ok w (ld_views w ! u)"
      using emit_at [of u w1 ?v] u(2) views_at [OF parts(2)] by (auto simp: w1_def nth_append)
    moreover have "grown w (emit_view ?v w1)" unfolding emit_same by (simp add: w1_def grown_def)
    ultimately show ?thesis using view_ok_grown by metis
  qed
  have own: "vw_live (ld_views (emit_view ?v w1) ! ?v)" "vw_retry (ld_views (emit_view ?v w1) ! ?v) = None"
    "\<not> vw_freshSettled (ld_views (emit_view ?v w1) ! ?v)" "\<not> vw_freshSucceeded (ld_views (emit_view ?v w1) ! ?v)"
    using emit_fields [OF v] by (simp_all add: w1_def x_def)
  show ?thesis
    unfolding evidence_ok_parts l
    using refresh_view_ok [OF fle v' others own] bounded_ok_refresh [OF b fle v'] by simp
qed

lemma evidence_ok_dispose:
  assumes ok: "evidence_ok w" and v: "v < length (ld_views w)"
  shows "evidence_ok (dispose v w)"
proof -
  define w1 where "w1 = upd_view v (\<lambda>x. x\<lparr>vw_live := False, vw_retry := None, vw_cached := False\<rparr>) w"
  have parts: "flights_ok w" "views_ok w" "bounded_ok w" using ok by (simp_all add: evidence_ok_parts)
  have fl: "flights_ok w1" unfolding w1_def by (rule flights_ok_view [OF parts(1) v]) simp_all
  have b: "bounded_ok w1" using parts(3) by (simp add: w1_def)
  have v1: "v < length (ld_views w1)" using v by (simp add: w1_def)
  have "views_ok (leave_own v w1)"
    unfolding views_ok_def
  proof (intro allI impI)
    fix u assume "u < length (ld_views (leave_own v w1))"
    then have u: "u < length (ld_views w)" by (simp add: leave_own_views w1_def)
    have g: "grown w (leave_own v w1)" by (rule grown_trans [OF _ grown_leave_own]) (simp add: w1_def)
    have x: "evidence_view_ok (leave_own v w1) (ld_views w ! u)" by (rule view_ok_grown [OF g views_at [OF parts(2) u]])
    show "evidence_view_ok (leave_own v w1) (ld_views (leave_own v w1) ! u)"
    proof (cases "u = v")
      case True
      then show ?thesis using x u by (simp add: leave_own_views w1_def evidence_view_ok_def)
    next
      case False
      then show ?thesis using x u by (simp add: leave_own_views w1_def)
    qed
  qed
  then show ?thesis
    unfolding evidence_ok_parts dispose_def w1_def [symmetric]
    using flights_ok_leave_own [OF fl v1] bounded_ok_leave_own [OF b fl v1] by simp
qed

lemma evidence_ok_write:
  assumes ok: "evidence_ok w" and v: "v < length (ld_views w)"
    and g: "vw_flight (g (ld_views w ! v)) = vw_flight (ld_views w ! v)" "vw_key (g (ld_views w ! v)) = vw_key (ld_views w ! v)"
      "evidence_view_ok w (g (ld_views w ! v))"
  shows "evidence_ok (upd_view v g w)"
  using assms flights_ok_view [of w v g] views_ok_view [of w v g] by (simp add: evidence_ok_parts)

lemma evidence_ok_emit: "evidence_ok w \<Longrightarrow> v < length (ld_views w) \<Longrightarrow> evidence_ok (emit_view v w)"
  by (simp add: evidence_ok_parts emit_view_ok emit_views_ok)

lemma evidence_ok_remember: "evidence_ok w \<Longrightarrow> evidence_ok (remember_evidence k e w)"
proof -
  have "views_ok (w\<lparr>ld_held := h\<rparr>) = views_ok w" for h by (simp add: views_ok_def evidence_view_ok_def)
  then show "evidence_ok w \<Longrightarrow> evidence_ok (remember_evidence k e w)"
    using bounded_ok_remember [of w k e] by (simp add: evidence_ok_parts remember_evidence_def)
qed

lemma evidence_ok_snapshot:
  assumes ok: "evidence_ok w" and v: "v < length (ld_views w)"
  shows "evidence_ok (cached_answer v e w)"
proof -
  have x: "evidence_view_ok w (ld_views w ! v)" using ok v by (simp add: evidence_ok_parts views_at)
  define w1 where "w1 = upd_view v (\<lambda>x. x\<lparr>vw_cached := False\<rparr>) w"
  have w1: "evidence_ok w1" unfolding w1_def by (rule evidence_ok_write [OF ok v]) (simp_all add: x)
  have v1: "v < length (ld_views w1)" using v by (simp add: w1_def)
  show ?thesis
  proof (cases e)
    case (Some s)
    define w2 where "w2 = (if jm_has (ld_held w1) (vw_key (ld_views w ! v)) then w1 else remember_evidence (vw_key (ld_views w ! v)) s w1)"
    have w2: "evidence_ok w2" using w1 by (simp add: w2_def evidence_ok_remember)
    have same: "ld_views w2 = ld_views w1" by (simp add: w2_def remember_evidence_def)
    have v2: "v < length (ld_views w2)" using v1 by (simp add: same)
    have x2: "evidence_view_ok w2 (ld_views w2 ! v)" using w2 v2 by (simp add: evidence_ok_parts views_at)
    have "evidence_ok (upd_view v (\<lambda>x. x\<lparr>vw_evidence := Some s\<rparr>) w2)" if "\<not> vw_freshSucceeded (ld_views w ! v)"
    proof (rule evidence_ok_write [OF w2 v2])
      have "\<not> vw_freshSucceeded (ld_views w2 ! v)" using that v by (simp add: same w1_def)
      then show "evidence_view_ok w2 ((ld_views w2 ! v)\<lparr>vw_evidence := Some s\<rparr>)" using x2 by (simp add: evidence_view_ok_def)
    qed simp_all
    then show ?thesis
      using Some w1 v2 by (simp add: cached_answer_def Let_def w1_def [symmetric] w2_def [symmetric] evidence_ok_emit)
  qed (simp add: cached_answer_def Let_def w1_def [symmetric] w1)
qed

lemma grown_settle: "flights_ok w \<Longrightarrow> under_way f w \<Longrightarrow> grown w (settle_flight f ans w)"
proof -
  assume ok: "flights_ok w" and f: "under_way f w"
  then have "fg_outcome (ld_flights w ! f) = None"
    using flights_at [OF ok, of f] by (auto simp: under_way_def flight_ok_def)
  then have "grown w (upd_flight f (\<lambda>x. x\<lparr>fg_settled := True, fg_outcome := Some out\<rparr>) (w\<lparr>ld_held := h\<rparr>))" for out h
    by (intro grown_flight) (simp_all add: grown_same)
  moreover have "grown w (forget_flight f w') = grown w w'" for w' by (simp add: grown_def)
  moreover have "grown w (upd_flight f (\<lambda>x. x\<lparr>fg_settled := True, fg_outcome := Some out\<rparr>) w)" for out
    using \<open>fg_outcome (ld_flights w ! f) = None\<close> by (intro grown_flight) simp_all
  ultimately show ?thesis
    by (simp add: settle_flight_def remember_evidence_def split: sum.split option.split)
qed

lemma evidence_ok_settle:
  assumes ok: "evidence_ok w" and f: "under_way f w"
  shows "evidence_ok (settle_flight f ans w)"
proof -
  have parts: "flights_ok w" "views_ok w" "bounded_ok w" using ok by (simp_all add: evidence_ok_parts)
  have same: "ld_views (settle_flight f ans w) = ld_views w"
    by (simp add: settle_flight_def remember_evidence_def split: sum.split option.split)
  have "bounded_ok (settle_flight f ans w)"
    using parts(3) by (auto simp: settle_flight_def bounded_ok_remember split: sum.split option.split)
  moreover have "flights_ok (settle_flight f ans w)"
    using f by (intro flights_ok_settle [OF parts(1)]) (simp add: under_way_def)
  moreover have "views_ok (settle_flight f ans w)"
    by (rule views_ok_grown [OF parts(2) grown_settle [OF parts(1) f] same])
  ultimately show ?thesis by (simp add: evidence_ok_parts)
qed

lemma evidence_ok_go_on:
  assumes ok: "evidence_ok w" and v: "v < length (ld_views w)"
  shows "evidence_ok (go_on_view v w)"
proof -
  let ?x = "ld_views w ! v"
  have x: "evidence_view_ok w ?x" using ok v by (simp add: evidence_ok_parts views_at)
  show ?thesis
  proof (cases "\<exists>f r out. vw_await ?x = Some (f, r) \<and> fg_outcome (ld_flights w ! f) = Some out")
    case True
    then obtain f r out where a: "vw_await ?x = Some (f, r)" and o: "fg_outcome (ld_flights w ! f) = Some out" by blast
    have f: "f < length (ld_flights w)" "fg_key (ld_flights w ! f) = vw_key ?x" and fs: "\<not> vw_freshSettled ?x" "vw_retry ?x = None"
      using x a unfolding evidence_view_ok_def by auto
    have fs': "\<not> vw_freshSucceeded ?x" using x fs unfolding evidence_view_ok_def by blast
    have "evidence_view_ok w ((refreshed_view r out ?x)\<lparr>vw_await := None\<rparr>)"
    proof (cases out)
      case (Inl e)
      then show ?thesis using x fs fs' unfolding evidence_view_ok_def by (auto simp: refreshed_view_def Let_def)
    next
      case (Inr e)
      then show ?thesis using x fs f o unfolding evidence_view_ok_def by (auto simp: refreshed_view_def Let_def)
    qed
    moreover have "vw_flight (refreshed_view r out ?x) = vw_flight ?x" "vw_key (refreshed_view r out ?x) = vw_key ?x"
      by (simp_all add: refreshed_view_def Let_def split: sum.split)
    ultimately have "evidence_ok (upd_view v (\<lambda>x. (refreshed_view r out x)\<lparr>vw_await := None\<rparr>) w)"
      by (intro evidence_ok_write [OF ok v]) simp_all
    then show ?thesis using v by (simp add: go_on_view_def a o evidence_ok_emit)
  next
    case False
    then have "go_on_view v w = w" by (auto simp: go_on_view_def split: option.split)
    then show ?thesis using ok by simp
  qed
qed

lemma evidence_ok_retry:
  assumes ok: "evidence_ok w" and v: "v < length (ld_views w)" and r: "vw_retry (ld_views w ! v) \<noteq> None"
  shows "evidence_ok (retry_due v w)"
proof -
  define w1 where "w1 = upd_view v (\<lambda>x. x\<lparr>vw_retry := None\<rparr>) w"
  have parts: "flights_ok w" "views_ok w" "bounded_ok w" using ok by (simp_all add: evidence_ok_parts)
  have x: "evidence_view_ok w (ld_views w ! v)" by (rule views_at [OF parts(2) v])
  have fl: "flights_ok w1" unfolding w1_def by (rule flights_ok_view [OF parts(1) v]) simp_all
  have b: "bounded_ok w1" using parts(3) by (simp add: w1_def)
  have v1: "v < length (ld_views w1)" using v by (simp add: w1_def)
  have others: "evidence_view_ok w1 (ld_views w1 ! u)" if u: "u < length (ld_views w1)" "u \<noteq> v" for u
  proof -
    have "evidence_view_ok w (ld_views w ! u)" using u by (intro views_at [OF parts(2)]) (simp add: w1_def)
    then have "evidence_view_ok w1 (ld_views w ! u)" by (rule view_ok_grown [rotated]) (simp add: w1_def)
    then show ?thesis using u by (simp add: w1_def)
  qed
  have own: "vw_live (ld_views w1 ! v)" "vw_retry (ld_views w1 ! v) = None" "\<not> vw_freshSettled (ld_views w1 ! v)"
    "\<not> vw_freshSucceeded (ld_views w1 ! v)"
    using x r v unfolding evidence_view_ok_def by (auto simp: w1_def)
  show ?thesis unfolding retry_due_def w1_def [symmetric] evidence_ok_parts
    using refresh_view_ok [OF fl v1 others own] bounded_ok_refresh [OF b fl v1] by simp
qed

lemma evidence_ok_grace:
  assumes ok: "evidence_ok w" and f: "f \<in> set (ld_grace w)"
  shows "evidence_ok (grace_over f w)"
proof -
  have parts: "flights_ok w" "views_ok w" "bounded_ok w" using ok by (simp_all add: evidence_ok_parts)
  then have len: "f < length (ld_flights w)" using f by (simp add: bounded_ok_def)
  have "grown w (upd_flight f (\<lambda>x. x\<lparr>fg_aborted := True\<rparr>) (w\<lparr>ld_grace := g\<rparr>))" for g
    by (intro grown_flight) (simp_all add: grown_same)
  moreover have "grown w (forget_flight f w') = grown w w'" for w' by (simp add: grown_def)
  ultimately have g: "grown w (grace_over f w)" by (simp add: grace_over_def Let_def grown_same)
  have same: "ld_views (grace_over f w) = ld_views w" by (simp add: grace_over_def Let_def)
  have "bounded_ok (w\<lparr>ld_grace := remove1 f (ld_grace w)\<rparr>)"
    using parts(3) set_remove1_subset [of f "ld_grace w"] by (auto simp: bounded_ok_def)
  then have "bounded_ok (grace_over f w)" by (simp add: grace_over_def Let_def)
  then show ?thesis
    using flights_ok_grace [OF parts(1) f len] views_ok_grown [OF parts(2) g same] by (simp add: evidence_ok_parts)
qed

lemma evidence_ok_do: "evidence_ok w \<Longrightarrow> evidence_ok (evidence_do ev w)"
proof (cases ev)
  case (SnapshotFailed v)
  assume ok: "evidence_ok w"
  have "evidence_ok (upd_view v (\<lambda>x. x\<lparr>vw_cached := False\<rparr>) w)" if v: "v < length (ld_views w)"
    by (rule evidence_ok_write [OF ok v]) (use ok v in \<open>simp_all add: evidence_ok_parts views_at\<close>)
  then show ?thesis using SnapshotFailed ok by (simp add: has_view_def)
qed (auto simp: has_view_def under_way_def evidence_ok_load evidence_ok_dispose evidence_ok_snapshot evidence_ok_settle
    evidence_ok_go_on evidence_ok_retry evidence_ok_grace)

lemma evidence_ok_run: "evidence_ok w \<Longrightarrow> evidence_ok (evidence_run evs w)"
  unfolding evidence_run_def by (induction evs arbitrary: w) (simp_all add: evidence_ok_do)

lemma evidence_ok_new: "evidence_ok new_loader"
  by (simp add: evidence_ok_def new_loader_def flights_ok_def views_ok_def)

lemma evidence_ok_reachable: "evidence_ok (evidence_run evs new_loader)"
  by (rule evidence_ok_run [OF evidence_ok_new])

lemma flight_ok_keyed: "flight_ok f x w \<Longrightarrow> \<not> fg_settled x \<Longrightarrow> \<not> fg_aborted x \<Longrightarrow> jm_get (ld_inflight w) (fg_key x) = Some f"
  by (simp add: flight_ok_def)

lemma under_way_unsettled: "under_way f w \<Longrightarrow> f < length (ld_flights w) \<and> \<not> fg_settled (ld_flights w ! f)"
  by (simp add: under_way_def)

section \<open>Properties\<close>


definition pod_query :: evidence_query where
  "pod_query = \<lparr>eq_cluster = ''dev'', eq_provider = None, eq_profile = ''balanced'', eq_window = ''7d'', eq_namespace = ''ns'',
     eq_vclusterNamespace = None, eq_kind = ''Deployment'', eq_name = ''web''\<rparr>"

definition two_views :: "string loader" where
  "two_views = evidence_run [Load pod_query, Load pod_query, Dispose 0] new_loader"


text \<open>What leads on from a view that is refreshing.\<close>

definition attended :: "'e loader \<Rightarrow> nat \<Rightarrow> bool" where
  "attended w v \<longleftrightarrow>
     vw_retry (ld_views w ! v) \<noteq> None
     \<or> (\<exists>f r. vw_await (ld_views w ! v) = Some (f, r) \<and> vw_flight (ld_views w ! v) = Some f \<and> \<not> fg_aborted (ld_flights w ! f)
        \<and> (under_way f w
           \<or> (let x = ld_views (evidence_do (GoOn v) w) ! v in
                vw_freshSettled x \<or> (\<not> r \<and> (\<exists>ms. vw_retry x = Some ms \<and> 1000 \<le> ms \<and> ms \<le> 120000)))))"

lemma busyRetryMs_range: "busyRetryMs e = Some ms \<Longrightarrow> 1000 \<le> ms \<and> ms \<le> 120000"
  by (auto simp: busyRetryMs_def BUSY_RETRY_MS_def MAX_BUSY_RETRY_MS_def split: if_splits option.splits)

text \<open>C23: An open view that says it is refreshing has something that leads on: its one retry armed,
  after 1 second to 2 minutes; or a refresh it shares, which is not cancelled, and once that has
  settled, the view's next step ends the refreshing or arms the retry, the latter only once.\<close>

theorem evidence_refresh_attended:
  assumes w: "w = evidence_run evs new_loader" and v: "v < length (ld_views w)"
    and open_view: "vw_live (ld_views w ! v)" "\<not> vw_freshSettled (ld_views w ! v)"
  shows "attended w v"
proof -
  let ?x = "ld_views w ! v"
  have ok: "flights_ok w" "views_ok w" using evidence_ok_reachable [of evs] by (simp_all add: w evidence_ok_parts)
  have x: "evidence_view_ok w ?x" by (rule views_at [OF ok(2) v])
  show ?thesis
  proof (cases "vw_retry ?x")
    case None
    with x open_view obtain f r where a: "vw_await ?x = Some (f, r)" unfolding evidence_view_ok_def by auto
    with x open_view have f: "f < length (ld_flights w)" "vw_flight ?x = Some f" unfolding evidence_view_ok_def by auto
    have fl: "flight_ok f (ld_flights w ! f) w" by (rule flights_at [OF ok(1) f(1)])
    have "v \<in> users f w" using v f(2) by (simp add: users_def)
    with fl have live: "\<not> fg_aborted (ld_flights w ! f)" unfolding flight_ok_def by auto
    have "vw_freshSettled y \<or> (\<not> r \<and> (\<exists>ms. vw_retry y = Some ms \<and> 1000 \<le> ms \<and> ms \<le> 120000))"
      if "\<not> under_way f w" "y = ld_views (evidence_do (GoOn v) w) ! v" for y
    proof -
      from that(1) f(1) fl obtain out where o: "fg_outcome (ld_flights w ! f) = Some out"
        unfolding under_way_def flight_ok_def by auto
      have "vw_freshSettled y = vw_freshSettled (refreshed_view r out ?x)" "vw_retry y = vw_retry (refreshed_view r out ?x)"
        using v by (simp_all add: that(2) has_view_def go_on_view_def a o emit_fields)
      then show ?thesis
        using busyRetryMs_range open_view by (auto simp: refreshed_view_def Let_def split: sum.split)
    qed
    then show ?thesis using a f(2) live unfolding attended_def Let_def by blast
  qed (simp add: attended_def)
qed

definition busy_view :: "string loader" where
  "busy_view = evidence_run [Load pod_query,
     RefreshFailed 0 \<lparr>ee_status = Some 503, ee_retryAfter = Some 3, ee_error = None, ee_message = None\<rparr>] new_loader"

lemma evidence_refresh_attended_witness:
  "attended busy_view 0 \<and> vw_retry (ld_views (evidence_do (GoOn 0) busy_view) ! 0) = Some 3000"
proof -
  have "0 < length (ld_views busy_view)" "vw_live (ld_views busy_view ! 0)" "\<not> vw_freshSettled (ld_views busy_view ! 0)" by code_simp+
  then have "attended busy_view 0" by (rule evidence_refresh_attended [OF busy_view_def])
  moreover have "vw_retry (ld_views (evidence_do (GoOn 0) busy_view) ! 0) = Some 3000" by code_simp
  ultimately show ?thesis by simp
qed

text \<open>Once a view's refresh has succeeded, it shows evidence that a refresh of its own workload
  answered: a slow snapshot from the cache never replaces it.\<close>

lemma fresh_evidence_kept:
  assumes w: "w = evidence_run evs new_loader" and v: "v < length (ld_views w)"
    and fresh: "vw_freshSucceeded (ld_views w ! v)"
  shows "\<exists>f < length (ld_flights w). fg_key (ld_flights w ! f) = vw_key (ld_views w ! v)
     \<and> (\<exists>e. fg_outcome (ld_flights w ! f) = Some (Inr e) \<and> vw_evidence (ld_views w ! v) = Some e)"
proof -
  have "views_ok w" using evidence_ok_reachable [of evs] by (simp add: w evidence_ok_parts)
  then have "evidence_view_ok w (ld_views w ! v)" by (rule views_at [OF _ v])
  then show ?thesis using fresh unfolding evidence_view_ok_def by blast
qed

definition late_snapshot :: "string loader" where
  "late_snapshot = evidence_run [Load pod_query, Refreshed 0 (Some ''new''), GoOn 0, Snapshot 0 (Some ''old'')] new_loader"

lemma fresh_evidence_kept_late:
  "\<exists>f < length (ld_flights late_snapshot). \<exists>e. fg_outcome (ld_flights late_snapshot ! f) = Some (Inr e)
     \<and> vw_evidence (ld_views late_snapshot ! 0) = Some e"
proof -
  have "0 < length (ld_views late_snapshot)" "vw_freshSucceeded (ld_views late_snapshot ! 0)" by code_simp+
  then show ?thesis using fresh_evidence_kept [OF late_snapshot_def] by blast
qed

end
