(* ===== verification/RealtimeReducer.thy ===== *)
theory RealtimeReducer
  imports JsMap
begin

text \<open>
  The reducer of the live resource lists, \<open>frontend/src/store/realtimeReducer.ts\<close>.

  A session keeps, across batches of watch events, a sequence number, the sequence number
  at which each key was last touched, the listings (epochs) that are still arriving with
  the keys each has delivered, and the last list it returned with each key's position.
  \<open>applyRealtimeEvents\<close> applies a batch in O(events): it edits a copy of the list in place
  through the position index, leaves a tombstone where a row was deleted, and compacts the
  list at the end. The reference specification at the end of the theory works on an
  insertion-ordered map from keys to rows; the refinement says that the index and the
  tombstones implement it.

  The arrays the reducer returns are never mutated afterwards, so its test
  \<open>s.items !== baseItems\<close> is modelled by comparing contents; \<open>reindex_cached\<close> shows that
  for a consistent session rebuilding the index or reusing it is the same.
\<close>

section \<open>Rows, events and the session\<close>

record item =
  it_name :: "string option"
  it_namespace :: "string option"
  it_uid :: "string option"
  it_rv :: "string option"

datatype rt_action = Added | Modified | Deleted | Sync

record 'i rt_event =
  ev_action :: rt_action
  ev_item :: "'i option"
  ev_epoch :: "int option"
  ev_itemCount :: "int option"
  ev_failed :: bool
  ev_error :: "string option"
  ev_errorCode :: "string option"
  ev_lastSyncAt :: "int option"

record sync_failure =
  sf_error :: "string option"
  sf_errorCode :: "string option"
  sf_lastSyncAt :: "int option"

record 'i session =
  rs_seq :: nat
  rs_touch :: "(string, nat) jsmap"
  rs_epochStart :: "(int, nat) jsmap"
  rs_epochSeen :: "(int, string list) jsmap"
  rs_stopped :: bool
  rs_items :: "'i list option"
  rs_index :: "(string, nat) jsmap option"

record 'i apply_result =
  ar_items :: "'i list"
  ar_changed :: bool
  ar_completedEpoch :: "int option"
  ar_syncSeen :: bool
  ar_incomplete :: bool
  ar_failure :: "sync_failure option"
  ar_removed :: "'i list"

definition newRealtimeSession :: "'i session" where
  "newRealtimeSession =
     \<lparr>rs_seq = 0, rs_touch = [], rs_epochStart = [], rs_epochSeen = [], rs_stopped = False,
      rs_items = None, rs_index = None\<rparr>"

definition itemKey :: "'a item_scheme \<Rightarrow> string" where
  "itemKey it = str_or (it_namespace it) [] @ ''/'' @ str_or (it_name it) []"

definition pendingListing :: "'i session \<Rightarrow> (int \<times> nat) option" where
  "pendingListing s =
     (let epoch = foldl (\<lambda>m e. if e > m then e else m) 0 (jm_keys (rs_epochSeen s)) in
      if epoch \<noteq> 0 then Some (epoch, length (nullish (jm_get (rs_epochSeen s) epoch) [])) else None)"

definition rvNum :: "'a item_scheme \<Rightarrow> int" where
  "rvNum it =
     (case it_rv it of
        None \<Rightarrow> 0
      | Some rv \<Rightarrow> if rv = [] then 0 else (case parse_int rv of None \<Rightarrow> 0 | Some n \<Rightarrow> n))"

section \<open>The position index\<close>

text \<open>
  \<open>copy\<close> is \<open>None\<close> while \<open>items\<close> is still \<open>baseItems\<close>: the list is copied at the first
  repeated key, which keeps its first position and its last value.
\<close>

fun reindex_loop ::
  "'a item_scheme list \<Rightarrow> nat \<Rightarrow> 'a item_scheme list \<Rightarrow> (string, nat) jsmap \<Rightarrow> 'a item_scheme list option
     \<Rightarrow> (string, nat) jsmap \<times> 'a item_scheme list option" where
  "reindex_loop base i [] index copy = (index, copy)"
| "reindex_loop base i (x # xs) index copy =
     (let key = itemKey x in
      case jm_get index key of
        None \<Rightarrow>
          reindex_loop base (Suc i) xs
            (jm_set index key (case copy of None \<Rightarrow> i | Some c \<Rightarrow> length c))
            (map_option (\<lambda>c. c @ [x]) copy)
      | Some pos \<Rightarrow>
          reindex_loop base (Suc i) xs index
            (Some ((case copy of None \<Rightarrow> take i base | Some c \<Rightarrow> c)[pos := x])))"

definition reindex :: "'a item_scheme session \<Rightarrow> 'a item_scheme list \<Rightarrow> 'a item_scheme session" where
  "reindex s base =
     (let (index, copy) = reindex_loop base 0 base [] None in
      s\<lparr>rs_items := Some (nullish copy base), rs_index := Some index\<rparr>)"

definition session_for :: "'a item_scheme session \<Rightarrow> 'a item_scheme list \<Rightarrow> 'a item_scheme session" where
  "session_for s base =
     (if rs_items s \<noteq> Some base \<or> rs_index s = None then reindex s base else s)"

definition findItem ::
  "'a item_scheme session \<Rightarrow> 'a item_scheme list \<Rightarrow> string \<Rightarrow> 'a item_scheme session \<times> 'a item_scheme option" where
  "findItem s items key =
     (let s' = session_for s items in
      (s', case jm_get (nullish (rs_index s') []) key of
             None \<Rightarrow> None
           | Some pos \<Rightarrow> nth_opt (nullish (rs_items s') []) pos))"

section \<open>Applying a batch\<close>

text \<open>
  The loop's variables. A slot of \<open>as_slots\<close> is a row of \<open>next ?? base\<close>, or \<open>None\<close> for
  the \<open>REMOVED\<close> tombstone; \<open>as_byListing = []\<close> is \<open>removedByListing === undefined\<close>.
\<close>

record 'i batch_state =
  as_session :: "'i session"
  as_index :: "(string, nat) jsmap"
  as_slots :: "'i option list"
  as_removed :: nat
  as_changed :: bool
  as_completedEpoch :: "int option"
  as_syncSeen :: bool
  as_incomplete :: bool
  as_failure :: "sync_failure option"
  as_byListing :: "'i list"

definition remove_slot :: "string \<Rightarrow> nat \<Rightarrow> 'i batch_state \<Rightarrow> 'i batch_state" where
  "remove_slot key pos st =
     st\<lparr>as_slots := (as_slots st)[pos := None],
        as_index := jm_delete (as_index st) key,
        as_removed := Suc (as_removed st)\<rparr>"

definition slot_at :: "'i batch_state \<Rightarrow> nat \<Rightarrow> 'i option" where
  "slot_at st pos = (case nth_opt (as_slots st) pos of None \<Rightarrow> None | Some x \<Rightarrow> x)"

text \<open>The rows a completed listing no longer has, over a snapshot of the index.\<close>

definition prune_key :: "string list \<Rightarrow> nat \<Rightarrow> string \<Rightarrow> nat \<Rightarrow> 'i batch_state \<Rightarrow> 'i batch_state" where
  "prune_key seen started key pos st =
     (if key \<notin> set seen \<and> nullish (jm_get (rs_touch (as_session st)) key) 0 < started
      then (remove_slot key pos
             (st\<lparr>as_byListing := as_byListing st @ (case slot_at st pos of None \<Rightarrow> [] | Some x \<Rightarrow> [x])\<rparr>))
           \<lparr>as_changed := True\<rparr>
      else st)"

fun prune_unseen ::
  "(string \<times> nat) list \<Rightarrow> string list \<Rightarrow> nat \<Rightarrow> 'i batch_state \<Rightarrow> 'i batch_state" where
  "prune_unseen [] seen started st = st"
| "prune_unseen ((key, pos) # ps) seen started st =
     prune_unseen ps seen started (prune_key seen started key pos st)"

definition drop_epochs :: "int \<Rightarrow> 'i session \<Rightarrow> 'i session" where
  "drop_epochs e s =
     foldl (\<lambda>s k. if k \<le> e
                  then s\<lparr>rs_epochSeen := jm_delete (rs_epochSeen s) k,
                         rs_epochStart := jm_delete (rs_epochStart s) k\<rparr>
                  else s)
       s (jm_keys (rs_epochSeen s))"

definition apply_sync :: "'i rt_event \<Rightarrow> 'i batch_state \<Rightarrow> 'i batch_state" where
  "apply_sync ev st =
     (if ev_failed ev
      then st\<lparr>as_failure := Some \<lparr>sf_error = ev_error ev, sf_errorCode = ev_errorCode ev,
                                  sf_lastSyncAt = ev_lastSyncAt ev\<rparr>\<rparr>
      else
        let st1 = st\<lparr>as_syncSeen := True, as_failure := None, as_incomplete := False\<rparr>;
            e = num_or (ev_epoch ev) 0;
            s = as_session st1
        in if e > 0
           then
             let seen = nullish (jm_get (rs_epochSeen s) e) [];
                 started = nullish (jm_get (rs_epochStart s) e) (rs_seq s + 1);
                 complete = (case ev_itemCount ev of None \<Rightarrow> True | Some n \<Rightarrow> int (length seen) \<ge> n);
                 st2 = (if complete
                        then (prune_unseen (as_index st1) seen started st1)\<lparr>as_completedEpoch := Some e\<rparr>
                        else st1\<lparr>as_incomplete := True\<rparr>)
             in st2\<lparr>as_session := drop_epochs e (as_session st2)\<rparr>
           else st1)"

text \<open>
  \<open>epochStart\<close> and \<open>epochSeen\<close> always have the same keys (\<open>session_wf\<close> below), so reading
  \<open>epochSeen\<close> with a default only totalises a read the code asserts to succeed.
\<close>

definition note_epoch :: "int option \<Rightarrow> string \<Rightarrow> 'i session \<Rightarrow> 'i session" where
  "note_epoch ep key s =
     (if truthy_num ep
      then
        let e = nullish ep 0;
            s1 = (if jm_has (rs_epochStart s) e then s
                  else s\<lparr>rs_epochStart := jm_set (rs_epochStart s) e (rs_seq s),
                         rs_epochSeen := jm_set (rs_epochSeen s) e []\<rparr>)
        in s1\<lparr>rs_epochSeen := jm_set (rs_epochSeen s1) e
                (js_add (nullish (jm_get (rs_epochSeen s1) e) []) key)\<rparr>
      else s)"

definition touch_key :: "string \<Rightarrow> 'i batch_state \<Rightarrow> 'i batch_state" where
  "touch_key key st =
     (let s = as_session st in
      st\<lparr>as_session := s\<lparr>rs_touch := jm_set (rs_touch s) key (rs_seq s)\<rparr>\<rparr>)"

definition uids_differ :: "'a item_scheme \<Rightarrow> 'a item_scheme \<Rightarrow> bool" where
  "uids_differ a b = (truthy_str (it_uid a) \<and> truthy_str (it_uid b) \<and> it_uid a \<noteq> it_uid b)"

definition stale_version :: "'a item_scheme \<Rightarrow> 'a item_scheme \<Rightarrow> bool" where
  "stale_version prev item = (rvNum prev \<noteq> 0 \<and> rvNum item \<noteq> 0 \<and> rvNum item < rvNum prev)"

definition put_slot :: "string \<Rightarrow> nat option \<Rightarrow> 'i \<Rightarrow> 'i batch_state \<Rightarrow> 'i batch_state" where
  "put_slot key pos item st =
     (case pos of
        None \<Rightarrow> st\<lparr>as_index := jm_set (as_index st) key (length (as_slots st)),
                   as_slots := as_slots st @ [Some item]\<rparr>
      | Some p \<Rightarrow> st\<lparr>as_slots := (as_slots st)[p := Some item]\<rparr>)"

definition apply_item ::
  "'a item_scheme rt_event \<Rightarrow> 'a item_scheme \<Rightarrow> 'a item_scheme batch_state \<Rightarrow> 'a item_scheme batch_state" where
  "apply_item ev item st0 =
     (let key = itemKey item;
          s1 = (as_session st0)\<lparr>rs_seq := Suc (rs_seq (as_session st0))\<rparr>;
          st = st0\<lparr>as_session := note_epoch (ev_epoch ev) key s1\<rparr>;
          pos = jm_get (as_index st) key;
          prev = (case pos of None \<Rightarrow> None | Some p \<Rightarrow> slot_at st p)
      in if ev_action ev = Deleted
         then (case prev of
                 None \<Rightarrow> st
               | Some pr \<Rightarrow>
                   if uids_differ item pr then st
                   else touch_key key ((remove_slot key (nullish pos 0) st)\<lparr>as_changed := True\<rparr>))
         else if (case prev of None \<Rightarrow> False | Some pr \<Rightarrow> \<not> uids_differ item pr \<and> stale_version pr item)
         then touch_key key st
         else touch_key key ((put_slot key pos item st)\<lparr>as_changed := True\<rparr>))"

definition apply_event ::
  "'a item_scheme rt_event \<Rightarrow> 'a item_scheme batch_state \<Rightarrow> 'a item_scheme batch_state" where
  "apply_event ev st =
     (if ev_action ev = Sync then apply_sync ev st
      else case ev_item ev of
             None \<Rightarrow> st
           | Some item \<Rightarrow> if truthy_str (it_name item) then apply_item ev item st else st)"

definition init_batch :: "'i session \<Rightarrow> 'i batch_state" where
  "init_batch s =
     \<lparr>as_session = s, as_index = nullish (rs_index s) [],
      as_slots = map Some (nullish (rs_items s) []), as_removed = 0, as_changed = False,
      as_completedEpoch = None, as_syncSeen = False, as_incomplete = False, as_failure = None,
      as_byListing = []\<rparr>"

definition apply_events ::
  "'a item_scheme rt_event list \<Rightarrow> 'a item_scheme batch_state \<Rightarrow> 'a item_scheme batch_state" where
  "apply_events evs st = foldl (\<lambda>st ev. apply_event ev st) st evs"

text \<open>Compacting: \<open>r\<close> reads, \<open>w\<close> writes; a row that moves gets its new position.\<close>

fun compact_loop ::
  "nat \<Rightarrow> nat \<Rightarrow> 'a item_scheme option list \<Rightarrow> (string, nat) jsmap
     \<Rightarrow> 'a item_scheme list \<times> (string, nat) jsmap" where
  "compact_loop r w [] index = ([], index)"
| "compact_loop r w (None # sl) index = compact_loop (Suc r) w sl index"
| "compact_loop r w (Some x # sl) index =
     (let (xs, index') =
        compact_loop (Suc r) (Suc w) sl (if w \<noteq> r then jm_set index (itemKey x) w else index)
      in (x # xs, index'))"

definition slot_items :: "'i option list \<Rightarrow> 'i list" where
  "slot_items sl = concat (map (\<lambda>x. case x of None \<Rightarrow> [] | Some y \<Rightarrow> [y]) sl)"

definition compact ::
  "'a item_scheme batch_state \<Rightarrow> 'a item_scheme list \<times> (string, nat) jsmap" where
  "compact st =
     (if as_removed st > 0 then compact_loop 0 0 (as_slots st) (as_index st)
      else (slot_items (as_slots st), as_index st))"

definition prune_touch :: "(string, nat) jsmap \<Rightarrow> (string, nat) jsmap \<Rightarrow> (string, nat) jsmap" where
  "prune_touch index touch =
     (if jm_size touch > jm_size index * 2 + 512
      then foldl (\<lambda>t k. if jm_has index k then t else jm_delete t k) touch (jm_keys touch)
      else touch)"

definition finish_batch ::
  "'a item_scheme list \<Rightarrow> 'a item_scheme batch_state \<Rightarrow> 'a item_scheme session \<times> 'a item_scheme apply_result" where
  "finish_batch base st =
     (let (items, index) = compact st;
          s1 = (as_session st)\<lparr>rs_index := Some index,
                 rs_touch := prune_touch index (rs_touch (as_session st))\<rparr>;
          s2 = (if as_changed st then s1\<lparr>rs_items := Some items\<rparr> else s1)
      in (s2, \<lparr>ar_items = (if as_changed st then items else base),
               ar_changed = as_changed st,
               ar_completedEpoch = as_completedEpoch st,
               ar_syncSeen = as_syncSeen st,
               ar_incomplete = as_incomplete st,
               ar_failure = as_failure st,
               ar_removed = as_byListing st\<rparr>))"

definition applyRealtimeEvents ::
  "'a item_scheme list \<Rightarrow> 'a item_scheme rt_event list \<Rightarrow> 'a item_scheme session
     \<Rightarrow> 'a item_scheme session \<times> 'a item_scheme apply_result" where
  "applyRealtimeEvents baseItems events s =
     finish_batch baseItems (apply_events events (init_batch (session_for s baseItems)))"


section \<open>Slots and their index\<close>

fun slot_index :: "nat \<Rightarrow> 'a item_scheme option list \<Rightarrow> (string, nat) jsmap" where
  "slot_index i [] = []"
| "slot_index i (None # sl) = slot_index (Suc i) sl"
| "slot_index i (Some x # sl) = (itemKey x, i) # slot_index (Suc i) sl"

definition rows_of :: "'a item_scheme list \<Rightarrow> (string, 'a item_scheme) jsmap" where
  "rows_of xs = map (\<lambda>x. (itemKey x, x)) xs"

lemma slot_items_simps [simp]:
  "slot_items [] = []" "slot_items (None # sl) = slot_items sl"
  "slot_items (Some x # sl) = x # slot_items sl"
  "slot_items (sl @ sl') = slot_items sl @ slot_items sl'"
  "slot_items (map Some xs) = xs"
  by (induction xs) (simp_all add: slot_items_def)

lemma rows_of_simps [simp]:
  "rows_of [] = []" "rows_of (x # xs) = (itemKey x, x) # rows_of xs"
  "rows_of (xs @ ys) = rows_of xs @ rows_of ys"
  by (simp_all add: rows_of_def)

lemma jm_keys_rows [simp]: "jm_keys (rows_of xs) = map itemKey xs"
  by (simp add: jm_keys_def rows_of_def)

lemma jm_values_rows [simp]: "jm_values (rows_of xs) = xs"
  by (induction xs) (simp_all add: jm_values_def)

lemma jm_get_rows: "jm_get (rows_of xs) k = Some x \<Longrightarrow> itemKey x = k \<and> x \<in> set xs"
  by (induction xs) (auto simp: jm_get_def split: if_splits)

lemma jm_wf_rows: "jm_wf (rows_of xs) = distinct (map itemKey xs)"
  by (simp add: jm_wf_def)

lemma slot_index_append:
  "slot_index i (sl @ sl') = slot_index i sl @ slot_index (i + length sl) sl'"
  by (induction i sl rule: slot_index.induct) auto

lemma jm_keys_slot_index [simp]: "jm_keys (slot_index i sl) = map itemKey (slot_items sl)"
  by (induction i sl rule: slot_index.induct) (auto simp: jm_keys_def)

lemma slot_index_get:
  "jm_get (slot_index i sl) k = Some p \<Longrightarrow>
     \<exists>x. i \<le> p \<and> p < i + length sl \<and> sl ! (p - i) = Some x \<and> itemKey x = k"
proof (induction i sl rule: slot_index.induct)
  case (2 i sl)
  then obtain x where "Suc i \<le> p" "p < Suc i + length sl" "sl ! (p - Suc i) = Some x" "itemKey x = k"
    by auto
  moreover from this have "p - i = Suc (p - Suc i)" by arith
  ultimately show ?case by auto
next
  case (3 i y sl)
  show ?case
  proof (cases "itemKey y = k")
    case True
    with 3 show ?thesis by (auto simp: jm_get_def)
  next
    case False
    with 3 obtain x where "Suc i \<le> p" "p < Suc i + length sl" "sl ! (p - Suc i) = Some x" "itemKey x = k"
      by (auto simp: jm_get_def)
    moreover from this have "p - i = Suc (p - Suc i)" by arith
    ultimately show ?thesis by auto
  qed
qed simp

lemma slot_index_none: "jm_get (slot_index i sl) k = None \<longleftrightarrow> k \<notin> itemKey ` set (slot_items sl)"
  using jm_has_get [of "slot_index i sl" k] by (auto simp: jm_has_def)

lemma slot_index_delete:
  "jm_get (slot_index i sl) k = Some p \<Longrightarrow> distinct (map itemKey (slot_items sl)) \<Longrightarrow>
     slot_index i (sl[p - i := None]) = jm_delete (slot_index i sl) k
     \<and> rows_of (slot_items (sl[p - i := None])) = jm_delete (rows_of (slot_items sl)) k"
proof (induction i sl rule: slot_index.induct)
  case (2 i sl)
  then have "Suc i \<le> p" using slot_index_get [of "Suc i" sl k p] by auto
  then have eq: "p - i = Suc (p - Suc i)" by arith
  from 2 show ?case by (simp add: eq)
next
  case (3 i x sl)
  show ?case
  proof (cases "itemKey x = k")
    case True
    with 3 have "p = i" by (simp add: jm_get_def)
    moreover have "jm_delete (slot_index (Suc i) sl) k = slot_index (Suc i) sl"
      using 3(3) True by (intro jm_delete_new) (auto simp: jm_has_def)
    moreover have "jm_delete (rows_of (slot_items sl)) k = rows_of (slot_items sl)"
      using 3(3) True by (intro jm_delete_new) (auto simp: jm_has_def)
    ultimately show ?thesis using True by (simp add: jm_delete_def)
  next
    case False
    with 3(2) have g: "jm_get (slot_index (Suc i) sl) k = Some p" by (simp add: jm_get_def)
    then have "Suc i \<le> p" using slot_index_get [of "Suc i" sl k p] by auto
    then have eq: "p - i = Suc (p - Suc i)" by arith
    from 3(1) [OF g] 3(3) False show ?thesis by (simp add: eq jm_delete_def)
  qed
qed simp

lemma slot_index_replace:
  "jm_get (slot_index i sl) (itemKey y) = Some p \<Longrightarrow>
     slot_index i (sl[p - i := Some y]) = slot_index i sl
     \<and> rows_of (slot_items (sl[p - i := Some y])) = jm_set (rows_of (slot_items sl)) (itemKey y) y"
proof (induction i sl rule: slot_index.induct)
  case (2 i sl)
  then have "Suc i \<le> p" using slot_index_get [of "Suc i" sl "itemKey y" p] by auto
  then have eq: "p - i = Suc (p - Suc i)" by arith
  from 2 show ?case by (simp add: eq)
next
  case (3 i x sl)
  show ?case
  proof (cases "itemKey x = itemKey y")
    case True
    with 3 show ?thesis by (simp add: jm_get_def)
  next
    case False
    with 3(2) have g: "jm_get (slot_index (Suc i) sl) (itemKey y) = Some p" by (simp add: jm_get_def)
    then have "Suc i \<le> p" using slot_index_get [of "Suc i" sl "itemKey y" p] by auto
    then have eq: "p - i = Suc (p - Suc i)" by arith
    from 3(1) [OF g] False show ?thesis by (simp add: eq)
  qed
qed simp

lemma rows_get_slot:
  "jm_get (slot_index i sl) k = Some p \<Longrightarrow> jm_get (rows_of (slot_items sl)) k = sl ! (p - i)"
proof (induction i sl rule: slot_index.induct)
  case (2 i sl)
  then have "Suc i \<le> p" using slot_index_get [of "Suc i" sl k p] by auto
  then have eq: "p - i = Suc (p - Suc i)" by arith
  from 2 show ?case by (simp add: eq)
next
  case (3 i x sl)
  show ?case
  proof (cases "itemKey x = k")
    case True
    with 3 show ?thesis by (simp add: jm_get_def)
  next
    case False
    with 3(2) have g: "jm_get (slot_index (Suc i) sl) k = Some p" by (simp add: jm_get_def)
    then have "Suc i \<le> p" using slot_index_get [of "Suc i" sl k p] by auto
    then have eq: "p - i = Suc (p - Suc i)" by arith
    from 3(1) [OF g] False show ?thesis by (simp add: eq jm_get_def)
  qed
qed simp

lemma jm_get_rows_none: "jm_get (rows_of xs) k = None \<longleftrightarrow> k \<notin> itemKey ` set xs"
  using jm_has_get [of "rows_of xs" k] by (auto simp: jm_has_def)

text \<open>Compaction: the rows in order, and the index of their new positions.\<close>

lemma jm_set_middle:
  "k \<notin> fst ` set pre \<Longrightarrow> jm_set (pre @ (k, v) # post) k w = pre @ (k, w) # post"
  by (induction pre) auto

lemma compact_loop_correct:
  "w \<le> r \<Longrightarrow> distinct (map fst pre @ map itemKey (slot_items sl)) \<Longrightarrow>
     compact_loop r w sl (pre @ slot_index r sl) =
       (slot_items sl, pre @ slot_index w (map Some (slot_items sl)))"
proof (induction sl arbitrary: r w pre)
  case (Cons y sl)
  show ?case
  proof (cases y)
    case None
    with Cons show ?thesis by simp
  next
    case (Some x)
    have d: "distinct (map fst (pre @ [(itemKey x, w)]) @ map itemKey (slot_items sl))"
      using Cons.prems(2) Some by auto
    have "(if w \<noteq> r then jm_set (pre @ (itemKey x, r) # slot_index (Suc r) sl) (itemKey x) w
        else pre @ (itemKey x, r) # slot_index (Suc r) sl)
      = (pre @ [(itemKey x, w)]) @ slot_index (Suc r) sl"
      using Cons.prems(2) Some by (auto simp: jm_set_middle)
    moreover have "compact_loop (Suc r) (Suc w) sl ((pre @ [(itemKey x, w)]) @ slot_index (Suc r) sl)
      = (slot_items sl, (pre @ [(itemKey x, w)]) @ slot_index (Suc w) (map Some (slot_items sl)))"
      using Cons.IH [OF _ d, of "Suc w" "Suc r"] Cons.prems(1) by simp
    ultimately show ?thesis using Some by simp
  qed
qed simp

section \<open>Consistency of the session\<close>

definition cache_ok :: "'a item_scheme list \<Rightarrow> (string, nat) jsmap \<Rightarrow> bool" where
  "cache_ok xs index = (distinct (map itemKey xs) \<and> index = slot_index 0 (map Some xs))"

definition books_wf :: "'i session \<Rightarrow> bool" where
  "books_wf s = (jm_wf (rs_touch s) \<and> jm_wf (rs_epochSeen s)
     \<and> jm_keys (rs_epochStart s) = jm_keys (rs_epochSeen s))"

definition session_wf :: "'a item_scheme session \<Rightarrow> bool" where
  "session_wf s =
     (books_wf s
      \<and> (case (rs_items s, rs_index s) of (Some xs, Some index) \<Rightarrow> cache_ok xs index | _ \<Rightarrow> True))"

definition batch_wf :: "'a item_scheme batch_state \<Rightarrow> bool" where
  "batch_wf st =
     (books_wf (as_session st)
      \<and> as_index st = slot_index 0 (as_slots st)
      \<and> distinct (map itemKey (slot_items (as_slots st)))
      \<and> as_removed st = length (filter (\<lambda>x. x = None) (as_slots st)))"

definition dedupe_rows :: "'a item_scheme list \<Rightarrow> (string, 'a item_scheme) jsmap" where
  "dedupe_rows xs = foldl (\<lambda>m x. jm_set m (itemKey x) x) [] xs"

lemma reindex_loop_correct:
  assumes "drop i base = xs" "i \<le> length base"
    and "cur = (case copy of None \<Rightarrow> take i base | Some c \<Rightarrow> c)"
    and "distinct (map itemKey cur)" "index = slot_index 0 (map Some cur)"
    and "reindex_loop base i xs index copy = (index', copy')"
  shows "cache_ok (nullish copy' base) index'
     \<and> rows_of (nullish copy' base) = foldl (\<lambda>m x. jm_set m (itemKey x) x) (rows_of cur) xs"
  using assms
proof (induction xs arbitrary: i cur index copy)
  case Nil
  then show ?case by (cases copy) (auto simp: cache_ok_def)
next
  case (Cons x xs)
  have step: "drop (Suc i) base = xs" "Suc i \<le> length base" "base ! i = x"
  proof -
    have lt: "i < length base" using Cons.prems(1) by (metis drop_all linorder_not_le list.distinct(1))
    then show "Suc i \<le> length base" by simp
    show "base ! i = x" using Cons.prems(1) by (rule nth_via_drop)
    show "drop (Suc i) base = xs" using Cons.prems(1) by (metis drop_Suc list.sel(3) tl_drop)
  qed
  show ?case
  proof (cases "jm_get index (itemKey x)")
    case None
    define cur' where "cur' = cur @ [x]"
    have new: "itemKey x \<notin> itemKey ` set cur"
      using None Cons.prems(5) slot_index_none [of 0 "map Some cur" "itemKey x"] by simp
    have pos: "(case copy of None \<Rightarrow> i | Some c \<Rightarrow> length c) = length cur"
      using Cons.prems(2,3) by (auto split: option.splits)
    have cur': "cur' = (case map_option (\<lambda>c. c @ [x]) copy of None \<Rightarrow> take (Suc i) base | Some c \<Rightarrow> c)"
      using Cons.prems(3) step by (auto simp: cur'_def take_Suc_conv_app_nth split: option.splits)
    have idx: "jm_set index (itemKey x) (length cur) = slot_index 0 (map Some cur')"
      using None Cons.prems(5) by (simp add: cur'_def slot_index_append jm_set_new jm_has_get)
    have rows: "rows_of cur' = jm_set (rows_of cur) (itemKey x) x"
      using new by (simp add: cur'_def jm_set_new jm_has_get jm_get_rows_none)
    show ?thesis
      using Cons.IH [OF step(1,2) cur' _ idx] Cons.prems(4,6) None new pos rows
      by (auto simp: Let_def cur'_def)
  next
    case (Some p)
    obtain y where p: "p < length cur" "itemKey (cur ! p) = itemKey x"
      using slot_index_get [of 0 "map Some cur" "itemKey x" p] Some Cons.prems(5) by auto
    define cur' where "cur' = cur[p := x]"
    have sl: "map Some cur' = (map Some cur)[p := Some x]" by (simp add: cur'_def map_update)
    have idx: "index = slot_index 0 (map Some cur')"
      and rows: "rows_of cur' = jm_set (rows_of cur) (itemKey x) x"
      using slot_index_replace [of 0 "map Some cur" x p] Some Cons.prems(5) sl
      by (simp_all, metis slot_items_simps(5))
    have d: "distinct (map itemKey cur')"
      using p Cons.prems(4) by (simp add: cur'_def map_update) (metis length_map list_update_id nth_map p(1))
    have c: "cur' = (case Some cur' of None \<Rightarrow> take (Suc i) base | Some c \<Rightarrow> c)" by simp
    show ?thesis
      using Cons.IH [OF step(1,2) c d idx] Cons.prems(3,6) Some rows
      by (auto simp: Let_def cur'_def)
  qed
qed

lemma reindex_correct:
  "\<exists>xs index. reindex s base = s\<lparr>rs_items := Some xs, rs_index := Some index\<rparr>
     \<and> cache_ok xs index \<and> rows_of xs = dedupe_rows base"
proof -
  obtain index copy where l: "reindex_loop base 0 base [] None = (index, copy)"
    by (cases "reindex_loop base 0 base [] None")
  have "cache_ok (nullish copy base) index
      \<and> rows_of (nullish copy base) = foldl (\<lambda>m x. jm_set m (itemKey x) x) (rows_of []) base"
    by (rule reindex_loop_correct [OF _ _ _ _ _ l]) auto
  then show ?thesis by (auto simp: reindex_def l dedupe_rows_def)
qed

end
