(* ===== verification/StoreTypes.thy ===== *)
theory StoreTypes
  imports RealtimeReducer
begin

text \<open>
  The data of the store, \<open>frontend/src/store/types.ts\<close>, with the tree and table helpers of
  \<open>frontend/src/store/utils.ts\<close> and the page tables of
  \<open>frontend/src/store/navigationTargets.ts\<close>.

  A value the code types as \<open>any\<close> is modelled by the fields the modelled code reads: a
  resource type by \<open>resource\<close>, an object by \<open>kube_object\<close> (an extension of the rows of
  the realtime lists), anything only carried along by \<open>json\<close>.
\<close>

section \<open>Resources, objects and the tree\<close>

datatype json = JNull | JBool bool | JNum int | JStr string | JArr "json list" | JObj "(string \<times> json) list"

record resource =
  rr_name :: "string option"
  rr_group :: "string option"
  rr_version :: "string option"
  rr_kind :: "string option"
  rr_namespaced :: "bool option"
  rr_apiVersion :: "string option"
  rr_title :: "string option"
  rr_cluster :: "string option"
  rr_count :: "int option"
  rr_countFetched :: "bool option"
  rr_countPending :: "bool option"
  rr_categoryId :: "string option"
  rr_host :: "string option"
  rr_namespace :: "string option"
  rr_ready :: "bool option"
  rr_phase :: "string option"

definition no_resource :: resource where
  "no_resource =
     \<lparr>rr_name = None, rr_group = None, rr_version = None, rr_kind = None, rr_namespaced = None, rr_apiVersion = None,
      rr_title = None, rr_cluster = None, rr_count = None, rr_countFetched = None, rr_countPending = None,
      rr_categoryId = None, rr_host = None, rr_namespace = None, rr_ready = None, rr_phase = None\<rparr>"

definition mk_resource :: "string \<Rightarrow> string \<Rightarrow> string \<Rightarrow> string \<Rightarrow> bool \<Rightarrow> resource" where
  "mk_resource name grp version kind namespaced =
     no_resource\<lparr>rr_name := Some name, rr_group := Some grp, rr_version := Some version, rr_kind := Some kind,
       rr_namespaced := Some namespaced\<rparr>"

record replica_counts =
  rc_replicas :: "int option"
  rc_desiredNumberScheduled :: "int option"
  rc_statusReplicas :: "int option"
  rc_readyReplicas :: "int option"
  rc_numberReady :: "int option"
  rc_updatedReplicas :: "int option"
  rc_updatedNumberScheduled :: "int option"
  rc_availableReplicas :: "int option"
  rc_numberAvailable :: "int option"

record kube_object = item +
  ko_metaName :: "string option"
  ko_metaNamespace :: "string option"
  ko_kind :: "string option"
  ko_apiVersion :: "string option"
  ko_metaUid :: "string option"
  ko_conditions :: "json option"
  ko_statusConditions :: "json option"
  ko_counts :: replica_counts
  ko_isHelmValues :: bool
  ko_helmReleaseName :: "string option"
  ko_helmReleaseNamespace :: "string option"
  ko_events :: "json list option"

record node_info =
  ni_id :: string
  ni_label :: string
  ni_type :: string
  ni_data :: "resource option"
  ni_expanded :: "bool option"
  ni_count :: "int option"
  ni_icon :: "string option"
  ni_hideCount :: "bool option"
  ni_disabled :: "bool option"
  ni_section :: "string option"

datatype tree_node = TreeNode (tn_info: node_info) (tn_children: "tree_node list option")

definition tn_id :: "tree_node \<Rightarrow> string" where
  "tn_id n = ni_id (tn_info n)"

definition mk_node :: "string \<Rightarrow> string \<Rightarrow> string \<Rightarrow> resource \<Rightarrow> tree_node" where
  "mk_node nodeId label ty data =
     TreeNode \<lparr>ni_id = nodeId, ni_label = label, ni_type = ty, ni_data = Some data, ni_expanded = None, ni_count = None,
       ni_icon = None, ni_hideCount = None, ni_disabled = None, ni_section = None\<rparr> None"

section \<open>Tabs and the state of a cluster tab\<close>

record pinned_detail =
  pd_id :: string
  pd_name :: string
  pd_namespace :: "string option"
  pd_kind :: string
  pd_data :: json
  pd_cluster :: string

record rollout_status =
  ro_status :: string
  ro_message :: string
  ro_replicas :: int
  ro_updatedReplicas :: int
  ro_readyReplicas :: int
  ro_availableReplicas :: int

datatype tab_place = InDetail | InCenter | InBottom

record detail_tab =
  dt_id :: string
  dt_title :: string
  dt_resource :: "resource option"
  dt_item :: kube_object
  dt_cluster :: string
  dt_isPinned :: bool
  dt_location :: "tab_place option"
  dt_paneId :: "string option"
  dt_isDeleted :: "bool option"
  dt_isRecreated :: "bool option"

datatype sort_order = Asc | Desc

record list_tab =
  lt_navigationReveal :: "int option"
  lt_id :: string
  lt_title :: string
  lt_resource :: resource
  lt_items :: "kube_object list"
  lt_selectedItem :: "kube_object option"
  lt_cluster :: string
  lt_selectedNamespaces :: "string list"
  lt_sortBy :: string
  lt_sortOrder :: sort_order
  lt_isPinned :: bool
  lt_paneId :: "string option"

datatype bottom_type = Logs | Shell | Edit | Trace | DeploymentLogs | Create

record bottom_tab =
  bt_id :: string
  bt_type :: bottom_type
  bt_title :: string
  bt_customTitle :: "string option"
  bt_resource :: kube_object
  bt_cluster :: string
  bt_selectedContainer :: "string option"
  bt_location :: tab_place
  bt_paneId :: "string option"

record list_sync =
  ls_loaded :: int
  ls_total :: "int option"

datatype pane = Pane (pane_id: string) (pane_type: string) (pane_tabId: "string option")
  (pane_direction: "string option") (pane_children: "pane list option")

datatype focus_area = FocusTree | FocusList | FocusDetail

record helm_state =
  hs_releases :: "json list option"
  hs_loading :: "bool option"
  hs_streaming :: "bool option"
  hs_progress :: "(int \<times> int) option"
  hs_error :: "string option"
  hs_lastFetch :: "int option"

record tab_state =
  ts_treeData :: "tree_node list"
  ts_selectedNode :: "tree_node option"
  ts_listItems :: "kube_object list"
  ts_selectedItem :: "kube_object option"
  ts_detailData :: "kube_object option"
  ts_searchQuery :: string
  ts_listFilter :: "string option"
  ts_searchMatches :: "string list"
  ts_focusArea :: focus_area
  ts_isDetailsPanelCollapsed :: bool
  ts_expandedNodes :: "string list"
  ts_pinnedDetails :: "pinned_detail list"
  ts_namespaces :: "string list"
  ts_selectedNamespace :: string
  ts_selectedNamespaces :: "string list option"
  ts_sortBy :: string
  ts_sortOrder :: sort_order
  ts_rolloutStatuses :: "(string, rollout_status) jsmap option"
  ts_rolloutRequests :: "(string, json) jsmap option"
  ts_detailTabs :: "detail_tab list"
  ts_activeDetailTab :: "string option"
  ts_resourceListTabs :: "list_tab list"
  ts_activeResourceListTab :: "string option"
  ts_activeByPane :: "(string, string option) jsmap option"
  ts_centerPaneLayout :: "pane option"
  ts_focusedCenterPaneId :: "string option"
  ts_isLoadingListItems :: "bool option"
  ts_hasReceivedInitialListData :: "bool option"
  ts_listSync :: "list_sync option"
  ts_loadError :: "string option"
  ts_dashboardData :: "json option"
  ts_helm :: helm_state
  ts_scrollPositions :: "(string, int) jsmap option"

record tab =
  tab_id :: string
  tab_name :: string
  tab_st :: tab_state

definition createInitialTabState :: tab_state where
  "createInitialTabState =
     \<lparr>ts_treeData = [], ts_selectedNode = None, ts_listItems = [], ts_selectedItem = None, ts_detailData = None,
      ts_searchQuery = [], ts_listFilter = None, ts_searchMatches = [], ts_focusArea = FocusTree,
      ts_isDetailsPanelCollapsed = False, ts_expandedNodes = [], ts_pinnedDetails = [], ts_namespaces = [],
      ts_selectedNamespace = ''all'', ts_selectedNamespaces = Some [], ts_sortBy = ''age'', ts_sortOrder = Desc,
      ts_rolloutStatuses = Some [], ts_rolloutRequests = Some [], ts_detailTabs = [], ts_activeDetailTab = None,
      ts_resourceListTabs = [], ts_activeResourceListTab = None, ts_activeByPane = Some [],
      ts_centerPaneLayout = None, ts_focusedCenterPaneId = Some ''root'', ts_isLoadingListItems = Some False,
      ts_hasReceivedInitialListData = Some False, ts_listSync = None, ts_loadError = None, ts_dashboardData = None,
      ts_helm = \<lparr>hs_releases = None, hs_loading = None, hs_streaming = None, hs_progress = None, hs_error = None, hs_lastFetch = None\<rparr>,
      ts_scrollPositions = Some []\<rparr>"

definition rebuildTabIndex :: "tab list \<Rightarrow> (string, nat) jsmap" where
  "rebuildTabIndex tabs = foldl (\<lambda>m (idx, t). jm_set m (tab_id t) idx) [] (enumerate 0 tabs)"

section \<open>Rollouts\<close>

definition isRolloutComplete :: "replica_counts \<Rightarrow> bool" where
  "isRolloutComplete item =
     (let replicas = nullish (rc_replicas item) (nullish (rc_desiredNumberScheduled item) 0) in
      if replicas = 0 then False
      else let statusReplicas = nullish (rc_statusReplicas item) replicas;
               ready = nullish (rc_readyReplicas item) (nullish (rc_numberReady item) 0);
               updated = nullish (rc_updatedReplicas item) (nullish (rc_updatedNumberScheduled item) replicas);
               available = (case rc_availableReplicas item of Some a \<Rightarrow> Some a | None \<Rightarrow> rc_numberAvailable item)
           in statusReplicas \<le> replicas \<and> updated \<ge> replicas \<and> ready \<ge> replicas
              \<and> (case available of None \<Rightarrow> True | Some a \<Rightarrow> a \<ge> replicas))"

section \<open>Tree operations\<close>

fun updateTreeNode :: "tree_node list \<Rightarrow> string \<Rightarrow> tree_node list \<Rightarrow> string list option \<Rightarrow> tree_node list" where
  "updateTreeNode [] nodeId children expandedNodes = []"
| "updateTreeNode (TreeNode info cs # nodes) nodeId children expandedNodes =
     (if ni_id info = nodeId
      then TreeNode (info\<lparr>ni_expanded := Some (case expandedNodes of None \<Rightarrow> True | Some ex \<Rightarrow> nodeId \<in> set ex)\<rparr>)
             (Some children)
      else case cs of
             Some l \<Rightarrow> TreeNode info (Some (updateTreeNode l nodeId children expandedNodes))
           | None \<Rightarrow> TreeNode info cs)
     # updateTreeNode nodes nodeId children expandedNodes"

fun find_node :: "(node_info \<Rightarrow> bool) \<Rightarrow> tree_node list \<Rightarrow> tree_node option" where
  "find_node P [] = None"
| "find_node P (TreeNode info cs # nodes) =
     (if P info then Some (TreeNode info cs)
      else case cs of
             None \<Rightarrow> find_node P nodes
           | Some l \<Rightarrow> (case find_node P l of Some n \<Rightarrow> Some n | None \<Rightarrow> find_node P nodes))"

definition findNodeById :: "tree_node list \<Rightarrow> string \<Rightarrow> tree_node option" where
  "findNodeById nodes nodeId = find_node (\<lambda>info. ni_id info = nodeId) nodes"

section \<open>Tables\<close>

definition predefinedCategories :: "(string, resource list) jsmap" where
  "predefinedCategories =
   [(''workloads'',
      [mk_resource ''pods'' '''' ''v1'' ''Pod'' True,
       mk_resource ''deployments'' ''apps'' ''v1'' ''Deployment'' True,
       mk_resource ''statefulsets'' ''apps'' ''v1'' ''StatefulSet'' True,
       mk_resource ''daemonsets'' ''apps'' ''v1'' ''DaemonSet'' True,
       mk_resource ''jobs'' ''batch'' ''v1'' ''Job'' True,
       mk_resource ''cronjobs'' ''batch'' ''v1'' ''CronJob'' True]),
    (''networking'',
      [mk_resource ''services'' '''' ''v1'' ''Service'' True,
       mk_resource ''endpoints'' '''' ''v1'' ''Endpoints'' True,
       mk_resource ''ingresses'' ''networking.k8s.io'' ''v1'' ''Ingress'' True,
       mk_resource ''ingressclasses'' ''networking.k8s.io'' ''v1'' ''IngressClass'' False,
       mk_resource ''gatewayclasses'' ''gateway.networking.k8s.io'' ''v1'' ''GatewayClass'' False,
       mk_resource ''gateways'' ''gateway.networking.k8s.io'' ''v1'' ''Gateway'' True,
       mk_resource ''httproutes'' ''gateway.networking.k8s.io'' ''v1'' ''HTTPRoute'' True,
       mk_resource ''grpcroutes'' ''gateway.networking.k8s.io'' ''v1'' ''GRPCRoute'' True,
       mk_resource ''networkpolicies'' ''networking.k8s.io'' ''v1'' ''NetworkPolicy'' True,
       mk_resource ''endpointslices'' ''discovery.k8s.io'' ''v1'' ''EndpointSlice'' True]),
    (''config'',
      [mk_resource ''configmaps'' '''' ''v1'' ''ConfigMap'' True,
       mk_resource ''secrets'' '''' ''v1'' ''Secret'' True,
       mk_resource ''serviceaccounts'' '''' ''v1'' ''ServiceAccount'' True,
       mk_resource ''limitranges'' '''' ''v1'' ''LimitRange'' True,
       mk_resource ''resourcequotas'' '''' ''v1'' ''ResourceQuota'' True,
       mk_resource ''horizontalpodautoscalers'' ''autoscaling'' ''v2'' ''HorizontalPodAutoscaler'' True]),
    (''storage'',
      [mk_resource ''persistentvolumes'' '''' ''v1'' ''PersistentVolume'' False,
       mk_resource ''persistentvolumeclaims'' '''' ''v1'' ''PersistentVolumeClaim'' True,
       mk_resource ''storageclasses'' ''storage.k8s.io'' ''v1'' ''StorageClass'' False,
       mk_resource ''volumeattachments'' ''storage.k8s.io'' ''v1'' ''VolumeAttachment'' False]),
    (''rbac'',
      [mk_resource ''roles'' ''rbac.authorization.k8s.io'' ''v1'' ''Role'' True,
       mk_resource ''rolebindings'' ''rbac.authorization.k8s.io'' ''v1'' ''RoleBinding'' True,
       mk_resource ''clusterroles'' ''rbac.authorization.k8s.io'' ''v1'' ''ClusterRole'' False,
       mk_resource ''clusterrolebindings'' ''rbac.authorization.k8s.io'' ''v1'' ''ClusterRoleBinding'' False]),
    (''cluster'',
      [mk_resource ''nodes'' '''' ''v1'' ''Node'' False,
       mk_resource ''namespaces'' '''' ''v1'' ''Namespace'' False,
       mk_resource ''persistentvolumes'' '''' ''v1'' ''PersistentVolume'' False,
       mk_resource ''storageclasses'' ''storage.k8s.io'' ''v1'' ''StorageClass'' False,
       mk_resource ''priorityclasses'' ''scheduling.k8s.io'' ''v1'' ''PriorityClass'' False])]"

definition kindSpecificColumns :: "(string, string list) jsmap" where
  "kindSpecificColumns =
   [(''pod'', [''CONTAINERS'', ''STATUS'', ''READY'', ''RESTARTS'', ''AGE'']),
    (''pods'', [''CONTAINERS'', ''STATUS'', ''READY'', ''RESTARTS'', ''AGE'']),
    (''application'', [''SYNC'', ''HEALTH'', ''PROJECT'', ''TARGET NAMESPACE'', ''AGE'']),
    (''applications'', [''SYNC'', ''HEALTH'', ''PROJECT'', ''TARGET NAMESPACE'', ''AGE'']),
    (''applicationset'', [''HEALTH'', ''AGE'']),
    (''applicationsets'', [''HEALTH'', ''AGE'']),
    (''appproject'', [''DESCRIPTION'', ''AGE'']),
    (''appprojects'', [''DESCRIPTION'', ''AGE'']),
    (''deployment'', [''READY'', ''REPLICAS'', ''ROLLOUT'', ''AGE'']),
    (''deployments'', [''READY'', ''REPLICAS'', ''ROLLOUT'', ''AGE'']),
    (''replicaset'', [''DESIRED'', ''CURRENT'', ''READY'', ''AGE'']),
    (''replicasets'', [''DESIRED'', ''CURRENT'', ''READY'', ''AGE'']),
    (''statefulset'', [''READY'', ''ROLLOUT'', ''AGE'']),
    (''statefulsets'', [''READY'', ''ROLLOUT'', ''AGE'']),
    (''daemonset'', [''DESIRED'', ''CURRENT'', ''READY'', ''UP-TO-DATE'', ''AVAILABLE'', ''ROLLOUT'', ''AGE'']),
    (''daemonsets'', [''DESIRED'', ''CURRENT'', ''READY'', ''UP-TO-DATE'', ''AVAILABLE'', ''ROLLOUT'', ''AGE'']),
    (''service'', [''TYPE'', ''CLUSTER-IP'', ''EXTERNAL-IP'', ''PORT(S)'', ''AGE'']),
    (''services'', [''TYPE'', ''CLUSTER-IP'', ''EXTERNAL-IP'', ''PORT(S)'', ''AGE'']),
    (''configmap'', [''AGE'']),
    (''configmaps'', [''AGE'']),
    (''secret'', [''TYPE'', ''AGE'']),
    (''secrets'', [''TYPE'', ''AGE'']),
    (''persistentvolume'', [''CAPACITY'', ''ACCESS MODES'', ''RECLAIM POLICY'', ''STATUS'', ''STORAGE CLASS'', ''AGE'']),
    (''persistentvolumes'', [''CAPACITY'', ''ACCESS MODES'', ''RECLAIM POLICY'', ''STATUS'', ''STORAGE CLASS'', ''AGE'']),
    (''persistentvolumeclaim'', [''STATUS'', ''VOLUME'', ''CAPACITY'', ''ACCESS MODES'', ''STORAGE CLASS'', ''AGE'']),
    (''persistentvolumeclaims'', [''STATUS'', ''VOLUME'', ''CAPACITY'', ''ACCESS MODES'', ''STORAGE CLASS'', ''AGE'']),
    (''ingress'', [''CLASS'', ''HOSTS'', ''ADDRESS'', ''PORTS'', ''AGE'']),
    (''ingresses'', [''CLASS'', ''HOSTS'', ''ADDRESS'', ''PORTS'', ''AGE'']),
    (''ingressclass'', [''CONTROLLER'', ''PARAMETERS'', ''AGE'']),
    (''ingressclasses'', [''CONTROLLER'', ''PARAMETERS'', ''AGE'']),
    (''gatewayclass'', [''CONTROLLER'', ''ACCEPTED'', ''AGE'']),
    (''gatewayclasses'', [''CONTROLLER'', ''ACCEPTED'', ''AGE'']),
    (''gateway'', [''CLASS'', ''ADDRESS'', ''PROGRAMMED'', ''AGE'']),
    (''gateways'', [''CLASS'', ''ADDRESS'', ''PROGRAMMED'', ''AGE'']),
    (''httproute'', [''HOSTNAMES'', ''AGE'']),
    (''httproutes'', [''HOSTNAMES'', ''AGE'']),
    (''grpcroute'', [''HOSTNAMES'', ''AGE'']),
    (''grpcroutes'', [''HOSTNAMES'', ''AGE'']),
    (''job'', [''COMPLETIONS'', ''DURATION'', ''AGE'']),
    (''jobs'', [''COMPLETIONS'', ''DURATION'', ''AGE'']),
    (''cronjob'', [''SCHEDULE'', ''SUSPEND'', ''ACTIVE'', ''LAST SCHEDULE'', ''AGE'']),
    (''cronjobs'', [''SCHEDULE'', ''SUSPEND'', ''ACTIVE'', ''LAST SCHEDULE'', ''AGE'']),
    (''namespace'', [''STATUS'', ''AGE'']),
    (''namespaces'', [''STATUS'', ''AGE'']),
    (''event'', [''TYPE'', ''MESSAGE'', ''INVOLVED OBJECT'', ''SOURCE'', ''COUNT'', ''AGE'', ''LAST SEEN'']),
    (''events'', [''TYPE'', ''MESSAGE'', ''INVOLVED OBJECT'', ''SOURCE'', ''COUNT'', ''AGE'', ''LAST SEEN'']),
    (''node'', [''STATUS'', ''ROLES'', ''NODEPOOL'', ''INSTANCE TYPE'', ''CAPACITY TYPE'', ''ZONE'', ''CPU'', ''CPU REQ'', ''MEMORY'', ''MEM REQ'', ''PODS'', ''TAINTS'', ''VERSION'', ''AGE'']),
    (''nodes'', [''STATUS'', ''ROLES'', ''NODEPOOL'', ''INSTANCE TYPE'', ''CAPACITY TYPE'', ''ZONE'', ''CPU'', ''CPU REQ'', ''MEMORY'', ''MEM REQ'', ''PODS'', ''TAINTS'', ''VERSION'', ''AGE'']),
    (''serviceaccount'', [''SECRETS'', ''AGE'']),
    (''serviceaccounts'', [''SECRETS'', ''AGE'']),
    (''runtimeclass'', [''HANDLER'', ''AGE'']),
    (''runtimeclasses'', [''HANDLER'', ''AGE'']),
    (''lease'', [''HOLDER'', ''AGE'']),
    (''leases'', [''HOLDER'', ''AGE'']),
    (''certificatesigningrequest'', [''SIGNER'', ''REQUESTOR'', ''CONDITION'', ''AGE'']),
    (''certificatesigningrequests'', [''SIGNER'', ''REQUESTOR'', ''CONDITION'', ''AGE'']),
    (''apiservice'', [''SERVICE'', ''AVAILABLE'', ''AGE'']),
    (''apiservices'', [''SERVICE'', ''AVAILABLE'', ''AGE'']),
    (''mutatingwebhookconfiguration'', [''WEBHOOKS'', ''AGE'']),
    (''mutatingwebhookconfigurations'', [''WEBHOOKS'', ''AGE'']),
    (''validatingwebhookconfiguration'', [''WEBHOOKS'', ''AGE'']),
    (''validatingwebhookconfigurations'', [''WEBHOOKS'', ''AGE'']),
    (''poddisruptionbudget'', [''MIN AVAILABLE'', ''MAX UNAVAILABLE'', ''ALLOWED DISRUPTIONS'', ''AGE'']),
    (''poddisruptionbudgets'', [''MIN AVAILABLE'', ''MAX UNAVAILABLE'', ''ALLOWED DISRUPTIONS'', ''AGE'']),
    (''role'', [''AGE'']),
    (''roles'', [''AGE'']),
    (''rolebinding'', [''ROLE'', ''AGE'']),
    (''rolebindings'', [''ROLE'', ''AGE'']),
    (''clusterrole'', [''AGE'']),
    (''clusterroles'', [''AGE'']),
    (''clusterrolebinding'', [''ROLE'', ''AGE'']),
    (''clusterrolebindings'', [''ROLE'', ''AGE'']),
    (''endpoints'', [''ENDPOINTS'', ''AGE'']),
    (''endpointslice'', [''ADDRESSTYPE'', ''PORTS'', ''ENDPOINTS'', ''AGE'']),
    (''endpointslices'', [''ADDRESSTYPE'', ''PORTS'', ''ENDPOINTS'', ''AGE'']),
    (''helmrelease'', [''CHART'', ''VERSION'', ''STATUS'', ''REVISION'', ''UPDATED'']),
    (''helmreleases'', [''CHART'', ''VERSION'', ''STATUS'', ''REVISION'', ''UPDATED''])]"

definition pageResources :: "(string, resource) jsmap" where
  "pageResources =
   [(''overview'', mk_resource ''cluster-dashboard'' '''' ''v1'' ''ClusterDashboard'' False),
    (''finops'', mk_resource ''finops-dashboard'' '''' ''v1'' ''FinOpsDashboard'' False),
    (''rightsizing'', mk_resource ''rightsizing-dashboard'' '''' ''v1'' ''RightsizingDashboard'' False),
    (''certificates'', mk_resource ''certificates-dashboard'' '''' ''v1'' ''CertificatesDashboard'' False),
    (''topology'', mk_resource ''topology'' '''' ''v1'' ''TopologyView'' False),
    (''network'', mk_resource ''network-page'' '''' ''v1'' ''NetworkPage'' False),
    (''incident-timeline'', mk_resource ''incident-timeline'' '''' ''v1'' ''IncidentTimeline'' False),
    (''issues'', mk_resource ''health-issues'' '''' ''v1'' ''HealthIssues'' False),
    (''audit'', mk_resource ''health-audit'' '''' ''v1'' ''HealthAudit'' False),
    (''changes'', mk_resource ''changes-feed'' '''' ''v1'' ''ChangesFeed'' False),
    (''helm'', mk_resource ''helm-releases'' '''' ''v1'' ''HelmReleases'' False),
    (''argo-overview'', mk_resource ''argo-applications-overview'' ''argoproj.io'' ''v1alpha1'' ''ArgoApplicationsOverview'' False),
    (''compare'', mk_resource ''resource-compare'' '''' ''v1'' ''ResourceCompare'' False),
    (''upgrade-readiness'', mk_resource ''upgrade-readiness'' '''' ''v1'' ''UpgradeReadiness'' False),
    (''gitops'', mk_resource ''gitops-overview'' '''' ''v1'' ''GitOpsOverview'' False),
    (''cnpg-overview'', mk_resource ''cnpg-overview'' ''postgresql.cnpg.io'' ''v1'' ''CNPGOverview'' False),
    (''cluster-settings'', mk_resource ''cluster-settings'' '''' ''v1'' ''ClusterSettings'' False),
    (''access'', mk_resource ''access-explorer'' '''' ''v1'' ''AccessExplorer'' False)]"

definition page_nodes :: "(string, string \<times> string \<times> string) jsmap" where
  "page_nodes =
   [(''ClusterSettings'', ''cluster-settings'', ''Cluster settings'', ''cluster-settings''),
    (''ClusterDashboard'', ''cluster-overview'', ''Overview'', ''overview''),
    (''FinOpsDashboard'', ''finops-dashboard'', ''FinOps'', ''finops''),
    (''RightsizingDashboard'', ''rightsizing-dashboard'', ''Rightsizing'', ''rightsizing''),
    (''CertificatesDashboard'', ''certificates-dashboard'', ''Certificates'', ''certificates''),
    (''TopologyView'', ''topology'', ''Topology'', ''topology''),
    (''NetworkPage'', ''network-page'', ''Network'', ''network''),
    (''IncidentTimeline'', ''incident-timeline'', ''Incident Timeline'', ''incident-timeline''),
    (''HealthIssues'', ''cluster-issues'', ''Issues'', ''issues''),
    (''HealthAudit'', ''cluster-audit'', ''Audit'', ''audit''),
    (''ChangesFeed'', ''changes-feed'', ''Changes'', ''changes''),
    (''HelmReleases'', ''helm-releases'', ''Helm Releases'', ''helm''),
    (''ArgoApplicationsOverview'', ''argo-overview'', ''Apps Overview'', ''argo-overview''),
    (''ResourceCompare'', ''resource-compare'', ''Compare'', ''compare''),
    (''UpgradeReadiness'', ''upgrade-readiness'', ''Upgrade readiness'', ''upgrade-readiness''),
    (''AccessExplorer'', ''access-explorer'', ''Access'', ''access''),
    (''GitOpsOverview'', ''gitops-overview'', ''GitOps'', ''gitops''),
    (''CNPGOverview'', ''cnpg-overview'', ''PostgreSQL clusters'', ''cnpg-overview'')]"

definition pageNode :: "string option \<Rightarrow> string option \<Rightarrow> tree_node option" where
  "pageNode kind cluster =
     (case kind of
        None \<Rightarrow> None
      | Some k \<Rightarrow>
          map_option (\<lambda>(id, label, ty). mk_node id label ty (no_resource\<lparr>rr_cluster := cluster\<rparr>))
            (jm_get page_nodes k))"

section \<open>Laws\<close>

lemma find_node_holds: "find_node P nodes = Some n \<Longrightarrow> P (tn_info n)"
  by (induction P nodes rule: find_node.induct) (auto split: if_splits option.splits)

lemma updateTreeNode_absent:
  "find_node (\<lambda>info. ni_id info = nodeId) nodes = None \<Longrightarrow> updateTreeNode nodes nodeId ch ex = nodes"
  by (induction nodes nodeId ch ex rule: updateTreeNode.induct) (auto split: if_splits option.splits)

text \<open>Filling in a node's children is what looking that node up sees, and changes nothing else of it.\<close>

lemma find_updateTreeNode:
  "findNodeById (updateTreeNode nodes nodeId ch ex) nodeId =
     map_option (\<lambda>n. TreeNode ((tn_info n)\<lparr>ni_expanded := Some (case ex of None \<Rightarrow> True | Some e \<Rightarrow> nodeId \<in> set e)\<rparr>) (Some ch))
       (findNodeById nodes nodeId)"
  unfolding findNodeById_def
  by (induction nodes nodeId ch ex rule: updateTreeNode.induct) (auto split: option.splits)

end
