(* ===== verification/Workspace.thy ===== *)
theory Workspace
  imports StoreTypes
begin

text \<open>
  The part of the zustand store the tab slices share (\<open>frontend/src/store/types.ts\<close>,
  \<open>StoreState\<close>): the open cluster tabs with the index from id to position, the current one,
  the bottom tabs, and the calls the slices make outside the store (API, \<open>localStorage\<close>,
  realtime, history), logged in order as values of \<open>ws_effect\<close>.

  Contents: \<open>getCurrentTabState\<close> and \<open>updateCurrentTabState\<close> (\<open>tabSlice.ts\<close>),
  \<open>selectNode\<close> and \<open>selectItem\<close> (\<open>resourceSlice.ts\<close>), the pane layout of
  \<open>frontend/src/utils/centerPaneLayout.ts\<close>, and the rule by which every tab strip picks
  the tab to show when its active one is closed, as the locale \<open>tab_strip\<close>.
\<close>

section \<open>State and effects\<close>

datatype ws_effect =
    ReleasePrefix string
  | ReleaseTopic string
  | StartRealtime bool
  | ParkRealtime
  | RecordCurrentNavigation
  | RecordNavigation string string resource
  | LoadClusterStatus string
  | LoadTreeData string
  | PrefetchCategory string string
  | RegisterActiveCluster string
  | IndexCluster string
  | UnregisterActiveCluster string
  | ReleaseCluster string
  | DisconnectVCluster string
  | CloseTerminal string
  | DropCachedTopics string
  | SaveItem string string
  | SaveList string "string list"
  | SaveResource string resource
  | SaveLastItem string "string option" string
  | RemoveItem string
  | CancelSnapshot string
  | ForgetVCluster string
  | ForgetScroll string

record ws =
  ws_activeTabs :: "tab list"
  ws_tabIndexMap :: "(string, nat) jsmap"
  ws_currentTab :: "string option"
  ws_bottomTabs :: "bottom_tab list"
  ws_activeBottomTab :: "string option"
  ws_log :: "ws_effect list"

definition ws_init :: ws where
  "ws_init = \<lparr>ws_activeTabs = [], ws_tabIndexMap = [], ws_currentTab = None, ws_bottomTabs = [], ws_activeBottomTab = None, ws_log = []\<rparr>"

definition emit :: "ws_effect list \<Rightarrow> ws \<Rightarrow> ws" where
  "emit es w = w\<lparr>ws_log := ws_log w @ es\<rparr>"

definition find_tab :: "string option \<Rightarrow> ws \<Rightarrow> tab option" where
  "find_tab cid w = find (\<lambda>t. Some (tab_id t) = cid) (ws_activeTabs w)"

text \<open>\<open>set(state => ({ activeTabs: state.activeTabs.map(t => t.id === id ? { ...t, state: f(t.state) } : t) }))\<close>\<close>

definition map_tab :: "string option \<Rightarrow> (tab_state \<Rightarrow> tab_state) \<Rightarrow> ws \<Rightarrow> ws" where
  "map_tab cid f w =
     w\<lparr>ws_activeTabs := map (\<lambda>t. if Some (tab_id t) = cid then t\<lparr>tab_st := f (tab_st t)\<rparr> else t) (ws_activeTabs w)\<rparr>"

definition set_tabs :: "tab list \<Rightarrow> ws \<Rightarrow> ws" where
  "set_tabs tabs w = w\<lparr>ws_activeTabs := tabs, ws_tabIndexMap := rebuildTabIndex tabs\<rparr>"

text \<open>A value in a template string, and the names of an object: its metadata first, then its row.\<close>

definition in_template :: "string option \<Rightarrow> string" where
  "in_template a = nullish a ''undefined''"

definition obj_name :: "kube_object \<Rightarrow> string option" where
  "obj_name a = opt_or (ko_metaName a) (it_name a)"

definition obj_namespace :: "kube_object \<Rightarrow> string option" where
  "obj_namespace a = opt_or (ko_metaNamespace a) (it_namespace a)"

definition object_title :: "string \<Rightarrow> string option \<Rightarrow> string" where
  "object_title name namespace =
     (if truthy_str namespace then name @ '' ('' @ the namespace @ '')'' else name)"

section \<open>The current tab\<close>

definition current_index :: "ws \<Rightarrow> nat option" where
  "current_index w = jm_get (ws_tabIndexMap w) (str_or (ws_currentTab w) [])"

definition getCurrentTabState :: "ws \<Rightarrow> tab_state option" where
  "getCurrentTabState w =
     (case current_index w of None \<Rightarrow> None | Some i \<Rightarrow> map_option tab_st (nth_opt (ws_activeTabs w) i))"

text \<open>
  A \<open>Partial<TabState>\<close>: what it sets, and the three properties the function reads from it.
  Without rollout statuses of its own an update keeps the current ones.
\<close>

record tab_update =
  tu_apply :: "tab_state \<Rightarrow> tab_state"
  tu_rolloutStatuses :: "(string, rollout_status) jsmap option"
  tu_selectedNamespace :: "string option"
  tu_selectedNamespaces :: "string list option"

definition plain_update :: "(tab_state \<Rightarrow> tab_state) \<Rightarrow> tab_update" where
  "plain_update f = \<lparr>tu_apply = f, tu_rolloutStatuses = None, tu_selectedNamespace = None, tu_selectedNamespaces = None\<rparr>"

definition applied_update :: "tab_update \<Rightarrow> tab_state \<Rightarrow> tab_state" where
  "applied_update u st =
     (if ts_rolloutStatuses st \<noteq> None \<and> tu_rolloutStatuses u = None
      then (tu_apply u st)\<lparr>ts_rolloutStatuses := ts_rolloutStatuses st\<rparr> else tu_apply u st)"

definition namespace_effects :: "tab_update \<Rightarrow> string option \<Rightarrow> ws_effect list" where
  "namespace_effects u current =
     (if truthy_str current
      then (case tu_selectedNamespace u of None \<Rightarrow> [] | Some n \<Rightarrow> [SaveItem (''kanivet.namespace.'' @ the current) n])
         @ (case tu_selectedNamespaces u of None \<Rightarrow> [] | Some ns \<Rightarrow> [SaveList (''kanivet.selectedNamespaces.'' @ the current) ns])
      else [])"

definition updateCurrentTabState :: "tab_update \<Rightarrow> ws \<Rightarrow> ws" where
  "updateCurrentTabState u w =
     (case current_index w of
        None \<Rightarrow> w
      | Some i \<Rightarrow>
          (case nth_opt (ws_activeTabs w) i of
             None \<Rightarrow> w
           | Some t \<Rightarrow>
               emit (namespace_effects u (ws_currentTab w))
                 (set_tabs ((ws_activeTabs w)[i := t\<lparr>tab_st := applied_update u (tab_st t)\<rparr>]) w)))"

definition selectNode :: "tree_node \<Rightarrow> ws \<Rightarrow> ws" where
  "selectNode node w =
     (let w' = updateCurrentTabState (plain_update (\<lambda>st. st\<lparr>ts_selectedNode := Some node\<rparr>)) w in
      case (ws_currentTab w', ni_data (tn_info node)) of
        (Some c, Some data) \<Rightarrow>
          if c \<noteq> [] \<and> ni_type (tn_info node) = ''resource'' then emit [SaveResource (''kanivet.lastResource.'' @ c) data] w' else w'
      | _ \<Rightarrow> w')"

definition selectItem :: "kube_object option \<Rightarrow> ws \<Rightarrow> ws" where
  "selectItem item w =
     (let w' = updateCurrentTabState (plain_update (\<lambda>st. st\<lparr>ts_selectedItem := item\<rparr>)) w in
      case (ws_currentTab w', item) of
        (Some c, Some it) \<Rightarrow>
          if c \<noteq> [] then emit [SaveLastItem (''kanivet.lastItem.'' @ c) (it_name it) (str_or (it_namespace it) [])] w' else w'
      | _ \<Rightarrow> w')"

section \<open>Panes\<close>

fun firstLeaf :: "pane \<Rightarrow> pane" where
  "firstLeaf (Pane i ty tb dir None) = Pane i ty tb dir None"
| "firstLeaf (Pane i ty tb dir (Some [])) = Pane i ty tb dir (Some [])"
| "firstLeaf (Pane i ty tb dir (Some (c # cs))) =
     (if ty = ''resourceList'' then Pane i ty tb dir (Some (c # cs)) else firstLeaf c)"

fun hasPane :: "pane \<Rightarrow> string \<Rightarrow> bool" where
  "hasPane (Pane i ty tb dir cs) target =
     (i = target \<or> (case cs of None \<Rightarrow> False | Some l \<Rightarrow> list_ex (\<lambda>c. hasPane c target) l))"

definition resolvePaneId :: "pane option \<Rightarrow> string option \<Rightarrow> string" where
  "resolvePaneId layout wanted =
     (case layout of
        None \<Rightarrow> ''root''
      | Some l \<Rightarrow>
          if pane_id l = [] then ''root''
          else if truthy_str wanted \<and> hasPane l (the wanted) then the wanted
          else pane_id (firstLeaf l))"

text \<open>\<open>node.id.match(/^pane-(\d+)$/)\<close>\<close>

definition pane_number :: "string \<Rightarrow> nat" where
  "pane_number i =
     (let ds = drop 5 i in
      if starts_with i ''pane-'' \<and> ds \<noteq> [] \<and> list_all is_digit ds then digits_val ds else 0)"

fun maxPaneNumber :: "pane \<Rightarrow> nat" where
  "maxPaneNumber (Pane i ty tb dir cs) =
     foldl max (pane_number i) (case cs of None \<Rightarrow> [] | Some l \<Rightarrow> map maxPaneNumber l)"

definition initialCenterLayout :: "(pane option \<times> string option) option \<Rightarrow> string \<Rightarrow> pane \<times> string \<times> nat" where
  "initialCenterLayout saved tabId =
     (let rootNode = (case saved of
             Some (Some l, _) \<Rightarrow> if pane_id l \<noteq> [] then l else Pane ''root'' ''resourceList'' (Some tabId) None None
           | _ \<Rightarrow> Pane ''root'' ''resourceList'' (Some tabId) None None);
          focusedNodeId = resolvePaneId (Some rootNode) (case saved of None \<Rightarrow> None | Some (_, f) \<Rightarrow> f)
      in (rootNode, focusedNodeId, maxPaneNumber rootNode + 1))"

lemma hasPane_self [simp]: "hasPane l (pane_id l)"
  by (cases l) simp

lemma hasPane_firstLeaf [simp]: "hasPane l (pane_id (firstLeaf l))"
  by (induction l rule: firstLeaf.induct) auto

section \<open>Closing a tab of a strip\<close>

text \<open>
  The rule of every strip (\<open>closeDetailTab\<close>, \<open>closeBottomTab\<close>): when the active tab is closed, the
  tab that takes its place is shown, or the last one when it was last. \<open>None\<close> is the
  \<open>TypeError\<close> of \<open>newTabs[-1].id\<close>, for an active tab that the strip does not have.
\<close>

definition close_active :: "('t \<Rightarrow> string) \<Rightarrow> 't list \<Rightarrow> string option \<Rightarrow> string \<Rightarrow> string option option" where
  "close_active ident tabs active tabId =
     (let newTabs = filter (\<lambda>t. ident t \<noteq> tabId) tabs in
      if active = Some tabId
      then (if newTabs \<noteq> []
            then (case find_index (\<lambda>t. ident t = tabId) tabs of
                    Some i \<Rightarrow> Some (Some (ident (newTabs ! (min i (length newTabs - 1)))))
                  | None \<Rightarrow> None)
            else Some None)
      else Some active)"

lemma close_active_other: "active \<noteq> Some tabId \<Longrightarrow> close_active ident tabs active tabId = Some active"
  by (simp add: close_active_def)

lemma close_active_valid:
  assumes "active = None \<or> (\<exists>t \<in> set tabs. Some (ident t) = active)"
  obtains a where "close_active ident tabs active tabId = Some a"
    "a = None \<or> (\<exists>t \<in> set tabs. ident t \<noteq> tabId \<and> Some (ident t) = a)"
    "active \<noteq> None \<longrightarrow> (a = None \<longleftrightarrow> filter (\<lambda>t. ident t \<noteq> tabId) tabs = [])"
proof (cases "active = Some tabId")
  case True
  let ?new = "filter (\<lambda>t. ident t \<noteq> tabId) tabs"
  show ?thesis
  proof (cases "?new = []")
    case False
    obtain i where i: "find_index (\<lambda>t. ident t = tabId) tabs = Some i"
      using assms True find_index_none [of "\<lambda>t. ident t = tabId" tabs] by fastforce
    have "min i (length ?new - 1) < length ?new" using False by (simp add: min_less_iff_disj)
    then have "?new ! (min i (length ?new - 1)) \<in> set ?new" by (rule nth_mem)
    then show ?thesis
      using True False i that [of "Some (ident (?new ! (min i (length ?new - 1))))"]
      by (simp add: close_active_def Let_def) blast
  qed (use True that [of None] in \<open>simp add: close_active_def\<close>)
next
  case False
  have "\<exists>t \<in> set tabs. ident t \<noteq> tabId \<and> Some (ident t) = active" if "active \<noteq> None"
    using assms False that by auto
  then show ?thesis
    using False that [of active] by (force simp: close_active_other filter_empty_conv)
qed

text \<open>The neighbour: the tab after the closed one, or the last one left.\<close>

lemma filter_distinct_split:
  "distinct (map ident (xs @ x # ys)) \<Longrightarrow> filter (\<lambda>t. ident t \<noteq> ident x) (xs @ x # ys) = xs @ ys"
proof -
  assume "distinct (map ident (xs @ x # ys))"
  then have "ident x \<notin> ident ` set xs" "ident x \<notin> ident ` set ys" by auto
  then have "\<forall>t \<in> set xs. ident t \<noteq> ident x" "\<forall>t \<in> set ys. ident t \<noteq> ident x" by (metis imageI)+
  then have "filter (\<lambda>t. ident t \<noteq> ident x) xs = xs" "filter (\<lambda>t. ident t \<noteq> ident x) ys = ys"
    by (simp_all add: filter_id_conv)
  then show ?thesis by simp
qed

lemma close_active_neighbour:
  assumes "distinct (map ident (xs @ x # ys))" "xs @ ys \<noteq> []"
  shows "close_active ident (xs @ x # ys) (Some (ident x)) (ident x) =
     Some (Some (ident (if ys \<noteq> [] then hd ys else last xs)))"
proof -
  have "ident x \<notin> ident ` set xs" using assms(1) by auto
  then have "find_index_from n (\<lambda>t. ident t = ident x) (xs @ x # ys) = Some (n + length xs)" for n
    by (induction xs arbitrary: n) auto
  then have i: "find_index (\<lambda>t. ident t = ident x) (xs @ x # ys) = Some (length xs)"
    by (simp add: find_index_def)
  have "(xs @ ys) ! (min (length xs) (length (xs @ ys) - 1)) = (if ys \<noteq> [] then hd ys else last xs)"
  proof (cases ys)
    case Nil
    with assms(2) have "min (length xs) (length xs - 1) = length xs - 1" by simp
    with Nil assms(2) show ?thesis by (simp add: last_conv_nth)
  qed (simp add: min_def)
  then show ?thesis
    unfolding close_active_def Let_def filter_distinct_split [OF assms(1)] i
    using assms(2) by simp
qed

lemma close_active_map:
  "close_active ident tabs active tabId = close_active (\<lambda>j. j) (map ident tabs) active tabId"
proof -
  have "find_index_from n (\<lambda>t. ident t = tabId) tabs = find_index_from n (\<lambda>j. j = tabId) (map ident tabs)" for n
    by (induction tabs arbitrary: n) auto
  then have fi: "find_index (\<lambda>t. ident t = tabId) tabs = find_index (\<lambda>j. j = tabId) (map ident tabs)"
    by (simp add: find_index_def)
  have fl: "filter (\<lambda>j. j \<noteq> tabId) (map ident tabs) = map ident (filter (\<lambda>t. ident t \<noteq> tabId) tabs)"
    by (simp add: filter_map comp_def)
  show ?thesis
    by (auto simp: close_active_def Let_def fi fl min_less_iff_disj split: option.splits)
qed

text \<open>A strip: its ids, the one shown, and the operation that closes one.\<close>

locale tab_strip =
  fixes ids :: "'s \<Rightarrow> string list"
    and active :: "'s \<Rightarrow> string option"
    and close :: "string \<Rightarrow> 's \<Rightarrow> 's"
  assumes ids_close: "close_active (\<lambda>j. j) (ids s) (active s) i \<noteq> None \<Longrightarrow>
      ids (close i s) = filter (\<lambda>j. j \<noteq> i) (ids s)"
    and active_close: "close_active (\<lambda>j. j) (ids s) (active s) i = Some a \<Longrightarrow> active (close i s) = a"
begin

definition shown_ok :: "'s \<Rightarrow> bool" where
  "shown_ok s = (case active s of None \<Rightarrow> True | Some a \<Rightarrow> a \<in> set (ids s))"

lemma close_shown_ok:
  assumes "shown_ok s"
  shows "ids (close i s) = filter (\<lambda>j. j \<noteq> i) (ids s)" "shown_ok (close i s)"
    "active s \<noteq> None \<Longrightarrow> active (close i s) = None \<longleftrightarrow> ids (close i s) = []"
proof -
  have "active s = None \<or> (\<exists>t \<in> set (ids s). Some t = active s)"
    using assms by (cases "active s") (auto simp: shown_ok_def)
  then obtain a where a: "close_active (\<lambda>j. j) (ids s) (active s) i = Some a"
    "a = None \<or> (\<exists>t \<in> set (ids s). t \<noteq> i \<and> Some t = a)"
    "active s \<noteq> None \<longrightarrow> (a = None \<longleftrightarrow> filter (\<lambda>t. t \<noteq> i) (ids s) = [])"
    by (rule close_active_valid [where ident = "\<lambda>j. j" and tabId = i]) blast
  show "ids (close i s) = filter (\<lambda>j. j \<noteq> i) (ids s)" using a(1) by (simp add: ids_close)
  then show "shown_ok (close i s)" using a(1,2) by (auto simp: shown_ok_def active_close)
  show "active (close i s) = None \<longleftrightarrow> ids (close i s) = []" if "active s \<noteq> None"
    using a that by (simp add: active_close ids_close)
qed

lemma active_close_other: "active s \<noteq> Some i \<Longrightarrow> active (close i s) = active s"
  by (simp add: active_close close_active_other)

lemma active_close_shown:
  assumes "ids s = xs @ i # ys" "distinct (ids s)" "active s = Some i" "xs @ ys \<noteq> []"
  shows "active (close i s) = Some (if ys \<noteq> [] then hd ys else last xs)"
  using close_active_neighbour [of "\<lambda>j. j" xs i ys] assms by (simp add: active_close)

lemma close_all: "shown_ok s \<Longrightarrow> ids (fold close is s) = filter (\<lambda>j. j \<notin> set is) (ids s) \<and> shown_ok (fold close is s)"
  by (induction "is" arbitrary: s) (auto simp: close_shown_ok intro!: filter_cong)

end

section \<open>Consistency of the index\<close>

definition ws_wf :: "ws \<Rightarrow> bool" where
  "ws_wf w = (distinct (map tab_id (ws_activeTabs w)) \<and> ws_tabIndexMap w = rebuildTabIndex (ws_activeTabs w)
     \<and> [] \<notin> set (map tab_id (ws_activeTabs w)))"

lemma rebuild_loop:
  "distinct (map tab_id tabs) \<Longrightarrow>
     jm_get (foldl (\<lambda>m (idx, t). jm_set m (tab_id t) idx) m (enumerate n tabs)) c =
       (case find_index_from n (\<lambda>t. tab_id t = c) tabs of None \<Rightarrow> jm_get m c | Some i \<Rightarrow> Some i)"
proof (induction tabs arbitrary: m n)
  case (Cons t tabs)
  have "tab_id t = c \<Longrightarrow> find_index_from (Suc n) (\<lambda>t. tab_id t = c) tabs = None"
    using Cons.prems by (auto simp: find_index_from_none image_iff)
  with Cons show ?case by (cases "tab_id t = c") (auto split: option.splits)
qed simp

lemma rebuildTabIndex_get:
  "distinct (map tab_id tabs) \<Longrightarrow> jm_get (rebuildTabIndex tabs) c = find_index (\<lambda>t. tab_id t = c) tabs"
  by (simp add: rebuildTabIndex_def rebuild_loop find_index_def split: option.splits)

lemma rebuildTabIndex_cong: "map tab_id xs = map tab_id ys \<Longrightarrow> rebuildTabIndex xs = rebuildTabIndex ys"
proof -
  assume m: "map tab_id xs = map tab_id ys"
  have "foldl (\<lambda>m (idx, t). jm_set m (tab_id t) idx) m (enumerate n xs)
      = foldl (\<lambda>m (idx, t). jm_set m (tab_id t) idx) m (enumerate n ys)" for m n
    using m by (induction xs ys arbitrary: m n rule: list_induct2') auto
  then show ?thesis by (simp add: rebuildTabIndex_def)
qed

lemma find_find_index:
  "find P xs = (case find_index_from n P xs of None \<Rightarrow> None | Some i \<Rightarrow> nth_opt xs (i - n))"
proof (induction xs arbitrary: n)
  case (Cons x xs)
  have "find_index_from (Suc n) P xs = Some i \<Longrightarrow> i - n = Suc (i - Suc n)" for i
    using find_index_from_some [of "Suc n" P xs i] by arith
  then show ?case using Cons.IH [of "Suc n"] by (auto simp: nth_opt_def split: option.splits)
qed simp

text \<open>The index finds what a search by id would.\<close>

lemma getCurrentTabState_find:
  assumes "ws_wf w"
  shows "getCurrentTabState w = map_option tab_st (find_tab (ws_currentTab w) w)"
proof -
  let ?c = "str_or (ws_currentTab w) []"
  have "getCurrentTabState w = map_option tab_st (find (\<lambda>t. tab_id t = ?c) (ws_activeTabs w))"
    using assms find_find_index [of "\<lambda>t. tab_id t = ?c" "ws_activeTabs w" 0]
    by (simp add: ws_wf_def getCurrentTabState_def current_index_def rebuildTabIndex_get find_index_def split: option.splits)
  also have "find (\<lambda>t. tab_id t = ?c) (ws_activeTabs w) = find_tab (ws_currentTab w) w"
  proof (cases "ws_currentTab w")
    case None
    have "find (\<lambda>t. tab_id t = []) (ws_activeTabs w) = None" "find (\<lambda>t. False) (ws_activeTabs w) = None"
      using assms by (auto simp: ws_wf_def find_None_iff image_iff)
    with None show ?thesis by (simp add: find_tab_def)
  next
    case (Some c)
    have "(\<lambda>t. tab_id t = c) = (\<lambda>t. Some (tab_id t) = Some c)" by simp
    with Some show ?thesis by (cases c) (simp_all add: find_tab_def)
  qed
  finally show ?thesis .
qed

lemma ws_wf_ids:
  "ws_wf w \<Longrightarrow> map tab_id (ws_activeTabs w') = map tab_id (ws_activeTabs w) \<Longrightarrow>
     ws_tabIndexMap w' = ws_tabIndexMap w \<Longrightarrow> ws_wf w'"
  by (metis rebuildTabIndex_cong ws_wf_def)

lemma map_tab_ids [simp]: "map tab_id (ws_activeTabs (map_tab c f w)) = map tab_id (ws_activeTabs w)"
  by (simp add: map_tab_def comp_def)

lemma ws_wf_map_tab [inv_intros]: "ws_wf w \<Longrightarrow> ws_wf (map_tab c f w)"
  by (rule ws_wf_ids [OF _ map_tab_ids]) (simp_all add: map_tab_def)

lemma ws_wf_emit [inv_intros]: "ws_wf w \<Longrightarrow> ws_wf (emit es w)"
  by (rule ws_wf_ids) (simp_all add: emit_def)

lemma ws_wf_current [inv_intros]: "ws_wf w \<Longrightarrow> ws_wf (w\<lparr>ws_currentTab := c\<rparr>)"
  by (rule ws_wf_ids) simp_all

lemma ws_wf_set_tabs [inv_intros]:
  "distinct (map tab_id tabs) \<Longrightarrow> [] \<notin> set (map tab_id tabs) \<Longrightarrow> ws_wf (set_tabs tabs w)"
  by (simp add: ws_wf_def set_tabs_def)

lemma ws_wf_update [inv_intros]: "ws_wf w \<Longrightarrow> ws_wf (updateCurrentTabState u w)"
proof -
  assume w: "ws_wf w"
  have "map tab_id ((ws_activeTabs w)[i := t\<lparr>tab_st := st\<rparr>]) = map tab_id (ws_activeTabs w)"
    if "nth_opt (ws_activeTabs w) i = Some t" for i t st
    using that by (auto simp: nth_opt_some map_update intro: list_update_same_conv [THEN iffD2])
  then have "ws_wf (set_tabs ((ws_activeTabs w)[i := t\<lparr>tab_st := st\<rparr>]) w)"
    if "nth_opt (ws_activeTabs w) i = Some t" for i t st
    using that w by (intro ws_wf_set_tabs) (simp_all add: ws_wf_def)
  then show ?thesis using w by (auto simp: updateCurrentTabState_def intro!: ws_wf_emit split: option.splits)
qed

lemma ws_wf_selectNode [inv_intros]: "ws_wf w \<Longrightarrow> ws_wf (selectNode n w)"
  by (auto simp: selectNode_def Let_def intro!: inv_intros split: option.splits)

end
