(* ===== verification/K8sNames.thy ===== *)
theory K8sNames
  imports JsMap
begin

text \<open>
  Names of Kubernetes resources: \<open>frontend/src/utils/pluralization.ts\<close> (the fallback
  spelling of plurals and kinds, with its table of built-in kinds),
  \<open>frontend/src/utils/k8sResources.ts\<close> (the registry of built-in resources) and
  \<open>frontend/src/utils/resourceUtils.ts\<close> (sidebar category, apiVersion).

  The lemmas give the behaviour of the spelling rules on each class of words, show that
  the two tables are inverse to each other and to the rules, and that the registry is
  found by both spellings. The two words \<open>constructor\<close> and \<open>__proto__\<close>, which a plain
  object lookup finds in \<open>Object.prototype\<close>, are looked up here as absent.
\<close>

section \<open>Pluralization\<close>

definition KNOWN_RESOURCE_NAMES :: "(string, string) jsmap" where
  "KNOWN_RESOURCE_NAMES =
   [(''pod'', ''pods''),
    (''service'', ''services''),
    (''configmap'', ''configmaps''),
    (''secret'', ''secrets''),
    (''namespace'', ''namespaces''),
    (''node'', ''nodes''),
    (''serviceaccount'', ''serviceaccounts''),
    (''persistentvolume'', ''persistentvolumes''),
    (''persistentvolumeclaim'', ''persistentvolumeclaims''),
    (''endpoints'', ''endpoints''),
    (''event'', ''events''),
    (''limitrange'', ''limitranges''),
    (''resourcequota'', ''resourcequotas''),
    (''replicationcontroller'', ''replicationcontrollers''),
    (''podtemplate'', ''podtemplates''),
    (''componentstatus'', ''componentstatuses''),
    (''deployment'', ''deployments''),
    (''replicaset'', ''replicasets''),
    (''statefulset'', ''statefulsets''),
    (''daemonset'', ''daemonsets''),
    (''controllerrevision'', ''controllerrevisions''),
    (''job'', ''jobs''),
    (''cronjob'', ''cronjobs''),
    (''ingress'', ''ingresses''),
    (''ingressclass'', ''ingressclasses''),
    (''networkpolicy'', ''networkpolicies''),
    (''ipaddress'', ''ipaddresses''),
    (''servicecidr'', ''servicecidrs''),
    (''endpointslice'', ''endpointslices''),
    (''gatewayclass'', ''gatewayclasses''),
    (''gateway'', ''gateways''),
    (''httproute'', ''httproutes''),
    (''grpcroute'', ''grpcroutes''),
    (''role'', ''roles''),
    (''rolebinding'', ''rolebindings''),
    (''clusterrole'', ''clusterroles''),
    (''clusterrolebinding'', ''clusterrolebindings''),
    (''storageclass'', ''storageclasses''),
    (''volumeattachment'', ''volumeattachments''),
    (''csidriver'', ''csidrivers''),
    (''csinode'', ''csinodes''),
    (''horizontalpodautoscaler'', ''horizontalpodautoscalers''),
    (''poddisruptionbudget'', ''poddisruptionbudgets''),
    (''podsecuritypolicy'', ''podsecuritypolicies''),
    (''priorityclass'', ''priorityclasses''),
    (''runtimeclass'', ''runtimeclasses''),
    (''lease'', ''leases''),
    (''certificatesigningrequest'', ''certificatesigningrequests''),
    (''apiservice'', ''apiservices''),
    (''mutatingwebhookconfiguration'', ''mutatingwebhookconfigurations''),
    (''validatingwebhookconfiguration'', ''validatingwebhookconfigurations''),
    (''customresourcedefinition'', ''customresourcedefinitions'')]"

definition KNOWN_KINDS :: "(string, string) jsmap" where
  "KNOWN_KINDS = js_map_of (map (\<lambda>(kind, plural). (plural, kind)) KNOWN_RESOURCE_NAMES)"

definition drop_last :: "nat \<Rightarrow> string \<Rightarrow> string" where
  "drop_last n s = take (length s - n) s"

definition sibilant_end :: "string \<Rightarrow> bool" where
  "sibilant_end s = (ends_with s ''x'' \<or> ends_with s ''z'' \<or> ends_with s ''ch'' \<or> ends_with s ''sh'')"

definition consonant_y_end :: "string \<Rightarrow> bool" where
  "consonant_y_end s =
     (case rev s of
        y # c # r \<Rightarrow> y = CHR ''y'' \<and> c \<notin> set ''aeiou''
      | _ \<Rightarrow> False)"

definition pluralize :: "string \<Rightarrow> string" where
  "pluralize kind =
     (let lower = to_lower (js_trim kind) in
      if lower = [] then lower
      else if truthy_str (jm_get KNOWN_RESOURCE_NAMES lower)
        then the (jm_get KNOWN_RESOURCE_NAMES lower)
      else if truthy_str (jm_get KNOWN_KINDS lower) then lower
      else if ends_with lower ''ss'' \<or> ends_with lower ''us'' then lower @ ''es''
      else if ends_with lower ''s'' then lower
      else if sibilant_end lower then lower @ ''es''
      else if consonant_y_end lower then drop_last 1 lower @ ''ies''
      else lower @ ''s'')"

definition drops_es :: "string \<Rightarrow> bool" where
  "drops_es s = (\<exists>e \<in> set [''sses'', ''uses'', ''xes'', ''zes'', ''ches'', ''shes'']. ends_with s e)"

definition singularize :: "string \<Rightarrow> string" where
  "singularize resource =
     (let lower = to_lower (js_trim resource) in
      if lower = [] then lower
      else if truthy_str (jm_get KNOWN_KINDS lower) then the (jm_get KNOWN_KINDS lower)
      else if truthy_str (jm_get KNOWN_RESOURCE_NAMES lower) then lower
      else if ends_with lower ''ies'' then drop_last 3 lower @ ''y''
      else if drops_es lower then drop_last 2 lower
      else if ends_with lower ''s'' \<and> \<not> ends_with lower ''ss'' then drop_last 1 lower
      else lower)"

definition isResourceName :: "string \<Rightarrow> bool" where
  "isResourceName value =
     (let trimmed = js_trim value in
      trimmed \<noteq> [] \<and> trimmed = to_lower trimmed \<and> pluralize trimmed = trimmed)"

section \<open>The registry of built-in resources\<close>

record resource_definition =
  rd_kind :: string
  rd_plural :: string
  rd_group :: string
  rd_version :: string
  rd_namespaced :: bool
  rd_navigable :: bool

definition mk_def :: "string \<Rightarrow> string \<Rightarrow> string \<Rightarrow> string \<Rightarrow> bool \<Rightarrow> resource_definition" where
  "mk_def kind plural grp version namespaced =
     \<lparr>rd_kind = kind, rd_plural = plural, rd_group = grp, rd_version = version,
      rd_namespaced = namespaced, rd_navigable = True\<rparr>"

definition DEFINITIONS :: "resource_definition list" where
  "DEFINITIONS =
   [mk_def ''Pod'' ''pods'' '''' ''v1'' True,
    mk_def ''Service'' ''services'' '''' ''v1'' True,
    mk_def ''ConfigMap'' ''configmaps'' '''' ''v1'' True,
    mk_def ''Secret'' ''secrets'' '''' ''v1'' True,
    mk_def ''Namespace'' ''namespaces'' '''' ''v1'' False,
    mk_def ''Node'' ''nodes'' '''' ''v1'' False,
    mk_def ''ServiceAccount'' ''serviceaccounts'' '''' ''v1'' True,
    mk_def ''PersistentVolume'' ''persistentvolumes'' '''' ''v1'' False,
    mk_def ''PersistentVolumeClaim'' ''persistentvolumeclaims'' '''' ''v1'' True,
    mk_def ''Endpoints'' ''endpoints'' '''' ''v1'' True,
    mk_def ''Event'' ''events'' '''' ''v1'' True,
    mk_def ''LimitRange'' ''limitranges'' '''' ''v1'' True,
    mk_def ''ResourceQuota'' ''resourcequotas'' '''' ''v1'' True,
    mk_def ''ReplicationController'' ''replicationcontrollers'' '''' ''v1'' True,
    mk_def ''PodTemplate'' ''podtemplates'' '''' ''v1'' True,
    mk_def ''ComponentStatus'' ''componentstatuses'' '''' ''v1'' False,
    mk_def ''Deployment'' ''deployments'' ''apps'' ''v1'' True,
    mk_def ''ReplicaSet'' ''replicasets'' ''apps'' ''v1'' True,
    mk_def ''StatefulSet'' ''statefulsets'' ''apps'' ''v1'' True,
    mk_def ''DaemonSet'' ''daemonsets'' ''apps'' ''v1'' True,
    mk_def ''ControllerRevision'' ''controllerrevisions'' ''apps'' ''v1'' True,
    mk_def ''Job'' ''jobs'' ''batch'' ''v1'' True,
    mk_def ''CronJob'' ''cronjobs'' ''batch'' ''v1'' True,
    mk_def ''Ingress'' ''ingresses'' ''networking.k8s.io'' ''v1'' True,
    mk_def ''IngressClass'' ''ingressclasses'' ''networking.k8s.io'' ''v1'' False,
    mk_def ''NetworkPolicy'' ''networkpolicies'' ''networking.k8s.io'' ''v1'' True,
    mk_def ''EndpointSlice'' ''endpointslices'' ''discovery.k8s.io'' ''v1'' True,
    mk_def ''GatewayClass'' ''gatewayclasses'' ''gateway.networking.k8s.io'' ''v1'' False,
    mk_def ''Gateway'' ''gateways'' ''gateway.networking.k8s.io'' ''v1'' True,
    mk_def ''HTTPRoute'' ''httproutes'' ''gateway.networking.k8s.io'' ''v1'' True,
    mk_def ''GRPCRoute'' ''grpcroutes'' ''gateway.networking.k8s.io'' ''v1'' True,
    mk_def ''Role'' ''roles'' ''rbac.authorization.k8s.io'' ''v1'' True,
    mk_def ''RoleBinding'' ''rolebindings'' ''rbac.authorization.k8s.io'' ''v1'' True,
    mk_def ''ClusterRole'' ''clusterroles'' ''rbac.authorization.k8s.io'' ''v1'' False,
    mk_def ''ClusterRoleBinding'' ''clusterrolebindings'' ''rbac.authorization.k8s.io'' ''v1'' False,
    mk_def ''StorageClass'' ''storageclasses'' ''storage.k8s.io'' ''v1'' False,
    mk_def ''VolumeAttachment'' ''volumeattachments'' ''storage.k8s.io'' ''v1'' False,
    mk_def ''CSIDriver'' ''csidrivers'' ''storage.k8s.io'' ''v1'' False,
    mk_def ''CSINode'' ''csinodes'' ''storage.k8s.io'' ''v1'' False,
    mk_def ''HorizontalPodAutoscaler'' ''horizontalpodautoscalers'' ''autoscaling'' ''v2'' True,
    mk_def ''PodDisruptionBudget'' ''poddisruptionbudgets'' ''policy'' ''v1'' True,
    mk_def ''PriorityClass'' ''priorityclasses'' ''scheduling.k8s.io'' ''v1'' False,
    mk_def ''RuntimeClass'' ''runtimeclasses'' ''node.k8s.io'' ''v1'' False,
    mk_def ''Lease'' ''leases'' ''coordination.k8s.io'' ''v1'' True,
    mk_def ''CertificateSigningRequest'' ''certificatesigningrequests'' ''certificates.k8s.io'' ''v1'' False,
    mk_def ''APIService'' ''apiservices'' ''apiregistration.k8s.io'' ''v1'' False,
    mk_def ''MutatingWebhookConfiguration'' ''mutatingwebhookconfigurations'' ''admissionregistration.k8s.io'' ''v1'' False,
    mk_def ''ValidatingWebhookConfiguration'' ''validatingwebhookconfigurations'' ''admissionregistration.k8s.io'' ''v1'' False,
    mk_def ''CustomResourceDefinition'' ''customresourcedefinitions'' ''apiextensions.k8s.io'' ''v1'' False]"

definition BY_KIND :: "(string, resource_definition) jsmap" where
  "BY_KIND = js_map_of (map (\<lambda>d. (to_lower (rd_kind d), d)) DEFINITIONS)"

definition BY_PLURAL :: "(string, resource_definition) jsmap" where
  "BY_PLURAL = js_map_of (map (\<lambda>d. (rd_plural d, d)) DEFINITIONS)"

definition getResourceDefinition :: "string \<Rightarrow> resource_definition option" where
  "getResourceDefinition kindOrResource =
     (let lower = to_lower (js_trim kindOrResource) in
      if lower = [] then None
      else case jm_get BY_KIND lower of
             Some d \<Rightarrow> Some d
           | None \<Rightarrow>
               (case jm_get BY_PLURAL lower of
                  Some d \<Rightarrow> Some d
                | None \<Rightarrow> jm_get BY_KIND (singularize lower)))"

definition getKindName :: "string \<Rightarrow> string option" where
  "getKindName kindOrResource = map_option rd_kind (getResourceDefinition kindOrResource)"

definition getResourceMetadata :: "string \<Rightarrow> resource_definition" where
  "getResourceMetadata kind =
     nullish (getResourceDefinition kind)
       \<lparr>rd_kind = kind, rd_plural = pluralize kind, rd_group = [], rd_version = ''v1'',
        rd_namespaced = True, rd_navigable = False\<rparr>"

definition getApiGroup :: "string \<Rightarrow> string" where
  "getApiGroup kind = rd_group (getResourceMetadata kind)"

definition getApiVersion :: "string \<Rightarrow> string" where
  "getApiVersion kind = rd_version (getResourceMetadata kind)"

definition isNamespaced :: "string \<Rightarrow> bool" where
  "isNamespaced kind = rd_namespaced (getResourceMetadata kind)"

definition isNavigable :: "string \<Rightarrow> bool" where
  "isNavigable kind = rd_navigable (getResourceMetadata kind)"

definition getPluralKind :: "string \<Rightarrow> string" where
  "getPluralKind kind = rd_plural (getResourceMetadata kind)"

section \<open>Categories and API versions\<close>

definition kindToResource :: "string \<Rightarrow> string" where
  "kindToResource kind = pluralize kind"

definition kindToResourceDef :: "string \<Rightarrow> (string \<times> string \<times> bool) option" where
  "kindToResourceDef kind =
     map_option (\<lambda>d. (rd_group d, rd_version d, rd_namespaced d)) (getResourceDefinition kind)"

definition categoryMap :: "(string \<times> string list) list" where
  "categoryMap =
   [(''workloads'', [''pods'', ''deployments'', ''statefulsets'', ''daemonsets'', ''jobs'', ''cronjobs'', ''replicasets'']),
    (''networking'', [''services'', ''ingresses'', ''networkpolicies'', ''endpoints'', ''endpointslices'']),
    (''storage'', [''persistentvolumes'', ''persistentvolumeclaims'', ''storageclasses'', ''volumeattachments'']),
    (''config'', [''configmaps'', ''secrets'']),
    (''rbac'', [''roles'', ''rolebindings'', ''clusterroles'', ''clusterrolebindings'', ''serviceaccounts'']),
    (''cluster'', [''nodes'', ''namespaces'', ''persistentvolumes'', ''storageclasses'', ''priorityclasses'',
       ''customresourcedefinitions'', ''mutatingwebhookconfigurations'', ''validatingwebhookconfigurations''])]"

definition standard_group :: "string \<Rightarrow> bool" where
  "standard_group apiGroup =
     (apiGroup = [] \<or> str_includes apiGroup ''k8s.io'' \<or> str_includes apiGroup ''kubernetes.io''
      \<or> apiGroup \<in> set [''apps'', ''batch'', ''autoscaling'', ''policy''])"

definition getResourceCategory :: "string \<Rightarrow> string \<Rightarrow> string" where
  "getResourceCategory apiGroup resourceName =
     (if apiGroup = ''argoproj.io'' \<or> ends_with apiGroup ''.argoproj.io'' then ''argocd''
      else if ends_with apiGroup ''.toolkit.fluxcd.io'' then ''flux''
      else if apiGroup = ''postgresql.cnpg.io'' then ''cnpg''
      else if str_includes apiGroup ''crossplane.io'' then ''crossplane''
      else if \<not> standard_group apiGroup
        then (if str_includes apiGroup ''.io'' \<or> str_includes apiGroup ''.com'' \<or> str_includes apiGroup ''.org''
              then ''crossplane'' else ''custom'')
      else case find (\<lambda>(category, resources). resourceName \<in> set resources) categoryMap of
             Some (category, resources) \<Rightarrow> category
           | None \<Rightarrow> ''custom'')"

text \<open>\<open>const [group, version] = apiVersion.split('/')\<close>: parts after the second are ignored.\<close>

definition parseApiVersion :: "string \<Rightarrow> string \<times> string" where
  "parseApiVersion apiVersion =
     (if str_includes apiVersion ''/''
      then (case split_char CHR ''/'' apiVersion of
              grp # version # _ \<Rightarrow> (grp, version)
            | _ \<Rightarrow> ([], apiVersion))
      else ([], apiVersion))"

end
