(* ===== verification/SearchResults.thy ===== *)
theory SearchResults
  imports StoreTypes K8sNames "HOL-Library.Sublist"
begin

text \<open>
  \<open>frontend/src/utils/searchResults.ts\<close>: a search result, in either spelling older and newer
  indexes use, resolved to the resource the app works with; the identity by which results
  are deduplicated; and the tree node a resource opens under.

  \<open>toUpperCase\<close> is modelled on the letters whose capital is a single code unit below 256
  (all but sharp s, micro and y with diaeresis, which stay as they are here).
\<close>

section \<open>Resolving a result\<close>

record search_resource =
  sr_cluster :: string
  sr_kind :: string
  sr_name :: string
  sr_namespace :: "string option"
  sr_apiVersion :: "string option"
  sr_group :: "string option"
  sr_version :: "string option"
  sr_resource :: "string option"
  sr_labels :: "(string, string) jsmap option"

record resolved_resource =
  rs_cluster :: string
  rs_group :: string
  rs_version :: string
  rs_apiVersion :: string
  rs_resourceName :: string
  rs_kind :: string
  rs_namespaced :: bool
  rs_namespace :: "string option"
  rs_name :: string
  rs_categoryId :: string

definition upper_char :: "char \<Rightarrow> char" where
  "upper_char c =
     (let n = code_unit c in
      if (97 \<le> n \<and> n \<le> 122) \<or> (224 \<le> n \<and> n \<le> 254 \<and> n \<noteq> 247) then char_of (n - 32) else c)"

definition capitalize :: "string \<Rightarrow> string" where
  "capitalize v = (case v of [] \<Rightarrow> v | c # r \<Rightarrow> upper_char c # r)"

definition label_of :: "search_resource \<Rightarrow> string \<Rightarrow> string option" where
  "label_of r k = (case sr_labels r of None \<Rightarrow> None | Some m \<Rightarrow> jm_get m k)"

definition groupAndVersion :: "search_resource \<Rightarrow> string \<times> string" where
  "groupAndVersion r =
     (let (pgroup, pversion) = parseApiVersion (str_or (sr_apiVersion r) []) in
      (nullish (sr_group r) pgroup, str_or (sr_version r) (str_or (Some pversion) ''v1'')))"

definition apiVersionOf :: "string \<Rightarrow> string \<Rightarrow> string" where
  "apiVersionOf grp version = (if grp \<noteq> [] then grp @ ''/'' @ version else version)"

definition describeSearchResource :: "search_resource \<Rightarrow> resolved_resource" where
  "describeSearchResource r =
     (let (grp, version) = groupAndVersion r;
          rawKind = js_trim (sr_kind r);
          resourceName = str_or (sr_resource r) (str_or (label_of r ''resource-name'') (pluralize rawKind));
          kind = (if rawKind = [] \<or> isResourceName rawKind
                  then str_or (getKindName resourceName) (capitalize (singularize resourceName))
                  else rawKind)
      in \<lparr>rs_cluster = sr_cluster r, rs_group = grp, rs_version = version,
          rs_apiVersion = apiVersionOf grp version, rs_resourceName = resourceName, rs_kind = kind,
          rs_namespaced = truthy_str (sr_namespace r),
          rs_namespace = (if truthy_str (sr_namespace r) then sr_namespace r else None),
          rs_name = sr_name r, rs_categoryId = getResourceCategory grp resourceName\<rparr>)"

definition describeKindDefinition :: "search_resource \<Rightarrow> resolved_resource" where
  "describeKindDefinition r =
     (let kind = sr_name r;
          d = getResourceDefinition kind;
          (rgroup, rversion) = groupAndVersion r;
          grp = nullish (sr_group r) (nullish (map_option rd_group d) rgroup);
          version = str_or (sr_version r) (str_or (map_option rd_version d) rversion);
          resourceName = str_or (sr_resource r) (str_or (label_of r ''resource-name'')
            (str_or (map_option rd_plural d) (pluralize kind)));
          namespaced = (case label_of r ''namespaced'' of
              Some l \<Rightarrow> l \<noteq> ''false''
            | None \<Rightarrow> nullish (map_option rd_namespaced d) True)
      in \<lparr>rs_cluster = sr_cluster r, rs_group = grp, rs_version = version,
          rs_apiVersion = apiVersionOf grp version, rs_resourceName = resourceName, rs_kind = kind,
          rs_namespaced = namespaced, rs_namespace = None,
          rs_name = kind, rs_categoryId = getResourceCategory grp resourceName\<rparr>)"

section \<open>Identity and deduplication\<close>

definition resourceIdentity :: "search_resource \<Rightarrow> string" where
  "resourceIdentity r =
     (if sr_kind r = ''KindDefinition''
      then join_with ''|'' [''kind'', sr_cluster r, fst (groupAndVersion r), to_lower (sr_name r)]
      else let d = describeSearchResource r in
           join_with ''|'' [rs_cluster d, rs_group d, rs_resourceName d, str_or (rs_namespace d) [], rs_name d])"

fun dedupe_from :: "('a \<Rightarrow> string) \<Rightarrow> string list \<Rightarrow> 'a list \<Rightarrow> 'a list" where
  "dedupe_from identity seen [] = []"
| "dedupe_from identity seen (item # items) =
     (let key = identity item in
      if key \<in> set seen then dedupe_from identity seen items
      else item # dedupe_from identity (js_add seen key) items)"

definition dedupeByIdentity :: "'a list \<Rightarrow> ('a \<Rightarrow> string) \<Rightarrow> 'a list" where
  "dedupeByIdentity items identity = dedupe_from identity [] items"

definition dedupeSearchResults :: "search_resource list \<Rightarrow> search_resource list" where
  "dedupeSearchResults results = dedupeByIdentity results resourceIdentity"

section \<open>Tree nodes\<close>

definition resourceListNode :: "resolved_resource \<Rightarrow> tree_node" where
  "resourceListNode d =
     mk_node (join_with ''-'' [rs_categoryId d, str_or (Some (rs_group d)) ''core'', rs_version d, rs_resourceName d])
       (rs_resourceName d) ''resource''
       (mk_resource (rs_resourceName d) (rs_group d) (rs_version d) (rs_kind d) (rs_namespaced d))"

definition node_matches :: "string \<Rightarrow> string \<Rightarrow> string \<Rightarrow> bool \<Rightarrow> node_info \<Rightarrow> bool" where
  "node_matches grp version resourceName checkVersion node =
     (ni_type node = ''resource'' \<and>
      (case ni_data node of
         None \<Rightarrow> False
       | Some data \<Rightarrow> str_or (rr_group data) [] = grp \<and> rr_name data = Some resourceName
           \<and> (\<not> checkVersion \<or> rr_version data = Some version)))"

definition findTreeResourceNode ::
  "tree_node list \<Rightarrow> string \<Rightarrow> string \<Rightarrow> string \<Rightarrow> bool \<Rightarrow> tree_node option" where
  "findTreeResourceNode nodes grp version resourceName anyVersion =
     (case find_node (node_matches grp version resourceName True) nodes of
        Some n \<Rightarrow> Some n
      | None \<Rightarrow> if anyVersion then find_node (node_matches grp version resourceName False) nodes else None)"

section \<open>Lemmas\<close>

lemma dedupe_from_fresh:
  "set (map identity (dedupe_from identity seen items)) = set (map identity items) - set seen
   \<and> distinct (map identity (dedupe_from identity seen items)) \<and> subseq (dedupe_from identity seen items) items"
proof (induction items arbitrary: seen)
  case (Cons x items)
  show ?case
    using Cons.IH [of seen] Cons.IH [of "js_add seen (identity x)"]
    by (auto simp: Let_def)
qed simp

lemma dedupe_from_first:
  "k \<notin> set seen \<Longrightarrow> find (\<lambda>x. identity x = k) (dedupe_from identity seen items) = find (\<lambda>x. identity x = k) items"
  by (induction items arbitrary: seen) (auto simp: Let_def)

fun in_tree :: "node_info \<Rightarrow> tree_node list \<Rightarrow> bool" where
  "in_tree i [] = False"
| "in_tree i (TreeNode info cs # nodes) =
     (i = info \<or> (case cs of None \<Rightarrow> False | Some l \<Rightarrow> in_tree i l) \<or> in_tree i nodes)"

lemma find_node_in_tree: "find_node P nodes = Some n \<Longrightarrow> in_tree (tn_info n) nodes"
  by (induction P nodes rule: find_node.induct) (auto split: if_splits option.splits)

lemma find_node_none: "find_node P nodes = None \<Longrightarrow> in_tree i nodes \<Longrightarrow> \<not> P i"
  by (induction P nodes rule: find_node.induct) (auto split: if_splits option.splits)

text \<open>Deduplicating search results keeps, in order, the first result of every
  identity and nothing else: no two kept results are the same object, no object is lost,
  and the kept ones are a subsequence of the results.\<close>

lemma dedupe_search_results:
  "let out = dedupeSearchResults results in
     distinct (map resourceIdentity out) \<and> set (map resourceIdentity out) = set (map resourceIdentity results)
     \<and> subseq out results
     \<and> find (\<lambda>r. resourceIdentity r = k) out = find (\<lambda>r. resourceIdentity r = k) results"
  using dedupe_from_fresh [of resourceIdentity "[]" results]
  by (simp add: Let_def dedupeSearchResults_def dedupeByIdentity_def dedupe_from_first)

text \<open>The tree node found for a resource is a resource node of that group and
  name in the tree; it has the version asked for unless no node of the tree has it and any
  version was accepted; and a node is found whenever the tree has one.\<close>

lemma find_tree_resource_node:
  "case findTreeResourceNode nodes grp version name anyVersion of
     Some n \<Rightarrow> in_tree (tn_info n) nodes \<and> node_matches grp version name False (tn_info n)
       \<and> (node_matches grp version name True (tn_info n)
          \<or> (anyVersion \<and> (\<nexists>i. in_tree i nodes \<and> node_matches grp version name True i)))
   | None \<Rightarrow> (\<nexists>i. in_tree i nodes \<and> node_matches grp version name (\<not> anyVersion) i)"
proof -
  have weaken: "node_matches grp version name True i \<Longrightarrow> node_matches grp version name False i" for i
    by (auto simp: node_matches_def split: option.splits)
  let ?f = "\<lambda>v. find_node (node_matches grp version name v) nodes"
  show ?thesis
  proof (cases "?f True")
    case (Some n)
    then show ?thesis
      using find_node_holds [OF Some] find_node_in_tree [OF Some] weaken by (simp add: findTreeResourceNode_def)
  next
    case exact: None
    show ?thesis
    proof (cases "?f False")
      case (Some n)
      then show ?thesis
        using exact find_node_holds [OF Some] find_node_in_tree [OF Some] find_node_none [OF exact]
        by (cases anyVersion) (auto simp: findTreeResourceNode_def)
    next
      case None
      then show ?thesis
        using exact find_node_none [OF None] find_node_none [OF exact]
        by (cases anyVersion) (auto simp: findTreeResourceNode_def)
    qed
  qed
qed

end
