(* ===== verification/ListTabs.thy ===== *)
theory ListTabs
  imports Workspace SearchResults
begin

text \<open>
  \<open>frontend/src/store/resourceListTabSlice.ts\<close>: the resource-list and page tabs of a cluster
  tab, per pane of its split layout. A preview tab is replaced by the next one opened in its
  pane, a pinned one stays.

  What the slice reads outside the store is the argument \<open>env\<close>: the rows of the open
  subscriptions (\<open>liveItemsFor\<close>, a component of its own), the item cache and \<open>Date.now()\<close>.
  \<open>le_copy\<close> says of a topic whose live rows equal a tab's stored ones that they are another
  array, the only thing \<open>live !== rt.items\<close> can see then.
\<close>

section \<open>The environment\<close>

record list_env =
  le_live :: "string \<Rightarrow> kube_object list option"
  le_copy :: "string \<Rightarrow> bool"
  le_cache :: "(string, kube_object list) jsmap"
  le_now :: nat

definition itemsTopic :: "string \<Rightarrow> resource \<Rightarrow> string" where
  "itemsTopic cluster r =
     ''items:'' @ cluster @ '':'' @ str_or (rr_group r) [] @ '':'' @ in_template (rr_version r) @ '':''
       @ in_template (rr_name r) @ '':''"

text \<open>The tab with its live rows, and whether they replaced the stored ones.\<close>

definition withLiveItems :: "list_env \<Rightarrow> list_tab \<Rightarrow> list_tab \<times> bool" where
  "withLiveItems env rt =
     (if rr_kind (lt_resource rt) = Some ''ClusterDashboard'' then (rt, False)
      else let topic = itemsTopic (lt_cluster rt) (lt_resource rt) in
           case le_live env topic of
             None \<Rightarrow> (rt, False)
           | Some live \<Rightarrow> if live \<noteq> lt_items rt \<or> le_copy env topic then (rt\<lparr>lt_items := live\<rparr>, True) else (rt, False))"

definition lt_pane :: "list_tab \<Rightarrow> string" where
  "lt_pane rt = str_or (lt_paneId rt) ''root''"

definition first_namespace :: "string list \<Rightarrow> string" where
  "first_namespace ns = (case ns of [] \<Rightarrow> ''all'' | n # _ \<Rightarrow> n)"

definition mark_loaded :: "tab_state \<Rightarrow> tab_state" where
  "mark_loaded st = st\<lparr>ts_isLoadingListItems := Some False, ts_hasReceivedInitialListData := Some True, ts_loadError := None\<rparr>"

definition resource_node :: "string \<Rightarrow> resource \<Rightarrow> tree_node" where
  "resource_node grp r =
     mk_node (join_with ''-'' [getResourceCategory grp (in_template (rr_name r)), str_or (rr_group r) ''core'',
         in_template (rr_version r), in_template (rr_name r)])
       (in_template (rr_name r)) ''resource'' r"

text \<open>The node selected with a tab: the page's own, or the resource type's.\<close>

definition node_of_resource :: "resource \<Rightarrow> string option \<Rightarrow> tree_node" where
  "node_of_resource r cluster =
     (case pageNode (rr_kind r) cluster of
        Some page \<Rightarrow> page
      | None \<Rightarrow> resource_node (str_or (rr_group r) []) r)"

section \<open>Pinning\<close>

definition pin_list :: "string \<Rightarrow> list_tab list \<Rightarrow> list_tab list" where
  "pin_list tabId tabs =
     (case find (\<lambda>rt. lt_id rt = tabId) tabs of
        None \<Rightarrow> tabs
      | Some tabToPin \<Rightarrow>
          let otherTabs = filter (\<lambda>rt. lt_id rt \<noteq> tabId) tabs in
          filter (\<lambda>rt. \<not> lt_isPinned rt) otherTabs @ [tabToPin\<lparr>lt_isPinned := True\<rparr>] @ filter lt_isPinned otherTabs)"

definition pinResourceListTab :: "string \<Rightarrow> ws \<Rightarrow> ws" where
  "pinResourceListTab tabId w =
     map_tab (ws_currentTab w) (\<lambda>st. st\<lparr>ts_resourceListTabs := pin_list tabId (ts_resourceListTabs st)\<rparr>) w"

section \<open>Opening\<close>

definition page_titles :: "(string \<times> string) list" where
  "page_titles =
   [(''ClusterSettings'', ''Cluster settings''), (''ClusterDashboard'', ''Overview''), (''FinOpsDashboard'', ''FinOps''),
    (''RightsizingDashboard'', ''Rightsizing''), (''CertificatesDashboard'', ''Certificates''), (''NetworkPage'', ''Network''),
    (''IncidentTimeline'', ''Incidents''), (''ResourceCompare'', ''Compare''), (''UpgradeReadiness'', ''Upgrade readiness''),
    (''AccessExplorer'', ''Access''), (''TopologyView'', ''Topology''), (''HealthIssues'', ''Issues''),
    (''HealthAudit'', ''Audit''), (''ChangesFeed'', ''Changes'')]"

definition resource_kind :: "resource \<Rightarrow> string" where
  "resource_kind r = str_or (rr_kind r) (str_or (rr_name r) ''Unknown'')"

definition list_title :: "resource \<Rightarrow> string" where
  "list_title r =
     (case map_of page_titles (resource_kind r) of
        Some t \<Rightarrow> t
      | None \<Rightarrow> if resource_kind r = ''ImageInspector'' then str_or (rr_title r) ''Image'' else resource_kind r)"

definition same_type :: "resource \<Rightarrow> resource \<Rightarrow> bool \<times> bool \<times> bool" where
  "same_type a b =
     (str_or (rr_group a) [] = str_or (rr_group b) [] \<and> str_or (rr_version a) [] = str_or (rr_version b) [],
      to_lower (str_or (rr_name a) []) = to_lower (str_or (rr_name b) []),
      to_lower (str_or (rr_kind a) []) = to_lower (str_or (rr_kind b) []))"

definition tab_matches :: "resource \<Rightarrow> string \<Rightarrow> string \<Rightarrow> list_tab \<Rightarrow> bool" where
  "tab_matches r cluster paneKey rt =
     (let (sameGV, sameName, sameKind) = same_type (lt_resource rt) r in
      lt_pane rt = paneKey \<and> lt_cluster rt = cluster \<and> sameGV
      \<and> (sameName \<or> (sameKind \<and> resource_kind r \<noteq> ''ImageInspector'')))"

definition existing_list_tab :: "resource \<Rightarrow> string \<Rightarrow> string \<Rightarrow> tab_state \<Rightarrow> list_tab option" where
  "existing_list_tab r cluster paneKey st =
     (let matches = filter (tab_matches r cluster paneKey) (ts_resourceListTabs st);
          preferredId = jm_get (nullish (ts_activeByPane st) []) paneKey
      in case find (\<lambda>rt. preferredId = Some (Some (lt_id rt))) matches of
           Some rt \<Rightarrow> Some rt
         | None \<Rightarrow> nth_opt matches 0)"

definition show_list_tab :: "list_env \<Rightarrow> bool \<Rightarrow> string \<Rightarrow> list_tab \<Rightarrow> tab_state \<Rightarrow> tab_state" where
  "show_list_tab env isPinned paneKey existing st =
     (let (current, live) = withLiveItems env existing;
          ns = lt_selectedNamespaces existing;
          st1 = st\<lparr>ts_activeResourceListTab := Some (lt_id existing), ts_listItems := lt_items current,
                   ts_selectedItem := lt_selectedItem existing\<rparr>
      in (if live then mark_loaded st1 else st1)
           \<lparr>ts_resourceListTabs := map (\<lambda>rt. if lt_id rt = lt_id existing
               then rt\<lparr>lt_items := lt_items current, lt_isPinned := isPinned \<or> lt_isPinned rt\<rparr> else rt) (ts_resourceListTabs st),
            ts_activeByPane := Some (jm_set (nullish (ts_activeByPane st) []) paneKey (Some (lt_id existing))),
            ts_selectedNamespaces := Some ns, ts_selectedNamespace := first_namespace ns\<rparr>)"

definition drop_first :: "('a \<Rightarrow> bool) \<Rightarrow> 'a list \<Rightarrow> 'a list" where
  "drop_first P xs = (case find_index P xs of None \<Rightarrow> xs | Some i \<Rightarrow> take i xs @ drop (Suc i) xs)"

definition placed_tabs :: "bool \<Rightarrow> string \<Rightarrow> list_tab \<Rightarrow> list_tab list \<Rightarrow> list_tab list" where
  "placed_tabs isPinned paneKey newTab tabs =
     (let kept = (if isPinned then tabs else drop_first (\<lambda>rt. \<not> lt_isPinned rt \<and> lt_pane rt = paneKey) tabs) in
      if isPinned then filter (\<lambda>t. \<not> lt_isPinned t) kept @ [newTab] @ filter lt_isPinned kept
      else newTab # kept)"

definition new_list_tab :: "list_env \<Rightarrow> resource \<Rightarrow> string \<Rightarrow> bool \<Rightarrow> string \<Rightarrow> list_tab" where
  "new_list_tab env r cluster isPinned paneKey =
     (let topic = itemsTopic cluster r in
      \<lparr>lt_navigationReveal = None,
       lt_id = join_with ''-'' [''list'', resource_kind r, str_or (rr_group r) [], str_or (rr_version r) [], show_nat (le_now env)],
       lt_title = list_title r, lt_resource = r,
       lt_items = (case le_live env topic of Some l \<Rightarrow> l | None \<Rightarrow> nullish (jm_get (le_cache env) topic) []),
       lt_selectedItem = None, lt_cluster = cluster, lt_selectedNamespaces = [], lt_sortBy = ''age'', lt_sortOrder = Desc,
       lt_isPinned = isPinned, lt_paneId = Some paneKey\<rparr>)"

definition add_list_tab :: "string \<Rightarrow> list_tab \<Rightarrow> list_tab list \<Rightarrow> tab_state \<Rightarrow> tab_state" where
  "add_list_tab paneKey newTab updatedTabs st =
     st\<lparr>ts_resourceListTabs := updatedTabs, ts_activeResourceListTab := Some (lt_id newTab), ts_listItems := lt_items newTab,
        ts_activeByPane := Some (jm_set (nullish (ts_activeByPane st) []) paneKey (Some (lt_id newTab)))\<rparr>"

definition target_pane :: "string option \<Rightarrow> tab_state \<Rightarrow> string option \<times> string" where
  "target_pane paneId st =
     (let wanted = (if truthy_str paneId then paneId
                    else if truthy_str (ts_focusedCenterPaneId st) then ts_focusedCenterPaneId st else None)
      in (wanted, resolvePaneId (ts_centerPaneLayout st) wanted))"

text \<open>
  The body after the cluster's tab is found. A tab whose resource has no group makes
  \<open>getResourceCategory\<close> throw: the strip is already updated, the node is not selected.
\<close>

definition open_list_body ::
  "list_env \<Rightarrow> resource \<Rightarrow> string \<Rightarrow> bool \<Rightarrow> string option \<Rightarrow> tab_state \<Rightarrow> ws \<Rightarrow> ws" where
  "open_list_body env r cluster isPinned paneId st w =
     (let (wanted, paneKey) = target_pane paneId st;
          w1 = (if wanted \<noteq> None \<and> Some paneKey \<noteq> wanted
                then map_tab (Some cluster) (\<lambda>s. s\<lparr>ts_focusedCenterPaneId := Some paneKey\<rparr>) w else w)
      in case existing_list_tab r cluster paneKey st of
           Some existing \<Rightarrow>
             (let w2 = map_tab (Some cluster) (show_list_tab env isPinned paneKey existing) w1;
                  w3 = (\<lambda>node. let w' = selectNode node w2 in
                          if isPinned \<and> \<not> lt_isPinned existing then pinResourceListTab (lt_id existing) w' else w')
              in case (pageNode (rr_kind (lt_resource existing)) (Some cluster), rr_group (lt_resource existing)) of
                   (Some page, _) \<Rightarrow> w3 page
                 | (None, Some grp) \<Rightarrow> w3 (resource_node grp (lt_resource existing))
                 | (None, None) \<Rightarrow> w2)
         | None \<Rightarrow>
             (let newTab = new_list_tab env r cluster isPinned paneKey;
                  w2 = map_tab (Some cluster)
                         (add_list_tab paneKey newTab (placed_tabs isPinned paneKey newTab (ts_resourceListTabs st))) w1
              in case pageNode (rr_kind r) (Some cluster) of
                   Some page \<Rightarrow> if ws_currentTab w2 = Some cluster then selectNode page w2 else w2
                 | None \<Rightarrow> w2))"

section \<open>Closing\<close>

definition close_panes :: "string \<Rightarrow> list_tab list \<Rightarrow> (string, string option) jsmap \<Rightarrow> (string, string option) jsmap" where
  "close_panes tabId newTabs perPane =
     map (\<lambda>(paneId, v). (paneId,
       if v = Some tabId then map_option lt_id (find (\<lambda>rt. lt_pane rt = paneId) newTabs) else v)) perPane"

text \<open>The tab that replaces the closed active one: the one its pane shows, else the neighbour.\<close>

definition replacement_tab :: "string \<Rightarrow> tab_state \<Rightarrow> list_tab list \<Rightarrow> list_tab option" where
  "replacement_tab tabId st newTabs =
     (let closing = find (\<lambda>rt. lt_id rt = tabId) (ts_resourceListTabs st);
          shownId = (case closing of
              None \<Rightarrow> None
            | Some c \<Rightarrow> (case jm_get (nullish (ts_activeByPane st) []) (lt_pane c) of Some v \<Rightarrow> v | None \<Rightarrow> None));
          shown = (if truthy_str shownId \<and> shownId \<noteq> Some tabId
                   then find (\<lambda>rt. Some (lt_id rt) = shownId) newTabs else None)
      in case shown of
           Some s \<Rightarrow> Some s
         | None \<Rightarrow> (case find_index (\<lambda>rt. lt_id rt = tabId) (ts_resourceListTabs st) of
                     None \<Rightarrow> None
                   | Some i \<Rightarrow> nth_opt newTabs (min i (length newTabs - 1))))"

definition release_closed :: "string \<Rightarrow> tab_state \<Rightarrow> list_tab list \<Rightarrow> ws \<Rightarrow> ws" where
  "release_closed tabId st newTabs w =
     (case find (\<lambda>rt. lt_id rt = tabId) (ts_resourceListTabs st) of
        None \<Rightarrow> w
      | Some closing \<Rightarrow>
          let topic = itemsTopic (lt_cluster closing) (lt_resource closing) in
          if list_ex (\<lambda>rt. itemsTopic (lt_cluster rt) (lt_resource rt) = topic) newTabs then w
          else emit [ReleaseTopic topic] w)"

definition closeResourceListTab :: "string \<Rightarrow> ws \<Rightarrow> ws" where
  "closeResourceListTab tabId w =
     (case find_tab (ws_currentTab w) w of
        None \<Rightarrow> w
      | Some t \<Rightarrow>
          let st = tab_st t;
              newTabs = filter (\<lambda>rt. lt_id rt \<noteq> tabId) (ts_resourceListTabs st);
              w1 = release_closed tabId st newTabs w;
              panes = close_panes tabId newTabs (nullish (ts_activeByPane st) []);
              stored = (\<lambda>active ps. map_tab (ws_currentTab w)
                 (\<lambda>s. s\<lparr>ts_resourceListTabs := newTabs, ts_activeResourceListTab := active, ts_activeByPane := Some ps\<rparr>) w1)
          in if ts_activeResourceListTab st \<noteq> Some tabId then stored (ts_activeResourceListTab st) panes
             else if newTabs = [] then stored None (map (\<lambda>(p, v). (p, None)) panes)
             else (case replacement_tab tabId st newTabs of
                     None \<Rightarrow> w1
                   | Some next \<Rightarrow> selectNode (node_of_resource (lt_resource next) (ws_currentTab w))
                       (stored (Some (lt_id next)) panes)))"

section \<open>Activating, updating and moving\<close>

definition setActiveResourceListTab :: "list_env \<Rightarrow> string \<Rightarrow> ws \<Rightarrow> ws" where
  "setActiveResourceListTab env tabId w =
     (case find_tab (ws_currentTab w) w of
        None \<Rightarrow> w
      | Some t \<Rightarrow>
          (case find (\<lambda>rt. lt_id rt = tabId) (ts_resourceListTabs (tab_st t)) of
             None \<Rightarrow> w
           | Some storedTab \<Rightarrow>
               let (rlt, live) = withLiveItems env storedTab;
                   ns = lt_selectedNamespaces rlt;
                   w1 = map_tab (ws_currentTab w) (\<lambda>st.
                     let st1 = st\<lparr>ts_activeResourceListTab := Some tabId, ts_listItems := lt_items rlt,
                           ts_selectedItem := lt_selectedItem rlt,
                           ts_selectedNode := Some (node_of_resource (lt_resource rlt) (ws_currentTab w)),
                           ts_selectedNamespaces := Some ns, ts_selectedNamespace := first_namespace ns\<rparr>
                     in if live then mark_loaded (st1\<lparr>ts_resourceListTabs :=
                          map (\<lambda>rt. if lt_id rt = tabId then rt\<lparr>lt_items := lt_items rlt\<rparr> else rt) (ts_resourceListTabs st)\<rparr>)
                        else st1) w
               in if pageNode (rr_kind (lt_resource rlt)) (ws_currentTab w) = None then emit [StartRealtime True] w1 else w1))"

definition setActiveResourceListTabForPane :: "list_env \<Rightarrow> string \<Rightarrow> string option \<Rightarrow> ws \<Rightarrow> ws" where
  "setActiveResourceListTabForPane env paneId tabId w =
     (case find_tab (ws_currentTab w) w of
        None \<Rightarrow> w
      | Some t \<Rightarrow>
          if paneId = [] then w
          else let next = jm_set (nullish (ts_activeByPane (tab_st t)) []) paneId tabId in
          (case find (\<lambda>rt. Some (lt_id rt) = tabId) (ts_resourceListTabs (tab_st t)) of
             None \<Rightarrow> updateCurrentTabState (plain_update (\<lambda>st. st\<lparr>ts_activeByPane := Some next\<rparr>)) w
           | Some storedTab \<Rightarrow>
               let (rlt, live) = withLiveItems env storedTab;
                   ns = lt_selectedNamespaces rlt;
                   tabs = map (\<lambda>rt. if lt_id rt = lt_id storedTab then rt\<lparr>lt_items := lt_items rlt\<rparr> else rt)
                            (ts_resourceListTabs (tab_st t));
                   w1 = updateCurrentTabState
                     \<lparr>tu_apply = (\<lambda>st.
                        let st1 = st\<lparr>ts_activeResourceListTab := Some (lt_id rlt), ts_activeByPane := Some next,
                              ts_selectedNode := Some (node_of_resource (lt_resource rlt) (ws_currentTab w)),
                              ts_selectedNamespaces := Some ns, ts_selectedNamespace := first_namespace ns\<rparr>
                        in if live then mark_loaded (st1\<lparr>ts_resourceListTabs := tabs\<rparr>) else st1),
                      tu_rolloutStatuses = None, tu_selectedNamespace = Some (first_namespace ns),
                      tu_selectedNamespaces = Some ns\<rparr> w
               in if pageNode (rr_kind (lt_resource rlt)) (ws_currentTab w) = None then emit [StartRealtime True] w1 else w1))"

text \<open>A \<open>Partial<ResourceListTab>\<close>, with the two properties the function reads from it.\<close>

record list_tab_update =
  lu_apply :: "list_tab \<Rightarrow> list_tab"
  lu_items :: "kube_object list option"
  lu_selectedItem :: "kube_object option option"

definition updateResourceListTab :: "string \<Rightarrow> list_tab_update \<Rightarrow> ws \<Rightarrow> ws" where
  "updateResourceListTab tabId u w =
     (case find_tab (ws_currentTab w) w of
        None \<Rightarrow> w
      | Some t \<Rightarrow>
          let isActive = (ts_activeResourceListTab (tab_st t) = Some tabId) in
          map_tab (ws_currentTab w) (\<lambda>st.
            let st1 = st\<lparr>ts_resourceListTabs := map (\<lambda>rt. if lt_id rt = tabId then lu_apply u rt else rt) (ts_resourceListTabs st)\<rparr>;
                st2 = (case lu_items u of Some l \<Rightarrow> if isActive then st1\<lparr>ts_listItems := l\<rparr> else st1 | None \<Rightarrow> st1)
            in case lu_selectedItem u of Some i \<Rightarrow> if isActive then st2\<lparr>ts_selectedItem := i\<rparr> else st2 | None \<Rightarrow> st2) w)"

text \<open>The two \<open>splice\<close> calls of a reorder, from a position the strip has.\<close>

definition move_to :: "nat \<Rightarrow> nat \<Rightarrow> 'a list \<Rightarrow> 'a list" where
  "move_to from to xs =
     (if from < length xs
      then let rest = take from xs @ drop (Suc from) xs in take to rest @ [xs ! from] @ drop to rest
      else xs)"

definition reorderResourceListTabs :: "nat \<Rightarrow> nat \<Rightarrow> ws \<Rightarrow> ws" where
  "reorderResourceListTabs from to w =
     (case find_tab (ws_currentTab w) w of
        None \<Rightarrow> w
      | Some t \<Rightarrow>
          let newTabs = move_to from to (ts_resourceListTabs (tab_st t)) in
          map_tab (ws_currentTab w) (\<lambda>st. st\<lparr>ts_resourceListTabs := newTabs\<rparr>) w)"

definition duplicate_of :: "list_tab \<Rightarrow> string \<Rightarrow> list_tab \<Rightarrow> bool" where
  "duplicate_of rl target rt =
     (let (sameGV, sameName, sameKind) = same_type (lt_resource rt) (lt_resource rl) in
      lt_pane rt = target \<and> lt_cluster rt = lt_cluster rl \<and> sameGV \<and> (sameName \<or> sameKind) \<and> lt_id rt \<noteq> lt_id rl)"

definition moveResourceListTabToPane :: "list_env \<Rightarrow> string \<Rightarrow> string \<Rightarrow> ws \<Rightarrow> ws" where
  "moveResourceListTabToPane env tabId targetPaneId w =
     (case find_tab (ws_currentTab w) w of
        None \<Rightarrow> w
      | Some t \<Rightarrow>
          let st0 = tab_st t; target = str_or (Some targetPaneId) ''root'' in
          (case find (\<lambda>rt. lt_id rt = tabId) (ts_resourceListTabs st0) of
             None \<Rightarrow> w
           | Some rl \<Rightarrow>
               (case find (duplicate_of rl target) (ts_resourceListTabs st0) of
                  Some dup \<Rightarrow>
                    let ns = lt_selectedNamespaces dup;
                        next = jm_set (nullish (ts_activeByPane st0) []) target (Some (lt_id dup))
                    in updateCurrentTabState
                         \<lparr>tu_apply = (\<lambda>st. st\<lparr>ts_activeByPane := Some next, ts_activeResourceListTab := Some (lt_id dup),
                            ts_listItems := lt_items (fst (withLiveItems env dup)), ts_selectedItem := lt_selectedItem dup,
                            ts_selectedNamespaces := Some ns, ts_selectedNamespace := first_namespace ns\<rparr>),
                          tu_rolloutStatuses = None, tu_selectedNamespace = Some (first_namespace ns),
                          tu_selectedNamespaces = Some ns\<rparr>
                         (closeResourceListTab tabId w)
                | None \<Rightarrow>
                    updateCurrentTabState (plain_update (\<lambda>st. st\<lparr>
                      ts_resourceListTabs := map (\<lambda>rt. if lt_id rt = tabId then rt\<lparr>lt_paneId := Some target\<rparr> else rt)
                        (ts_resourceListTabs st0),
                      ts_activeByPane := Some (jm_set (nullish (ts_activeByPane st0) []) target (Some tabId))\<rparr>)) w)))"

end
