(* ===== verification/BottomTabs.thy ===== *)
theory BottomTabs
  imports Workspace
begin

text \<open>
  \<open>frontend/src/store/bottomTabSlice.ts\<close>: the strip of logs, shells and editors under the
  workspace. \<open>Date.now()\<close> is the argument \<open>now\<close>.
\<close>

section \<open>The same object, and distinct titles\<close>

definition unknown_or_equal :: "string option \<Rightarrow> string option \<Rightarrow> bool" where
  "unknown_or_equal a b = (\<not> truthy_str a \<or> \<not> truthy_str b \<or> a = b)"

definition sameBottomObject :: "kube_object \<Rightarrow> kube_object \<Rightarrow> bool" where
  "sameBottomObject a b =
     (obj_name a = obj_name b
      \<and> str_or (obj_namespace a) [] = str_or (obj_namespace b) []
      \<and> unknown_or_equal (ko_kind a) (ko_kind b)
      \<and> unknown_or_equal (ko_apiVersion a) (ko_apiVersion b))"

definition title_clash :: "bottom_tab \<Rightarrow> bottom_tab \<Rightarrow> bool" where
  "title_clash added t =
     (bt_type t = bt_type added \<and> bt_cluster t = bt_cluster added \<and> bt_title t = bt_title added
      \<and> truthy_str (ko_kind (bt_resource t)))"

definition withDistinctTitles :: "bottom_tab list \<Rightarrow> bottom_tab \<Rightarrow> bottom_tab list" where
  "withDistinctTitles tabs added =
     (let clashing = filter (title_clash added) tabs in
      if \<not> list_ex (\<lambda>t. ko_kind (bt_resource t) \<noteq> ko_kind (bt_resource added)) clashing then tabs
      else map (\<lambda>t. if title_clash added t
                    then t\<lparr>bt_title := str_or (ko_kind (bt_resource t)) [] @ '' '' @ bt_title t\<rparr> else t) tabs)"

section \<open>Operations\<close>

definition type_name :: "bottom_type \<Rightarrow> string" where
  "type_name ty = (case ty of Logs \<Rightarrow> ''logs'' | Shell \<Rightarrow> ''shell'' | Edit \<Rightarrow> ''edit'' | Trace \<Rightarrow> ''trace''
     | DeploymentLogs \<Rightarrow> ''deployment-logs'' | Create \<Rightarrow> ''create'')"

definition is_terminal :: "bottom_tab \<Rightarrow> bool" where
  "is_terminal t = (bt_type t = Shell \<and> ko_kind (bt_resource t) = Some ''Terminal'')"

definition numbered :: "string \<Rightarrow> nat \<Rightarrow> string" where
  "numbered label n = (if n > 0 then label @ '' '' @ show_nat (n + 1) else label)"

definition reusable :: "bottom_type \<Rightarrow> kube_object \<Rightarrow> bool" where
  "reusable ty resource =
     (\<not> (ty = Edit \<and> ko_isHelmValues resource) \<and> \<not> (ty = Shell \<and> ko_kind resource = Some ''Terminal'') \<and> ty \<noteq> Create)"

definition shows_object :: "bottom_type \<Rightarrow> kube_object \<Rightarrow> string \<Rightarrow> bottom_tab \<Rightarrow> bool" where
  "shows_object ty resource cluster t = (bt_type t = ty \<and> bt_cluster t = cluster \<and> sameBottomObject (bt_resource t) resource)"

definition bottom_title :: "bottom_type \<Rightarrow> kube_object \<Rightarrow> bottom_tab list \<Rightarrow> string" where
  "bottom_title ty resource tabs =
     (if ty = Edit \<and> ko_isHelmValues resource
      then in_template (ko_helmReleaseName resource) @ '' values ('' @ in_template (ko_helmReleaseNamespace resource) @ '')''
      else if ty = Shell \<and> ko_kind resource = Some ''Terminal''
        then numbered ''Terminal'' (length (filter is_terminal tabs))
      else if ty = Create then numbered ''New Resource'' (length (filter (\<lambda>t. bt_type t = Create) tabs))
      else object_title (str_or (ko_metaName resource) ''Unknown'') (ko_metaNamespace resource))"

definition bottom_id :: "bottom_type \<Rightarrow> kube_object \<Rightarrow> nat \<Rightarrow> string" where
  "bottom_id ty resource now =
     type_name ty @ ''-'' @ (if truthy_str (ko_kind resource) then the (ko_kind resource) @ ''-'' else [])
     @ str_or (ko_metaName resource) ''Unknown'' @ ''-'' @ str_or (ko_metaNamespace resource) ''default''
     @ ''-'' @ show_nat now"

definition openBottomTab :: "nat \<Rightarrow> bottom_type \<Rightarrow> kube_object \<Rightarrow> string \<Rightarrow> ws \<Rightarrow> ws" where
  "openBottomTab now ty resource cluster w =
     (let tabs = ws_bottomTabs w;
          newTab = \<lparr>bt_id = bottom_id ty resource now, bt_type = ty, bt_title = bottom_title ty resource tabs,
            bt_customTitle = None, bt_resource = resource, bt_cluster = cluster, bt_selectedContainer = None,
            bt_location = InBottom, bt_paneId = None\<rparr>
      in case (if reusable ty resource then find (shows_object ty resource cluster) tabs else None) of
           Some t \<Rightarrow> w\<lparr>ws_activeBottomTab := Some (bt_id t)\<rparr>
         | None \<Rightarrow> w\<lparr>ws_bottomTabs := withDistinctTitles (tabs @ [newTab]) newTab,
                     ws_activeBottomTab := Some (bt_id newTab)\<rparr>)"

definition release_bottom_pane :: "string \<Rightarrow> bottom_tab option \<Rightarrow> bottom_tab list \<Rightarrow> ws \<Rightarrow> ws" where
  "release_bottom_pane tabId closed newTabs w =
     (case (find_tab (ws_currentTab w) w, closed) of
        (Some clusterTab, Some t) \<Rightarrow>
          (let perPane = nullish (ts_activeByPane (tab_st clusterTab)) [] in
           if bt_location t = InCenter \<and> truthy_str (bt_paneId t)
              \<and> jm_get perPane (the (bt_paneId t)) = Some (Some tabId)
           then updateCurrentTabState (plain_update (\<lambda>st. st\<lparr>ts_activeByPane :=
                  Some (jm_set perPane (the (bt_paneId t))
                    (map_option bt_id (find (\<lambda>b. bt_location b = InCenter \<and> bt_paneId b = bt_paneId t) newTabs)))\<rparr>)) w
           else w)
      | _ \<Rightarrow> w)"

definition closeBottomTab :: "string \<Rightarrow> ws \<Rightarrow> ws" where
  "closeBottomTab tabId w =
     (let tabs = ws_bottomTabs w;
          closed = find (\<lambda>t. bt_id t = tabId) tabs;
          newTabs = filter (\<lambda>t. bt_id t \<noteq> tabId) tabs;
          w1 = (case closed of Some t \<Rightarrow> if is_terminal t then emit [CloseTerminal tabId] w else w | None \<Rightarrow> w)
      in case close_active bt_id tabs (ws_activeBottomTab w) tabId of
           None \<Rightarrow> w1
         | Some newActive \<Rightarrow>
             (release_bottom_pane tabId closed newTabs w1)\<lparr>ws_bottomTabs := newTabs, ws_activeBottomTab := newActive\<rparr>)"

definition setActiveBottomTab :: "string \<Rightarrow> ws \<Rightarrow> ws" where
  "setActiveBottomTab tabId w = w\<lparr>ws_activeBottomTab := Some tabId\<rparr>"

definition map_bottom :: "string \<Rightarrow> (bottom_tab \<Rightarrow> bottom_tab) \<Rightarrow> ws \<Rightarrow> ws" where
  "map_bottom tabId f w = w\<lparr>ws_bottomTabs := map (\<lambda>t. if bt_id t = tabId then f t else t) (ws_bottomTabs w)\<rparr>"

definition updateBottomTabContainer :: "string \<Rightarrow> string \<Rightarrow> ws \<Rightarrow> ws" where
  "updateBottomTabContainer tabId container w = map_bottom tabId (\<lambda>t. t\<lparr>bt_selectedContainer := Some container\<rparr>) w"

definition renameBottomTab :: "string \<Rightarrow> string \<Rightarrow> ws \<Rightarrow> ws" where
  "renameBottomTab tabId customTitle w = map_bottom tabId (\<lambda>t. t\<lparr>bt_customTitle := Some customTitle\<rparr>) w"

definition moveBottomTab :: "string \<Rightarrow> tab_place \<Rightarrow> string option \<Rightarrow> ws \<Rightarrow> ws" where
  "moveBottomTab tabId location targetPaneId w =
     map_bottom tabId (\<lambda>t. t\<lparr>bt_location := location, bt_paneId :=
       (if location = InCenter
        then Some (str_or targetPaneId
               (str_or (case getCurrentTabState w of None \<Rightarrow> None | Some st \<Rightarrow> ts_focusedCenterPaneId st) ''root''))
        else None)\<rparr>) w"

section \<open>Lemmas\<close>

lemma sameBottomObject_refl [simp]: "sameBottomObject a a"
  by (simp add: sameBottomObject_def unknown_or_equal_def)

lemma distinct_titles_ids [simp]: "map bt_id (withDistinctTitles tabs added) = map bt_id tabs"
  by (auto simp: withDistinctTitles_def Let_def)

lemma updateCurrent_bottom [simp]:
  "ws_bottomTabs (updateCurrentTabState u w) = ws_bottomTabs w"
  "ws_activeBottomTab (updateCurrentTabState u w) = ws_activeBottomTab w"
  by (simp_all add: updateCurrentTabState_def emit_def set_tabs_def split: option.splits)

lemma closeBottomTab_strip:
  "close_active bt_id (ws_bottomTabs w) (ws_activeBottomTab w) i = Some a \<Longrightarrow>
     ws_bottomTabs (closeBottomTab i w) = filter (\<lambda>t. bt_id t \<noteq> i) (ws_bottomTabs w)
     \<and> ws_activeBottomTab (closeBottomTab i w) = a"
  by (simp add: closeBottomTab_def Let_def)

interpretation bottom: tab_strip "\<lambda>w. map bt_id (ws_bottomTabs w)" ws_activeBottomTab closeBottomTab
proof (unfold_locales, goal_cases)
  case (1 s i)
  then obtain a where "close_active bt_id (ws_bottomTabs s) (ws_activeBottomTab s) i = Some a"
    by (auto simp: close_active_map [of bt_id])
  then show ?case by (simp add: closeBottomTab_strip filter_map comp_def)
next
  case (2 s i a)
  then show ?case by (simp add: closeBottomTab_strip close_active_map [of bt_id])
qed

lemma openBottomTab_shows:
  "\<exists>t \<in> set (ws_bottomTabs (openBottomTab now ty resource cluster w)).
     ws_activeBottomTab (openBottomTab now ty resource cluster w) = Some (bt_id t) \<and> shows_object ty resource cluster t"
proof (cases "if reusable ty resource then find (shows_object ty resource cluster) (ws_bottomTabs w) else None")
  case None
  let ?new = "\<lparr>bt_id = bottom_id ty resource now, bt_type = ty, bt_title = bottom_title ty resource (ws_bottomTabs w),
            bt_customTitle = None, bt_resource = resource, bt_cluster = cluster, bt_selectedContainer = None,
            bt_location = InBottom, bt_paneId = None\<rparr>"
  have "\<exists>t \<in> set (withDistinctTitles (ws_bottomTabs w @ [?new]) ?new). bt_id ?new = bt_id t \<and> shows_object ty resource cluster t"
    by (auto simp: withDistinctTitles_def Let_def shows_object_def)
  then show ?thesis using None by (simp add: openBottomTab_def Let_def)
next
  case (Some t)
  then have "t \<in> set (ws_bottomTabs w)" "shows_object ty resource cluster t"
    by (auto split: if_splits simp: find_Some_iff)
  then show ?thesis using Some by (auto simp: openBottomTab_def Let_def)
qed

definition example_object :: "string \<Rightarrow> string \<Rightarrow> kube_object" where
  "example_object kind name =
     \<lparr>it_name = Some name, it_namespace = Some ''ns'', it_uid = None, it_rv = None, ko_metaName = Some name,
      ko_metaNamespace = Some ''ns'', ko_kind = Some kind, ko_apiVersion = None, ko_metaUid = None, ko_conditions = None, ko_statusConditions = None,
      ko_counts = \<lparr>rc_replicas = None, rc_desiredNumberScheduled = None, rc_statusReplicas = None, rc_readyReplicas = None,
        rc_numberReady = None, rc_updatedReplicas = None, rc_updatedNumberScheduled = None, rc_availableReplicas = None,
        rc_numberAvailable = None\<rparr>,
      ko_isHelmValues = False, ko_helmReleaseName = None, ko_helmReleaseNamespace = None, ko_events = None\<rparr>"

section \<open>Properties\<close>

text \<open>A bottom tab never stands in for another object: after opening logs, a shell
  or an editor for an object, the tab shown exists, has that type and cluster, and shows
  that object (its Kind and apiVersion included, where both are known).\<close>

lemma openBottomTab_shows_object:
  "\<exists>t \<in> set (ws_bottomTabs (openBottomTab now ty resource cluster w)).
     ws_activeBottomTab (openBottomTab now ty resource cluster w) = Some (bt_id t)
     \<and> bt_type t = ty \<and> bt_cluster t = cluster \<and> sameBottomObject (bt_resource t) resource"
  using openBottomTab_shows [of now ty resource cluster w] by (auto simp: shows_object_def)

text \<open>Opening the same object again adds no tab, however often and whenever:
  the strip keeps its tabs and shows the one the object already has.\<close>

lemma openBottomTab_reuses:
  assumes "reusable ty resource"
  shows "ws_bottomTabs (openBottomTab later ty resource cluster (openBottomTab now ty resource cluster w))
     = ws_bottomTabs (openBottomTab now ty resource cluster w)"
proof -
  let ?w = "openBottomTab now ty resource cluster w"
  have "find (shows_object ty resource cluster) (ws_bottomTabs ?w) \<noteq> None"
    using openBottomTab_shows by (metis find_None_iff)
  then show ?thesis using assms by (auto simp: openBottomTab_def [of later] Let_def)
qed

lemma openBottomTab_reuses_witness:
  "ws_bottomTabs (openBottomTab 2 Logs (example_object ''Pod'' ''a'') ''c'' (openBottomTab 1 Logs (example_object ''Pod'' ''a'') ''c'' ws_init))
     = ws_bottomTabs (openBottomTab 1 Logs (example_object ''Pod'' ''a'') ''c'' ws_init)"
  by (rule openBottomTab_reuses) (simp add: reusable_def)

text \<open>Closing bottom tabs keeps the strip usable: starting from a strip whose
  shown tab exists, closing any tabs in any order removes exactly those and leaves a shown
  tab that exists.\<close>

lemma closeBottomTab_all:
  assumes "case ws_activeBottomTab w of None \<Rightarrow> True | Some a \<Rightarrow> a \<in> set (map bt_id (ws_bottomTabs w))"
  shows "let w' = fold closeBottomTab is w in
     map bt_id (ws_bottomTabs w') = filter (\<lambda>i. i \<notin> set is) (map bt_id (ws_bottomTabs w))
     \<and> (case ws_activeBottomTab w' of None \<Rightarrow> True | Some a \<Rightarrow> a \<in> set (map bt_id (ws_bottomTabs w')))"
  using bottom.close_all [of w "is"] assms unfolding bottom.shown_ok_def Let_def by blast

lemma closeBottomTab_all_witness:
  "let w = openBottomTab 1 Logs (example_object ''Pod'' ''a'') ''c'' ws_init; w' = fold closeBottomTab [''x'', ''y''] w in
     map bt_id (ws_bottomTabs w') = filter (\<lambda>i. i \<notin> set [''x'', ''y'']) (map bt_id (ws_bottomTabs w))
     \<and> (case ws_activeBottomTab w' of None \<Rightarrow> True | Some a \<Rightarrow> a \<in> set (map bt_id (ws_bottomTabs w')))"
  using closeBottomTab_all [of "openBottomTab 1 Logs (example_object ''Pod'' ''a'') ''c'' ws_init" "[''x'', ''y'']"]
  by (simp add: Let_def openBottomTab_def ws_init_def withDistinctTitles_def)

text \<open>Closing the bottom tab on screen shows its right neighbour, or the last
  tab when it was the last, or none when it was the only one.\<close>

lemma closeBottomTab_neighbour:
  assumes "map bt_id (ws_bottomTabs w) = xs @ i # ys" "distinct (xs @ i # ys)" "ws_activeBottomTab w = Some i"
  shows "ws_activeBottomTab (closeBottomTab i w) =
     (if ys \<noteq> [] then Some (hd ys) else if xs \<noteq> [] then Some (last xs) else None)"
proof (cases "xs @ ys = []")
  case True
  have "bottom.shown_ok w" using assms by (simp add: bottom.shown_ok_def del: set_map)
  then show ?thesis using bottom.close_shown_ok(1,3) [of w i] assms True by simp
next
  case False
  then show ?thesis using bottom.active_close_shown [of w xs i ys] assms by auto
qed

lemma closeBottomTab_neighbour_witness:
  "ws_activeBottomTab (closeBottomTab ''logs-Pod-a-ns-1'' (openBottomTab 1 Logs (example_object ''Pod'' ''a'') ''c'' ws_init)) =
     (if [] \<noteq> ([] :: string list) then Some (hd []) else if [] \<noteq> ([] :: string list) then Some (last []) else None)"
proof (rule closeBottomTab_neighbour)
  show "map bt_id (ws_bottomTabs (openBottomTab 1 Logs (example_object ''Pod'' ''a'') ''c'' ws_init)) = [] @ ''logs-Pod-a-ns-1'' # []"
    by code_simp
  show "ws_activeBottomTab (openBottomTab 1 Logs (example_object ''Pod'' ''a'') ''c'' ws_init) = Some ''logs-Pod-a-ns-1''"
    by code_simp
qed simp

end
