(* ===== verification/ClusterTabs.thy ===== *)
theory ClusterTabs
  imports ListTabs BottomTabs
begin

text \<open>
  \<open>frontend/src/store/tabSlice.ts\<close> and \<open>detailTabSlice.ts\<close>: the open clusters and the detail
  tabs of each. An asynchronous operation is modelled up to its first \<open>await\<close>; what \<open>openTab\<close>
  does when the overview is shown and when the tree has loaded are steps of their own.
\<close>

section \<open>Cluster tabs\<close>

definition setCurrentTab :: "string option \<Rightarrow> bool \<Rightarrow> ws \<Rightarrow> ws" where
  "setCurrentTab tabId recordHistory w =
     (let prev = ws_currentTab w;
          w1 = (if recordHistory \<and> prev \<noteq> tabId then emit [RecordCurrentNavigation] w else w);
          w2 = (if truthy_str prev \<and> prev \<noteq> tabId then emit [ParkRealtime] w1 else w1);
          w3 = emit [if truthy_str tabId then SaveItem ''kanivet.currentTab'' (the tabId) else RemoveItem ''kanivet.currentTab'']
                 (w2\<lparr>ws_currentTab := tabId\<rparr>)
      in if truthy_str tabId \<and> tabId \<noteq> prev
         then emit ((if recordHistory then [RecordCurrentNavigation] else []) @ [StartRealtime False]) w3
         else w3)"

definition overview_node :: "string \<Rightarrow> tree_node" where
  "overview_node cluster = mk_node ''cluster-overview'' ''Overview'' ''overview'' (no_resource\<lparr>rr_cluster := Some cluster\<rparr>)"

definition dashboard_resource :: resource where
  "dashboard_resource = mk_resource ''cluster-dashboard'' [] ''v1'' ''ClusterDashboard'' False"

definition open_overview :: "list_env \<Rightarrow> string \<Rightarrow> ws \<Rightarrow> ws" where
  "open_overview env cluster w =
     (if jm_get (ws_tabIndexMap w) cluster = None \<or> ws_currentTab w \<noteq> Some cluster then w
      else let w1 = selectNode (overview_node cluster) w in
           case find_tab (Some cluster) w1 of
             None \<Rightarrow> w1
           | Some t \<Rightarrow> open_list_body env dashboard_resource cluster True None (tab_st t) w1)"

definition openTab :: "list_env \<Rightarrow> string \<Rightarrow> bool \<Rightarrow> ws \<Rightarrow> ws" where
  "openTab env cluster recordHistory w =
     (case find_tab (Some cluster) w of
        Some _ \<Rightarrow> setCurrentTab (Some cluster) recordHistory w
      | None \<Rightarrow>
          (let w1 = (if recordHistory then emit [RecordCurrentNavigation] w else w);
               newTabs = ws_activeTabs w @ [\<lparr>tab_id = cluster, tab_name = cluster, tab_st = createInitialTabState\<rparr>];
               w2 = (set_tabs newTabs w1)\<lparr>ws_currentTab := Some cluster\<rparr>;
               w3 = emit [RegisterActiveCluster cluster, IndexCluster cluster, SaveItem ''kanivet.currentTab'' cluster,
                      SaveList ''kanivet.activeClusters'' (map tab_id newTabs), LoadClusterStatus cluster, LoadTreeData cluster] w2
           in open_overview env cluster w3))"

text \<open>After the overview tab is open, and after the tree has loaded.\<close>

definition overview_opened :: "string \<Rightarrow> bool \<Rightarrow> ws \<Rightarrow> ws" where
  "overview_opened cluster recordHistory w =
     (if recordHistory \<and> ws_currentTab w = Some cluster
      then emit [RecordNavigation ''overview'' ''cluster-overview'' dashboard_resource] w else w)"

definition tree_loaded :: "string \<Rightarrow> ws \<Rightarrow> ws" where
  "tree_loaded cluster w =
     (case jm_get (ws_tabIndexMap w) cluster of
        None \<Rightarrow> w
      | Some i \<Rightarrow>
          (case nth_opt (ws_activeTabs w) i of
             None \<Rightarrow> w
           | Some t \<Rightarrow>
               emit (map (PrefetchCategory cluster)
                 (filter (\<lambda>c. \<exists>n \<in> set (ts_treeData (tab_st t)). tn_id n = c) [''crossplane'', ''custom'', ''argocd''])) w))"

definition remove_keys :: "string \<Rightarrow> ws_effect list" where
  "remove_keys c = map (\<lambda>k. RemoveItem (''kanivet.'' @ k @ ''.'' @ c))
     [''tabstate'', ''lastResource'', ''lastItem'', ''lastDetailTab'', ''namespace'', ''selectedNamespaces'']"

definition closeTab :: "string \<Rightarrow> ws \<Rightarrow> ws" where
  "closeTab clusterId w =
     (let terminals = filter (\<lambda>t. bt_cluster t = clusterId \<and> is_terminal t) (ws_bottomTabs w);
          w1 = emit ([ReleasePrefix (''items:'' @ clusterId @ '':'')] @ map (\<lambda>t. CloseTerminal (bt_id t)) terminals
                 @ [UnregisterActiveCluster clusterId, ReleaseCluster clusterId, DropCachedTopics (''items:'' @ clusterId @ '':'')]
                 @ (if starts_with clusterId ''vcluster:'' then [DisconnectVCluster clusterId] else [])) w;
          newTabs = filter (\<lambda>t. tab_id t \<noteq> clusterId) (ws_activeTabs w);
          newCurrent = (if ws_currentTab w = Some clusterId
                        then (case newTabs of [] \<Rightarrow> None | t # _ \<Rightarrow> if tab_id t = [] then None else Some (tab_id t))
                        else ws_currentTab w);
          w2 = (set_tabs newTabs w1)\<lparr>ws_currentTab := newCurrent\<rparr>
      in emit ([CancelSnapshot clusterId, ForgetVCluster clusterId, ForgetScroll clusterId,
             if truthy_str newCurrent then SaveItem ''kanivet.currentTab'' (the newCurrent) else RemoveItem ''kanivet.currentTab'',
             SaveList ''kanivet.activeClusters'' (map tab_id newTabs)] @ remove_keys clusterId) w2)"

definition reorderTabs :: "int \<Rightarrow> int \<Rightarrow> ws \<Rightarrow> ws" where
  "reorderTabs from to w =
     (let n = int (length (ws_activeTabs w)) in
      if from = to \<or> from < 0 \<or> to < 0 \<or> from \<ge> n \<or> to \<ge> n then w
      else let newTabs = move_to (nat from) (nat to) (ws_activeTabs w) in
           emit [SaveList ''kanivet.activeClusters'' (map tab_id newTabs)] (set_tabs newTabs w))"

definition openResourceListTab ::
  "list_env \<Rightarrow> resource \<Rightarrow> string \<Rightarrow> bool \<Rightarrow> string option \<Rightarrow> ws \<Rightarrow> ws" where
  "openResourceListTab env r cluster isPinned paneId w =
     (let w1 = (if ws_currentTab w \<noteq> Some cluster then openTab env cluster True w else w) in
      case find_tab (Some cluster) w of
        None \<Rightarrow> w1
      | Some t \<Rightarrow> open_list_body env r cluster isPinned paneId (tab_st t) w1)"

section \<open>Detail tabs\<close>

definition res_field :: "(resource \<Rightarrow> string option) \<Rightarrow> resource option \<Rightarrow> string option" where
  "res_field f r = (case r of None \<Rightarrow> None | Some x \<Rightarrow> f x)"

definition object_kind :: "kube_object \<Rightarrow> resource option \<Rightarrow> string" where
  "object_kind item r = str_or (ko_kind item) (str_or (res_field rr_kind r) (str_or (res_field rr_name r) ''Resource''))"

definition object_apiVersion :: "kube_object \<Rightarrow> resource option \<Rightarrow> string" where
  "object_apiVersion item r = str_or (ko_apiVersion item) (str_or (res_field rr_apiVersion r) [])"

definition detail_identity :: "kube_object \<Rightarrow> resource option \<Rightarrow> string" where
  "detail_identity item r =
     join_with ''/'' [object_apiVersion item r, object_kind item r, str_or (obj_namespace item) ''default'',
       str_or (obj_name item) ''Unknown'']"

definition pinned_id :: "string \<Rightarrow> kube_object \<Rightarrow> resource option \<Rightarrow> string" where
  "pinned_id cluster item r = ''detail-'' @ cluster @ ''-pinned-'' @ detail_identity item r"

definition preview_id :: "string \<Rightarrow> string" where
  "preview_id cluster = ''detail-'' @ cluster @ ''-preview''"

definition detail_matches :: "kube_object \<Rightarrow> resource option \<Rightarrow> string \<Rightarrow> bool \<Rightarrow> detail_tab \<Rightarrow> bool" where
  "detail_matches item r cluster isPinned dt =
     (obj_name (dt_item dt) = Some (str_or (obj_name item) ''Unknown'')
      \<and> obj_namespace (dt_item dt) = obj_namespace item
      \<and> object_kind (dt_item dt) (dt_resource dt) = object_kind item r
      \<and> object_apiVersion (dt_item dt) (dt_resource dt) = object_apiVersion item r
      \<and> dt_cluster dt = cluster \<and> dt_location dt = Some InDetail
      \<and> (isPinned \<or> \<not> dt_isPinned dt))"

definition reuse_detail :: "kube_object \<Rightarrow> bool \<Rightarrow> detail_tab \<Rightarrow> string \<Rightarrow> tab_state \<Rightarrow> tab_state" where
  "reuse_detail item isPinned existing newId st =
     st\<lparr>ts_activeDetailTab := Some newId, ts_isDetailsPanelCollapsed := False, ts_detailData := Some item,
        ts_detailTabs := map (\<lambda>dt. if dt_id dt = dt_id existing
          then dt\<lparr>dt_id := newId, dt_item := item, dt_isPinned := isPinned \<or> dt_isPinned dt, dt_isRecreated := Some False\<rparr>
          else dt) (ts_detailTabs st)\<rparr>"

definition place_detail :: "bool \<Rightarrow> detail_tab \<Rightarrow> detail_tab list \<Rightarrow> detail_tab list" where
  "place_detail isPinned newTab tabs =
     (if isPinned then filter (\<lambda>t. \<not> dt_isPinned t) tabs @ [newTab] @ filter dt_isPinned tabs
      else newTab # drop_first (\<lambda>dt. \<not> dt_isPinned dt \<and> dt_location dt = Some InDetail) tabs)"

definition open_detail_state :: "resource option \<Rightarrow> kube_object \<Rightarrow> string \<Rightarrow> bool \<Rightarrow> tab_state \<Rightarrow> tab_state \<Rightarrow> tab_state" where
  "open_detail_state r item cluster isPinned found st =
     (case find (detail_matches item r cluster isPinned) (ts_detailTabs found) of
        Some existing \<Rightarrow>
          reuse_detail item isPinned existing
            (if isPinned \<and> \<not> dt_isPinned existing then pinned_id cluster item r else dt_id existing) st
      | None \<Rightarrow>
          (let newTab = \<lparr>dt_id = (if isPinned then pinned_id cluster item r else preview_id cluster),
                 dt_title = object_title (str_or (obj_name item) ''Unknown'') (obj_namespace item),
                 dt_resource = r, dt_item = item, dt_cluster = cluster, dt_isPinned = isPinned,
                 dt_location = Some InDetail, dt_paneId = None, dt_isDeleted = None, dt_isRecreated = None\<rparr>
           in st\<lparr>ts_detailTabs := place_detail isPinned newTab (ts_detailTabs found),
                 ts_activeDetailTab := Some (dt_id newTab), ts_isDetailsPanelCollapsed := False,
                 ts_detailData := Some item\<rparr>))"

definition openDetailTab :: "list_env \<Rightarrow> resource option \<Rightarrow> kube_object \<Rightarrow> string \<Rightarrow> bool \<Rightarrow> ws \<Rightarrow> ws" where
  "openDetailTab env r item cluster isPinned w =
     (let w1 = (if ws_currentTab w \<noteq> Some cluster then openTab env cluster True w else w) in
      case find_tab (Some cluster) w of
        None \<Rightarrow> w1
      | Some t \<Rightarrow> map_tab (Some cluster) (open_detail_state r item cluster isPinned (tab_st t)) w1)"

text \<open>Closing; \<open>None\<close> is the \<open>TypeError\<close> of a dangling active tab, before anything is written.\<close>

definition close_detail_state :: "string \<Rightarrow> tab_state \<Rightarrow> tab_state option" where
  "close_detail_state tabId st =
     (let tabs = ts_detailTabs st;
          newTabs = filter (\<lambda>dt. dt_id dt \<noteq> tabId) tabs;
          perPane = nullish (ts_activeByPane st) [];
          panes = (case find (\<lambda>dt. dt_id dt = tabId) tabs of
              None \<Rightarrow> perPane
            | Some c \<Rightarrow>
                if dt_location c = Some InCenter \<and> truthy_str (dt_paneId c)
                   \<and> jm_get perPane (the (dt_paneId c)) = Some (Some tabId)
                then jm_set perPane (the (dt_paneId c))
                       (map_option dt_id (find (\<lambda>dt. dt_location dt = Some InCenter \<and> dt_paneId dt = dt_paneId c) newTabs))
                else perPane)
      in case close_active dt_id tabs (ts_activeDetailTab st) tabId of
           None \<Rightarrow> None
         | Some active \<Rightarrow>
             Some (st\<lparr>ts_detailTabs := newTabs, ts_activeDetailTab := active, ts_activeByPane := Some panes,
               ts_detailData := (if truthy_str active
                 then map_option dt_item (find (\<lambda>dt. Some (dt_id dt) = active) newTabs) else None)\<rparr>))"

definition closeDetailTab :: "string \<Rightarrow> ws \<Rightarrow> ws" where
  "closeDetailTab tabId w =
     (case find_tab (ws_currentTab w) w of
        None \<Rightarrow> w
      | Some t \<Rightarrow>
          (case close_detail_state tabId (tab_st t) of
             None \<Rightarrow> w
           | Some new \<Rightarrow> map_tab (ws_currentTab w) (\<lambda>st. st\<lparr>ts_detailTabs := ts_detailTabs new,
               ts_activeDetailTab := ts_activeDetailTab new, ts_activeByPane := ts_activeByPane new,
               ts_detailData := ts_detailData new\<rparr>) w))"

definition setActiveDetailTab :: "string \<Rightarrow> ws \<Rightarrow> ws" where
  "setActiveDetailTab tabId w =
     (case find_tab (ws_currentTab w) w of
        None \<Rightarrow> w
      | Some t \<Rightarrow>
          (case find (\<lambda>dt. dt_id dt = tabId) (ts_detailTabs (tab_st t)) of
             None \<Rightarrow> w
           | Some dt \<Rightarrow> map_tab (ws_currentTab w) (\<lambda>st. st\<lparr>ts_activeDetailTab := Some tabId, ts_detailData := Some (dt_item dt),
               ts_isDetailsPanelCollapsed := (if dt_location dt = Some InDetail then False else ts_isDetailsPanelCollapsed st)\<rparr>) w))"

definition pin_detail_state :: "string \<Rightarrow> string \<Rightarrow> tab_state \<Rightarrow> tab_state" where
  "pin_detail_state currentTab tabId st =
     (case find (\<lambda>dt. dt_id dt = tabId) (ts_detailTabs st) of
        None \<Rightarrow> st
      | Some tabToPin \<Rightarrow>
          if dt_isPinned tabToPin then st
          else let newId = pinned_id currentTab (dt_item tabToPin) (dt_resource tabToPin);
                   others = filter (\<lambda>dt. dt_id dt \<noteq> tabId) (ts_detailTabs st)
               in st\<lparr>ts_activeDetailTab := (if ts_activeDetailTab st = Some tabId then Some newId else ts_activeDetailTab st),
                     ts_detailTabs := filter (\<lambda>dt. \<not> dt_isPinned dt) others
                       @ [tabToPin\<lparr>dt_id := newId, dt_isPinned := True\<rparr>] @ filter dt_isPinned others\<rparr>)"

definition pinDetailTab :: "string \<Rightarrow> ws \<Rightarrow> ws" where
  "pinDetailTab tabId w =
     (case ws_currentTab w of None \<Rightarrow> w | Some c \<Rightarrow> map_tab (Some c) (pin_detail_state c tabId) w)"

definition reorderDetailTabs :: "nat \<Rightarrow> nat \<Rightarrow> ws \<Rightarrow> ws" where
  "reorderDetailTabs from to w =
     (case find_tab (ws_currentTab w) w of
        None \<Rightarrow> w
      | Some t \<Rightarrow>
          let newTabs = move_to from to (ts_detailTabs (tab_st t)) in
          map_tab (ws_currentTab w) (\<lambda>st. st\<lparr>ts_detailTabs := newTabs\<rparr>) w)"

definition move_detail_state :: "string \<Rightarrow> tab_place \<Rightarrow> string option \<Rightarrow> tab_state \<Rightarrow> tab_state" where
  "move_detail_state tabId location targetPaneId st =
     (case find (\<lambda>dt. dt_id dt = tabId) (ts_detailTabs st) of
        None \<Rightarrow> st
      | Some dt \<Rightarrow>
          (let perPane = nullish (ts_activeByPane st) [];
               left = (if dt_location dt = Some InCenter \<and> truthy_str (dt_paneId dt)
                          \<and> jm_get perPane (the (dt_paneId dt)) = Some (Some tabId)
                       then jm_delete perPane (the (dt_paneId dt)) else perPane);
               wanted = str_or targetPaneId (str_or (ts_focusedCenterPaneId st) ''root'');
               target = (case ts_centerPaneLayout st of
                   Some l \<Rightarrow> if wanted \<noteq> ''root'' \<and> \<not> hasPane l wanted then ''root'' else wanted
                 | None \<Rightarrow> wanted);
               newPane = (if location = InCenter then Some target else None)
           in st\<lparr>ts_detailTabs := map (\<lambda>d. if dt_id d = tabId then d\<lparr>dt_location := Some location, dt_paneId := newPane\<rparr> else d)
                   (ts_detailTabs st),
                 ts_activeByPane := Some (if location = InCenter then jm_set left target (Some tabId) else left)\<rparr>))"

definition moveDetailTab :: "string \<Rightarrow> tab_place \<Rightarrow> string option \<Rightarrow> ws \<Rightarrow> ws" where
  "moveDetailTab tabId location targetPaneId w =
     (case find_tab (ws_currentTab w) w of
        None \<Rightarrow> w
      | Some t \<Rightarrow> let new = move_detail_state tabId location targetPaneId (tab_st t) in
          map_tab (ws_currentTab w) (\<lambda>st. st\<lparr>ts_detailTabs := ts_detailTabs new, ts_activeByPane := ts_activeByPane new\<rparr>) w)"

end
