(* ===== verification/RealtimeRuntime.thy ===== *)
theory RealtimeRuntime
  imports ClusterTabs
begin

text \<open>
  The live lists of the store, \<open>frontend/src/store/realtimeSlice.ts\<close>: one runtime per
  subscribed topic, the one on screen, up to six parked ones kept open for the tabs the user
  switched away from, the batching of events on timers and animation frames, the health of
  each topic, and the resubscribe backoff.

  Runtimes are shared mutable objects (the window, the parked map and every timer's closure
  hold them), so the world has a heap from references to runtimes. A timer is an entry of
  \<open>wd_timers\<close> until it is cleared or fires; firing is a step that takes the entry away first.
  Calls to the API and the window are logged in \<open>wd_calls\<close>. What a step reads outside is its
  argument \<open>e\<close>: the clocks, whether the window is hidden, whether the socket is ready, and
  the topics the API holds a handler for. \<open>en_copy\<close> says that a value the code compares by
  reference, and that is equal, is another object. A selected node of type \<open>resource\<close> carries
  the resource it lists; one without it selects no list here. \<open>cacheItems\<close> is called right
  after the reducer: the steps between do not touch the cache.
\<close>

section \<open>Runtimes, timers and the world\<close>

record topic_failure =
  tf_error :: string
  tf_errorCode :: "string option"
  tf_since :: int

record topic_health =
  th_live :: bool
  th_failing :: "topic_failure option"
  th_lastSyncAt :: "int option"

datatype timer_kind = TimeoutKind | RafKind

record runtime =
  rn_topic :: string
  rn_cluster :: string
  rn_resource :: resource
  rn_sort :: "string \<times> sort_order"
  rn_session :: "kube_object session"
  rn_pending :: "kube_object rt_event list"
  rn_batchTimer :: "nat option"
  rn_batchTimerKind :: "timer_kind option"
  rn_frameFallback :: "nat option"
  rn_items :: "kube_object list"
  rn_synced :: bool
  rn_listTotal :: "(int \<times> int) option"
  rn_startedAt :: int
  rn_lastInteraction :: "int option"
  rn_deferredSince :: int
  rn_failing :: "topic_failure option"
  rn_loadTimer :: "nat option"
  rn_resubscribeTimer :: "nat option"
  rn_resubscribeAttempt :: nat
  rn_incompleteAttempt :: nat

datatype timer =
    FlushTimer nat
  | WindowTimer nat
  | FrameTimer nat
  | FallbackTimer nat
  | LoadTimer nat
  | ResubscribeTimer nat
  | BurstTimer bool
  | RetryTimer bool

datatype call =
    Subscribe string resource "string \<times> sort_order" nat
  | Unsubscribe string nat
  | Listen nat
  | StopListening nat
  | NotifyRollout string
  | StopRolloutPolling
  | DetailChanged string string

record world =
  wd_ws :: ws
  wd_health :: "(string, topic_health) jsmap"
  wd_heap :: "nat \<Rightarrow> runtime"
  wd_active :: "nat option"
  wd_parked :: "(string, nat) jsmap"
  wd_cache :: "(string, kube_object list) jsmap"
  wd_timers :: "(nat, timer \<times> int) jsmap"
  wd_next :: nat
  wd_burst :: "nat option"
  wd_retry :: "nat option"
  wd_calls :: "call list"

record rt_env =
  en_now :: int
  en_perf :: int
  en_hidden :: bool
  en_ready :: bool
  en_handlers :: "string \<Rightarrow> bool"
  en_copy :: bool

definition MAX_PARKED_TOPICS :: nat where "MAX_PARKED_TOPICS = 6"
definition PARKED_FLUSH_MS :: int where "PARKED_FLUSH_MS = 500"
definition FRAME_FALLBACK_MS :: int where "FRAME_FALLBACK_MS = 500"
definition MAX_CACHED_TOPICS :: nat where "MAX_CACHED_TOPICS = 12"
definition LOAD_TIMEOUT_MS :: int where "LOAD_TIMEOUT_MS = 30000"
definition LOAD_TIMEOUT_MESSAGE :: string where
  "LOAD_TIMEOUT_MESSAGE = ''Loading is taking longer than expected. The resource may not be available in this cluster.''"
definition LIST_FAILED_MESSAGE :: string where "LIST_FAILED_MESSAGE = ''The list could not be read from the cluster.''"
definition RESUBSCRIBE_BASE_MS :: int where "RESUBSCRIBE_BASE_MS = 1000"
definition RESUBSCRIBE_MAX_MS :: int where "RESUBSCRIBE_MAX_MS = 30000"
definition RESUBSCRIBE_CODES :: "string list" where "RESUBSCRIBE_CODES = [''desynced'', ''watch_stopped'']"
definition MAX_INCOMPLETE_RESUBSCRIBES :: nat where "MAX_INCOMPLETE_RESUBSCRIBES = 5"
definition INCOMPLETE_LIST_MESSAGE :: string where "INCOMPLETE_LIST_MESSAGE = ''Some rows of the list did not arrive.''"
definition FLUSH_MS :: int where "FLUSH_MS = 120"

definition rn_stopped :: "runtime \<Rightarrow> bool" where
  "rn_stopped rt = rs_stopped (rn_session rt)"

definition rt_at :: "nat \<Rightarrow> world \<Rightarrow> runtime" where
  "rt_at i w = wd_heap w i"

definition upd_rt :: "nat \<Rightarrow> (runtime \<Rightarrow> runtime) \<Rightarrow> world \<Rightarrow> world" where
  "upd_rt i f w = w\<lparr>wd_heap := (wd_heap w)(i := f (wd_heap w i))\<rparr>"

definition on_ws :: "(ws \<Rightarrow> ws) \<Rightarrow> world \<Rightarrow> world" where
  "on_ws f w = w\<lparr>wd_ws := f (wd_ws w)\<rparr>"

definition called :: "call list \<Rightarrow> world \<Rightarrow> world" where
  "called cs w = w\<lparr>wd_calls := wd_calls w @ cs\<rparr>"

text \<open>\<open>setTimeout\<close> and \<open>requestAnimationFrame\<close> give a fresh handle; clearing forgets the timer.\<close>

definition set_timer :: "timer \<Rightarrow> int \<Rightarrow> world \<Rightarrow> nat \<times> world" where
  "set_timer t ms w = (wd_next w, w\<lparr>wd_timers := jm_set (wd_timers w) (wd_next w) (t, ms), wd_next := Suc (wd_next w)\<rparr>)"

definition clear_handle :: "nat option \<Rightarrow> world \<Rightarrow> world" where
  "clear_handle h w = (case h of None \<Rightarrow> w | Some k \<Rightarrow> w\<lparr>wd_timers := jm_delete (wd_timers w) k\<rparr>)"

section \<open>Small helpers\<close>

definition flushWindow :: "runtime \<Rightarrow> int" where
  "flushWindow rt =
     (if pendingListing (rn_session rt) \<noteq> None then min 1000 (max FLUSH_MS (int (length (rn_items rt)) div 50)) else FLUSH_MS)"

definition listSyncOf :: "runtime \<Rightarrow> list_sync option" where
  "listSyncOf rt =
     (case pendingListing (rn_session rt) of
        None \<Rightarrow> None
      | Some (epoch, loaded) \<Rightarrow>
          Some \<lparr>ls_loaded = int loaded,
            ls_total = (case rn_listTotal rt of Some (ep, ltotal) \<Rightarrow> if ep = epoch then Some ltotal else None | None \<Rightarrow> None)\<rparr>)"

definition liveItemsFor :: "world \<Rightarrow> string \<Rightarrow> kube_object list option" where
  "liveItemsFor w topic =
     (let live = (\<lambda>i. rn_synced (rt_at i w) \<and> \<not> rn_stopped (rt_at i w)) in
      case wd_active w of
        Some i \<Rightarrow> if rn_topic (rt_at i w) = topic \<and> live i then Some (rn_items (rt_at i w))
                  else (case jm_get (wd_parked w) topic of
                          Some p \<Rightarrow> if live p then Some (rn_items (rt_at p w)) else None | None \<Rightarrow> None)
      | None \<Rightarrow> (case jm_get (wd_parked w) topic of
                   Some p \<Rightarrow> if live p then Some (rn_items (rt_at p w)) else None | None \<Rightarrow> None))"

definition cacheItems :: "string \<Rightarrow> kube_object list \<Rightarrow> world \<Rightarrow> world" where
  "cacheItems topic items w = w\<lparr>wd_cache := cache_store MAX_CACHED_TOPICS (wd_cache w) topic items\<rparr>"

text \<open>The rows of the last twelve topics the user looked at: the contract of \<open>bounded_cache\<close>.\<close>

interpretation items_cache: bounded_cache jm_get jm_set jm_delete jm_keys jm_wf MAX_CACHED_TOPICS "cache_store MAX_CACHED_TOPICS"
  by (rule cache_store_contract) (simp add: MAX_CACHED_TOPICS_def)

definition clearTimer :: "nat \<Rightarrow> world \<Rightarrow> world" where
  "clearTimer i w =
     (let w1 = upd_rt i (\<lambda>r. r\<lparr>rn_frameFallback := None\<rparr>) (clear_handle (rn_frameFallback (rt_at i w)) w) in
      case rn_batchTimer (rt_at i w) of
        None \<Rightarrow> w1
      | Some h \<Rightarrow> upd_rt i (\<lambda>r. r\<lparr>rn_batchTimer := None, rn_batchTimerKind := None\<rparr>) (clear_handle (Some h) w1))"

definition closeRuntime :: "nat \<Rightarrow> world \<Rightarrow> world" where
  "closeRuntime i w =
     (let w1 = called [Unsubscribe (rn_topic (rt_at i w)) i]
                 (upd_rt i (\<lambda>r. r\<lparr>rn_session := (rn_session r)\<lparr>rs_stopped := True\<rparr>\<rparr>) w);
          w2 = clearTimer i w1;
          w3 = clear_handle (rn_resubscribeTimer (rt_at i w2)) (clear_handle (rn_loadTimer (rt_at i w2)) w2)
      in called [StopListening i]
           (upd_rt i (\<lambda>r. r\<lparr>rn_loadTimer := None, rn_resubscribeTimer := None, rn_pending := []\<rparr>) w3))"

definition subscribe :: "nat \<Rightarrow> world \<Rightarrow> world" where
  "subscribe i w = called [Subscribe (rn_cluster (rt_at i w)) (rn_resource (rt_at i w)) (rn_sort (rt_at i w)) i] w"

definition PAGE_KINDS :: "string list" where
  "PAGE_KINDS =
   [''ClusterSettings'', ''ClusterDashboard'', ''FinOpsDashboard'', ''RightsizingDashboard'', ''CertificatesDashboard'',
    ''TopologyView'', ''NetworkPage'', ''HelmReleases'', ''IncidentTimeline'', ''HealthIssues'', ''HealthAudit'',
    ''ChangesFeed'', ''ArgoApplicationsOverview'', ''ResourceCompare'', ''UpgradeReadiness'', ''AccessExplorer'',
    ''GitOpsOverview'', ''CNPGOverview'', ''ImageInspector'']"

definition isLiveList :: "resource \<Rightarrow> bool" where
  "isLiveList r = (truthy_str (rr_version r) \<and> truthy_str (rr_name r)
     \<and> (case rr_kind r of None \<Rightarrow> True | Some k \<Rightarrow> k \<notin> set PAGE_KINDS))"

definition lower :: "string option \<Rightarrow> string" where
  "lower s = to_lower (str_or s [])"

definition object_group :: "resource option \<Rightarrow> kube_object \<Rightarrow> string option" where
  "object_group r obj =
     (case res_field rr_group r of
        Some g \<Rightarrow> Some g
      | None \<Rightarrow> if truthy_str (ko_apiVersion obj)
                then Some (if str_includes (the (ko_apiVersion obj)) ''/'' then hd (split_char CHR ''/'' (the (ko_apiVersion obj))) else [])
                else None)"

definition isListedType :: "resource \<Rightarrow> resource option \<Rightarrow> kube_object \<Rightarrow> bool" where
  "isListedType listed r obj =
     (let kind = lower (rr_kind listed); plural = lower (rr_name listed) in
      if (case object_group r obj of Some g \<Rightarrow> g \<noteq> str_or (rr_group listed) [] | None \<Rightarrow> False) then False
      else if truthy_str (ko_kind obj) then lower (ko_kind obj) = kind \<or> lower (ko_kind obj) = plural
      else lower (res_field rr_kind r) = kind \<or> lower (res_field rr_kind r) = plural
           \<or> lower (res_field rr_name r) = plural)"

section \<open>Topic health\<close>

definition writeHealth :: "string \<Rightarrow> topic_health \<Rightarrow> world \<Rightarrow> world" where
  "writeHealth topic nxt w =
     (if jm_get (wd_health w) topic = Some nxt then w else w\<lparr>wd_health := jm_set (wd_health w) topic nxt\<rparr>)"

definition prev_sync :: "string \<Rightarrow> world \<Rightarrow> int option" where
  "prev_sync topic w = (case jm_get (wd_health w) topic of None \<Rightarrow> None | Some h \<Rightarrow> th_lastSyncAt h)"

definition patchShownList :: "nat \<Rightarrow> (tab_state \<Rightarrow> tab_state) \<Rightarrow> world \<Rightarrow> world" where
  "patchShownList i patch w =
     (if wd_active w \<noteq> Some i \<or> ws_currentTab (wd_ws w) \<noteq> Some (rn_cluster (rt_at i w)) then w
      else case getCurrentTabState (wd_ws w) of
             None \<Rightarrow> w
           | Some st \<Rightarrow>
               (case ts_selectedNode st of
                  None \<Rightarrow> w
                | Some node \<Rightarrow>
                    if ni_type (tn_info node) = ''resource'' \<and> ni_data (tn_info node) \<noteq> None
                       \<and> itemsTopic (rn_cluster (rt_at i w)) (the (ni_data (tn_info node))) = rn_topic (rt_at i w)
                       \<and> patch st \<noteq> st
                    then on_ws (updateCurrentTabState (plain_update patch)) w else w))"

definition markLive :: "rt_env \<Rightarrow> nat \<Rightarrow> bool \<Rightarrow> int option \<Rightarrow> world \<Rightarrow> world" where
  "markLive e i complete lastSyncAt w =
     (let prev = prev_sync (rn_topic (rt_at i w)) w;
          w1 = (if complete
                then upd_rt i (\<lambda>r. r\<lparr>rn_failing := None, rn_resubscribeAttempt := 0, rn_incompleteAttempt := 0, rn_resubscribeTimer := None\<rparr>)
                       (clear_handle (rn_resubscribeTimer (rt_at i w)) w)
                else w)
      in writeHealth (rn_topic (rt_at i w))
           \<lparr>th_live = True, th_failing = rn_failing (rt_at i w1),
            th_lastSyncAt = (if complete then Some (num_or lastSyncAt (en_now e)) else prev)\<rparr> w1)"

definition resubscribe_delay :: "nat \<Rightarrow> int" where
  "resubscribe_delay n = min RESUBSCRIBE_MAX_MS (RESUBSCRIBE_BASE_MS * 2 ^ n)"

definition scheduleResubscribe :: "nat \<Rightarrow> world \<Rightarrow> world" where
  "scheduleResubscribe i w =
     (let rt = rt_at i w in
      if rn_resubscribeTimer rt \<noteq> None \<or> rn_stopped rt then w
      else let (h, w1) = set_timer (ResubscribeTimer i) (resubscribe_delay (rn_resubscribeAttempt rt)) w in
           upd_rt i (\<lambda>r. r\<lparr>rn_resubscribeAttempt := Suc (rn_resubscribeAttempt r), rn_resubscribeTimer := Some h\<rparr>) w1)"

definition resubscribe_fired :: "nat \<Rightarrow> world \<Rightarrow> world" where
  "resubscribe_fired i w =
     (let w1 = upd_rt i (\<lambda>r. r\<lparr>rn_resubscribeTimer := None\<rparr>) w; rt = rt_at i w1 in
      if rn_stopped rt then w1
      else subscribe i (if map_option tf_errorCode (rn_failing rt) = Some (Some ''watch_stopped'')
                        then called [Unsubscribe (rn_topic rt) i] w1 else w1))"

definition failing_since :: "runtime \<Rightarrow> topic_failure \<Rightarrow> int" where
  "failing_since rt failure =
     (case rn_failing rt of
        Some f \<Rightarrow> if tf_error f = tf_error failure \<and> tf_errorCode f = tf_errorCode failure then tf_since f else tf_since failure
      | None \<Rightarrow> tf_since failure)"

definition markFailing :: "nat \<Rightarrow> topic_failure \<Rightarrow> int option \<Rightarrow> world \<Rightarrow> world" where
  "markFailing i failure lastSyncAt w =
     (let rt = rt_at i w;
          prev = prev_sync (rn_topic rt) w;
          f = failure\<lparr>tf_since := failing_since rt failure\<rparr>;
          w1 = upd_rt i (\<lambda>r. r\<lparr>rn_failing := Some f, rn_loadTimer := None\<rparr>) (clear_handle (rn_loadTimer rt) w);
          w2 = writeHealth (rn_topic rt)
                 \<lparr>th_live = False, th_failing = Some f, th_lastSyncAt = (if truthy_num lastSyncAt then lastSyncAt else prev)\<rparr> w1
      in if (case tf_errorCode failure of None \<Rightarrow> False | Some c \<Rightarrow> c \<in> set RESUBSCRIBE_CODES)
         then scheduleResubscribe i w2 else w2)"

definition markIncomplete :: "rt_env \<Rightarrow> nat \<Rightarrow> world \<Rightarrow> world" where
  "markIncomplete e i w =
     (let w1 = upd_rt i (\<lambda>r. r\<lparr>rn_synced := False\<rparr>) w; rt = rt_at i w1 in
      if rn_incompleteAttempt rt \<ge> MAX_INCOMPLETE_RESUBSCRIBES
      then (if map_option tf_errorCode (rn_failing rt) \<noteq> Some (Some ''incomplete'')
            then markFailing i \<lparr>tf_error = INCOMPLETE_LIST_MESSAGE, tf_errorCode = Some ''incomplete'', tf_since = en_now e\<rparr> None w1
            else w1)
      else let w2 = upd_rt i (\<lambda>r. r\<lparr>rn_incompleteAttempt := Suc (rn_incompleteAttempt r)\<rparr>) w1 in
           scheduleResubscribe i
             (writeHealth (rn_topic rt)
                \<lparr>th_live = False, th_failing = rn_failing rt, th_lastSyncAt = prev_sync (rn_topic rt) w\<rparr> w2))"

definition armLoadTimer :: "nat \<Rightarrow> int \<Rightarrow> world \<Rightarrow> world" where
  "armLoadTimer i ms w =
     (let (h, w1) = set_timer (LoadTimer i) ms (clear_handle (rn_loadTimer (rt_at i w)) w) in
      upd_rt i (\<lambda>r. r\<lparr>rn_loadTimer := Some h\<rparr>) w1)"

definition load_timeout_screen :: "ws \<Rightarrow> ws" where
  "load_timeout_screen w =
     (case getCurrentTabState w of
        None \<Rightarrow> w
      | Some st \<Rightarrow>
          if ts_isLoadingListItems st = Some True \<and> ts_hasReceivedInitialListData st \<noteq> Some True
          then updateCurrentTabState (plain_update (\<lambda>s. s\<lparr>ts_isLoadingListItems := Some False,
                 ts_hasReceivedInitialListData := Some False, ts_loadError := Some LOAD_TIMEOUT_MESSAGE\<rparr>)) w
          else w)"

definition load_fired :: "rt_env \<Rightarrow> nat \<Rightarrow> world \<Rightarrow> world" where
  "load_fired e i w =
     (let w1 = upd_rt i (\<lambda>r. r\<lparr>rn_loadTimer := None\<rparr>) w in
      if rn_stopped (rt_at i w1) then w1
      else let w2 = (if wd_active w1 = Some i then on_ws load_timeout_screen w1 else w1);
               rt = rt_at i w2
           in if \<not> rn_synced rt \<and> rn_failing rt = None
              then markFailing i \<lparr>tf_error = LOAD_TIMEOUT_MESSAGE, tf_errorCode = Some ''timeout'', tf_since = en_now e\<rparr> None w2
              else w2)"

end
