(* ===== verification/RealtimeBatches.thy ===== *)
theory RealtimeBatches
  imports RealtimeRuntime
begin

text \<open>
  \<open>frontend/src/store/realtimeSlice.ts\<close>, continued: what a batch of events does. \<open>processBatch\<close>
  applies the pending events of a runtime through the reducer, classifies what they say of
  the list (\<open>outcomeOf\<close>), and writes the result to the list on screen, to the list tabs of
  split panes that show it, and to the detail tabs of the objects it changed.
\<close>

section \<open>What the backend reports\<close>

record status_event =
  se_state :: string
  se_error :: "string option"
  se_errorCode :: "string option"
  se_failingSince :: "int option"
  se_lastSyncAt :: "int option"

definition positive :: "int option \<Rightarrow> int option" where
  "positive n = (case n of None \<Rightarrow> None | Some k \<Rightarrow> if k > 0 then Some k else None)"

definition given :: "string option \<Rightarrow> string option" where
  "given s = (if truthy_str s then s else None)"

definition onTopicStatus :: "rt_env \<Rightarrow> nat \<Rightarrow> status_event \<Rightarrow> world \<Rightarrow> world" where
  "onTopicStatus e i event w =
     (let lastSyncAt = positive (se_lastSyncAt event) in
      if se_state event = ''failing''
      then let failure = \<lparr>tf_error = str_or (se_error event) LIST_FAILED_MESSAGE, tf_errorCode = given (se_errorCode event),
                          tf_since = nullish (positive (se_failingSince event)) (en_now e)\<rparr>
           in patchShownList i (\<lambda>s. s\<lparr>ts_isLoadingListItems := Some False, ts_loadError := Some (tf_error failure)\<rparr>)
                (markFailing i failure lastSyncAt w)
      else if se_state event = ''ok''
      then let prev = prev_sync (rn_topic (rt_at i w)) w;
               w1 = upd_rt i (\<lambda>r. r\<lparr>rn_failing := None, rn_resubscribeAttempt := 0\<rparr>) w;
               synced = rn_synced (rt_at i w)
           in patchShownList i
                (\<lambda>s. if synced then s\<lparr>ts_isLoadingListItems := Some False, ts_hasReceivedInitialListData := Some True, ts_loadError := None\<rparr>
                     else s\<lparr>ts_loadError := None\<rparr>)
                (writeHealth (rn_topic (rt_at i w))
                   \<lparr>th_live = synced, th_failing = None, th_lastSyncAt = (if lastSyncAt \<noteq> None then lastSyncAt else prev)\<rparr> w1)
      else w)"

datatype outcome = OutOk | OutStreamed | OutFailed | OutIncomplete

definition last_sync_at :: "kube_object rt_event list \<Rightarrow> int option" where
  "last_sync_at events =
     foldl (\<lambda>acc ev. if ev_action ev = Sync \<and> \<not> ev_failed ev \<and> truthy_num (ev_lastSyncAt ev) then ev_lastSyncAt ev else acc)
       None events"

definition outcomeOf ::
  "rt_env \<Rightarrow> nat \<Rightarrow> kube_object apply_result \<Rightarrow> kube_object rt_event list \<Rightarrow> world \<Rightarrow> outcome option \<times> world" where
  "outcomeOf e i result events w =
     (case ar_failure result of
        Some f \<Rightarrow>
          (Some OutFailed,
           markFailing i \<lparr>tf_error = str_or (sf_error f) LIST_FAILED_MESSAGE, tf_errorCode = given (sf_errorCode f), tf_since = en_now e\<rparr>
             (if truthy_num (sf_lastSyncAt f) then sf_lastSyncAt f else None) w)
      | None \<Rightarrow>
          if ar_incomplete result then (Some OutIncomplete, markIncomplete e i w)
          else if ar_syncSeen result
          then (Some OutOk, markLive e i True (last_sync_at events) (upd_rt i (\<lambda>r. r\<lparr>rn_synced := True\<rparr>) w))
          else if ar_changed result \<and> list_ex (\<lambda>ev. truthy_num (ev_epoch ev) \<and> ev_action ev \<noteq> Sync) events
          then (Some OutStreamed, markLive e i False None (upd_rt i (\<lambda>r. r\<lparr>rn_synced := True\<rparr>) w))
          else (None, w))"

section \<open>Detail tabs of objects a listing no longer has\<close>

text \<open>\<open>findItem\<close> on the runtime's session, which it may reindex.\<close>

definition find_in :: "nat \<Rightarrow> kube_object list \<Rightarrow> string \<Rightarrow> world \<Rightarrow> kube_object option \<times> world" where
  "find_in i items key w =
     (let (s, found) = findItem (rn_session (rt_at i w)) items key in
      (found, upd_rt i (\<lambda>r. r\<lparr>rn_session := s\<rparr>) w))"

fun gone_objects ::
  "nat \<Rightarrow> kube_object list \<Rightarrow> kube_object list \<Rightarrow> (string, kube_object) jsmap \<Rightarrow> world \<Rightarrow> (string, kube_object) jsmap \<times> world" where
  "gone_objects i items [] gone w = (gone, w)"
| "gone_objects i items (obj # objs) gone w =
     (let (found, w1) = find_in i items (itemKey obj) w in
      gone_objects i items objs (if found = None then jm_set gone (itemKey obj) obj else gone) w1)"

definition obj_uid :: "kube_object \<Rightarrow> string option" where
  "obj_uid o' = opt_or (ko_metaUid o') (it_uid o')"

definition object_key :: "kube_object \<Rightarrow> string" where
  "object_key o' = str_or (obj_namespace o') [] @ ''/'' @ in_template (obj_name o')"

definition listing_removed :: "string \<Rightarrow> resource \<Rightarrow> (string, kube_object) jsmap \<Rightarrow> detail_tab \<Rightarrow> bool" where
  "listing_removed cluster listed gone dt =
     (dt_isDeleted dt \<noteq> Some True \<and> \<not> (dt_cluster dt \<noteq> [] \<and> dt_cluster dt \<noteq> cluster)
      \<and> (case jm_get gone (object_key (dt_item dt)) of
           None \<Rightarrow> False
         | Some obj \<Rightarrow> isListedType listed (dt_resource dt) (dt_item dt)
             \<and> \<not> (truthy_str (obj_uid (dt_item dt)) \<and> truthy_str (it_uid obj) \<and> obj_uid (dt_item dt) \<noteq> it_uid obj)))"

definition indexed_tab :: "string \<Rightarrow> ws \<Rightarrow> tab option" where
  "indexed_tab cluster w =
     (case jm_get (ws_tabIndexMap w) cluster of None \<Rightarrow> None | Some idx \<Rightarrow> nth_opt (ws_activeTabs w) idx)"

definition markListingRemovals :: "nat \<Rightarrow> kube_object apply_result \<Rightarrow> world \<Rightarrow> world" where
  "markListingRemovals i result w =
     (let rt = rt_at i w in
      if ar_removed result = [] then w
      else case indexed_tab (rn_cluster rt) (wd_ws w) of
             None \<Rightarrow> w
           | Some t \<Rightarrow>
               if ts_detailTabs (tab_st t) = [] then w
               else let (gone, w1) = gone_objects i (ar_items result) (ar_removed result) [] w in
                    if gone = [] \<or> \<not> list_ex (listing_removed (rn_cluster rt) (rn_resource rt) gone) (ts_detailTabs (tab_st t)) then w1
                    else let tabs = map (\<lambda>dt. if listing_removed (rn_cluster rt) (rn_resource rt) gone dt
                                              then dt\<lparr>dt_isDeleted := Some True\<rparr> else dt) (ts_detailTabs (tab_st t))
                         in on_ws (map_tab (Some (rn_cluster rt)) (\<lambda>st. st\<lparr>ts_detailTabs := tabs\<rparr>)) w1)"

section \<open>Writing lists\<close>

definition set_indexed :: "string \<Rightarrow> (tab_state \<Rightarrow> tab_state) \<Rightarrow> ws \<Rightarrow> ws" where
  "set_indexed cluster f w =
     (case jm_get (ws_tabIndexMap w) cluster of
        None \<Rightarrow> w
      | Some idx \<Rightarrow>
          (case nth_opt (ws_activeTabs w) idx of
             None \<Rightarrow> w
           | Some t \<Rightarrow> w\<lparr>ws_activeTabs := (ws_activeTabs w)[idx := t\<lparr>tab_st := f (tab_st t)\<rparr>]\<rparr>))"

definition committed :: "resource \<Rightarrow> kube_object list \<Rightarrow> (tab_state \<Rightarrow> tab_state) \<Rightarrow> kube_object option \<Rightarrow> tab_state \<Rightarrow> tab_state" where
  "committed resNow items patch selectedItem st =
     (patch st)\<lparr>ts_listItems := items, ts_selectedItem := selectedItem,
       ts_resourceListTabs := map (\<lambda>r2.
         if rr_kind (lt_resource r2) = rr_kind resNow \<and> rr_group (lt_resource r2) = rr_group resNow
            \<and> rr_version (lt_resource r2) = rr_version resNow
         then r2\<lparr>lt_items := items,
                 lt_selectedItem := (if Some (lt_id r2) = ts_activeResourceListTab st then selectedItem else lt_selectedItem r2)\<rparr>
         else r2) (ts_resourceListTabs st)\<rparr>"

definition commitList ::
  "resource \<Rightarrow> kube_object list \<Rightarrow> (tab_state \<Rightarrow> tab_state) \<Rightarrow> kube_object option \<Rightarrow> world \<Rightarrow> world" where
  "commitList resNow items patch selectedItem w =
     on_ws (set_indexed (str_or (ws_currentTab (wd_ws w)) []) (committed resNow items patch selectedItem)) w"

definition paneTabsShowing :: "nat \<Rightarrow> bool \<Rightarrow> world \<Rightarrow> string list option" where
  "paneTabsShowing i anyCluster w =
     (let rt = rt_at i w in
      if \<not> anyCluster \<and> ws_currentTab (wd_ws w) \<noteq> Some (rn_cluster rt) then None
      else case indexed_tab (rn_cluster rt) (wd_ws w) of
             None \<Rightarrow> None
           | Some t \<Rightarrow>
               (let shown = jm_values (nullish (ts_activeByPane (tab_st t)) []) in
                if length shown < 2 then None
                else let ids = js_set_of (map lt_id (filter (\<lambda>r2. Some (lt_id r2) \<in> set shown
                                 \<and> itemsTopic (lt_cluster r2) (lt_resource r2) = rn_topic rt) (ts_resourceListTabs (tab_st t))))
                     in if ids = [] then None else Some ids))"

definition writePaneTabs :: "nat \<Rightarrow> string list \<Rightarrow> world \<Rightarrow> world" where
  "writePaneTabs i paneTabs w =
     (let rt = rt_at i w in
      on_ws (set_indexed (rn_cluster rt) (\<lambda>st. st\<lparr>ts_resourceListTabs :=
        map (\<lambda>r2. if lt_id r2 \<in> set paneTabs then r2\<lparr>lt_items := rn_items rt\<rparr> else r2) (ts_resourceListTabs st)\<rparr>)) w)"

section \<open>Following objects in the detail tabs\<close>

definition event_key :: "kube_object \<Rightarrow> string" where
  "event_key o' = str_or (opt_or (it_namespace o') (ko_metaNamespace o')) [] @ ''/'' @ in_template (opt_or (it_name o') (ko_metaName o'))"

fun last_by_key :: "kube_object rt_event list \<Rightarrow> (string, kube_object rt_event) jsmap \<Rightarrow> (string, kube_object rt_event) jsmap" where
  "last_by_key [] m = m"
| "last_by_key (ev # evs) m =
     last_by_key evs (case ev_item ev of
        None \<Rightarrow> m
      | Some it \<Rightarrow> if ev_action ev = Sync then m else jm_set m (event_key it) ev)"

definition event_for :: "resource \<Rightarrow> (string, kube_object rt_event) jsmap \<Rightarrow> resource option \<Rightarrow> kube_object \<Rightarrow> kube_object rt_event option" where
  "event_for resNow m r obj =
     (case jm_get m (object_key obj) of
        None \<Rightarrow> None
      | Some ev \<Rightarrow> if isListedType resNow r obj then Some ev else None)"

definition with_conditions :: "kube_object rt_event \<Rightarrow> kube_object \<Rightarrow> kube_object" where
  "with_conditions ev obj =
     (let c = (case ev_item ev of None \<Rightarrow> None | Some it \<Rightarrow> ko_conditions it) in obj\<lparr>ko_statusConditions := c, ko_conditions := c\<rparr>)"

text \<open>The objects to refetch; a snapshot's replay of an object is not a change.\<close>

definition noted_change :: "kube_object rt_event \<Rightarrow> (string \<times> string \<times> string) list" where
  "noted_change ev =
     (if ev_action ev = Added \<and> truthy_num (ev_epoch ev) then []
      else case ev_item ev of
             None \<Rightarrow> []
           | Some it \<Rightarrow> [(event_key it, in_template (opt_or (it_name it) (ko_metaName it)),
                          str_or (opt_or (it_namespace it) (ko_metaNamespace it)) [])])"

definition followed_tab :: "resource \<Rightarrow> (string, kube_object rt_event) jsmap \<Rightarrow> detail_tab \<Rightarrow> detail_tab" where
  "followed_tab resNow m dt =
     (case event_for resNow m (dt_resource dt) (dt_item dt) of
        None \<Rightarrow> dt
      | Some ev \<Rightarrow>
          if ev_action ev = Deleted then dt\<lparr>dt_isDeleted := Some True\<rparr>
          else dt\<lparr>dt_isDeleted := Some False, dt_item := with_conditions ev (dt_item dt)\<rparr>)"

definition tab_needs_update :: "resource \<Rightarrow> (string, kube_object rt_event) jsmap \<Rightarrow> detail_tab \<Rightarrow> bool" where
  "tab_needs_update resNow m dt =
     (case event_for resNow m (dt_resource dt) (dt_item dt) of
        None \<Rightarrow> False
      | Some ev \<Rightarrow> ev_action ev \<noteq> Deleted \<or> dt_isDeleted dt \<noteq> Some True)"

definition tab_changes :: "resource \<Rightarrow> (string, kube_object rt_event) jsmap \<Rightarrow> resource option \<Rightarrow> kube_object \<Rightarrow> (string \<times> string \<times> string) list" where
  "tab_changes resNow m r obj =
     (case event_for resNow m r obj of None \<Rightarrow> [] | Some ev \<Rightarrow> if ev_action ev = Deleted then [] else noted_change ev)"

definition live_event :: "resource \<Rightarrow> (string, kube_object rt_event) jsmap \<Rightarrow> kube_object option \<Rightarrow> kube_object rt_event option" where
  "live_event resNow m detailData =
     (case detailData of
        None \<Rightarrow> None
      | Some d \<Rightarrow> (case event_for resNow m None d of
                     Some ev \<Rightarrow> if ev_action ev \<noteq> Deleted then Some ev else None
                   | None \<Rightarrow> None))"

definition updateDetails :: "resource \<Rightarrow> kube_object rt_event list \<Rightarrow> world \<Rightarrow> world" where
  "updateDetails resNow events w =
     (let ct = ws_currentTab (wd_ws w) in
      case find_tab ct (wd_ws w) of
        None \<Rightarrow> w
      | Some t \<Rightarrow>
          let detailData = ts_detailData (tab_st t);
              tabs = ts_detailTabs (tab_st t);
              m = last_by_key events [];
              dataEv = live_event resNow m detailData
          in if (detailData = None \<and> tabs = []) \<or> m = [] then w
             else
               let newData = (case dataEv of None \<Rightarrow> detailData | Some ev \<Rightarrow> map_option (with_conditions ev) detailData);
                   newTabs = map (followed_tab resNow m) tabs;
                   changes = (case dataEv of None \<Rightarrow> [] | Some ev \<Rightarrow> noted_change ev)
                     @ concat (map (\<lambda>dt. tab_changes resNow m (dt_resource dt) (dt_item dt)) tabs);
                   changed = js_map_of changes;
                   w1 = (if dataEv \<noteq> None \<or> list_ex (tab_needs_update resNow m) tabs
                         then on_ws (map_tab ct (\<lambda>st. st\<lparr>ts_detailData := newData, ts_detailTabs := newTabs\<rparr>)) w
                         else w)
               in called (map (\<lambda>(name, ns). DetailChanged name ns) (jm_values changed)) w1)"

section \<open>A batch\<close>

definition res_lower :: "string option \<Rightarrow> string" where
  "res_lower a = to_lower (str_or a [])"

definition active_matches :: "string \<Rightarrow> resource \<Rightarrow> list_tab \<Rightarrow> bool" where
  "active_matches cluster res tab =
     (lt_cluster tab = cluster
      \<and> str_or (rr_group (lt_resource tab)) [] = str_or (rr_group res) []
      \<and> str_or (rr_version (lt_resource tab)) [] = str_or (rr_version res) []
      \<and> (res_lower (rr_name (lt_resource tab)) = res_lower (rr_name res)
         \<or> res_lower (rr_kind (lt_resource tab)) = res_lower (rr_kind res)))"

definition active_tab_of :: "tab_state \<Rightarrow> list_tab option" where
  "active_tab_of st = find (\<lambda>r2. Some (lt_id r2) = ts_activeResourceListTab st) (ts_resourceListTabs st)"

definition base_items :: "runtime \<Rightarrow> resource \<Rightarrow> tab_state \<Rightarrow> kube_object list" where
  "base_items rt resNow st =
     (if rn_synced rt \<or> rn_items rt \<noteq> [] then rn_items rt
      else if ts_listItems st \<noteq> [] then ts_listItems st
      else (case active_tab_of st of
              Some tab \<Rightarrow> if active_matches (rn_cluster rt) resNow tab then lt_items tab else []
            | None \<Rightarrow> []))"

text \<open>The resource on screen when \<open>i\<close> is the runtime on screen.\<close>

definition on_screen :: "nat \<Rightarrow> world \<Rightarrow> (tab_state \<times> resource) option" where
  "on_screen i w =
     (if wd_active w \<noteq> Some i then None
      else case getCurrentTabState (wd_ws w) of
             None \<Rightarrow> None
           | Some st \<Rightarrow>
               (case ts_selectedNode st of
                  None \<Rightarrow> None
                | Some node \<Rightarrow>
                    (case ni_data (tn_info node) of
                       None \<Rightarrow> None
                     | Some res \<Rightarrow>
                         if ni_type (tn_info node) = ''resource''
                            \<and> itemsTopic (str_or (ws_currentTab (wd_ws w)) []) res = rn_topic (rt_at i w)
                         then Some (st, res) else None)))"

definition apply_pending :: "nat \<Rightarrow> kube_object list \<Rightarrow> world \<Rightarrow> kube_object apply_result \<times> kube_object rt_event list \<times> world" where
  "apply_pending i base w =
     (let rt = rt_at i w;
          (s, result) = applyRealtimeEvents base (rn_pending rt) (rn_session rt)
      in (result, rn_pending rt,
          cacheItems (rn_topic rt) (ar_items result)
            (upd_rt i (\<lambda>r. r\<lparr>rn_pending := [], rn_session := s, rn_items := ar_items result\<rparr>) w)))"

definition rollout_kind :: "resource \<Rightarrow> bool" where
  "rollout_kind r =
     (let k = res_lower (rr_kind r) in
      str_includes k ''deployment'' \<or> str_includes k ''statefulset'' \<or> str_includes k ''daemonset'')"

definition rollout_key :: "resource \<Rightarrow> kube_object \<Rightarrow> string" where
  "rollout_key r o' = join_with ''/'' [str_or (rr_group r) ''_'', in_template (rr_version r), in_template (rr_name r),
     str_or (it_namespace o') ''_'', in_template (it_name o')]"

text \<open>\<open>removeRolloutTracking\<close> of \<open>resourceSlice.ts\<close>; the polling it stops is a call.\<close>

definition removeRolloutTracking :: "string \<Rightarrow> world \<Rightarrow> world" where
  "removeRolloutTracking key w =
     (case find_tab (ws_currentTab (wd_ws w)) (wd_ws w) of
        None \<Rightarrow> w
      | Some t \<Rightarrow>
          let requests = jm_delete (nullish (ts_rolloutRequests (tab_st t)) []) key;
              statuses = jm_delete (nullish (ts_rolloutStatuses (tab_st t)) []) key;
              w1 = on_ws (updateCurrentTabState
                     \<lparr>tu_apply = (\<lambda>st. st\<lparr>ts_rolloutRequests := Some requests, ts_rolloutStatuses := Some statuses\<rparr>),
                      tu_rolloutStatuses = Some statuses, tu_selectedNamespace = None, tu_selectedNamespaces = None\<rparr>) w
          in if requests = [] then called [StopRolloutPolling] w1 else w1)"

fun rollouts :: "nat \<Rightarrow> resource \<Rightarrow> tab_state \<Rightarrow> kube_object list \<Rightarrow> kube_object rt_event list \<Rightarrow> world \<Rightarrow> world" where
  "rollouts i resNow st items [] w = w"
| "rollouts i resNow st items (ev # evs) w =
     (case (ev_action ev \<in> {Added, Modified}, ev_item ev) of
        (True, Some it) \<Rightarrow>
          (let (current, w1) = find_in i items (itemKey it) w in
           rollouts i resNow st items evs
             (case current of
                Some c \<Rightarrow>
                  if isRolloutComplete (ko_counts c) \<and> jm_has (nullish (ts_rolloutRequests st) []) (rollout_key resNow c)
                  then removeRolloutTracking (rollout_key resNow c) (called [NotifyRollout (in_template (it_name c))] w1) else w1
              | None \<Rightarrow> w1))
      | _ \<Rightarrow> rollouts i resNow st items evs w)"

definition followed_selection ::
  "nat \<Rightarrow> kube_object apply_result \<Rightarrow> kube_object rt_event list \<Rightarrow> kube_object option \<Rightarrow> world \<Rightarrow> kube_object option \<times> world" where
  "followed_selection i result events selected w =
     (case selected of
        None \<Rightarrow> (None, w)
      | Some sel \<Rightarrow>
          (let key = itemKey sel;
               (liveItem, w1) = find_in i (ar_items result) key w;
               removed = (ar_completedEpoch result \<noteq> None
                 \<or> list_ex (\<lambda>ev. ev_action ev = Deleted \<and> map_option itemKey (ev_item ev) = Some key) events)
           in (case liveItem of Some l \<Rightarrow> Some l | None \<Rightarrow> if removed then None else Some sel, w1)))"

definition outcome_patch :: "outcome option \<Rightarrow> string option \<Rightarrow> list_sync option \<Rightarrow> tab_state \<Rightarrow> tab_state" where
  "outcome_patch out err sync st =
     (let st1 = st\<lparr>ts_listSync := sync\<rparr> in
      case out of
        None \<Rightarrow> st1
      | Some OutFailed \<Rightarrow> st1\<lparr>ts_isLoadingListItems := Some False, ts_loadError := err\<rparr>
      | Some OutIncomplete \<Rightarrow> st1\<lparr>ts_isLoadingListItems := Some False, ts_hasReceivedInitialListData := Some False, ts_loadError := err\<rparr>
      | _ \<Rightarrow> st1\<lparr>ts_isLoadingListItems := Some False, ts_hasReceivedInitialListData := Some True, ts_loadError := err\<rparr>)"

definition process_off_screen :: "rt_env \<Rightarrow> nat \<Rightarrow> world \<Rightarrow> world" where
  "process_off_screen e i w =
     (let (result, events, w1) = apply_pending i (rn_items (rt_at i w)) w;
          w2 = snd (outcomeOf e i result events w1);
          w3 = (if ar_changed result
                then (case paneTabsShowing i False w2 of Some ids \<Rightarrow> writePaneTabs i ids w2 | None \<Rightarrow> w2) else w2)
      in markListingRemovals i result w3)"

definition process_on_screen :: "rt_env \<Rightarrow> nat \<Rightarrow> tab_state \<Rightarrow> resource \<Rightarrow> world \<Rightarrow> world" where
  "process_on_screen e i st resNow w =
     (let (result, events, w1) = apply_pending i (base_items (rt_at i w) resNow st) w;
          w2 = (if rollout_kind resNow then rollouts i resNow st (ar_items result) events w1 else w1);
          (selectedItem, w3) = followed_selection i result events (ts_selectedItem st) w2;
          (out, w4) = outcomeOf e i result events w3;
          patch = outcome_patch out (map_option tf_error (rn_failing (rt_at i w4))) (listSyncOf (rt_at i w4));
          w5 = (if ar_changed result \<or> selectedItem \<noteq> ts_selectedItem st \<or> (en_copy e \<and> selectedItem \<noteq> None) \<or> patch st \<noteq> st
                then commitList resNow (ar_items result) patch selectedItem w4 else w4)
      in markListingRemovals i result (updateDetails resNow events w5))"

definition processBatch :: "rt_env \<Rightarrow> nat \<Rightarrow> world \<Rightarrow> world" where
  "processBatch e i w =
     (let w1 = upd_rt i (\<lambda>r. r\<lparr>rn_frameFallback := None, rn_batchTimer := None, rn_batchTimerKind := None\<rparr>)
                 (clear_handle (rn_frameFallback (rt_at i w)) w)
      in if rn_stopped (rt_at i w1) \<or> rn_pending (rt_at i w1) = [] then w1
         else case on_screen i w1 of
                None \<Rightarrow> process_off_screen e i w1
              | Some (st, resNow) \<Rightarrow> process_on_screen e i st resNow w1)"

end
