(* ===== verification/LoadedDetails.thy ===== *)
theory LoadedDetails
  imports RealtimeBatches
begin

text \<open>
  Loading an object's details and events: where an answer goes (\<open>store/applyLoadedDetails.ts\<close>)
  and the requests around it (\<open>loadDetails\<close>, \<open>refreshDetails\<close>, \<open>loadResourceEvents\<close> and
  \<open>updateDetailData\<close> of \<open>store/resourceSlice.ts\<close>, \<open>store/loadDetailsApi.ts\<close>).

  The functions of \<open>applyLoadedDetails.ts\<close> return the same array when there is nothing to
  change; here that is \<open>None\<close>. Values compared by reference: \<open>same\<close> says which items are
  the very object \<open>details\<close>, \<open>sameE\<close> which event lists are the very array \<open>events\<close>.
\<close>

section \<open>References\<close>

record object_ref =
  or_name :: string
  or_namespace :: string
  or_kind :: string
  or_apiVersion :: string
  or_uid :: string

definition resource_apiVersion :: "resource option \<Rightarrow> string" where
  "resource_apiVersion r =
     (case r of
        None \<Rightarrow> []
      | Some s \<Rightarrow>
          if truthy_str (rr_version s)
          then (if truthy_str (rr_group s) then the (rr_group s) @ ''/'' @ the (rr_version s) else the (rr_version s))
          else [])"

definition upper_ascii :: "char \<Rightarrow> bool" where
  "upper_ascii c = (65 \<le> code_unit c \<and> code_unit c \<le> 90)"

definition knownKind :: "string option \<Rightarrow> string" where
  "knownKind kind =
     (case kind of
        Some k \<Rightarrow> if k \<noteq> ''Resource'' \<and> k \<noteq> [] \<and> upper_ascii (hd k) then k else []
      | None \<Rightarrow> [])"

definition refOf :: "kube_object \<Rightarrow> resource option \<Rightarrow> object_ref" where
  "refOf o' r =
     \<lparr>or_name = str_or (obj_name o') [], or_namespace = str_or (obj_namespace o') [],
      or_kind = (if knownKind (ko_kind o') \<noteq> [] then knownKind (ko_kind o')
                 else knownKind (case r of None \<Rightarrow> None | Some s \<Rightarrow> rr_kind s)),
      or_apiVersion = str_or (ko_apiVersion o') (resource_apiVersion r),
      or_uid = str_or (obj_uid o') []\<rparr>"

definition tabRef :: "detail_tab \<Rightarrow> object_ref" where
  "tabRef dt = refOf (dt_item dt) (dt_resource dt)"

definition sameObject :: "object_ref \<Rightarrow> object_ref \<Rightarrow> bool" where
  "sameObject a b \<longleftrightarrow>
     or_name a \<noteq> [] \<and> or_name a = or_name b \<and> or_namespace a = or_namespace b
     \<and> (or_kind a = [] \<or> or_kind b = [] \<or> or_kind a = or_kind b)
     \<and> (or_apiVersion a = [] \<or> or_apiVersion b = [] \<or> or_apiVersion a = or_apiVersion b)"

definition of_cluster :: "detail_tab \<Rightarrow> string \<Rightarrow> bool" where
  "of_cluster dt cluster = (dt_cluster dt = [] \<or> dt_cluster dt = cluster)"

definition showsObject :: "detail_tab \<Rightarrow> string \<Rightarrow> object_ref \<Rightarrow> bool" where
  "showsObject dt cluster ref = (of_cluster dt cluster \<and> sameObject (tabRef dt) ref)"

section \<open>Where an answer goes\<close>

definition tab_recreated :: "detail_tab \<Rightarrow> kube_object \<Rightarrow> bool" where
  "tab_recreated dt details =
     (let before = or_uid (tabRef dt); after = str_or (ko_metaUid details) [] in before \<noteq> [] \<and> after \<noteq> [] \<and> before \<noteq> after)"

definition freshTab :: "detail_tab \<Rightarrow> kube_object \<Rightarrow> detail_tab" where
  "freshTab dt details =
     (let recreated = tab_recreated dt details;
          kept = (if recreated then None else ko_events (dt_item dt));
          item = (if ko_events details = None \<and> kept \<noteq> None then details\<lparr>ko_events := kept\<rparr> else details)
      in dt\<lparr>dt_item := item, dt_isDeleted := Some False,
            dt_isRecreated := Some (recreated \<or> dt_isRecreated dt = Some True)\<rparr>)"

definition put_state :: "tab list \<Rightarrow> nat \<Rightarrow> tab_state \<Rightarrow> tab list" where
  "put_state tabs i st = tabs[i := (tabs ! i)\<lparr>tab_st := st\<rparr>]"

definition tab_index :: "tab list \<Rightarrow> string \<Rightarrow> nat option" where
  "tab_index tabs cluster = find_index (\<lambda>t. tab_id t = cluster) tabs"

text \<open>The detail tab \<open>detailTabs.find((dt) => dt.id === activeDetailTab)\<close>.\<close>

definition active_detail :: "detail_tab list \<Rightarrow> tab_state \<Rightarrow> detail_tab option" where
  "active_detail dts st = find (\<lambda>dt. Some (dt_id dt) = ts_activeDetailTab st) dts"

definition details_state :: "(kube_object \<Rightarrow> bool) \<Rightarrow> string \<Rightarrow> kube_object \<Rightarrow> bool \<Rightarrow> tab_state \<Rightarrow> tab_state option" where
  "details_state same cluster details reveal st =
     (let ref = refOf details None;
          hit = (\<lambda>dt. \<not> same (dt_item dt) \<and> showsObject dt cluster ref);
          dts = map (\<lambda>dt. if hit dt then freshTab dt details else dt) (ts_detailTabs st);
          updated = map dt_id (filter hit (ts_detailTabs st));
          changed = (updated \<noteq> []);
          activeUpdated = (case ts_activeDetailTab st of None \<Rightarrow> False | Some a \<Rightarrow> a \<noteq> [] \<and> a \<in> set updated);
          selectionOnly = (reveal \<and> \<not> truthy_str (ts_activeDetailTab st))
      in if \<not> changed \<and> \<not> selectionOnly then None
         else Some (st\<lparr>ts_detailTabs := (if changed then dts else ts_detailTabs st),
                ts_detailData := (if activeUpdated then map_option dt_item (active_detail dts st)
                                  else if selectionOnly then Some details else ts_detailData st),
                ts_isDetailsPanelCollapsed :=
                  (if reveal \<and> (activeUpdated \<or> selectionOnly) then False else ts_isDetailsPanelCollapsed st)\<rparr>))"

definition applyDetailsToTabs ::
  "(kube_object \<Rightarrow> bool) \<Rightarrow> tab list \<Rightarrow> string \<Rightarrow> kube_object option \<Rightarrow> bool \<Rightarrow> tab list option" where
  "applyDetailsToTabs same tabs cluster details reveal =
     (case (tab_index tabs cluster, details) of
        (Some i, Some d) \<Rightarrow> map_option (put_state tabs i) (details_state same cluster d reveal (tab_st (tabs ! i)))
      | _ \<Rightarrow> None)"

definition applyLoadedDetails :: "(kube_object \<Rightarrow> bool) \<Rightarrow> tab list \<Rightarrow> string \<Rightarrow> kube_object option \<Rightarrow> tab list option" where
  "applyLoadedDetails same tabs cluster details =
     (case tab_index tabs cluster of
        None \<Rightarrow> None
      | Some i \<Rightarrow>
          let st = tab_st (tabs ! i) in
          case ts_selectedNode st of
            Some n \<Rightarrow>
              if \<not> truthy_str (ts_activeDetailTab st) \<and> (ts_selectedItem st = None \<or> ni_type (tn_info n) \<noteq> ''resource'')
              then None else applyDetailsToTabs same tabs cluster details True
          | None \<Rightarrow> applyDetailsToTabs same tabs cluster details True)"

definition deleted_state :: "string \<Rightarrow> object_ref \<Rightarrow> tab_state \<Rightarrow> tab_state option" where
  "deleted_state cluster ref st =
     (let hit = (\<lambda>dt. dt_isDeleted dt \<noteq> Some True \<and> showsObject dt cluster ref) in
      if list_ex hit (ts_detailTabs st)
      then Some (st\<lparr>ts_detailTabs := map (\<lambda>dt. if hit dt then dt\<lparr>dt_isDeleted := Some True\<rparr> else dt) (ts_detailTabs st)\<rparr>)
      else None)"

definition markDetailsDeleted :: "tab list \<Rightarrow> string \<Rightarrow> object_ref \<Rightarrow> tab list option" where
  "markDetailsDeleted tabs cluster ref =
     (case tab_index tabs cluster of
        None \<Rightarrow> None
      | Some i \<Rightarrow>
          if or_name ref = [] then None
          else map_option (put_state tabs i) (deleted_state cluster ref (tab_st (tabs ! i))))"

text \<open>\<open>matches\<close>: the same object, and not another incarnation of it.\<close>

definition same_incarnation :: "object_ref \<Rightarrow> object_ref \<Rightarrow> bool" where
  "same_incarnation other ref =
     (sameObject other ref \<and> (or_uid other = [] \<or> or_uid ref = [] \<or> or_uid other = or_uid ref))"

definition events_state ::
  "(json list option \<Rightarrow> bool) \<Rightarrow> string \<Rightarrow> object_ref \<Rightarrow> json list \<Rightarrow> tab_state \<Rightarrow> tab_state option" where
  "events_state sameE cluster ref events st =
     (let hit = (\<lambda>dt. of_cluster dt cluster \<and> same_incarnation (tabRef dt) ref \<and> \<not> sameE (ko_events (dt_item dt)));
          dts = map (\<lambda>dt. if hit dt then dt\<lparr>dt_item := (dt_item dt)\<lparr>ko_events := Some events\<rparr>\<rparr> else dt) (ts_detailTabs st);
          ddMatches = (case ts_detailData st of None \<Rightarrow> False
                       | Some dd \<Rightarrow> same_incarnation (refOf dd None) ref \<and> \<not> sameE (ko_events dd))
      in if \<not> list_ex hit (ts_detailTabs st) \<and> \<not> ddMatches then None
         else Some (st\<lparr>ts_detailTabs := dts,
                ts_detailData :=
                  (case active_detail dts st of
                     Some a \<Rightarrow>
                       if same_incarnation (tabRef a) ref then Some (dt_item a)
                       else if ddMatches then map_option (\<lambda>dd. dd\<lparr>ko_events := Some events\<rparr>) (ts_detailData st)
                       else ts_detailData st
                   | None \<Rightarrow>
                       if ddMatches then map_option (\<lambda>dd. dd\<lparr>ko_events := Some events\<rparr>) (ts_detailData st)
                       else ts_detailData st)\<rparr>))"

definition applyEventsToTabs ::
  "(json list option \<Rightarrow> bool) \<Rightarrow> tab list \<Rightarrow> string \<Rightarrow> kube_object \<Rightarrow> json list \<Rightarrow> tab list option" where
  "applyEventsToTabs sameE tabs cluster details events =
     (case tab_index tabs cluster of
        None \<Rightarrow> None
      | Some i \<Rightarrow>
          let ref = refOf details None in
          if or_name ref = [] then None
          else map_option (put_state tabs i) (events_state sameE cluster ref events (tab_st (tabs ! i))))"

end
