(* ===== verification/DetailLoads.thy ===== *)
theory DetailLoads
  imports LoadedDetails
begin

text \<open>
  The requests for an object's details and events, as steps. What an \<open>await\<close> goes on with is
  an entry of \<open>dw_tasks\<close>; its answer is a step of its own, and anything else may change the
  store in between (\<open>Elsewhere\<close>). A signal is a number; \<open>dw_aborted\<close> has the aborted ones.

  \<open>dk_open\<close> is what \<open>handleResourceAction\<close> (\<open>utils/resourceActions.ts\<close>) does with the result
  of \<open>loadDetails\<close> for its actions \<open>edit\<close> and \<open>shell\<close>: it opens a bottom tab.
\<close>

datatype load_failure = NotFound | OtherFailure

datatype detail_call =
    AskDetails string resource object_ref bool
  | AskEvents string resource object_ref

datatype detail_task =
    DetailsTask "nat option" string resource object_ref "bottom_type option"
  | RefreshTask "nat option" string resource object_ref
  | EventsTask "nat option" string kube_object object_ref

record detail_world =
  dw_ws :: ws
  dw_aborted :: "nat list"
  dw_tasks :: "detail_task list"
  dw_calls :: "detail_call list"

definition aborted_signal :: "nat option \<Rightarrow> detail_world \<Rightarrow> bool" where
  "aborted_signal sg w = (case sg of None \<Rightarrow> False | Some s \<Rightarrow> s \<in> set (dw_aborted w))"

text \<open>\<open>updateTabs\<close>: the store is written only when the change changes something.\<close>

definition updateTabs :: "(tab list \<Rightarrow> tab list option) \<Rightarrow> ws \<Rightarrow> ws" where
  "updateTabs change w = (case change (ws_activeTabs w) of None \<Rightarrow> w | Some tabs \<Rightarrow> w\<lparr>ws_activeTabs := tabs\<rparr>)"

definition on_dw :: "(ws \<Rightarrow> ws) \<Rightarrow> detail_world \<Rightarrow> detail_world" where
  "on_dw f w = w\<lparr>dw_ws := f (dw_ws w)\<rparr>"

definition asked :: "detail_call list \<Rightarrow> detail_world \<Rightarrow> detail_world" where
  "asked cs w = w\<lparr>dw_calls := dw_calls w @ cs\<rparr>"

definition awaiting :: "detail_task \<Rightarrow> detail_world \<Rightarrow> detail_world" where
  "awaiting k w = w\<lparr>dw_tasks := dw_tasks w @ [k]\<rparr>"

section \<open>Requests\<close>

text \<open>A Helm release has its details already.\<close>

definition show_release :: "string \<Rightarrow> kube_object \<Rightarrow> ws \<Rightarrow> ws" where
  "show_release cluster item w =
     (let put = (\<lambda>st. st\<lparr>ts_detailData := Some item, ts_isDetailsPanelCollapsed := False\<rparr>);
          active = (case getCurrentTabState w of None \<Rightarrow> False | Some st \<Rightarrow> truthy_str (ts_activeDetailTab st))
      in if active then map_tab (Some cluster) put w else updateCurrentTabState (plain_update put) w)"

definition opened_after :: "bottom_type option \<Rightarrow> nat \<Rightarrow> string \<Rightarrow> kube_object option \<Rightarrow> ws \<Rightarrow> ws" where
  "opened_after ty now cluster result w =
     (case ty of
        None \<Rightarrow> w
      | Some b \<Rightarrow>
          (case (case result of Some d \<Rightarrow> Some d | None \<Rightarrow> Option.bind (getCurrentTabState w) ts_detailData) of
             None \<Rightarrow> w
           | Some d \<Rightarrow> openBottomTab now b d cluster w))"

definition loadDetails ::
  "nat option \<Rightarrow> bottom_type option \<Rightarrow> nat \<Rightarrow> string \<Rightarrow> resource \<Rightarrow> kube_object \<Rightarrow> detail_world \<Rightarrow> detail_world" where
  "loadDetails sg ty now cluster r item w =
     (if ko_kind item = Some ''HelmRelease'' \<or> rr_kind r = Some ''HelmRelease''
      then on_dw (opened_after ty now cluster (Some item) \<circ> show_release cluster item) w
      else
        let ref = refOf item (Some r) in
        awaiting (DetailsTask sg cluster r ref ty)
          (asked ((if or_name ref \<noteq> [] then [AskEvents cluster r ref] else []) @ [AskDetails cluster r ref False]) w))"

definition refreshDetails :: "nat option \<Rightarrow> string \<Rightarrow> resource \<Rightarrow> kube_object \<Rightarrow> detail_world \<Rightarrow> detail_world" where
  "refreshDetails sg cluster r item w =
     (let ref = refOf item (Some r) in
      if or_name ref = [] \<or> \<not> truthy_str (rr_version r) then w
      else awaiting (RefreshTask sg cluster r ref) (asked [AskDetails cluster r ref True] w))"

definition loadResourceEvents :: "nat option \<Rightarrow> string \<Rightarrow> resource \<Rightarrow> kube_object \<Rightarrow> detail_world \<Rightarrow> detail_world" where
  "loadResourceEvents sg cluster r details w =
     (let ref = refOf details (Some r) in
      if or_name ref = [] then w
      else awaiting (EventsTask sg cluster details ref) (asked [AskEvents cluster r ref] w))"

definition updateDetailData :: "(kube_object \<Rightarrow> bool) \<Rightarrow> kube_object option \<Rightarrow> string option \<Rightarrow> ws \<Rightarrow> ws" where
  "updateDetailData same d cluster w =
     (let target = (if truthy_str cluster then cluster else ws_currentTab w) in
      if \<not> truthy_str target \<or> d = None then w
      else updateTabs (\<lambda>tabs. applyDetailsToTabs same tabs (the target) d False) w)"

section \<open>Answers\<close>

text \<open>The details of a load. An object recreated since the row was read has its events asked for again.\<close>

definition details_loaded ::
  "(kube_object \<Rightarrow> bool) \<Rightarrow> nat option \<Rightarrow> string \<Rightarrow> resource \<Rightarrow> object_ref \<Rightarrow> kube_object option \<Rightarrow> detail_world \<Rightarrow> detail_world" where
  "details_loaded same sg cluster r ref d w =
     (case (applyLoadedDetails same (ws_activeTabs (dw_ws w)) cluster d, d) of
        (Some tabs, Some details) \<Rightarrow>
          let w1 = on_dw (\<lambda>s. s\<lparr>ws_activeTabs := tabs\<rparr>) w;
              loaded = refOf details (Some r)
          in if or_uid ref \<noteq> [] \<and> or_uid loaded \<noteq> [] \<and> or_uid ref \<noteq> or_uid loaded
             then awaiting (EventsTask sg cluster details loaded) (asked [AskEvents cluster r loaded] w1)
             else awaiting (EventsTask sg cluster details ref) w1
      | _ \<Rightarrow> w)"

definition details_missing :: "nat option \<Rightarrow> string \<Rightarrow> object_ref \<Rightarrow> detail_world \<Rightarrow> detail_world" where
  "details_missing sg cluster ref w =
     (if aborted_signal sg w then w
      else on_dw (updateTabs (\<lambda>tabs. markDetailsDeleted tabs cluster ref)) w)"

definition details_refreshed ::
  "(kube_object \<Rightarrow> bool) \<Rightarrow> nat option \<Rightarrow> string \<Rightarrow> resource \<Rightarrow> kube_object \<Rightarrow> detail_world \<Rightarrow> detail_world" where
  "details_refreshed same sg cluster r details w =
     (let ref = refOf details (Some r) in
      awaiting (EventsTask sg cluster details ref)
        (asked [AskEvents cluster r ref]
          (on_dw (updateTabs (\<lambda>tabs. applyDetailsToTabs same tabs cluster (Some details) False)) w)))"

definition details_came ::
  "(kube_object \<Rightarrow> bool) \<Rightarrow> nat \<Rightarrow> detail_task \<Rightarrow> load_failure + kube_object option \<Rightarrow> detail_world \<Rightarrow> detail_world" where
  "details_came same now k ans w =
     (case k of
        DetailsTask sg cluster r ref ty \<Rightarrow>
          (case ans of
             Inl NotFound \<Rightarrow> on_dw (opened_after ty now cluster None) (details_missing sg cluster ref w)
           | Inl OtherFailure \<Rightarrow> w
           | Inr d \<Rightarrow>
               if aborted_signal sg w then on_dw (opened_after ty now cluster None) w
               else on_dw (opened_after ty now cluster d) (details_loaded same sg cluster r ref d w))
      | RefreshTask sg cluster r ref \<Rightarrow>
          (case ans of
             Inl NotFound \<Rightarrow> details_missing sg cluster ref w
           | Inl OtherFailure \<Rightarrow> w
           | Inr None \<Rightarrow> w
           | Inr (Some d) \<Rightarrow> if aborted_signal sg w then w else details_refreshed same sg cluster r d w)
      | EventsTask _ _ _ _ \<Rightarrow> w)"

text \<open>Events; a load of an object without a name never asked and has none.\<close>

definition events_came :: "(json list option \<Rightarrow> bool) \<Rightarrow> detail_task \<Rightarrow> json list option \<Rightarrow> detail_world \<Rightarrow> detail_world" where
  "events_came sameE k ans w =
     (case k of
        EventsTask sg cluster details ref \<Rightarrow>
          (case (if or_name ref = [] then Some [] else ans) of
             None \<Rightarrow> w
           | Some events \<Rightarrow>
               if aborted_signal sg w then w
               else on_dw (updateTabs (\<lambda>tabs. applyEventsToTabs sameE tabs cluster details events)) w)
      | _ \<Rightarrow> w)"

section \<open>Sessions\<close>

datatype detail_event =
    Load "nat option" "bottom_type option" nat string resource kube_object
  | Refresh "nat option" string resource kube_object
  | LoadEvents "nat option" string resource kube_object
  | Update "kube_object \<Rightarrow> bool" "kube_object option" "string option"
  | DetailsCame "kube_object \<Rightarrow> bool" nat nat "load_failure + kube_object option"
  | EventsCame "json list option \<Rightarrow> bool" nat "json list option"
  | Abort nat
  | Elsewhere "ws \<Rightarrow> ws"

definition take_task :: "nat \<Rightarrow> (detail_task \<Rightarrow> detail_world \<Rightarrow> detail_world) \<Rightarrow> detail_world \<Rightarrow> detail_world" where
  "take_task i f w =
     (if i < length (dw_tasks w)
      then f (dw_tasks w ! i) (w\<lparr>dw_tasks := take i (dw_tasks w) @ drop (Suc i) (dw_tasks w)\<rparr>)
      else w)"

text \<open>An answer that a task does not wait for does not come.\<close>

fun is_events :: "detail_task \<Rightarrow> bool" where
  "is_events (EventsTask _ _ _ _) = True"
| "is_events _ = False"

definition answered_by :: "bool \<Rightarrow> nat \<Rightarrow> detail_world \<Rightarrow> bool" where
  "answered_by events i w = (i < length (dw_tasks w) \<and> is_events (dw_tasks w ! i) = events)"

fun detail_do :: "detail_event \<Rightarrow> detail_world \<Rightarrow> detail_world" where
  "detail_do (Load sg ty now c r o') w = loadDetails sg ty now c r o' w"
| "detail_do (Refresh sg c r o') w = refreshDetails sg c r o' w"
| "detail_do (LoadEvents sg c r o') w = loadResourceEvents sg c r o' w"
| "detail_do (Update same d c) w = on_dw (updateDetailData same d c) w"
| "detail_do (DetailsCame same now i ans) w =
     (if answered_by False i w then take_task i (\<lambda>k. details_came same now k ans) w else w)"
| "detail_do (EventsCame sameE i ans) w =
     (if answered_by True i w then take_task i (\<lambda>k. events_came sameE k ans) w else w)"
| "detail_do (Abort s) w = w\<lparr>dw_aborted := s # dw_aborted w\<rparr>"
| "detail_do (Elsewhere f) w = on_dw f w"

definition detail_run :: "detail_event list \<Rightarrow> detail_world \<Rightarrow> detail_world" where
  "detail_run evs w = foldl (\<lambda>w ev. detail_do ev w) w evs"

end
