(* ===== verification/RealtimeControl.thy ===== *)
theory RealtimeControl
  imports RealtimeBatches
begin

text \<open>
  \<open>frontend/src/store/realtimeSlice.ts\<close>, continued: when a batch is flushed, how events come in,
  and how subscriptions are started, parked, resumed, evicted and released.
\<close>

section \<open>Scheduling a flush\<close>

definition set_batch_timer :: "nat \<Rightarrow> timer \<Rightarrow> timer_kind \<Rightarrow> int \<Rightarrow> world \<Rightarrow> world" where
  "set_batch_timer i t kind ms w =
     (let (h, w1) = set_timer t ms w in
      upd_rt i (\<lambda>r. r\<lparr>rn_batchTimer := Some h, rn_batchTimerKind := Some kind\<rparr>) w1)"

text \<open>An animation frame has no delay of its own; a hidden window gets a timer instead.\<close>

definition requestFlushFrame :: "rt_env \<Rightarrow> nat \<Rightarrow> world \<Rightarrow> world" where
  "requestFlushFrame e i w =
     (if en_hidden e then set_batch_timer i (FlushTimer i) TimeoutKind PARKED_FLUSH_MS w
      else let (h, w1) = set_timer (FallbackTimer i) FRAME_FALLBACK_MS (set_batch_timer i (FrameTimer i) RafKind 0 w) in
           upd_rt i (\<lambda>r. r\<lparr>rn_frameFallback := Some h\<rparr>) w1)"

definition scheduleFlush :: "rt_env \<Rightarrow> nat \<Rightarrow> world \<Rightarrow> world" where
  "scheduleFlush e i w =
     (if wd_active w \<noteq> Some i \<and> paneTabsShowing i False w = None
      then set_batch_timer i (FlushTimer i) TimeoutKind PARKED_FLUSH_MS w
      else if \<not> rn_synced (rt_at i w) then requestFlushFrame e i w
      else set_batch_timer i (WindowTimer i) TimeoutKind (flushWindow (rt_at i w)) w)"

text \<open>The coalescing window is over: held back while the user scrolls, for at most a second.\<close>

definition window_fired :: "rt_env \<Rightarrow> nat \<Rightarrow> world \<Rightarrow> world" where
  "window_fired e i w =
     (let rt = rt_at i w in
      if (case rn_lastInteraction rt of None \<Rightarrow> False | Some l \<Rightarrow> en_perf e - l < 250) \<and> en_perf e - rn_deferredSince rt < 1000
      then scheduleFlush e i w else requestFlushFrame e i w)"

definition fallback_fired :: "rt_env \<Rightarrow> nat \<Rightarrow> world \<Rightarrow> world" where
  "fallback_fired e i w =
     (let w1 = upd_rt i (\<lambda>r. r\<lparr>rn_frameFallback := None\<rparr>) w; rt = rt_at i w1 in
      if rn_batchTimerKind rt \<noteq> Some RafKind \<or> rn_batchTimer rt = None then w1
      else processBatch e i (clear_handle (rn_batchTimer rt) w1))"

section \<open>Creating a runtime and receiving events\<close>

definition new_runtime :: "rt_env \<Rightarrow> string \<Rightarrow> string \<Rightarrow> resource \<Rightarrow> kube_object list \<Rightarrow> string \<times> sort_order \<Rightarrow> runtime" where
  "new_runtime e topic cluster r items order =
     \<lparr>rn_topic = topic, rn_cluster = cluster, rn_resource = r, rn_sort = order, rn_session = newRealtimeSession,
      rn_pending = [], rn_batchTimer = None, rn_batchTimerKind = None, rn_frameFallback = None, rn_items = items,
      rn_synced = False, rn_listTotal = None, rn_startedAt = en_now e, rn_lastInteraction = None, rn_deferredSince = 0,
      rn_failing = None, rn_loadTimer = None, rn_resubscribeTimer = None, rn_resubscribeAttempt = 0, rn_incompleteAttempt = 0\<rparr>"

definition createRuntime ::
  "rt_env \<Rightarrow> string \<Rightarrow> string \<Rightarrow> resource \<Rightarrow> kube_object list \<Rightarrow> string \<times> sort_order \<Rightarrow> world \<Rightarrow> nat \<times> world" where
  "createRuntime e topic cluster r items order w =
     (let i = wd_next w;
          prev = (case jm_get (wd_health w) topic of None \<Rightarrow> None | Some h \<Rightarrow> th_failing h);
          failing = (case prev of Some f \<Rightarrow> if tf_errorCode f = Some ''timeout'' then None else Some f | None \<Rightarrow> None);
          w1 = upd_rt i (\<lambda>_. new_runtime e topic cluster r items order) (w\<lparr>wd_next := Suc i\<rparr>)
      in (i, writeHealth topic \<lparr>th_live = False, th_failing = failing, th_lastSyncAt = prev_sync topic w\<rparr> w1))"

text \<open>
  A message of the socket: its fields in whichever of the spellings the backend used
  (\<open>messageType\<close>, \<open>MessageType\<close> or \<open>type\<close>; \<open>epoch\<close> or \<open>Epoch\<close>; and so on).
\<close>

record ws_message =
  wm_type :: string
  wm_channel :: "string option"
  wm_action :: string
  wm_item :: "kube_object option"
  wm_epoch :: "int option"
  wm_itemCount :: "int option"
  wm_failed :: bool
  wm_error :: "string option"
  wm_errorCode :: "string option"
  wm_lastSyncAt :: "int option"
  wm_state :: string
  wm_failingSince :: "int option"

record ws_batch =
  wb_events :: "ws_message list"
  wb_topic :: "string option"
  wb_bulk :: bool
  wb_epoch :: "int option"
  wb_total :: "int option"

definition empty_object :: kube_object where
  "empty_object =
     \<lparr>it_name = None, it_namespace = None, it_uid = None, it_rv = None, ko_metaName = None, ko_metaNamespace = None,
      ko_kind = None, ko_apiVersion = None, ko_metaUid = None, ko_conditions = None, ko_statusConditions = None,
      ko_counts = \<lparr>rc_replicas = None, rc_desiredNumberScheduled = None, rc_statusReplicas = None, rc_readyReplicas = None,
        rc_numberReady = None, rc_updatedReplicas = None, rc_updatedNumberScheduled = None, rc_availableReplicas = None,
        rc_numberAvailable = None\<rparr>,
      ko_isHelmValues = False, ko_helmReleaseName = None, ko_helmReleaseNamespace = None, ko_events = None\<rparr>"

definition sync_event :: "ws_message \<Rightarrow> kube_object rt_event" where
  "sync_event ev =
     (let epoch = num_or (wm_epoch ev) 0; failed = (wm_failed ev \<or> \<not> epoch > 0) in
      \<lparr>ev_action = Sync, ev_item = None, ev_epoch = Some epoch, ev_itemCount = wm_itemCount ev, ev_failed = failed,
       ev_error = (if failed then given (wm_error ev) else None),
       ev_errorCode = (if failed then given (wm_errorCode ev) else None),
       ev_lastSyncAt = positive (wm_lastSyncAt ev)\<rparr>)"

definition action_of :: "string \<Rightarrow> rt_action option" where
  "action_of a = map_of [(''added'', Added), (''modified'', Modified), (''deleted'', Deleted)] (to_lower a)"

definition item_event :: "ws_batch \<Rightarrow> rt_action \<Rightarrow> ws_message \<Rightarrow> kube_object rt_event" where
  "item_event b action ev =
     \<lparr>ev_action = action, ev_item = Some (nullish (wm_item ev) empty_object), ev_epoch = (if wb_bulk b then wb_epoch b else None),
      ev_itemCount = None, ev_failed = False, ev_error = None, ev_errorCode = None, ev_lastSyncAt = None\<rparr>"

definition status_of :: "ws_message \<Rightarrow> status_event" where
  "status_of ev =
     \<lparr>se_state = wm_state ev, se_error = wm_error ev, se_errorCode = wm_errorCode ev,
      se_failingSince = wm_failingSince ev, se_lastSyncAt = wm_lastSyncAt ev\<rparr>"

definition push_event :: "nat \<Rightarrow> kube_object rt_event \<Rightarrow> world \<Rightarrow> world" where
  "push_event i ev w = upd_rt i (\<lambda>r. r\<lparr>rn_pending := rn_pending r @ [ev]\<rparr>) w"

definition receive :: "rt_env \<Rightarrow> nat \<Rightarrow> ws_batch \<Rightarrow> ws_message \<Rightarrow> bool \<times> world \<Rightarrow> bool \<times> world" where
  "receive e i b ev pw =
     (let (pushed, w) = pw in
      if wm_type ev = ''sync_complete''
      then (True, push_event i (sync_event ev)
             (upd_rt i (\<lambda>r. r\<lparr>rn_loadTimer := None\<rparr>) (clear_handle (rn_loadTimer (rt_at i w)) w)))
      else if wm_type ev = ''topic_status'' then (pushed, onTopicStatus e i (status_of ev) w)
      else if wm_channel ev \<noteq> None \<and> wm_channel ev \<noteq> Some ''items'' then (pushed, w)
      else case action_of (wm_action ev) of
             None \<Rightarrow> (pushed, w)
           | Some a \<Rightarrow> (True, push_event i (item_event b a ev) w))"

definition onEvent :: "rt_env \<Rightarrow> nat \<Rightarrow> ws_batch \<Rightarrow> world \<Rightarrow> world" where
  "onEvent e i b w =
     (if rn_stopped (rt_at i w) \<or> (truthy_str (wb_topic b) \<and> wb_topic b \<noteq> Some (rn_topic (rt_at i w))) then w
      else
        let (pushed, w1) = foldl (\<lambda>pw ev. receive e i b ev pw) (False, w) (wb_events b);
            w2 = (case (wb_epoch b, wb_total b) of
                    (Some ep, Some ltotal) \<Rightarrow> if wb_bulk b \<and> ep \<noteq> 0 then upd_rt i (\<lambda>r. r\<lparr>rn_listTotal := Some (ep, ltotal)\<rparr>) w1 else w1
                  | _ \<Rightarrow> w1)
        in if pushed \<and> rn_batchTimer (rt_at i w2) = None
           then scheduleFlush e i (upd_rt i (\<lambda>r. r\<lparr>rn_deferredSince := en_perf e\<rparr>) w2) else w2)"

section \<open>Parking\<close>

definition unshown_topic :: "world \<Rightarrow> string option" where
  "unshown_topic w = map_option fst (find (\<lambda>(topic, p). paneTabsShowing p True w = None) (wd_parked w))"

definition drop_parked :: "string \<Rightarrow> world \<Rightarrow> world" where
  "drop_parked topic w =
     (case jm_get (wd_parked w) topic of
        None \<Rightarrow> w
      | Some p \<Rightarrow> closeRuntime p (w\<lparr>wd_parked := jm_delete (wd_parked w) topic\<rparr>))"

lemma closeRuntime_parked [simp]: "wd_parked (closeRuntime i w) = wd_parked w"
  by (simp add: closeRuntime_def clearTimer_def called_def upd_rt_def clear_handle_def Let_def split: option.split)

function evict_parked :: "world \<Rightarrow> world" where
  "evict_parked w =
     (if jm_size (wd_parked w) > MAX_PARKED_TOPICS
      then (case unshown_topic w of None \<Rightarrow> w | Some oldest \<Rightarrow> evict_parked (drop_parked oldest w))
      else w)"
  by pat_completeness auto
termination
proof (relation "measure (\<lambda>w. length (wd_parked w))", goal_cases)
  case (2 w oldest)
  then obtain p where "(oldest, p) \<in> set (wd_parked w)"
    by (fastforce simp: unshown_topic_def find_Some_iff in_set_conv_nth)
  then have "jm_get (wd_parked w) oldest \<noteq> None"
    using weak_map_of_SomeI [of oldest p "wd_parked w"] by (auto simp: jm_get_def)
  moreover from \<open>(oldest, p) \<in> set (wd_parked w)\<close>
  have "length (jm_delete (wd_parked w) oldest) < length (wd_parked w)"
    by (auto simp: jm_delete_def intro!: length_filter_less)
  ultimately show ?case by (auto simp: drop_parked_def split: option.splits)
qed simp

declare evict_parked.simps [simp del]

definition parkActive :: "rt_env \<Rightarrow> world \<Rightarrow> world" where
  "parkActive e w0 =
     (let w = w0\<lparr>wd_active := None\<rparr> in
      case wd_active w0 of
        None \<Rightarrow> w
      | Some i \<Rightarrow>
          if rn_stopped (rt_at i w) then w
          else
            let w1 = called [StopListening i] w; topic = rn_topic (rt_at i w) in
            if \<not> en_handlers e topic then closeRuntime i w1
            else
              let w2 = (if rn_batchTimer (rt_at i w1) \<noteq> None then scheduleFlush e i (clearTimer i w1) else w1);
                  w3 = (case jm_get (wd_parked w2) topic of Some p \<Rightarrow> if p \<noteq> i then closeRuntime p w2 else w2 | None \<Rightarrow> w2)
              in evict_parked (w3\<lparr>wd_parked := jm_set (jm_delete (wd_parked w3) topic) topic i\<rparr>))"

section \<open>Starting lists\<close>

definition tab_sort :: "list_tab option \<Rightarrow> string \<times> sort_order" where
  "tab_sort t = (case t of None \<Rightarrow> (''age'', Desc) | Some r2 \<Rightarrow> (str_or (Some (lt_sortBy r2)) ''age'', lt_sortOrder r2))"

definition resubscribePane :: "nat \<Rightarrow> string list \<Rightarrow> world \<Rightarrow> world" where
  "resubscribePane i tabIds w =
     (case (case getCurrentTabState (wd_ws w) of None \<Rightarrow> None
            | Some st \<Rightarrow> find (\<lambda>r2. lt_id r2 \<in> set tabIds) (ts_resourceListTabs st)) of
        None \<Rightarrow> w
      | Some t \<Rightarrow> subscribe i (upd_rt i (\<lambda>r. r\<lparr>rn_sort := tab_sort (Some t)\<rparr>) w))"

definition ensure_pane :: "rt_env \<Rightarrow> string \<Rightarrow> string option list \<Rightarrow> list_tab \<Rightarrow> world \<Rightarrow> world" where
  "ensure_pane e cluster shown r2 w =
     (let topic = itemsTopic cluster (lt_resource r2) in
      if Some (lt_id r2) \<notin> set shown \<or> \<not> isLiveList (lt_resource r2) \<or> (lt_cluster r2 \<noteq> [] \<and> lt_cluster r2 \<noteq> cluster)
         \<or> (case wd_active w of Some i \<Rightarrow> rn_topic (rt_at i w) = topic \<and> \<not> rn_stopped (rt_at i w) | None \<Rightarrow> False)
      then w
      else
        let create = (\<lambda>w. let (i, w1) = createRuntime e topic cluster (lt_resource r2) (lt_items r2) (tab_sort (Some r2)) w in
               subscribe i (armLoadTimer i LOAD_TIMEOUT_MS (w1\<lparr>wd_parked := jm_set (wd_parked w1) topic i\<rparr>)))
        in case jm_get (wd_parked w) topic of
             Some p \<Rightarrow>
               if \<not> rn_stopped (rt_at p w) \<and> en_handlers e topic
               then (case paneTabsShowing p False w of
                       Some ids \<Rightarrow> if rn_synced (rt_at p w) then writePaneTabs p ids w else w
                     | None \<Rightarrow> w)
               else create (drop_parked topic w)
           | None \<Rightarrow> create w)"

definition ensurePaneSubscriptions :: "rt_env \<Rightarrow> world \<Rightarrow> world" where
  "ensurePaneSubscriptions e w =
     (case ws_currentTab (wd_ws w) of
        None \<Rightarrow> w
      | Some cluster \<Rightarrow>
          (case indexed_tab cluster (wd_ws w) of
             None \<Rightarrow> w
           | Some t \<Rightarrow>
               let shown = jm_values (nullish (ts_activeByPane (tab_st t)) []) in
               if cluster = [] \<or> length shown < 2 then w
               else foldl (\<lambda>w r2. ensure_pane e cluster shown r2 w) w (ts_resourceListTabs (tab_st t))))"

definition activate :: "nat \<Rightarrow> world \<Rightarrow> world" where
  "activate i w = called [Listen i] (w\<lparr>wd_active := Some i\<rparr>)"

definition find_selection :: "nat \<Rightarrow> kube_object option \<Rightarrow> bool \<Rightarrow> world \<Rightarrow> kube_object option \<times> world" where
  "find_selection i selected keep w =
     (case selected of
        None \<Rightarrow> (None, w)
      | Some sel \<Rightarrow> (let (found, w1) = find_in i (rn_items (rt_at i w)) (itemKey sel) w in
                     (case found of Some f \<Rightarrow> Some f | None \<Rightarrow> if keep then Some sel else None, w1)))"

text \<open>The runtime on screen already lists the topic.\<close>

definition refresh_shown :: "rt_env \<Rightarrow> bool \<Rightarrow> nat \<Rightarrow> tab_state \<Rightarrow> resource \<Rightarrow> string \<times> sort_order \<Rightarrow> world \<Rightarrow> world" where
  "refresh_shown e force i st res order w =
     (let w1 = (if force \<and> \<not> rn_synced (rt_at i w) then subscribe i (upd_rt i (\<lambda>r. r\<lparr>rn_sort := order\<rparr>) w) else w) in
      if rn_synced (rt_at i w1) \<and> (ts_listItems st \<noteq> rn_items (rt_at i w1) \<or> en_copy e)
      then (let (selectedItem, w2) = find_selection i (ts_selectedItem st) True w1 in
            commitList res (rn_items (rt_at i w2)) (\<lambda>s. s) selectedItem w2)
      else w1)"

definition flush_resumed :: "rt_env \<Rightarrow> nat \<Rightarrow> world \<Rightarrow> world" where
  "flush_resumed e i w = (if rn_pending (rt_at i w) \<noteq> [] then scheduleFlush e i (clearTimer i w) else w)"

text \<open>A parked runtime that already has its list resumes as it is.\<close>

definition resume_synced :: "rt_env \<Rightarrow> nat \<Rightarrow> tab_state \<Rightarrow> resource \<Rightarrow> world \<Rightarrow> world" where
  "resume_synced e i st res w =
     (let (selectedItem, w1) = find_selection i (ts_selectedItem st) False (activate i w);
          rt = rt_at i w1;
          loadError = map_option tf_error (rn_failing rt);
          patch = (\<lambda>s. s\<lparr>ts_isLoadingListItems := Some False, ts_hasReceivedInitialListData := Some True,
                         ts_loadError := loadError, ts_listSync := listSyncOf rt\<rparr>);
          upToDate = (ts_listItems st = rn_items rt \<and> \<not> en_copy e \<and> ts_hasReceivedInitialListData st = Some True
             \<and> ts_isLoadingListItems st \<noteq> Some True \<and> ts_loadError st = loadError \<and> selectedItem = ts_selectedItem st);
          w2 = (if \<not> upToDate \<or> listSyncOf rt \<noteq> ts_listSync st then commitList res (rn_items rt) patch selectedItem w1 else w1)
      in if rn_pending (rt_at i w2) \<noteq> []
         then scheduleFlush e i (upd_rt i (\<lambda>r. r\<lparr>rn_deferredSince := en_perf e\<rparr>) (clearTimer i w2)) else w2)"

definition preserved_items :: "string \<Rightarrow> resource \<Rightarrow> tab_state \<Rightarrow> kube_object list" where
  "preserved_items cluster res st =
     (if ts_listItems st \<noteq> [] then ts_listItems st
      else (case active_tab_of st of Some t \<Rightarrow> if active_matches cluster res t then lt_items t else [] | None \<Rightarrow> []))"

definition show_loading :: "kube_object list \<Rightarrow> tab_state \<Rightarrow> tab_state" where
  "show_loading items s = s\<lparr>ts_isLoadingListItems := Some True, ts_hasReceivedInitialListData := Some False,
     ts_loadError := None, ts_listSync := None, ts_listItems := items\<rparr>"

definition resume_waiting :: "rt_env \<Rightarrow> nat \<Rightarrow> world \<Rightarrow> world" where
  "resume_waiting e i w =
     (let w1 = activate i w;
          rt = rt_at i w1;
          w2 = (if rn_loadTimer rt = None \<and> rn_failing rt = None
                then armLoadTimer i (LOAD_TIMEOUT_MS - (en_now e - rn_startedAt rt)) w1 else w1);
          w3 = (case rn_failing rt of
                  Some f \<Rightarrow> on_ws (updateCurrentTabState (plain_update (\<lambda>s. s\<lparr>ts_isLoadingListItems := Some False, ts_loadError := Some (tf_error f)\<rparr>))) w2
                | None \<Rightarrow> w2)
      in flush_resumed e i w3)"

definition start_topic :: "rt_env \<Rightarrow> string \<Rightarrow> string \<Rightarrow> resource \<Rightarrow> string \<times> sort_order \<Rightarrow> tab_state \<Rightarrow> world \<Rightarrow> world" where
  "start_topic e topic cluster res order st w =
     (let parked = jm_get (wd_parked w) topic;
          w1 = w\<lparr>wd_parked := jm_delete (wd_parked w) topic\<rparr>;
          resumable = (case parked of
              None \<Rightarrow> False
            | Some p \<Rightarrow> \<not> rn_stopped (rt_at p w1) \<and> en_handlers e topic
                \<and> (rn_synced (rt_at p w1) \<or> en_now e - rn_startedAt (rt_at p w1) < LOAD_TIMEOUT_MS));
          items = preserved_items cluster res st;
          loading = on_ws (updateCurrentTabState (plain_update (show_loading items)))
      in case parked of
           Some p \<Rightarrow>
             if resumable \<and> rn_synced (rt_at p w1)
             then resume_synced e p (nullish (getCurrentTabState (wd_ws w1)) st) res w1
             else if resumable then resume_waiting e p (loading w1)
             else (let (i, w2) = createRuntime e topic cluster res items order (loading (closeRuntime p w1)) in
                   subscribe i (armLoadTimer i LOAD_TIMEOUT_MS (activate i w2)))
         | None \<Rightarrow>
             (let (i, w2) = createRuntime e topic cluster res items order (loading w1) in
              subscribe i (armLoadTimer i LOAD_TIMEOUT_MS (activate i w2))))"

definition startShownList :: "rt_env \<Rightarrow> bool \<Rightarrow> world \<Rightarrow> world" where
  "startShownList e force w =
     (case (ws_currentTab (wd_ws w), getCurrentTabState (wd_ws w)) of
        (Some cluster, Some st) \<Rightarrow>
          (case map_option tn_info (ts_selectedNode st) of
             None \<Rightarrow> w
           | Some node \<Rightarrow>
               (case ni_data node of
                  None \<Rightarrow> w
                | Some res \<Rightarrow>
                    if cluster = [] \<or> ni_type node \<noteq> ''resource'' then w
                    else
                      let topic = itemsTopic cluster res; order = tab_sort (active_tab_of st) in
                      (case wd_active w of
                         Some i \<Rightarrow>
                           if rn_topic (rt_at i w) = topic \<and> en_handlers e topic
                           then refresh_shown e force i st res order w
                           else start_topic e topic cluster res order st (parkActive e w)
                       | None \<Rightarrow> start_topic e topic cluster res order st (parkActive e w))))
      | _ \<Rightarrow> w)"

section \<open>The slice's operations\<close>

definition startRealtimeInternal :: "rt_env \<Rightarrow> bool \<Rightarrow> world \<Rightarrow> world" where
  "startRealtimeInternal e force w =
     (if \<not> truthy_str (ws_currentTab (wd_ws w)) then w
      else if \<not> en_ready e
      then (let (h, w1) = set_timer (RetryTimer force) 100 (clear_handle (wd_retry w) w) in w1\<lparr>wd_retry := Some h\<rparr>)
      else ensurePaneSubscriptions e (startShownList e force w))"

definition startRealtime :: "rt_env \<Rightarrow> bool \<Rightarrow> world \<Rightarrow> world" where
  "startRealtime e force w =
     (let burst = (wd_burst w \<noteq> None);
          w1 = (if burst then clear_handle (wd_burst w) w else startRealtimeInternal e force w);
          (h, w2) = set_timer (BurstTimer burst) 50 w1
      in w2\<lparr>wd_burst := Some h\<rparr>)"

definition burst_fired :: "rt_env \<Rightarrow> bool \<Rightarrow> world \<Rightarrow> world" where
  "burst_fired e burst w =
     (let w1 = w\<lparr>wd_burst := None\<rparr> in if burst then startRealtimeInternal e False w1 else w1)"

definition clear_start_timers :: "world \<Rightarrow> world" where
  "clear_start_timers w = (clear_handle (wd_retry w) (clear_handle (wd_burst w) w))\<lparr>wd_burst := None, wd_retry := None\<rparr>"

definition parkRealtime :: "rt_env \<Rightarrow> world \<Rightarrow> world" where
  "parkRealtime e w = parkActive e (clear_start_timers w)"

definition releaseRealtimeTopics :: "(string \<Rightarrow> bool) \<Rightarrow> world \<Rightarrow> world" where
  "releaseRealtimeTopics shouldRelease w =
     (let w1 = (case wd_active w of
                  Some i \<Rightarrow> if shouldRelease (rn_topic (rt_at i w)) then (closeRuntime i w)\<lparr>wd_active := None\<rparr> else w
                | None \<Rightarrow> w)
      in foldl (\<lambda>w topic. if shouldRelease topic then drop_parked topic w else w) w1 (jm_keys (wd_parked w1)))"

definition stop_parked :: "string \<Rightarrow> world \<Rightarrow> world" where
  "stop_parked topic w =
     (case jm_get (wd_parked w) topic of
        None \<Rightarrow> w
      | Some p \<Rightarrow>
          (case (if rn_stopped (rt_at p w) then None else paneTabsShowing p False w) of
             Some ids \<Rightarrow> resubscribePane p ids w
           | None \<Rightarrow> drop_parked topic w))"

definition stopRealtime :: "world \<Rightarrow> world" where
  "stopRealtime w =
     (let w1 = clear_start_timers w;
          w2 = (case wd_active w1 of Some i \<Rightarrow> closeRuntime i w1 | None \<Rightarrow> w1);
          w3 = foldl (\<lambda>w topic. stop_parked topic w) w2 (jm_keys (wd_parked w2))
      in w3\<lparr>wd_active := None\<rparr>)"

text \<open>A timer or animation frame fires: its entry goes, then its callback runs.\<close>

definition run_timer :: "rt_env \<Rightarrow> timer \<Rightarrow> world \<Rightarrow> world" where
  "run_timer e t w =
     (case t of
        FlushTimer i \<Rightarrow> processBatch e i w
      | FrameTimer i \<Rightarrow> processBatch e i w
      | WindowTimer i \<Rightarrow> window_fired e i w
      | FallbackTimer i \<Rightarrow> fallback_fired e i w
      | LoadTimer i \<Rightarrow> load_fired e i w
      | ResubscribeTimer i \<Rightarrow> resubscribe_fired i w
      | BurstTimer b \<Rightarrow> burst_fired e b w
      | RetryTimer force \<Rightarrow> startRealtimeInternal e force w)"

definition fire :: "rt_env \<Rightarrow> nat \<Rightarrow> world \<Rightarrow> world" where
  "fire e h w =
     (case jm_get (wd_timers w) h of
        None \<Rightarrow> w
      | Some (t, ms) \<Rightarrow> run_timer e t (w\<lparr>wd_timers := jm_delete (wd_timers w) h\<rparr>))"

end
