(* ===== verification/DetailLoadsProps.thy ===== *)
theory DetailLoadsProps
  imports DetailLoads RealtimeControl
begin

text \<open>
  What the loads of details and events write: an answer reaches only the detail tabs that show
  its object, in the cluster it was asked for, whatever the user did in between; events reach
  only the incarnation they were asked for. One theorem shows that an action on a deleted
  object opens the editor on another one.
\<close>

section \<open>References\<close>

lemma sameObject_named: "sameObject a b \<Longrightarrow> or_name a \<noteq> [] \<and> or_name b = or_name a \<and> or_namespace b = or_namespace a"
  unfolding sameObject_def by (elim conjE) simp

text \<open>The events of an object are no part of what names it.\<close>

lemma refOf_events [simp]: "refOf (o'\<lparr>ko_events := e\<rparr>) r = refOf o' r"
  by (simp add: refOf_def obj_name_def obj_namespace_def obj_uid_def)

lemma refOf_uid: "or_uid (refOf o' r) = or_uid (refOf o' s)"
  by (simp add: refOf_def)

lemma refOf_named: "or_name (refOf o' r) = or_name (refOf o' s)" "or_namespace (refOf o' r) = or_namespace (refOf o' s)"
  by (simp_all add: refOf_def)

section \<open>The tabs an answer leaves alone\<close>

lemma find_index_found: "find_index P xs = Some i \<Longrightarrow> i < length xs \<and> P (xs ! i)"
  using find_index_from_some [of 0 P xs i] by (auto simp: find_index_def)

lemma tab_index_at: "tab_index tabs c = Some i \<Longrightarrow> i < length tabs \<and> tab_id (tabs ! i) = c"
  using find_index_found [of "\<lambda>t. tab_id t = c" tabs i] by (simp add: tab_index_def)

lemma put_state_ids [simp]: "map tab_id (put_state tabs i st) = map tab_id tabs"
proof (cases "i < length tabs")
  case True
  then show ?thesis by (simp add: put_state_def map_update list_update_same_conv)
qed (simp add: put_state_def list_update_beyond)

text \<open>A write to a cluster tab that touches only its details, each detail tab as \<open>R\<close> says.\<close>

definition only_details :: "(detail_tab \<Rightarrow> detail_tab \<Rightarrow> bool) \<Rightarrow> tab_state \<Rightarrow> tab_state \<Rightarrow> bool" where
  "only_details R st st' \<longleftrightarrow>
     list_all2 R (ts_detailTabs st) (ts_detailTabs st')
     \<and> (\<exists>dd col. st' = st\<lparr>ts_detailTabs := ts_detailTabs st', ts_detailData := dd, ts_isDetailsPanelCollapsed := col\<rparr>)"

lemma only_detailsI:
  "list_all2 R (ts_detailTabs st) dts \<Longrightarrow> st' = st\<lparr>ts_detailTabs := dts, ts_detailData := dd, ts_isDetailsPanelCollapsed := col\<rparr> \<Longrightarrow>
     only_details R st st'"
  by (auto simp: only_details_def)

definition written_tab :: "string \<Rightarrow> (detail_tab \<Rightarrow> detail_tab \<Rightarrow> bool) \<Rightarrow> tab \<Rightarrow> tab \<Rightarrow> bool" where
  "written_tab c R t t' \<longleftrightarrow> t' = t \<or> (tab_id t = c \<and> tab_id t' = c \<and> tab_name t' = tab_name t \<and> only_details R (tab_st t) (tab_st t'))"

definition written_ws :: "string \<Rightarrow> (detail_tab \<Rightarrow> detail_tab \<Rightarrow> bool) \<Rightarrow> ws \<Rightarrow> ws \<Rightarrow> bool" where
  "written_ws c R w w' \<longleftrightarrow>
     w' = w\<lparr>ws_activeTabs := ws_activeTabs w'\<rparr> \<and> list_all2 (written_tab c R) (ws_activeTabs w) (ws_activeTabs w')"

lemma list_all2_map_same: "(\<And>x. x \<in> set xs \<Longrightarrow> R x (f x)) \<Longrightarrow> list_all2 R xs (map f xs)"
  by (simp add: list_all2_conv_all_nth)

lemma written_refl [simp]: "written_ws c R w w"
  by (simp add: written_ws_def written_tab_def list.rel_refl)

lemma written_put:
  assumes i: "tab_index (ws_activeTabs w) c = Some i"
    and st: "only_details R (tab_st (ws_activeTabs w ! i)) st"
  shows "written_ws c R w (w\<lparr>ws_activeTabs := put_state (ws_activeTabs w) i st\<rparr>)"
proof -
  note at = tab_index_at [OF i]
  have "written_tab c R (ws_activeTabs w ! j) (put_state (ws_activeTabs w) i st ! j)" if "j < length (ws_activeTabs w)" for j
    using that at st by (cases "j = i") (simp_all add: put_state_def written_tab_def)
  then show ?thesis by (simp add: written_ws_def list_all2_conv_all_nth) (simp add: put_state_def)
qed

lemma written_put_update:
  assumes "\<And>i st. tab_index (ws_activeTabs w) c = Some i \<Longrightarrow> g i (tab_st (ws_activeTabs w ! i)) = Some st \<Longrightarrow>
      only_details R (tab_st (ws_activeTabs w ! i)) st"
    and "\<And>tabs. change (ws_activeTabs w) = Some tabs \<Longrightarrow>
      \<exists>i st. tab_index (ws_activeTabs w) c = Some i \<and> g i (tab_st (ws_activeTabs w ! i)) = Some st \<and> tabs = put_state (ws_activeTabs w) i st"
  shows "written_ws c R w (updateTabs change w)"
proof (cases "change (ws_activeTabs w)")
  case (Some tabs)
  with assms(2) obtain i st where "tab_index (ws_activeTabs w) c = Some i" "g i (tab_st (ws_activeTabs w ! i)) = Some st"
    "tabs = put_state (ws_activeTabs w) i st" by blast
  with Some show ?thesis using written_put assms(1) by (simp add: updateTabs_def)
qed (simp add: updateTabs_def)

lemma if_None_Some: "(if P then None else Some x) = Some y \<Longrightarrow> x = y"
  by (simp split: if_split_asm)

section \<open>Details\<close>

text \<open>A detail tab after the details \<open>d\<close> came: as it was, or showing them.\<close>

definition only_fresh :: "string \<Rightarrow> kube_object \<Rightarrow> detail_tab \<Rightarrow> detail_tab \<Rightarrow> bool" where
  "only_fresh c d dt dt' \<longleftrightarrow> dt' = dt \<or>
     (of_cluster dt c \<and> or_name (tabRef dt) \<noteq> [] \<and> tabRef dt' = refOf d (dt_resource dt)
      \<and> or_name (tabRef dt') = or_name (tabRef dt) \<and> or_namespace (tabRef dt') = or_namespace (tabRef dt)
      \<and> dt_id dt' = dt_id dt \<and> dt_isPinned dt' = dt_isPinned dt \<and> dt_isDeleted dt' = Some False
      \<and> (ko_events (dt_item dt') = ko_events d \<or> ko_events (dt_item dt') = ko_events (dt_item dt) \<and> \<not> tab_recreated dt d)
      \<and> (dt_isRecreated dt' = Some True \<longleftrightarrow> tab_recreated dt d \<or> dt_isRecreated dt = Some True))"

lemma freshTab_fresh: "showsObject dt c (refOf d None) \<Longrightarrow> only_fresh c d dt (freshTab dt d)"
proof -
  assume s: "showsObject dt c (refOf d None)"
  then have n: "or_name (tabRef dt) \<noteq> []" "or_name (refOf d None) = or_name (tabRef dt)"
    "or_namespace (refOf d None) = or_namespace (tabRef dt)"
    using sameObject_named [of "tabRef dt" "refOf d None"] by (simp_all add: showsObject_def)
  have r: "tabRef (freshTab dt d) = refOf d (dt_resource dt)"
    by (simp add: tabRef_def freshTab_def Let_def)
  have e: "ko_events (dt_item (freshTab dt d)) = ko_events d
      \<or> ko_events (dt_item (freshTab dt d)) = ko_events (dt_item dt) \<and> \<not> tab_recreated dt d"
    by (simp add: freshTab_def Let_def)
  have f: "dt_id (freshTab dt d) = dt_id dt" "dt_isPinned (freshTab dt d) = dt_isPinned dt" "dt_isDeleted (freshTab dt d) = Some False"
    "dt_isRecreated (freshTab dt d) = Some True \<longleftrightarrow> tab_recreated dt d \<or> dt_isRecreated dt = Some True"
    by (simp_all add: freshTab_def Let_def)
  show ?thesis
    using s n r e f refOf_named [of d "dt_resource dt" None] unfolding only_fresh_def showsObject_def by simp
qed

lemma details_state_only: "details_state same c d reveal st = Some st' \<Longrightarrow> only_details (only_fresh c d) st st'"
proof -
  assume st': "details_state same c d reveal st = Some st'"
  let ?f = "\<lambda>dt. if \<not> same (dt_item dt) \<and> showsObject dt c (refOf d None) then freshTab dt d else dt"
  have "only_fresh c d dt (?f dt)" for dt using freshTab_fresh by (simp add: only_fresh_def)
  then have "list_all2 (only_fresh c d) (ts_detailTabs st) (map ?f (ts_detailTabs st))" by (intro list_all2_map_same)
  moreover have "list_all2 (only_fresh c d) (ts_detailTabs st) (ts_detailTabs st)" by (intro list.rel_refl) (simp add: only_fresh_def)
  ultimately have "list_all2 (only_fresh c d) (ts_detailTabs st) (if ch then map ?f (ts_detailTabs st) else ts_detailTabs st)" for ch
    by simp
  then show ?thesis
    by (rule only_detailsI [OF _ if_None_Some [OF st' [unfolded details_state_def Let_def], symmetric]])
qed

lemma applyDetails_put: "applyDetailsToTabs same tabs c d reveal = Some tabs' \<Longrightarrow>
    \<exists>i st e. tab_index tabs c = Some i \<and> d = Some e \<and> details_state same c e reveal (tab_st (tabs ! i)) = Some st \<and> tabs' = put_state tabs i st"
  by (auto simp: applyDetailsToTabs_def split: option.splits)

lemma applyLoaded_details: "applyLoadedDetails same tabs c d = Some tabs' \<Longrightarrow> applyDetailsToTabs same tabs c d True = Some tabs'"
  by (auto simp: applyLoadedDetails_def Let_def split: option.splits if_split_asm)

lemma applyDetails_written:
  assumes "applyDetailsToTabs same (ws_activeTabs w) c (Some d) reveal = Some tabs'"
  shows "written_ws c (only_fresh c d) w (w\<lparr>ws_activeTabs := tabs'\<rparr>)"
proof -
  obtain i st where i: "tab_index (ws_activeTabs w) c = Some i" "details_state same c d reveal (tab_st (ws_activeTabs w ! i)) = Some st"
    "tabs' = put_state (ws_activeTabs w) i st"
    using applyDetails_put [OF assms] by auto
  show ?thesis unfolding i(3) by (rule written_put [OF i(1) details_state_only [OF i(2)]])
qed

section \<open>Deleted objects and events\<close>

definition only_deleted :: "string \<Rightarrow> object_ref \<Rightarrow> detail_tab \<Rightarrow> detail_tab \<Rightarrow> bool" where
  "only_deleted c ref dt dt' \<longleftrightarrow>
     dt' = (if showsObject dt c ref then dt\<lparr>dt_isDeleted := Some True\<rparr> else dt)"

lemma deleted_state_only: "deleted_state c ref st = Some st' \<Longrightarrow> only_details (only_deleted c ref) st st'"
proof -
  assume st': "deleted_state c ref st = Some st'"
  let ?f = "\<lambda>dt. if dt_isDeleted dt \<noteq> Some True \<and> showsObject dt c ref then dt\<lparr>dt_isDeleted := Some True\<rparr> else dt"
  have "dt\<lparr>dt_isDeleted := Some True\<rparr> = dt" if "dt_isDeleted dt = Some True" for dt :: detail_tab
    using that by (cases dt) simp
  then have "list_all2 (only_deleted c ref) (ts_detailTabs st) (map ?f (ts_detailTabs st))"
    by (intro list_all2_map_same) (simp add: only_deleted_def)
  moreover have "st' = st\<lparr>ts_detailTabs := map ?f (ts_detailTabs st), ts_detailData := ts_detailData st,
      ts_isDetailsPanelCollapsed := ts_isDetailsPanelCollapsed st\<rparr>"
    using st' by (simp add: deleted_state_def Let_def split: if_split_asm)
  ultimately show ?thesis by (rule only_detailsI)
qed

definition only_events :: "string \<Rightarrow> object_ref \<Rightarrow> json list \<Rightarrow> detail_tab \<Rightarrow> detail_tab \<Rightarrow> bool" where
  "only_events c ref events dt dt' \<longleftrightarrow> dt' = dt \<or>
     (of_cluster dt c \<and> same_incarnation (tabRef dt) ref \<and> dt' = dt\<lparr>dt_item := (dt_item dt)\<lparr>ko_events := Some events\<rparr>\<rparr>)"

lemma events_state_only: "events_state sameE c ref events st = Some st' \<Longrightarrow> only_details (only_events c ref events) st st'"
proof -
  assume st': "events_state sameE c ref events st = Some st'"
  let ?hit = "\<lambda>dt. of_cluster dt c \<and> same_incarnation (tabRef dt) ref \<and> \<not> sameE (ko_events (dt_item dt))"
  let ?f = "\<lambda>dt. if ?hit dt then dt\<lparr>dt_item := (dt_item dt)\<lparr>ko_events := Some events\<rparr>\<rparr> else dt"
  have "list_all2 (only_events c ref events) (ts_detailTabs st) (map ?f (ts_detailTabs st))"
    by (intro list_all2_map_same) (simp add: only_events_def)
  moreover obtain dd where "st' = st\<lparr>ts_detailTabs := map ?f (ts_detailTabs st), ts_detailData := dd\<rparr>"
    using st' by (auto simp: events_state_def Let_def split: if_split_asm)
  then have "st' = st\<lparr>ts_detailTabs := map ?f (ts_detailTabs st), ts_detailData := dd,
      ts_isDetailsPanelCollapsed := ts_isDetailsPanelCollapsed st\<rparr>" by simp
  ultimately show ?thesis by (rule only_detailsI)
qed

lemma markDeleted_written: "written_ws c (only_deleted c ref) w (updateTabs (\<lambda>tabs. markDetailsDeleted tabs c ref) w)"
proof (cases "markDetailsDeleted (ws_activeTabs w) c ref")
  case (Some tabs)
  then obtain i st where i: "tab_index (ws_activeTabs w) c = Some i" "deleted_state c ref (tab_st (ws_activeTabs w ! i)) = Some st"
    "tabs = put_state (ws_activeTabs w) i st"
    by (auto simp: markDetailsDeleted_def split: option.splits if_split_asm)
  show ?thesis using Some written_put [OF i(1) deleted_state_only [OF i(2)]] i(3) by (simp add: updateTabs_def)
qed (simp add: updateTabs_def)

lemma applyEvents_written:
  "written_ws c (only_events c (refOf details None) events) w (updateTabs (\<lambda>tabs. applyEventsToTabs sameE tabs c details events) w)"
proof (cases "applyEventsToTabs sameE (ws_activeTabs w) c details events")
  case (Some tabs)
  then obtain i st where i: "tab_index (ws_activeTabs w) c = Some i"
    "events_state sameE c (refOf details None) events (tab_st (ws_activeTabs w ! i)) = Some st"
    "tabs = put_state (ws_activeTabs w) i st"
    by (auto simp: applyEventsToTabs_def Let_def split: option.splits if_split_asm)
  show ?thesis using Some written_put [OF i(1) events_state_only [OF i(2)]] i(3) by (simp add: updateTabs_def)
qed (simp add: updateTabs_def)

section \<open>Sessions\<close>

lemma take_task_do: "answered_by b i w \<Longrightarrow> take_task i f w = f (dw_tasks w ! i) (w\<lparr>dw_tasks := take i (dw_tasks w) @ drop (Suc i) (dw_tasks w)\<rparr>)"
  by (simp add: take_task_def answered_by_def)

text \<open>Events under way were asked for, and not for another incarnation of the object they are for.\<close>

definition task_ok :: "detail_call list \<Rightarrow> detail_task \<Rightarrow> bool" where
  "task_ok calls k =
     (case k of
        DetailsTask sg c r ref ty \<Rightarrow> or_name ref = [] \<or> AskEvents c r ref \<in> set calls
      | RefreshTask sg c r ref \<Rightarrow> True
      | EventsTask sg c details ref \<Rightarrow>
          (or_name ref = [] \<or> (\<exists>r. AskEvents c r ref \<in> set calls))
          \<and> (or_uid ref = [] \<or> or_uid (refOf details None) = [] \<or> or_uid ref = or_uid (refOf details None)))"

definition tasks_ok :: "detail_world \<Rightarrow> bool" where
  "tasks_ok w = list_all (task_ok (dw_calls w)) (dw_tasks w)"

lemma task_ok_more: "task_ok calls k \<Longrightarrow> task_ok (calls @ cs) k"
  by (cases k) (auto simp: task_ok_def)

lemma tasks_ok_asked: "tasks_ok w \<Longrightarrow> tasks_ok (asked cs w)"
  unfolding tasks_ok_def asked_def list_all_iff by (auto intro: task_ok_more)

lemma tasks_ok_await: "tasks_ok w \<Longrightarrow> task_ok (dw_calls w) k \<Longrightarrow> tasks_ok (awaiting k w)"
  by (simp add: tasks_ok_def awaiting_def)

lemma tasks_ok_ws [simp]: "tasks_ok (on_dw f w) = tasks_ok w" "tasks_ok (w\<lparr>dw_aborted := a\<rparr>) = tasks_ok w"
  by (simp_all add: tasks_ok_def on_dw_def)

lemma dw_calls_simps [simp]: "dw_calls (on_dw f w) = dw_calls w" "dw_calls (asked cs w) = dw_calls w @ cs"
  by (simp_all add: on_dw_def asked_def)

lemma tasks_ok_loaded: "tasks_ok w \<Longrightarrow> or_name ref = [] \<or> AskEvents c r ref \<in> set (dw_calls w) \<Longrightarrow> tasks_ok (details_loaded same sg c r ref d w)"
  unfolding details_loaded_def Let_def
  by (auto simp: task_ok_def refOf_uid [of _ "Some r" None] intro!: tasks_ok_await tasks_ok_asked split: option.splits)

lemma tasks_ok_missing: "tasks_ok w \<Longrightarrow> tasks_ok (details_missing sg c ref w)"
  by (simp add: details_missing_def)

lemma tasks_ok_refreshed: "tasks_ok w \<Longrightarrow> tasks_ok (details_refreshed same sg c r d w)"
  unfolding details_refreshed_def Let_def
  by (auto simp: task_ok_def refOf_uid [of _ "Some r" None] intro!: tasks_ok_await tasks_ok_asked)

lemma tasks_ok_came: "tasks_ok w \<Longrightarrow> task_ok (dw_calls w) k \<Longrightarrow> tasks_ok (details_came same now k ans w)"
  by (auto simp: details_came_def task_ok_def tasks_ok_loaded tasks_ok_missing tasks_ok_refreshed
      split: detail_task.split sum.split load_failure.split option.split)

lemma tasks_ok_events: "tasks_ok w \<Longrightarrow> tasks_ok (events_came sameE k ans w)"
  by (auto simp: events_came_def split: detail_task.split option.split)

lemma tasks_ok_taken: "tasks_ok w \<Longrightarrow> i < length (dw_tasks w) \<Longrightarrow>
    tasks_ok (w\<lparr>dw_tasks := take i (dw_tasks w) @ drop (Suc i) (dw_tasks w)\<rparr>) \<and> task_ok (dw_calls w) (dw_tasks w ! i)"
  unfolding tasks_ok_def list_all_iff by (auto dest: in_set_takeD in_set_dropD)

lemma tasks_ok_do: "tasks_ok w \<Longrightarrow> tasks_ok (detail_do ev w)"
proof (cases ev)
  case (Load sg ty now c r o')
  assume "tasks_ok w"
  then show ?thesis using Load by (auto simp: loadDetails_def Let_def task_ok_def intro!: tasks_ok_await tasks_ok_asked)
next
  case (Refresh sg c r o')
  assume "tasks_ok w"
  then show ?thesis using Refresh by (auto simp: refreshDetails_def Let_def task_ok_def intro!: tasks_ok_await tasks_ok_asked)
next
  case (LoadEvents sg c r o')
  assume "tasks_ok w"
  then show ?thesis using LoadEvents
    by (auto simp: loadResourceEvents_def Let_def task_ok_def refOf_uid [of _ "Some r" None] intro!: tasks_ok_await tasks_ok_asked)
next
  case (DetailsCame same now i ans)
  assume "tasks_ok w"
  then show ?thesis using DetailsCame tasks_ok_taken by (simp add: take_task_do) (simp add: answered_by_def tasks_ok_came)
next
  case (EventsCame sameE i ans)
  assume "tasks_ok w"
  then show ?thesis using EventsCame tasks_ok_taken by (simp add: take_task_do) (simp add: answered_by_def tasks_ok_events)
qed simp_all

definition detail_start :: "ws \<Rightarrow> detail_world" where
  "detail_start s = \<lparr>dw_ws = s, dw_aborted = [], dw_tasks = [], dw_calls = []\<rparr>"

lemma tasks_ok_run: "tasks_ok w \<Longrightarrow> tasks_ok (detail_run evs w)"
  unfolding detail_run_def by (induction evs arbitrary: w) (simp_all add: tasks_ok_do)

lemma tasks_ok_reachable: "tasks_ok (detail_run evs (detail_start s))"
  by (rule tasks_ok_run) (simp add: tasks_ok_def detail_start_def)

section \<open>The answer to a load\<close>

lemma find_map_keep: "(\<And>x. P (f x) = P x) \<Longrightarrow> find P (map f xs) = map_option f (find P xs)"
  by (induction xs) auto

lemma freshTab_id [simp]: "dt_id (freshTab dt d) = dt_id dt"
  by (simp add: freshTab_def Let_def)

lemma details_state_active:
  assumes dt: "active_detail (ts_detailTabs st) st = Some dt" "dt_id dt \<noteq> []"
    and hit: "showsObject dt c (refOf d None)" "\<not> same (dt_item dt)"
  shows "\<exists>st'. details_state same c d True st = Some st' \<and> active_detail (ts_detailTabs st') st' = Some (freshTab dt d)
     \<and> ts_detailData st' = Some (dt_item (freshTab dt d)) \<and> \<not> ts_isDetailsPanelCollapsed st'"
proof -
  let ?hit = "\<lambda>dt. \<not> same (dt_item dt) \<and> showsObject dt c (refOf d None)"
  let ?f = "\<lambda>dt. if ?hit dt then freshTab dt d else dt"
  have act: "ts_activeDetailTab st = Some (dt_id dt)" "dt \<in> set (ts_detailTabs st)"
    using dt(1) by (auto simp: active_detail_def find_Some_iff)
  then have upd: "dt_id dt \<in> set (map dt_id (filter ?hit (ts_detailTabs st)))" using hit by auto
  then have ne: "map dt_id (filter ?hit (ts_detailTabs st)) \<noteq> []" by (cases "map dt_id (filter ?hit (ts_detailTabs st))") simp_all
  have "find (\<lambda>x. Some (dt_id x) = ts_activeDetailTab st) (map ?f (ts_detailTabs st)) = map_option ?f (Some dt)"
    using find_map_keep [of "\<lambda>x. Some (dt_id x) = ts_activeDetailTab st" ?f "ts_detailTabs st"] dt(1)
    by (simp add: active_detail_def)
  then have new: "find (\<lambda>x. Some (dt_id x) = ts_activeDetailTab st) (map ?f (ts_detailTabs st)) = Some (freshTab dt d)"
    using hit by simp
  show ?thesis
    unfolding details_state_def Let_def
    using ne upd act(1) dt(2) new by (simp add: active_detail_def del: map_is_Nil_conv set_map)
qed

lemma applyLoaded_active:
  assumes j: "tab_index tabs c = Some j" "st = tab_st (tabs ! j)"
    and dt: "active_detail (ts_detailTabs st) st = Some dt" "dt_id dt \<noteq> []"
    and hit: "showsObject dt c (refOf d None)" "\<not> same (dt_item dt)"
  shows "\<exists>tabs'. applyLoadedDetails same tabs c (Some d) = Some tabs' \<and> (let st' = tab_st (tabs' ! j) in
      active_detail (ts_detailTabs st') st' = Some (freshTab dt d) \<and> ts_detailData st' = Some (dt_item (freshTab dt d))
      \<and> \<not> ts_isDetailsPanelCollapsed st')"
proof -
  obtain st' where st': "details_state same c d True st = Some st'" "active_detail (ts_detailTabs st') st' = Some (freshTab dt d)"
    "ts_detailData st' = Some (dt_item (freshTab dt d))" "\<not> ts_isDetailsPanelCollapsed st'"
    using details_state_active [of st dt c d same] dt hit by blast
  have "ts_activeDetailTab st = Some (dt_id dt)" using dt(1) by (auto simp: active_detail_def find_Some_iff)
  then have "truthy_str (ts_activeDetailTab st)" using dt(2) by simp
  then have "applyLoadedDetails same tabs c (Some d) = Some (put_state tabs j st')"
    using j st'(1) by (simp add: applyLoadedDetails_def applyDetailsToTabs_def Let_def split: option.split)
  moreover have "tab_st (put_state tabs j st' ! j) = st'" using tab_index_at [OF j(1)] by (simp add: put_state_def)
  ultimately show ?thesis using st' by (simp add: Let_def)
qed

lemma details_loaded_ws:
  "dw_ws (details_loaded same sg c r ref (Some d) w) =
     (case applyLoadedDetails same (ws_activeTabs (dw_ws w)) c (Some d) of
        None \<Rightarrow> dw_ws w | Some tabs \<Rightarrow> (dw_ws w)\<lparr>ws_activeTabs := tabs\<rparr>)"
  by (simp add: details_loaded_def Let_def awaiting_def asked_def on_dw_def split: option.split)

lemma written_mono: "written_ws c R w w' \<Longrightarrow> (\<And>dt dt'. R dt dt' \<Longrightarrow> S dt dt') \<Longrightarrow> written_ws c S w w'"
proof -
  assume w: "written_ws c R w w'" and RS: "\<And>dt dt'. R dt dt' \<Longrightarrow> S dt dt'"
  have "only_details S st st'" if "only_details R st st'" for st st'
    using that RS unfolding only_details_def by (metis list_all2_mono)
  then have "written_tab c S t t'" if "written_tab c R t t'" for t t' using that unfolding written_tab_def by blast
  then show ?thesis using w unfolding written_ws_def by (metis list_all2_mono)
qed

section \<open>Properties\<close>


text \<open>Details of one detail tab, in one cluster.\<close>

definition pod_object :: "string \<Rightarrow> string \<Rightarrow> kube_object" where
  "pod_object name uid = empty_object\<lparr>ko_metaName := Some name, ko_metaNamespace := Some ''ns'', ko_kind := Some ''Pod'',
     ko_apiVersion := Some ''v1'', ko_metaUid := Some uid\<rparr>"

definition pods :: resource where
  "pods = mk_resource ''pods'' [] ''v1'' ''Pod'' True"

definition shown_pod :: "kube_object \<Rightarrow> ws" where
  "shown_pod o' = ws_init\<lparr>ws_activeTabs := [\<lparr>tab_id = ''dev'', tab_name = ''dev'', tab_st = createInitialTabState
     \<lparr>ts_detailTabs := [\<lparr>dt_id = ''d'', dt_title = ''web'', dt_resource = Some pods, dt_item = o', dt_cluster = ''dev'', dt_isPinned = False,
         dt_location = Some InDetail, dt_paneId = None, dt_isDeleted = None, dt_isRecreated = None\<rparr>],
      ts_activeDetailTab := Some ''d'', ts_detailData := Some o'\<rparr>\<rparr>],
     ws_tabIndexMap := [(''dev'', 0)], ws_currentTab := Some ''dev''\<rparr>"

definition pod_loading :: detail_world where
  "pod_loading = detail_do (Load None None 0 ''dev'' pods (pod_object ''web'' ''u1'')) (detail_start (shown_pod (pod_object ''web'' ''u1'')))"

definition shown_detail :: "ws \<Rightarrow> kube_object option" where
  "shown_detail w = Option.bind (getCurrentTabState w) ts_detailData"


text \<open>The detail tabs that events reach.\<close>

definition events_for :: "string \<Rightarrow> kube_object \<Rightarrow> object_ref \<Rightarrow> detail_tab \<Rightarrow> detail_tab \<Rightarrow> bool" where
  "events_for c details wanted dt dt' \<longleftrightarrow> dt' = dt \<or>
     (of_cluster dt c \<and> or_name (tabRef dt) = or_name (refOf details None) \<and> or_namespace (tabRef dt) = or_namespace (refOf details None)
      \<and> (or_uid wanted = [] \<or> or_uid (tabRef dt) = [] \<or> or_uid (tabRef dt) = or_uid wanted)
      \<and> (\<exists>events. dt' = dt\<lparr>dt_item := (dt_item dt)\<lparr>ko_events := Some events\<rparr>\<rparr>))"

lemma only_events_for:
  assumes "or_uid ref = [] \<or> or_uid ref = or_uid (refOf details None)" "or_uid (refOf details None) \<noteq> []"
    and e: "only_events c (refOf details None) events dt dt'"
  shows "events_for c details ref dt dt'"
proof (cases "dt' = dt")
  case False
  with e have "of_cluster dt c" and s: "same_incarnation (tabRef dt) (refOf details None)"
    and u: "dt' = dt\<lparr>dt_item := (dt_item dt)\<lparr>ko_events := Some events\<rparr>\<rparr>" by (simp_all add: only_events_def)
  moreover have "sameObject (tabRef dt) (refOf details None)"
    "or_uid (tabRef dt) = [] \<or> or_uid (refOf details None) = [] \<or> or_uid (tabRef dt) = or_uid (refOf details None)"
    using s by (simp_all add: same_incarnation_def)
  moreover have "or_name (tabRef dt) = or_name (refOf details None)" "or_namespace (tabRef dt) = or_namespace (refOf details None)"
    using sameObject_named calculation(4) by auto
  moreover have "or_uid ref = [] \<or> or_uid (tabRef dt) = [] \<or> or_uid (tabRef dt) = or_uid ref" using calculation(5) assms(1,2) by auto
  ultimately show ?thesis unfolding events_for_def by blast
qed (simp add: events_for_def)

lemma events_came_written:
  assumes "or_uid ref = [] \<or> or_uid ref = or_uid (refOf details None)" "or_uid (refOf details None) \<noteq> []"
  shows "written_ws c (events_for c details ref) (dw_ws v) (dw_ws (events_came sameE (EventsTask sg c details ref) ans v))"
proof -
  have "written_ws c (events_for c details ref) (dw_ws v)
      (updateTabs (\<lambda>tabs. applyEventsToTabs sameE tabs c details events) (dw_ws v))" for events
    by (rule written_mono [OF applyEvents_written only_events_for [OF assms]])
  then show ?thesis by (simp add: events_came_def on_dw_def split: option.split)
qed


text \<open>The pod is recreated while its details load: its events are asked for again.\<close>

definition pod_recreated :: "detail_event list" where
  "pod_recreated = [Load None None 0 ''dev'' pods (pod_object ''web'' ''u1''),
     DetailsCame (\<lambda>_. False) 0 0 (Inr (Some (pod_object ''web'' ''u2'')))]"


section \<open>An action on a deleted object\<close>

lemma marked_detail:
  "Option.bind (getCurrentTabState (updateTabs (\<lambda>tabs. markDetailsDeleted tabs c ref) w)) ts_detailData
     = Option.bind (getCurrentTabState w) ts_detailData"
proof (cases "markDetailsDeleted (ws_activeTabs w) c ref")
  case (Some tabs)
  then obtain i st where i: "tab_index (ws_activeTabs w) c = Some i" "deleted_state c ref (tab_st (ws_activeTabs w ! i)) = Some st"
    "tabs = put_state (ws_activeTabs w) i st"
    by (auto simp: markDetailsDeleted_def split: option.splits if_split_asm)
  have "ts_detailData st = ts_detailData (tab_st (ws_activeTabs w ! i))"
    using i(2) by (auto simp: deleted_state_def Let_def split: if_split_asm)
  then show ?thesis
    using Some i tab_index_at [OF i(1)]
    by (auto simp: updateTabs_def getCurrentTabState_def current_index_def nth_opt_def put_state_def nth_list_update split: option.split)
qed (simp add: updateTabs_def)

text \<open>C31: The editor or the shell asked for an object that was deleted meanwhile opens on the
  object whose details are on screen, whichever it is.\<close>

theorem action_on_deleted_opens_shown:
  assumes i: "i < length (dw_tasks w)" and k: "dw_tasks w ! i = DetailsTask None c r ref (Some b)"
    and sd: "shown_detail (dw_ws w) = Some o'"
    and w': "w' = detail_do (DetailsCame same now i (Inl NotFound)) w"
  shows "dw_ws w' = openBottomTab now b o' c (updateTabs (\<lambda>tabs. markDetailsDeleted tabs c ref) (dw_ws w))"
  using i k sd marked_detail [of c ref "dw_ws w"]
  by (simp add: w' answered_by_def take_task_def details_came_def details_missing_def aborted_signal_def on_dw_def
      opened_after_def shown_detail_def)

definition deleted_under_action :: detail_world where
  "deleted_under_action = detail_do (Load None (Some Shell) 0 ''dev'' pods (pod_object ''gone'' ''u3''))
     (detail_start (shown_pod (pod_object ''web'' ''u1'')))"

lemma action_on_deleted_opens_shown_witness:
  "map (\<lambda>t. obj_name (bt_resource t)) (ws_bottomTabs (dw_ws
     (detail_do (DetailsCame (\<lambda>_. False) 5 0 (Inl NotFound)) deleted_under_action))) = [Some ''web'']"
proof -
  have i: "0 < length (dw_tasks deleted_under_action)" by code_simp
  have k: "dw_tasks deleted_under_action ! 0
      = DetailsTask None ''dev'' pods (refOf (pod_object ''gone'' ''u3'') (Some pods)) (Some Shell)" by code_simp
  have s: "shown_detail (dw_ws deleted_under_action) = Some (pod_object ''web'' ''u1'')" by code_simp
  have "map (\<lambda>t. obj_name (bt_resource t)) (ws_bottomTabs (openBottomTab 5 Shell (pod_object ''web'' ''u1'') ''dev''
      (updateTabs (\<lambda>tabs. markDetailsDeleted tabs ''dev'' (refOf (pod_object ''gone'' ''u3'') (Some pods))) (dw_ws deleted_under_action))))
      = [Some ''web'']" by code_simp
  then show ?thesis using action_on_deleted_opens_shown [OF i k s refl, where same = "\<lambda>_. False" and now = 5] by (simp del: detail_do.simps)
qed

end
