(* ===== verification/TreeNodes.thy ===== *)
theory TreeNodes
  imports RealtimeBatches
begin

text \<open>
  The sidebar's tree: its nodes and the counts kept on them. The pure part of \<open>loadTreeData\<close> and
  \<open>expandNode\<close> (\<open>store/resourceSlice.ts\<close>) and \<open>store/keepKnownCounts.ts\<close>.

  A resource type from the backend carries its count (\<open>rr_count\<close>), whether the backend counted
  it and whether the count may still come (\<open>rr_countFetched\<close>, \<open>rr_countPending\<close>).
\<close>

section \<open>Counts on screen\<close>

definition known_nodes :: "tree_node list option \<Rightarrow> (string, tree_node) jsmap" where
  "known_nodes existing = (case existing of None \<Rightarrow> [] | Some l \<Rightarrow> js_map_of (map (\<lambda>n. (tn_id n, n)) l))"

definition was_counted :: "node_info \<Rightarrow> bool" where
  "was_counted info =
     (case ni_data info of None \<Rightarrow> False | Some r \<Rightarrow> rr_countFetched r = Some True \<and> rr_countPending r \<noteq> Some True)"

definition kept_count :: "node_info \<Rightarrow> node_info \<Rightarrow> int option" where
  "kept_count info previous = (if ni_count info \<noteq> None \<or> was_counted info then ni_count info else ni_count previous)"

fun keepKnownCounts :: "tree_node list option \<Rightarrow> tree_node list \<Rightarrow> tree_node list" where
  "keepKnownCounts existing [] = []"
| "keepKnownCounts existing (TreeNode info cs # nodes) =
     (case jm_get (known_nodes existing) (ni_id info) of
        None \<Rightarrow> TreeNode info cs
      | Some previous \<Rightarrow>
          TreeNode (info\<lparr>ni_count := kept_count info (tn_info previous)\<rparr>)
            (case cs of None \<Rightarrow> None | Some l \<Rightarrow> Some (keepKnownCounts (tn_children previous) l)))
     # keepKnownCounts existing nodes"

definition anyCountPending :: "resource list \<Rightarrow> bool" where
  "anyCountPending resources = list_ex (\<lambda>r. rr_countPending r = Some True) resources"

section \<open>The nodes of a category\<close>

definition type_id :: "string \<Rightarrow> resource \<Rightarrow> string" where
  "type_id cat r =
     cat @ ''-'' @ str_or (rr_group r) ''core'' @ ''-'' @ in_template (rr_version r) @ ''-'' @ in_template (rr_name r)"

definition leaf_node :: "string \<Rightarrow> string \<Rightarrow> resource \<Rightarrow> int option \<Rightarrow> tree_node" where
  "leaf_node nodeId label data n =
     TreeNode \<lparr>ni_id = nodeId, ni_label = label, ni_type = ''resource'', ni_data = Some data, ni_expanded = None, ni_count = n,
       ni_icon = None, ni_hideCount = None, ni_disabled = None, ni_section = None\<rparr> None"

definition served_name :: "resource \<Rightarrow> string" where
  "served_name r = nullish (rr_name r) []"

definition kind_label :: "resource \<Rightarrow> string" where
  "kind_label r = str_or (rr_kind r) (served_name r)"

definition predefined_nodes :: "string \<Rightarrow> resource list \<Rightarrow> tree_node list" where
  "predefined_nodes cat resources = map (\<lambda>r. leaf_node (type_id cat r) (served_name r) r None) resources"

text \<open>The predefined types with what the backend knows of them, then the backend's other types.\<close>

definition merged_nodes :: "string \<Rightarrow> resource list \<Rightarrow> resource list \<Rightarrow> tree_node list" where
  "merged_nodes cat predefined counted =
     (let backend = js_map_of (map (\<lambda>r. (rr_name r, r)) counted);
          merged = predefined @ filter (\<lambda>b. \<not> list_ex (\<lambda>p. rr_name p = rr_name b) predefined) counted
      in map (\<lambda>r. case jm_get backend (rr_name r) of
             None \<Rightarrow> leaf_node (type_id cat r) (served_name r) r None
           | Some b \<Rightarrow>
               leaf_node (cat @ ''-'' @ str_or (rr_group b) (str_or (rr_group r) ''core'') @ ''-''
                   @ in_template (opt_or (rr_version b) (rr_version r)) @ ''-'' @ in_template (rr_name r))
                 (served_name r) b (rr_count b)) merged)"

definition page_node :: "string \<Rightarrow> string \<Rightarrow> string \<Rightarrow> string \<Rightarrow> tree_node" where
  "page_node cluster nodeId label ty = mk_node nodeId label ty (no_resource\<lparr>rr_cluster := Some cluster\<rparr>)"

definition makeGitOpsNode :: "string \<Rightarrow> string \<Rightarrow> tree_node" where
  "makeGitOpsNode cluster cat =
     page_node cluster (if cat = ''flux'' then ''gitops-overview'' else ''gitops-overview-'' @ cat) ''GitOps'' ''gitops''"

definition makeArgoOverviewNode :: "string \<Rightarrow> tree_node" where
  "makeArgoOverviewNode cluster = page_node cluster ''argo-overview'' ''Apps Overview'' ''argo-overview''"

definition makeCNPGOverviewNode :: "string \<Rightarrow> tree_node" where
  "makeCNPGOverviewNode cluster = page_node cluster ''cnpg-overview'' ''PostgreSQL clusters'' ''cnpg-overview''"

definition categoryPageNodes :: "string \<Rightarrow> string \<Rightarrow> tree_node list" where
  "categoryPageNodes cluster cat =
     (if cat = ''argocd'' then [makeArgoOverviewNode cluster, makeGitOpsNode cluster cat]
      else if cat = ''flux'' then [makeGitOpsNode cluster cat]
      else if cat = ''cnpg'' then [makeCNPGOverviewNode cluster] else [])"

definition group_by_version :: "resource list \<Rightarrow> (string, resource list) jsmap" where
  "group_by_version resources =
     foldl (\<lambda>m r. let key = in_template (rr_group r) @ ''/'' @ in_template (rr_version r) in
         jm_set m key (nullish (jm_get m key) [] @ [r])) [] resources"

text \<open>\<open>apiVersion.replace('/', '-')\<close>: the first one.\<close>

fun dash_first :: "string \<Rightarrow> string" where
  "dash_first [] = []"
| "dash_first (c # s) = (if c = CHR ''/'' then CHR ''-'' # s else c # dash_first s)"

definition version_node :: "string \<Rightarrow> string list \<Rightarrow> string \<Rightarrow> int option \<Rightarrow> tree_node list \<Rightarrow> tree_node" where
  "version_node cat expanded version n children =
     (let nodeId = cat @ ''-'' @ dash_first version in
      TreeNode \<lparr>ni_id = nodeId, ni_label = version, ni_type = ''apiVersion'',
          ni_data = Some (no_resource\<lparr>rr_apiVersion := Some version, rr_categoryId := Some cat\<rparr>),
          ni_expanded = Some (nodeId \<in> set expanded), ni_count = n,
          ni_icon = None, ni_hideCount = None, ni_disabled = None, ni_section = None\<rparr> (Some children))"

definition format_resources :: "string \<Rightarrow> string \<Rightarrow> string list \<Rightarrow> resource list \<Rightarrow> tree_node list" where
  "format_resources cluster cat expanded resources =
     (if cat \<in> {''argocd'', ''flux'', ''cnpg''}
      then categoryPageNodes cluster cat @ map (\<lambda>r. leaf_node (type_id cat r) (kind_label r) r None) resources
      else if cat \<in> {''crossplane'', ''custom''}
      then map (\<lambda>(version, rs). version_node cat expanded version None (map (\<lambda>r. leaf_node (type_id cat r) (kind_label r) r None) rs))
             (group_by_version resources)
      else map (\<lambda>r. leaf_node (type_id cat r) (served_name r) r None) resources)"

definition total_count :: "resource list \<Rightarrow> int option" where
  "total_count rs = (if list_all (\<lambda>r. rr_count r \<noteq> None) rs then Some (sum_list (map (\<lambda>r. the (rr_count r)) rs)) else None)"

definition format_counted :: "string \<Rightarrow> string \<Rightarrow> string list \<Rightarrow> resource list \<Rightarrow> tree_node list" where
  "format_counted cluster cat expanded resources =
     (if cat \<in> {''argocd'', ''flux'', ''cnpg''}
      then categoryPageNodes cluster cat @ map (\<lambda>r. leaf_node (type_id cat r) (kind_label r) r (rr_count r)) resources
      else if cat = ''crossplane''
      then map (\<lambda>(version, rs). version_node cat expanded version (total_count rs)
               (map (\<lambda>r. leaf_node (type_id cat r) (kind_label r) r (rr_count r)) rs))
             (group_by_version resources)
      else map (\<lambda>r. leaf_node (type_id cat r) (served_name r) r (rr_count r)) resources)"

record vcluster_info =
  vi_namespace :: string
  vi_name :: string
  vi_ready :: bool
  vi_phase :: "string option"

definition vcluster_node :: "string \<Rightarrow> vcluster_info \<Rightarrow> tree_node" where
  "vcluster_node cluster vc =
     mk_node (''vcluster-'' @ vi_namespace vc @ ''-'' @ vi_name vc) (vi_name vc) ''vcluster''
       (no_resource\<lparr>rr_host := Some cluster, rr_namespace := Some (vi_namespace vc), rr_name := Some (vi_name vc),
          rr_ready := Some (vi_ready vc), rr_phase := vi_phase vc\<rparr>)"

section \<open>The whole tree\<close>

record category =
  ca_id :: string
  ca_name :: string

definition categoryOrder :: "string list" where
  "categoryOrder = [''workloads'', ''networking'', ''config'', ''storage'', ''rbac'', ''cluster'', ''custom'', ''argocd'', ''flux'',
     ''crossplane'', ''cnpg'']"

definition INTEGRATION_CATEGORIES :: "string list" where
  "INTEGRATION_CATEGORIES = [''argocd'', ''flux'', ''crossplane'', ''cnpg'']"

definition category_map :: "category list \<Rightarrow> (string, category) jsmap" where
  "category_map raw =
     foldl (\<lambda>m c. if jm_has m (ca_id c) then m else jm_set m (ca_id c) c) (js_map_of (map (\<lambda>c. (ca_id c, c)) raw))
       [\<lparr>ca_id = ''crossplane'', ca_name = ''Crossplane''\<rparr>, \<lparr>ca_id = ''argocd'', ca_name = ''Argo CD''\<rparr>]"

definition ordered_categories :: "category list \<Rightarrow> category list" where
  "ordered_categories raw =
     List.map_filter (jm_get (category_map raw)) categoryOrder @ filter (\<lambda>c. ca_id c \<notin> set categoryOrder) raw"

definition in_section :: "string \<Rightarrow> tree_node \<Rightarrow> tree_node" where
  "in_section s n = TreeNode ((tn_info n)\<lparr>ni_section := Some s\<rparr>) (tn_children n)"

text \<open>\<open>disabledActionables\<close>: what the categories hold disables them later.\<close>

definition category_node :: "bool \<Rightarrow> string list \<Rightarrow> tree_node list \<Rightarrow> category \<Rightarrow> tree_node" where
  "category_node isVCluster expanded tree c =
     (let disabled = (ca_id c = ''vclusters'' \<and> isVCluster); shown = (\<not> disabled \<and> ca_id c \<in> set expanded) in
      TreeNode \<lparr>ni_id = ca_id c, ni_label = ca_name c, ni_type = ''category'',
          ni_data = Some (no_resource\<lparr>rr_categoryId := Some (ca_id c)\<rparr>),
          ni_expanded = (if shown then Some True else None), ni_count = None,
          ni_icon = None, ni_hideCount = None, ni_disabled = Some disabled, ni_section = None\<rparr>
        (if shown then Option.bind (findNodeById tree (ca_id c)) tn_children else None))"

definition events_node :: "string \<Rightarrow> tree_node" where
  "events_node cluster =
     TreeNode \<lparr>ni_id = ''cluster-events'', ni_label = ''Events'', ni_type = ''resource'',
         ni_data = Some ((mk_resource ''events'' [] ''v1'' ''Event'' True)\<lparr>rr_cluster := Some cluster\<rparr>),
         ni_expanded = None, ni_count = None, ni_icon = None, ni_hideCount = Some True, ni_disabled = None,
         ni_section = Some ''resources''\<rparr> None"

text \<open>The virtual clusters keep the children they had when the load began.\<close>

definition vclusters_node :: "string \<Rightarrow> bool \<Rightarrow> string list \<Rightarrow> tree_node list option \<Rightarrow> tree_node" where
  "vclusters_node cluster isVCluster expanded existing =
     TreeNode \<lparr>ni_id = ''virtual-clusters'', ni_label = ''Virtual Clusters'', ni_type = ''vclusters'',
         ni_data = Some (no_resource\<lparr>rr_cluster := Some cluster\<rparr>),
         ni_expanded = (if ''virtual-clusters'' \<in> set expanded then Some True else None), ni_count = None,
         ni_icon = None, ni_hideCount = None, ni_disabled = Some isVCluster, ni_section = Some ''integrations''\<rparr>
       (if ''virtual-clusters'' \<in> set expanded then existing else None)"

definition section_page :: "string \<Rightarrow> string \<Rightarrow> string \<times> string \<times> string \<Rightarrow> tree_node" where
  "section_page cluster s = (\<lambda>(nodeId, label, ty). in_section s (page_node cluster nodeId label ty))"

definition top_pages :: "(string \<times> string \<times> string) list" where
  "top_pages = [(''cluster-overview'', ''Overview'', ''overview''), (''cluster-issues'', ''Issues'', ''issues''),
     (''cluster-audit'', ''Audit'', ''audit'')]"

definition insight_pages :: "(string \<times> string \<times> string) list" where
  "insight_pages = [(''changes-feed'', ''Changes'', ''changes''), (''incident-timeline'', ''Incident Timeline'', ''incident-timeline''),
     (''topology'', ''Topology'', ''topology''), (''network-page'', ''Network'', ''network''),
     (''access-explorer'', ''Access'', ''access''), (''certificates-dashboard'', ''Certificates'', ''certificates''),
     (''upgrade-readiness'', ''Upgrade readiness'', ''upgrade-readiness'')]"

definition cost_pages :: "(string \<times> string \<times> string) list" where
  "cost_pages = [(''finops-dashboard'', ''FinOps'', ''finops''), (''rightsizing-dashboard'', ''Rightsizing'', ''rightsizing'')]"

definition sidebar_tree :: "string \<Rightarrow> bool \<Rightarrow> category list \<Rightarrow> tree_node \<Rightarrow> string list \<Rightarrow> tree_node list \<Rightarrow> tree_node list" where
  "sidebar_tree cluster isVCluster raw vclusters expanded tree =
     (let cats = map (category_node isVCluster expanded tree) (ordered_categories raw);
          byId = js_map_of (map (\<lambda>n. (tn_id n, n)) cats);
          integration = (\<lambda>i. case jm_get byId i of None \<Rightarrow> [] | Some n \<Rightarrow> [in_section ''integrations'' n]);
          resourceCats = map (in_section ''resources'') (filter (\<lambda>n. tn_id n \<notin> set INTEGRATION_CATEGORIES) cats)
      in map (section_page cluster ''top'') top_pages
         @ resourceCats @ [events_node cluster]
         @ map (section_page cluster ''insights'') insight_pages
         @ map (section_page cluster ''cost'') cost_pages
         @ [section_page cluster ''integrations'' (''helm-releases'', ''Helm Releases'', ''helm'')]
         @ integration ''argocd'' @ integration ''flux'' @ integration ''crossplane'' @ [vclusters] @ integration ''cnpg''
         @ [section_page cluster ''bottom'' (''cluster-settings'', ''Cluster settings'', ''cluster-settings'')])"

text \<open>\<open>setNodeDisabled\<close>: only the top level, and only when it changes.\<close>

definition node_disabled :: "string \<Rightarrow> bool \<Rightarrow> tree_node list \<Rightarrow> tree_node list" where
  "node_disabled nodeId disabled tree =
     map (\<lambda>n. if tn_id n \<noteq> nodeId \<or> (ni_disabled (tn_info n) = Some True) = disabled then n
              else TreeNode ((tn_info n)\<lparr>ni_disabled := Some disabled\<rparr>) (tn_children n)) tree"

definition has_count :: "resource list \<Rightarrow> bool" where
  "has_count resources = list_ex (\<lambda>r. nullish (rr_count r) 0 > 0) resources"

fun toggle_expanded :: "string \<Rightarrow> tree_node list \<Rightarrow> tree_node list" where
  "toggle_expanded nodeId [] = []"
| "toggle_expanded nodeId (TreeNode info cs # nodes) =
     (if ni_id info = nodeId then TreeNode (info\<lparr>ni_expanded := Some (ni_expanded info \<noteq> Some True)\<rparr>) cs
      else TreeNode info (case cs of None \<Rightarrow> None | Some l \<Rightarrow> Some (toggle_expanded nodeId l)))
     # toggle_expanded nodeId nodes"

end
