(* ===== verification/TreeLoading.thy ===== *)
theory TreeLoading
  imports TreeNodes
begin

text \<open>
  Loading the sidebar's tree: \<open>loadTreeData\<close>, \<open>expandNode\<close>, \<open>forgetTreeLoad\<close>,
  \<open>settleOrRefetchCounts\<close> and \<open>toggleNodeExpansion\<close> of \<open>store/resourceSlice.ts\<close>,
  \<open>store/countRefetch.ts\<close> and \<open>store/vclusterRestore.ts\<close>.

  What an \<open>await\<close> goes on with is an entry of \<open>tw_tasks\<close>. A load of a tree has a number;
  \<open>tw_loads\<close> has the one that callers join per cluster. An expansion knows who awaits it
  (\<open>caller\<close>): nobody, the repetition of a count, or a load that expands the rest of its nodes
  next. A reconnection of a restored vcluster has a number too; \<open>tw_attempts\<close> has its result.
  The timer of a repetition is its delay, until it fires.
\<close>

section \<open>State\<close>

datatype caller = ByUser | ByRefetch | ByLoad nat "string list"

datatype tree_call =
    GetCategories string
  | GetResources string string bool
  | ListVClusters string
  | ConnectVCluster string string string
  | Toast string
  | InvalidateCategories string

datatype tree_task =
    GateTask nat nat string
  | GivenTask nat string "tree_node list"
  | CategoriesTask nat string "string list" "tree_node list option"
  | DisableTask string string
  | VClustersTask caller string string
  | ResourcesTask caller string string string
  | CountsTask string string string
  | ConnectTask nat string string

record count_retry =
  cr_attempt :: nat
  cr_timer :: "int option"
  cr_cluster :: string
  cr_node :: string
  cr_category :: string

record tree_world =
  tw_ws :: ws
  tw_loads :: "(string, nat) jsmap"
  tw_next :: nat
  tw_counts :: "(string, count_retry) jsmap"
  tw_gates :: "(string, nat) jsmap"
  tw_attempts :: "bool option list"
  tw_tasks :: "tree_task list"
  tw_calls :: "tree_call list"

definition DELAYS_MS :: "int list" where
  "DELAYS_MS = [2000, 5000, 10000, 20000, 30000, 60000]"

definition on_tw :: "(ws \<Rightarrow> ws) \<Rightarrow> tree_world \<Rightarrow> tree_world" where
  "on_tw f w = w\<lparr>tw_ws := f (tw_ws w)\<rparr>"

definition tree_asks :: "tree_call list \<Rightarrow> tree_world \<Rightarrow> tree_world" where
  "tree_asks cs w = w\<lparr>tw_calls := tw_calls w @ cs\<rparr>"

definition tree_awaits :: "tree_task list \<Rightarrow> tree_world \<Rightarrow> tree_world" where
  "tree_awaits ks w = w\<lparr>tw_tasks := tw_tasks w @ ks\<rparr>"

text \<open>A cluster's tab, found by the index, and a write to it.\<close>

definition cluster_state :: "string \<Rightarrow> ws \<Rightarrow> tab_state option" where
  "cluster_state cluster w =
     (case jm_get (ws_tabIndexMap w) cluster of None \<Rightarrow> None | Some i \<Rightarrow> map_option tab_st (nth_opt (ws_activeTabs w) i))"

definition write_tree :: "string \<Rightarrow> (tab_state \<Rightarrow> tab_state) \<Rightarrow> ws \<Rightarrow> ws" where
  "write_tree cluster f w =
     (case jm_get (ws_tabIndexMap w) cluster of
        None \<Rightarrow> w
      | Some i \<Rightarrow>
          (case nth_opt (ws_activeTabs w) i of
             None \<Rightarrow> w
           | Some t \<Rightarrow> set_tabs ((ws_activeTabs w)[i := t\<lparr>tab_st := f (tab_st t)\<rparr>]) w))"

section \<open>Repeating counts\<close>

definition count_key :: "string \<Rightarrow> string \<Rightarrow> string" where
  "count_key cluster nodeId = cluster @ [char_of (0::nat)] @ nodeId"

definition recount_delay :: "nat \<Rightarrow> int" where
  "recount_delay attempt = DELAYS_MS ! min attempt (length DELAYS_MS - 1)"

definition refetchCountsLater :: "string \<Rightarrow> string \<Rightarrow> string \<Rightarrow> string \<Rightarrow> tree_world \<Rightarrow> tree_world" where
  "refetchCountsLater key cluster nodeId cat w =
     (let attempt = (case jm_get (tw_counts w) key of None \<Rightarrow> 0 | Some p \<Rightarrow> cr_attempt p + 1) in
      w\<lparr>tw_counts := jm_set (tw_counts w) key
          \<lparr>cr_attempt = attempt, cr_timer = Some (recount_delay attempt), cr_cluster = cluster, cr_node = nodeId, cr_category = cat\<rparr>\<rparr>)"

definition countsSettled :: "string \<Rightarrow> tree_world \<Rightarrow> tree_world" where
  "countsSettled key w = (if jm_has (tw_counts w) key then w\<lparr>tw_counts := jm_delete (tw_counts w) key\<rparr> else w)"

definition settleOrRefetchCounts :: "string \<Rightarrow> string \<Rightarrow> string \<Rightarrow> bool \<Rightarrow> tree_world \<Rightarrow> tree_world" where
  "settleOrRefetchCounts cluster nodeId cat pending w =
     (let key = count_key cluster nodeId in
      if \<not> pending then countsSettled key w else refetchCountsLater key cluster nodeId cat w)"

section \<open>Expanding\<close>

text \<open>The node's new children, with the counts already on screen.\<close>

definition put_children :: "string \<Rightarrow> tree_node list \<Rightarrow> string list \<Rightarrow> tab_state \<Rightarrow> tab_state" where
  "put_children nodeId children expanded st =
     st\<lparr>ts_treeData := updateTreeNode (ts_treeData st) nodeId
          (keepKnownCounts (Option.bind (findNodeById (ts_treeData st) nodeId) tn_children) children) (Some expanded)\<rparr>"

definition expand_state :: "string \<Rightarrow> tree_node list \<Rightarrow> tab_state \<Rightarrow> tab_state" where
  "expand_state nodeId children st =
     (let expanded = js_add (ts_expandedNodes st) nodeId in
      (put_children nodeId children expanded st)\<lparr>ts_expandedNodes := expanded\<rparr>)"

text \<open>\<open>expandNode\<close> up to its first \<open>await\<close>; whether it has returned by then.\<close>

definition expandNode :: "caller \<Rightarrow> string \<Rightarrow> string \<Rightarrow> string \<Rightarrow> string \<Rightarrow> tree_world \<Rightarrow> bool \<times> tree_world" where
  "expandNode by cluster nodeId ty cat w =
     (if ty = ''vclusters''
      then (False, tree_awaits [VClustersTask by cluster nodeId] (tree_asks [ListVClusters cluster] w))
      else if ty = ''category''
      then (case jm_get predefinedCategories cat of
              Some predefined \<Rightarrow>
                (True, tree_awaits [CountsTask cluster nodeId cat]
                   (tree_asks [GetResources cluster cat False]
                     (on_tw (write_tree cluster (expand_state nodeId (predefined_nodes cat predefined))) w)))
            | None \<Rightarrow>
                (False, tree_awaits [ResourcesTask by cluster nodeId cat] (tree_asks [GetResources cluster cat True] w)))
      else (True, w))"

text \<open>A load: its end, and the saved nodes it expands one after the other.\<close>

definition load_end :: "nat \<Rightarrow> string \<Rightarrow> tree_world \<Rightarrow> tree_world" where
  "load_end run cluster w =
     (if jm_get (tw_loads w) cluster = Some run then w\<lparr>tw_loads := jm_delete (tw_loads w) cluster\<rparr> else w)"

definition node_category :: "tree_node \<Rightarrow> string" where
  "node_category n = (case ni_data (tn_info n) of None \<Rightarrow> [] | Some r \<Rightarrow> nullish (rr_categoryId r) [])"

fun expand_saved :: "nat \<Rightarrow> string \<Rightarrow> string list \<Rightarrow> tree_world \<Rightarrow> tree_world" where
  "expand_saved run cluster [] w = load_end run cluster w"
| "expand_saved run cluster (nodeId # rest) w =
     (case cluster_state cluster (tw_ws w) of
        None \<Rightarrow> load_end run cluster w
      | Some st \<Rightarrow>
          (case findNodeById (ts_treeData st) nodeId of
             None \<Rightarrow> expand_saved run cluster rest w
           | Some n \<Rightarrow>
               if ni_disabled (tn_info n) = Some True then expand_saved run cluster rest w
               else if tn_children n = None
               then (let (returned, w1) = expandNode (ByLoad run rest) cluster nodeId (ni_type (tn_info n)) (node_category n) w in
                     if returned then expand_saved run cluster rest w1 else w1)
               else if ni_type (tn_info n) = ''category''
               then expand_saved run cluster rest (snd (expandNode ByUser cluster nodeId ''category'' (node_category n) w))
               else expand_saved run cluster rest w))"

definition expansion_over :: "caller \<Rightarrow> string \<Rightarrow> string \<Rightarrow> string \<Rightarrow> bool \<Rightarrow> tree_world \<Rightarrow> tree_world" where
  "expansion_over by cluster nodeId cat ok w =
     (case by of
        ByUser \<Rightarrow> w
      | ByRefetch \<Rightarrow> if ok then w else settleOrRefetchCounts cluster nodeId cat True w
      | ByLoad run rest \<Rightarrow> if ok then expand_saved run cluster rest w else load_end run cluster w)"

section \<open>Answers to an expansion\<close>

definition vclusters_came :: "caller \<Rightarrow> string \<Rightarrow> string \<Rightarrow> string + vcluster_info list \<Rightarrow> tree_world \<Rightarrow> tree_world" where
  "vclusters_came by cluster nodeId ans w =
     (let (vcs, w1) = (case ans of Inl message \<Rightarrow> ([], tree_asks [Toast message] w) | Inr l \<Rightarrow> (l, w)) in
      expansion_over by cluster nodeId [] True
        (on_tw (write_tree cluster (\<lambda>st.
            let expanded = js_add (ts_expandedNodes st) nodeId in
            st\<lparr>ts_treeData := updateTreeNode (ts_treeData st) nodeId (map (vcluster_node cluster) vcs) (Some expanded),
               ts_expandedNodes := expanded\<rparr>)) w1))"

definition tab_expanded :: "string \<Rightarrow> ws \<Rightarrow> string list" where
  "tab_expanded cluster w = (case find_tab (Some cluster) w of None \<Rightarrow> [] | Some t \<Rightarrow> ts_expandedNodes (tab_st t))"

definition resources_came :: "caller \<Rightarrow> string \<Rightarrow> string \<Rightarrow> string \<Rightarrow> resource list option \<Rightarrow> tree_world \<Rightarrow> tree_world" where
  "resources_came by cluster nodeId cat ans w =
     (case ans of
        None \<Rightarrow> expansion_over by cluster nodeId cat False w
      | Some resources \<Rightarrow>
          if cluster_state cluster (tw_ws w) = None then expansion_over by cluster nodeId cat True w
          else
            let w1 = on_tw (write_tree cluster (expand_state nodeId
                      (format_resources cluster cat (tab_expanded cluster (tw_ws w)) resources))) w;
                w2 = (if cat \<noteq> ''custom''
                      then tree_awaits [CountsTask cluster nodeId cat] (tree_asks [GetResources cluster cat False] w1) else w1)
            in expansion_over by cluster nodeId cat True w2)"

definition counted_resources :: "resource list \<Rightarrow> resource list" where
  "counted_resources resources = filter (\<lambda>r. rr_name r \<noteq> Some ''replicasets'') resources"

definition counts_came :: "string \<Rightarrow> string \<Rightarrow> string \<Rightarrow> resource list option \<Rightarrow> tree_world \<Rightarrow> tree_world" where
  "counts_came cluster nodeId cat ans w =
     (case ans of
        None \<Rightarrow> settleOrRefetchCounts cluster nodeId cat True w
      | Some counted \<Rightarrow>
          (case jm_get predefinedCategories cat of
             Some predefined \<Rightarrow>
               settleOrRefetchCounts cluster nodeId cat (anyCountPending counted)
                 (on_tw (write_tree cluster (\<lambda>st. put_children nodeId (merged_nodes cat predefined counted) (ts_expandedNodes st) st)) w)
           | None \<Rightarrow>
               let resources = counted_resources counted in
               if cluster_state cluster (tw_ws w) = None then w
               else settleOrRefetchCounts cluster nodeId cat (anyCountPending resources)
                 (on_tw (write_tree cluster (\<lambda>st. put_children nodeId
                     (format_counted cluster cat (tab_expanded cluster (tw_ws w)) resources) (ts_expandedNodes st) st)) w)))"

text \<open>The repetition of a count fires, by its timer or because credentials changed.\<close>

definition fire_count :: "string \<Rightarrow> tree_world \<Rightarrow> tree_world" where
  "fire_count key w =
     (case jm_get (tw_counts w) key of
        None \<Rightarrow> w
      | Some p \<Rightarrow>
          let w1 = w\<lparr>tw_counts := jm_set (tw_counts w) key (p\<lparr>cr_timer := None\<rparr>)\<rparr>;
              own = count_key (cr_cluster p) (cr_node p)
          in if cr_node p \<in> set (tab_expanded (cr_cluster p) (tw_ws w1))
             then snd (expandNode ByRefetch (cr_cluster p) (cr_node p) ''category'' (cr_category p) w1)
             else countsSettled own w1)"

definition refetchNow :: "tree_world \<Rightarrow> tree_world" where
  "refetchNow w = fold fire_count (jm_keys (tw_counts w)) w"

section \<open>Loading a tree\<close>

definition is_vcluster :: "string \<Rightarrow> bool" where
  "is_vcluster cluster = starts_with cluster ''vcluster:''"

definition load_body :: "nat \<Rightarrow> string \<Rightarrow> tree_world \<Rightarrow> tree_world" where
  "load_body run cluster w =
     (case cluster_state cluster (tw_ws w) of
        None \<Rightarrow> load_end run cluster w
      | Some st \<Rightarrow>
          tree_awaits [CategoriesTask run cluster (ts_expandedNodes st)
              (Option.bind (findNodeById (ts_treeData st) ''virtual-clusters'') tn_children)]
            (tree_asks [GetCategories cluster] w))"

text \<open>Callers join a load under way; \<open>load\<close> runs up to its first \<open>await\<close>.\<close>

definition loadTreeData :: "string \<Rightarrow> tree_world \<Rightarrow> tree_world" where
  "loadTreeData cluster w =
     (if jm_has (tw_loads w) cluster then w
      else
        let run = tw_next w; w1 = w\<lparr>tw_loads := jm_set (tw_loads w) cluster run, tw_next := run + 1\<rparr> in
        case jm_get (tw_gates w1) cluster of
          None \<Rightarrow> load_body run cluster w1
        | Some attempt \<Rightarrow> tree_awaits [GateTask attempt run cluster] w1)"

definition put_tree :: "tree_node list \<Rightarrow> tab_state \<Rightarrow> tab_state" where
  "put_tree tree st = st\<lparr>ts_treeData := tree\<rparr>"

definition loadGivenTree :: "string \<Rightarrow> tree_node list \<Rightarrow> tree_world \<Rightarrow> tree_world" where
  "loadGivenTree cluster tree w =
     (case jm_get (tw_gates w) cluster of
        None \<Rightarrow> on_tw (write_tree cluster (put_tree tree)) w
      | Some attempt \<Rightarrow> tree_awaits [GivenTask attempt cluster tree] w)"

definition forgetTreeLoad :: "string \<Rightarrow> tree_world \<Rightarrow> tree_world" where
  "forgetTreeLoad cluster w = tree_asks [InvalidateCategories cluster] (w\<lparr>tw_loads := jm_delete (tw_loads w) cluster\<rparr>)"

definition categories_came ::
  "nat \<Rightarrow> string \<Rightarrow> string list \<Rightarrow> tree_node list option \<Rightarrow> category list option \<Rightarrow> tree_world \<Rightarrow> tree_world" where
  "categories_came run cluster expanded existing ans w =
     (case ans of
        None \<Rightarrow> load_end run cluster w
      | Some raw \<Rightarrow>
          let isV = is_vcluster cluster;
              w1 = tree_awaits ([DisableTask cluster ''crossplane'', DisableTask cluster ''argocd'']
                       @ (if isV then [] else [DisableTask cluster ''virtual-clusters'']))
                     (tree_asks ([GetResources cluster ''crossplane'' False, GetResources cluster ''argocd'' False]
                         @ (if isV then [] else [ListVClusters cluster])) w);
              w2 = on_tw (write_tree cluster (\<lambda>st. put_tree
                       (sidebar_tree cluster isV raw (vclusters_node cluster isV expanded existing) (ts_expandedNodes st) (ts_treeData st)) st)) w1
          in expand_saved run cluster expanded w2)"

definition disable_came :: "string \<Rightarrow> string \<Rightarrow> bool \<Rightarrow> tree_world \<Rightarrow> tree_world" where
  "disable_came cluster nodeId disabled w =
     on_tw (write_tree cluster (\<lambda>st. put_tree (node_disabled nodeId disabled (ts_treeData st)) st)) w"

section \<open>Restored virtual clusters\<close>

text \<open>\<open>parseVClusterId\<close> of \<open>utils/clusterUtils.ts\<close>: host, namespace and name.\<close>

definition last_colon :: "string \<Rightarrow> (string \<times> string) option" where
  "last_colon s =
     (case index_of (rev s) '':'' of
        None \<Rightarrow> None
      | Some i \<Rightarrow> Some (rev (drop (Suc i) (rev s)), rev (take i (rev s))))"

definition parseVClusterId :: "string \<Rightarrow> (string \<times> string \<times> string) option" where
  "parseVClusterId i =
     (if \<not> starts_with i ''vcluster:'' then None
      else case last_colon (drop 9 i) of
             None \<Rightarrow> None
           | Some (middle, name) \<Rightarrow>
               (case last_colon middle of
                  None \<Rightarrow> None
                | Some (host, namespace) \<Rightarrow>
                    if host = [] \<or> namespace = [] \<or> name = [] then None else Some (host, namespace, name)))"

definition reconnectRestoredVCluster :: "string \<Rightarrow> tree_world \<Rightarrow> tree_world" where
  "reconnectRestoredVCluster i w =
     (if jm_has (tw_gates w) i then w
      else case parseVClusterId i of
             None \<Rightarrow> w
           | Some (host, namespace, name) \<Rightarrow>
               let attempt = length (tw_attempts w) in
               tree_awaits [ConnectTask attempt i name]
                 (tree_asks [ConnectVCluster host namespace name]
                   (w\<lparr>tw_gates := jm_set (tw_gates w) i attempt, tw_attempts := tw_attempts w @ [None]\<rparr>)))"

definition connect_came :: "nat \<Rightarrow> string \<Rightarrow> string \<Rightarrow> string option \<Rightarrow> tree_world \<Rightarrow> tree_world" where
  "connect_came attempt i name failure w =
     (let w1 = w\<lparr>tw_attempts := (tw_attempts w)[attempt := Some (failure = None)]\<rparr> in
      case failure of
        None \<Rightarrow> w1
      | Some reason \<Rightarrow>
          let w2 = tree_asks [Toast (''Could not reconnect to vcluster '' @ name @ '': '' @ reason)] w1 in
          if jm_get (tw_gates w2) i = Some attempt then w2\<lparr>tw_gates := jm_delete (tw_gates w2) i\<rparr> else w2)"

definition forgetRestoredVCluster :: "string \<Rightarrow> tree_world \<Rightarrow> tree_world" where
  "forgetRestoredVCluster i w = w\<lparr>tw_gates := jm_delete (tw_gates w) i\<rparr>"

definition toggleNodeExpansion :: "string \<Rightarrow> ws \<Rightarrow> ws" where
  "toggleNodeExpansion nodeId w =
     write_tree (str_or (ws_currentTab w) []) (\<lambda>st. st\<lparr>ts_treeData := toggle_expanded nodeId (ts_treeData st),
        ts_expandedNodes := (if nodeId \<in> set (ts_expandedNodes st) then remove1 nodeId (ts_expandedNodes st)
                             else js_add (ts_expandedNodes st) nodeId)\<rparr>) w"

section \<open>Sessions\<close>

text \<open>
  \<open>Answer i a\<close> is the answer to the task at \<open>i\<close>; one that the task does not wait for does not
  come. A task that waits for a reconnection goes on when that has settled.
\<close>

datatype tree_answer =
    Categories "category list option"
  | Resources "resource list option"
  | VClusters "string + vcluster_info list"
  | Connected "string option"
  | Released

definition answer_task :: "tree_task \<Rightarrow> tree_answer \<Rightarrow> tree_world \<Rightarrow> tree_world option" where
  "answer_task k a w =
     (case (k, a) of
        (CategoriesTask run c expanded existing, Categories ans) \<Rightarrow> Some (categories_came run c expanded existing ans w)
      | (ResourcesTask by c n cat, Resources ans) \<Rightarrow> Some (resources_came by c n cat ans w)
      | (CountsTask c n cat, Resources ans) \<Rightarrow> Some (counts_came c n cat ans w)
      | (VClustersTask by c n, VClusters ans) \<Rightarrow> Some (vclusters_came by c n ans w)
      | (DisableTask c n, Resources ans) \<Rightarrow>
          if n = ''virtual-clusters'' then None
          else Some (disable_came c n (case ans of None \<Rightarrow> True | Some rs \<Rightarrow> \<not> has_count rs) w)
      | (DisableTask c n, VClusters ans) \<Rightarrow>
          if n = ''virtual-clusters'' then Some (disable_came c n (case ans of Inl _ \<Rightarrow> True | Inr l \<Rightarrow> l = []) w) else None
      | (ConnectTask attempt i name, Connected failure) \<Rightarrow> Some (connect_came attempt i name failure w)
      | (GateTask attempt run c, Released) \<Rightarrow>
          (case nth_opt (tw_attempts w) attempt of
             Some (Some ok) \<Rightarrow> Some (if ok then load_body run c w else load_end run c w)
           | _ \<Rightarrow> None)
      | (GivenTask attempt c tree, Released) \<Rightarrow>
          (case nth_opt (tw_attempts w) attempt of
             Some (Some ok) \<Rightarrow> Some (if ok then on_tw (write_tree c (put_tree tree)) w else w)
           | _ \<Rightarrow> None)
      | _ \<Rightarrow> None)"

datatype tree_event =
    Expand string string string string
  | LoadTree string
  | GiveTree string "tree_node list"
  | ForgetTree string
  | Toggle string
  | Answer nat tree_answer
  | CountTimer string
  | RefetchNow
  | Reconnect string
  | ForgetGate string
  | TreeElsewhere "ws \<Rightarrow> ws"

fun tree_do :: "tree_event \<Rightarrow> tree_world \<Rightarrow> tree_world" where
  "tree_do (Expand c n ty cat) w = snd (expandNode ByUser c n ty cat w)"
| "tree_do (LoadTree c) w = loadTreeData c w"
| "tree_do (GiveTree c tree) w = loadGivenTree c tree w"
| "tree_do (ForgetTree c) w = forgetTreeLoad c w"
| "tree_do (Toggle n) w = on_tw (toggleNodeExpansion n) w"
| "tree_do (Answer i a) w =
     (if i < length (tw_tasks w)
      then nullish (answer_task (tw_tasks w ! i) a (w\<lparr>tw_tasks := take i (tw_tasks w) @ drop (Suc i) (tw_tasks w)\<rparr>)) w
      else w)"
| "tree_do (CountTimer key) w =
     (case jm_get (tw_counts w) key of
        Some p \<Rightarrow> if cr_timer p \<noteq> None then fire_count key w else w
      | None \<Rightarrow> w)"
| "tree_do RefetchNow w = refetchNow w"
| "tree_do (Reconnect i) w = reconnectRestoredVCluster i w"
| "tree_do (ForgetGate i) w = forgetRestoredVCluster i w"
| "tree_do (TreeElsewhere f) w = on_tw f w"

definition tree_run :: "tree_event list \<Rightarrow> tree_world \<Rightarrow> tree_world" where
  "tree_run evs w = foldl (\<lambda>w ev. tree_do ev w) w evs"

definition tree_start :: "ws \<Rightarrow> tree_world" where
  "tree_start s = \<lparr>tw_ws = s, tw_loads = [], tw_next = 0, tw_counts = [], tw_gates = [], tw_attempts = [], tw_tasks = [], tw_calls = []\<rparr>"

end
