(* ===== verification/TreeSteps.thy ===== *)
theory TreeSteps
  imports TreeLoading
begin

text \<open>
  What the steps of the tree's loading keep: a load that callers would join is awaiting an
  answer (\<open>loads_ok\<close>), a restored vcluster's reconnection is under way until it has settled
  (\<open>gates_ok\<close>), and the repetition of a pending count is armed or its request is under way
  (\<open>retries_ok\<close>).
\<close>

section \<open>Steps that only add tasks\<close>

definition grows :: "tree_world \<Rightarrow> tree_world \<Rightarrow> bool" where
  "grows w w' \<longleftrightarrow> tw_loads w' = tw_loads w \<and> tw_gates w' = tw_gates w \<and> tw_attempts w' = tw_attempts w
     \<and> set (tw_tasks w) \<subseteq> set (tw_tasks w')"

lemma grows_refl [simp]: "grows w w"
  by (simp add: grows_def)

lemma grows_trans: "grows w w' \<Longrightarrow> grows w' w'' \<Longrightarrow> grows w w''"
  by (auto simp: grows_def)

lemma grows_basic [simp]:
  "grows w (on_tw f w)" "grows w (tree_asks cs w)" "grows w (tree_awaits ks w)" "grows w (w\<lparr>tw_counts := m\<rparr>)"
  by (auto simp: grows_def on_tw_def tree_asks_def tree_awaits_def)

lemma tw_simps [simp]:
  "tw_tasks (on_tw f w) = tw_tasks w" "tw_tasks (tree_asks cs w) = tw_tasks w" "tw_tasks (tree_awaits ks w) = tw_tasks w @ ks"
  "tw_counts (on_tw f w) = tw_counts w" "tw_counts (tree_asks cs w) = tw_counts w" "tw_counts (tree_awaits ks w) = tw_counts w"
  "tw_ws (on_tw f w) = f (tw_ws w)" "tw_ws (tree_asks cs w) = tw_ws w" "tw_ws (tree_awaits ks w) = tw_ws w"
  "tw_loads (on_tw f w) = tw_loads w" "tw_loads (tree_asks cs w) = tw_loads w" "tw_loads (tree_awaits ks w) = tw_loads w"
  "tw_gates (on_tw f w) = tw_gates w" "tw_gates (tree_asks cs w) = tw_gates w" "tw_gates (tree_awaits ks w) = tw_gates w"
  "tw_attempts (on_tw f w) = tw_attempts w" "tw_attempts (tree_asks cs w) = tw_attempts w" "tw_attempts (tree_awaits ks w) = tw_attempts w"
  by (simp_all add: on_tw_def tree_asks_def tree_awaits_def)

lemma grows_settle: "grows w (settleOrRefetchCounts c n cat pending w)"
  by (simp add: settleOrRefetchCounts_def countsSettled_def refetchCountsLater_def Let_def)

lemma grows_expand: "grows w (snd (expandNode by c n ty cat w))"
  by (auto simp: expandNode_def grows_def split: option.split)

lemma grows_fire: "grows w (fire_count key w)"
proof (cases "jm_get (tw_counts w) key")
  case (Some p)
  have "grows w (snd (expandNode ByRefetch c n ty cat (w\<lparr>tw_counts := m\<rparr>)))" for c n ty cat m
    using grows_trans [OF _ grows_expand] by simp
  moreover have "grows w (countsSettled k (w\<lparr>tw_counts := m\<rparr>))" for k m
    by (simp add: countsSettled_def grows_def)
  ultimately show ?thesis using Some by (simp add: fire_count_def Let_def)
qed (simp add: fire_count_def)

lemma grows_refetch: "grows w (refetchNow w)"
proof -
  have "grows w (fold fire_count ks w)" for ks
    by (induction ks arbitrary: w) (auto intro: grows_trans grows_fire)
  then show ?thesis by (simp add: refetchNow_def)
qed

section \<open>Loads under way\<close>

definition by_load :: "caller \<Rightarrow> string \<Rightarrow> (nat \<times> string) option" where
  "by_load by c = (case by of ByLoad run rest \<Rightarrow> Some (run, c) | _ \<Rightarrow> None)"

fun load_of :: "tree_task \<Rightarrow> (nat \<times> string) option" where
  "load_of (GateTask attempt run c) = Some (run, c)"
| "load_of (CategoriesTask run c expanded existing) = Some (run, c)"
| "load_of (VClustersTask by c n) = by_load by c"
| "load_of (ResourcesTask by c n cat) = by_load by c"
| "load_of _ = None"

text \<open>Every load but those of \<open>S\<close> has a task; \<open>S\<close> is the load that a step is going on with.\<close>

definition loads_but :: "(nat \<times> string) option \<Rightarrow> tree_world \<Rightarrow> bool" where
  "loads_but S w \<longleftrightarrow> (\<forall>c run. jm_get (tw_loads w) c = Some run \<longrightarrow> S = Some (run, c) \<or> Some (run, c) \<in> load_of ` set (tw_tasks w))"

lemma loads_but_grows: "loads_but S w \<Longrightarrow> grows w w' \<Longrightarrow> loads_but S w'"
  unfolding loads_but_def grows_def by (metis image_mono subsetD)

lemma loads_but_more: "loads_but None w \<Longrightarrow> loads_but S w"
  by (simp add: loads_but_def)

lemma loads_but_task: "loads_but (Some l) w \<Longrightarrow> Some l \<in> load_of ` set (tw_tasks w) \<Longrightarrow> loads_but None w"
  unfolding loads_but_def by auto

lemma loads_but_end: "loads_but (Some (run, c)) w \<Longrightarrow> loads_but None (load_end run c w)"
  unfolding loads_but_def load_end_def by auto

lemma expand_waits: "\<not> fst (expandNode by c n ty cat w) \<Longrightarrow> by_load by c \<in> load_of ` set (tw_tasks (snd (expandNode by c n ty cat w)))"
  by (auto simp: expandNode_def split: option.splits if_splits)

lemma loads_but_saved: "loads_but (Some (run, c)) w \<Longrightarrow> loads_but None (expand_saved run c ns w)"
proof (induction ns arbitrary: w)
  case Nil
  then show ?case by (simp add: loads_but_end)
next
  case (Cons nodeId rest)
  show ?case
  proof (cases "Option.bind (cluster_state c (tw_ws w)) (\<lambda>st. findNodeById (ts_treeData st) nodeId)")
    case None
    then show ?thesis using Cons by (auto simp: loads_but_end bind_eq_None_conv split: option.split)
  next
    case (Some n)
    then obtain st where st: "cluster_state c (tw_ws w) = Some st" "findNodeById (ts_treeData st) nodeId = Some n"
      by (auto simp: bind_eq_Some_conv)
    let ?e = "expandNode (ByLoad run rest) c nodeId (ni_type (tn_info n)) (node_category n) w"
    have more: "loads_but (Some (run, c)) (snd (expandNode b c nodeId ty cat w))" for b ty cat
      by (rule loads_but_grows [OF Cons.prems grows_expand])
    have "loads_but None (if fst ?e then expand_saved run c rest (snd ?e) else snd ?e)"
    proof (cases "fst ?e")
      case False
      have "loads_but None (snd ?e)"
        by (rule loads_but_task [OF more]) (use expand_waits [OF False] in \<open>simp add: by_load_def\<close>)
      with False show ?thesis by simp
    qed (simp add: Cons.IH more)
    then show ?thesis using st Cons.IH [OF more] Cons.IH [OF Cons.prems] by (simp add: split_beta)
  qed
qed

lemma loads_but_done: "loads_but (by_load b c) w \<Longrightarrow> loads_but None (expansion_over b c n cat ok w)"
  using loads_but_grows [OF _ grows_settle]
  by (auto simp: expansion_over_def by_load_def loads_but_saved loads_but_end split: caller.splits)

lemma loads_but_body: "loads_but (Some (run, c)) w \<Longrightarrow> loads_but None (load_body run c w)"
proof (cases "cluster_state c (tw_ws w)")
  case (Some st)
  assume "loads_but (Some (run, c)) w"
  then have "loads_but (Some (run, c)) (load_body run c w)"
    by (rule loads_but_grows) (simp add: load_body_def Some grows_trans [OF grows_basic(2) grows_basic(3)])
  then show ?thesis by (rule loads_but_task) (simp add: load_body_def Some)
qed (simp add: load_body_def loads_but_end)

text \<open>An answer: the task it is for is gone, and its load goes on.\<close>

lemma loads_but_taken:
  assumes "loads_but None w" "i < length (tw_tasks w)"
  shows "loads_but (load_of (tw_tasks w ! i)) (w\<lparr>tw_tasks := take i (tw_tasks w) @ drop (Suc i) (tw_tasks w)\<rparr>)"
proof -
  have set: "set (tw_tasks w) = insert (tw_tasks w ! i) (set (take i (tw_tasks w) @ drop (Suc i) (tw_tasks w)))"
    using id_take_nth_drop [OF assms(2)] by (metis Un_insert_right list.simps(15) set_append)
  show ?thesis
    unfolding loads_but_def
  proof (intro allI impI)
    fix c run
    assume "jm_get (tw_loads (w\<lparr>tw_tasks := take i (tw_tasks w) @ drop (Suc i) (tw_tasks w)\<rparr>)) c = Some run"
    then have "Some (run, c) \<in> load_of ` set (tw_tasks w)" using assms(1) by (simp add: loads_but_def)
    then have "Some (run, c) = load_of (tw_tasks w ! i)
        \<or> Some (run, c) \<in> load_of ` set (take i (tw_tasks w) @ drop (Suc i) (tw_tasks w))"
      unfolding set by (simp only: image_insert insert_iff)
    then show "load_of (tw_tasks w ! i) = Some (run, c)
        \<or> Some (run, c) \<in> load_of ` set (tw_tasks (w\<lparr>tw_tasks := take i (tw_tasks w) @ drop (Suc i) (tw_tasks w)\<rparr>))"
      by (auto simp del: set_append)
  qed
qed

lemma loads_but_frame: "tw_loads w' = tw_loads w \<Longrightarrow> tw_tasks w' = tw_tasks w \<Longrightarrow> loads_but S w' = loads_but S w"
  by (simp add: loads_but_def)

lemma loads_but_simps [simp]:
  "loads_but S (on_tw f w) = loads_but S w" "loads_but S (tree_asks cs w) = loads_but S w"
  by (simp_all add: loads_but_def)

lemma loads_but_awaits: "loads_but S w \<Longrightarrow> loads_but S (tree_awaits ks w)"
  by (rule loads_but_grows [OF _ grows_basic(3)])

lemma loads_but_answer:
  assumes "loads_but (load_of k) w" "answer_task k a w = Some w'"
  shows "loads_but None w'"
proof (cases k)
  case (GateTask attempt run c)
  then show ?thesis using assms by (auto simp: answer_task_def loads_but_body loads_but_end split: tree_answer.splits option.splits)
next
  case (GivenTask attempt c tree)
  then show ?thesis using assms by (auto simp: answer_task_def split: tree_answer.splits option.splits if_splits)
next
  case (CategoriesTask run c expanded existing)
  then show ?thesis using assms
    by (auto simp: answer_task_def categories_came_def Let_def intro!: loads_but_end loads_but_saved loads_but_awaits
        split: tree_answer.splits option.splits)
next
  case (DisableTask c n)
  then show ?thesis using assms by (auto simp: answer_task_def disable_came_def split: tree_answer.splits if_splits)
next
  case (VClustersTask b c n)
  then show ?thesis using assms
    by (auto simp: answer_task_def vclusters_came_def Let_def split_beta intro!: loads_but_done split: tree_answer.splits sum.splits)
next
  case (ResourcesTask b c n cat)
  then show ?thesis using assms
    by (auto simp: answer_task_def resources_came_def Let_def intro!: loads_but_done loads_but_awaits
        split: tree_answer.splits option.splits if_splits)
next
  case (CountsTask c n cat)
  then have l: "loads_but None w" using assms by simp
  have "loads_but None (settleOrRefetchCounts c n cat p (on_tw f w))" "loads_but None (settleOrRefetchCounts c n cat p w)" for p f
    using l by (auto intro: loads_but_grows [OF _ grows_settle])
  then show ?thesis using CountsTask assms l
    by (auto simp: answer_task_def counts_came_def Let_def split: tree_answer.splits option.splits if_splits)
next
  case (ConnectTask attempt i name)
  have "loads_but None (connect_came attempt i name failure w)" for failure
    using assms ConnectTask by (simp add: connect_came_def Let_def loads_but_def split: option.split)
  then show ?thesis using ConnectTask assms by (auto simp: answer_task_def split: tree_answer.splits)
qed

lemma loads_but_do: "loads_but None w \<Longrightarrow> loads_but None (tree_do ev w)"
proof (cases ev)
  case (Answer i a)
  assume ok: "loads_but None w"
  show ?thesis
  proof (cases "i < length (tw_tasks w)")
    case True
    show ?thesis
    proof (cases "answer_task (tw_tasks w ! i) a (w\<lparr>tw_tasks := take i (tw_tasks w) @ drop (Suc i) (tw_tasks w)\<rparr>)")
      case (Some w')
      then show ?thesis using Answer True loads_but_answer [OF loads_but_taken [OF ok True] Some] by simp
    qed (use Answer True ok in simp)
  qed (use Answer ok in simp)
next
  case (LoadTree c)
  assume ok: "loads_but None w"
  let ?w = "w\<lparr>tw_loads := jm_set (tw_loads w) c (tw_next w), tw_next := tw_next w + 1\<rparr>"
  have l: "loads_but (Some (tw_next w, c)) ?w" using ok by (auto simp: loads_but_def split: if_split_asm)
  have "loads_but None (tree_awaits [GateTask a (tw_next w) c] ?w)" for a
    by (rule loads_but_task [OF loads_but_awaits [OF l]]) simp
  then show ?thesis using LoadTree ok loads_but_body [OF l] by (auto simp: loadTreeData_def Let_def split: option.split)
next
  case (Reconnect i)
  assume ok: "loads_but None w"
  have "loads_but None (w\<lparr>tw_gates := g, tw_attempts := m\<rparr>)" for g m using ok by (simp add: loads_but_def)
  then show ?thesis using Reconnect ok
    by (auto simp: reconnectRestoredVCluster_def Let_def intro!: loads_but_awaits split: option.split)
next
  case (ForgetTree c)
  assume "loads_but None w"
  then show ?thesis using ForgetTree by (simp add: forgetTreeLoad_def) (auto simp: loads_but_def)
next
  case (Expand c n ty cat)
  then show "loads_but None w \<Longrightarrow> ?thesis" using loads_but_grows [OF _ grows_expand] by simp
next
  case (CountTimer key)
  then show "loads_but None w \<Longrightarrow> ?thesis" using loads_but_grows [OF _ grows_fire] by (simp split: option.split)
next
  case RefetchNow
  then show "loads_but None w \<Longrightarrow> ?thesis" using loads_but_grows [OF _ grows_refetch] by simp
next
  case (ForgetGate i)
  then show "loads_but None w \<Longrightarrow> ?thesis" by (simp add: forgetRestoredVCluster_def loads_but_def)
next
  case (GiveTree c tree)
  then show "loads_but None w \<Longrightarrow> ?thesis" by (auto simp: loadGivenTree_def intro: loads_but_awaits split: option.split)
qed simp_all

section \<open>Reconnections under way\<close>

fun gate_of :: "tree_task \<Rightarrow> nat option" where
  "gate_of (GateTask attempt run c) = Some attempt"
| "gate_of (GivenTask attempt c tree) = Some attempt"
| "gate_of _ = None"

text \<open>Steps that leave the reconnections and those who wait for them alone.\<close>

definition gframe :: "tree_world \<Rightarrow> tree_world \<Rightarrow> bool" where
  "gframe w w' \<longleftrightarrow> tw_gates w' = tw_gates w \<and> tw_attempts w' = tw_attempts w \<and> set (tw_tasks w) \<subseteq> set (tw_tasks w')
     \<and> (\<forall>k \<in> set (tw_tasks w'). k \<in> set (tw_tasks w) \<or> gate_of k = None)"

lemma gframe_refl [simp]: "gframe w w"
  by (simp add: gframe_def)

lemma gframe_tasks: "gframe w w' \<Longrightarrow> k \<in> set (tw_tasks w') \<Longrightarrow> k \<in> set (tw_tasks w) \<or> gate_of k = None"
  by (simp add: gframe_def)

lemma gframe_trans: "gframe w w' \<Longrightarrow> gframe w' w'' \<Longrightarrow> gframe w w''"
proof -
  assume a: "gframe w w'" and b: "gframe w' w''"
  have "k \<in> set (tw_tasks w) \<or> gate_of k = None" if "k \<in> set (tw_tasks w'')" for k
    using gframe_tasks [OF b that] gframe_tasks [OF a, of k] by (elim disjE) simp_all
  moreover have "set (tw_tasks w) \<subseteq> set (tw_tasks w'')"
    by (rule subset_trans [of _ "set (tw_tasks w')"]) (use a b in \<open>simp_all add: gframe_def\<close>)
  moreover have "tw_gates w'' = tw_gates w" "tw_attempts w'' = tw_attempts w" using a b by (simp_all only: gframe_def)
  ultimately show ?thesis by (simp add: gframe_def)
qed

lemma gframe_same: "tw_gates w' = tw_gates w \<Longrightarrow> tw_attempts w' = tw_attempts w \<Longrightarrow> tw_tasks w' = tw_tasks w @ ks \<Longrightarrow>
    list_all (\<lambda>k. gate_of k = None) ks \<Longrightarrow> gframe w w'"
  by (auto simp: gframe_def list_all_iff)

lemma gframe_settle: "gframe w (settleOrRefetchCounts c n cat pending w)"
  by (rule gframe_same [where ks = "[]"]) (simp_all add: settleOrRefetchCounts_def countsSettled_def refetchCountsLater_def Let_def)

lemma gframe_expand: "gframe w (snd (expandNode b c n ty cat w))"
  by (auto simp: expandNode_def gframe_def split: option.split)

lemma gframe_fire: "gframe w (fire_count key w)"
proof (cases "jm_get (tw_counts w) key")
  case (Some p)
  let ?w = "w\<lparr>tw_counts := jm_set (tw_counts w) key (p\<lparr>cr_timer := None\<rparr>)\<rparr>"
  have w: "gframe w ?w" by (simp add: gframe_def)
  have "gframe ?w (countsSettled k ?w)" for k by (simp add: countsSettled_def gframe_def)
  then show ?thesis
    using Some gframe_trans [OF w] gframe_expand by (simp add: fire_count_def Let_def)
qed (simp add: fire_count_def)

lemma gframe_refetch: "gframe w (refetchNow w)"
proof -
  have "gframe w (fold fire_count ks w)" for ks
    by (induction ks arbitrary: w) (auto intro: gframe_trans gframe_fire)
  then show ?thesis by (simp add: refetchNow_def)
qed

lemma gframe_end: "gframe w (load_end run c w)"
  by (simp add: load_end_def gframe_def)

lemma gframe_saved: "gframe w (expand_saved run c ns w)"
proof (induction ns arbitrary: w)
  case (Cons n ns)
  have "gframe w (expand_saved run c ns (snd (expandNode b c m ty cat w)))" for b m ty cat
    by (rule gframe_trans [OF gframe_expand Cons.IH])
  then show ?case using Cons.IH gframe_expand gframe_end by (simp add: split_beta split: option.split)
qed (simp add: gframe_end)

lemma gframe_done: "gframe w (expansion_over b c n cat ok w)"
  by (simp add: expansion_over_def gframe_settle gframe_saved gframe_end split: caller.split)

lemma gframe_body: "gframe w (load_body run c w)"
proof (cases "cluster_state c (tw_ws w)")
  case (Some st)
  then show ?thesis by (auto simp: load_body_def gframe_def)
qed (simp add: load_body_def gframe_end)

lemma gframe_basic:
  "gframe w (on_tw f w)" "gframe w (tree_asks cs w)" "list_all (\<lambda>k. gate_of k = None) ks \<Longrightarrow> gframe w (tree_awaits ks w)"
  by (auto simp: gframe_def list_all_iff)

definition gates_but :: "nat option \<Rightarrow> tree_world \<Rightarrow> bool" where
  "gates_but S w \<longleftrightarrow>
     (\<forall>a < length (tw_attempts w). tw_attempts w ! a = None \<longrightarrow> S = Some a \<or> (\<exists>i name. ConnectTask a i name \<in> set (tw_tasks w)))
     \<and> (\<forall>k \<in> set (tw_tasks w). \<forall>a. gate_of k = Some a \<longrightarrow> a < length (tw_attempts w))
     \<and> (\<forall>i a. jm_get (tw_gates w) i = Some a \<longrightarrow> a < length (tw_attempts w))"

lemma gates_but_frame: "gates_but S w \<Longrightarrow> gframe w w' \<Longrightarrow> gates_but S w'"
  unfolding gates_but_def gframe_def by (metis option.distinct(1) subsetD)

lemma gates_but_await: "gates_but S w \<Longrightarrow> a < length (tw_attempts w) \<Longrightarrow>
    gates_but S (tree_awaits [GateTask a run c] w) \<and> gates_but S (tree_awaits [GivenTask a c tree] w)"
  by (auto simp: gates_but_def)

definition connect_of :: "tree_task \<Rightarrow> nat option" where
  "connect_of k = (case k of ConnectTask a i name \<Rightarrow> Some a | _ \<Rightarrow> None)"

lemma task_taken: "i < length xs \<Longrightarrow> x \<in> set xs \<Longrightarrow> x = xs ! i \<or> x \<in> set (take i xs @ drop (Suc i) xs)"
  using id_take_nth_drop [of i xs] by (metis Un_iff insert_iff list.simps(15) set_append)

lemma gates_but_taken:
  assumes "gates_but None w" "i < length (tw_tasks w)"
  shows "gates_but (connect_of (tw_tasks w ! i)) (w\<lparr>tw_tasks := take i (tw_tasks w) @ drop (Suc i) (tw_tasks w)\<rparr>)"
proof -
  let ?ks = "take i (tw_tasks w) @ drop (Suc i) (tw_tasks w)"
  have sub: "set ?ks \<subseteq> set (tw_tasks w)" by (auto dest: in_set_takeD in_set_dropD)
  have "connect_of (tw_tasks w ! i) = Some a \<or> (\<exists>j name. ConnectTask a j name \<in> set ?ks)"
    if a: "a < length (tw_attempts w)" "tw_attempts w ! a = None" for a
  proof -
    obtain j name where "ConnectTask a j name \<in> set (tw_tasks w)" using assms(1) a by (auto simp: gates_but_def)
    from task_taken [OF assms(2) this] show ?thesis by (auto simp: connect_of_def split: tree_task.splits)
  qed
  then show ?thesis using assms(1) sub unfolding gates_but_def by auto
qed

lemma gframe_answer:
  assumes "answer_task k a w = Some w'" "connect_of k = None"
  shows "gframe w w'"
proof (cases k)
  case (GateTask attempt run c)
  then show ?thesis using assms by (auto simp: answer_task_def gframe_body gframe_end split: tree_answer.splits option.splits)
next
  case (GivenTask attempt c tree)
  then show ?thesis using assms by (auto simp: answer_task_def gframe_basic split: tree_answer.splits option.splits if_splits)
next
  case (CategoriesTask run c expanded existing)
  have f: "gframe w (expand_saved run c expanded (on_tw f (tree_awaits ks (tree_asks cs w))))"
    if "list_all (\<lambda>k. gate_of k = None) ks" for f ks cs
    by (rule gframe_trans [OF gframe_basic(2) gframe_trans [OF gframe_basic(3) gframe_trans [OF gframe_basic(1) gframe_saved]]]) (rule that)
  show ?thesis using assms CategoriesTask f
    by (auto simp: answer_task_def categories_came_def Let_def gframe_end split: tree_answer.splits option.splits)
next
  case (DisableTask c n)
  then show ?thesis using assms by (auto simp: answer_task_def disable_came_def gframe_basic split: tree_answer.splits if_splits)
next
  case (VClustersTask b c n)
  have "gframe w (expansion_over b c n cat True (on_tw f (tree_asks cs w)))" "gframe w (expansion_over b c n cat True (on_tw f w))" for f cs cat
    by (rule gframe_trans [OF gframe_basic(2) gframe_trans [OF gframe_basic(1) gframe_done]],
        rule gframe_trans [OF gframe_basic(1) gframe_done])
  then show ?thesis using assms VClustersTask
    by (auto simp: answer_task_def vclusters_came_def Let_def split_beta split: tree_answer.splits sum.splits)
next
  case (ResourcesTask b c n cat)
  have f: "gframe w (expansion_over b c n cat True (tree_awaits [CountsTask c n cat] (tree_asks cs (on_tw f w))))" for f cs
    by (rule gframe_trans [OF gframe_basic(1) gframe_trans [OF gframe_basic(2) gframe_trans [OF gframe_basic(3) gframe_done]]]) simp
  have g: "gframe w (expansion_over b c n cat True (on_tw f w))" for f
    by (rule gframe_trans [OF gframe_basic(1) gframe_done])
  show ?thesis using assms ResourcesTask f g gframe_done
    by (auto simp: answer_task_def resources_came_def Let_def split: tree_answer.splits option.splits if_splits)
next
  case (CountsTask c n cat)
  have "gframe w (settleOrRefetchCounts c n cat p (on_tw f w))" for f p
    by (rule gframe_trans [OF gframe_basic(1) gframe_settle])
  then show ?thesis using assms CountsTask gframe_settle
    by (auto simp: answer_task_def counts_came_def Let_def split: tree_answer.splits option.splits if_splits)
qed (use assms in \<open>auto simp: connect_of_def\<close>)

lemma still_unsettled: "xs[i := Some b] ! a = None \<Longrightarrow> a < length xs \<Longrightarrow> xs ! a = None \<and> a \<noteq> i"
  by (cases "a = i") auto

lemma gates_but_connected: "gates_but (Some attempt) w \<Longrightarrow> gates_but None (connect_came attempt i name failure w)"
  unfolding connect_came_def Let_def
  by (auto simp: gates_but_def dest!: still_unsettled split: option.split if_split_asm)

lemma gates_but_do: "gates_but None w \<Longrightarrow> gates_but None (tree_do ev w)"
proof (cases ev)
  case (Answer i a)
  assume ok: "gates_but None w"
  let ?w = "w\<lparr>tw_tasks := take i (tw_tasks w) @ drop (Suc i) (tw_tasks w)\<rparr>"
  show ?thesis
  proof (cases "i < length (tw_tasks w)")
    case True
    note taken = gates_but_taken [OF ok True]
    show ?thesis
    proof (cases "answer_task (tw_tasks w ! i) a ?w")
      case (Some w')
      show ?thesis
      proof (cases "connect_of (tw_tasks w ! i)")
        case None
        then show ?thesis using Answer True Some gates_but_frame [OF taken gframe_answer [OF Some None]] by simp
      next
        case (Some c)
        then obtain j name where k: "tw_tasks w ! i = ConnectTask c j name" by (auto simp: connect_of_def split: tree_task.splits)
        then show ?thesis
          using Answer True \<open>answer_task (tw_tasks w ! i) a ?w = Some w'\<close> taken gates_but_connected
          by (auto simp: answer_task_def connect_of_def split: tree_answer.splits)
      qed
    qed (use Answer True ok in simp)
  qed (use Answer ok in simp)
next
  case (LoadTree c)
  assume ok: "gates_but None w"
  let ?w = "w\<lparr>tw_loads := jm_set (tw_loads w) c (tw_next w), tw_next := tw_next w + 1\<rparr>"
  have l: "gates_but None ?w" using ok by (simp add: gates_but_def)
  have "a < length (tw_attempts ?w)" if "jm_get (tw_gates w) c = Some a" for a using ok that by (simp add: gates_but_def)
  then show ?thesis using LoadTree ok gates_but_frame [OF l gframe_body] gates_but_await [OF l]
    by (auto simp: loadTreeData_def Let_def split: option.split)
next
  case (GiveTree c tree)
  assume ok: "gates_but None w"
  then have "a < length (tw_attempts w)" if "jm_get (tw_gates w) c = Some a" for a using that by (simp add: gates_but_def)
  then show ?thesis using GiveTree gates_but_frame [OF ok gframe_basic(1)] gates_but_await [OF ok]
    by (auto simp: loadGivenTree_def split: option.split)
next
  case (Reconnect i)
  assume ok: "gates_but None w"
  have "gates_but None (tree_awaits [ConnectTask (length (tw_attempts w)) i name] (tree_asks cs
      (w\<lparr>tw_gates := jm_set (tw_gates w) i (length (tw_attempts w)), tw_attempts := tw_attempts w @ [None]\<rparr>)))" for name cs
    using ok by (auto simp: gates_but_def nth_append less_Suc_eq split: if_split_asm)
  then show ?thesis using Reconnect ok by (simp add: reconnectRestoredVCluster_def Let_def split: option.split)
next
  case (Expand c n ty cat)
  then show "gates_but None w \<Longrightarrow> ?thesis" using gates_but_frame [OF _ gframe_expand] by simp
next
  case (ForgetTree c)
  then show "gates_but None w \<Longrightarrow> ?thesis" by (simp add: forgetTreeLoad_def gates_but_def)
next
  case (Toggle n)
  then show "gates_but None w \<Longrightarrow> ?thesis" by (simp add: gates_but_def)
next
  case (CountTimer key)
  then show "gates_but None w \<Longrightarrow> ?thesis" using gates_but_frame [OF _ gframe_fire] by (simp split: option.split)
next
  case RefetchNow
  then show "gates_but None w \<Longrightarrow> ?thesis" using gates_but_frame [OF _ gframe_refetch] by simp
next
  case (ForgetGate i)
  then show "gates_but None w \<Longrightarrow> ?thesis" by (auto simp: forgetRestoredVCluster_def gates_but_def split: if_split_asm)
next
  case (TreeElsewhere f)
  then show "gates_but None w \<Longrightarrow> ?thesis" by (simp add: gates_but_def)
qed

section \<open>Pending counts are asked for again\<close>

text \<open>The category \<open>custom\<close> has no counts.\<close>

fun task_cat_ok :: "tree_task \<Rightarrow> bool" where
  "task_cat_ok (CountsTask c n cat) = (cat \<noteq> ''custom'')"
| "task_cat_ok (ResourcesTask by c n cat) = (by = ByRefetch \<longrightarrow> cat \<noteq> ''custom'')"
| "task_cat_ok _ = True"

text \<open>The node of cluster \<open>c\<close> whose repetition goes on when the task is answered.\<close>

definition retry_of :: "string \<Rightarrow> tree_task \<Rightarrow> string option" where
  "retry_of c k =
     (case k of
        CountsTask c' n cat \<Rightarrow> if c' = c then Some n else None
      | ResourcesTask by c' n cat \<Rightarrow> if by = ByRefetch \<and> c' = c then Some n else None
      | _ \<Rightarrow> None)"

definition entry_ok :: "string \<Rightarrow> count_retry \<Rightarrow> bool" where
  "entry_ok key p \<longleftrightarrow> key = count_key (cr_cluster p) (cr_node p) \<and> cr_category p \<noteq> ''custom''
     \<and> (\<forall>d. cr_timer p = Some d \<longrightarrow> 2000 \<le> d \<and> d \<le> 60000)"

definition retries_but :: "string \<Rightarrow> string option \<Rightarrow> tree_world \<Rightarrow> bool" where
  "retries_but c S w \<longleftrightarrow>
     list_all task_cat_ok (tw_tasks w)
     \<and> (\<forall>key p. jm_get (tw_counts w) key = Some p \<longrightarrow> entry_ok key p
          \<and> (cr_cluster p = c \<longrightarrow> cr_timer p \<noteq> None \<or> S = Some (cr_node p) \<or> Some (cr_node p) \<in> retry_of c ` set (tw_tasks w)))"

definition rframe :: "tree_world \<Rightarrow> tree_world \<Rightarrow> bool" where
  "rframe w w' \<longleftrightarrow> tw_counts w' = tw_counts w \<and> set (tw_tasks w) \<subseteq> set (tw_tasks w')
     \<and> (list_all task_cat_ok (tw_tasks w) \<longrightarrow> list_all task_cat_ok (tw_tasks w'))"

lemma rframe_refl [simp]: "rframe w w"
  by (simp add: rframe_def)

lemma rframe_trans:
  assumes a: "rframe w w'" and b: "rframe w' w''"
  shows "rframe w w''"
proof -
  have "set (tw_tasks w) \<subseteq> set (tw_tasks w'')"
    by (rule subset_trans [of _ "set (tw_tasks w')"]) (use a b in \<open>simp_all add: rframe_def\<close>)
  then show ?thesis using a b by (simp add: rframe_def)
qed

lemma rframe_basic:
  "rframe w (on_tw f w)" "rframe w (tree_asks cs w)" "list_all task_cat_ok ks \<Longrightarrow> rframe w (tree_awaits ks w)"
  by (auto simp: rframe_def)

lemma retries_entry: "retries_but c S w \<Longrightarrow> jm_get (tw_counts w) key = Some p \<Longrightarrow> entry_ok key p"
  by (simp add: retries_but_def)

lemma retries_at: "retries_but c S w \<Longrightarrow> jm_get (tw_counts w) key = Some p \<Longrightarrow> cr_cluster p = c \<Longrightarrow>
    cr_timer p \<noteq> None \<or> S = Some (cr_node p) \<or> Some (cr_node p) \<in> retry_of c ` set (tw_tasks w)"
  by (simp add: retries_but_def)

lemma retries_butI:
  assumes "list_all task_cat_ok (tw_tasks w)"
    and "\<And>key p. jm_get (tw_counts w) key = Some p \<Longrightarrow> entry_ok key p"
    and "\<And>key p. jm_get (tw_counts w) key = Some p \<Longrightarrow> cr_cluster p = c \<Longrightarrow>
      cr_timer p \<noteq> None \<or> S = Some (cr_node p) \<or> Some (cr_node p) \<in> retry_of c ` set (tw_tasks w)"
  shows "retries_but c S w"
  using assms unfolding retries_but_def by blast

lemma retries_cats: "retries_but c S w \<Longrightarrow> list_all task_cat_ok (tw_tasks w)"
  by (simp add: retries_but_def)

lemma retries_frame: "retries_but c S w \<Longrightarrow> rframe w w' \<Longrightarrow> retries_but c S w'"
proof -
  assume r: "retries_but c S w" and f: "rframe w w'"
  have "retry_of c ` set (tw_tasks w) \<subseteq> retry_of c ` set (tw_tasks w')" by (rule image_mono) (use f in \<open>simp add: rframe_def\<close>)
  moreover have "tw_counts w' = tw_counts w" "list_all task_cat_ok (tw_tasks w')" using r f by (simp_all add: rframe_def retries_but_def)
  moreover have "cr_timer p \<noteq> None \<or> S = Some (cr_node p) \<or> Some (cr_node p) \<in> retry_of c ` set (tw_tasks w')"
    if "jm_get (tw_counts w) key = Some p" "cr_cluster p = c" for key p
    using retries_at [OF r that] calculation(1) by (elim disjE) (simp_all add: subset_iff)
  ultimately show ?thesis using retries_entry [OF r] by (intro retries_butI) simp_all
qed

lemma retries_more: "retries_but c None w \<Longrightarrow> retries_but c S w"
proof -
  assume r: "retries_but c None w"
  have step: "cr_timer p \<noteq> None \<or> S = Some (cr_node p) \<or> Some (cr_node p) \<in> retry_of c ` set (tw_tasks w)"
    if "jm_get (tw_counts w) key = Some p" "cr_cluster p = c" for key p
    using retries_at [OF r that] by (elim disjE) simp_all
  show ?thesis by (rule retries_butI [OF retries_cats [OF r] retries_entry [OF r]]) (simp, rule step)
qed

lemma retries_task: "retries_but c (Some n) w \<Longrightarrow> Some n \<in> retry_of c ` set (tw_tasks w) \<Longrightarrow> retries_but c None w"
proof -
  assume r: "retries_but c (Some n) w" and n: "Some n \<in> retry_of c ` set (tw_tasks w)"
  have "cr_timer p \<noteq> None \<or> Some (cr_node p) \<in> retry_of c ` set (tw_tasks w)"
    if "jm_get (tw_counts w) key = Some p" "cr_cluster p = c" for key p
    using retries_at [OF r that] n by (cases "cr_node p = n") simp_all
  then show ?thesis using retries_entry [OF r] retries_cats [OF r] by (intro retries_butI) simp_all
qed

lemma recount_delay_range: "2000 \<le> recount_delay a \<and> recount_delay a \<le> 60000"
proof -
  have "min a 5 \<in> {0, 1, 2, 3, 4, 5}" by (simp add: min_def) arith
  moreover have "recount_delay a = [2000, 5000, 10000, 20000, 30000, 60000] ! min a 5" by (simp add: recount_delay_def DELAYS_MS_def eval_nat_numeral)
  ultimately show ?thesis by (elim insertE) (simp_all only:, simp_all)
qed

lemma retries_settle:
  assumes r: "retries_but c S w" and S: "S = None \<or> S = Some n \<and> c' = c" and cat: "cat \<noteq> ''custom''"
  shows "retries_but c None (settleOrRefetchCounts c' n cat pending w)"
proof -
  let ?w = "settleOrRefetchCounts c' n cat pending w" and ?key = "count_key c' n"
  have tasks: "tw_tasks ?w = tw_tasks w"
    by (simp add: settleOrRefetchCounts_def countsSettled_def refetchCountsLater_def Let_def)
  have counts: "jm_get (tw_counts ?w) key = (if key = ?key then (if pending
      then Some \<lparr>cr_attempt = (case jm_get (tw_counts w) ?key of None \<Rightarrow> 0 | Some p \<Rightarrow> cr_attempt p + 1),
        cr_timer = Some (recount_delay (case jm_get (tw_counts w) ?key of None \<Rightarrow> 0 | Some p \<Rightarrow> cr_attempt p + 1)),
        cr_cluster = c', cr_node = n, cr_category = cat\<rparr> else None) else jm_get (tw_counts w) key)" for key
    by (simp add: settleOrRefetchCounts_def countsSettled_def refetchCountsLater_def Let_def jm_has_get)
  have "entry_ok key p \<and> (cr_cluster p = c \<longrightarrow> cr_timer p \<noteq> None \<or> Some (cr_node p) \<in> retry_of c ` set (tw_tasks w))"
    if p: "jm_get (tw_counts ?w) key = Some p" for key p
  proof (cases "key = ?key")
    case True
    then have "p = \<lparr>cr_attempt = cr_attempt p, cr_timer = Some (recount_delay (cr_attempt p)), cr_cluster = c', cr_node = n, cr_category = cat\<rparr>"
      using p by (auto simp: counts split: if_split_asm)
    then have "cr_timer p = Some (recount_delay (cr_attempt p))" "cr_cluster p = c'" "cr_node p = n" "cr_category p = cat"
      by (metis count_retry.select_convs)+
    then show ?thesis using True cat recount_delay_range by (simp add: entry_ok_def)
  next
    case False
    then have old: "jm_get (tw_counts w) key = Some p" using p by (simp add: counts)
    then have e: "entry_ok key p" by (rule retries_entry [OF r])
    have "S \<noteq> Some (cr_node p)" if "cr_cluster p = c"
      using False e S that by (auto simp: entry_ok_def)
    then show ?thesis using retries_at [OF r old] e by blast
  qed
  then show ?thesis using retries_cats [OF r] by (intro retries_butI) (simp_all only: tasks, blast+)
qed

lemma rframe_expand: "b = ByRefetch \<longrightarrow> cat \<noteq> ''custom'' \<Longrightarrow> rframe w (snd (expandNode b c n ty cat w))"
proof -
  assume b: "b = ByRefetch \<longrightarrow> cat \<noteq> ''custom''"
  have "jm_get predefinedCategories ''custom'' = None" by code_simp
  then have "cat \<noteq> ''custom''" if "jm_get predefinedCategories cat = Some p" for p using that by auto
  then show ?thesis using b
    by (auto simp: expandNode_def rframe_def split: option.split)
qed

lemma expand_retry: "Some n \<in> retry_of c ` set (tw_tasks (snd (expandNode ByRefetch c n ''category'' cat w)))"
  by (auto simp: expandNode_def retry_of_def split: option.split)

lemma counts_retries_settled:
  assumes r: "retries_but c S w" and S: "S = None \<or> S = Some n \<and> c' = c"
  shows "retries_but c None (countsSettled (count_key c' n) w)"
proof -
  have "entry_ok key p \<and> (cr_cluster p = c \<longrightarrow> cr_timer p \<noteq> None \<or> Some (cr_node p) \<in> retry_of c ` set (tw_tasks w))"
    if p: "jm_get (tw_counts w) key = Some p" "key \<noteq> count_key c' n" for key p
  proof -
    have e: "entry_ok key p" by (rule retries_entry [OF r p(1)])
    then have "S \<noteq> Some (cr_node p)" if "cr_cluster p = c" using S that p(2) by (auto simp: entry_ok_def)
    then show ?thesis using retries_at [OF r p(1)] e by blast
  qed
  moreover have "jm_get (tw_counts w) key = Some p \<and> key \<noteq> count_key c' n"
    if "jm_get (tw_counts (countsSettled (count_key c' n) w)) key = Some p" for key p
    using that by (auto simp: countsSettled_def jm_has_get split: if_split_asm)
  moreover have "tw_tasks (countsSettled (count_key c' n) w) = tw_tasks w" by (simp add: countsSettled_def)
  ultimately show ?thesis using retries_cats [OF r] by (intro retries_butI) (simp_all only:, blast+)
qed

lemma retries_fire:
  assumes r: "retries_but c None w"
  shows "retries_but c None (fire_count key w)"
proof (cases "jm_get (tw_counts w) key")
  case (Some p)
  let ?w = "w\<lparr>tw_counts := jm_set (tw_counts w) key (p\<lparr>cr_timer := None\<rparr>)\<rparr>"
  have p: "entry_ok key p" by (rule retries_entry [OF r Some])
  have r1: "retries_but c (if cr_cluster p = c then Some (cr_node p) else None) ?w"
  proof (rule retries_butI)
    show "list_all task_cat_ok (tw_tasks ?w)" using retries_cats [OF r] by simp
    show "entry_ok k q" if "jm_get (tw_counts ?w) k = Some q" for k q
      using that retries_entry [OF r] p by (cases "k = key") (auto simp: entry_ok_def)
    show "cr_timer q \<noteq> None \<or> (if cr_cluster p = c then Some (cr_node p) else None) = Some (cr_node q)
        \<or> Some (cr_node q) \<in> retry_of c ` set (tw_tasks ?w)"
      if "jm_get (tw_counts ?w) k = Some q" "cr_cluster q = c" for k q
    proof (cases "k = key")
      case True
      then have q: "q = p\<lparr>cr_timer := None\<rparr>" using that(1) by simp
      show ?thesis using that(2) by (simp add: q)
    next
      case False
      then have "jm_get (tw_counts w) k = Some q" using that(1) by simp
      from retries_at [OF r this that(2)] show ?thesis by (elim disjE) simp_all
    qed
  qed
  have key: "key = count_key (cr_cluster p) (cr_node p)" and cat: "cr_category p \<noteq> ''custom''" using p by (simp_all add: entry_ok_def)
  let ?e = "snd (expandNode ByRefetch (cr_cluster p) (cr_node p) ''category'' (cr_category p) ?w)"
  have "retries_but c (if cr_cluster p = c then Some (cr_node p) else None) ?e"
    by (rule retries_frame [OF r1 rframe_expand]) (simp add: cat)
  then have "retries_but c None ?e"
    using retries_task [of c "cr_node p" ?e] expand_retry [of "cr_node p" "cr_cluster p" "cr_category p" ?w]
    by (simp split: if_split_asm)
  moreover have "retries_but c None (countsSettled (count_key (cr_cluster p) (cr_node p)) ?w)"
    by (rule counts_retries_settled [OF r1]) simp
  ultimately show ?thesis using Some by (simp add: fire_count_def Let_def)
qed (simp add: fire_count_def r)

lemma retries_refetch: "retries_but c None w \<Longrightarrow> retries_but c None (refetchNow w)"
proof -
  assume "retries_but c None w"
  then have "retries_but c None (fold fire_count ks w)" for ks
    by (induction ks arbitrary: w) (simp_all add: retries_fire)
  then show ?thesis by (simp add: refetchNow_def)
qed

lemma rframe_end: "rframe w (load_end run c w)"
  by (simp add: load_end_def rframe_def)

lemma rframe_saved: "rframe w (expand_saved run c ns w)"
proof (induction ns arbitrary: w)
  case (Cons n ns)
  have "rframe w (expand_saved run c ns (snd (expandNode b c m ty cat w)))" if "b \<noteq> ByRefetch" for b m ty cat
    by (rule rframe_trans [OF rframe_expand Cons.IH]) (simp add: that)
  then show ?case using Cons.IH rframe_expand rframe_end by (simp add: split_beta split: option.split)
qed (simp add: rframe_end)

lemma rframe_body: "rframe w (load_body run c w)"
proof (cases "cluster_state c (tw_ws w)")
  case (Some st)
  then show ?thesis by (auto simp: load_body_def rframe_def)
qed (simp add: load_body_def rframe_end)

text \<open>The cluster's tab stays open.\<close>

definition tab_open :: "string \<Rightarrow> ws \<Rightarrow> bool" where
  "tab_open c s \<longleftrightarrow> ws_wf s \<and> c \<in> tab_id ` set (ws_activeTabs s)"

lemma tab_open_state: "tab_open c s \<Longrightarrow> cluster_state c s \<noteq> None"
proof -
  assume o: "tab_open c s"
  then have "find_index (\<lambda>t. tab_id t = c) (ws_activeTabs s) \<noteq> None"
    using find_index_none [of "\<lambda>t. tab_id t = c" "ws_activeTabs s"] by (auto simp: tab_open_def)
  then obtain i where "find_index (\<lambda>t. tab_id t = c) (ws_activeTabs s) = Some i" by blast
  moreover from this have "i < length (ws_activeTabs s)"
    using find_index_from_some [of 0 "\<lambda>t. tab_id t = c" "ws_activeTabs s" i] by (simp add: find_index_def)
  ultimately show ?thesis
    using o rebuildTabIndex_get [of "ws_activeTabs s" c] by (simp add: tab_open_def ws_wf_def cluster_state_def nth_opt_def)
qed

lemma tab_open_write: "tab_open c s \<Longrightarrow> tab_open c (write_tree d f s)"
proof -
  assume o: "tab_open c s"
  have "tab_open c (set_tabs ((ws_activeTabs s)[i := t\<lparr>tab_st := st\<rparr>]) s)" if "nth_opt (ws_activeTabs s) i = Some t" for i t st
  proof -
    have ids: "map tab_id ((ws_activeTabs s)[i := t\<lparr>tab_st := st\<rparr>]) = map tab_id (ws_activeTabs s)"
      using that by (auto simp: nth_opt_some map_update intro: list_update_same_conv [THEN iffD2])
    then have "tab_id ` set ((ws_activeTabs s)[i := t\<lparr>tab_st := st\<rparr>]) = tab_id ` set (ws_activeTabs s)"
      by (metis set_map)
    then show ?thesis
      using o ids by (auto simp: tab_open_def ws_wf_def set_tabs_def)
  qed
  then show ?thesis using o by (simp add: write_tree_def split: option.split)
qed

definition keeps_open :: "string \<Rightarrow> tree_world \<Rightarrow> tree_world \<Rightarrow> bool" where
  "keeps_open c w w' \<longleftrightarrow> (tab_open c (tw_ws w) \<longrightarrow> tab_open c (tw_ws w'))"

lemma keeps_trans: "keeps_open c w w' \<Longrightarrow> keeps_open c w' w'' \<Longrightarrow> keeps_open c w w''"
  by (simp add: keeps_open_def)

lemma keeps_same: "tw_ws w' = tw_ws w \<Longrightarrow> keeps_open c w w'"
  by (simp add: keeps_open_def)

lemma keeps_write: "keeps_open c w (on_tw (write_tree d f) w)"
  by (simp add: keeps_open_def tab_open_write)

lemma keeps_expand: "keeps_open c w (snd (expandNode b d n ty cat w))"
  by (simp add: expandNode_def keeps_open_def tab_open_write split: option.split)

lemma keeps_settle: "keeps_open c w (settleOrRefetchCounts d n cat pending w)"
  by (simp add: keeps_same settleOrRefetchCounts_def countsSettled_def refetchCountsLater_def Let_def)

lemma keeps_end: "keeps_open c w (load_end run d w)"
  by (simp add: keeps_same load_end_def)

lemma keeps_saved: "keeps_open c w (expand_saved run d ns w)"
proof (induction ns arbitrary: w)
  case (Cons n ns)
  have "keeps_open c w (expand_saved run d ns (snd (expandNode b d m ty cat w)))" for b m ty cat
    by (rule keeps_trans [OF keeps_expand Cons.IH])
  then show ?case using Cons.IH keeps_expand keeps_end by (simp add: split_beta split: option.split)
qed (simp add: keeps_end)

lemma keeps_done: "keeps_open c w (expansion_over b d n cat ok w)"
  by (simp add: expansion_over_def keeps_settle keeps_saved keeps_end keeps_same split: caller.split)

lemma keeps_body: "keeps_open c w (load_body run d w)"
proof (cases "cluster_state d (tw_ws w)")
  case (Some st)
  then show ?thesis by (simp add: load_body_def keeps_same)
qed (simp add: load_body_def keeps_end)

lemma keeps_fire: "keeps_open c w (fire_count key w)"
proof (cases "jm_get (tw_counts w) key")
  case (Some p)
  have "keeps_open c w (w\<lparr>tw_counts := m\<rparr>)" "keeps_open c w (countsSettled k (w\<lparr>tw_counts := m\<rparr>))" for m k
    by (simp_all add: keeps_same countsSettled_def)
  then show ?thesis using Some keeps_trans [OF _ keeps_expand] by (simp add: fire_count_def Let_def)
qed (simp add: fire_count_def keeps_same)

lemma keeps_refetch: "keeps_open c w (refetchNow w)"
proof -
  have "keeps_open c w (fold fire_count ks w)" for ks
    by (induction ks arbitrary: w) (auto intro: keeps_trans keeps_fire simp: keeps_same)
  then show ?thesis by (simp add: refetchNow_def)
qed

lemma keeps_answer:
  assumes "answer_task k a w = Some w'"
  shows "keeps_open c w w'"
proof (cases k)
  case (GateTask attempt run d)
  then show ?thesis using assms by (auto simp: answer_task_def keeps_body keeps_end split: tree_answer.splits option.splits)
next
  case (GivenTask attempt d tree)
  then show ?thesis using assms
    by (auto simp: answer_task_def keeps_write keeps_same split: tree_answer.splits option.splits if_splits)
next
  case (CategoriesTask run d expanded existing)
  have "keeps_open c w (tree_awaits ks (tree_asks cs w))" for ks cs by (simp add: keeps_same)
  then have "keeps_open c w (expand_saved run d expanded (on_tw (write_tree d f) (tree_awaits ks (tree_asks cs w))))" for f ks cs
    by (rule keeps_trans [OF keeps_trans [OF _ keeps_write] keeps_saved])
  then show ?thesis using assms CategoriesTask
    by (auto simp: answer_task_def categories_came_def Let_def keeps_end split: tree_answer.splits option.splits)
next
  case (DisableTask d n)
  then show ?thesis using assms by (auto simp: answer_task_def disable_came_def keeps_write split: tree_answer.splits if_splits)
next
  case (VClustersTask b d n)
  have "keeps_open c w (tree_asks cs w)" for cs by (simp add: keeps_same)
  then have "keeps_open c w (expansion_over b d n cat True (on_tw (write_tree d f) (tree_asks cs w)))"
    "keeps_open c w (expansion_over b d n cat True (on_tw (write_tree d f) w))" for f cs cat
    by (rule keeps_trans [OF keeps_trans [OF _ keeps_write] keeps_done]) (rule keeps_trans [OF keeps_write keeps_done])
  then show ?thesis using assms VClustersTask
    by (auto simp: answer_task_def vclusters_came_def Let_def split_beta split: tree_answer.splits sum.splits)
next
  case (ResourcesTask b d n cat)
  have "keeps_open c w (tree_awaits ks (tree_asks cs (on_tw (write_tree d f) w)))" for f ks cs
    by (simp add: keeps_open_def tab_open_write)
  then have e: "keeps_open c w (expansion_over b d n cat True (tree_awaits ks (tree_asks cs (on_tw (write_tree d f) w))))" for f ks cs
    by (rule keeps_trans [OF _ keeps_done])
  have "keeps_open c w (expansion_over b d n cat True (on_tw (write_tree d f) w))" for f
    by (rule keeps_trans [OF keeps_write keeps_done])
  with e show ?thesis using assms ResourcesTask keeps_done
    by (auto simp: answer_task_def resources_came_def Let_def split: tree_answer.splits option.splits if_splits)
next
  case (CountsTask d n cat)
  have "keeps_open c w (settleOrRefetchCounts d n cat p (on_tw (write_tree d f) w))" for f p
    by (rule keeps_trans [OF keeps_write keeps_settle])
  then show ?thesis using assms CountsTask keeps_settle keeps_same
    by (auto simp: answer_task_def counts_came_def Let_def split: tree_answer.splits option.splits if_splits)
next
  case (ConnectTask attempt i name)
  then show ?thesis using assms
    by (auto simp: answer_task_def connect_came_def Let_def keeps_open_def split: tree_answer.splits option.splits)
qed

section \<open>Repetitions over a session\<close>

lemma retries_taken:
  assumes r: "retries_but c None w" and i: "i < length (tw_tasks w)"
  shows "retries_but c (retry_of c (tw_tasks w ! i)) (w\<lparr>tw_tasks := take i (tw_tasks w) @ drop (Suc i) (tw_tasks w)\<rparr>)"
    and "task_cat_ok (tw_tasks w ! i)"
proof -
  let ?ks = "take i (tw_tasks w) @ drop (Suc i) (tw_tasks w)"
  have cats: "\<forall>k \<in> set (tw_tasks w). task_cat_ok k" using retries_cats [OF r] by (simp add: list_all_iff)
  then show "task_cat_ok (tw_tasks w ! i)" using i by simp
  have step: "cr_timer p \<noteq> None \<or> retry_of c (tw_tasks w ! i) = Some (cr_node p) \<or> Some (cr_node p) \<in> retry_of c ` set ?ks"
    if "jm_get (tw_counts w) key = Some p" "cr_cluster p = c" for key p
    using retries_at [OF r that]
  proof (elim disjE)
    assume "Some (cr_node p) \<in> retry_of c ` set (tw_tasks w)"
    then obtain k where "k \<in> set (tw_tasks w)" "retry_of c k = Some (cr_node p)" by auto
    then show ?thesis using task_taken [OF i, of k] by (metis imageI)
  qed simp_all
  show "retries_but c (retry_of c (tw_tasks w ! i)) (w\<lparr>tw_tasks := ?ks\<rparr>)"
  proof (rule retries_butI)
    show "list_all task_cat_ok (tw_tasks (w\<lparr>tw_tasks := ?ks\<rparr>))"
      using cats by (auto simp: list_all_iff dest: in_set_takeD in_set_dropD)
    show "entry_ok key p" if "jm_get (tw_counts (w\<lparr>tw_tasks := ?ks\<rparr>)) key = Some p" for key p
      using that retries_entry [OF r] by simp
    show "cr_timer p \<noteq> None \<or> retry_of c (tw_tasks w ! i) = Some (cr_node p)
        \<or> Some (cr_node p) \<in> retry_of c ` set (tw_tasks (w\<lparr>tw_tasks := ?ks\<rparr>))"
      if "jm_get (tw_counts (w\<lparr>tw_tasks := ?ks\<rparr>)) key = Some p" "cr_cluster p = c" for key p
      using step [of key p] that by simp
  qed
qed

lemma retries_on_tw [simp]: "retries_but c S (on_tw f w) = retries_but c S w" "retries_but c S (tree_asks cs w) = retries_but c S w"
  by (simp_all add: retries_but_def)

lemma retries_awaits: "retries_but c S w \<Longrightarrow> list_all task_cat_ok ks \<Longrightarrow> retries_but c S (tree_awaits ks w)"
  by (rule retries_frame [OF _ rframe_basic(3)])

lemma retries_done_ok: "retries_but c None w \<Longrightarrow> retries_but c None (expansion_over b d n cat True w)"
  using retries_frame [OF _ rframe_saved] by (simp add: expansion_over_def split: caller.split)

lemma retries_failed:
  assumes r: "retries_but c (retry_of c (ResourcesTask b d n cat)) w" and k: "task_cat_ok (ResourcesTask b d n cat)"
  shows "retries_but c None (expansion_over b d n cat False w)"
proof (cases b)
  case ByRefetch
  have "retries_but c None (settleOrRefetchCounts d n cat True w)"
    by (rule retries_settle [OF r]) (use ByRefetch k in \<open>auto simp: retry_of_def\<close>)
  then show ?thesis using ByRefetch by (simp add: expansion_over_def)
next
  case (ByLoad run rest)
  have "retries_but c None w" using r ByLoad by (simp add: retry_of_def)
  then show ?thesis using ByLoad retries_frame [OF _ rframe_end] by (simp add: expansion_over_def)
qed (use r in \<open>simp add: expansion_over_def retry_of_def\<close>)

lemma retries_counting:
  assumes r: "retries_but c (retry_of c (ResourcesTask b d n cat)) w" and k: "task_cat_ok (ResourcesTask b d n cat)"
  shows "retries_but c None (if cat \<noteq> ''custom''
    then tree_awaits [CountsTask d n cat] (tree_asks cs (on_tw f w)) else on_tw f w)"
proof (cases "retry_of c (ResourcesTask b d n cat)")
  case None
  then have "retries_but c None w" using r by simp
  then show ?thesis by (simp add: retries_awaits)
next
  case (Some m)
  then have m: "m = n" "d = c" "cat \<noteq> ''custom''" using k by (auto simp: retry_of_def split: if_split_asm)
  have "retries_but c (Some n) (tree_awaits [CountsTask d n cat] (tree_asks cs (on_tw f w)))"
    by (rule retries_awaits) (use r Some m in simp_all)
  then have "retries_but c None (tree_awaits [CountsTask d n cat] (tree_asks cs (on_tw f w)))"
    by (rule retries_task) (simp add: retry_of_def m)
  with m show ?thesis by simp
qed

lemma retries_answer:
  assumes r: "retries_but c (retry_of c k) w" and o: "tab_open c (tw_ws w)" and k: "task_cat_ok k"
    and a: "answer_task k a w = Some w'"
  shows "retries_but c None w'"
proof (cases k)
  case (GateTask attempt run d)
  then have "retries_but c None w" using r by (simp add: retry_of_def)
  then show ?thesis using a GateTask retries_frame [OF _ rframe_body] retries_frame [OF _ rframe_end]
    by (auto simp: answer_task_def split: tree_answer.splits option.splits)
next
  case (GivenTask attempt d tree)
  then show ?thesis using r a by (auto simp: answer_task_def retry_of_def split: tree_answer.splits option.splits if_splits)
next
  case (CategoriesTask run d expanded existing)
  then have w: "retries_but c None w" using r by (simp add: retry_of_def)
  have "retries_but c None (expand_saved run d expanded (on_tw f (tree_awaits ks (tree_asks cs w))))" if "list_all task_cat_ok ks" for f ks cs
    by (rule retries_frame [OF _ rframe_saved]) (simp add: retries_awaits w that)
  then show ?thesis using a CategoriesTask retries_frame [OF w rframe_end]
    by (auto simp: answer_task_def categories_came_def Let_def split: tree_answer.splits option.splits)
next
  case (DisableTask d n)
  then show ?thesis using r a by (auto simp: answer_task_def disable_came_def retry_of_def split: tree_answer.splits if_splits)
next
  case (ConnectTask attempt i name)
  have "retries_but c None (connect_came attempt i name failure w)" for failure
    using r ConnectTask by (simp add: connect_came_def Let_def retries_but_def retry_of_def split: option.split)
  then show ?thesis using a ConnectTask by (auto simp: answer_task_def split: tree_answer.splits)
next
  case (CountsTask d n cat)
  then have cat: "cat \<noteq> ''custom''" using k by simp
  have S: "retry_of c k = None \<or> retry_of c k = Some n \<and> d = c" using CountsTask by (simp add: retry_of_def)
  have s: "retries_but c None (settleOrRefetchCounts d n cat p (on_tw f w))" "retries_but c None (settleOrRefetchCounts d n cat p w)" for f p
    by (rule retries_settle [OF _ S cat]; simp add: r)+
  have "retries_but c None w" if "cluster_state d (tw_ws w) = None"
  proof -
    have "d \<noteq> c" using tab_open_state [OF o] that by auto
    then show ?thesis using r CountsTask by (simp add: retry_of_def)
  qed
  then show ?thesis using a CountsTask s
    by (auto simp: answer_task_def counts_came_def Let_def split: tree_answer.splits option.splits if_splits)
next
  case (VClustersTask b d n)
  then have n: "retries_but c None w" using r by (simp add: retry_of_def)
  have "retries_but c None (expansion_over b d n [] True (on_tw f (tree_asks cs w)))" "retries_but c None (expansion_over b d n [] True (on_tw f w))" for f cs
    by (rule retries_done_ok; simp add: n)+
  then show ?thesis using a VClustersTask
    by (auto simp: answer_task_def vclusters_came_def Let_def split_beta split: tree_answer.splits sum.splits)
next
  case (ResourcesTask b d n cat)
  have r': "retries_but c (retry_of c (ResourcesTask b d n cat)) w" and k': "task_cat_ok (ResourcesTask b d n cat)"
    using r k ResourcesTask by simp_all
  have closed: "retries_but c None (expansion_over b d n cat True w)" if "cluster_state d (tw_ws w) = None"
  proof (rule retries_done_ok)
    have "d \<noteq> c" using tab_open_state [OF o] that by auto
    then show "retries_but c None w" using r' by (simp add: retry_of_def)
  qed
  have counting: "retries_but c None (expansion_over b d n cat True (if cat \<noteq> ''custom''
      then tree_awaits [CountsTask d n cat] (tree_asks cs (on_tw f w)) else on_tw f w))" for cs f
    by (rule retries_done_ok [OF retries_counting [OF r' k']])
  show ?thesis
    using a ResourcesTask closed retries_failed [OF r' k'] counting
    by (auto simp: answer_task_def resources_came_def Let_def simp del: if_not_P split: tree_answer.splits option.splits if_splits)
qed

lemma retries_do:
  assumes r: "retries_but c None w" and o: "tab_open c (tw_ws w)"
  shows "retries_but c None (tree_do ev w)"
proof (cases ev)
  case (Answer i a)
  let ?w = "w\<lparr>tw_tasks := take i (tw_tasks w) @ drop (Suc i) (tw_tasks w)\<rparr>"
  show ?thesis
  proof (cases "i < length (tw_tasks w)")
    case True
    note taken = retries_taken [OF r True]
    have "retries_but c None (nullish (answer_task (tw_tasks w ! i) a ?w) w)"
    proof (cases "answer_task (tw_tasks w ! i) a ?w")
      case (Some w')
      then show ?thesis using retries_answer [OF taken(1) _ taken(2) Some] o by simp
    qed (simp add: r)
    then show ?thesis using Answer True by simp
  qed (use Answer r in simp)
next
  case (LoadTree d)
  let ?w = "w\<lparr>tw_loads := jm_set (tw_loads w) d (tw_next w), tw_next := tw_next w + 1\<rparr>"
  have l: "retries_but c None ?w" using r by (simp add: retries_but_def)
  show ?thesis using LoadTree r retries_frame [OF l rframe_body] retries_awaits [OF l]
    by (simp add: loadTreeData_def Let_def split: option.split)
next
  case (GiveTree d tree)
  then show ?thesis using r by (simp add: loadGivenTree_def retries_awaits split: option.split)
next
  case (Reconnect i)
  have "retries_but c None (w\<lparr>tw_gates := g, tw_attempts := m\<rparr>)" for g m using r by (simp add: retries_but_def)
  then show ?thesis using Reconnect r by (simp add: reconnectRestoredVCluster_def Let_def retries_awaits split: option.split)
next
  case (Expand d n ty cat)
  then show ?thesis using retries_frame [OF r rframe_expand] by simp
next
  case (ForgetTree d)
  then show ?thesis using r by (simp add: forgetTreeLoad_def) (simp add: retries_but_def)
next
  case (ForgetGate i)
  then show ?thesis using r by (simp add: forgetRestoredVCluster_def retries_but_def)
next
  case (CountTimer key)
  then show ?thesis using r retries_fire [OF r] by (simp split: option.split)
qed (use r in \<open>simp_all add: retries_refetch\<close>)

lemma keeps_do: "(\<And>f. ev = TreeElsewhere f \<Longrightarrow> \<forall>s. tab_open c s \<longrightarrow> tab_open c (f s)) \<Longrightarrow> keeps_open c w (tree_do ev w)"
proof (cases ev)
  case (Answer i a)
  let ?w = "w\<lparr>tw_tasks := take i (tw_tasks w) @ drop (Suc i) (tw_tasks w)\<rparr>"
  have "keeps_open c w (nullish (answer_task (tw_tasks w ! i) a ?w) w)"
  proof (cases "answer_task (tw_tasks w ! i) a ?w")
    case (Some w')
    then show ?thesis using keeps_answer [OF Some, of c] by (simp add: keeps_open_def)
  qed (simp add: keeps_same)
  then show ?thesis using Answer by (simp add: keeps_same)
next
  case (LoadTree d)
  let ?w = "w\<lparr>tw_loads := jm_set (tw_loads w) d (tw_next w), tw_next := tw_next w + 1\<rparr>"
  have "keeps_open c w ?w" by (simp add: keeps_same)
  then show ?thesis using LoadTree keeps_trans [OF _ keeps_body, of c w ?w "tw_next w" d]
    by (simp add: loadTreeData_def Let_def keeps_same split: option.split)
next
  case (GiveTree d tree)
  then show ?thesis by (simp add: loadGivenTree_def keeps_write keeps_same split: option.split)
next
  case (Reconnect i)
  then show ?thesis by (simp add: reconnectRestoredVCluster_def Let_def keeps_same split: option.split)
next
  case (Expand d n ty cat)
  then show ?thesis by (simp add: keeps_expand)
next
  case (Toggle n)
  then show ?thesis by (simp add: keeps_open_def toggleNodeExpansion_def tab_open_write)
next
  case (CountTimer key)
  then show ?thesis by (simp add: keeps_fire keeps_same split: option.split)
next
  case (TreeElsewhere f)
  assume "\<And>f. ev = TreeElsewhere f \<Longrightarrow> \<forall>s. tab_open c s \<longrightarrow> tab_open c (f s)"
  from this [OF TreeElsewhere] show ?thesis using TreeElsewhere by (simp add: keeps_open_def)
qed (simp_all add: keeps_refetch forgetTreeLoad_def forgetRestoredVCluster_def keeps_same)

end
