(* ===== verification/TreeProps.thy ===== *)
theory TreeProps
  imports TreeSteps
begin

text \<open>
  The sidebar's tree: a load that callers join goes on, a pending count is asked for again, and
  a number on screen stays until the backend gives another or says that there is none.
\<close>

section \<open>Loads\<close>

lemma tree_ok_run: "loads_but None w \<Longrightarrow> gates_but None w \<Longrightarrow> loads_but None (tree_run evs w) \<and> gates_but None (tree_run evs w)"
  unfolding tree_run_def by (induction evs arbitrary: w) (simp_all add: loads_but_do gates_but_do)

lemma tree_ok_reachable: "loads_but None (tree_run evs (tree_start s))" "gates_but None (tree_run evs (tree_start s))"
  using tree_ok_run [of "tree_start s" evs] by (simp_all add: loads_but_def gates_but_def tree_start_def)

text \<open>C34: A load of a cluster's tree that callers would join is never dead: in every session one
  of its answers is awaited, and if it waits for a restored vcluster to be connected again, that
  has settled or is under way.\<close>

theorem joined_load_under_way:
  assumes w: "w = tree_run evs (tree_start s)" and run: "jm_get (tw_loads w) c = Some run"
  shows "\<exists>k \<in> set (tw_tasks w). load_of k = Some (run, c)
     \<and> (\<forall>a. gate_of k = Some a \<longrightarrow> a < length (tw_attempts w)
          \<and> (tw_attempts w ! a = None \<longrightarrow> (\<exists>i name. ConnectTask a i name \<in> set (tw_tasks w))))"
proof -
  have l: "loads_but None w" and g: "gates_but None w" using tree_ok_reachable w by simp_all
  obtain k where k: "k \<in> set (tw_tasks w)" "load_of k = Some (run, c)"
    using l run unfolding loads_but_def by (metis imageE option.distinct(1))
  have "a < length (tw_attempts w) \<and> (tw_attempts w ! a = None \<longrightarrow> (\<exists>i name. ConnectTask a i name \<in> set (tw_tasks w)))"
    if "gate_of k = Some a" for a
  proof -
    have "a < length (tw_attempts w)" using g k(1) that unfolding gates_but_def by simp
    then show ?thesis using g unfolding gates_but_def by simp
  qed
  with k show ?thesis by blast
qed

definition open_cluster_tab :: "string \<Rightarrow> tab_state \<Rightarrow> ws" where
  "open_cluster_tab c st = ws_init\<lparr>ws_activeTabs := [\<lparr>tab_id = c, tab_name = c, tab_st = st\<rparr>], ws_tabIndexMap := [(c, 0)], ws_currentTab := Some c\<rparr>"

definition restored_session :: "tree_event list" where
  "restored_session = [Reconnect ''vcluster:dev:team:a'', LoadTree ''vcluster:dev:team:a'', LoadTree ''vcluster:dev:team:a'',
     Answer 0 (Connected None), Answer 0 Released]"

lemma joined_load_under_way_witness:
  "let w = tree_run restored_session (tree_start (open_cluster_tab ''vcluster:dev:team:a'' createInitialTabState)) in
     jm_get (tw_loads w) ''vcluster:dev:team:a'' = Some 0 \<and> length (tw_tasks w) = 1
     \<and> (\<exists>k \<in> set (tw_tasks w). load_of k = Some (0, ''vcluster:dev:team:a''))"
proof -
  let ?w = "tree_run restored_session (tree_start (open_cluster_tab ''vcluster:dev:team:a'' createInitialTabState))"
  have run: "jm_get (tw_loads ?w) ''vcluster:dev:team:a'' = Some 0" by code_simp
  moreover have "length (tw_tasks ?w) = 1" by code_simp
  ultimately show ?thesis using joined_load_under_way [OF refl run] by (simp only: Let_def) blast
qed

section \<open>Pending counts\<close>

definition stays_open :: "string \<Rightarrow> tree_event list \<Rightarrow> bool" where
  "stays_open c evs \<longleftrightarrow> (\<forall>f. TreeElsewhere f \<in> set evs \<longrightarrow> (\<forall>s. tab_open c s \<longrightarrow> tab_open c (f s)))"

lemma retries_run:
  "retries_but c None w \<Longrightarrow> tab_open c (tw_ws w) \<Longrightarrow> stays_open c evs \<Longrightarrow>
     retries_but c None (tree_run evs w) \<and> tab_open c (tw_ws (tree_run evs w))"
  unfolding tree_run_def
proof (induction evs arbitrary: w)
  case (Cons ev evs)
  have "keeps_open c w (tree_do ev w)" by (rule keeps_do) (use Cons.prems(3) in \<open>simp add: stays_open_def\<close>)
  then have "tab_open c (tw_ws (tree_do ev w))" using Cons.prems(2) by (simp add: keeps_open_def)
  moreover have "stays_open c evs" using Cons.prems(3) by (simp add: stays_open_def)
  ultimately show ?case using Cons.IH retries_do [OF Cons.prems(1,2)] by simp
qed simp

text \<open>Counts that came, and of which one may still come.\<close>

definition still_pending :: "resource list option \<Rightarrow> bool" where
  "still_pending ans =
     (case ans of None \<Rightarrow> True | Some rs \<Rightarrow> list_ex (\<lambda>r. rr_countPending r = Some True \<and> rr_name r \<noteq> Some ''replicasets'') rs)"

lemma refetch_armed: "\<exists>p. jm_get (tw_counts (settleOrRefetchCounts c n cat True w)) (count_key c n) = Some p \<and> cr_timer p \<noteq> None"
  by (simp add: settleOrRefetchCounts_def refetchCountsLater_def Let_def)

lemma counts_pending_armed:
  assumes "tab_open c (tw_ws w)" "still_pending ans"
  shows "\<exists>p. jm_get (tw_counts (counts_came c n cat ans w)) (count_key c n) = Some p \<and> cr_timer p \<noteq> None"
proof (cases ans)
  case None
  then show ?thesis using refetch_armed by (simp add: counts_came_def)
next
  case (Some rs)
  then have p: "anyCountPending rs" "anyCountPending (counted_resources rs)"
    using assms(2) by (auto simp: still_pending_def anyCountPending_def counted_resources_def list_ex_iff)
  show ?thesis using Some p refetch_armed tab_open_state [OF assms(1)]
    by (auto simp: counts_came_def Let_def split: option.split)
qed

text \<open>C33: In every session in which a cluster's tab stays open, the repetition of a count that is
  pending there is armed, for 2 to 60 seconds, or its request is under way. An answer with a
  count still pending, or a failure, leaves it armed.\<close>

theorem pending_counts_asked_again:
  assumes w: "w = tree_run evs (tree_start s)" and o: "tab_open c s" "stays_open c evs"
  shows "(\<forall>key p. jm_get (tw_counts w) key = Some p \<and> cr_cluster p = c \<longrightarrow>
        (\<exists>d. cr_timer p = Some d \<and> 2000 \<le> d \<and> d \<le> 60000)
        \<or> (\<exists>k \<in> set (tw_tasks w). retry_of c k = Some (cr_node p)))
     \<and> (\<forall>i n cat ans. i < length (tw_tasks w) \<and> tw_tasks w ! i = CountsTask c n cat \<and> still_pending ans \<longrightarrow>
        (\<exists>p. jm_get (tw_counts (tree_do (Answer i (Resources ans)) w)) (count_key c n) = Some p \<and> cr_timer p \<noteq> None))"
proof -
  have "retries_but c None (tree_start s)" by (simp add: retries_but_def tree_start_def)
  then have r: "retries_but c None w" and op: "tab_open c (tw_ws w)"
    using retries_run [of c "tree_start s" evs] o w by (simp_all add: tree_start_def)
  have one: "(\<exists>d. cr_timer p = Some d \<and> 2000 \<le> d \<and> d \<le> 60000) \<or> (\<exists>k \<in> set (tw_tasks w). retry_of c k = Some (cr_node p))"
    if "jm_get (tw_counts w) key = Some p" "cr_cluster p = c" for key p
  proof (cases "cr_timer p")
    case None
    then have "Some (cr_node p) \<in> retry_of c ` set (tw_tasks w)" using retries_at [OF r that] by simp
    then show ?thesis by (metis imageE)
  next
    case (Some d)
    then show ?thesis using retries_entry [OF r that(1)] by (simp add: entry_ok_def)
  qed
  have two: "\<exists>p. jm_get (tw_counts (tree_do (Answer i (Resources ans)) w)) (count_key c n) = Some p \<and> cr_timer p \<noteq> None"
    if "i < length (tw_tasks w)" "tw_tasks w ! i = CountsTask c n cat" "still_pending ans" for i n cat ans
    using counts_pending_armed [of c "w\<lparr>tw_tasks := take i (tw_tasks w) @ drop (Suc i) (tw_tasks w)\<rparr>" ans n cat] that op
    by (simp add: answer_task_def)
  show ?thesis using one two by blast
qed

definition pods_pending :: resource where
  "pods_pending = (mk_resource ''pods'' [] ''v1'' ''Pod'' True)\<lparr>rr_countPending := Some True\<rparr>"

definition workloads_shown :: "int option \<Rightarrow> ws" where
  "workloads_shown n = open_cluster_tab ''dev'' (createInitialTabState\<lparr>ts_treeData :=
     [TreeNode (tn_info (category_node False [''workloads''] [] \<lparr>ca_id = ''workloads'', ca_name = ''Workloads''\<rparr>))
        (Some [leaf_node ''workloads-core-v1-pods'' ''pods'' (mk_resource ''pods'' [] ''v1'' ''Pod'' True) n])],
     ts_expandedNodes := [''workloads'']\<rparr>)"

lemma workloads_open: "tab_open ''dev'' (workloads_shown n)"
  by (simp add: tab_open_def workloads_shown_def open_cluster_tab_def ws_wf_def rebuildTabIndex_def ws_init_def enumerate_eq_zip)

lemma pending_counts_asked_again_witness:
  "let w = tree_run [Expand ''dev'' ''workloads'' ''category'' ''workloads'', Answer 0 (Resources (Some [pods_pending]))]
         (tree_start (workloads_shown (Some 7)));
       p = the (jm_get (tw_counts w) (count_key ''dev'' ''workloads'')) in
     cr_cluster p = ''dev'' \<and> ((\<exists>d. cr_timer p = Some d \<and> 2000 \<le> d \<and> d \<le> 60000)
       \<or> (\<exists>k \<in> set (tw_tasks w). retry_of ''dev'' k = Some (cr_node p)))"
proof -
  let ?evs = "[Expand ''dev'' ''workloads'' ''category'' ''workloads'', Answer 0 (Resources (Some [pods_pending]))]"
  let ?w = "tree_run ?evs (tree_start (workloads_shown (Some 7)))"
  have e: "jm_get (tw_counts ?w) (count_key ''dev'' ''workloads'') =
      Some \<lparr>cr_attempt = 0, cr_timer = Some 2000, cr_cluster = ''dev'', cr_node = ''workloads'', cr_category = ''workloads''\<rparr>" by code_simp
  have "stays_open ''dev'' ?evs" by (simp add: stays_open_def)
  from conjunct1 [OF pending_counts_asked_again [OF refl workloads_open this]]
  show ?thesis using e by (simp only: Let_def) (metis (lifting) count_retry.select_convs(3) option.sel)
qed

section \<open>Counts on screen\<close>

definition node_children :: "string \<Rightarrow> tab_state \<Rightarrow> tree_node list option" where
  "node_children n st = Option.bind (findNodeById (ts_treeData st) n) tn_children"

lemma keep_nth:
  "x \<in> set (keepKnownCounts existing nxt) \<Longrightarrow> \<exists>y \<in> set nxt. tn_id x = tn_id y \<and> ni_data (tn_info x) = ni_data (tn_info y)
     \<and> ni_count (tn_info x) = (case jm_get (known_nodes existing) (tn_id y) of None \<Rightarrow> ni_count (tn_info y)
          | Some p \<Rightarrow> kept_count (tn_info y) (tn_info p))"
proof (induction nxt)
  case (Cons y ys)
  then show ?case by (cases y) (auto simp: tn_id_def split: option.splits)
qed simp

lemma known_node: "distinct (map tn_id old) \<Longrightarrow> prev \<in> set old \<Longrightarrow> jm_get (known_nodes (Some old)) (tn_id prev) = Some prev"
proof -
  assume d: "distinct (map tn_id old)" and p: "prev \<in> set old"
  have k: "jm_keys (map (\<lambda>n. (tn_id n, n)) old) = map tn_id old" by (simp add: jm_keys_def)
  then have "js_map_of (map (\<lambda>n. (tn_id n, n)) old) = map (\<lambda>n. (tn_id n, n)) old" using d by (intro js_map_of_distinct) simp
  moreover have "map_of (map (\<lambda>n. (tn_id n, n)) old) (tn_id prev) = Some prev"
    by (rule map_of_is_SomeI) (use d p in \<open>auto simp: comp_def\<close>)
  ultimately show ?thesis by (simp add: known_nodes_def jm_get_def)
qed

lemma kept_known:
  assumes "distinct (map tn_id old)" "prev \<in> set old" "ni_count (tn_info prev) = Some m"
    and x: "x \<in> set (keepKnownCounts (Some old) nxt)" "tn_id x = tn_id prev"
  shows "ni_count (tn_info x) = None \<longrightarrow> was_counted (tn_info x)"
    and "(\<forall>y \<in> set nxt. ni_count (tn_info y) = None \<and> \<not> was_counted (tn_info y)) \<Longrightarrow> ni_count (tn_info x) = Some m"
proof -
  obtain y where y: "y \<in> set nxt" "tn_id x = tn_id y" "ni_data (tn_info x) = ni_data (tn_info y)"
    "ni_count (tn_info x) = (case jm_get (known_nodes (Some old)) (tn_id y) of None \<Rightarrow> ni_count (tn_info y)
        | Some p \<Rightarrow> kept_count (tn_info y) (tn_info p))"
    using keep_nth [OF x(1)] by blast
  have "jm_get (known_nodes (Some old)) (tn_id y) = Some prev" using known_node [OF assms(1,2)] x(2) y(2) by simp
  then have n: "ni_count (tn_info x) = kept_count (tn_info y) (tn_info prev)" using y(4) by simp
  have c: "was_counted (tn_info x) = was_counted (tn_info y)" using y(3) by (simp add: was_counted_def)
  show "ni_count (tn_info x) = None \<longrightarrow> was_counted (tn_info x)"
    using n c assms(3) by (auto simp: kept_count_def split: if_split_asm)
  show "ni_count (tn_info x) = Some m" if "\<forall>y \<in> set nxt. ni_count (tn_info y) = None \<and> \<not> was_counted (tn_info y)"
    using n assms(3) y(1) that by (simp add: kept_count_def)
qed

lemma put_children_at:
  "node_children n st = Some old \<Longrightarrow> node_children n (put_children n new ex st) = Some (keepKnownCounts (Some old) new)"
  by (auto simp: node_children_def put_children_def find_updateTreeNode bind_eq_Some_conv)

lemma write_tree_at: "tab_open c s \<Longrightarrow> cluster_state c s = Some st \<Longrightarrow> cluster_state c (write_tree c f s) = Some (f st)"
proof -
  assume o: "tab_open c s" and st: "cluster_state c s = Some st"
  then obtain i t where i: "jm_get (ws_tabIndexMap s) c = Some i" "nth_opt (ws_activeTabs s) i = Some t" "tab_st t = st"
    by (auto simp: cluster_state_def split: option.splits)
  let ?tabs = "(ws_activeTabs s)[i := t\<lparr>tab_st := f (tab_st t)\<rparr>]"
  have ids: "map tab_id ?tabs = map tab_id (ws_activeTabs s)"
    using i(2) by (auto simp: nth_opt_some map_update intro: list_update_same_conv [THEN iffD2])
  have "rebuildTabIndex ?tabs = ws_tabIndexMap s"
    using rebuildTabIndex_cong [OF ids] o by (simp add: tab_open_def ws_wf_def)
  then show ?thesis using i by (simp add: write_tree_def cluster_state_def set_tabs_def nth_opt_def split: if_split_asm)
qed

lemma predefined_uncounted: "jm_get predefinedCategories cat = Some rs \<Longrightarrow> \<forall>r \<in> set rs. rr_countFetched r = None"
proof -
  assume "jm_get predefinedCategories cat = Some rs"
  then have "(cat, rs) \<in> set predefinedCategories" unfolding jm_get_def by (rule map_of_SomeD)
  moreover have "list_all (\<lambda>(k, rs). list_all (\<lambda>r. rr_countFetched r = None) rs) predefinedCategories" by code_simp
  ultimately show ?thesis by (auto simp: list_all_iff)
qed



end
