(* ===== verification/Rollouts.thy ===== *)
theory Rollouts
  imports RealtimeBatches
begin

text \<open>
  Following rollouts after a restart: \<open>restartResource\<close>, \<open>bulkRestartResources\<close>,
  \<open>startRolloutPolling\<close>, \<open>addRolloutTracking\<close>, \<open>removeRolloutTracking\<close> of
  \<open>store/resourceSlice.ts\<close>.

  \<open>rw_polls\<close> has the polls under way, each with the cluster it asked and the requests the tab
  had then; \<open>rw_removals\<close> the timers that stop following one rollout; \<open>rw_restarts\<close> the restarts
  under way. An answer is a step of its own. \<open>rw_polling\<close> is whether the interval is set.
\<close>

datatype rollout_call =
    AskRollouts string "(string \<times> json) list"
  | RolloutDone string
  | AskRestart string resource "kube_object list"
  | DropItems string

record rollout_world =
  rw_ws :: ws
  rw_polling :: bool
  rw_polls :: "(string \<times> (string, json) jsmap) list"
  rw_removals :: "string list"
  rw_restarts :: "(string \<times> resource \<times> kube_object list) list"
  rw_calls :: "rollout_call list"

record rollout_result =
  rx_key :: string
  rx_status :: "rollout_status option"
  rx_error :: "string option"

definition on_rw :: "(ws \<Rightarrow> ws) \<Rightarrow> rollout_world \<Rightarrow> rollout_world" where
  "on_rw f w = w\<lparr>rw_ws := f (rw_ws w)\<rparr>"

definition rollout_asks :: "rollout_call list \<Rightarrow> rollout_world \<Rightarrow> rollout_world" where
  "rollout_asks cs w = w\<lparr>rw_calls := rw_calls w @ cs\<rparr>"

definition followed_in :: "tab_state \<Rightarrow> (string, json) jsmap" where
  "followed_in st = nullish (ts_rolloutRequests st) []"

section \<open>Polling\<close>

definition pollRollouts :: "rollout_world \<Rightarrow> rollout_world" where
  "pollRollouts w =
     (case (ws_currentTab (rw_ws w), find_tab (ws_currentTab (rw_ws w)) (rw_ws w)) of
        (Some c, Some t) \<Rightarrow>
          if c = [] \<or> followed_in (tab_st t) = [] then w
          else rollout_asks [AskRollouts c (followed_in (tab_st t))] (w\<lparr>rw_polls := rw_polls w @ [(c, followed_in (tab_st t))]\<rparr>)
      | _ \<Rightarrow> w)"

definition startRolloutPolling :: "rollout_world \<Rightarrow> rollout_world" where
  "startRolloutPolling w = (if rw_polling w then w else (pollRollouts w)\<lparr>rw_polling := True\<rparr>)"

definition stopRolloutPolling :: "rollout_world \<Rightarrow> rollout_world" where
  "stopRolloutPolling w = (if rw_polling w then w\<lparr>rw_polling := False\<rparr> else w)"

definition request_name :: "json option \<Rightarrow> string option" where
  "request_name r =
     (case r of
        Some (JObj fs) \<Rightarrow> (case map_of fs ''name'' of Some (JStr s) \<Rightarrow> Some s | _ \<Rightarrow> None)
      | _ \<Rightarrow> None)"

text \<open>One result of a poll: the statuses so far, the names to notify and the removals to arm.\<close>

definition poll_result ::
  "(string, json) jsmap \<Rightarrow> rollout_result \<Rightarrow> (string, rollout_status) jsmap \<times> string list \<times> string list
     \<Rightarrow> (string, rollout_status) jsmap \<times> string list \<times> string list" where
  "poll_result requests x acc =
     (case acc of (statuses, names, removals) \<Rightarrow>
        if rx_status x \<noteq> None \<and> \<not> truthy_str (rx_error x)
        then let s = the (rx_status x); statuses' = jm_set statuses (rx_key x) s in
             if ro_status s = ''Complete''
             then (statuses', (case request_name (jm_get requests (rx_key x)) of
                     Some n \<Rightarrow> if n \<noteq> [] then names @ [n] else names | None \<Rightarrow> names), removals @ [rx_key x])
             else (statuses', names, removals)
        else if truthy_str (rx_error x) then (statuses, names, removals @ [rx_key x])
        else acc)"

definition set_statuses :: "(string, rollout_status) jsmap \<Rightarrow> tab_update" where
  "set_statuses m = \<lparr>tu_apply = (\<lambda>st. st\<lparr>ts_rolloutStatuses := Some m\<rparr>), tu_rolloutStatuses = Some m,
     tu_selectedNamespace = None, tu_selectedNamespaces = None\<rparr>"

definition poll_answered :: "(string, json) jsmap \<Rightarrow> rollout_result list option \<Rightarrow> rollout_world \<Rightarrow> rollout_world" where
  "poll_answered requests ans w =
     (case ans of
        None \<Rightarrow> w
      | Some results \<Rightarrow>
          (case fold (poll_result requests) results ([], [], []) of
             (statuses, names, removals) \<Rightarrow>
               on_rw (updateCurrentTabState (set_statuses statuses))
                 (rollout_asks (map RolloutDone names) (w\<lparr>rw_removals := rw_removals w @ removals\<rparr>))))"

section \<open>What is followed\<close>

definition addRolloutTracking :: "string \<Rightarrow> json \<Rightarrow> rollout_world \<Rightarrow> rollout_world" where
  "addRolloutTracking key request w =
     (case find_tab (ws_currentTab (rw_ws w)) (rw_ws w) of
        None \<Rightarrow> w
      | Some t \<Rightarrow>
          startRolloutPolling
            (on_rw (updateCurrentTabState (plain_update (\<lambda>st. st\<lparr>ts_rolloutRequests := Some (jm_set (followed_in (tab_st t)) key request)\<rparr>))) w))"

text \<open>\<open>removeRolloutTracking\<close>, with the interval (the reducer of a live list has its own call of it).\<close>

definition untrack :: "string \<Rightarrow> rollout_world \<Rightarrow> rollout_world" where
  "untrack key w =
     (case find_tab (ws_currentTab (rw_ws w)) (rw_ws w) of
        None \<Rightarrow> w
      | Some t \<Rightarrow>
          let requests = jm_delete (followed_in (tab_st t)) key;
              statuses = jm_delete (nullish (ts_rolloutStatuses (tab_st t)) []) key;
              w1 = on_rw (updateCurrentTabState ((set_statuses statuses)\<lparr>tu_apply :=
                     (\<lambda>st. st\<lparr>ts_rolloutRequests := Some requests, ts_rolloutStatuses := Some statuses\<rparr>)\<rparr>)) w
          in if requests = [] then stopRolloutPolling w1 else w1)"

definition restart_tracked :: "resource \<Rightarrow> bool" where
  "restart_tracked r =
     (case rr_kind r of
        None \<Rightarrow> False
      | Some k \<Rightarrow> list_ex (str_includes (to_lower k)) [''deployment'', ''statefulset'', ''daemonset'', ''replicaset''])"

definition rollout_request :: "resource \<Rightarrow> kube_object \<Rightarrow> json" where
  "rollout_request r o' =
     JObj [(''group'', JStr (str_or (rr_group r) [])), (''version'', JStr (in_template (rr_version r))),
       (''kind'', JStr (in_template (rr_name r))), (''namespace'', JStr (str_or (it_namespace o') [])),
       (''name'', JStr (in_template (it_name o')))]"

definition items_prefix :: "string \<Rightarrow> resource \<Rightarrow> string" where
  "items_prefix cluster r =
     ''items:'' @ cluster @ '':'' @ in_template (rr_group r) @ '':'' @ in_template (rr_version r) @ '':'' @ in_template (rr_name r)"

definition restart :: "string \<Rightarrow> resource \<Rightarrow> kube_object list \<Rightarrow> rollout_world \<Rightarrow> rollout_world" where
  "restart cluster r items w = rollout_asks [AskRestart cluster r items] (w\<lparr>rw_restarts := rw_restarts w @ [(cluster, r, items)]\<rparr>)"

text \<open>The restart of one or several objects was done; a failed one does nothing here.\<close>

definition restart_done :: "string \<Rightarrow> resource \<Rightarrow> kube_object list \<Rightarrow> rollout_world \<Rightarrow> rollout_world" where
  "restart_done cluster r items w =
     (let w1 = rollout_asks [DropItems (items_prefix cluster r)] w in
      if restart_tracked r
      then fold (\<lambda>o'. addRolloutTracking (rollout_key r o') (rollout_request r o')) items w1
      else w1)"

section \<open>Sessions\<close>

datatype rollout_event =
    Restart string resource "kube_object list"
  | Restarted nat bool
  | Tick
  | PollAnswered nat "rollout_result list option"
  | RemovalDue nat
  | RolloutElsewhere "ws \<Rightarrow> ws"

definition without :: "nat \<Rightarrow> 'a list \<Rightarrow> 'a list" where
  "without i xs = take i xs @ drop (Suc i) xs"

fun rollout_do :: "rollout_event \<Rightarrow> rollout_world \<Rightarrow> rollout_world" where
  "rollout_do (Restart c r items) w = restart c r items w"
| "rollout_do (Restarted i ok) w =
     (if i < length (rw_restarts w)
      then (case rw_restarts w ! i of (c, r, items) \<Rightarrow>
              let w1 = w\<lparr>rw_restarts := without i (rw_restarts w)\<rparr> in if ok then restart_done c r items w1 else w1)
      else w)"
| "rollout_do Tick w = (if rw_polling w then pollRollouts w else w)"
| "rollout_do (PollAnswered i ans) w =
     (if i < length (rw_polls w)
      then poll_answered (snd (rw_polls w ! i)) ans (w\<lparr>rw_polls := without i (rw_polls w)\<rparr>) else w)"
| "rollout_do (RemovalDue i) w =
     (if i < length (rw_removals w)
      then untrack (rw_removals w ! i) (w\<lparr>rw_removals := without i (rw_removals w)\<rparr>) else w)"
| "rollout_do (RolloutElsewhere f) w = on_rw f w"

definition rollout_run :: "rollout_event list \<Rightarrow> rollout_world \<Rightarrow> rollout_world" where
  "rollout_run evs w = foldl (\<lambda>w ev. rollout_do ev w) w evs"

end
