(* ===== verification/WorkspaceProps.thy ===== *)
theory WorkspaceProps
  imports ClusterTabs
begin

text \<open>
  The store's tab slices as one state machine: \<open>ws_step\<close> has a rule for every operation the
  user interface calls, and the invariant says that the index from cluster id to position
  is the one a rebuild would give, ids are unique and the current tab is open.
\<close>

section \<open>The state machine\<close>

inductive ws_step :: "ws \<Rightarrow> ws \<Rightarrow> bool" where
  open_cluster: "c \<noteq> [] \<Longrightarrow> ws_step w (openTab env c h w)"
| overview_done: "ws_step w (overview_opened c h w)"
| tree_done: "ws_step w (tree_loaded c w)"
| close_cluster: "ws_step w (closeTab c w)"
| switch_cluster: "case c of None \<Rightarrow> True | Some i \<Rightarrow> i \<in> tab_id ` set (ws_activeTabs w) \<Longrightarrow> ws_step w (setCurrentTab c h w)"
| reorder_clusters: "ws_step w (reorderTabs from to w)"
| select_node: "ws_step w (selectNode n w)"
| select_item: "ws_step w (selectItem i w)"
| update_state: "ws_step w (updateCurrentTabState u w)"
| open_list: "c \<noteq> [] \<Longrightarrow> ws_step w (openResourceListTab env r c p pane w)"
| close_list: "ws_step w (closeResourceListTab i w)"
| show_list: "ws_step w (setActiveResourceListTab env i w)"
| show_in_pane: "ws_step w (setActiveResourceListTabForPane env q t w)"
| update_list: "ws_step w (updateResourceListTab i lu w)"
| pin_list_tab: "ws_step w (pinResourceListTab i w)"
| reorder_lists: "ws_step w (reorderResourceListTabs m n w)"
| move_list: "ws_step w (moveResourceListTabToPane env i q w)"
| open_detail: "c \<noteq> [] \<Longrightarrow> ws_step w (openDetailTab env dr o' c p w)"
| close_detail: "ws_step w (closeDetailTab i w)"
| show_detail: "ws_step w (setActiveDetailTab i w)"
| pin_detail: "ws_step w (pinDetailTab i w)"
| reorder_details: "ws_step w (reorderDetailTabs m n w)"
| move_detail: "ws_step w (moveDetailTab i l pane w)"
| open_bottom: "ws_step w (openBottomTab now ty o' c w)"
| close_bottom: "ws_step w (closeBottomTab i w)"
| show_bottom: "ws_step w (setActiveBottomTab i w)"
| container_bottom: "ws_step w (updateBottomTabContainer i s w)"
| rename_bottom: "ws_step w (renameBottomTab i s w)"
| move_bottom: "ws_step w (moveBottomTab i l pane w)"

inductive ws_reachable :: "ws \<Rightarrow> bool" where
  start: "ws_reachable ws_init"
| step: "ws_reachable w \<Longrightarrow> ws_step w w' \<Longrightarrow> ws_reachable w'"

definition current_open :: "ws \<Rightarrow> bool" where
  "current_open w = (case ws_currentTab w of None \<Rightarrow> True | Some c \<Rightarrow> c \<in> set (map tab_id (ws_activeTabs w)))"

definition ws_ok :: "ws \<Rightarrow> bool" where
  "ws_ok w = (ws_wf w \<and> current_open w)"

section \<open>Preservation\<close>

text \<open>An operation that leaves the cluster tabs' ids, the index and the current tab alone.\<close>

definition same_clusters :: "ws \<Rightarrow> ws \<Rightarrow> bool" where
  "same_clusters w w' = (map tab_id (ws_activeTabs w') = map tab_id (ws_activeTabs w)
     \<and> ws_tabIndexMap w' = ws_tabIndexMap w \<and> ws_currentTab w' = ws_currentTab w)"

lemma same_clusters_refl [simp]: "same_clusters w w"
  by (simp add: same_clusters_def)

lemma same_clusters_trans: "same_clusters w w' \<Longrightarrow> same_clusters w' w'' \<Longrightarrow> same_clusters w w''"
  by (simp add: same_clusters_def)

lemma same_clusters_ok: "same_clusters w w' \<Longrightarrow> ws_ok w \<Longrightarrow> ws_ok w'"
  by (metis current_open_def same_clusters_def ws_ok_def ws_wf_ids)

lemma same_clusters_map_tab [simp]: "same_clusters w (map_tab c f w)"
  by (simp add: same_clusters_def) (simp add: map_tab_def)

lemma same_clusters_emit [simp]: "same_clusters w (emit es w)"
  by (simp add: same_clusters_def emit_def)

lemma same_clusters_bottom [simp]:
  "same_clusters w (w\<lparr>ws_bottomTabs := b\<rparr>)" "same_clusters w (w\<lparr>ws_activeBottomTab := a\<rparr>)"
  "same_clusters w (w\<lparr>ws_bottomTabs := b, ws_activeBottomTab := a\<rparr>)"
  by (simp_all add: same_clusters_def)

lemma same_clusters_update: "ws_ok w \<Longrightarrow> same_clusters w (updateCurrentTabState u w)"
proof -
  assume w: "ws_ok w"
  have ids: "map tab_id ((ws_activeTabs w)[i := t\<lparr>tab_st := st\<rparr>]) = map tab_id (ws_activeTabs w)"
    if "nth_opt (ws_activeTabs w) i = Some t" for i t st
    using that by (auto simp: nth_opt_some map_update intro: list_update_same_conv [THEN iffD2])
  have "rebuildTabIndex ((ws_activeTabs w)[i := t\<lparr>tab_st := st\<rparr>]) = ws_tabIndexMap w"
    if "nth_opt (ws_activeTabs w) i = Some t" for i t st
    using rebuildTabIndex_cong [OF ids [OF that]] w by (simp add: ws_ok_def ws_wf_def)
  then show ?thesis
    using ids by (auto simp: same_clusters_def updateCurrentTabState_def emit_def set_tabs_def split: option.splits)
qed

lemma same_clusters_select: "ws_ok w \<Longrightarrow> same_clusters w (selectNode n w)"
  using same_clusters_update [of w] same_clusters_trans [OF _ same_clusters_emit]
  by (auto simp: selectNode_def Let_def split: option.splits)

lemma same_clusters_select_item: "ws_ok w \<Longrightarrow> same_clusters w (selectItem i w)"
  using same_clusters_update [of w] same_clusters_trans [OF _ same_clusters_emit]
  by (auto simp: selectItem_def Let_def split: option.splits)

lemma ok_map_tab [inv_intros]: "ws_ok w \<Longrightarrow> ws_ok (map_tab c f w)"
  using same_clusters_ok same_clusters_map_tab by blast

lemma ok_emit [inv_intros]: "ws_ok w \<Longrightarrow> ws_ok (emit es w)"
  using same_clusters_ok same_clusters_emit by blast

lemma ok_update [inv_intros]: "ws_ok w \<Longrightarrow> ws_ok (updateCurrentTabState u w)"
  using same_clusters_ok same_clusters_update by blast

lemma ok_select [inv_intros]: "ws_ok w \<Longrightarrow> ws_ok (selectNode n w)"
  using same_clusters_ok same_clusters_select by blast

lemma ok_select_item [inv_intros]: "ws_ok w \<Longrightarrow> ws_ok (selectItem i w)"
  using same_clusters_ok same_clusters_select_item by blast

lemma ok_bottom [inv_intros]:
  "ws_ok w \<Longrightarrow> ws_ok (w\<lparr>ws_bottomTabs := b\<rparr>)" "ws_ok w \<Longrightarrow> ws_ok (w\<lparr>ws_activeBottomTab := a\<rparr>)"
  "ws_ok w \<Longrightarrow> ws_ok (w\<lparr>ws_bottomTabs := b, ws_activeBottomTab := a\<rparr>)"
  using same_clusters_ok same_clusters_bottom by blast+

lemma ok_pin [inv_intros]: "ws_ok w \<Longrightarrow> ws_ok (pinResourceListTab i w)"
  by (simp add: pinResourceListTab_def inv_intros)

lemma ok_open_body [inv_intros]: "ws_ok w \<Longrightarrow> ws_ok (open_list_body env r c p pane st w)"
  unfolding open_list_body_def
  by (auto simp: Let_def split: prod.splits option.splits intro!: inv_intros)

lemma ok_set_tabs:
  assumes "distinct (map tab_id tabs)" "[] \<notin> set (map tab_id tabs)"
    "case c of None \<Rightarrow> True | Some i \<Rightarrow> i \<in> set (map tab_id tabs)"
  shows "ws_ok ((set_tabs tabs w)\<lparr>ws_currentTab := c\<rparr>)"
  using assms by (cases c) (simp_all add: ws_ok_def ws_wf_def current_open_def set_tabs_def)

lemma ok_setCurrent:
  assumes "ws_ok w" "case c of None \<Rightarrow> True | Some i \<Rightarrow> i \<in> set (map tab_id (ws_activeTabs w))"
  shows "ws_ok (setCurrentTab c h w)"
proof -
  have "ws_ok (w'\<lparr>ws_currentTab := c\<rparr>)" if "same_clusters w w'" for w'
    using assms that same_clusters_ok [OF that]
    by (cases c) (auto simp: ws_ok_def current_open_def same_clusters_def simp del: set_map intro: ws_wf_current)
  moreover have "same_clusters w (emit e (emit e' w))" for e e'
    by (rule same_clusters_trans [OF same_clusters_emit same_clusters_emit])
  ultimately show ?thesis
    using assms(1) unfolding setCurrentTab_def Let_def by (auto intro!: ok_emit)
qed

lemma find_tab_none: "find_tab (Some c) w = None \<longleftrightarrow> c \<notin> set (map tab_id (ws_activeTabs w))"
  by (auto simp: find_tab_def find_None_iff)

lemma ok_openTab [inv_intros]:
  assumes "ws_ok w" "c \<noteq> []"
  shows "ws_ok (openTab env c h w)"
proof (cases "find_tab (Some c) w")
  case None
  let ?tabs = "ws_activeTabs w @ [\<lparr>tab_id = c, tab_name = c, tab_st = createInitialTabState\<rparr>]"
  have "ws_ok ((set_tabs ?tabs w')\<lparr>ws_currentTab := Some c\<rparr>)" for w'
    using assms None by (intro ok_set_tabs) (auto simp: find_tab_none ws_ok_def ws_wf_def)
  then have "ws_ok (emit es ((set_tabs ?tabs w')\<lparr>ws_currentTab := Some c\<rparr>))" for es w' by (rule ok_emit)
  then show ?thesis
    using None unfolding openTab_def open_overview_def Let_def
    by (auto intro!: ok_open_body ok_select split: option.splits)
next
  case (Some t)
  then have "c \<in> set (map tab_id (ws_activeTabs w))" using find_tab_none by (metis option.distinct(1))
  then show ?thesis using Some assms by (simp add: openTab_def ok_setCurrent)
qed

lemma ok_closeTab: "ws_ok w \<Longrightarrow> ws_ok (closeTab c w)"
proof -
  assume w: "ws_ok w"
  let ?tabs = "filter (\<lambda>t. tab_id t \<noteq> c) (ws_activeTabs w)"
  have "distinct (map tab_id ?tabs)" "[] \<notin> set (map tab_id ?tabs)"
    using w by (auto simp: ws_ok_def ws_wf_def distinct_map inj_on_def)
  moreover have "case (if ws_currentTab w = Some c
                 then (case ?tabs of [] \<Rightarrow> None | t # _ \<Rightarrow> if tab_id t = [] then None else Some (tab_id t))
                 else ws_currentTab w) of None \<Rightarrow> True | Some i \<Rightarrow> i \<in> set (map tab_id ?tabs)"
  proof (cases "ws_currentTab w = Some c")
    case True
    have "t # ts = ?tabs \<Longrightarrow> tab_id t \<in> set (map tab_id ?tabs)" for t ts
      by (metis list.set_intros(1) list.simps(9))
    then show ?thesis using True by (auto split: list.splits simp del: set_map filter.simps)
  next
    case False
    then show ?thesis using w by (auto simp: ws_ok_def current_open_def split: option.splits)
  qed
  ultimately show ?thesis unfolding closeTab_def Let_def by (intro ok_emit ok_set_tabs)
qed

lemma mset_move_to: "mset (move_to from to xs) = mset xs"
proof (cases "from < length xs")
  case True
  have "mset (take to r @ [x] @ drop to r) = add_mset x (mset r)" for x and r :: "'a list"
    by (metis append_Cons append_Nil append_take_drop_id mset.simps(2) mset_append union_mset_add_mset_right)
  moreover have "add_mset (xs ! from) (mset (take from xs @ drop (Suc from) xs)) = mset xs"
    using id_take_nth_drop [OF True] by (metis mset.simps(2) mset_append union_mset_add_mset_right)
  ultimately show ?thesis
    using True unfolding move_to_def Let_def by (simp del: append_take_drop_id take_append drop_append mset_append)
qed (simp add: move_to_def)

lemma ok_reorder: "ws_ok w \<Longrightarrow> ws_ok (reorderTabs from to w)"
proof -
  assume w: "ws_ok w"
  let ?tabs = "move_to (nat from) (nat to) (ws_activeTabs w)"
  have m: "mset (map tab_id ?tabs) = mset (map tab_id (ws_activeTabs w))" by (simp add: mset_move_to)
  have "ws_ok ((set_tabs ?tabs w)\<lparr>ws_currentTab := ws_currentTab w\<rparr>)"
    using w mset_eq_imp_distinct_iff [OF m] mset_eq_setD [OF m]
    by (intro ok_set_tabs) (auto simp: ws_ok_def ws_wf_def current_open_def simp del: set_map split: option.splits)
  then have "ws_ok (set_tabs ?tabs w)" by (simp add: set_tabs_def)
  then show ?thesis using w by (simp add: reorderTabs_def Let_def ok_emit)
qed

lemma ok_step: "ws_step w w' \<Longrightarrow> ws_ok w \<Longrightarrow> ws_ok w'"
proof (induction rule: ws_step.induct)
  case (open_cluster c w env h) then show ?case by (simp add: inv_intros)
next
  case (close_cluster w c) then show ?case by (simp add: ok_closeTab)
next
  case (switch_cluster c w h) then show ?case by (intro ok_setCurrent) (simp_all split: option.splits)
next
  case reorder_clusters then show ?case by (simp add: ok_reorder)
next
  case (open_list c w env r p pane) then show ?case
    by (auto simp: openResourceListTab_def Let_def intro!: inv_intros split: option.splits)
next
  case (close_list w i) then show ?case
    by (auto simp: closeResourceListTab_def release_closed_def Let_def intro!: inv_intros split: option.splits)
next
  case (show_list w env i) then show ?case
    by (auto simp: setActiveResourceListTab_def Let_def intro!: inv_intros split: option.splits prod.splits)
next
  case (show_in_pane w env q t) then show ?case
    by (auto simp: setActiveResourceListTabForPane_def Let_def intro!: inv_intros split: option.splits prod.splits)
next
  case (move_list w env i q) then show ?case
    by (auto simp: moveResourceListTabToPane_def closeResourceListTab_def release_closed_def Let_def
        intro!: inv_intros split: option.splits prod.splits)
next
  case (open_detail c w env dr o' p) then show ?case
    by (auto simp: openDetailTab_def Let_def intro!: inv_intros split: option.splits)
next
  case (close_bottom w i) then show ?case
    by (auto simp: closeBottomTab_def release_bottom_pane_def Let_def intro!: inv_intros split: option.splits)
next
  case (open_bottom w now ty o' c) then show ?case
    by (auto simp: openBottomTab_def Let_def intro!: inv_intros split: option.splits)
qed (auto simp: overview_opened_def tree_loaded_def updateResourceListTab_def reorderResourceListTabs_def
      closeDetailTab_def setActiveDetailTab_def pinDetailTab_def reorderDetailTabs_def moveDetailTab_def
      setActiveBottomTab_def updateBottomTabContainer_def renameBottomTab_def moveBottomTab_def map_bottom_def Let_def
      intro!: inv_intros split: option.splits)

lemma ws_ok_reachable: "ws_reachable w \<Longrightarrow> ws_ok w"
proof (induction rule: ws_reachable.induct)
  case start
  show ?case by (simp add: ws_ok_def ws_wf_def current_open_def ws_init_def rebuildTabIndex_def)
qed (use ok_step in blast)


definition example_env :: list_env where
  "example_env = \<lparr>le_live = (\<lambda>_. None), le_copy = (\<lambda>_. False), le_cache = [], le_now = 7\<rparr>"


end
