(* ===== verification/WorkspaceStrips.thy ===== *)
theory WorkspaceStrips
  imports WorkspaceProps
begin

text \<open>
  What opening and closing do to the strips of a cluster tab: the resource-list tabs with the
  tab each pane shows, the detail tabs, and closing and reordering whole clusters; with two
  places where an id is left behind or given twice.
\<close>

section \<open>Reading a strip through the operations\<close>

definition strip_of :: "ws \<Rightarrow> string option \<Rightarrow>
    (list_tab list \<times> string option \<times> (string, string option) jsmap option) option" where
  "strip_of w c = map_option (\<lambda>t. (ts_resourceListTabs (tab_st t), ts_activeResourceListTab (tab_st t), ts_activeByPane (tab_st t)))
     (find_tab c w)"

lemma find_map_same_id:
  "(\<And>t. tab_id (g t) = tab_id t) \<Longrightarrow> find (\<lambda>t. Some (tab_id t) = c) (map g tabs) = map_option g (find (\<lambda>t. Some (tab_id t) = c) tabs)"
  by (induction tabs) auto

lemma find_tab_map_tab: "find_tab c (map_tab c f w) = map_option (\<lambda>t. t\<lparr>tab_st := f (tab_st t)\<rparr>) (find_tab c w)"
proof -
  have "find_tab c (map_tab c f w)
      = map_option (\<lambda>t. if Some (tab_id t) = c then t\<lparr>tab_st := f (tab_st t)\<rparr> else t) (find_tab c w)"
    unfolding find_tab_def map_tab_def by (simp add: find_map_same_id)
  moreover have "Some (tab_id t) = c" if "find_tab c w = Some t" for t
    using find_some_iff [OF that [unfolded find_tab_def]] by blast
  ultimately show ?thesis by (cases "find_tab c w") auto
qed

lemma find_tab_emit [simp]: "find_tab c (emit es w) = find_tab c w"
  by (simp add: find_tab_def emit_def)

lemma emit_current [simp]: "ws_currentTab (emit es w) = ws_currentTab w"
  by (simp add: emit_def)

lemma map_tab_current [simp]: "ws_currentTab (map_tab c f w) = ws_currentTab w"
  by (simp add: map_tab_def)

text \<open>Writing the current tab's state through the index is writing it by id.\<close>

lemma update_map_tab:
  assumes "ws_ok w" "ws_currentTab w = Some c"
  shows "updateCurrentTabState u w = emit (namespace_effects u (Some c)) (map_tab (Some c) (applied_update u) w)"
proof -
  have d: "distinct (map tab_id (ws_activeTabs w))" and ix: "ws_tabIndexMap w = rebuildTabIndex (ws_activeTabs w)"
    and c: "c \<in> set (map tab_id (ws_activeTabs w))"
    using assms by (simp_all add: ws_ok_def ws_wf_def current_open_def)
  have ne: "c \<noteq> []" using assms(1) c by (metis ws_ok_def ws_wf_def)
  obtain i where i: "find_index (\<lambda>t. tab_id t = c) (ws_activeTabs w) = Some i"
    using c find_index_none [of "\<lambda>t. tab_id t = c" "ws_activeTabs w"] by fastforce
  then have il: "i < length (ws_activeTabs w)" "tab_id (ws_activeTabs w ! i) = c" using find_index_some by blast+
  let ?g = "\<lambda>t. if Some (tab_id t) = Some c then t\<lparr>tab_st := applied_update u (tab_st t)\<rparr> else t"
  have upd: "(ws_activeTabs w)[i := (ws_activeTabs w ! i)\<lparr>tab_st := applied_update u (tab_st (ws_activeTabs w ! i))\<rparr>]
      = map ?g (ws_activeTabs w)"
  proof (rule nth_equalityI)
    fix j
    assume "j < length ((ws_activeTabs w)[i := (ws_activeTabs w ! i)\<lparr>tab_st := applied_update u (tab_st (ws_activeTabs w ! i))\<rparr>])"
    then have j: "j < length (ws_activeTabs w)" by simp
    then have "j \<noteq> i \<Longrightarrow> tab_id (ws_activeTabs w ! j) \<noteq> c"
      using d il by (metis length_map nth_eq_iff_index_eq nth_map)
    then show "(ws_activeTabs w)[i := (ws_activeTabs w ! i)\<lparr>tab_st := applied_update u (tab_st (ws_activeTabs w ! i))\<rparr>] ! j
        = map ?g (ws_activeTabs w) ! j"
      using j il by (cases "j = i") simp_all
  qed simp
  have "map tab_id (map ?g (ws_activeTabs w)) = map tab_id (ws_activeTabs w)" by (simp add: comp_def)
  then have r: "rebuildTabIndex (map ?g (ws_activeTabs w)) = ws_tabIndexMap w"
    unfolding ix by (rule rebuildTabIndex_cong)
  have "current_index w = Some i"
    using i ne assms(2) by (simp add: current_index_def ix rebuildTabIndex_get [OF d])
  moreover have "set_tabs (map ?g (ws_activeTabs w)) w = map_tab (Some c) (applied_update u) w"
    unfolding set_tabs_def r map_tab_def by simp
  ultimately show ?thesis
    using il(1) assms(2) upd by (simp add: updateCurrentTabState_def nth_opt_def)
qed

lemma strip_select_node: "ws_ok w \<Longrightarrow> strip_of (selectNode n w) c = strip_of w c"
proof -
  assume w: "ws_ok w"
  let ?u = "plain_update (\<lambda>st. st\<lparr>ts_selectedNode := Some n\<rparr>)"
  have s: "strip_of (selectNode n w) c = strip_of (updateCurrentTabState ?u w) c"
    by (simp add: selectNode_def strip_of_def Let_def split: option.splits)
  show ?thesis
  proof (cases "ws_currentTab w")
    case None
    then have "current_index w = None"
      using w by (auto simp: current_index_def ws_ok_def ws_wf_def rebuildTabIndex_get find_index_none image_iff)
    then show ?thesis unfolding s by (simp add: updateCurrentTabState_def)
  next
    case (Some cur)
    have "strip_of (map_tab (Some cur) (applied_update ?u) w) c = strip_of w c"
      unfolding strip_of_def find_tab_def map_tab_def
      by (simp add: find_map_same_id option.map_comp)
         (rule map_option_cong, simp_all add: applied_update_def plain_update_def)
    then show ?thesis unfolding s update_map_tab [OF w Some] by (simp add: strip_of_def)
  qed
qed

section \<open>Opening a list\<close>

lemma drop_first_keeps: "x \<in> set xs \<Longrightarrow> \<not> P x \<Longrightarrow> x \<in> set (drop_first P xs)"
proof (cases "find_index P xs")
  case (Some i)
  assume x: "x \<in> set xs" "\<not> P x"
  from Some have i: "i < length xs" "P (xs ! i)" using find_index_some by blast+
  have "set xs = set (take i xs) \<union> {xs ! i} \<union> set (drop (Suc i) xs)"
    using id_take_nth_drop [OF i(1)] by (metis Un_insert_right insert_is_Un list.simps(15) set_append sup_bot.right_neutral Un_assoc)
  with x i Some show ?thesis by (auto simp: drop_first_def)
qed (simp add: drop_first_def)

definition keeps_pinned :: "list_tab list \<Rightarrow> list_tab list \<Rightarrow> bool" where
  "keeps_pinned old new = (\<forall>rt \<in> set old. lt_isPinned rt \<longrightarrow>
     (\<exists>rt' \<in> set new. lt_id rt' = lt_id rt \<and> lt_isPinned rt' \<and> lt_resource rt' = lt_resource rt))"

definition shows_type :: "resource \<Rightarrow> string \<Rightarrow> string \<Rightarrow> list_tab \<Rightarrow> bool" where
  "shows_type r cluster paneKey rt =
     (let (sameGV, sameName, sameKind) = same_type (lt_resource rt) r in
      lt_pane rt = str_or (Some paneKey) ''root'' \<and> lt_cluster rt = cluster \<and> sameGV \<and> (sameName \<or> sameKind))"

lemma existing_list_tab_some:
  assumes "existing_list_tab r cluster paneKey st = Some rt"
  shows "rt \<in> set (ts_resourceListTabs st)" "shows_type r cluster paneKey rt"
proof -
  have "rt \<in> set (filter (tab_matches r cluster paneKey) (ts_resourceListTabs st))"
    using assms find_some_iff [of _ "filter (tab_matches r cluster paneKey) (ts_resourceListTabs st)"]
    by (auto simp: existing_list_tab_def Let_def nth_opt_some split: option.splits simp del: set_filter)
  then show "rt \<in> set (ts_resourceListTabs st)" "shows_type r cluster paneKey rt"
    by (auto simp: tab_matches_def shows_type_def lt_pane_def str_or_def split: prod.splits option.splits if_splits)
qed

definition opened :: "resource \<Rightarrow> string \<Rightarrow> string \<Rightarrow> list_tab list \<Rightarrow>
    (list_tab list \<times> string option \<times> (string, string option) jsmap option) option \<Rightarrow> bool" where
  "opened r cluster paneKey old strip =
     (case strip of
        Some (tabs, active, panes) \<Rightarrow>
          keeps_pinned old tabs
          \<and> (\<exists>rt \<in> set tabs. shows_type r cluster paneKey rt \<and> active = Some (lt_id rt)
               \<and> jm_get (nullish panes []) paneKey = Some (Some (lt_id rt)))
      | None \<Rightarrow> False)"

lemma pin_list_member:
  assumes "distinct (map lt_id tabs)" "rt \<in> set tabs"
  shows "(if lt_id rt = i then rt\<lparr>lt_isPinned := True\<rparr> else rt) \<in> set (pin_list i tabs)"
proof (cases "find (\<lambda>rt. lt_id rt = i) tabs")
  case None
  then have "lt_id rt \<noteq> i" using assms(2) by (auto simp: find_None_iff)
  then show ?thesis using assms(2) None by (simp add: pin_list_def)
next
  case (Some p)
  then have "p \<in> set tabs" "lt_id p = i" by (auto simp: find_Some_iff)
  then have "lt_id rt = i \<Longrightarrow> rt = p" using assms by (metis distinct_map inj_onD)
  then show ?thesis using Some assms(2) by (auto simp: pin_list_def Let_def)
qed

lemma opened_pin:
  assumes "opened r cluster paneKey old (Some (tabs, active, panes))" "distinct (map lt_id tabs)"
  shows "opened r cluster paneKey old (Some (pin_list i tabs, active, panes))"
proof -
  have m: "\<exists>rt' \<in> set (pin_list i tabs). lt_id rt' = lt_id rt \<and> (lt_isPinned rt \<longrightarrow> lt_isPinned rt')
      \<and> lt_resource rt' = lt_resource rt \<and> lt_pane rt' = lt_pane rt \<and> lt_cluster rt' = lt_cluster rt"
    if "rt \<in> set tabs" for rt
    using pin_list_member [OF assms(2) that, of i] by (rule rev_bexI) (auto simp: lt_pane_def)
  have "keeps_pinned old (pin_list i tabs)"
    using assms(1) m by (simp add: opened_def keeps_pinned_def) metis
  moreover obtain rt where rt: "rt \<in> set tabs" "shows_type r cluster paneKey rt" "active = Some (lt_id rt)"
    "jm_get (nullish panes []) paneKey = Some (Some (lt_id rt))"
    using assms(1) by (auto simp: opened_def)
  moreover obtain rt' where "rt' \<in> set (pin_list i tabs)" "lt_id rt' = lt_id rt" "lt_resource rt' = lt_resource rt"
    "lt_pane rt' = lt_pane rt" "lt_cluster rt' = lt_cluster rt" using m [OF rt(1)] by blast
  ultimately show ?thesis by (auto simp: opened_def shows_type_def)
qed

lemma opened_show:
  assumes "existing_list_tab r cluster paneKey st = Some e"
  shows "let st' = show_list_tab env p paneKey e st in
     opened r cluster paneKey (ts_resourceListTabs st)
       (Some (ts_resourceListTabs st', ts_activeResourceListTab st', ts_activeByPane st'))
     \<and> map lt_id (ts_resourceListTabs st') = map lt_id (ts_resourceListTabs st)"
proof -
  obtain items live where wl: "withLiveItems env e = (items, live)" by fastforce
  let ?g = "\<lambda>rt. if lt_id rt = lt_id e then rt\<lparr>lt_items := lt_items items, lt_isPinned := p \<or> lt_isPinned rt\<rparr> else rt"
  have st': "ts_resourceListTabs (show_list_tab env p paneKey e st) = map ?g (ts_resourceListTabs st)"
    "ts_activeResourceListTab (show_list_tab env p paneKey e st) = Some (lt_id e)"
    "ts_activeByPane (show_list_tab env p paneKey e st) = Some (jm_set (nullish (ts_activeByPane st) []) paneKey (Some (lt_id e)))"
    by (simp_all add: show_list_tab_def wl mark_loaded_def Let_def)
  have "keeps_pinned (ts_resourceListTabs st) (map ?g (ts_resourceListTabs st))"
  proof -
    have "lt_id (?g rt) = lt_id rt \<and> (lt_isPinned rt \<longrightarrow> lt_isPinned (?g rt)) \<and> lt_resource (?g rt) = lt_resource rt" for rt
      by simp
    then show ?thesis unfolding keeps_pinned_def set_map by blast
  qed
  moreover have "shows_type r cluster paneKey (?g e)" "?g e \<in> set (map ?g (ts_resourceListTabs st))" "lt_id (?g e) = lt_id e"
    using existing_list_tab_some [OF assms] by (auto simp: shows_type_def lt_pane_def)
  moreover have "map lt_id (map ?g (ts_resourceListTabs st)) = map lt_id (ts_resourceListTabs st)" by simp
  ultimately show ?thesis unfolding Let_def st' opened_def
    by (simp only: prod.case option.case jm_get_set nullish_simps) (intro conjI bexI [of _ "?g e"]; simp)
qed

lemma opened_add:
  assumes "newTab = new_list_tab env r cluster p paneKey"
  shows "let st' = add_list_tab paneKey newTab (placed_tabs p paneKey newTab (ts_resourceListTabs st)) s in
     opened r cluster paneKey (ts_resourceListTabs st)
       (Some (ts_resourceListTabs st', ts_activeResourceListTab st', ts_activeByPane st'))"
proof -
  let ?new = "placed_tabs p paneKey newTab (ts_resourceListTabs st)"
  have "x \<in> set (ts_resourceListTabs st) \<Longrightarrow> lt_isPinned x \<Longrightarrow> x \<in> set ?new" for x
    using drop_first_keeps [of x "ts_resourceListTabs st"] by (auto simp: placed_tabs_def Let_def)
  then have "keeps_pinned (ts_resourceListTabs st) ?new" unfolding keeps_pinned_def by blast
  moreover have "newTab \<in> set ?new" by (simp add: placed_tabs_def Let_def)
  moreover have "shows_type r cluster paneKey newTab"
    by (simp add: assms new_list_tab_def shows_type_def same_type_def lt_pane_def Let_def)
  ultimately show ?thesis by (auto simp: opened_def add_list_tab_def Let_def)
qed

lemma strip_map_tab:
  "find_tab c w = Some t \<Longrightarrow> strip_of (map_tab c f w) c =
     Some (ts_resourceListTabs (f (tab_st t)), ts_activeResourceListTab (f (tab_st t)), ts_activeByPane (f (tab_st t)))"
  by (simp add: strip_of_def find_tab_map_tab)

lemma strip_pin:
  assumes "strip_of w (ws_currentTab w) = Some (tabs, active, panes)"
  shows "strip_of (pinResourceListTab i w) (ws_currentTab w) = Some (pin_list i tabs, active, panes)"
  using assms by (auto simp: strip_of_def pinResourceListTab_def find_tab_map_tab)

lemma open_body_opened:
  assumes ok: "ws_ok w" and cur: "ws_currentTab w = Some cluster" and t: "find_tab (Some cluster) w = Some t"
    and d: "distinct (map lt_id (ts_resourceListTabs (tab_st t)))"
  shows "opened r cluster (snd (target_pane paneId (tab_st t))) (ts_resourceListTabs (tab_st t))
     (strip_of (open_list_body env r cluster p paneId (tab_st t) w) (Some cluster))"
proof -
  obtain wanted paneKey where tp: "target_pane paneId (tab_st t) = (wanted, paneKey)" by fastforce
  define w1 where "w1 = (if wanted \<noteq> None \<and> Some paneKey \<noteq> wanted
                then map_tab (Some cluster) (\<lambda>s. s\<lparr>ts_focusedCenterPaneId := Some paneKey\<rparr>) w else w)"
  obtain t1 where t1: "find_tab (Some cluster) w1 = Some t1"
    "ts_resourceListTabs (tab_st t1) = ts_resourceListTabs (tab_st t)" "ts_activeByPane (tab_st t1) = ts_activeByPane (tab_st t)"
  proof (cases "wanted \<noteq> None \<and> Some paneKey \<noteq> wanted")
    case True
    then show ?thesis using t that [of "t\<lparr>tab_st := (tab_st t)\<lparr>ts_focusedCenterPaneId := Some paneKey\<rparr>\<rparr>"]
      by (simp add: w1_def find_tab_map_tab)
  next
    case False
    then have "w1 = w" unfolding w1_def by (rule if_not_P)
    then show ?thesis using t that [of t] by simp
  qed
  have ok1: "ws_ok w1" "ws_currentTab w1 = Some cluster" using ok cur by (auto simp: w1_def intro: ok_map_tab)
  note body = open_list_body_def [of env r cluster p paneId "tab_st t" w, unfolded tp Let_def prod.case, folded w1_def]
  show ?thesis
  proof (cases "existing_list_tab r cluster paneKey (tab_st t)")
    case None
    let ?new = "new_list_tab env r cluster p paneKey"
    let ?w2 = "map_tab (Some cluster) (add_list_tab paneKey ?new (placed_tabs p paneKey ?new (ts_resourceListTabs (tab_st t)))) w1"
    have "opened r cluster paneKey (ts_resourceListTabs (tab_st t)) (strip_of ?w2 (Some cluster))"
      unfolding strip_map_tab [OF t1(1)] using opened_add [OF refl] by (simp add: Let_def)
    then show ?thesis
      unfolding body tp snd_conv None option.case
      using strip_select_node [OF ok_map_tab [OF ok1(1)]] by (simp split: option.split)
  next
    case (Some e)
    define w2 where "w2 = map_tab (Some cluster) (show_list_tab env p paneKey e) w1"
    define old where "old = ts_resourceListTabs (tab_st t)"
    have e1: "existing_list_tab r cluster paneKey (tab_st t1) = Some e" using Some t1 by (simp add: existing_list_tab_def)
    obtain tabs active panes where s2: "strip_of w2 (Some cluster) = Some (tabs, active, panes)"
      "opened r cluster paneKey old (Some (tabs, active, panes))" "distinct (map lt_id tabs)"
      using strip_map_tab [OF t1(1)] opened_show [OF e1, of env p] t1(2) d by (simp add: Let_def w2_def old_def)
    have ok2: "ws_ok w2" unfolding w2_def by (rule ok_map_tab [OF ok1(1)])
    have node: "strip_of (selectNode n w2) (Some cluster) = Some (tabs, active, panes)" for n
      using strip_select_node [OF ok2] s2(1) by simp
    have cur2: "ws_currentTab (selectNode n w2) = Some cluster" for n
      using same_clusters_select [OF ok2] ok1(2) by (simp add: same_clusters_def w2_def)
    have pin: "opened r cluster paneKey old (strip_of (pinResourceListTab i (selectNode n w2)) (Some cluster))" for i n
      using strip_pin [of "selectNode n w2"] node cur2 opened_pin [OF s2(2,3)] by simp
    have one: "opened r cluster paneKey old (strip_of (if q then pinResourceListTab i (selectNode n w2) else selectNode n w2) (Some cluster))"
      for q i n using pin node s2(2) by simp
    show ?thesis
      unfolding body tp snd_conv Some option.case w2_def [symmetric] old_def [symmetric]
      using one s2(1,2) by (cases "pageNode (rr_kind (lt_resource e)) (Some cluster)"; cases "rr_group (lt_resource e)") simp_all
  qed
qed

text \<open>Opening a resource list in a cluster that is open: every pinned tab of the
  strip survives, still pinned and on its resource; the tab then shown is in the wanted
  pane (or the layout's first, when the layout does not have it), on this cluster and of
  this resource type; and the pane shows it.\<close>

lemma openResourceListTab_opens:
  assumes "ws_reachable w" "find_tab (Some cluster) w = Some t" "distinct (map lt_id (ts_resourceListTabs (tab_st t)))"
  shows "opened r cluster (snd (target_pane paneId (tab_st t))) (ts_resourceListTabs (tab_st t))
     (strip_of (openResourceListTab env r cluster isPinned paneId w) (Some cluster))"
proof -
  have ok: "ws_ok w" using assms(1) by (rule ws_ok_reachable)
  have c: "cluster \<in> set (map tab_id (ws_activeTabs w))"
    using assms(2) find_tab_none [of cluster w] by simp
  let ?w = "if ws_currentTab w \<noteq> Some cluster then openTab env cluster True w else w"
  have "find_tab (Some cluster) (openTab env cluster True w) = find_tab (Some cluster) w"
    using assms(2) by (cases "cluster = []") (simp_all add: openTab_def setCurrentTab_def Let_def find_tab_def emit_def)
  moreover have "ws_currentTab (openTab env cluster True w) = Some cluster"
    using assms(2) by (simp add: openTab_def setCurrentTab_def Let_def emit_def)
  moreover have "ws_ok (openTab env cluster True w)"
    using ok c assms(2) ok_setCurrent [OF ok, of "Some cluster" True] by (simp add: openTab_def)
  ultimately have "ws_ok ?w" "ws_currentTab ?w = Some cluster" "find_tab (Some cluster) ?w = Some t"
    using ok assms(2) by auto
  from open_body_opened [OF this assms(3)] show ?thesis
    using assms(2) by (simp add: openResourceListTab_def)
qed

definition example_ws :: ws where
  "example_ws = openTab example_env ''prod'' True ws_init"

lemma example_ws_reachable: "ws_reachable example_ws"
  unfolding example_ws_def by (rule step [OF start open_cluster]) simp

lemma example_ws_tab:
  "find_tab (Some ''prod'') example_ws = Some (the (find_tab (Some ''prod'') example_ws))"
  "distinct (map lt_id (ts_resourceListTabs (tab_st (the (find_tab (Some ''prod'') example_ws)))))"
  by code_simp+

lemma openResourceListTab_opens_witness:
  "opened dashboard_resource ''prod'' (snd (target_pane None (tab_st (the (find_tab (Some ''prod'') example_ws)))))
     (ts_resourceListTabs (tab_st (the (find_tab (Some ''prod'') example_ws))))
     (strip_of (openResourceListTab example_env dashboard_resource ''prod'' False None example_ws) (Some ''prod''))"
  by (rule openResourceListTab_opens [OF example_ws_reachable example_ws_tab])

section \<open>Closing a list\<close>

lemma jm_get_close_panes:
  "jm_get (close_panes i tabs m) q =
     map_option (\<lambda>v. if v = Some i then map_option lt_id (find (\<lambda>rt. lt_pane rt = q) tabs) else v) (jm_get m q)"
  unfolding close_panes_def by (rule jm_get_map_values)

lemma close_panes_gone:
  assumes "\<forall>rt \<in> set tabs. lt_id rt \<noteq> i"
  shows "jm_get (close_panes i tabs m) q \<noteq> Some (Some i)"
  using assms find_some_iff [of "\<lambda>rt. lt_pane rt = q" tabs]
  by (auto simp: jm_get_close_panes)

lemma replacement_tab_some:
  assumes "find_index (\<lambda>rt. lt_id rt = i) (ts_resourceListTabs st) = Some k" "newTabs \<noteq> []"
  obtains rt where "replacement_tab i st newTabs = Some rt" "rt \<in> set newTabs"
proof -
  have "min k (length newTabs - 1) < length newTabs" using assms(2) by (simp add: min_less_iff_disj)
  then have n: "\<exists>rt. nth_opt newTabs (min k (length newTabs - 1)) = Some rt \<and> rt \<in> set newTabs"
    by (simp add: nth_opt_def del: min_less_iff_disj)
  show ?thesis
  proof (cases "replacement_tab i st newTabs")
    case None
    then show ?thesis using n assms(1) by (auto simp: replacement_tab_def Let_def split: option.splits)
  next
    case (Some rt)
    then have "(\<exists>P. find P newTabs = Some rt) \<or> nth_opt newTabs (min k (length newTabs - 1)) = Some rt"
      using assms(1) unfolding replacement_tab_def Let_def by (simp split: option.split_asm if_split_asm) blast+
    then have "rt \<in> set newTabs" using n find_some_iff by fastforce
    then show ?thesis using Some that by blast
  qed
qed

definition closed_strip :: "string \<Rightarrow> tab_state \<Rightarrow>
    (list_tab list \<times> string option \<times> (string, string option) jsmap option) option \<Rightarrow> bool" where
  "closed_strip i st strip =
     (case strip of
        Some (tabs, active, panes) \<Rightarrow>
          tabs = filter (\<lambda>rt. lt_id rt \<noteq> i) (ts_resourceListTabs st)
          \<and> (case active of None \<Rightarrow> ts_activeResourceListTab st = None \<or> tabs = []
             | Some a \<Rightarrow> a \<in> lt_id ` set tabs \<and> (ts_activeResourceListTab st \<noteq> Some i \<longrightarrow> ts_activeResourceListTab st = Some a))
          \<and> (\<forall>q. jm_get (nullish panes []) q \<noteq> Some (Some i))
      | None \<Rightarrow> False)"

lemma closeResourceListTab_strip:
  assumes ok: "ws_ok w" and cur: "ws_currentTab w = Some c" and t: "find_tab (Some c) w = Some t"
    and a: "case ts_activeResourceListTab (tab_st t) of None \<Rightarrow> True | Some a \<Rightarrow> a \<in> lt_id ` set (ts_resourceListTabs (tab_st t))"
  shows "closed_strip i (tab_st t) (strip_of (closeResourceListTab i w) (Some c))"
proof -
  let ?st = "tab_st t"
  let ?new = "filter (\<lambda>rt. lt_id rt \<noteq> i) (ts_resourceListTabs ?st)"
  let ?panes = "close_panes i ?new (nullish (ts_activeByPane ?st) [])"
  let ?w1 = "release_closed i ?st ?new w"
  let ?stored = "\<lambda>active ps. map_tab (Some c)
     (\<lambda>s. s\<lparr>ts_resourceListTabs := ?new, ts_activeResourceListTab := active, ts_activeByPane := Some ps\<rparr>) ?w1"
  have w1: "find_tab (Some c) ?w1 = Some t" "ws_ok ?w1"
    using t ok by (simp_all add: release_closed_def Let_def ok_emit split: option.splits)
  have strip: "strip_of (?stored active ps) (Some c) = Some (?new, active, Some ps)" for active ps
    using strip_map_tab [OF w1(1)] by simp
  have gone: "jm_get ?panes q \<noteq> Some (Some i)" for q by (rule close_panes_gone) simp
  have def': "closeResourceListTab i w =
      (if ts_activeResourceListTab ?st \<noteq> Some i then ?stored (ts_activeResourceListTab ?st) ?panes
       else if ?new = [] then ?stored None (map (\<lambda>(p, v). (p, None)) ?panes)
       else (case replacement_tab i ?st ?new of None \<Rightarrow> ?w1
             | Some next \<Rightarrow> selectNode (node_of_resource (lt_resource next) (Some c)) (?stored (Some (lt_id next)) ?panes)))"
    unfolding closeResourceListTab_def cur t option.case Let_def by (rule refl)
  consider "ts_activeResourceListTab ?st \<noteq> Some i" | "ts_activeResourceListTab ?st = Some i" "?new = []"
    | "ts_activeResourceListTab ?st = Some i" "?new \<noteq> []" by blast
  then show ?thesis
  proof cases
    case 1
    then show ?thesis using strip gone a by (auto simp: def' closed_strip_def split: option.splits)
  next
    case 2
    have "jm_get (map (\<lambda>(p, v). (p, None)) m) q \<noteq> Some (Some i)" for m :: "(string, string option) jsmap" and q
      by (induction m) (auto simp: jm_get_def)
    then show ?thesis using 2 strip by (simp add: def' closed_strip_def)
  next
    case 3
    obtain k where "find_index (\<lambda>rt. lt_id rt = i) (ts_resourceListTabs ?st) = Some k"
      using 3(1) a find_index_none [of "\<lambda>rt. lt_id rt = i"] by fastforce
    then obtain next_tab where n: "replacement_tab i ?st ?new = Some next_tab" "next_tab \<in> set ?new"
      using 3(2) replacement_tab_some by metis
    have "strip_of (closeResourceListTab i w) (Some c) = Some (?new, Some (lt_id next_tab), Some ?panes)"
      unfolding def' using 3 n(1) strip strip_select_node [OF ok_map_tab [OF w1(2)]] by simp
    then show ?thesis using 3(1) n(2) gone by (simp add: closed_strip_def)
  qed
qed

text \<open>Closing a list tab removes exactly that tab; what is active afterwards is a
  tab that exists, the same one when another was closed, and none only when none is left
  or none was active; no pane still shows the closed tab.\<close>

lemma closeResourceListTab_closes:
  assumes "ws_reachable w" "ws_currentTab w = Some c" "find_tab (Some c) w = Some t"
    and "case ts_activeResourceListTab (tab_st t) of None \<Rightarrow> True | Some a \<Rightarrow> a \<in> lt_id ` set (ts_resourceListTabs (tab_st t))"
  shows "closed_strip i (tab_st t) (strip_of (closeResourceListTab i w) (Some c))"
  using closeResourceListTab_strip [OF ws_ok_reachable [OF assms(1)] assms(2-4)] .

lemma closeResourceListTab_closes_witness:
  "closed_strip ''list-ClusterDashboard--v1-7'' (tab_st (the (find_tab (Some ''prod'') example_ws)))
     (strip_of (closeResourceListTab ''list-ClusterDashboard--v1-7'' example_ws) (Some ''prod''))"
proof (rule closeResourceListTab_closes [OF example_ws_reachable _ example_ws_tab(1)])
  show "ws_currentTab example_ws = Some ''prod''" by code_simp
  show "case ts_activeResourceListTab (tab_st (the (find_tab (Some ''prod'') example_ws))) of None \<Rightarrow> True
     | Some a \<Rightarrow> a \<in> lt_id ` set (ts_resourceListTabs (tab_st (the (find_tab (Some ''prod'') example_ws))))"
    by code_simp
qed

text \<open>Closing a list tab releases its subscription exactly when no other tab of the
  cluster shows the same list.\<close>

lemma closeResourceListTab_releases:
  assumes "find_tab (ws_currentTab w) w = Some t" "find (\<lambda>rt. lt_id rt = i) (ts_resourceListTabs (tab_st t)) = Some closing"
  shows "ReleaseTopic (itemsTopic (lt_cluster closing) (lt_resource closing))
       \<in> set (drop (length (ws_log w)) (ws_log (closeResourceListTab i w)))
     \<longleftrightarrow> (\<forall>rt \<in> set (ts_resourceListTabs (tab_st t)). lt_id rt \<noteq> i \<longrightarrow>
          itemsTopic (lt_cluster rt) (lt_resource rt) \<noteq> itemsTopic (lt_cluster closing) (lt_resource closing))"
proof -
  let ?topic = "itemsTopic (lt_cluster closing) (lt_resource closing)"
  let ?new = "filter (\<lambda>rt. lt_id rt \<noteq> i) (ts_resourceListTabs (tab_st t))"
  let ?w1 = "release_closed i (tab_st t) ?new w"
  have upd: "\<exists>es. ws_log (updateCurrentTabState (plain_update f) w') = ws_log w' @ es \<and> ReleaseTopic ?topic \<notin> set es" for f w'
    by (auto simp: updateCurrentTabState_def plain_update_def namespace_effects_def emit_def set_tabs_def split: option.splits)
  have sel: "\<exists>es. ws_log (selectNode n w') = ws_log w' @ es \<and> ReleaseTopic ?topic \<notin> set es" for n w'
    using upd [of "\<lambda>st. st\<lparr>ts_selectedNode := Some n\<rparr>" w']
    by (auto simp: selectNode_def emit_def Let_def split: option.splits)
  have m: "ws_log (map_tab c f w') = ws_log w'" for c f w' by (simp add: map_tab_def)
  have sel': "\<exists>es. ws_log (selectNode n (map_tab c f w')) = ws_log w' @ es \<and> ReleaseTopic ?topic \<notin> set es" for n c f w'
    using sel [of n "map_tab c f w'"] by (simp add: m)
  obtain es where "ws_log (closeResourceListTab i w) = ws_log ?w1 @ es" "ReleaseTopic ?topic \<notin> set es"
  proof -
    have "\<exists>es. ws_log (closeResourceListTab i w) = ws_log ?w1 @ es \<and> ReleaseTopic ?topic \<notin> set es"
      unfolding closeResourceListTab_def assms(1) option.case Let_def
      using sel' by (simp split: option.split add: m)
    then show thesis using that by blast
  qed
  moreover have "ws_log ?w1 = ws_log w @ (if list_ex (\<lambda>rt. itemsTopic (lt_cluster rt) (lt_resource rt) = ?topic) ?new then [] else [ReleaseTopic ?topic])"
    using assms(2) by (simp add: release_closed_def emit_def Let_def)
  ultimately show ?thesis by (auto simp: list_ex_iff)
qed

lemma closeResourceListTab_releases_witness:
  "let t = the (find_tab (Some ''prod'') example_ws); closing = the (nth_opt (ts_resourceListTabs (tab_st t)) 0);
       i = ''list-ClusterDashboard--v1-7'' in
   ReleaseTopic (itemsTopic (lt_cluster closing) (lt_resource closing))
       \<in> set (drop (length (ws_log example_ws)) (ws_log (closeResourceListTab i example_ws)))
     \<longleftrightarrow> (\<forall>rt \<in> set (ts_resourceListTabs (tab_st t)). lt_id rt \<noteq> i \<longrightarrow>
          itemsTopic (lt_cluster rt) (lt_resource rt) \<noteq> itemsTopic (lt_cluster closing) (lt_resource closing))"
  unfolding Let_def
proof (rule closeResourceListTab_releases)
  have c: "ws_currentTab example_ws = Some ''prod''" by code_simp
  show "find_tab (ws_currentTab example_ws) example_ws = Some (the (find_tab (Some ''prod'') example_ws))"
    unfolding c by (rule example_ws_tab)
  have "nth_opt (ts_resourceListTabs (tab_st (the (find_tab (Some ''prod'') example_ws)))) 0 \<noteq> None" by code_simp
  moreover have "find (\<lambda>rt. lt_id rt = ''list-ClusterDashboard--v1-7'') (ts_resourceListTabs (tab_st (the (find_tab (Some ''prod'') example_ws))))
      = nth_opt (ts_resourceListTabs (tab_st (the (find_tab (Some ''prod'') example_ws)))) 0" by code_simp
  ultimately show "find (\<lambda>rt. lt_id rt = ''list-ClusterDashboard--v1-7'') (ts_resourceListTabs (tab_st (the (find_tab (Some ''prod'') example_ws))))
      = Some (the (nth_opt (ts_resourceListTabs (tab_st (the (find_tab (Some ''prod'') example_ws)))) 0))" by simp
qed

section \<open>Detail tabs\<close>

definition close_detail :: "string \<Rightarrow> tab_state \<Rightarrow> tab_state" where
  "close_detail i st = (case close_detail_state i st of None \<Rightarrow> st | Some st' \<Rightarrow> st')"

lemma close_detail_some:
  assumes "close_active dt_id (ts_detailTabs st) (ts_activeDetailTab st) i = Some a"
  shows "ts_detailTabs (close_detail i st) = filter (\<lambda>dt. dt_id dt \<noteq> i) (ts_detailTabs st)"
    "ts_activeDetailTab (close_detail i st) = a"
    "ts_detailData (close_detail i st) = (if truthy_str a
       then map_option dt_item (find (\<lambda>dt. Some (dt_id dt) = a) (ts_detailTabs (close_detail i st))) else None)"
  using assms by (simp_all add: close_detail_def close_detail_state_def Let_def)

interpretation detail: tab_strip "\<lambda>st. map dt_id (ts_detailTabs st)" ts_activeDetailTab close_detail
proof (unfold_locales, goal_cases)
  case (1 s i)
  then obtain a where "close_active dt_id (ts_detailTabs s) (ts_activeDetailTab s) i = Some a"
    by (auto simp: close_active_map [of dt_id])
  then show ?case by (simp add: close_detail_some filter_map comp_def)
next
  case (2 s i a)
  then show ?case by (simp add: close_detail_some close_active_map [of dt_id])
qed

text \<open>Closing the detail tab on screen shows its right neighbour, or the last
  tab, and the details panel gets that tab's object; with no tab left it is empty.\<close>

lemma closeDetailTab_shows_neighbour:
  assumes "ts_detailTabs st = xs @ x # ys" "distinct (map dt_id (xs @ x # ys))" "[] \<notin> set (map dt_id (xs @ x # ys))"
    and "ts_activeDetailTab st = Some (dt_id x)"
  shows "let next = (if ys \<noteq> [] then Some (hd ys) else if xs \<noteq> [] then Some (last xs) else None) in
     map_option (\<lambda>st'. (ts_detailTabs st', ts_activeDetailTab st', ts_detailData st')) (close_detail_state (dt_id x) st)
       = Some (xs @ ys, map_option dt_id next, map_option dt_item next)"
proof (cases "xs @ ys = []")
  case True
  then show ?thesis using assms by (simp add: close_detail_state_def close_active_def Let_def)
next
  case False
  let ?n = "if ys \<noteq> [] then hd ys else last xs"
  have n: "?n \<in> set (xs @ ys)" using False by auto
  have ca: "close_active dt_id (ts_detailTabs st) (Some (dt_id x)) (dt_id x) = Some (Some (dt_id ?n))"
    using close_active_neighbour [OF assms(2) False] assms(1) by simp
  have fl: "filter (\<lambda>dt. dt_id dt \<noteq> dt_id x) (ts_detailTabs st) = xs @ ys"
    using filter_distinct_split [OF assms(2)] assms(1) by simp
  have "dt_id ?n \<in> dt_id ` set (xs @ ys)" using n by (rule imageI)
  then have ne: "dt_id ?n \<noteq> []" using assms(3) by force
  have "find (\<lambda>dt. dt_id dt = dt_id ?n) (xs @ ys) = Some ?n"
  proof -
    obtain f where f: "find (\<lambda>dt. dt_id dt = dt_id ?n) (xs @ ys) = Some f"
      using n by (cases "find (\<lambda>dt. dt_id dt = dt_id ?n) (xs @ ys)") (auto simp: find_None_iff)
    then have "f \<in> set (xs @ ys)" "dt_id f = dt_id ?n" using find_some_iff by fastforce+
    moreover have "distinct (map dt_id (xs @ ys))" using assms(2) by auto
    ultimately have "f = ?n" using n by (metis distinct_map inj_onD)
    with f show ?thesis by simp
  qed
  then show ?thesis using False ca fl ne assms(4) by (auto simp: close_detail_state_def Let_def)
qed

definition example_detail :: "string \<Rightarrow> detail_tab" where
  "example_detail name =
     \<lparr>dt_id = name, dt_title = name, dt_resource = None, dt_item = example_object ''Pod'' name, dt_cluster = ''prod'',
      dt_isPinned = True, dt_location = Some InDetail, dt_paneId = None, dt_isDeleted = None, dt_isRecreated = None\<rparr>"

lemma closeDetailTab_shows_neighbour_witness:
  "let st = createInitialTabState\<lparr>ts_detailTabs := [example_detail ''a''] @ example_detail ''b'' # [],
             ts_activeDetailTab := Some (dt_id (example_detail ''b''))\<rparr>;
       next = (if [] \<noteq> ([] :: detail_tab list) then Some (hd []) else if [example_detail ''a''] \<noteq> [] then Some (last [example_detail ''a'']) else None) in
     map_option (\<lambda>st'. (ts_detailTabs st', ts_activeDetailTab st', ts_detailData st')) (close_detail_state (dt_id (example_detail ''b'')) st)
       = Some ([example_detail ''a''] @ [], map_option dt_id next, map_option dt_item next)"
  using closeDetailTab_shows_neighbour [where xs = "[example_detail ''a'']" and x = "example_detail ''b''" and ys = "[]"
      and st = "createInitialTabState\<lparr>ts_detailTabs := [example_detail ''a''] @ example_detail ''b'' # [],
             ts_activeDetailTab := Some (dt_id (example_detail ''b''))\<rparr>"]
  by (simp add: example_detail_def Let_def)

section \<open>Two ids gone wrong\<close>

text \<open>Preview ids collide: while the cluster's preview tab sits in a center pane,
  previewing another object gives the new tab the same id, so that closing either closes
  both.\<close>

lemma moved_preview_id_collides:
  assumes "moved \<in> set (ts_detailTabs st)" "dt_id moved = preview_id cluster" "dt_location moved = Some InCenter"
    and "find (detail_matches item r cluster False) (ts_detailTabs st) = None"
  shows "let st' = open_detail_state r item cluster False st st in
     \<not> distinct (map dt_id (ts_detailTabs st'))
     \<and> (\<forall>dt \<in> set (ts_detailTabs (close_detail (preview_id cluster) st')). dt_id dt \<noteq> preview_id cluster)"
proof -
  let ?st = "open_detail_state r item cluster False st st"
  let ?rest = "drop_first (\<lambda>dt. \<not> dt_isPinned dt \<and> dt_location dt = Some InDetail) (ts_detailTabs st)"
  have "\<exists>new. dt_id new = preview_id cluster \<and> ts_detailTabs ?st = new # ?rest \<and> ts_activeDetailTab ?st = Some (dt_id new)"
    using assms(4) by (simp add: open_detail_state_def place_detail_def Let_def)
  then obtain new where new: "dt_id new = preview_id cluster" "ts_detailTabs ?st = new # ?rest" "ts_activeDetailTab ?st = Some (dt_id new)"
    by blast
  have "moved \<in> set ?rest" using assms(1,3) by (intro drop_first_keeps) simp_all
  then have "\<not> distinct (map dt_id (new # ?rest))" using assms(2) new(1) by force
  moreover have "detail.shown_ok ?st" using new by (simp add: detail.shown_ok_def)
  then have "preview_id cluster \<notin> set (map dt_id (ts_detailTabs (close_detail (preview_id cluster) ?st)))"
    using detail.close_shown_ok(1) [of ?st "preview_id cluster"] by simp
  then have "\<forall>dt \<in> set (ts_detailTabs (close_detail (preview_id cluster) ?st)). dt_id dt \<noteq> preview_id cluster"
    by (metis imageI list.set_map)
  ultimately show ?thesis unfolding Let_def new(2) by blast
qed

lemma moved_preview_id_collides_witness:
  "let st = createInitialTabState\<lparr>ts_detailTabs := [(example_detail (preview_id ''prod''))\<lparr>dt_isPinned := False, dt_location := Some InCenter\<rparr>]\<rparr>;
       st' = open_detail_state None (example_object ''Pod'' ''b'') ''prod'' False st st in
     \<not> distinct (map dt_id (ts_detailTabs st'))
     \<and> (\<forall>dt \<in> set (ts_detailTabs (close_detail (preview_id ''prod'') st')). dt_id dt \<noteq> preview_id ''prod'')"
  using moved_preview_id_collides [where moved = "(example_detail (preview_id ''prod''))\<lparr>dt_isPinned := False, dt_location := Some InCenter\<rparr>"
      and st = "createInitialTabState\<lparr>ts_detailTabs := [(example_detail (preview_id ''prod''))\<lparr>dt_isPinned := False, dt_location := Some InCenter\<rparr>]\<rparr>"
      and cluster = "''prod''" and item = "example_object ''Pod'' ''b''" and r = None]
  by (simp add: example_detail_def detail_matches_def Let_def)

lemma strip_of_update:
  assumes "ws_ok w" "ws_currentTab w = Some c" "find_tab (Some c) w = Some t"
  shows "strip_of (updateCurrentTabState u w) (Some c) = (let st = applied_update u (tab_st t) in
     Some (ts_resourceListTabs st, ts_activeResourceListTab st, ts_activeByPane st))"
  using assms by (simp add: update_map_tab strip_of_def find_tab_map_tab Let_def)

text \<open>Moving a list tab into a pane that already has the same list closes it, but puts
  back the panes as they were before: its old pane goes on naming the tab that no longer
  exists.\<close>

lemma moved_duplicate_left_in_pane:
  assumes "ws_reachable w" "ws_currentTab w = Some c" "find_tab (Some c) w = Some t"
    and "case ts_activeResourceListTab (tab_st t) of None \<Rightarrow> True | Some a \<Rightarrow> a \<in> lt_id ` set (ts_resourceListTabs (tab_st t))"
    and "find (\<lambda>rt. lt_id rt = i) (ts_resourceListTabs (tab_st t)) = Some rl"
    and "find (duplicate_of rl (str_or (Some target) ''root'')) (ts_resourceListTabs (tab_st t)) = Some dup"
    and "p \<noteq> str_or (Some target) ''root''" "jm_get (nullish (ts_activeByPane (tab_st t)) []) p = Some (Some i)"
  shows "case strip_of (moveResourceListTabToPane env i target w) (Some c) of
     None \<Rightarrow> False
   | Some (tabs, active, panes) \<Rightarrow> jm_get (nullish panes []) p = Some (Some i) \<and> (\<forall>rt \<in> set tabs. lt_id rt \<noteq> i)"
proof -
  have ok: "ws_ok w" using assms(1) by (rule ws_ok_reachable)
  let ?w = "closeResourceListTab i w"
  have okc: "ws_ok ?w" using ok_step [OF close_list ok] .
  have cs: "closed_strip i (tab_st t) (strip_of ?w (Some c))"
    using closeResourceListTab_strip [OF ok assms(2-4)] .
  then obtain t' where t': "find_tab (Some c) ?w = Some t'"
    "ts_resourceListTabs (tab_st t') = filter (\<lambda>rt. lt_id rt \<noteq> i) (ts_resourceListTabs (tab_st t))"
    by (auto simp: closed_strip_def strip_of_def split: option.splits)
  have up: "ws_currentTab (updateCurrentTabState u w') = ws_currentTab w'" for u w'
    by (simp add: updateCurrentTabState_def set_tabs_def split: option.split)
  have sel: "ws_currentTab (selectNode n w') = ws_currentTab w'" for n w'
    by (simp add: selectNode_def Let_def up split: option.split)
  have cur: "ws_currentTab ?w = Some c"
    unfolding closeResourceListTab_def assms(2,3) option.case Let_def
    using assms(2) by (simp add: sel release_closed_def Let_def split: option.split)
  show ?thesis
    unfolding moveResourceListTabToPane_def assms(2,3) option.case Let_def assms(5,6)
      strip_of_update [OF okc cur t'(1)]
    using t'(2) assms(7,8) by (simp add: applied_update_def)
qed

section \<open>Closing and reordering clusters\<close>

text \<open>Closing a cluster removes its tab and no other, moves to the first remaining
  tab if it was the current one, and tells every component that keeps something for it:
  its subscriptions, terminals, cached lists, saved workspace and scroll positions.\<close>

lemma closeTab_cleans:
  "let w' = closeTab c w; log = set (ws_log w') in
     ws_activeTabs w' = filter (\<lambda>t. tab_id t \<noteq> c) (ws_activeTabs w) \<and> ws_currentTab w' \<noteq> Some c
     \<and> ws_currentTab w \<in> {Some c, ws_currentTab w'}
     \<and> {ReleasePrefix (''items:'' @ c @ '':''), UnregisterActiveCluster c, ReleaseCluster c, DropCachedTopics (''items:'' @ c @ '':''),
         CancelSnapshot c, ForgetVCluster c, ForgetScroll c, RemoveItem (''kanivet.tabstate.'' @ c),
         RemoveItem (''kanivet.namespace.'' @ c)} \<subseteq> log
     \<and> (\<lambda>b. CloseTerminal (bt_id b)) ` {b \<in> set (ws_bottomTabs w). bt_cluster b = c \<and> is_terminal b} \<subseteq> log"
proof -
  let ?new = "filter (\<lambda>t. tab_id t \<noteq> c) (ws_activeTabs w)"
  have first: "tab_id t \<noteq> c" if e: "?new = t # ts" for t ts
  proof -
    have "t \<in> set ?new" unfolding e by simp
    then show ?thesis by simp
  qed
  let ?cur = "if ws_currentTab w = Some c
     then (case ?new of [] \<Rightarrow> None | t # _ \<Rightarrow> if tab_id t = [] then None else Some (tab_id t)) else ws_currentTab w"
  have cur: "ws_currentTab (closeTab c w) = ?cur" and tabs: "ws_activeTabs (closeTab c w) = ?new"
    by (simp_all add: closeTab_def emit_def set_tabs_def Let_def)
  have "?cur \<noteq> Some c"
    using first by (cases ?new) auto
  moreover have "{ReleasePrefix (''items:'' @ c @ '':''), UnregisterActiveCluster c, ReleaseCluster c, DropCachedTopics (''items:'' @ c @ '':''),
         CancelSnapshot c, ForgetVCluster c, ForgetScroll c, RemoveItem (''kanivet.tabstate.'' @ c),
         RemoveItem (''kanivet.namespace.'' @ c)} \<subseteq> set (ws_log (closeTab c w))"
    by (simp add: closeTab_def emit_def set_tabs_def remove_keys_def Let_def)
  moreover have "CloseTerminal (bt_id b) \<in> set (ws_log (closeTab c w))"
    if "b \<in> set (ws_bottomTabs w)" "bt_cluster b = c \<and> is_terminal b" for b
    using that by (simp add: closeTab_def emit_def set_tabs_def Let_def)
  ultimately show ?thesis unfolding Let_def cur tabs by auto
qed

lemma insert_at_position:
  "n \<le> length r \<Longrightarrow> (take n r @ x # drop n r) ! n = x"
  "n \<le> length r \<Longrightarrow> take n (take n r @ x # drop n r) @ drop (Suc n) (take n r @ x # drop n r) = r"
  by (simp_all add: nth_append min_absorb2)

text \<open>Reordering cluster tabs is a permutation that puts the dragged tab at the
  position it was dropped on and leaves the others in their order.\<close>

lemma reorderTabs_moves:
  assumes "from \<noteq> to" "0 \<le> from" "0 \<le> to" "from < int (length (ws_activeTabs w))" "to < int (length (ws_activeTabs w))"
  shows "let new = ws_activeTabs (reorderTabs from to w); old = ws_activeTabs w; x = old ! nat from in
     mset new = mset old \<and> new ! nat to = x
     \<and> take (nat to) new @ drop (Suc (nat to)) new = take (nat from) old @ drop (Suc (nat from)) old"
proof -
  let ?old = "ws_activeTabs w" and ?n = "length (ws_activeTabs w)"
  let ?rest = "take (nat from) ?old @ drop (Suc (nat from)) ?old"
  have f: "nat from < ?n" and t: "nat to < ?n" using assms by auto
  then have len: "length ?rest = ?n - 1" by simp
  have new: "ws_activeTabs (reorderTabs from to w) = take (nat to) ?rest @ (?old ! nat from) # drop (nat to) ?rest"
    using assms f by (simp add: reorderTabs_def Let_def emit_def set_tabs_def move_to_def del: take_append drop_append)
  have ms: "mset (ws_activeTabs (reorderTabs from to w)) = mset ?old"
    using assms by (simp add: reorderTabs_def Let_def emit_def set_tabs_def mset_move_to)
  have le: "nat to \<le> length ?rest" using t len by linarith
  show ?thesis unfolding Let_def
    by (rule conjI [OF ms conjI]; unfold new; rule insert_at_position [OF le])
qed

lemma reorderTabs_moves_witness:
  "let w = openTab example_env ''dev'' True example_ws;
       new = ws_activeTabs (reorderTabs 0 1 w); old = ws_activeTabs w; x = old ! nat 0 in
     mset new = mset old \<and> new ! nat 1 = x
     \<and> take (nat 1) new @ drop (Suc (nat 1)) new = take (nat 0) old @ drop (Suc (nat 0)) old"
proof -
  have "length (ws_activeTabs (openTab example_env ''dev'' True example_ws)) = 2" by code_simp
  then show ?thesis using reorderTabs_moves [of 0 1 "openTab example_env ''dev'' True example_ws"] by simp
qed

text \<open>Two panes with the dashboard each: opened in the first, then in the second.\<close>

definition split_ws :: ws where
  "split_ws = openResourceListTab (example_env\<lparr>le_now := 9\<rparr>) dashboard_resource ''prod'' True (Some ''pane-2'')
     (updateCurrentTabState (plain_update (\<lambda>st. st\<lparr>ts_centerPaneLayout := Some (Pane ''split'' ''split'' None None
        (Some [Pane ''root'' ''resourceList'' None None None, Pane ''pane-2'' ''resourceList'' None None None]))\<rparr>)) example_ws)"

lemma split_ws_reachable: "ws_reachable split_ws"
  unfolding split_ws_def by (rule step [OF step [OF example_ws_reachable update_state] open_list]) simp

lemma moved_duplicate_left_in_pane_witness:
  "case strip_of (moveResourceListTabToPane example_env ''list-ClusterDashboard--v1-7'' ''pane-2'' split_ws) (Some ''prod'') of
     None \<Rightarrow> False
   | Some (tabs, active, panes) \<Rightarrow>
       jm_get (nullish panes []) ''root'' = Some (Some ''list-ClusterDashboard--v1-7'')
       \<and> (\<forall>rt \<in> set tabs. lt_id rt \<noteq> ''list-ClusterDashboard--v1-7'')"
proof -
  define st where "st = tab_st (the (find_tab (Some ''prod'') split_ws))"
  define rl where "rl = the (find (\<lambda>rt. lt_id rt = ''list-ClusterDashboard--v1-7'') (ts_resourceListTabs st))"
  have c: "ws_currentTab split_ws = Some ''prod''" by code_simp
  have "find_tab (Some ''prod'') split_ws \<noteq> None" by code_simp
  then have t: "find_tab (Some ''prod'') split_ws = Some (the (find_tab (Some ''prod'') split_ws))" by simp
  have a: "case ts_activeResourceListTab st of None \<Rightarrow> True | Some a \<Rightarrow> a \<in> lt_id ` set (ts_resourceListTabs st)"
    unfolding st_def by code_simp
  have "find (\<lambda>rt. lt_id rt = ''list-ClusterDashboard--v1-7'') (ts_resourceListTabs st) \<noteq> None" unfolding st_def by code_simp
  then have rl: "find (\<lambda>rt. lt_id rt = ''list-ClusterDashboard--v1-7'') (ts_resourceListTabs st) = Some rl" by (simp add: rl_def)
  have "find (duplicate_of rl (str_or (Some ''pane-2'') ''root'')) (ts_resourceListTabs st) \<noteq> None"
    unfolding rl_def st_def by code_simp
  then have d: "find (duplicate_of rl (str_or (Some ''pane-2'') ''root'')) (ts_resourceListTabs st)
      = Some (the (find (duplicate_of rl (str_or (Some ''pane-2'') ''root'')) (ts_resourceListTabs st)))" by simp
  have p: "jm_get (nullish (ts_activeByPane st) []) ''root'' = Some (Some ''list-ClusterDashboard--v1-7'')"
    unfolding st_def by code_simp
  show ?thesis
    using moved_duplicate_left_in_pane [OF split_ws_reachable c t a [unfolded st_def] rl [unfolded st_def] d [unfolded st_def] _ p [unfolded st_def]]
    by simp
qed

end
