(* ===== verification/RolloutProps.thy ===== *)
theory RolloutProps
  imports Rollouts WorkspaceStrips
begin

text \<open>
  Following a rollout is bound to the cluster tab in front, not to the one it was asked in: what
  happens when the user switches tabs while a restart or a poll is under way.
\<close>

lemma update_find:
  assumes w: "ws_ok w" and d: "ws_currentTab w = Some d"
  shows "find_tab (Some x) (updateCurrentTabState u w)
     = (if x = d then map_option (\<lambda>t. t\<lparr>tab_st := applied_update u (tab_st t)\<rparr>) (find_tab (Some d) w) else find_tab (Some x) w)"
proof -
  have "find_tab (Some x) (map_tab (Some d) f w) = find_tab (Some x) w" if "x \<noteq> d" for f
  proof -
    let ?g = "\<lambda>t. if Some (tab_id t) = Some d then t\<lparr>tab_st := f (tab_st t)\<rparr> else t"
    have "find_tab (Some x) (map_tab (Some d) f w) = map_option ?g (find_tab (Some x) w)"
      using find_map_same_id [of ?g "Some x" "ws_activeTabs w"] unfolding find_tab_def map_tab_def by simp
    moreover have "tab_id t \<noteq> d" if "find_tab (Some x) w = Some t" for t
      using find_some_iff [OF that [unfolded find_tab_def]] \<open>x \<noteq> d\<close> by simp
    ultimately show ?thesis by (cases "find_tab (Some x) w") simp_all
  qed
  then show ?thesis
    using find_tab_map_tab [of "Some d" "applied_update u" w]
    by (simp add: update_map_tab [OF w d])
qed

lemma update_current [simp]: "ws_currentTab (updateCurrentTabState u w) = ws_currentTab w"
  by (simp add: updateCurrentTabState_def set_tabs_def emit_def split: option.split)

lemma rw_simps [simp]:
  "rw_ws (on_rw f w) = f (rw_ws w)" "rw_ws (rollout_asks cs w) = rw_ws w" "rw_ws (startRolloutPolling w) = rw_ws w"
  "rw_ws (pollRollouts w) = rw_ws w"
  by (simp_all add: on_rw_def rollout_asks_def startRolloutPolling_def pollRollouts_def split: option.split)

lemma add_tracking_ws:
  assumes "find_tab (Some d) (rw_ws w) = Some t" "ws_currentTab (rw_ws w) = Some d"
  shows "rw_ws (addRolloutTracking key req w) =
     updateCurrentTabState (plain_update (\<lambda>st. st\<lparr>ts_rolloutRequests := Some (jm_set (followed_in (tab_st t)) key req)\<rparr>)) (rw_ws w)"
  using assms by (simp add: addRolloutTracking_def)

text \<open>C35: A restart answered, or a poll answered, after the user went from cluster \<open>c\<close> to cluster \<open>d\<close> is
  written to \<open>d\<close>: the rollout is followed there, under \<open>d\<close>'s name, and the statuses of \<open>c\<close>'s
  rollouts replace \<open>d\<close>'s. The tab of \<open>c\<close> gets nothing.\<close>

theorem rollout_answers_go_to_shown_tab:
  assumes ok: "ws_ok (rw_ws w)" and d: "ws_currentTab (rw_ws w) = Some d" "find_tab (Some d) (rw_ws w) = Some t" and c: "c \<noteq> d"
  shows "(\<forall>i r x. i < length (rw_restarts w) \<and> rw_restarts w ! i = (c, r, [x]) \<and> restart_tracked r \<longrightarrow>
        (let s = rw_ws (rollout_do (Restarted i True) w) in
         find_tab (Some c) s = find_tab (Some c) (rw_ws w)
         \<and> (\<exists>t'. find_tab (Some d) s = Some t' \<and> jm_get (followed_in (tab_st t')) (rollout_key r x) = Some (rollout_request r x))))
     \<and> (\<forall>i requests results. i < length (rw_polls w) \<and> rw_polls w ! i = (c, requests) \<longrightarrow>
        (let s = rw_ws (rollout_do (PollAnswered i (Some results)) w) in
         find_tab (Some c) s = find_tab (Some c) (rw_ws w)
         \<and> (\<exists>t'. find_tab (Some d) s = Some t'
              \<and> ts_rolloutStatuses (tab_st t') = Some (fst (fold (poll_result requests) results ([], [], []))))))"
proof -
  have one: "find_tab (Some c) s = find_tab (Some c) (rw_ws w)
      \<and> (\<exists>t'. find_tab (Some d) s = Some t' \<and> jm_get (followed_in (tab_st t')) (rollout_key r x) = Some (rollout_request r x))"
    if i: "i < length (rw_restarts w)" "rw_restarts w ! i = (c, r, [x])" "restart_tracked r"
      and s: "s = rw_ws (rollout_do (Restarted i True) w)" for i r x s
  proof -
    let ?u = "plain_update (\<lambda>st. st\<lparr>ts_rolloutRequests := Some (jm_set (followed_in (tab_st t)) (rollout_key r x) (rollout_request r x))\<rparr>)"
    let ?w = "rollout_asks [DropItems (items_prefix c r)] (w\<lparr>rw_restarts := without i (rw_restarts w)\<rparr>)"
    have "s = updateCurrentTabState ?u (rw_ws w)"
      using i d add_tracking_ws [of d ?w t "rollout_key r x" "rollout_request r x"] by (simp add: s restart_done_def Let_def)
    then show ?thesis using c d by (simp add: update_find [OF ok d(1)] applied_update_def plain_update_def followed_in_def)
  qed
  have two: "find_tab (Some c) s = find_tab (Some c) (rw_ws w) \<and> (\<exists>t'. find_tab (Some d) s = Some t'
      \<and> ts_rolloutStatuses (tab_st t') = Some (fst (fold (poll_result requests) results ([], [], []))))"
    if i: "i < length (rw_polls w)" "rw_polls w ! i = (c, requests)"
      and s: "s = rw_ws (rollout_do (PollAnswered i (Some results)) w)" for i requests results s
  proof -
    have "s = updateCurrentTabState (set_statuses (fst (fold (poll_result requests) results ([], [], [])))) (rw_ws w)"
      using i by (simp add: s poll_answered_def split_beta)
    then show ?thesis using c d by (simp add: update_find [OF ok d(1)] applied_update_def set_statuses_def)
  qed
  show ?thesis using one [OF _ _ _ refl] two [OF _ _ refl] by (simp add: Let_def del: rollout_do.simps)
qed

definition dev_and_prod :: ws where
  "dev_and_prod = ws_init\<lparr>ws_activeTabs := [\<lparr>tab_id = ''dev'', tab_name = ''dev'', tab_st = createInitialTabState\<rparr>,
       \<lparr>tab_id = ''prod'', tab_name = ''prod'', tab_st = createInitialTabState\<rparr>],
     ws_tabIndexMap := [(''dev'', 0), (''prod'', 1)], ws_currentTab := Some ''dev''\<rparr>"

definition web_deployment :: kube_object where
  "web_deployment = \<lparr>it_name = Some ''web'', it_namespace = Some ''ns'', it_uid = None, it_rv = None, ko_metaName = None, ko_metaNamespace = None,
      ko_kind = None, ko_apiVersion = None, ko_metaUid = None, ko_conditions = None, ko_statusConditions = None,
      ko_counts = \<lparr>rc_replicas = None, rc_desiredNumberScheduled = None, rc_statusReplicas = None, rc_readyReplicas = None,
        rc_numberReady = None, rc_updatedReplicas = None, rc_updatedNumberScheduled = None, rc_availableReplicas = None,
        rc_numberAvailable = None\<rparr>,
      ko_isHelmValues = False, ko_helmReleaseName = None, ko_helmReleaseNamespace = None, ko_events = None\<rparr>"

definition deployments :: resource where
  "deployments = mk_resource ''deployments'' ''apps'' ''v1'' ''Deployment'' True"

definition restart_then_switch :: rollout_world where
  "restart_then_switch = rollout_run [Restart ''dev'' deployments [web_deployment], RolloutElsewhere (\<lambda>s. s\<lparr>ws_currentTab := Some ''prod''\<rparr>)]
     \<lparr>rw_ws = dev_and_prod, rw_polling = False, rw_polls = [], rw_removals = [], rw_restarts = [], rw_calls = []\<rparr>"

lemma rollout_answers_go_to_shown_tab_witness:
  "\<exists>t'. find_tab (Some ''prod'') (rw_ws (rollout_do (Restarted 0 True) restart_then_switch)) = Some t'
     \<and> jm_get (followed_in (tab_st t')) ''apps/v1/deployments/ns/web'' = Some (rollout_request deployments web_deployment)"
proof -
  have ok: "ws_ok (rw_ws restart_then_switch)"
    by (simp add: restart_then_switch_def rollout_run_def restart_def rollout_asks_def on_rw_def dev_and_prod_def ws_ok_def ws_wf_def
        current_open_def rebuildTabIndex_def ws_init_def enumerate_eq_zip upt_rec)
  have d: "ws_currentTab (rw_ws restart_then_switch) = Some ''prod''" by code_simp
  obtain t where t: "find_tab (Some ''prod'') (rw_ws restart_then_switch) = Some t"
    using find_tab_none [of "''prod''" "rw_ws restart_then_switch"]
    by (auto simp: restart_then_switch_def rollout_run_def restart_def rollout_asks_def on_rw_def dev_and_prod_def ws_init_def)
  have r: "0 < length (rw_restarts restart_then_switch)" "rw_restarts restart_then_switch ! 0 = (''dev'', deployments, [web_deployment])"
    "restart_tracked deployments" "rollout_key deployments web_deployment = ''apps/v1/deployments/ns/web''" by code_simp+
  have "''dev'' \<noteq> ''prod''" by simp
  note moved = conjunct1 [OF rollout_answers_go_to_shown_tab [OF ok d t this], rule_format, of 0 deployments web_deployment]
  have "0 < length (rw_restarts restart_then_switch) \<and> rw_restarts restart_then_switch ! 0 = (''dev'', deployments, [web_deployment])
      \<and> restart_tracked deployments" using r by blast
  from moved [OF this] show ?thesis unfolding Let_def r(4) by blast
qed

end
