(* ===== verification/Navigation.thy ===== *)
theory Navigation
  imports TreeLoading
begin

text \<open>
  The navigation history, \<open>store/navigationSlice.ts\<close>: clicks are recorded and Back and Forward
  asked for in the order they were made, one request at a time, and what the backend answers
  is shown again.

  \<open>nv_queue\<close> has the actions that wait in the promise chain \<open>pending\<close>, \<open>nv_running\<close> the one under
  way. A restore goes on in stages, one per \<open>await\<close>; it knows the \<open>revision\<close> it started at. The
  queue waits for the restore \<open>i\<close> of \<open>Restoring i\<close>; others were started by a link. What
  lists, details and the tree load for a restore is a call, its writes are steps of other
  components (\<open>NavElsewhere\<close>). \<open>nv_clicks\<close> logs the actions in the order they were asked for.
\<close>

section \<open>State\<close>

record nav_entry =
  ne_type :: string
  ne_path :: string
  ne_resource :: "resource option"
  ne_item :: "kube_object option"
  ne_clusterId :: "string option"
  ne_paneId :: "string option"

type_synonym nav_key = "string option list"

datatype nav_action = RecordEntry nav_entry string | GoBack | GoForward

datatype nav_call =
    AddEntry string nav_entry
  | AskBack
  | AskForward
  | NavLoadList string resource
  | NavLoadDetails string resource kube_object
  | NavExpand string string

datatype nav_running =
    Adding nav_entry
  | Asking string nat
  | Restoring nat

datatype nav_stage =
    TabOpening
  | ListOpening resource "resource option"
  | ListLoading resource string string
  | CategoryExpanding resource string
  | PageExpanding

record nav_restore =
  rt_entry :: nav_entry
  rt_cluster :: string
  rt_startedAt :: nat
  rt_stage :: nav_stage

record nav =
  nv_ws :: ws
  nv_queue :: "nav_action list"
  nv_running :: "nav_running option"
  nv_current :: "nav_key option"
  nv_reveal :: int
  nv_revision :: nat
  nv_restores :: "(nat, nav_restore) jsmap"
  nv_next :: nat
  nv_calls :: "nav_call list"
  nv_clicks :: "nav_action list"

definition page_of :: "nav_entry \<Rightarrow> resource option" where
  "page_of e = jm_get pageResources (ne_type e)"

definition entryKey :: "nav_entry \<Rightarrow> nav_key" where
  "entryKey e =
     (let r = (case page_of e of Some p \<Rightarrow> Some p | None \<Rightarrow> ne_resource e) in
      [ne_clusterId e, Some (str_or (ne_paneId e) ''root''),
       Some (str_or (Option.bind r rr_group) []), Option.bind r rr_version, Option.bind r rr_name,
       Some (if ne_type e = ''item'' then ''resource'' else ne_type e),
       Some (str_or (Option.bind (ne_item e) obj_namespace) []), Some (str_or (Option.bind (ne_item e) obj_name) [])])"

definition on_nv :: "(ws \<Rightarrow> ws) \<Rightarrow> nav \<Rightarrow> nav" where
  "on_nv f w = w\<lparr>nv_ws := f (nv_ws w)\<rparr>"

definition nav_asks :: "nav_call list \<Rightarrow> nav \<Rightarrow> nav" where
  "nav_asks cs w = w\<lparr>nv_calls := nv_calls w @ cs\<rparr>"

section \<open>Restoring\<close>

text \<open>The state of the current tab, and the values \<open>restoreNavigationState\<close> sets in it.\<close>

definition put_tab :: "(tab_state \<Rightarrow> tab_state) \<Rightarrow> nav \<Rightarrow> nav" where
  "put_tab f = on_nv (updateCurrentTabState (plain_update f))"

definition restore_at :: "nat \<Rightarrow> nav_stage \<Rightarrow> nav \<Rightarrow> nav" where
  "restore_at i s w =
     (case jm_get (nv_restores w) i of
        None \<Rightarrow> w
      | Some r \<Rightarrow> w\<lparr>nv_restores := jm_set (nv_restores w) i (r\<lparr>rt_stage := s\<rparr>)\<rparr>)"

definition is_current :: "nav_restore \<Rightarrow> nav \<Rightarrow> bool" where
  "is_current r w \<longleftrightarrow> ws_currentTab (nv_ws w) = Some (rt_cluster r) \<and> nv_revision w = rt_startedAt r"

definition restored_page :: "nav_entry \<Rightarrow> resource option" where
  "restored_page e =
     (case page_of e of
        Some p \<Rightarrow> Some p
      | None \<Rightarrow> Option.bind (Option.bind (ne_resource e) rr_kind) (\<lambda>k. find (\<lambda>p. rr_kind p = Some k) (jm_values pageResources)))"

text \<open>After the cluster's tab is open: the list tab is opened. \<open>None\<close>: the restore is over.\<close>

definition restore_list :: "list_env \<Rightarrow> nat \<Rightarrow> nav_restore \<Rightarrow> nav \<Rightarrow> nav option" where
  "restore_list env i r w =
     (let e = rt_entry r; page = restored_page e in
      case (case page of Some p \<Rightarrow> Some p | None \<Rightarrow> ne_resource e) of
        None \<Rightarrow> None
      | Some res \<Rightarrow>
          if page = None \<and> ne_type e \<noteq> ''resource'' \<and> ne_type e \<noteq> ''item'' then None
          else
            let w1 = (if truthy_str (ne_paneId e) then put_tab (\<lambda>st. st\<lparr>ts_focusedCenterPaneId := ne_paneId e\<rparr>) w else w)
            in Some (restore_at i (ListOpening res page)
                 (on_nv (openResourceListTab env res (rt_cluster r) False (ne_paneId e)) w1)))"

definition reveal_update :: "kube_object list option \<Rightarrow> kube_object option \<Rightarrow> string list option \<Rightarrow> int \<Rightarrow> list_tab_update" where
  "reveal_update items item namespaces n =
     \<lparr>lu_apply = (\<lambda>rt. let rt1 = rt\<lparr>lt_selectedItem := item, lt_navigationReveal := Some n\<rparr>;
          rt2 = (case items of None \<Rightarrow> rt1 | Some l \<Rightarrow> rt1\<lparr>lt_items := l\<rparr>)
        in case namespaces of None \<Rightarrow> rt2 | Some ns \<Rightarrow> rt2\<lparr>lt_selectedNamespaces := ns\<rparr>),
      lu_items = items, lu_selectedItem = Some item\<rparr>"

definition reveal :: "(int \<Rightarrow> list_tab_update) \<Rightarrow> string \<Rightarrow> nav \<Rightarrow> nav" where
  "reveal u tabId w = on_nv (updateResourceListTab tabId (u (nv_reveal w + 1))) (w\<lparr>nv_reveal := nv_reveal w + 1\<rparr>)"

text \<open>A category is toggled when its children are there, else asked for; whether it was asked for.\<close>

definition open_category :: "string \<Rightarrow> string \<Rightarrow> nav \<Rightarrow> bool \<times> nav" where
  "open_category cluster cat w =
     (case Option.bind (getCurrentTabState (nv_ws w)) (\<lambda>st. findNodeById (ts_treeData st) cat) of
        None \<Rightarrow> (False, w)
      | Some n \<Rightarrow>
          if ni_expanded (tn_info n) = Some True then (False, w)
          else if tn_children n \<noteq> None then (False, on_nv (toggleNodeExpansion cat) w)
          else (True, nav_asks [NavExpand cluster cat] w))"

text \<open>A page: its node, an empty panel, and for a Helm release its details.\<close>

definition restore_page :: "list_env \<Rightarrow> nav_restore \<Rightarrow> resource \<Rightarrow> string \<Rightarrow> nav \<Rightarrow> bool \<times> nav" where
  "restore_page env r page tabId w =
     (let e = rt_entry r;
          w1 = (case pageNode (rr_kind page) (Some (rt_cluster r)) of None \<Rightarrow> w | Some n \<Rightarrow> on_nv (selectNode n) w);
          w2 = put_tab (\<lambda>st. st\<lparr>ts_selectedItem := None, ts_detailData := None, ts_activeDetailTab := None,
                 ts_isDetailsPanelCollapsed := True, ts_focusArea := FocusList\<rparr>) w1;
          w3 = reveal (reveal_update None (ne_item e) None) tabId w2
      in if rr_kind page = Some ''ArgoApplicationsOverview'' then open_category (rt_cluster r) ''argocd'' w3
         else if rr_kind page = Some ''HelmReleases'' then
           (False, case ne_item e of
              None \<Rightarrow> w3
            | Some item \<Rightarrow> on_nv (openDetailTab env (Some (no_resource\<lparr>rr_kind := Some ''HelmRelease''\<rparr>)) item (rt_cluster r) False) w3)
         else (False, w3))"

definition restore_end :: "nat \<Rightarrow> nav \<Rightarrow> nav" where
  "restore_end i w = w\<lparr>nv_restores := jm_delete (nv_restores w) i\<rparr>"

definition restored_node :: "nav_entry \<Rightarrow> resource \<Rightarrow> tree_node list \<Rightarrow> string \<times> tree_node" where
  "restored_node e r tree =
     (let name = nullish (rr_name r) [];
          discovered = findTreeResourceNode tree (str_or (rr_group r) []) (nullish (rr_version r) []) name False;
          category = (case find (\<lambda>root. ni_type (tn_info root) = ''category''
                \<and> ((case discovered of None \<Rightarrow> False | Some d \<Rightarrow> findNodeById [root] (tn_id d) \<noteq> None)
                    \<or> starts_with (ne_path e) (tn_id root @ ''-''))) tree of
              Some root \<Rightarrow> if tn_id root \<noteq> [] then tn_id root else getResourceCategory (str_or (rr_group r) []) name
            | None \<Rightarrow> getResourceCategory (str_or (rr_group r) []) name)
      in (category, case discovered of
            Some d \<Rightarrow> d
          | None \<Rightarrow> mk_node (if rr_name r = Some ''events'' \<and> \<not> truthy_str (rr_group r) then ''cluster-events''
                else category @ ''-'' @ str_or (rr_group r) ''core'' @ ''-'' @ in_template (rr_version r) @ ''-'' @ in_template (rr_name r))
              name ''resource'' r))"

text \<open>The list tab is open: a page is shown at once, a list is loaded first.\<close>

definition restore_listed :: "list_env \<Rightarrow> nat \<Rightarrow> nav_restore \<Rightarrow> resource \<Rightarrow> resource option \<Rightarrow> nav \<Rightarrow> nav option" where
  "restore_listed env i r res page w =
     (if \<not> is_current r w then None
      else case getCurrentTabState (nv_ws w) of
             None \<Rightarrow> None
           | Some st \<Rightarrow>
               if \<not> truthy_str (ts_activeResourceListTab st) then None
               else
                 let tabId = the (ts_activeResourceListTab st) in
                 case page of
                   Some p \<Rightarrow>
                     let (asked, w1) = restore_page env r p tabId w in
                     Some (if asked then restore_at i PageExpanding w1 else restore_end i w1)
                 | None \<Rightarrow>
                     let (category, node) = restored_node (rt_entry r) res (ts_treeData st) in
                     Some (restore_at i (ListLoading res tabId category)
                       (nav_asks [NavLoadList (rt_cluster r) res] (on_nv (selectNode node) w))))"

text \<open>The item of an entry, named by its metadata, and the object its details open with.\<close>

definition restored_item :: "nav_entry \<Rightarrow> kube_object option" where
  "restored_item e = map_option (\<lambda>o'. o'\<lparr>it_name := obj_name o', it_namespace := obj_namespace o'\<rparr>) (ne_item e)"

definition restored_detail :: "resource \<Rightarrow> kube_object \<Rightarrow> kube_object" where
  "restored_detail r o' = o'\<lparr>ko_kind := rr_kind r,
     ko_apiVersion := (if truthy_str (rr_group r) then Some (the (rr_group r) @ ''/'' @ in_template (rr_version r)) else rr_version r),
     ko_metaName := it_name o', ko_metaNamespace := it_namespace o'\<rparr>"

definition shown_namespaces :: "kube_object option \<Rightarrow> string list \<Rightarrow> string list" where
  "shown_namespaces item namespaces =
     (case Option.bind item it_namespace of
        Some ns \<Rightarrow> if ns \<noteq> [] \<and> namespaces \<noteq> [] \<and> ns \<notin> set namespaces then [] else namespaces
      | None \<Rightarrow> namespaces)"

definition select_update :: "kube_object option \<Rightarrow> string list \<Rightarrow> tab_update" where
  "select_update item ns =
     \<lparr>tu_apply = (\<lambda>st. st\<lparr>ts_selectedItem := item, ts_selectedNamespaces := Some ns,
          ts_selectedNamespace := (case ns of [] \<Rightarrow> ''all'' | n # _ \<Rightarrow> if n = [] then ''all'' else n),
          ts_focusArea := FocusList, ts_detailData := None, ts_activeDetailTab := None,
          ts_isDetailsPanelCollapsed := (item = None)\<rparr>),
      tu_rolloutStatuses = None,
      tu_selectedNamespace = Some (case ns of [] \<Rightarrow> ''all'' | n # _ \<Rightarrow> if n = [] then ''all'' else n),
      tu_selectedNamespaces = Some ns\<rparr>"

definition show_restored :: "list_env \<Rightarrow> nav_restore \<Rightarrow> resource \<Rightarrow> string \<Rightarrow> tab_state \<Rightarrow> list_tab \<Rightarrow> nav \<Rightarrow> nav" where
  "show_restored env r res tabId st lst w =
     (let item = restored_item (rt_entry r);
          ns = shown_namespaces item (lt_selectedNamespaces lst);
          w1 = on_nv (updateCurrentTabState (select_update item ns))
                 (reveal (reveal_update (Some (ts_listItems st)) item (Some ns)) tabId w);
          w2 = (case item of
              None \<Rightarrow> w1
            | Some o' \<Rightarrow> nav_asks [NavLoadDetails (rt_cluster r) res o']
                (on_nv (openDetailTab env (Some res) (restored_detail res o') (rt_cluster r) False) w1))
      in on_nv (emit [StartRealtime True]) w2)"

definition open_group :: "resource \<Rightarrow> string \<Rightarrow> nav \<Rightarrow> nav" where
  "open_group res category w =
     (let groupId = category @ ''-'' @ in_template (rr_group res) @ ''-'' @ in_template (rr_version res) in
      if category \<in> {''crossplane'', ''custom''}
         \<and> \<not> (case getCurrentTabState (nv_ws w) of None \<Rightarrow> False | Some st \<Rightarrow> groupId \<in> set (ts_expandedNodes st))
      then on_nv (toggleNodeExpansion groupId) w else w)"

definition restore_loaded :: "list_env \<Rightarrow> nat \<Rightarrow> nav_restore \<Rightarrow> resource \<Rightarrow> string \<Rightarrow> string \<Rightarrow> nav \<Rightarrow> nav option" where
  "restore_loaded env i r res tabId category w =
     (if \<not> is_current r w then None
      else case getCurrentTabState (nv_ws w) of
             None \<Rightarrow> None
           | Some st \<Rightarrow>
               (case find (\<lambda>t. lt_id t = tabId) (ts_resourceListTabs st) of
                  None \<Rightarrow> None
                | Some lst \<Rightarrow>
                    let (asked, w1) = open_category (rt_cluster r) category (show_restored env r res tabId st lst w) in
                    if asked then Some (restore_at i (CategoryExpanding res category) w1)
                    else Some (restore_end i (if is_current r w1 then open_group res category w1 else w1))))"

definition restore_expanded :: "nat \<Rightarrow> nav_restore \<Rightarrow> resource \<Rightarrow> string \<Rightarrow> nav \<Rightarrow> nav option" where
  "restore_expanded i r res category w =
     (if \<not> is_current r w then None
      else Some (restore_end i (open_group res category w)))"

text \<open>What the restore awaited has come; \<open>None\<close> of the above ends it without a write.\<close>

definition restore_go :: "list_env \<Rightarrow> nat \<Rightarrow> nav_restore \<Rightarrow> nav \<Rightarrow> nav" where
  "restore_go env i r w =
     nullish
       (case rt_stage r of
          TabOpening \<Rightarrow> if nv_revision w \<noteq> rt_startedAt r then None else restore_list env i r w
        | ListOpening res page \<Rightarrow> restore_listed env i r res page w
        | ListLoading res tabId category \<Rightarrow> restore_loaded env i r res tabId category w
        | CategoryExpanding res category \<Rightarrow> restore_expanded i r res category w
        | PageExpanding \<Rightarrow> None)
       (restore_end i w)"

text \<open>\<open>restoreNavigationState\<close> up to its first \<open>await\<close>.\<close>

definition restoreNavigationState :: "list_env \<Rightarrow> nav_entry \<Rightarrow> nav \<Rightarrow> nav" where
  "restoreNavigationState env e w =
     (let cluster = (if truthy_str (ne_clusterId e) then ne_clusterId e else ws_currentTab (nv_ws w)) in
      if \<not> truthy_str cluster then w
      else
        let c = the cluster; i = nv_next w; rev = nv_revision w + 1;
            r = \<lparr>rt_entry = e, rt_cluster = c, rt_startedAt = rev, rt_stage = TabOpening\<rparr>;
            w1 = w\<lparr>nv_revision := rev, nv_next := i + 1, nv_restores := jm_set (nv_restores w) i r\<rparr>
        in if find_tab (Some c) (nv_ws w) = None then on_nv (openTab env c False) w1
           else
             let w2 = (if ws_currentTab (nv_ws w) \<noteq> Some c then on_nv (setCurrentTab (Some c) False) w1 else w1)
             in nullish (restore_list env i r w2) (restore_end i w2))"

section \<open>The queue\<close>

text \<open>An action starts when the ones before it are over; one that asks for nothing is over at once.\<close>

fun nav_start :: "nav_action list \<Rightarrow> nav \<Rightarrow> nav" where
  "nav_start [] w = w\<lparr>nv_queue := [], nv_running := None\<rparr>"
| "nav_start (RecordEntry e c # q) w =
     (if nv_current w = Some (entryKey e) then nav_start q w
      else nav_asks [AddEntry c e] (w\<lparr>nv_queue := q, nv_running := Some (Adding e)\<rparr>))"
| "nav_start (a # q) w =
     (case ws_currentTab (nv_ws w) of
        None \<Rightarrow> nav_start q w
      | Some c \<Rightarrow>
          if c = [] then nav_start q w
          else nav_asks [if a = GoBack then AskBack else AskForward] (w\<lparr>nv_queue := q, nv_running := Some (Asking c (nv_revision w))\<rparr>))"

definition nav_enqueue :: "nav_action \<Rightarrow> nav \<Rightarrow> nav" where
  "nav_enqueue a w =
     (let w1 = w\<lparr>nv_clicks := nv_clicks w @ [a]\<rparr> in
      if nv_running w = None then nav_start (nv_queue w @ [a]) w1 else w1\<lparr>nv_queue := nv_queue w @ [a]\<rparr>)"

definition nav_next :: "nav \<Rightarrow> nav" where
  "nav_next w = nav_start (nv_queue w) w"

definition recordNavigation :: "string \<Rightarrow> string \<Rightarrow> resource option \<Rightarrow> kube_object option \<Rightarrow> nav \<Rightarrow> nav" where
  "recordNavigation ty path r item w =
     (case ws_currentTab (nv_ws w) of
        None \<Rightarrow> w
      | Some c \<Rightarrow>
          if c = [] then w
          else
            let pane = str_or (Option.bind (getCurrentTabState (nv_ws w)) ts_focusedCenterPaneId) ''root'' in
            nav_enqueue (RecordEntry \<lparr>ne_type = ty, ne_path = path, ne_resource = r, ne_item = item, ne_clusterId = Some c,
                ne_paneId = Some pane\<rparr> c) (w\<lparr>nv_revision := nv_revision w + 1\<rparr>))"

definition recordCurrentNavigation :: "nav \<Rightarrow> nav" where
  "recordCurrentNavigation w =
     (case getCurrentTabState (nv_ws w) of
        None \<Rightarrow> w
      | Some st \<Rightarrow>
          let inPane = Option.bind (Option.bind (ts_activeByPane st) (\<lambda>m. jm_get m (str_or (ts_focusedCenterPaneId st) ''root''))) (\<lambda>x. x);
              tabId = opt_or inPane (ts_activeResourceListTab st);
              tab = find (\<lambda>t. Some (lt_id t) = tabId) (ts_resourceListTabs st);
              node = (case tab of
                  None \<Rightarrow> None
                | Some t \<Rightarrow>
                    (case pageNode (rr_kind (lt_resource t)) (ws_currentTab (nv_ws w)) of
                       Some n \<Rightarrow> Some n
                     | None \<Rightarrow> Some (mk_node (case ts_selectedNode st of None \<Rightarrow> [] | Some n \<Rightarrow> tn_id n) [] ''resource'' (lt_resource t))));
              selected = (case node of Some n \<Rightarrow> Some n | None \<Rightarrow> ts_selectedNode st)
          in case selected of
               None \<Rightarrow> w
             | Some n \<Rightarrow>
                 recordNavigation (ni_type (tn_info n)) (tn_id n)
                   (case tab of Some t \<Rightarrow> Some (lt_resource t) | None \<Rightarrow> ni_data (tn_info n))
                   (Option.bind tab lt_selectedItem) w)"

text \<open>The backend answered the request under way; a failed one leaves the history as it is.\<close>

definition nav_answered :: "list_env \<Rightarrow> nav_entry option option \<Rightarrow> nav \<Rightarrow> nav" where
  "nav_answered env ans w =
     (case nv_running w of
        Some (Adding e) \<Rightarrow> nav_next (if ans = None then w else w\<lparr>nv_current := Some (entryKey e)\<rparr>)
      | Some (Asking c startedAt) \<Rightarrow>
          (case Option.bind ans (\<lambda>x. x) of
             None \<Rightarrow> nav_next w
           | Some e \<Rightarrow>
               let w1 = w\<lparr>nv_current := Some (entryKey e)\<rparr> in
               if ws_currentTab (nv_ws w) = Some c \<and> nv_revision w = startedAt
               then
                 let w2 = restoreNavigationState env e w1 in
                 if jm_has (nv_restores w2) (nv_next w1) then w2\<lparr>nv_running := Some (Restoring (nv_next w1))\<rparr> else nav_next w2
               else nav_next w1)
      | _ \<Rightarrow> w)"

text \<open>A restore goes on; the queue goes on when the restore it waits for is over.\<close>

definition restore_came :: "list_env \<Rightarrow> nat \<Rightarrow> nav \<Rightarrow> nav" where
  "restore_came env i w =
     (case jm_get (nv_restores w) i of
        None \<Rightarrow> w
      | Some r \<Rightarrow>
          let w1 = restore_go env i r w in
          if nv_running w1 = Some (Restoring i) \<and> \<not> jm_has (nv_restores w1) i then nav_next w1 else w1)"

section \<open>Sessions\<close>

datatype nav_event =
    RecordClick string string "resource option" "kube_object option"
  | RecordCurrent
  | Back
  | Forward
  | FollowLink nav_entry
  | NavAnswered "nav_entry option option"
  | RestoreGo nat
  | NavElsewhere "ws \<Rightarrow> ws"

fun nav_do :: "list_env \<Rightarrow> nav_event \<Rightarrow> nav \<Rightarrow> nav" where
  "nav_do env (RecordClick ty path r item) w = recordNavigation ty path r item w"
| "nav_do env RecordCurrent w = recordCurrentNavigation w"
| "nav_do env Back w = nav_enqueue GoBack w"
| "nav_do env Forward w = nav_enqueue GoForward w"
| "nav_do env (FollowLink e) w = restoreNavigationState env e w"
| "nav_do env (NavAnswered ans) w = nav_answered env ans w"
| "nav_do env (RestoreGo i) w = restore_came env i w"
| "nav_do env (NavElsewhere f) w = on_nv f w"

definition nav_run :: "list_env \<Rightarrow> nav_event list \<Rightarrow> nav \<Rightarrow> nav" where
  "nav_run env evs w = foldl (\<lambda>w ev. nav_do env ev w) w evs"

definition new_nav :: "ws \<Rightarrow> nav" where
  "new_nav s = \<lparr>nv_ws = s, nv_queue = [], nv_running = None, nv_current = None, nv_reveal = 0, nv_revision = 0, nv_restores = [],
     nv_next = 0, nv_calls = [], nv_clicks = []\<rparr>"

end
