(* ===== verification/NavigationProps.thy ===== *)
theory NavigationProps
  imports Navigation
begin

text \<open>
  The history's requests are made one at a time and in the order of the clicks, and a restore
  that is overtaken by a click writes nothing more.
\<close>

section \<open>What a restore leaves alone\<close>

fun is_history :: "nav_call \<Rightarrow> bool" where
  "is_history (AddEntry c e) = True"
| "is_history AskBack = True"
| "is_history AskForward = True"
| "is_history _ = False"

definition requests :: "nav \<Rightarrow> nav_call list" where
  "requests w = filter is_history (nv_calls w)"

definition same_start :: "nav_restore option \<Rightarrow> nav_restore option \<Rightarrow> bool" where
  "same_start r r' = (case r' of None \<Rightarrow> True | Some x \<Rightarrow> map_option rt_startedAt r = Some (rt_startedAt x))"

lemma same_start_refl [simp]: "same_start r r"
  by (simp add: same_start_def split: option.split)

lemma same_start_trans: "same_start r r' \<Longrightarrow> same_start r' r'' \<Longrightarrow> same_start r r''"
  by (auto simp: same_start_def split: option.splits)

definition nframe :: "nat \<Rightarrow> nav \<Rightarrow> nav \<Rightarrow> bool" where
  "nframe i w w' \<longleftrightarrow> nv_queue w' = nv_queue w \<and> nv_running w' = nv_running w \<and> nv_clicks w' = nv_clicks w
     \<and> nv_current w' = nv_current w \<and> nv_revision w' = nv_revision w \<and> nv_next w' = nv_next w \<and> requests w' = requests w
     \<and> (\<forall>j. j \<noteq> i \<longrightarrow> jm_get (nv_restores w') j = jm_get (nv_restores w) j)
     \<and> same_start (jm_get (nv_restores w) i) (jm_get (nv_restores w') i)"

lemma nframe_refl [simp]: "nframe i w w"
  by (simp add: nframe_def)

lemma nframe_trans: "nframe i w w' \<Longrightarrow> nframe i w' w'' \<Longrightarrow> nframe i w w''"
  using same_start_trans by (auto simp: nframe_def)

lemma nframe_on [simp]: "nframe i w (on_nv f w)" "nframe i w (put_tab g w)" "nframe i w (reveal u tabId w)"
  by (simp_all add: nframe_def on_nv_def put_tab_def reveal_def requests_def)

lemma nframe_asks: "list_all (\<lambda>k. \<not> is_history k) cs \<Longrightarrow> nframe i w (nav_asks cs w)"
  by (simp add: nframe_def nav_asks_def requests_def list_all_iff)

lemma nframe_at: "nframe i w (restore_at i s w)"
  by (simp add: nframe_def restore_at_def requests_def same_start_def split: option.split)

lemma nframe_end: "nframe i w (restore_end i w)"
  by (simp add: nframe_def restore_end_def requests_def same_start_def)

lemma nframe_category: "nframe i w (snd (open_category c cat w))"
  by (simp add: open_category_def nframe_asks split: option.split)

lemma nframe_list: "restore_list env i r w = Some w' \<Longrightarrow> nframe i w w'"
proof -
  assume a: "restore_list env i r w = Some w'"
  have "nframe i w (restore_at i s (on_nv f v))" if "nframe i w v" for s f v
    by (rule nframe_trans [OF that nframe_trans [OF nframe_on(1) nframe_at]])
  then show ?thesis using a by (auto simp: restore_list_def Let_def split: option.splits if_split_asm)
qed

lemma nframe_page: "nframe i w (snd (restore_page env r page tabId w))"
proof -
  have steps: "nframe i w (reveal u tabId (put_tab f v))" "nframe i w (snd (open_category c cat v))" "nframe i w (on_nv g v)"
    if "nframe i w v" for u f v c cat g
    by (rule nframe_trans [OF nframe_trans [OF that nframe_on(2)] nframe_on(3)], rule nframe_trans [OF that nframe_category],
        rule nframe_trans [OF that nframe_on(1)])
  show ?thesis by (simp add: restore_page_def Let_def steps split: option.split)
qed

lemma nframe_listed: "restore_listed env i r res page w = Some w' \<Longrightarrow> nframe i w w'"
proof -
  assume a: "restore_listed env i r res page w = Some w'"
  have p: "nframe i w (restore_at i s (snd (restore_page env r q t w)))" "nframe i w (restore_end i (snd (restore_page env r q t w)))" for s q t
    by (rule nframe_trans [OF nframe_page nframe_at], rule nframe_trans [OF nframe_page nframe_end])
  have l: "nframe i w (restore_at i s (nav_asks [NavLoadList c res] (on_nv f w)))" for s c f
    by (rule nframe_trans [OF nframe_on(1) nframe_trans [OF nframe_asks nframe_at]]) simp
  show ?thesis using a p l by (auto simp: restore_listed_def Let_def split_beta split: option.splits if_split_asm)
qed

lemma nframe_show: "nframe i w (show_restored env r res tabId st lst w)"
proof -
  have w1: "nframe i w (on_nv f (reveal u tabId w))" for f u by (rule nframe_trans [OF nframe_on(3) nframe_on(1)])
  have "nframe i w (nav_asks [NavLoadDetails c res' x] (on_nv g (on_nv f (reveal u tabId w))))" for c res' x g f u
    by (rule nframe_trans [OF w1 nframe_trans [OF nframe_on(1) nframe_asks]]) simp
  then show ?thesis
    using nframe_trans [OF w1 nframe_on(1)] nframe_trans [OF _ nframe_on(1)] by (simp add: show_restored_def Let_def split: option.split)
qed

lemma nframe_group: "nframe i w (open_group res category w)"
  by (simp add: open_group_def Let_def)

lemma nframe_loaded: "restore_loaded env i r res tabId category w = Some w' \<Longrightarrow> nframe i w w'"
proof -
  assume a: "restore_loaded env i r res tabId category w = Some w'"
  have s: "nframe i w (snd (open_category c cat (show_restored env r res tabId st lst w)))" for c cat st lst
    by (rule nframe_trans [OF nframe_show nframe_category])
  have "nframe i w (restore_at i x (snd (open_category c cat (show_restored env r res tabId st lst w))))"
    "nframe i w (restore_end i (open_group res category (snd (open_category c cat (show_restored env r res tabId st lst w)))))"
    "nframe i w (restore_end i (snd (open_category c cat (show_restored env r res tabId st lst w))))" for x c cat st lst
    by (rule nframe_trans [OF s nframe_at], rule nframe_trans [OF s nframe_trans [OF nframe_group nframe_end]], rule nframe_trans [OF s nframe_end])
  then show ?thesis using a by (auto simp: restore_loaded_def Let_def split_beta split: option.splits if_split_asm)
qed

lemma nframe_go: "nframe i w (restore_go env i r w)"
proof -
  have e: "nframe i w (restore_end i (open_group res category w))" for res category
    by (rule nframe_trans [OF nframe_group nframe_end])
  have n: "nframe i w (nullish x (restore_end i w))" if "\<And>w'. x = Some w' \<Longrightarrow> nframe i w w'" for x
    using that nframe_end by (cases x) simp_all
  show ?thesis unfolding restore_go_def
    by (rule n) (auto simp: restore_expanded_def e intro: nframe_list nframe_listed nframe_loaded split: nav_stage.splits if_split_asm)
qed

section \<open>The queue\<close>

definition call_of :: "nav_action \<Rightarrow> nav_call" where
  "call_of a = (case a of RecordEntry e c \<Rightarrow> AddEntry c e | GoBack \<Rightarrow> AskBack | GoForward \<Rightarrow> AskForward)"

text \<open>The clicks up to the queue, and the requests made for them.\<close>

definition queue_ok :: "nav \<Rightarrow> bool" where
  "queue_ok w \<longleftrightarrow> (\<exists>started. nv_clicks w = started @ nv_queue w \<and> subseq (requests w) (map call_of started))
     \<and> (nv_running w = None \<longrightarrow> nv_queue w = [])
     \<and> (\<forall>e. nv_running w = Some (Adding e) \<longrightarrow> nv_current w \<noteq> Some (entryKey e))"

definition restores_ok :: "nav \<Rightarrow> bool" where
  "restores_ok w \<longleftrightarrow> (\<forall>i r. jm_get (nv_restores w) i = Some r \<longrightarrow> i < nv_next w \<and> rt_startedAt r \<le> nv_revision w)
     \<and> (\<forall>i. nv_running w = Some (Restoring i) \<longrightarrow> jm_has (nv_restores w) i)"

lemma start_same [simp]:
  "nv_ws (nav_start q w) = nv_ws w" "nv_clicks (nav_start q w) = nv_clicks w" "nv_restores (nav_start q w) = nv_restores w"
  "nv_next (nav_start q w) = nv_next w" "nv_revision (nav_start q w) = nv_revision w" "nv_current (nav_start q w) = nv_current w"
  by (induction q w rule: nav_start.induct) (auto simp: nav_asks_def split: option.split)

lemma start_running: "nv_running (nav_start q w) \<noteq> Some (Restoring i)"
  by (induction q w rule: nav_start.induct) (auto simp: nav_asks_def split: option.split)

lemma start_queue_ok:
  "nv_clicks w = started @ q \<Longrightarrow> subseq (requests w) (map call_of started) \<Longrightarrow> queue_ok (nav_start q w)"
proof (induction q arbitrary: w started)
  case Nil
  then show ?case by (auto simp: queue_ok_def requests_def)
next
  case (Cons a q)
  have skip: "queue_ok (nav_start q w)"
  proof (rule Cons.IH)
    show "nv_clicks w = (started @ [a]) @ q" using Cons.prems by simp
    show "subseq (requests w) (map call_of (started @ [a]))" using Cons.prems(2) by (simp add: subseq_rev_drop_many)
  qed
  have ask: "queue_ok (nav_asks [call_of a] (w\<lparr>nv_queue := q, nv_running := Some k\<rparr>))"
    if "\<And>e. k = Adding e \<Longrightarrow> nv_current w \<noteq> Some (entryKey e)" for k
  proof -
    have h: "is_history (call_of a)" by (simp add: call_of_def split: nav_action.split)
    have "subseq (requests w @ [call_of a]) (map call_of (started @ [a]))"
      using list_emb_append_mono [OF Cons.prems(2), of "[call_of a]" "[call_of a]"] by simp
    moreover have "nv_clicks w = (started @ [a]) @ q" using Cons.prems by simp
    ultimately show ?thesis using that h unfolding queue_ok_def
      by (intro conjI exI [of _ "started @ [a]"]) (auto simp: nav_asks_def requests_def)
  qed
  have asking: "queue_ok (nav_asks [call_of a] (w\<lparr>nv_queue := q, nv_running := Some (Asking c n)\<rparr>))" for c n
    by (rule ask) simp
  show ?case
  proof (cases a)
    case (RecordEntry e c)
    then show ?thesis using skip ask [of "Adding e"] by (simp add: call_of_def)
  next
    case GoBack
    then show ?thesis using skip asking by (simp add: call_of_def split: option.split)
  next
    case GoForward
    then show ?thesis using skip asking by (simp add: call_of_def split: option.split)
  qed
qed

lemma queue_ok_next: "queue_ok w \<Longrightarrow> queue_ok (nav_next w)"
  using start_queue_ok [of w _ "nv_queue w"] by (auto simp: queue_ok_def nav_next_def)

lemma queue_ok_frame: "queue_ok w \<Longrightarrow> nframe i w w' \<Longrightarrow> queue_ok w'"
  by (simp add: queue_ok_def nframe_def)

lemma queue_ok_answer: "queue_ok w \<Longrightarrow> queue_ok (nav_next (w\<lparr>nv_current := k\<rparr>))"
proof -
  assume "queue_ok w"
  then obtain started where "nv_clicks w = started @ nv_queue w" "subseq (requests w) (map call_of started)"
    by (auto simp: queue_ok_def)
  then show ?thesis using start_queue_ok [of "w\<lparr>nv_current := k\<rparr>" started "nv_queue w"] by (simp add: nav_next_def requests_def)
qed

lemma queue_ok_enqueue: "queue_ok w \<Longrightarrow> queue_ok (nav_enqueue a w)"
proof -
  assume q: "queue_ok w"
  then obtain started where s: "nv_clicks w = started @ nv_queue w" "subseq (requests w) (map call_of started)"
    by (auto simp: queue_ok_def)
  show ?thesis
  proof (cases "nv_running w")
    case None
    show ?thesis
      using start_queue_ok [of "w\<lparr>nv_clicks := nv_clicks w @ [a]\<rparr>" started "nv_queue w @ [a]"] s None
      by (simp add: nav_enqueue_def Let_def requests_def)
  next
    case (Some k)
    then show ?thesis using q s unfolding queue_ok_def nav_enqueue_def Let_def
      by (simp add: requests_def)
  qed
qed

section \<open>Restores over a session\<close>

lemma restores_ok_frame:
  assumes r: "restores_ok w" and f: "nframe i w w'" and running: "nv_running w \<noteq> Some (Restoring i) \<or> jm_has (nv_restores w') i"
  shows "restores_ok w'"
proof -
  have "j < nv_next w \<and> rt_startedAt x \<le> nv_revision w" if j: "jm_get (nv_restores w') j = Some x" for j x
  proof (cases "j = i")
    case True
    with f j obtain y where "jm_get (nv_restores w) i = Some y" "rt_startedAt y = rt_startedAt x"
      by (auto simp: nframe_def same_start_def)
    then show ?thesis using r True by (metis restores_ok_def)
  next
    case False
    then have "jm_get (nv_restores w) j = Some x" using f j by (simp add: nframe_def)
    then show ?thesis using r by (simp add: restores_ok_def)
  qed
  moreover have "jm_has (nv_restores w') j" if "nv_running w = Some (Restoring j)" for j
    using that r f running by (cases "j = i") (auto simp: restores_ok_def nframe_def jm_has_get)
  ultimately show ?thesis using f by (simp add: restores_ok_def nframe_def)
qed

lemma restores_ok_start: "restores_ok w \<Longrightarrow> restores_ok (nav_start q w)"
  unfolding restores_ok_def using start_running by auto

lemma restores_ok_idle:
  "(\<And>i r. jm_get (nv_restores w) i = Some r \<Longrightarrow> i < nv_next w \<and> rt_startedAt r \<le> nv_revision w) \<Longrightarrow> restores_ok (nav_start q w)"
  unfolding restores_ok_def using start_running by auto

lemma restores_ok_at: "restores_ok w \<Longrightarrow> jm_get (nv_restores w) i = Some r \<Longrightarrow> i < nv_next w \<and> rt_startedAt r \<le> nv_revision w"
  by (simp add: restores_ok_def)

text \<open>A new restore: it has the number that was free and the newest revision.\<close>

definition started_restore :: "nav \<Rightarrow> nav \<Rightarrow> bool" where
  "started_restore w w' \<longleftrightarrow> nv_queue w' = nv_queue w \<and> nv_running w' = nv_running w \<and> nv_clicks w' = nv_clicks w
     \<and> nv_current w' = nv_current w \<and> requests w' = requests w
     \<and> (w' = w \<or> nv_revision w' = nv_revision w + 1 \<and> nv_next w' = nv_next w + 1
        \<and> (\<forall>j. j \<noteq> nv_next w \<longrightarrow> jm_get (nv_restores w') j = jm_get (nv_restores w) j)
        \<and> (\<forall>x. jm_get (nv_restores w') (nv_next w) = Some x \<longrightarrow> rt_startedAt x = nv_revision w + 1))"

lemma restore_starts: "started_restore w (restoreNavigationState env e w)"
proof -
  let ?i = "nv_next w"
  let ?r = "\<lambda>c. \<lparr>rt_entry = e, rt_cluster = c, rt_startedAt = nv_revision w + 1, rt_stage = TabOpening\<rparr>"
  let ?w1 = "\<lambda>c. w\<lparr>nv_revision := nv_revision w + 1, nv_next := ?i + 1, nv_restores := jm_set (nv_restores w) ?i (?r c)\<rparr>"
  have starts: "started_restore w w'" if f: "nframe ?i (?w1 c) w'" for c w'
  proof -
    have "rt_startedAt x = nv_revision w + 1" if "jm_get (nv_restores w') ?i = Some x" for x
      using f that by (auto simp: nframe_def same_start_def)
    moreover have "jm_get (nv_restores w') j = jm_get (nv_restores w) j" if "j \<noteq> ?i" for j using f that by (simp add: nframe_def)
    ultimately show ?thesis using f by (simp add: started_restore_def nframe_def requests_def)
  qed
  have whole: "started_restore w (nullish (restore_list env ?i (?r c) v) (restore_end ?i v))" if v: "nframe ?i (?w1 c) v" for c v
  proof (rule starts [of c])
    show "nframe ?i (?w1 c) (nullish (restore_list env ?i (?r c) v) (restore_end ?i v))"
      using nframe_trans [OF v nframe_list, of env "?r c"] nframe_trans [OF v nframe_end]
      by (cases "restore_list env ?i (?r c) v") (simp_all only: nullish_def option.case)
  qed
  have moved: "started_restore w (on_nv f (?w1 c))" for f c by (rule starts [of c]) simp
  have none: "started_restore w w" by (simp add: started_restore_def)
  show ?thesis
    unfolding restoreNavigationState_def Let_def
    by (rule none | rule moved | rule whole | rule nframe_refl | rule nframe_on(1) | intro conjI impI | split if_split)+
qed

text \<open>What every step leaves of a restore that was started before it.\<close>

definition later :: "nat \<Rightarrow> nav \<Rightarrow> nav \<Rightarrow> bool" where
  "later i w w' \<longleftrightarrow> nv_revision w \<le> nv_revision w' \<and> nv_next w \<le> nv_next w'
     \<and> (i < nv_next w \<longrightarrow> same_start (jm_get (nv_restores w) i) (jm_get (nv_restores w') i))"

lemma later_refl [simp]: "later i w w"
  by (simp add: later_def)

lemma later_trans: "later i w w' \<Longrightarrow> later i w' w'' \<Longrightarrow> later i w w''"
  unfolding later_def using same_start_trans by fastforce

lemma later_frame: "nframe j w w' \<Longrightarrow> later i w w'"
  by (cases "i = j") (auto simp: nframe_def later_def)

lemma later_started: "started_restore w w' \<Longrightarrow> later i w w'"
  by (auto simp: started_restore_def later_def)

lemma later_same:
  "nv_revision w \<le> nv_revision w' \<Longrightarrow> nv_next w' = nv_next w \<Longrightarrow> nv_restores w' = nv_restores w \<Longrightarrow> later i w w'"
  by (simp add: later_def)

lemma later_enqueue: "later i w (nav_enqueue a w)"
  by (rule later_same) (simp_all add: nav_enqueue_def Let_def)

lemma later_next: "later i w (nav_next w)"
  by (rule later_same) (simp_all add: nav_next_def)

lemma later_record: "later i w (recordNavigation ty path r item w)"
proof -
  have "later i w (nav_enqueue a (w\<lparr>nv_revision := nv_revision w + 1\<rparr>))" for a
    by (rule later_trans [OF later_same later_enqueue]) simp_all
  then show ?thesis by (simp add: recordNavigation_def Let_def split: option.split)
qed

lemma later_current: "later i w (recordCurrentNavigation w)"
  by (simp add: recordCurrentNavigation_def Let_def later_record split: option.split)

lemma later_answered: "later i w (nav_answered env ans w)"
proof -
  have set: "later i w (w\<lparr>nv_current := k\<rparr>)" for k by (rule later_same) simp_all
  have next_set: "later i w (nav_next (w\<lparr>nv_current := k\<rparr>))" for k by (rule later_trans [OF set later_next])
  have restored: "later i w (restoreNavigationState env e (w\<lparr>nv_current := k\<rparr>))" for e k
    by (rule later_trans [OF set later_started [OF restore_starts]])
  have waits: "later i w ((restoreNavigationState env e (w\<lparr>nv_current := k\<rparr>))\<lparr>nv_running := u\<rparr>)" for e k u
    by (rule later_trans [OF restored later_same]) simp_all
  show ?thesis
    unfolding nav_answered_def Let_def
    by (simp add: next_set later_next later_trans [OF restored later_next] waits split: option.split nav_running.split)
qed

lemma later_came: "later i w (restore_came env j w)"
  using later_frame [OF nframe_go] later_trans [OF later_frame [OF nframe_go] later_next]
  by (simp add: restore_came_def Let_def split: option.split)

lemma later_do: "later i w (nav_do env ev w)"
  by (cases ev)
    (simp_all add: later_record later_current later_enqueue later_started [OF restore_starts] later_answered later_came
      later_frame [OF nframe_on(1)])

lemma later_run: "later i w (nav_run env evs w)"
proof (induction evs arbitrary: w)
  case (Cons ev evs)
  then show ?case using later_trans [OF later_do Cons.IH] by (simp add: nav_run_def)
qed (simp add: nav_run_def)

section \<open>What every session keeps\<close>

lemma history_same:
  assumes "queue_ok w" "nv_queue w' = nv_queue w" "nv_clicks w' = nv_clicks w" "requests w' = requests w"
    "nv_current w' = nv_current w" "nv_running w' = nv_running w"
  shows "queue_ok w'"
  using assms by (simp add: queue_ok_def)

lemma queue_ok_record: "queue_ok w \<Longrightarrow> queue_ok (recordNavigation ty path r item w)"
proof -
  assume q: "queue_ok w"
  have "queue_ok (nav_enqueue a (w\<lparr>nv_revision := nv_revision w + 1\<rparr>))" for a
    by (rule queue_ok_enqueue, rule history_same [OF q]) (simp_all add: requests_def)
  then show ?thesis using q by (simp add: recordNavigation_def Let_def split: option.split)
qed

lemma queue_ok_waits:
  assumes q: "queue_ok w" and s: "started_restore (w\<lparr>nv_current := k\<rparr>) w'"
  shows "queue_ok (w'\<lparr>nv_running := Some (Restoring j)\<rparr>)"
  using q s unfolding queue_ok_def started_restore_def requests_def by simp

lemma queue_ok_next_started:
  assumes q: "queue_ok w" and s: "started_restore (w\<lparr>nv_current := k\<rparr>) w'"
  shows "queue_ok (nav_next w')"
proof -
  obtain started where "nv_clicks w = started @ nv_queue w" "subseq (requests w) (map call_of started)"
    using q by (auto simp: queue_ok_def)
  moreover have "requests (w\<lparr>nv_current := k\<rparr>) = requests w" by (simp add: requests_def)
  ultimately show ?thesis
    using start_queue_ok [of w' started "nv_queue w'"] s by (simp add: nav_next_def started_restore_def)
qed

lemma queue_ok_answered: "queue_ok w \<Longrightarrow> queue_ok (nav_answered env ans w)"
  unfolding nav_answered_def Let_def
  by (simp add: queue_ok_answer queue_ok_next queue_ok_waits [OF _ restore_starts] queue_ok_next_started [OF _ restore_starts]
      split: option.split nav_running.split)

lemma queue_ok_came: "queue_ok w \<Longrightarrow> queue_ok (restore_came env i w)"
  using queue_ok_frame [OF _ nframe_go] queue_ok_next [OF queue_ok_frame [OF _ nframe_go]]
  by (simp add: restore_came_def Let_def split: option.split)

lemma queue_ok_started: "queue_ok w \<Longrightarrow> started_restore w w' \<Longrightarrow> queue_ok w'"
  by (erule history_same) (simp_all add: started_restore_def)

lemma queue_ok_do: "queue_ok w \<Longrightarrow> queue_ok (nav_do env ev w)"
  by (cases ev)
    (simp_all add: queue_ok_record queue_ok_enqueue queue_ok_started [OF _ restore_starts] queue_ok_answered queue_ok_came
      queue_ok_frame [OF _ nframe_on(1)] recordCurrentNavigation_def Let_def split: option.split)

definition restores_at :: "nav \<Rightarrow> bool" where
  "restores_at w \<longleftrightarrow> (\<forall>i r. jm_get (nv_restores w) i = Some r \<longrightarrow> i < nv_next w \<and> rt_startedAt r \<le> nv_revision w)"

lemma restores_ok_iff: "restores_ok w \<longleftrightarrow> restores_at w \<and> (\<forall>i. nv_running w = Some (Restoring i) \<longrightarrow> jm_has (nv_restores w) i)"
  by (simp add: restores_ok_def restores_at_def)

lemma restores_at_start: "restores_at w \<Longrightarrow> restores_ok (nav_start q w)"
  by (simp add: restores_ok_iff restores_at_def start_running)

lemma restores_at_frame: "restores_at w \<Longrightarrow> nframe i w w' \<Longrightarrow> restores_at w'"
  using restores_ok_frame [of "w\<lparr>nv_running := None\<rparr>" i "w'\<lparr>nv_running := None\<rparr>"]
  by (simp add: restores_ok_def restores_at_def nframe_def requests_def)

lemma restores_at_started:
  assumes r: "restores_at w" and s: "started_restore w w'"
  shows "restores_at w'"
proof (cases "w' = w")
  case False
  have "i < nv_next w' \<and> rt_startedAt x \<le> nv_revision w'" if x: "jm_get (nv_restores w') i = Some x" for i x
  proof (cases "i = nv_next w")
    case True
    then show ?thesis using s False x by (simp add: started_restore_def)
  next
    case False
    then have "jm_get (nv_restores w) i = Some x" using s x unfolding started_restore_def by (cases "w' = w") simp_all
    then show ?thesis using r s \<open>w' \<noteq> w\<close> unfolding restores_at_def started_restore_def by fastforce
  qed
  then show ?thesis by (simp add: restores_at_def)
qed (use r in simp)

lemma restores_ok_same:
  assumes "restores_ok w" "nv_running w' = nv_running w" "nv_restores w' = nv_restores w" "nv_next w' = nv_next w"
    "nv_revision w \<le> nv_revision w'"
  shows "restores_ok w'"
  using assms unfolding restores_ok_def by fastforce

lemma restores_ok_enqueue: "restores_ok w \<Longrightarrow> restores_ok (nav_enqueue a w)"
proof -
  assume r: "restores_ok w"
  then have "restores_at (w\<lparr>nv_clicks := nv_clicks w @ [a]\<rparr>)" by (simp add: restores_ok_iff restores_at_def)
  moreover have "restores_ok (w\<lparr>nv_clicks := nv_clicks w @ [a], nv_queue := nv_queue w @ [a]\<rparr>)"
    by (rule restores_ok_same [OF r]) simp_all
  ultimately show ?thesis by (simp add: nav_enqueue_def Let_def restores_at_start)
qed

lemma restores_ok_record: "restores_ok w \<Longrightarrow> restores_ok (recordNavigation ty path r item w)"
proof -
  assume r: "restores_ok w"
  have "restores_ok (nav_enqueue a (w\<lparr>nv_revision := nv_revision w + 1\<rparr>))" for a
    by (rule restores_ok_enqueue, rule restores_ok_same [OF r]) simp_all
  then show ?thesis using r by (simp add: recordNavigation_def Let_def split: option.split)
qed

lemma restores_at_next: "restores_at w \<Longrightarrow> restores_ok (nav_next w)"
  by (simp add: nav_next_def restores_at_start)

lemma restores_ok_answered: "restores_ok w \<Longrightarrow> restores_ok (nav_answered env ans w)"
proof -
  assume r: "restores_ok w"
  then have a: "restores_at w" by (simp add: restores_ok_iff)
  have set: "restores_at (w\<lparr>nv_current := k\<rparr>)" for k using a by (simp add: restores_at_def)
  have restored: "restores_at (restoreNavigationState env e (w\<lparr>nv_current := k\<rparr>))" for e k
    by (rule restores_at_started [OF set restore_starts])
  have waits: "restores_ok ((restoreNavigationState env e (w\<lparr>nv_current := k\<rparr>))\<lparr>nv_running := Some (Restoring j)\<rparr>)"
    if "jm_has (nv_restores (restoreNavigationState env e (w\<lparr>nv_current := k\<rparr>))) j" for e k j
    using restored [of e k] that by (simp add: restores_ok_iff restores_at_def)
  show ?thesis unfolding nav_answered_def Let_def
    by (simp add: r restores_at_next a set restored waits split: option.split nav_running.split)
qed

lemma restores_ok_came: "restores_ok w \<Longrightarrow> restores_ok (restore_came env i w)"
proof -
  assume r: "restores_ok w"
  have "restores_ok (restore_go env i x w)"
    if "nv_running (restore_go env i x w) \<noteq> Some (Restoring i) \<or> jm_has (nv_restores (restore_go env i x w)) i" for x
    using that restores_ok_frame [OF r nframe_go] nframe_go [of i w env x] by (simp add: nframe_def)
  moreover have "restores_at (restore_go env i x w)" for x using r restores_at_frame [OF _ nframe_go] by (simp add: restores_ok_iff)
  ultimately show ?thesis using r by (simp add: restore_came_def Let_def restores_at_next split: option.split)
qed

lemma restores_ok_started: 
  assumes r: "restores_ok w" and s: "started_restore w w'"
  shows "restores_ok w'"
proof -
  have "jm_has (nv_restores w') j" if run: "nv_running w' = Some (Restoring j)" for j
  proof -
    have h: "jm_has (nv_restores w) j" using r s run by (simp add: restores_ok_iff started_restore_def)
    then have "j < nv_next w" using r by (auto simp: restores_ok_def jm_has_get)
    then show ?thesis using h s unfolding started_restore_def by (cases "w' = w") (simp_all add: jm_has_get)
  qed
  moreover have "restores_at w'" using r restores_at_started [OF _ s] by (simp add: restores_ok_iff)
  ultimately show ?thesis by (simp add: restores_ok_iff)
qed

lemma restores_ok_do: "restores_ok w \<Longrightarrow> restores_ok (nav_do env ev w)"
proof -
  assume r: "restores_ok w"
  have "restores_ok (on_nv f w)" for f by (rule restores_ok_same [OF r]) (simp_all add: on_nv_def)
  then show ?thesis using r
    by (cases ev)
      (simp_all add: restores_ok_record restores_ok_enqueue restores_ok_started [OF _ restore_starts] restores_ok_answered restores_ok_came
        recordCurrentNavigation_def Let_def split: option.split)
qed

lemma session_ok:
  assumes "queue_ok w" "restores_ok w"
  shows "queue_ok (nav_run env evs w) \<and> restores_ok (nav_run env evs w)"
  using assms
proof (induction evs arbitrary: w)
  case (Cons ev evs)
  then show ?case using Cons.IH [OF queue_ok_do restores_ok_do] by (simp add: nav_run_def)
qed (simp add: nav_run_def)

lemma new_session_ok: "queue_ok (nav_run env evs (new_nav s)) \<and> restores_ok (nav_run env evs (new_nav s))"
  by (rule session_ok) (simp_all add: queue_ok_def restores_ok_def new_nav_def requests_def)

lemma overtaken_go: "nv_revision w \<noteq> rt_startedAt r \<Longrightarrow> restore_go env i r w = restore_end i w"
  by (simp add: restore_go_def nullish_def restore_listed_def restore_loaded_def restore_expanded_def is_current_def split: nav_stage.split)

lemma overtaken_came:
  assumes "\<And>r. jm_get (nv_restores w) i = Some r \<Longrightarrow> rt_startedAt r < nv_revision w"
  shows "nv_ws (restore_came env i w) = nv_ws w \<and> \<not> jm_has (nv_restores (restore_came env i w)) i"
proof (cases "jm_get (nv_restores w) i")
  case None
  then show ?thesis by (simp add: restore_came_def jm_has_get)
next
  case (Some r)
  then show ?thesis using assms [OF Some] by (simp add: restore_came_def Let_def overtaken_go restore_end_def nav_next_def)
qed

text \<open>A click makes the restores that are under way older than the newest revision.\<close>

lemma click_newer: "nv_revision w + 1 \<le> nv_revision (recordNavigation ty path r item w)"
  if "truthy_str (ws_currentTab (nv_ws w))"
  using that by (cases "ws_currentTab (nv_ws w)") (simp_all add: recordNavigation_def Let_def nav_enqueue_def)

section \<open>Properties\<close>

definition plain_env :: list_env where
  "plain_env = \<lparr>le_live = (\<lambda>_. None), le_copy = (\<lambda>_. False), le_cache = [], le_now = 0\<rparr>"

definition dev_shown :: ws where
  "dev_shown = openTab plain_env ''dev'' False ws_init"

definition prod_pods :: nav_entry where
  "prod_pods = \<lparr>ne_type = ''resource'', ne_path = ''workloads-core-v1-pods'', ne_resource = Some (mk_resource ''pods'' [] ''v1'' ''Pod'' True),
     ne_item = None, ne_clusterId = Some ''prod'', ne_paneId = None\<rparr>"


text \<open>A click while the answer to Back is restored, and another.\<close>

definition clicks_while_back :: "nav_event list" where
  "clicks_while_back = [RecordClick ''overview'' ''cluster-overview'' None None, NavAnswered (Some None), Back,
     NavAnswered (Some (Some prod_pods)), RecordClick ''resource'' ''workloads-core-v1-pods'' (ne_resource prod_pods) None, Forward]"


text \<open>C37: A click overtakes the restores that are under way. When what such a restore waits for
  comes, however much later, it changes nothing of the workspace and is over.\<close>

theorem newer_click_stops_restores:
  assumes w: "w = nav_run env evs (new_nav s)" and i: "jm_has (nv_restores w) i"
    and c: "truthy_str (ws_currentTab (nv_ws w))" and click: "click = RecordClick ty path r item"
    and w': "w' = nav_run env evs' (nav_do env click w)"
  shows "nv_ws (nav_do env (RestoreGo i) w') = nv_ws w' \<and> \<not> jm_has (nv_restores (nav_do env (RestoreGo i) w')) i"
proof -
  obtain x where x: "jm_get (nv_restores w) i = Some x" using i by (auto simp: jm_has_get)
  have ok: "i < nv_next w" "rt_startedAt x \<le> nv_revision w" using new_session_ok [of env evs s] x by (simp_all add: w restores_ok_at)
  have l: "later i w w'" using later_trans [OF later_do later_run] by (simp only: w')
  have "nv_revision w < nv_revision w'"
    using click_newer [OF c] later_run [of i "nav_do env click w" env evs'] by (simp add: w' click later_def) (metis Suc_le_eq order_trans)
  moreover have "rt_startedAt y = rt_startedAt x" if "jm_get (nv_restores w') i = Some y" for y
    using l ok(1) x that by (simp add: later_def same_start_def)
  ultimately show ?thesis using overtaken_came [of w' i env] ok(2) by fastforce
qed

lemma newer_click_stops_restores_witness:
  "let w = nav_run plain_env [FollowLink prod_pods] (new_nav dev_shown);
       w' = nav_run plain_env [] (nav_do plain_env (RecordClick ''overview'' ''cluster-overview'' None None) w) in
     jm_has (nv_restores w') 0 \<and> nv_ws (nav_do plain_env (RestoreGo 0) w') = nv_ws w'
     \<and> \<not> jm_has (nv_restores (nav_do plain_env (RestoreGo 0) w')) 0"
proof -
  let ?w = "nav_run plain_env [FollowLink prod_pods] (new_nav dev_shown)"
  let ?w' = "nav_run plain_env [] (nav_do plain_env (RecordClick ''overview'' ''cluster-overview'' None None) ?w)"
  have i: "jm_has (nv_restores ?w) 0" by code_simp
  have c: "truthy_str (ws_currentTab (nv_ws ?w))" by code_simp
  have "jm_has (nv_restores ?w') 0" by code_simp
  then show ?thesis using newer_click_stops_restores [OF refl i c refl refl, where evs' = "[]"] by (simp only: Let_def) blast
qed

end
