(* ===== verification/RealtimeSpec.thy ===== *)
theory RealtimeSpec
  imports RealtimeReducer
begin

text \<open>
  What the reducer promises, stated on an insertion-ordered map from keys to rows: a
  deleted event removes its key, any other row event sets its key unless it is older than
  the row shown, and a sync that closes a whole listing removes every key the listing did
  not deliver and no event touched since the listing began. The refinement
  \<open>applyRealtimeEvents_refines\<close> says that the index, the slots and the compaction of
  \<open>realtimeReducer.ts\<close> implement exactly this.
\<close>

record 'i spec_state =
  sp_session :: "'i session"
  sp_rows :: "(string, 'i) jsmap"
  sp_changed :: bool
  sp_completedEpoch :: "int option"
  sp_syncSeen :: bool
  sp_incomplete :: bool
  sp_failure :: "sync_failure option"
  sp_gone :: "'i list"

definition unseen :: "string list \<Rightarrow> nat \<Rightarrow> 'i session \<Rightarrow> string \<Rightarrow> bool" where
  "unseen seen started s key = (key \<notin> set seen \<and> nullish (jm_get (rs_touch s) key) 0 < started)"

definition spec_prune :: "string list \<Rightarrow> nat \<Rightarrow> 'i spec_state \<Rightarrow> 'i spec_state" where
  "spec_prune seen started sp =
     (let gone = filter (\<lambda>(k, x). unseen seen started (sp_session sp) k) (sp_rows sp) in
      sp\<lparr>sp_rows := filter (\<lambda>(k, x). \<not> unseen seen started (sp_session sp) k) (sp_rows sp),
         sp_gone := sp_gone sp @ map snd gone,
         sp_changed := (sp_changed sp \<or> gone \<noteq> [])\<rparr>)"

definition spec_sync :: "'i rt_event \<Rightarrow> 'i spec_state \<Rightarrow> 'i spec_state" where
  "spec_sync ev sp =
     (if ev_failed ev
      then sp\<lparr>sp_failure := Some \<lparr>sf_error = ev_error ev, sf_errorCode = ev_errorCode ev,
                                  sf_lastSyncAt = ev_lastSyncAt ev\<rparr>\<rparr>
      else
        let sp1 = sp\<lparr>sp_syncSeen := True, sp_failure := None, sp_incomplete := False\<rparr>;
            e = num_or (ev_epoch ev) 0;
            s = sp_session sp1
        in if e > 0
           then
             let seen = nullish (jm_get (rs_epochSeen s) e) [];
                 started = nullish (jm_get (rs_epochStart s) e) (rs_seq s + 1);
                 complete = (case ev_itemCount ev of None \<Rightarrow> True | Some n \<Rightarrow> int (length seen) \<ge> n);
                 sp2 = (if complete
                        then (spec_prune seen started sp1)\<lparr>sp_completedEpoch := Some e\<rparr>
                        else sp1\<lparr>sp_incomplete := True\<rparr>)
             in sp2\<lparr>sp_session := drop_epochs e (sp_session sp2)\<rparr>
           else sp1)"

definition spec_touch :: "string \<Rightarrow> 'i spec_state \<Rightarrow> 'i spec_state" where
  "spec_touch key sp =
     (let s = sp_session sp in sp\<lparr>sp_session := s\<lparr>rs_touch := jm_set (rs_touch s) key (rs_seq s)\<rparr>\<rparr>)"

definition spec_item ::
  "'a item_scheme rt_event \<Rightarrow> 'a item_scheme \<Rightarrow> 'a item_scheme spec_state \<Rightarrow> 'a item_scheme spec_state" where
  "spec_item ev item sp0 =
     (let key = itemKey item;
          s1 = (sp_session sp0)\<lparr>rs_seq := Suc (rs_seq (sp_session sp0))\<rparr>;
          sp = sp0\<lparr>sp_session := note_epoch (ev_epoch ev) key s1\<rparr>;
          prev = jm_get (sp_rows sp) key
      in if ev_action ev = Deleted
         then (case prev of
                 None \<Rightarrow> sp
               | Some pr \<Rightarrow>
                   if uids_differ item pr then sp
                   else spec_touch key (sp\<lparr>sp_rows := jm_delete (sp_rows sp) key, sp_changed := True\<rparr>))
         else if (case prev of None \<Rightarrow> False | Some pr \<Rightarrow> \<not> uids_differ item pr \<and> stale_version pr item)
         then spec_touch key sp
         else spec_touch key (sp\<lparr>sp_rows := jm_set (sp_rows sp) key item, sp_changed := True\<rparr>))"

definition spec_event ::
  "'a item_scheme rt_event \<Rightarrow> 'a item_scheme spec_state \<Rightarrow> 'a item_scheme spec_state" where
  "spec_event ev sp =
     (if ev_action ev = Sync then spec_sync ev sp
      else case ev_item ev of
             None \<Rightarrow> sp
           | Some item \<Rightarrow> if truthy_str (it_name item) then spec_item ev item sp else sp)"

definition spec_events ::
  "'a item_scheme rt_event list \<Rightarrow> 'a item_scheme spec_state \<Rightarrow> 'a item_scheme spec_state" where
  "spec_events evs sp = foldl (\<lambda>sp ev. spec_event ev sp) sp evs"

definition spec_init :: "'i session \<Rightarrow> (string, 'i) jsmap \<Rightarrow> 'i spec_state" where
  "spec_init s rows =
     \<lparr>sp_session = s, sp_rows = rows, sp_changed = False, sp_completedEpoch = None,
      sp_syncSeen = False, sp_incomplete = False, sp_failure = None, sp_gone = []\<rparr>"

definition abs_batch :: "'a item_scheme batch_state \<Rightarrow> 'a item_scheme spec_state" where
  "abs_batch st =
     \<lparr>sp_session = as_session st, sp_rows = rows_of (slot_items (as_slots st)),
      sp_changed = as_changed st, sp_completedEpoch = as_completedEpoch st,
      sp_syncSeen = as_syncSeen st, sp_incomplete = as_incomplete st,
      sp_failure = as_failure st, sp_gone = as_byListing st\<rparr>"

section \<open>The bookkeeping stays consistent\<close>

lemma note_epoch_frame [simp]:
  "rs_touch (note_epoch ep key s) = rs_touch s" "rs_seq (note_epoch ep key s) = rs_seq s"
  by (simp_all add: note_epoch_def Let_def)

lemma books_wf_seq [simp]: "books_wf (s\<lparr>rs_seq := n\<rparr>) = books_wf s"
  by (simp add: books_wf_def)

lemma books_wf_index [simp]:
  "books_wf (s\<lparr>rs_index := i\<rparr>) = books_wf s" "books_wf (s\<lparr>rs_items := xs\<rparr>) = books_wf s"
  by (simp_all add: books_wf_def)

lemma books_wf_touch [simp, intro]: "books_wf s \<Longrightarrow> books_wf (s\<lparr>rs_touch := jm_set (rs_touch s) k v\<rparr>)"
  by (simp add: books_wf_def)

lemma jm_has_same_keys: "jm_keys m = jm_keys m' \<Longrightarrow> jm_has m k = jm_has m' k"
  by (simp add: jm_has_def)

lemma books_wf_note_epoch [simp, intro]:
  assumes "books_wf s"
  shows "books_wf (note_epoch ep key s)"
proof -
  have k: "jm_keys (rs_epochStart s) = jm_keys (rs_epochSeen s)"
    and w: "jm_wf (rs_touch s)" "jm_wf (rs_epochSeen s)"
    using assms by (auto simp: books_wf_def)
  have h: "jm_has (rs_epochStart s) e = jm_has (rs_epochSeen s) e" for e
    using k by (rule jm_has_same_keys)
  show ?thesis
    using k w h by (auto simp: note_epoch_def books_wf_def jm_keys_set Let_def)
qed

lemma drop_epochs_fold:
  fixes s :: "'i session"
  assumes "books_wf s" "jm_keys (rs_epochSeen s) = jm_keys (rs_epochStart s)"
  shows "\<exists>seen start. foldl (\<lambda>s k. if k \<le> e
                  then s\<lparr>rs_epochSeen := jm_delete (rs_epochSeen s) k,
                         rs_epochStart := jm_delete (rs_epochStart s) k\<rparr>
                  else s) s ks = s\<lparr>rs_epochSeen := seen, rs_epochStart := start\<rparr>
     \<and> seen = filter (\<lambda>p. \<not> (fst p \<le> e \<and> fst p \<in> set ks)) (rs_epochSeen s)
     \<and> start = filter (\<lambda>p. \<not> (fst p \<le> e \<and> fst p \<in> set ks)) (rs_epochStart s)"
proof (induction ks arbitrary: s)
  case Nil
  show ?case by (auto intro!: exI [of _ "rs_epochSeen s"] exI [of _ "rs_epochStart s"])
next
  case (Cons k ks)
  show ?case
  proof (cases "k \<le> e")
    case True
    let ?s = "s\<lparr>rs_epochSeen := jm_delete (rs_epochSeen s) k, rs_epochStart := jm_delete (rs_epochStart s) k\<rparr>"
    have eq: "filter (\<lambda>p. \<not> (fst p \<le> e \<and> fst p \<in> set ks)) (jm_delete m k)
        = filter (\<lambda>p. \<not> (fst p \<le> e \<and> fst p \<in> set (k # ks))) m" for m :: "(int \<times> 'z) list"
      using True by (auto simp: jm_delete_def intro!: filter_cong)
    show ?thesis using Cons.IH [of ?s] True by (simp add: eq del: de_Morgan_conj set_simps)
  next
    case False
    have eq: "filter (\<lambda>p. \<not> (fst p \<le> e \<and> fst p \<in> set ks)) m
        = filter (\<lambda>p. \<not> (fst p \<le> e \<and> fst p \<in> set (k # ks))) m" for m :: "(int \<times> 'z) list"
      using False by (auto intro!: filter_cong)
    show ?thesis using Cons.IH [of s] False by (simp add: eq del: de_Morgan_conj set_simps)
  qed
qed

lemma drop_epochs_eq:
  assumes "books_wf s"
  shows "drop_epochs e s = s\<lparr>rs_epochSeen := filter (\<lambda>p. \<not> fst p \<le> e) (rs_epochSeen s),
                             rs_epochStart := filter (\<lambda>p. \<not> fst p \<le> e) (rs_epochStart s)\<rparr>"
proof -
  have k: "jm_keys (rs_epochSeen s) = jm_keys (rs_epochStart s)"
    using assms by (simp add: books_wf_def)
  have f: "filter (\<lambda>p. \<not> (fst p \<le> e \<and> fst p \<in> set (jm_keys (rs_epochSeen s)))) m = filter (\<lambda>p. \<not> fst p \<le> e) m"
    if "jm_keys m = jm_keys (rs_epochSeen s)" for m :: "(int, 'z) jsmap"
  proof (rule filter_cong)
    fix p
    assume "p \<in> set m"
    then have "fst p \<in> set (jm_keys m)" by (simp add: jm_keys_def)
    then show "(\<not> (fst p \<le> e \<and> fst p \<in> set (jm_keys (rs_epochSeen s)))) = (\<not> fst p \<le> e)"
      by (simp add: that)
  qed simp
  have "drop_epochs e s = s\<lparr>
      rs_epochSeen := filter (\<lambda>p. \<not> (fst p \<le> e \<and> fst p \<in> set (jm_keys (rs_epochSeen s)))) (rs_epochSeen s),
      rs_epochStart := filter (\<lambda>p. \<not> (fst p \<le> e \<and> fst p \<in> set (jm_keys (rs_epochSeen s)))) (rs_epochStart s)\<rparr>"
    using drop_epochs_fold [OF assms k, of e "jm_keys (rs_epochSeen s)"]
    by (auto simp: drop_epochs_def simp del: de_Morgan_conj)
  then show ?thesis by (simp only: f [OF refl] f [OF k [symmetric]])
qed

lemma books_wf_drop_epochs [simp, intro]: "books_wf s \<Longrightarrow> books_wf (drop_epochs e s)"
  by (auto simp: drop_epochs_eq books_wf_def jm_wf_def jm_keys_filter [of "\<lambda>k. \<not> k \<le> e"])

section \<open>Single operations\<close>

lemma count_update:
  "p < length sl \<Longrightarrow> sl ! p = Some x \<Longrightarrow>
     length (filter (\<lambda>x. x = None) (sl[p := None])) = Suc (length (filter (\<lambda>x. x = None) sl))"
  by (induction sl arbitrary: p) (auto simp: nth_Cons split: nat.splits)

lemma count_update_some:
  "p < length sl \<Longrightarrow> sl ! p = Some x \<Longrightarrow>
     length (filter (\<lambda>x. x = None) (sl[p := Some y])) = length (filter (\<lambda>x. x = None) sl)"
  by (induction sl arbitrary: p) (auto simp: nth_Cons split: nat.splits)

lemma batch_slot:
  assumes "batch_wf st" "jm_get (as_index st) key = Some p"
  obtains x where "p < length (as_slots st)" "as_slots st ! p = Some x" "itemKey x = key"
    "slot_at st p = Some x" "jm_get (rows_of (slot_items (as_slots st))) key = Some x"
proof -
  have g: "jm_get (slot_index 0 (as_slots st)) key = Some p"
    using assms by (simp add: batch_wf_def)
  with slot_index_get [OF g] rows_get_slot [OF g] that show thesis
    by (fastforce simp: slot_at_def nth_opt_def)
qed

lemma batch_no_slot:
  "batch_wf st \<Longrightarrow> jm_get (as_index st) key = None \<Longrightarrow> jm_get (rows_of (slot_items (as_slots st))) key = None"
  by (simp add: batch_wf_def slot_index_none jm_get_rows_none)

lemma remove_slot_refines:
  assumes wf: "batch_wf st" and g: "jm_get (as_index st) key = Some pos"
  shows "batch_wf (remove_slot key pos st)"
    and "abs_batch (remove_slot key pos st) = (abs_batch st)\<lparr>sp_rows := jm_delete (sp_rows (abs_batch st)) key\<rparr>"
proof -
  obtain x where x: "pos < length (as_slots st)" "as_slots st ! pos = Some x"
    using batch_slot [OF wf g] by blast
  have d: "distinct (map itemKey (slot_items (as_slots st)))" and i: "as_index st = slot_index 0 (as_slots st)"
    using wf by (auto simp: batch_wf_def)
  have del: "slot_index 0 ((as_slots st)[pos := None]) = jm_delete (as_index st) key"
    "rows_of (slot_items ((as_slots st)[pos := None])) = jm_delete (rows_of (slot_items (as_slots st))) key"
    using slot_index_delete [of 0 "as_slots st" key pos] g d by (auto simp: i)
  have "distinct (map itemKey (slot_items ((as_slots st)[pos := None])))"
    using del(2) d by (metis jm_wf_delete jm_wf_rows)
  then show "batch_wf (remove_slot key pos st)"
    using wf del(1) count_update [OF x] by (auto simp: batch_wf_def remove_slot_def)
  show "abs_batch (remove_slot key pos st) = (abs_batch st)\<lparr>sp_rows := jm_delete (sp_rows (abs_batch st)) key\<rparr>"
    using del(2) by (simp add: abs_batch_def remove_slot_def)
qed

lemma put_slot_refines:
  assumes wf: "batch_wf st"
  shows "batch_wf (put_slot (itemKey x) (jm_get (as_index st) (itemKey x)) x st)"
    and "abs_batch (put_slot (itemKey x) (jm_get (as_index st) (itemKey x)) x st)
       = (abs_batch st)\<lparr>sp_rows := jm_set (sp_rows (abs_batch st)) (itemKey x) x\<rparr>"
proof -
  have d: "distinct (map itemKey (slot_items (as_slots st)))" and i: "as_index st = slot_index 0 (as_slots st)"
    and b: "books_wf (as_session st)" "as_removed st = length (filter (\<lambda>x. x = None) (as_slots st))"
    using wf by (auto simp: batch_wf_def)
  let ?p = "jm_get (as_index st) (itemKey x)"
  have "batch_wf (put_slot (itemKey x) ?p x st) \<and>
     rows_of (slot_items (as_slots (put_slot (itemKey x) ?p x st)))
       = jm_set (rows_of (slot_items (as_slots st))) (itemKey x) x"
  proof (cases ?p)
    case None
    then have new: "itemKey x \<notin> itemKey ` set (slot_items (as_slots st))"
      by (simp add: i slot_index_none)
    then have "\<not> jm_has (rows_of (slot_items (as_slots st))) (itemKey x)"
      "\<not> jm_has (as_index st) (itemKey x)" by (simp_all add: jm_has_def i)
    with None new d b show ?thesis
      by (auto simp: put_slot_def batch_wf_def jm_set_new slot_index_append i)
  next
    case (Some p)
    obtain y where y: "p < length (as_slots st)" "as_slots st ! p = Some y"
      using batch_slot [OF wf Some] by blast
    have r: "slot_index 0 ((as_slots st)[p := Some x]) = as_index st"
      "rows_of (slot_items ((as_slots st)[p := Some x])) = jm_set (rows_of (slot_items (as_slots st))) (itemKey x) x"
      using slot_index_replace [of 0 "as_slots st" x p] Some by (auto simp: i)
    then have "distinct (map itemKey (slot_items ((as_slots st)[p := Some x])))"
      using d by (metis jm_wf_rows jm_wf_set)
    with Some r b count_update_some [OF y] show ?thesis
      by (auto simp: put_slot_def batch_wf_def)
  qed
  then show "batch_wf (put_slot (itemKey x) ?p x st)"
    "abs_batch (put_slot (itemKey x) ?p x st) = (abs_batch st)\<lparr>sp_rows := jm_set (sp_rows (abs_batch st)) (itemKey x) x\<rparr>"
    by (simp_all add: abs_batch_def put_slot_def split: option.splits)
qed

text \<open>Updates that leave the slots and the index alone.\<close>

lemma batch_wf_frame [simp]:
  "batch_wf (st\<lparr>as_changed := c\<rparr>) = batch_wf st"
  "batch_wf (st\<lparr>as_completedEpoch := e\<rparr>) = batch_wf st"
  "batch_wf (st\<lparr>as_syncSeen := c\<rparr>) = batch_wf st"
  "batch_wf (st\<lparr>as_incomplete := c\<rparr>) = batch_wf st"
  "batch_wf (st\<lparr>as_failure := f\<rparr>) = batch_wf st"
  "batch_wf (st\<lparr>as_byListing := xs\<rparr>) = batch_wf st"
  by (simp_all add: batch_wf_def)

lemma batch_wf_session [simp, intro]:
  "batch_wf st \<Longrightarrow> books_wf s \<Longrightarrow> batch_wf (st\<lparr>as_session := s\<rparr>)"
  by (simp add: batch_wf_def)

lemma batch_wf_books: "batch_wf st \<Longrightarrow> books_wf (as_session st)"
  by (simp add: batch_wf_def)

lemma touch_key_refines:
  "batch_wf st \<Longrightarrow> batch_wf (touch_key key st)"
  "abs_batch (touch_key key st) = spec_touch key (abs_batch st)"
  by (simp_all add: touch_key_def spec_touch_def abs_batch_def Let_def batch_wf_books)


section \<open>A completed listing\<close>

lemma abs_batch_frame [simp]:
  "abs_batch (st\<lparr>as_changed := c\<rparr>) = (abs_batch st)\<lparr>sp_changed := c\<rparr>"
  "abs_batch (st\<lparr>as_completedEpoch := e\<rparr>) = (abs_batch st)\<lparr>sp_completedEpoch := e\<rparr>"
  "abs_batch (st\<lparr>as_syncSeen := c\<rparr>) = (abs_batch st)\<lparr>sp_syncSeen := c\<rparr>"
  "abs_batch (st\<lparr>as_incomplete := c\<rparr>) = (abs_batch st)\<lparr>sp_incomplete := c\<rparr>"
  "abs_batch (st\<lparr>as_failure := f\<rparr>) = (abs_batch st)\<lparr>sp_failure := f\<rparr>"
  "abs_batch (st\<lparr>as_byListing := xs\<rparr>) = (abs_batch st)\<lparr>sp_gone := xs\<rparr>"
  "abs_batch (st\<lparr>as_session := s\<rparr>) = (abs_batch st)\<lparr>sp_session := s\<rparr>"
  by (simp_all add: abs_batch_def)

lemma abs_batch_fields [simp]:
  "sp_session (abs_batch st) = as_session st" "sp_changed (abs_batch st) = as_changed st"
  "sp_gone (abs_batch st) = as_byListing st"
  "sp_rows (abs_batch st) = rows_of (slot_items (as_slots st))"
  by (simp_all add: abs_batch_def)

text \<open>
  The loop removes from \<open>ps\<close>, a part of the index, the keys that \<open>Q\<close> selects; every key of
  \<open>ps\<close> not yet visited is still where the index says.
\<close>

lemma prune_unseen_refines:
  assumes "batch_wf st" "distinct (map fst ps)"
    and "\<forall>(k, p) \<in> set ps. jm_get (as_index st) k = Some p"
  shows "batch_wf (prune_unseen ps seen started st)
     \<and> as_session (prune_unseen ps seen started st) = as_session st
     \<and> abs_batch (prune_unseen ps seen started st) =
        (let Q = unseen seen started (as_session st);
             gone = filter (\<lambda>(k, p). Q k) ps in
         (abs_batch st)\<lparr>sp_rows := filter (\<lambda>(k, x). \<not> (k \<in> fst ` set ps \<and> Q k)) (sp_rows (abs_batch st)),
            sp_gone := sp_gone (abs_batch st) @ map (\<lambda>(k, p). the (jm_get (sp_rows (abs_batch st)) k)) gone,
            sp_changed := (sp_changed (abs_batch st) \<or> gone \<noteq> [])\<rparr>)"
  using assms
proof (induction ps seen started st rule: prune_unseen.induct)
  case (1 seen started st)
  then show ?case by (simp add: abs_batch_def)
next
  case (2 key pos ps seen started st)
  let ?Q = "unseen seen started (as_session st)"
  have g: "jm_get (as_index st) key = Some pos" using "2.prems"(3) by simp
  have nk: "key \<notin> fst ` set ps" using "2.prems"(2) by simp
  show ?case
  proof (cases "?Q key")
    case False
    then have e: "prune_key seen started key pos st = st"
      by (auto simp: prune_key_def unseen_def)
    have f: "filter (\<lambda>(k, x). \<not> (k \<in> fst ` set ((key, pos) # ps) \<and> ?Q k)) rows
        = filter (\<lambda>(k, x). \<not> (k \<in> fst ` set ps \<and> ?Q k)) rows" for rows :: "(string \<times> 'a item_scheme) list"
      using False by (auto intro!: filter_cong)
    have idx: "\<forall>(k, p) \<in> set ps. jm_get (as_index st) k = Some p" using "2.prems"(3) by simp
    have g2: "filter (\<lambda>(k, p). ?Q k) ((key, pos) # ps) = filter (\<lambda>(k, p). ?Q k) ps"
      using False by simp
    show ?thesis
      using "2.IH" [unfolded e, OF "2.prems"(1) _ idx] "2.prems"(2)
      unfolding prune_unseen.simps e Let_def f g2 by simp
  next
    case True
    obtain x where x: "slot_at st pos = Some x" "jm_get (rows_of (slot_items (as_slots st))) key = Some x"
      using batch_slot [OF "2.prems"(1) g] by blast
    define st1 where "st1 = st\<lparr>as_byListing := as_byListing st @ [x]\<rparr>"
    define st2 where "st2 = (remove_slot key pos st1)\<lparr>as_changed := True\<rparr>"
    have wf1: "batch_wf st1" and g1: "jm_get (as_index st1) key = Some pos"
      using "2.prems"(1) g by (simp_all add: st1_def)
    have wf2: "batch_wf st2" using remove_slot_refines(1) [OF wf1 g1] by (simp add: st2_def)
    have abs2: "abs_batch st2 = (abs_batch st)\<lparr>sp_gone := as_byListing st @ [x],
        sp_rows := jm_delete (rows_of (slot_items (as_slots st))) key, sp_changed := True\<rparr>"
      using remove_slot_refines(2) [OF wf1 g1] by (simp add: st2_def st1_def)
    have sess2: "as_session st2 = as_session st" by (simp add: st2_def st1_def remove_slot_def)
    have idx2: "\<forall>(k, p) \<in> set ps. jm_get (as_index st2) k = Some p"
      using "2.prems"(3) nk by (force simp: st2_def st1_def remove_slot_def)
    have e: "prune_key seen started key pos st = st2"
      using True x(1) by (auto simp: prune_key_def unseen_def st2_def st1_def)
    then have step: "prune_unseen ((key, pos) # ps) seen started st = prune_unseen ps seen started st2"
      by simp
    have IH: "batch_wf (prune_unseen ps seen started st2)
       \<and> as_session (prune_unseen ps seen started st2) = as_session st2
       \<and> abs_batch (prune_unseen ps seen started st2) =
        (let Q = unseen seen started (as_session st2); gone = filter (\<lambda>(k, p). Q k) ps in
         (abs_batch st2)\<lparr>sp_rows := filter (\<lambda>(k, x). \<not> (k \<in> fst ` set ps \<and> Q k)) (sp_rows (abs_batch st2)),
            sp_gone := sp_gone (abs_batch st2) @ map (\<lambda>(k, p). the (jm_get (sp_rows (abs_batch st2)) k)) gone,
            sp_changed := (sp_changed (abs_batch st2) \<or> gone \<noteq> [])\<rparr>)"
      using "2.IH" [unfolded e] wf2 idx2 "2.prems"(2) by simp
    have rows: "filter (\<lambda>(k, x). \<not> (k \<in> fst ` set ps \<and> ?Q k)) (jm_delete rows key)
        = filter (\<lambda>(k, x). \<not> (k \<in> fst ` set ((key, pos) # ps) \<and> ?Q k)) rows"
      for rows :: "(string \<times> 'a item_scheme) list"
      using True by (auto simp: jm_delete_def intro!: filter_cong)
    have gone: "map (\<lambda>(k, p). the (jm_get (jm_delete rows key) k)) (filter (\<lambda>(k, p). ?Q k) ps)
        = map (\<lambda>(k, p). the (jm_get rows k)) (filter (\<lambda>(k, p). ?Q k) ps)"
      for rows :: "(string \<times> 'a item_scheme) list"
      using nk by (force intro!: map_cong)
    have gone2: "filter (\<lambda>(k, p). ?Q k) ((key, pos) # ps) = (key, pos) # filter (\<lambda>(k, p). ?Q k) ps"
      using True by simp
    show ?thesis
      using IH x(2) unfolding step sess2 Let_def abs2 rows [symmetric] gone2
      by (simp add: gone del: jm_get_delete)
  qed
qed

lemma rows_of_gone:
  "distinct (map itemKey (slot_items sl)) \<Longrightarrow>
   map (\<lambda>(k, p). the (jm_get (rows_of (slot_items sl)) k)) (filter (\<lambda>(k, p). Q k) (slot_index i sl))
     = map snd (filter (\<lambda>(k, x). Q k) (rows_of (slot_items sl)))"
proof -
  assume d: "distinct (map itemKey (slot_items sl))"
  have keys: "map fst (slot_index i sl) = map fst (rows_of (slot_items sl))"
    using jm_keys_slot_index [of i sl] by (simp add: jm_keys_def rows_of_def)
  have "map (\<lambda>(k, p). the (jm_get (rows_of (slot_items sl)) k)) (filter (\<lambda>(k, p). Q k) (slot_index i sl))
      = map (\<lambda>k. the (jm_get (rows_of (slot_items sl)) k)) (filter Q (map fst (slot_index i sl)))"
    by (simp add: filter_map comp_def case_prod_unfold)
  also have "\<dots> = map (\<lambda>(k, x). the (jm_get (rows_of (slot_items sl)) k)) (filter (\<lambda>(k, x). Q k) (rows_of (slot_items sl)))"
    by (simp add: keys filter_map comp_def case_prod_unfold)
  also have "\<dots> = map snd (filter (\<lambda>(k, x). Q k) (rows_of (slot_items sl)))"
  proof (rule map_cong)
    fix p
    assume "p \<in> set (filter (\<lambda>(k, x). Q k) (rows_of (slot_items sl)))"
    then have "p \<in> set (rows_of (slot_items sl))" by auto
    moreover have "distinct (map fst (rows_of (slot_items sl)))"
      using d by (simp add: rows_of_def comp_def)
    ultimately show "(case p of (k, x) \<Rightarrow> the (jm_get (rows_of (slot_items sl)) k)) = snd p"
      by (auto simp: jm_get_def split: prod.splits)
  qed simp
  finally show ?thesis .
qed

lemma prune_refines:
  assumes wf: "batch_wf st"
  shows "batch_wf (prune_unseen (as_index st) seen started st)"
    and "as_session (prune_unseen (as_index st) seen started st) = as_session st"
    and "abs_batch (prune_unseen (as_index st) seen started st) = spec_prune seen started (abs_batch st)"
proof -
  have i: "as_index st = slot_index 0 (as_slots st)" and d: "distinct (map itemKey (slot_items (as_slots st)))"
    using wf by (auto simp: batch_wf_def)
  have dk: "distinct (map fst (as_index st))"
    using d jm_keys_slot_index [of 0 "as_slots st"] by (simp add: i jm_keys_def)
  then have h: "\<forall>(k, p) \<in> set (as_index st). jm_get (as_index st) k = Some p"
    by (auto simp: jm_get_def)
  let ?Q = "unseen seen started (as_session st)"
  have f: "filter (\<lambda>(k, x). \<not> (k \<in> fst ` set (as_index st) \<and> ?Q k)) (rows_of (slot_items (as_slots st)))
      = filter (\<lambda>(k, x). \<not> ?Q k) (rows_of (slot_items (as_slots st)))"
  proof (rule filter_cong)
    fix p
    assume "p \<in> set (rows_of (slot_items (as_slots st)))"
    then have "fst p \<in> set (jm_keys (as_index st))" by (auto simp: i rows_of_def)
    then have "fst p \<in> fst ` set (as_index st)" by (simp add: jm_keys_def)
    then show "(case p of (k, x) \<Rightarrow> \<not> (k \<in> fst ` set (as_index st) \<and> ?Q k)) = (case p of (k, x) \<Rightarrow> \<not> ?Q k)"
      by (simp add: case_prod_unfold)
  qed simp
  have g: "map (\<lambda>(k, p). the (jm_get (rows_of (slot_items (as_slots st))) k)) (filter (\<lambda>(k, p). ?Q k) (as_index st))
      = map snd (filter (\<lambda>(k, x). ?Q k) (rows_of (slot_items (as_slots st))))"
    by (simp only: i rows_of_gone [OF d])
  have ne: "(filter (\<lambda>(k, p). ?Q k) (as_index st) = []) =
      (filter (\<lambda>(k, x). ?Q k) (rows_of (slot_items (as_slots st))) = [])"
    using g by (metis map_is_Nil_conv)
  show "batch_wf (prune_unseen (as_index st) seen started st)"
    "as_session (prune_unseen (as_index st) seen started st) = as_session st"
    "abs_batch (prune_unseen (as_index st) seen started st) = spec_prune seen started (abs_batch st)"
    using prune_unseen_refines [OF wf dk h, of seen started] f g ne
    by (simp_all add: spec_prune_def Let_def)
qed


section \<open>Events and batches\<close>

lemma apply_sync_refines:
  assumes wf: "batch_wf st"
  shows "batch_wf (apply_sync ev st) \<and> abs_batch (apply_sync ev st) = spec_sync ev (abs_batch st)"
proof (cases "ev_failed ev \<or> \<not> num_or (ev_epoch ev) 0 > 0")
  case True
  with wf show ?thesis by (auto simp: apply_sync_def spec_sync_def Let_def)
next
  case False
  define st1 where "st1 = st\<lparr>as_syncSeen := True, as_failure := None, as_incomplete := False\<rparr>"
  define e where "e = num_or (ev_epoch ev) 0"
  define seen where "seen = nullish (jm_get (rs_epochSeen (as_session st1)) e) []"
  define started where "started = nullish (jm_get (rs_epochStart (as_session st1)) e) (rs_seq (as_session st1) + 1)"
  define complete where "complete = (case ev_itemCount ev of None \<Rightarrow> True | Some n \<Rightarrow> int (length seen) \<ge> n)"
  define st2 where "st2 = (if complete
      then (prune_unseen (as_index st1) seen started st1)\<lparr>as_completedEpoch := Some e\<rparr>
      else st1\<lparr>as_incomplete := True\<rparr>)"
  have wf1: "batch_wf st1" using wf by (simp add: st1_def)
  have wf2: "batch_wf st2" using wf1 prune_refines(1) [OF wf1] by (simp add: st2_def)
  have l: "apply_sync ev st = st2\<lparr>as_session := drop_epochs e (as_session st2)\<rparr>"
    using False unfolding apply_sync_def Let_def st2_def complete_def started_def seen_def st1_def e_def
    by (cases "ev_itemCount ev") simp_all
  have r: "spec_sync ev (abs_batch st) =
     (let sp2 = (if complete
        then (spec_prune seen started (abs_batch st1))\<lparr>sp_completedEpoch := Some e\<rparr>
        else (abs_batch st1)\<lparr>sp_incomplete := True\<rparr>)
      in sp2\<lparr>sp_session := drop_epochs e (sp_session sp2)\<rparr>)"
    using False unfolding spec_sync_def Let_def complete_def started_def seen_def st1_def e_def
    by (cases "ev_itemCount ev") simp_all
  have a2: "abs_batch st2 = (if complete
        then (spec_prune seen started (abs_batch st1))\<lparr>sp_completedEpoch := Some e\<rparr>
        else (abs_batch st1)\<lparr>sp_incomplete := True\<rparr>)"
    using prune_refines(3) [OF wf1, of seen started] by (simp add: st2_def)
  show ?thesis
    using wf2 batch_wf_books [OF wf2] unfolding l r a2 [symmetric] Let_def by auto
qed

lemma apply_item_refines:
  assumes wf: "batch_wf st"
  shows "batch_wf (apply_item ev item st) \<and> abs_batch (apply_item ev item st) = spec_item ev item (abs_batch st)"
proof -
  define key where "key = itemKey item"
  define s1 where "s1 = note_epoch (ev_epoch ev) key ((as_session st)\<lparr>rs_seq := Suc (rs_seq (as_session st))\<rparr>)"
  define st1 where "st1 = st\<lparr>as_session := s1\<rparr>"
  have wf1: "batch_wf st1"
    using wf batch_wf_books [OF wf] by (simp add: st1_def s1_def)
  define prev where "prev = jm_get (rows_of (slot_items (as_slots st1))) key"
  have prev: "(case jm_get (as_index st1) key of None \<Rightarrow> None | Some p \<Rightarrow> slot_at st1 p) = prev"
    "jm_get (as_index st1) key = None \<longleftrightarrow> prev = None"
  proof -
    have "(case jm_get (as_index st1) key of None \<Rightarrow> None | Some p \<Rightarrow> slot_at st1 p) = prev
        \<and> (jm_get (as_index st1) key = None \<longleftrightarrow> prev = None)"
    proof (cases "jm_get (as_index st1) key")
      case None
      then show ?thesis using batch_no_slot [OF wf1 None] by (simp add: prev_def)
    next
      case (Some p)
      then obtain x where "slot_at st1 p = Some x" "prev = Some x"
        using batch_slot [OF wf1 Some] unfolding prev_def by blast
      with Some show ?thesis by simp
    qed
    then show "(case jm_get (as_index st1) key of None \<Rightarrow> None | Some p \<Rightarrow> slot_at st1 p) = prev"
      "jm_get (as_index st1) key = None \<longleftrightarrow> prev = None" by auto
  qed
  have l: "apply_item ev item st =
     (if ev_action ev = Deleted
      then (case prev of None \<Rightarrow> st1
            | Some pr \<Rightarrow> if uids_differ item pr then st1
                else touch_key key ((remove_slot key (nullish (jm_get (as_index st1) key) 0) st1)\<lparr>as_changed := True\<rparr>))
      else if (case prev of None \<Rightarrow> False | Some pr \<Rightarrow> \<not> uids_differ item pr \<and> stale_version pr item)
      then touch_key key st1
      else touch_key key ((put_slot key (jm_get (as_index st1) key) item st1)\<lparr>as_changed := True\<rparr>))"
    unfolding prev(1) [symmetric] unfolding apply_item_def Let_def st1_def s1_def key_def ..
  have r: "spec_item ev item (abs_batch st) =
     (if ev_action ev = Deleted
      then (case prev of None \<Rightarrow> abs_batch st1
            | Some pr \<Rightarrow> if uids_differ item pr then abs_batch st1
                else spec_touch key ((abs_batch st1)\<lparr>sp_rows := jm_delete (sp_rows (abs_batch st1)) key, sp_changed := True\<rparr>))
      else if (case prev of None \<Rightarrow> False | Some pr \<Rightarrow> \<not> uids_differ item pr \<and> stale_version pr item)
      then spec_touch key (abs_batch st1)
      else spec_touch key ((abs_batch st1)\<lparr>sp_rows := jm_set (sp_rows (abs_batch st1)) key item, sp_changed := True\<rparr>))"
    unfolding spec_item_def Let_def st1_def s1_def key_def prev_def
    by (cases "jm_get (rows_of (slot_items (as_slots st))) (itemKey item)") simp_all
  have del: "batch_wf (remove_slot key (nullish (jm_get (as_index st1) key) 0) st1)
      \<and> abs_batch (remove_slot key (nullish (jm_get (as_index st1) key) 0) st1)
        = (abs_batch st1)\<lparr>sp_rows := jm_delete (sp_rows (abs_batch st1)) key\<rparr>" if "prev \<noteq> None"
    using that prev(2) remove_slot_refines [OF wf1, of key] by (cases "jm_get (as_index st1) key") auto
  have put: "batch_wf (put_slot key (jm_get (as_index st1) key) item st1)
      \<and> abs_batch (put_slot key (jm_get (as_index st1) key) item st1)
        = (abs_batch st1)\<lparr>sp_rows := jm_set (sp_rows (abs_batch st1)) key item\<rparr>"
    using put_slot_refines [OF wf1] by (simp add: key_def)
  show ?thesis
    unfolding l r using wf1 del put
    by (cases prev) (simp_all add: touch_key_refines)
qed

lemma apply_event_refines:
  "batch_wf st \<Longrightarrow> batch_wf (apply_event ev st) \<and> abs_batch (apply_event ev st) = spec_event ev (abs_batch st)"
  using apply_sync_refines [of st ev] apply_item_refines [of st ev]
  by (auto simp: apply_event_def spec_event_def split: option.splits)

lemma apply_events_refines:
  "batch_wf st \<Longrightarrow> batch_wf (apply_events evs st) \<and> abs_batch (apply_events evs st) = spec_events evs (abs_batch st)"
  by (induction evs arbitrary: st)
     (simp_all add: apply_events_def spec_events_def apply_event_refines)

section \<open>The session across batches\<close>

lemma dedupe_rows_distinct:
  "distinct (map itemKey xs) \<Longrightarrow> dedupe_rows xs = rows_of xs"
proof -
  have "distinct (map itemKey (acc @ xs)) \<Longrightarrow>
      foldl (\<lambda>m x. jm_set m (itemKey x) x) (rows_of acc) xs = rows_of (acc @ xs)" for acc
  proof (induction xs arbitrary: acc)
    case (Cons x xs)
    then have "jm_set (rows_of acc) (itemKey x) x = rows_of (acc @ [x])"
      by (simp add: jm_set_new jm_has_def)
    with Cons.IH [of "acc @ [x]"] Cons.prems show ?case by simp
  qed simp
  from this [of "[]"] show "distinct (map itemKey xs) \<Longrightarrow> dedupe_rows xs = rows_of xs"
    by (simp add: dedupe_rows_def)
qed

lemma session_for_wf:
  assumes "session_wf s"
  shows "\<exists>xs index. session_for s base = s\<lparr>rs_items := Some xs, rs_index := Some index\<rparr>
     \<and> cache_ok xs index \<and> rows_of xs = dedupe_rows base"
proof (cases "rs_items s \<noteq> Some base \<or> rs_index s = None")
  case True
  then show ?thesis using reindex_correct [of s base] by (simp add: session_for_def)
next
  case False
  then obtain index where i: "rs_items s = Some base" "rs_index s = Some index" by auto
  then have "cache_ok base index" using assms by (simp add: session_wf_def)
  moreover have "s = s\<lparr>rs_items := Some base, rs_index := Some index\<rparr>" using i by (cases s) simp
  ultimately show ?thesis
    using i by (intro exI [of _ base] exI [of _ index])
      (simp add: session_for_def cache_ok_def dedupe_rows_distinct)
qed

lemma init_batch_wf:
  "books_wf s \<Longrightarrow> cache_ok xs index \<Longrightarrow> rs_items s = Some xs \<Longrightarrow> rs_index s = Some index \<Longrightarrow>
     batch_wf (init_batch s) \<and> abs_batch (init_batch s) = spec_init s (rows_of xs)"
  by (auto simp: init_batch_def batch_wf_def abs_batch_def spec_init_def cache_ok_def filter_empty_conv)

lemma compact_refines:
  assumes "batch_wf st"
  shows "compact st = (slot_items (as_slots st), slot_index 0 (map Some (slot_items (as_slots st))))"
proof -
  have i: "as_index st = slot_index 0 (as_slots st)" and d: "distinct (map itemKey (slot_items (as_slots st)))"
    and n: "as_removed st = length (filter (\<lambda>x. x = None) (as_slots st))"
    using assms by (auto simp: batch_wf_def)
  show ?thesis
  proof (cases "as_removed st > 0")
    case True
    then show ?thesis
      using compact_loop_correct [of 0 0 "[]" "as_slots st"] i d by (simp add: compact_def)
  next
    case False
    then have "None \<notin> set (as_slots st)" using n by (auto simp: filter_empty_conv)
    moreover have "None \<notin> set sl \<Longrightarrow> sl = map Some (slot_items sl)" for sl :: "'a item_scheme option list"
    proof (induction sl)
      case (Cons a sl)
      then show ?case by (cases a) auto
    qed simp
    ultimately have "as_slots st = map Some (slot_items (as_slots st))" by blast
    then show ?thesis using False i by (simp add: compact_def)
  qed
qed


lemma prune_touch_eq:
  "prune_touch index touch =
     (if jm_size touch > jm_size index * 2 + 512 then filter (\<lambda>p. jm_has index (fst p)) touch else touch)"
proof -
  have "foldl (\<lambda>t k. if jm_has index k then t else jm_delete t k) t ks
      = filter (\<lambda>p. jm_has index (fst p) \<or> fst p \<notin> set ks) t" for t :: "(string, nat) jsmap" and ks
    by (induction ks arbitrary: t) (auto simp: jm_delete_def intro!: filter_cong)
  from this [of touch "jm_keys touch"]
  have "foldl (\<lambda>t k. if jm_has index k then t else jm_delete t k) touch (jm_keys touch)
      = filter (\<lambda>p. jm_has index (fst p)) touch"
    by (auto simp: jm_keys_def intro!: filter_cong)
  then show ?thesis by (simp add: prune_touch_def)
qed

lemma jm_wf_filter [intro]: "jm_wf m \<Longrightarrow> jm_wf (filter (\<lambda>p. P (fst p)) m)"
  by (simp add: jm_wf_def jm_keys_filter)

lemma books_wf_finish:
  "books_wf s \<Longrightarrow> books_wf (s\<lparr>rs_index := i, rs_touch := prune_touch index (rs_touch s)\<rparr>)"
  by (auto simp: books_wf_def prune_touch_eq)

text \<open>
  One call, from any consistent session: the state of the reducer after the batch is the
  state of the specification, and the session is consistent again.
\<close>

lemma apply_batch:
  assumes "session_wf s"
  obtains st xs index where
    "applyRealtimeEvents base evs s = finish_batch base st"
    "batch_wf st"
    "abs_batch st = spec_events evs (spec_init (s\<lparr>rs_items := Some xs, rs_index := Some index\<rparr>) (dedupe_rows base))"
    "cache_ok xs index" "rows_of xs = dedupe_rows base"
    "as_slots (init_batch (s\<lparr>rs_items := Some xs, rs_index := Some index\<rparr>)) = map Some xs"
proof -
  obtain xs index where f: "session_for s base = s\<lparr>rs_items := Some xs, rs_index := Some index\<rparr>"
    and c: "cache_ok xs index" and r: "rows_of xs = dedupe_rows base"
    using session_for_wf [OF assms, of base] by blast
  let ?s = "s\<lparr>rs_items := Some xs, rs_index := Some index\<rparr>"
  have "books_wf ?s" using assms by (simp add: session_wf_def books_wf_def)
  from init_batch_wf [OF this c] r
  have i: "batch_wf (init_batch ?s)" "abs_batch (init_batch ?s) = spec_init ?s (dedupe_rows base)"
    by simp_all
  from apply_events_refines [OF i(1), of evs] i(2) f c r show thesis
    by (intro that [of "apply_events evs (init_batch ?s)" index xs])
       (simp_all add: applyRealtimeEvents_def init_batch_def)
qed

text \<open>The specification does not look at the cache.\<close>

definition uncached :: "'i session \<Rightarrow> 'i session" where
  "uncached s = s\<lparr>rs_items := None, rs_index := None\<rparr>"

definition sp_uncached :: "'i spec_state \<Rightarrow> 'i spec_state" where
  "sp_uncached sp = sp\<lparr>sp_session := uncached (sp_session sp)\<rparr>"

lemma uncached_simps [simp]:
  "rs_seq (uncached s) = rs_seq s" "rs_touch (uncached s) = rs_touch s"
  "rs_epochStart (uncached s) = rs_epochStart s" "rs_epochSeen (uncached s) = rs_epochSeen s"
  "rs_stopped (uncached s) = rs_stopped s"
  "uncached (s\<lparr>rs_items := xs\<rparr>) = uncached s" "uncached (s\<lparr>rs_index := i\<rparr>) = uncached s"
  "uncached (s\<lparr>rs_touch := t\<rparr>) = (uncached s)\<lparr>rs_touch := t\<rparr>"
  "uncached (s\<lparr>rs_seq := n\<rparr>) = (uncached s)\<lparr>rs_seq := n\<rparr>"
  "uncached (s\<lparr>rs_epochSeen := m\<rparr>) = (uncached s)\<lparr>rs_epochSeen := m\<rparr>"
  "uncached (s\<lparr>rs_epochStart := m2\<rparr>) = (uncached s)\<lparr>rs_epochStart := m2\<rparr>"
  by (simp_all add: uncached_def)

lemma uncached_note_epoch: "uncached (note_epoch ep key s) = note_epoch ep key (uncached s)"
  by (simp add: note_epoch_def Let_def)

lemma uncached_drop_epochs: "uncached (drop_epochs e s) = drop_epochs e (uncached s)"
proof -
  have "uncached (foldl (\<lambda>s k. if k \<le> e
                  then s\<lparr>rs_epochSeen := jm_delete (rs_epochSeen s) k,
                         rs_epochStart := jm_delete (rs_epochStart s) k\<rparr>
                  else s) s ks) =
      foldl (\<lambda>s k. if k \<le> e
                  then s\<lparr>rs_epochSeen := jm_delete (rs_epochSeen s) k,
                         rs_epochStart := jm_delete (rs_epochStart s) k\<rparr>
                  else s) (uncached s) ks" for ks
  proof (induction ks arbitrary: s)
    case (Cons k ks)
    show ?case
    proof (cases "k \<le> e")
      case True
      then show ?thesis
        using Cons.IH [of "s\<lparr>rs_epochSeen := jm_delete (rs_epochSeen s) k, rs_epochStart := jm_delete (rs_epochStart s) k\<rparr>"]
        by simp
    qed (simp add: Cons.IH)
  qed simp
  then show ?thesis by (simp add: drop_epochs_def)
qed

lemma spec_event_uncached: "sp_uncached (spec_event ev sp) = spec_event ev (sp_uncached sp)"
proof (cases "ev_action ev = Sync")
  case True
  have p: "sp_uncached (spec_prune seen started sp) = spec_prune seen started (sp_uncached sp)" for seen started sp
    by (simp add: spec_prune_def sp_uncached_def unseen_def Let_def)
  from True show ?thesis
    by (auto simp: spec_event_def spec_sync_def Let_def sp_uncached_def uncached_drop_epochs
        p [unfolded sp_uncached_def] spec_prune_def unseen_def split: option.splits)
next
  case False
  have i: "sp_uncached (spec_item ev item sp) = spec_item ev item (sp_uncached sp)" for item
    by (cases "jm_get (sp_rows sp) (itemKey item)")
       (simp_all add: spec_item_def spec_touch_def sp_uncached_def uncached_note_epoch Let_def)
  from False show ?thesis by (auto simp: spec_event_def i split: option.splits)
qed

lemma spec_events_uncached: "sp_uncached (spec_events evs sp) = spec_events evs (sp_uncached sp)"
  by (induction evs arbitrary: sp) (simp_all add: spec_events_def spec_event_uncached)

end
