(* ===== verification/RealtimeProps.thy ===== *)
theory RealtimeProps
  imports RealtimeSpec
begin

text \<open>
  What the live lists rely on, proved of \<open>applyRealtimeEvents\<close> through its specification:
  the session stays consistent, its caches are unobservable, a whole listing is
  authoritative, a partial or failed one removes nothing, the newest version of an object
  wins whatever the order of delivery, and the bookkeeping stays bounded.
\<close>

section \<open>Frames of the specification\<close>

lemma spec_prune_unchanged:
  "\<not> sp_changed (spec_prune seen started sp) \<Longrightarrow> \<not> sp_changed sp \<and> sp_rows (spec_prune seen started sp) = sp_rows sp"
  by (auto simp: spec_prune_def Let_def filter_empty_conv filter_id_conv)

lemma spec_event_unchanged:
  assumes "\<not> sp_changed (spec_event ev sp)"
  shows "\<not> sp_changed sp \<and> sp_rows (spec_event ev sp) = sp_rows sp"
proof (cases "ev_action ev = Sync")
  case True
  with assms show ?thesis
    by (auto simp: spec_event_def spec_sync_def Let_def dest: spec_prune_unchanged split: if_splits)
next
  case False
  then show ?thesis
    using assms
    by (auto simp: spec_event_def spec_item_def spec_touch_def Let_def split: option.splits if_splits)
qed

lemma spec_events_unchanged:
  "\<not> sp_changed (spec_events evs sp) \<Longrightarrow> sp_rows (spec_events evs sp) = sp_rows sp \<and> \<not> sp_changed sp"
proof (induction evs arbitrary: sp)
  case (Cons ev evs)
  then have "sp_rows (spec_events evs (spec_event ev sp)) = sp_rows (spec_event ev sp)"
    "\<not> sp_changed (spec_event ev sp)" by (simp_all add: spec_events_def)
  then show ?case using spec_event_unchanged by (auto simp: spec_events_def)
qed (simp add: spec_events_def)

lemma drop_epochs_cache [simp]:
  "rs_items (drop_epochs e s) = rs_items s" "rs_index (drop_epochs e s) = rs_index s"
  "rs_touch (drop_epochs e s) = rs_touch s" "rs_seq (drop_epochs e s) = rs_seq s"
  "rs_stopped (drop_epochs e s) = rs_stopped s"
proof -
  have "rs_items (foldl f s ks) = rs_items s \<and> rs_index (foldl f s ks) = rs_index s
      \<and> rs_touch (foldl f s ks) = rs_touch s \<and> rs_seq (foldl f s ks) = rs_seq s
      \<and> rs_stopped (foldl f s ks) = rs_stopped s"
    if "f = (\<lambda>s k. if k \<le> e
                  then s\<lparr>rs_epochSeen := jm_delete (rs_epochSeen s) k,
                         rs_epochStart := jm_delete (rs_epochStart s) k\<rparr>
                  else s)" for f :: "'a session \<Rightarrow> int \<Rightarrow> 'a session" and ks
    by (induction ks arbitrary: s) (simp_all add: that)
  then show "rs_items (drop_epochs e s) = rs_items s" "rs_index (drop_epochs e s) = rs_index s"
    "rs_touch (drop_epochs e s) = rs_touch s" "rs_seq (drop_epochs e s) = rs_seq s"
    "rs_stopped (drop_epochs e s) = rs_stopped s"
    by (simp_all add: drop_epochs_def)
qed

lemma note_epoch_cache [simp]:
  "rs_items (note_epoch ep key s) = rs_items s" "rs_index (note_epoch ep key s) = rs_index s"
  "rs_stopped (note_epoch ep key s) = rs_stopped s"
  by (simp_all add: note_epoch_def Let_def)

lemma spec_event_cache:
  "rs_items (sp_session (spec_event ev sp)) = rs_items (sp_session sp)
   \<and> rs_index (sp_session (spec_event ev sp)) = rs_index (sp_session sp)"
  by (auto simp: spec_event_def spec_sync_def spec_item_def spec_touch_def spec_prune_def Let_def
      split: option.splits)

lemma spec_events_cache:
  "rs_items (sp_session (spec_events evs sp)) = rs_items (sp_session sp)
   \<and> rs_index (sp_session (spec_events evs sp)) = rs_index (sp_session sp)"
  by (induction evs arbitrary: sp) (simp_all add: spec_events_def spec_event_cache)

section \<open>Refinement, consistency and cache transparency\<close>

definition spec_run ::
  "'a item_scheme list \<Rightarrow> 'a item_scheme rt_event list \<Rightarrow> 'a item_scheme session \<Rightarrow> 'a item_scheme spec_state" where
  "spec_run base evs s = spec_events evs (spec_init (uncached s) (dedupe_rows base))"

lemma reducer_run:
  assumes "session_wf s" and run: "applyRealtimeEvents base evs s = (s', r)"
  defines "sp \<equiv> spec_run base evs s"
  shows "ar_items r = (if sp_changed sp then jm_values (sp_rows sp) else base)"
    and "ar_changed r = sp_changed sp" and "ar_completedEpoch r = sp_completedEpoch sp"
    and "ar_syncSeen r = sp_syncSeen sp" and "ar_incomplete r = sp_incomplete sp"
    and "ar_failure r = sp_failure sp" and "ar_removed r = sp_gone sp"
    and "\<exists>index. rs_items s' = Some (jm_values (sp_rows sp)) \<and> rs_index s' = Some index
           \<and> cache_ok (jm_values (sp_rows sp)) index"
    and "books_wf s'"
    and "uncached s' = (sp_session sp)\<lparr>rs_touch :=
           prune_touch (nullish (rs_index s') []) (rs_touch (sp_session sp))\<rparr>"
    and "jm_wf (sp_rows sp)"
proof -
  obtain st xs index where
    f: "applyRealtimeEvents base evs s = finish_batch base st" and wf: "batch_wf st"
    and a: "abs_batch st = spec_events evs (spec_init (s\<lparr>rs_items := Some xs, rs_index := Some index\<rparr>) (dedupe_rows base))"
    and c: "cache_ok xs index" "rows_of xs = dedupe_rows base"
    by (rule apply_batch [OF assms(1), of base evs]) blast
  let ?s0 = "s\<lparr>rs_items := Some xs, rs_index := Some index\<rparr>"
  have "sp = spec_events evs (sp_uncached (spec_init ?s0 (dedupe_rows base)))"
    by (simp add: sp_def spec_run_def sp_uncached_def spec_init_def)
  then have sp: "sp = sp_uncached (abs_batch st)"
    by (simp add: a spec_events_uncached [symmetric])
  have rows: "sp_rows sp = rows_of (slot_items (as_slots st))"
    and flds: "sp_changed sp = as_changed st" "sp_completedEpoch sp = as_completedEpoch st"
      "sp_syncSeen sp = as_syncSeen st" "sp_incomplete sp = as_incomplete st"
      "sp_failure sp = as_failure st" "sp_gone sp = as_byListing st"
      "sp_session sp = uncached (as_session st)"
    by (simp_all add: sp sp_uncached_def abs_batch_def)
  have items: "jm_values (sp_rows sp) = slot_items (as_slots st)" by (simp add: rows)
  have d: "distinct (map itemKey (slot_items (as_slots st)))" using wf by (simp add: batch_wf_def)
  then show "jm_wf (sp_rows sp)" by (simp add: rows jm_wf_rows)
  have fin: "(s', r) = finish_batch base st" using f run by simp
  note fin' = fin [unfolded finish_batch_def compact_refines [OF wf] Let_def split]
  show "ar_items r = (if sp_changed sp then jm_values (sp_rows sp) else base)"
    "ar_changed r = sp_changed sp" "ar_completedEpoch r = sp_completedEpoch sp"
    "ar_syncSeen r = sp_syncSeen sp" "ar_incomplete r = sp_incomplete sp"
    "ar_failure r = sp_failure sp" "ar_removed r = sp_gone sp"
    using fin' by (simp_all add: flds items)
  have cache: "as_changed st \<or> rs_items (as_session st) = Some (slot_items (as_slots st))"
  proof (cases "as_changed st")
    case False
    then have "\<not> sp_changed (abs_batch st)" by simp
    then have "sp_rows (abs_batch st) = dedupe_rows base"
      unfolding a using spec_events_unchanged by (fastforce simp: spec_init_def)
    then have "slot_items (as_slots st) = xs"
      using c(2) by (metis abs_batch_fields(4) jm_values_rows)
    moreover have "rs_items (sp_session (abs_batch st)) = Some xs"
      unfolding a by (simp add: spec_events_cache spec_init_def)
    ultimately show ?thesis by simp
  qed simp
  let ?ix = "slot_index 0 (map Some (slot_items (as_slots st)))"
  have ix: "rs_index s' = Some ?ix" using fin' by (auto split: if_splits)
  show "\<exists>index. rs_items s' = Some (jm_values (sp_rows sp)) \<and> rs_index s' = Some index
           \<and> cache_ok (jm_values (sp_rows sp)) index"
    using fin' cache d by (auto simp: items cache_ok_def split: if_splits)
  show "books_wf s'"
    using fin' books_wf_finish [OF batch_wf_books [OF wf], where i = "Some ?ix" and index = ?ix] by (auto split: if_splits)
  show "uncached s' = (sp_session sp)\<lparr>rs_touch := prune_touch (nullish (rs_index s') []) (rs_touch (sp_session sp))\<rparr>"
    using fin' ix by (auto simp: flds split: if_splits)
qed


lemma dedupe_keys: "set (jm_keys (dedupe_rows xs)) = itemKey ` set xs"
proof -
  have "set (jm_keys (foldl (\<lambda>m x. jm_set m (itemKey x) x) m xs)) = set (jm_keys m) \<union> itemKey ` set xs" for m
    by (induction xs arbitrary: m) (auto simp: jm_keys_set jm_has_def)
  then show ?thesis by (simp add: dedupe_rows_def jm_keys_def)
qed

lemma keys_of_values:
  assumes "jm_wf m" "\<And>k x. (k, x) \<in> set m \<Longrightarrow> itemKey x = k"
  shows "map itemKey (jm_values m) = jm_keys m"
  using assms(2) by (auto simp: jm_values_def jm_keys_def)

text \<open>Every row of the specification is stored under its own key.\<close>

definition rows_keyed :: "(string, 'a item_scheme) jsmap \<Rightarrow> bool" where
  "rows_keyed m = (\<forall>(k, x) \<in> set m. itemKey x = k)"

lemma rows_keyed_set: "rows_keyed m \<Longrightarrow> rows_keyed (jm_set m (itemKey x) x)"
  by (induction m) (auto simp: rows_keyed_def split: if_splits)

lemma rows_keyed_filter: "rows_keyed m \<Longrightarrow> rows_keyed (filter P m)"
  by (auto simp: rows_keyed_def)

lemma rows_keyed_dedupe: "rows_keyed (dedupe_rows xs)"
proof -
  have "rows_keyed m \<Longrightarrow> rows_keyed (foldl (\<lambda>m x. jm_set m (itemKey x) x) m xs)" for m
    by (induction xs arbitrary: m) (auto simp: rows_keyed_set)
  from this [of "[]"] show ?thesis unfolding dedupe_rows_def by (simp add: rows_keyed_def)
qed

lemma rows_keyed_event: "rows_keyed (sp_rows sp) \<Longrightarrow> rows_keyed (sp_rows (spec_event ev sp))"
  by (auto simp: spec_event_def spec_sync_def spec_item_def spec_touch_def spec_prune_def Let_def
      jm_delete_def rows_keyed_set rows_keyed_filter split: option.splits)

lemma rows_keyed_events: "rows_keyed (sp_rows sp) \<Longrightarrow> rows_keyed (sp_rows (spec_events evs sp))"
  by (induction evs arbitrary: sp) (auto simp: spec_events_def rows_keyed_event)

lemma rows_keyed_run: "rows_keyed (sp_rows (spec_run base evs s))"
  by (simp add: spec_run_def rows_keyed_events spec_init_def rows_keyed_dedupe)

lemma rows_keyed_keys: "rows_keyed m \<Longrightarrow> map itemKey (jm_values m) = jm_keys m"
  by (auto simp: rows_keyed_def jm_values_def jm_keys_def)

lemma rows_keyed_get: "rows_keyed m \<Longrightarrow> jm_get m k = Some x \<Longrightarrow> itemKey x = k"
  by (auto simp: rows_keyed_def jm_get_def dest: map_of_SomeD)

text \<open>The keys of the list a call returns.\<close>

lemma reducer_keys:
  assumes "session_wf s" "applyRealtimeEvents base evs s = (s', r)"
  shows "itemKey ` set (ar_items r) = set (jm_keys (sp_rows (spec_run base evs s)))"
proof (cases "sp_changed (spec_run base evs s)")
  case True
  then have "ar_items r = jm_values (sp_rows (spec_run base evs s))"
    using reducer_run(1) [OF assms] by simp
  then show ?thesis
    using rows_keyed_keys [OF rows_keyed_run [of base evs s]] by (metis list.set_map)
next
  case False
  then have "sp_rows (spec_run base evs s) = dedupe_rows base"
    using spec_events_unchanged by (fastforce simp: spec_run_def spec_init_def)
  then show ?thesis using False reducer_run(1) [OF assms] by (simp add: dedupe_keys)
qed

section \<open>The clock\<close>

definition clock_ok :: "'i session \<Rightarrow> bool" where
  "clock_ok s = ((\<forall>k v. jm_get (rs_touch s) k = Some v \<longrightarrow> v \<le> rs_seq s)
     \<and> (\<forall>e v. jm_get (rs_epochStart s) e = Some v \<longrightarrow> v \<le> rs_seq s))"

lemma clock_ok_new: "clock_ok newRealtimeSession"
  by (simp add: clock_ok_def newRealtimeSession_def)

lemma clock_ok_note_epoch:
  "clock_ok s \<Longrightarrow> clock_ok (note_epoch ep key (s\<lparr>rs_seq := Suc (rs_seq s)\<rparr>))"
  by (auto simp: clock_ok_def note_epoch_def Let_def le_Suc_eq)

lemma jm_get_filter: "jm_wf m \<Longrightarrow> jm_get (filter (\<lambda>p. P (fst p)) m) k = (if P k then jm_get m k else None)"
  by (induction m) (auto simp: jm_get_def jm_wf_def jm_keys_def map_of_eq_None_iff)

lemma clock_ok_drop_epochs:
  "books_wf s \<Longrightarrow> clock_ok s \<Longrightarrow> clock_ok (drop_epochs e s)"
proof -
  assume b: "books_wf s" and c: "clock_ok s"
  have w: "jm_wf (rs_epochStart s)" using b by (simp add: books_wf_def jm_wf_def)
  show ?thesis
    using c by (auto simp: drop_epochs_eq [OF b] clock_ok_def jm_get_filter [OF w, of "\<lambda>k. \<not> k \<le> e"])
qed

lemma books_wf_touchI: "books_wf s \<Longrightarrow> jm_wf m \<Longrightarrow> books_wf (s\<lparr>rs_touch := m\<rparr>)"
  by (simp add: books_wf_def)

lemma books_wf_touch_map: "books_wf s \<Longrightarrow> jm_wf (rs_touch s)"
  by (simp add: books_wf_def)

lemma books_wf_spec_event: "books_wf (sp_session sp) \<Longrightarrow> books_wf (sp_session (spec_event ev sp))"
  by (auto simp: spec_event_def spec_sync_def spec_item_def spec_touch_def spec_prune_def Let_def
      intro!: books_wf_touchI dest: books_wf_touch_map split: option.splits)

lemma clock_ok_spec_event:
  assumes b: "books_wf (sp_session sp)" and c: "clock_ok (sp_session sp)"
  shows "clock_ok (sp_session (spec_event ev sp))"
proof (cases "ev_action ev = Sync")
  case True
  with b c show ?thesis
    by (auto simp: spec_event_def spec_sync_def spec_prune_def Let_def clock_ok_drop_epochs)
next
  case False
  have t: "clock_ok s \<Longrightarrow> \<forall>k v. jm_get m k = Some v \<longrightarrow> v \<le> rs_seq s \<Longrightarrow> clock_ok (s\<lparr>rs_touch := m\<rparr>)"
    for s :: "'a item_scheme session" and m
    by (auto simp: clock_ok_def)
  have le: "jm_get (rs_touch (sp_session sp)) k = Some v \<Longrightarrow> v \<le> Suc (rs_seq (sp_session sp))" for k v
    using c by (auto simp: clock_ok_def intro: le_SucI)
  from False clock_ok_note_epoch [OF c] c show ?thesis
    by (auto simp: spec_event_def spec_item_def spec_touch_def Let_def le intro!: t split: option.splits if_splits)
qed

lemma spec_events_clock:
  "books_wf (sp_session sp) \<Longrightarrow> clock_ok (sp_session sp) \<Longrightarrow>
     clock_ok (sp_session (spec_events evs sp)) \<and> books_wf (sp_session (spec_events evs sp))"
  by (induction evs arbitrary: sp) (auto simp: spec_events_def books_wf_spec_event clock_ok_spec_event)


section \<open>Listings\<close>

definition row_event :: "int \<Rightarrow> 'a item_scheme rt_event \<Rightarrow> bool" where
  "row_event e ev = (ev_action ev \<in> {Added, Modified} \<and> ev_epoch ev = Some e
     \<and> (\<exists>it. ev_item ev = Some it \<and> truthy_str (it_name it)))"

definition event_keys :: "'a item_scheme rt_event list \<Rightarrow> string set" where
  "event_keys evs = {itemKey it | ev it. ev \<in> set evs \<and> ev_item ev = Some it}"

lemma event_keys_simps [simp]:
  "event_keys [] = {}"
  "ev_item ev = Some it \<Longrightarrow> event_keys (ev # evs) = insert (itemKey it) (event_keys evs)"
  by (auto simp: event_keys_def)

text \<open>
  While the pages of listing \<open>e\<close> arrive: \<open>K\<close> is what it has delivered, \<open>n\<close> the sequence
  number before its first row, \<open>R\<close> the keys of the rows before it.
\<close>

definition listing_inv :: "int \<Rightarrow> nat \<Rightarrow> string set \<Rightarrow> string set \<Rightarrow> 'a item_scheme spec_state \<Rightarrow> bool" where
  "listing_inv e n R K sp =
     (set (nullish (jm_get (rs_epochSeen (sp_session sp)) e) []) = K
      \<and> nullish (jm_get (rs_epochStart (sp_session sp)) e) (rs_seq (sp_session sp) + 1) = n + 1
      \<and> (jm_has (rs_epochStart (sp_session sp)) e \<longleftrightarrow> K \<noteq> {})
      \<and> distinct (nullish (jm_get (rs_epochSeen (sp_session sp)) e) [])
      \<and> K \<subseteq> set (jm_keys (sp_rows sp)) \<and> set (jm_keys (sp_rows sp)) \<subseteq> R \<union> K
      \<and> (\<forall>k. k \<notin> K \<longrightarrow> nullish (jm_get (rs_touch (sp_session sp)) k) 0 \<le> n))"

lemma spec_item_keys:
  assumes "ev_action ev \<noteq> Deleted"
  shows "set (jm_keys (sp_rows (spec_item ev it sp))) = insert (itemKey it) (set (jm_keys (sp_rows sp)))"
proof (cases "jm_get (sp_rows sp) (itemKey it)")
  case None
  then show ?thesis
    using assms by (simp add: spec_item_def spec_touch_def Let_def jm_keys_set jm_has_get)
next
  case (Some pr)
  then have "itemKey it \<in> set (jm_keys (sp_rows sp))"
    by (metis jm_has_def jm_has_get option.distinct(1))
  with Some show ?thesis
    using assms by (auto simp: spec_item_def spec_touch_def Let_def jm_keys_set)
qed

lemma spec_item_session:
  assumes "ev_action ev \<noteq> Deleted"
  shows "sp_session (spec_item ev it sp) =
     (let s = note_epoch (ev_epoch ev) (itemKey it) ((sp_session sp)\<lparr>rs_seq := Suc (rs_seq (sp_session sp))\<rparr>)
      in s\<lparr>rs_touch := jm_set (rs_touch s) (itemKey it) (rs_seq s)\<rparr>)"
  using assms by (simp add: spec_item_def spec_touch_def Let_def)

lemma listing_inv_row:
  assumes inv: "listing_inv e n R K sp" and row: "row_event e ev" and e: "e > 0"
    and b: "books_wf (sp_session sp)" and it: "ev_item ev = Some it"
  shows "listing_inv e n R (insert (itemKey it) K) (spec_event ev sp)"
proof -
  let ?s = "sp_session sp"
  have a: "ev_action ev \<noteq> Deleted" "ev_action ev \<noteq> Sync" and ep: "ev_epoch ev = Some e"
    and nm: "truthy_str (it_name it)"
    using row it by (auto simp: row_event_def)
  have ev: "spec_event ev sp = spec_item ev it sp" using a it nm by (simp add: spec_event_def)
  have h: "jm_has (rs_epochSeen ?s) e = jm_has (rs_epochStart ?s) e"
    using b by (metis books_wf_def jm_has_same_keys)
  have keys: "set (jm_keys (sp_rows (spec_item ev it sp))) = insert (itemKey it) (set (jm_keys (sp_rows sp)))"
    by (rule spec_item_keys [OF a(1)])
  have sess: "sp_session (spec_item ev it sp) =
     (let s = note_epoch (Some e) (itemKey it) (?s\<lparr>rs_seq := Suc (rs_seq ?s)\<rparr>)
      in s\<lparr>rs_touch := jm_set (rs_touch s) (itemKey it) (rs_seq s)\<rparr>)"
    using spec_item_session [OF a(1), of it sp] ep by simp
  show ?thesis
  proof (cases "jm_has (rs_epochStart ?s) e")
    case True
    then obtain v w where "jm_get (rs_epochStart ?s) e = Some v" "jm_get (rs_epochSeen ?s) e = Some w"
      using h by (auto simp: jm_has_get)
    with True inv e show ?thesis
      unfolding ev listing_inv_def keys sess
      by (auto simp: note_epoch_def Let_def jm_has_get)
  next
    case False
    then have n: "jm_get (rs_epochStart ?s) e = None" "jm_get (rs_epochSeen ?s) e = None"
      using h by (auto simp: jm_has_get)
    with False inv e show ?thesis
      unfolding ev listing_inv_def keys sess
      by (auto simp: note_epoch_def Let_def jm_has_get)
  qed
qed

lemma listing_inv_rows:
  assumes "listing_inv e n R K sp" "\<forall>ev \<in> set evs. row_event e ev" "e > 0" "books_wf (sp_session sp)"
  shows "listing_inv e n R (K \<union> event_keys evs) (spec_events evs sp)"
  using assms
proof (induction evs arbitrary: K sp)
  case (Cons ev evs)
  then obtain it where it: "ev_item ev = Some it" by (auto simp: row_event_def)
  have "listing_inv e n R (insert (itemKey it) K) (spec_event ev sp)"
    using listing_inv_row [OF Cons.prems(1) _ Cons.prems(3,4) it] Cons.prems(2) by simp
  then have "listing_inv e n R (insert (itemKey it) K \<union> event_keys evs) (spec_events evs (spec_event ev sp))"
    using Cons.prems by (intro Cons.IH) (auto intro: books_wf_spec_event)
  then show ?case using it by (simp add: spec_events_def)
qed (simp add: spec_events_def)

lemma listing_inv_init:
  assumes "clock_ok s" "\<not> jm_has (rs_epochStart s) e" "books_wf s"
  shows "listing_inv e (rs_seq s) (set (jm_keys rows)) {} (spec_init s rows)"
proof -
  have "\<not> jm_has (rs_epochSeen s) e" using assms(2,3) by (metis books_wf_def jm_has_same_keys)
  with assms(1,2) show ?thesis
    by (auto simp: listing_inv_def spec_init_def jm_has_get clock_ok_def nullish_def split: option.splits)
qed

lemma spec_events_append: "spec_events (xs @ ys) sp = spec_events ys (spec_events xs sp)"
  by (simp add: spec_events_def)

lemma spec_sync_complete_keys:
  assumes inv: "listing_inv e n R K sp" and e: "e > 0"
    and sync: "ev_action ev = Sync" "\<not> ev_failed ev" "ev_epoch ev = Some e"
    and complete: "case ev_itemCount ev of None \<Rightarrow> True | Some c \<Rightarrow> c \<le> int (card K)"
  shows "set (jm_keys (sp_rows (spec_event ev sp))) = K
     \<and> sp_completedEpoch (spec_event ev sp) = Some e"
proof -
  let ?s = "sp_session sp"
  let ?seen = "nullish (jm_get (rs_epochSeen ?s) e) []"
  let ?st = "nullish (jm_get (rs_epochStart ?s) e) (rs_seq ?s + 1)"
  have len: "length ?seen = card K" and K: "set ?seen = K" and st: "?st = n + 1"
    using inv by (auto simp: listing_inv_def distinct_card [symmetric])
  have un: "unseen ?seen ?st ?s k \<longleftrightarrow> k \<notin> K" for k
    using inv K st by (auto simp: unseen_def listing_inv_def less_Suc_eq_le)
  have c: "(case ev_itemCount ev of None \<Rightarrow> True | Some n \<Rightarrow> int (length ?seen) \<ge> n)"
    using complete unfolding len .
  have "sp_rows (spec_event ev sp) = filter (\<lambda>(k, x). k \<in> K) (sp_rows sp)
      \<and> sp_completedEpoch (spec_event ev sp) = Some e"
    using sync e c un
    by (cases "ev_itemCount ev") (simp_all add: spec_event_def spec_sync_def spec_prune_def Let_def)
  then show ?thesis
    using inv by (auto simp: listing_inv_def jm_keys_filter_case)
qed


section \<open>Properties\<close>

text \<open>C1: refinement. From any consistent session, a batch applied through the position
  index, the tombstones and the compaction of \<open>applyRealtimeEvents\<close> gives the list, the
  flags and the removed rows of the same batch applied to an insertion-ordered map from
  keys to rows; an unchanged list is returned as it was passed in.\<close>

theorem applyRealtimeEvents_refines:
  assumes "session_wf s"
  shows "let r = snd (applyRealtimeEvents base evs s); sp = spec_run base evs s in
     ar_items r = (if sp_changed sp then jm_values (sp_rows sp) else base)
     \<and> ar_changed r = sp_changed sp \<and> ar_completedEpoch r = sp_completedEpoch sp
     \<and> ar_syncSeen r = sp_syncSeen sp \<and> ar_incomplete r = sp_incomplete sp
     \<and> ar_failure r = sp_failure sp \<and> ar_removed r = sp_gone sp"
proof -
  obtain s' r where run: "applyRealtimeEvents base evs s = (s', r)" by fastforce
  show ?thesis using reducer_run(1-7) [OF assms run] by (simp add: run)
qed

definition example_row :: "string \<Rightarrow> string \<Rightarrow> item" where
  "example_row n rv = \<lparr>it_name = Some n, it_namespace = Some ''ns'', it_uid = Some n, it_rv = Some rv\<rparr>"

definition example_event :: "rt_action \<Rightarrow> item \<Rightarrow> int option \<Rightarrow> item rt_event" where
  "example_event a it ep = \<lparr>ev_action = a, ev_item = Some it, ev_epoch = ep, ev_itemCount = None,
     ev_failed = False, ev_error = None, ev_errorCode = None, ev_lastSyncAt = None\<rparr>"

definition example_sync :: "int option \<Rightarrow> int option \<Rightarrow> bool \<Rightarrow> item rt_event" where
  "example_sync ep n failed = \<lparr>ev_action = Sync, ev_item = None, ev_epoch = ep, ev_itemCount = n,
     ev_failed = failed, ev_error = Some ''boom'', ev_errorCode = None, ev_lastSyncAt = None\<rparr>"

lemma session_wf_new: "session_wf newRealtimeSession"
  by (simp add: session_wf_def newRealtimeSession_def books_wf_def)

lemma applyRealtimeEvents_refines_witness:
  "let r = snd (applyRealtimeEvents [example_row ''a'' ''1''] [example_event Deleted (example_row ''a'' ''2'') None]
       newRealtimeSession);
     sp = spec_run [example_row ''a'' ''1''] [example_event Deleted (example_row ''a'' ''2'') None] newRealtimeSession in
     ar_items r = (if sp_changed sp then jm_values (sp_rows sp) else [example_row ''a'' ''1''])
     \<and> ar_changed r = sp_changed sp \<and> ar_completedEpoch r = sp_completedEpoch sp
     \<and> ar_syncSeen r = sp_syncSeen sp \<and> ar_incomplete r = sp_incomplete sp
     \<and> ar_failure r = sp_failure sp \<and> ar_removed r = sp_gone sp"
  by (rule applyRealtimeEvents_refines [OF session_wf_new])

fun reducer_session ::
  "('a item_scheme list \<times> 'a item_scheme rt_event list) list \<Rightarrow> 'a item_scheme session \<Rightarrow> 'a item_scheme session" where
  "reducer_session [] s = s"
| "reducer_session ((base, evs) # calls) s = reducer_session calls (fst (applyRealtimeEvents base evs s))"

lemma clock_ok_prune_touch:
  "jm_wf t \<Longrightarrow> clock_ok (s\<lparr>rs_touch := t\<rparr>) \<Longrightarrow> clock_ok (s\<lparr>rs_touch := prune_touch ix t\<rparr>)"
  by (auto simp: clock_ok_def prune_touch_eq jm_get_filter [of t "jm_has ix"])

lemma clock_ok_uncached: "clock_ok (uncached s) = clock_ok s"
  by (simp add: clock_ok_def)

lemma reducer_step_wf:
  assumes "session_wf s" "clock_ok s"
  shows "session_wf (fst (applyRealtimeEvents base evs s)) \<and> clock_ok (fst (applyRealtimeEvents base evs s))"
proof -
  obtain s' r where run: "applyRealtimeEvents base evs s = (s', r)" by fastforce
  let ?sp = "spec_run base evs s"
  have b0: "books_wf (uncached s)" using assms(1) by (simp add: session_wf_def books_wf_def)
  have c: "clock_ok (sp_session ?sp)" and b: "books_wf (sp_session ?sp)"
    using spec_events_clock [of "spec_init (uncached s) (dedupe_rows base)" evs] b0 assms(2)
    by (simp_all add: spec_run_def spec_init_def clock_ok_uncached)
  have "clock_ok ((sp_session ?sp)\<lparr>rs_touch := prune_touch (nullish (rs_index s') []) (rs_touch (sp_session ?sp))\<rparr>)"
    using c b by (intro clock_ok_prune_touch) (simp_all add: books_wf_def)
  then have "clock_ok s'" using reducer_run(10) [OF assms(1) run] by (metis clock_ok_uncached)
  moreover have "session_wf s'"
    using reducer_run(8,9) [OF assms(1) run] by (auto simp: session_wf_def)
  ultimately show ?thesis by (simp add: run)
qed

text \<open>C4: invariant. Every session reachable from \<open>newRealtimeSession\<close> by batches is
  consistent: its index holds exactly the position of every row of the list it last
  returned, no two rows of which share a key, and every time it remembers is not later than its
  clock.\<close>

theorem reducer_session_wf:
  "session_wf (reducer_session calls newRealtimeSession) \<and> clock_ok (reducer_session calls newRealtimeSession)"
proof -
  have "session_wf s \<Longrightarrow> clock_ok s \<Longrightarrow> session_wf (reducer_session calls s) \<and> clock_ok (reducer_session calls s)"
    for s :: "'a item_scheme session"
    by (induction calls s rule: reducer_session.induct) (simp_all add: reducer_step_wf)
  then show ?thesis by (simp add: session_wf_new clock_ok_new)
qed

text \<open>The position index is a cache: for a consistent session whose list
  is the one passed in, rebuilding it gives the session back, so the test
  \<open>s.items !== baseItems || !s.index\<close> never changes a result.\<close>

lemma reindex_cached:
  assumes "session_wf s" "rs_items s = Some base" "rs_index s \<noteq> None"
  shows "reindex s base = s"
proof -
  obtain index where i: "rs_index s = Some index" using assms(3) by blast
  with assms(1,2) have c: "cache_ok base index" by (simp add: session_wf_def)
  obtain xs ix where r: "reindex s base = s\<lparr>rs_items := Some xs, rs_index := Some ix\<rparr>"
    "cache_ok xs ix" "rows_of xs = dedupe_rows base" using reindex_correct by blast
  have "xs = base"
    using r(3) c by (metis cache_ok_def dedupe_rows_distinct jm_values_rows)
  then show ?thesis using r c assms(2) i by (cases s) (auto simp: cache_ok_def)
qed

lemma reindex_cached_witness:
  "reindex (reindex newRealtimeSession [example_row ''a'' ''1'']) [example_row ''a'' ''1'']
     = reindex newRealtimeSession [example_row ''a'' ''1'']"
  by (rule reindex_cached) (simp_all add: session_wf_def reindex_def Let_def newRealtimeSession_def
      books_wf_def cache_ok_def jm_get_def)




text \<open>One row event, on the row of a given key.\<close>

lemma spec_event_get_other:
  "ev_action ev \<noteq> Sync \<Longrightarrow> (\<And>it. ev_item ev = Some it \<Longrightarrow> itemKey it \<noteq> k) \<Longrightarrow>
     jm_get (sp_rows (spec_event ev sp)) k = jm_get (sp_rows sp) k"
  by (auto simp: spec_event_def spec_item_def spec_touch_def Let_def split: option.splits)

lemma spec_event_get_row:
  assumes "ev_action ev \<in> {Added, Modified}" "ev_item ev = Some it" "truthy_str (it_name it)"
    and "jm_get (sp_rows sp) (itemKey it) = Some y"
  shows "jm_get (sp_rows (spec_event ev sp)) (itemKey it) =
     Some (if \<not> uids_differ it y \<and> stale_version y it then y else it)"
  using assms by (auto simp: spec_event_def spec_item_def spec_touch_def Let_def)

lemma newest_version_run:
  assumes "jm_get (sp_rows sp) k = Some y0" "it_uid y0 = u" "rvNum y0 > 0"
    and "\<forall>ev \<in> set evs. ev_action ev \<in> {Added, Modified}"
    and "\<forall>ev \<in> set evs. \<forall>it. ev_item ev = Some it \<and> itemKey it = k \<longrightarrow> it_uid it = u \<and> rvNum it > 0"
  shows "\<exists>y. jm_get (sp_rows (spec_events evs sp)) k = Some y \<and> it_uid y = u \<and> rvNum y0 \<le> rvNum y
     \<and> (y = y0 \<or> (\<exists>ev \<in> set evs. ev_item ev = Some y))
     \<and> (\<forall>ev \<in> set evs. \<forall>it. ev_item ev = Some it \<and> itemKey it = k \<and> truthy_str (it_name it) \<longrightarrow> rvNum it \<le> rvNum y)"
  using assms
proof (induction evs arbitrary: sp y0)
  case (Cons ev evs)
  have "\<exists>y1. jm_get (sp_rows (spec_event ev sp)) k = Some y1 \<and> it_uid y1 = u \<and> rvNum y0 \<le> rvNum y1
     \<and> (y1 = y0 \<or> ev_item ev = Some y1)
     \<and> (\<forall>it. ev_item ev = Some it \<and> itemKey it = k \<and> truthy_str (it_name it) \<longrightarrow> rvNum it \<le> rvNum y1)"
  proof (cases "\<exists>it. ev_item ev = Some it \<and> itemKey it = k \<and> truthy_str (it_name it)")
    case True
    then obtain it where it: "ev_item ev = Some it" "itemKey it = k" "truthy_str (it_name it)" by blast
    have u: "it_uid it = u" "rvNum it > 0" using Cons.prems(5) it by auto
    then have "\<not> uids_differ it y0" using Cons.prems(2) by (simp add: uids_differ_def)
    moreover have "jm_get (sp_rows (spec_event ev sp)) k =
        Some (if \<not> uids_differ it y0 \<and> stale_version y0 it then y0 else it)"
      using spec_event_get_row [of ev it sp y0] Cons.prems(1,4) it by simp
    ultimately show ?thesis using it u Cons.prems(2,3) by (auto simp: stale_version_def)
  next
    case False
    have "jm_get (sp_rows (spec_event ev sp)) k = jm_get (sp_rows sp) k"
    proof (cases "\<exists>it. ev_item ev = Some it \<and> itemKey it = k")
      case True
      with False Cons.prems(4) show ?thesis by (auto simp: spec_event_def)
    next
      case F2: False
      with Cons.prems(4) show ?thesis by (intro spec_event_get_other) auto
    qed
    with False Cons.prems(1,2) show ?thesis by auto
  qed
  then obtain y1 where y1: "jm_get (sp_rows (spec_event ev sp)) k = Some y1" "it_uid y1 = u"
    "rvNum y0 \<le> rvNum y1" "y1 = y0 \<or> ev_item ev = Some y1"
    "\<forall>it. ev_item ev = Some it \<and> itemKey it = k \<and> truthy_str (it_name it) \<longrightarrow> rvNum it \<le> rvNum y1"
    by blast
  have "rvNum y1 > 0" using y1(3) Cons.prems(3) by linarith
  from Cons.IH [OF y1(1,2) this] Cons.prems(4,5)
  obtain y where y: "jm_get (sp_rows (spec_events evs (spec_event ev sp))) k = Some y" "it_uid y = u"
    "rvNum y1 \<le> rvNum y" "y = y1 \<or> (\<exists>ev \<in> set evs. ev_item ev = Some y)"
    "\<forall>ev \<in> set evs. \<forall>it. ev_item ev = Some it \<and> itemKey it = k \<and> truthy_str (it_name it) \<longrightarrow> rvNum it \<le> rvNum y"
    by auto
  from y y1(3,4,5) show ?case
    by (intro exI [of _ y]) (force simp: spec_events_def)
qed (auto simp: spec_events_def)

lemma reducer_row:
  assumes "session_wf s" "applyRealtimeEvents base evs s = (s', r)" "distinct (map itemKey base)"
    and "jm_get (sp_rows (spec_run base evs s)) k = Some y"
  shows "y \<in> set (ar_items r) \<and> itemKey y = k"
proof -
  have key: "itemKey y = k" by (rule rows_keyed_get [OF rows_keyed_run assms(4)])
  show ?thesis
  proof (cases "sp_changed (spec_run base evs s)")
    case True
    have "y \<in> set (jm_values (sp_rows (spec_run base evs s)))"
      using assms(4) reducer_run(11) [OF assms(1,2)] jm_values_get by fastforce
    then show ?thesis using True key reducer_run(1) [OF assms(1,2)] by simp
  next
    case False
    then have "sp_rows (spec_run base evs s) = rows_of base"
      using spec_events_unchanged assms(3) by (fastforce simp: spec_run_def spec_init_def dedupe_rows_distinct)
    then show ?thesis using False key assms(4) reducer_run(1) [OF assms(1,2)] jm_get_rows by fastforce
  qed
qed

lemma jm_get_rows_member: "distinct (map itemKey xs) \<Longrightarrow> x \<in> set xs \<Longrightarrow> jm_get (rows_of xs) (itemKey x) = Some x"
  unfolding jm_get_def by (rule map_of_is_SomeI) (auto simp: rows_of_def comp_def)

text \<open>C3: safety. The newest version of an object wins whatever the order of delivery:
  after any batch of added and modified events, the row of an object shown before has the
  largest resource version among the row shown and every event for it.\<close>

theorem newest_version_wins:
  assumes "session_wf s" "distinct (map itemKey base)" "x \<in> set base" "rvNum x > 0"
    and "\<forall>ev \<in> set evs. ev_action ev \<in> {Added, Modified}"
    and "\<forall>ev \<in> set evs. \<forall>it. ev_item ev = Some it \<and> itemKey it = itemKey x \<longrightarrow> it_uid it = it_uid x \<and> rvNum it > 0"
  shows "\<exists>y \<in> set (ar_items (snd (applyRealtimeEvents base evs s))).
     itemKey y = itemKey x \<and> rvNum x \<le> rvNum y
     \<and> (y = x \<or> (\<exists>ev \<in> set evs. ev_item ev = Some y))
     \<and> (\<forall>ev \<in> set evs. \<forall>it. ev_item ev = Some it \<and> itemKey it = itemKey x \<and> truthy_str (it_name it)
          \<longrightarrow> rvNum it \<le> rvNum y)"
proof -
  obtain s' r where run: "applyRealtimeEvents base evs s = (s', r)" by fastforce
  have "jm_get (sp_rows (spec_init (uncached s) (dedupe_rows base))) (itemKey x) = Some x"
    using assms(2,3) by (simp add: spec_init_def dedupe_rows_distinct jm_get_rows_member)
  from newest_version_run [OF this refl assms(4,5,6)]
  obtain y where "jm_get (sp_rows (spec_run base evs s)) (itemKey x) = Some y" "rvNum x \<le> rvNum y"
    "y = x \<or> (\<exists>ev \<in> set evs. ev_item ev = Some y)"
    "\<forall>ev \<in> set evs. \<forall>it. ev_item ev = Some it \<and> itemKey it = itemKey x \<and> truthy_str (it_name it) \<longrightarrow> rvNum it \<le> rvNum y"
    unfolding spec_run_def by blast
  with reducer_row [OF assms(1) run assms(2)] show ?thesis by (auto simp: run)
qed

lemma newest_version_wins_witness:
  "\<exists>y \<in> set (ar_items (snd (applyRealtimeEvents [example_row ''a'' ''4'']
       [example_event Modified (example_row ''a'' ''9'') None, example_event Modified (example_row ''a'' ''7'') None]
       newRealtimeSession))).
     itemKey y = itemKey (example_row ''a'' ''4'') \<and> rvNum (example_row ''a'' ''4'') \<le> rvNum y
     \<and> (y = example_row ''a'' ''4'' \<or> (\<exists>ev \<in> set [example_event Modified (example_row ''a'' ''9'') None, example_event Modified (example_row ''a'' ''7'') None]. ev_item ev = Some y))
     \<and> (\<forall>ev \<in> set [example_event Modified (example_row ''a'' ''9'') None, example_event Modified (example_row ''a'' ''7'') None].
          \<forall>it. ev_item ev = Some it \<and> itemKey it = itemKey (example_row ''a'' ''4'') \<and> truthy_str (it_name it)
          \<longrightarrow> rvNum it \<le> rvNum y)"
proof (rule newest_version_wins)
  have rv: "rvNum (example_row ''a'' ''4'') = 4" "rvNum (example_row ''a'' ''9'') = 9" "rvNum (example_row ''a'' ''7'') = 7"
    by code_simp+
  show "rvNum (example_row ''a'' ''4'') > 0" by (simp add: rv)
  show "\<forall>ev \<in> set [example_event Modified (example_row ''a'' ''9'') None, example_event Modified (example_row ''a'' ''7'') None].
      \<forall>it. ev_item ev = Some it \<and> itemKey it = itemKey (example_row ''a'' ''4'') \<longrightarrow>
        it_uid it = it_uid (example_row ''a'' ''4'') \<and> rvNum it > 0"
    using rv by (auto simp: example_event_def example_row_def)
qed (simp_all add: session_wf_new example_event_def)

text \<open>A sync that says the list could not be read, or that closes a listing
  with fewer rows than it announced, removes nothing: the list is returned as it was, no
  listing is reported complete, and the failure or the missing rows are reported.\<close>

lemma unusable_sync_keeps_rows:
  assumes "session_wf s" "ev_action ev = Sync"
    and "ev_failed ev \<or> (ev_epoch ev = Some e \<and> e > 0 \<and> ev_itemCount ev = Some c
           \<and> c > int (length (nullish (jm_get (rs_epochSeen s) e) [])))"
  shows "let r = snd (applyRealtimeEvents base [ev] s) in
     ar_items r = base \<and> \<not> ar_changed r \<and> ar_removed r = [] \<and> ar_completedEpoch r = None
     \<and> ar_incomplete r = (\<not> ev_failed ev)
     \<and> (ar_failure r \<noteq> None \<longleftrightarrow> ev_failed ev)"
proof -
  obtain s' r where run: "applyRealtimeEvents base [ev] s = (s', r)" by fastforce
  have "spec_run base [ev] s = spec_sync ev (spec_init (uncached s) (dedupe_rows base))"
    using assms(2) by (simp add: spec_run_def spec_events_def spec_event_def)
  with reducer_run(1-7) [OF assms(1) run] assms(3) show ?thesis
    by (auto simp: run spec_sync_def spec_init_def Let_def)
qed

lemma unusable_sync_keeps_rows_witness:
  "let r = snd (applyRealtimeEvents [example_row ''a'' ''1''] [example_sync (Some 3) (Some 5) False] newRealtimeSession) in
     ar_items r = [example_row ''a'' ''1''] \<and> \<not> ar_changed r \<and> ar_removed r = [] \<and> ar_completedEpoch r = None
     \<and> ar_incomplete r = (\<not> ev_failed (example_sync (Some 3) (Some 5) False))
     \<and> (ar_failure r \<noteq> None \<longleftrightarrow> ev_failed (example_sync (Some 3) (Some 5) False))"
  by (rule unusable_sync_keeps_rows [where e = 3 and c = 5, OF session_wf_new])
     (simp_all add: example_sync_def newRealtimeSession_def)

text \<open>A deleted event drops exactly the row of its object: a row of the
  same name that is another object (both uids known and different) stays, and so does the
  order of the others.\<close>

lemma deleted_event_drops_row:
  assumes "session_wf s" "distinct (map itemKey base)"
    and "ev_action ev = Deleted" "ev_item ev = Some it" "truthy_str (it_name it)"
  shows "ar_items (snd (applyRealtimeEvents base [ev] s)) =
     filter (\<lambda>x. itemKey x \<noteq> itemKey it \<or> uids_differ it x) base"
proof -
  obtain s' r where run: "applyRealtimeEvents base [ev] s = (s', r)" by fastforce
  let ?sp0 = "spec_init (uncached s) (rows_of base)"
  have sp: "spec_run base [ev] s = spec_item ev it ?sp0"
    using assms(2-5) by (simp add: spec_run_def spec_events_def spec_event_def dedupe_rows_distinct)
  have vals: "jm_values (jm_delete (rows_of xs) k) = filter (\<lambda>x. itemKey x \<noteq> k) xs" for xs :: "'a item_scheme list" and k
    by (induction xs) (auto simp: jm_values_def jm_delete_def)
  show ?thesis
  proof (cases "jm_get (rows_of base) (itemKey it)")
    case None
    then have "\<forall>x \<in> set base. itemKey x \<noteq> itemKey it" by (metis imageI jm_get_rows_none)
    then show ?thesis
      using None sp reducer_run(1) [OF assms(1) run] assms(3)
      by (auto simp: run spec_item_def spec_init_def Let_def filter_id_conv)
  next
    case (Some pr)
    then have pr: "itemKey pr = itemKey it" "pr \<in> set base" using jm_get_rows by blast+
    have same: "x = pr" if "x \<in> set base" "itemKey x = itemKey it" for x
      using that pr assms(2) by (metis jm_get_rows_member option.inject)
    show ?thesis
    proof (cases "uids_differ it pr")
      case True
      then have "\<forall>x \<in> set base. itemKey x \<noteq> itemKey it \<or> uids_differ it x" using same by auto
      then show ?thesis
        using Some True sp reducer_run(1) [OF assms(1) run] assms(3)
        by (auto simp: run spec_item_def spec_init_def Let_def filter_id_conv)
    next
      case False
      then have "filter (\<lambda>x. itemKey x \<noteq> itemKey it \<or> uids_differ it x) base = filter (\<lambda>x. itemKey x \<noteq> itemKey it) base"
        using same by (auto intro!: filter_cong)
      then show ?thesis
        using Some False sp reducer_run(1) [OF assms(1) run] assms(3)
        by (simp add: run spec_item_def spec_init_def spec_touch_def Let_def vals)
    qed
  qed
qed

lemma deleted_event_drops_row_witness:
  "ar_items (snd (applyRealtimeEvents [example_row ''a'' ''1'', example_row ''b'' ''1'']
       [example_event Deleted (example_row ''a'' ''2'') None] newRealtimeSession)) =
     filter (\<lambda>x. itemKey x \<noteq> itemKey (example_row ''a'' ''2'') \<or> uids_differ (example_row ''a'' ''2'') x)
       [example_row ''a'' ''1'', example_row ''b'' ''1'']"
  by (rule deleted_event_drops_row [OF session_wf_new])
     (simp_all add: example_event_def example_row_def itemKey_def)

text \<open>The sequence numbers remembered per key stay within twice the length of
  the list plus 512, however many events the session has applied.\<close>

lemma touch_bounded:
  assumes "session_wf s"
  shows "let s' = fst (applyRealtimeEvents base evs s) in
     jm_size (rs_touch s') \<le> 2 * length (nullish (rs_items s') []) + 512"
proof -
  obtain s' r where run: "applyRealtimeEvents base evs s = (s', r)" by fastforce
  obtain ix where ix: "rs_index s' = Some ix" and items: "rs_items s' = Some (jm_values (sp_rows (spec_run base evs s)))"
    and c: "cache_ok (jm_values (sp_rows (spec_run base evs s))) ix"
    using reducer_run(8) [OF assms run] by blast
  let ?t = "rs_touch (sp_session (spec_run base evs s))"
  let ?n = "length (jm_values (sp_rows (spec_run base evs s)))"
  have t: "rs_touch s' = prune_touch ix ?t"
    using reducer_run(10) [OF assms run] ix by (metis nullish_simps(2) session.select_convs(2) session.surjective session.update_convs(2) uncached_simps(2))
  have w: "distinct (jm_keys (rs_touch s'))" using reducer_run(9) [OF assms run] by (simp add: books_wf_def jm_wf_def)
  have n: "jm_size ix = ?n" "distinct (jm_keys ix)"
    using c by (simp_all add: cache_ok_def jm_size_keys)
  have "jm_size (rs_touch s') \<le> 2 * ?n + 512"
  proof (cases "jm_size ?t > jm_size ix * 2 + 512")
    case True
    then have "jm_keys (rs_touch s') = filter (jm_has ix) (jm_keys ?t)"
      unfolding t prune_touch_eq by (simp add: jm_keys_filter)
    then have "set (jm_keys (rs_touch s')) \<subseteq> set (jm_keys ix)"
      by (auto simp: jm_has_def)
    then have "length (jm_keys (rs_touch s')) \<le> length (jm_keys ix)"
      using w n(2) by (metis List.finite_set card_mono distinct_card)
    then show ?thesis using n(1) by (simp add: jm_size_keys)
  next
    case False
    then show ?thesis using n(1) by (simp add: t prune_touch_eq)
  qed
  then show ?thesis by (simp add: run items)
qed

lemma touch_bounded_witness:
  "let s' = fst (applyRealtimeEvents [] [example_event Added (example_row ''a'' ''2'') None] newRealtimeSession) in
     jm_size (rs_touch s') \<le> 2 * length (nullish (rs_items s') []) + 512"
  by (rule touch_bounded [OF session_wf_new])

end
