(* ===== verification/LiveListFrame.thy ===== *)
theory LiveListFrame
  imports RealtimeProps RealtimeControl
begin

text \<open>
  What the steps of the live lists leave alone. Most of what a batch or a start does is to
  write the workspace, the health table or the log of calls; \<open>same_timers\<close> says that the
  timers, the handles and the queues of every runtime are as they were, and the bundle
  \<open>same_timers_intros\<close> proves it of each of those operations.
\<close>

named_theorems same_timers_intros

section \<open>The reducer does not stop a session\<close>

lemma reindex_stopped [simp]: "rs_stopped (reindex s base) = rs_stopped s"
  by (simp add: reindex_def split: prod.split)

lemma session_for_stopped [simp]: "rs_stopped (session_for s base) = rs_stopped s"
  by (simp add: session_for_def)

lemma findItem_stopped [simp]: "rs_stopped (fst (findItem s items key)) = rs_stopped s"
  by (simp add: findItem_def Let_def)

lemma prune_unseen_session [simp]: "as_session (prune_unseen ps seen started st) = as_session st"
  by (induction ps seen started st rule: prune_unseen.induct) (simp_all add: prune_key_def remove_slot_def)

lemma apply_sync_stopped [simp]: "rs_stopped (as_session (apply_sync ev st)) = rs_stopped (as_session st)"
  by (simp add: apply_sync_def Let_def)

lemma apply_item_stopped [simp]: "rs_stopped (as_session (apply_item ev item st)) = rs_stopped (as_session st)"
  by (simp add: apply_item_def touch_key_def put_slot_def remove_slot_def Let_def split: option.split)

lemma apply_event_stopped [simp]: "rs_stopped (as_session (apply_event ev st)) = rs_stopped (as_session st)"
  by (simp add: apply_event_def split: option.split)

lemma apply_events_stopped [simp]: "rs_stopped (as_session (apply_events evs st)) = rs_stopped (as_session st)"
  by (induction evs arbitrary: st) (simp_all add: apply_events_def)

lemma applyRealtimeEvents_stopped [simp]:
  "rs_stopped (fst (applyRealtimeEvents base evs s)) = rs_stopped s"
  by (simp add: applyRealtimeEvents_def finish_batch_def init_batch_def split: prod.split)

section \<open>Timers and queues as they were\<close>

text \<open>The part of a runtime the timers are about.\<close>

definition timer_view ::
  "runtime \<Rightarrow> bool \<times> kube_object rt_event list \<times> nat option \<times> timer_kind option \<times> nat option \<times> nat option \<times> nat option" where
  "timer_view r = (rn_stopped r, rn_pending r, rn_batchTimer r, rn_batchTimerKind r, rn_frameFallback r,
     rn_loadTimer r, rn_resubscribeTimer r)"

definition same_timers :: "world \<Rightarrow> world \<Rightarrow> bool" where
  "same_timers w w' =
     (wd_timers w' = wd_timers w \<and> wd_next w' = wd_next w \<and> wd_burst w' = wd_burst w \<and> wd_retry w' = wd_retry w
      \<and> wd_parked w' = wd_parked w \<and> wd_active w' = wd_active w
      \<and> (\<forall>i. timer_view (rt_at i w') = timer_view (rt_at i w) \<and> rn_topic (rt_at i w') = rn_topic (rt_at i w)))"

lemma same_timers_refl [simp, same_timers_intros]: "same_timers w w"
  by (simp add: same_timers_def)

lemma same_timers_trans: "same_timers w w1 \<Longrightarrow> same_timers w1 w2 \<Longrightarrow> same_timers w w2"
  by (simp add: same_timers_def)

lemma same_timers_on_ws [same_timers_intros]: "same_timers w0 w \<Longrightarrow> same_timers w0 (on_ws f w)"
  by (simp add: same_timers_def on_ws_def rt_at_def)

lemma same_timers_called [same_timers_intros]: "same_timers w0 w \<Longrightarrow> same_timers w0 (called cs w)"
  by (simp add: same_timers_def called_def rt_at_def)

lemma same_timers_cache [same_timers_intros]: "same_timers w0 w \<Longrightarrow> same_timers w0 (cacheItems t xs w)"
  by (simp add: same_timers_def cacheItems_def rt_at_def)

lemma same_timers_upd:
  assumes "same_timers w0 w"
    and "timer_view (f (rt_at i w)) = timer_view (rt_at i w)" "rn_topic (f (rt_at i w)) = rn_topic (rt_at i w)"
  shows "same_timers w0 (upd_rt i f w)"
  using assms by (auto simp: same_timers_def upd_rt_def rt_at_def)

lemma same_timers_health [same_timers_intros]: "same_timers w0 w \<Longrightarrow> same_timers w0 (writeHealth t h w)"
  by (simp add: same_timers_def writeHealth_def rt_at_def)

lemma same_timers_patch [same_timers_intros]: "same_timers w0 w \<Longrightarrow> same_timers w0 (patchShownList i p w)"
  by (auto simp: patchShownList_def intro: same_timers_on_ws split: option.split)

lemma same_timers_subscribe [same_timers_intros]: "same_timers w0 w \<Longrightarrow> same_timers w0 (subscribe i w)"
  by (simp add: subscribe_def same_timers_called)

lemma same_timers_commit [same_timers_intros]: "same_timers w0 w \<Longrightarrow> same_timers w0 (commitList r xs p s w)"
  by (simp add: commitList_def same_timers_on_ws)

lemma same_timers_panes [same_timers_intros]: "same_timers w0 w \<Longrightarrow> same_timers w0 (writePaneTabs i ids w)"
  by (simp add: writePaneTabs_def Let_def same_timers_on_ws)

lemma same_timers_find_in [same_timers_intros]:
  assumes "same_timers w0 w" shows "same_timers w0 (snd (find_in i items key w))"
proof -
  obtain s found where f: "findItem (rn_session (rt_at i w)) items key = (s, found)" by (cases "findItem (rn_session (rt_at i w)) items key")
  then have "rs_stopped s = rs_stopped (rn_session (rt_at i w))"
    using findItem_stopped [of "rn_session (rt_at i w)" items key] by simp
  then show ?thesis
    by (auto simp: find_in_def f timer_view_def rn_stopped_def intro!: same_timers_upd assms)
qed

lemma find_in_same: "find_in i items key w = (found, w1) \<Longrightarrow> same_timers w0 w \<Longrightarrow> same_timers w0 w1"
  using same_timers_find_in [of w0 w i items key] by simp

lemma same_timers_gone:
  "same_timers w0 w \<Longrightarrow> same_timers w0 (snd (gone_objects i items objs gone w))"
  by (induction objs arbitrary: gone w) (auto intro: find_in_same split: prod.split)

lemma same_timers_removals [same_timers_intros]:
  assumes "same_timers w0 w" shows "same_timers w0 (markListingRemovals i result w)"
proof -
  obtain gone w1 where g: "gone_objects i (ar_items result) (ar_removed result) [] w = (gone, w1)"
    by (cases "gone_objects i (ar_items result) (ar_removed result) [] w")
  then have "same_timers w0 w1" using same_timers_gone [OF assms, of i "ar_items result" "ar_removed result" "[]"] by simp
  then show ?thesis
    by (auto simp: markListingRemovals_def Let_def g assms intro: same_timers_on_ws split: option.split)
qed

lemma same_timers_rollout [same_timers_intros]:
  "same_timers w0 w \<Longrightarrow> same_timers w0 (removeRolloutTracking key w)"
  by (auto simp: removeRolloutTracking_def Let_def intro: same_timers_on_ws same_timers_called split: option.split)

lemma same_timers_rollouts [same_timers_intros]:
  "same_timers w0 w \<Longrightarrow> same_timers w0 (rollouts i r st items evs w)"
  by (induction evs arbitrary: w)
    (auto intro!: same_timers_called same_timers_rollout dest: find_in_same split: option.split prod.split bool.split)

lemma same_timers_followed:
  "same_timers w0 w \<Longrightarrow> same_timers w0 (snd (followed_selection i result evs sel w))"
  by (auto simp: followed_selection_def Let_def intro: find_in_same split: option.split prod.split)

lemma same_timers_details [same_timers_intros]:
  "same_timers w0 w \<Longrightarrow> same_timers w0 (updateDetails r evs w)"
  by (auto simp: updateDetails_def Let_def intro!: same_timers_on_ws same_timers_called split: option.split)

lemma same_timers_selection:
  "same_timers w0 w \<Longrightarrow> same_timers w0 (snd (find_selection i sel keep w))"
  by (auto simp: find_selection_def Let_def intro: find_in_same split: option.split prod.split)

lemma same_timers_resubscribe [same_timers_intros]:
  assumes "same_timers w0 w" shows "same_timers w0 (resubscribePane i ids w)"
  by (auto simp: resubscribePane_def timer_view_def rn_stopped_def intro!: same_timers_subscribe same_timers_upd assms split: option.split)

lemma same_timers_refresh [same_timers_intros]:
  assumes "same_timers w0 w" shows "same_timers w0 (refresh_shown e force i st res order w)"
proof -
  define w1 where "w1 = (if force \<and> \<not> rn_synced (rt_at i w) then subscribe i (upd_rt i (\<lambda>r. r\<lparr>rn_sort := order\<rparr>) w) else w)"
  have "same_timers w0 w1"
    by (auto simp: w1_def timer_view_def rn_stopped_def intro!: same_timers_subscribe same_timers_upd assms)
  moreover obtain sel w2 where f: "find_selection i (ts_selectedItem st) True w1 = (sel, w2)"
    by (cases "find_selection i (ts_selectedItem st) True w1")
  ultimately have "same_timers w0 w2"
    using same_timers_selection [of w0 w1 i "ts_selectedItem st" True] by simp
  with \<open>same_timers w0 w1\<close> show ?thesis
    by (auto simp: refresh_shown_def Let_def w1_def [symmetric] f intro: same_timers_commit)
qed

end
