(* ===== verification/LiveListTimers.thy ===== *)
theory LiveListTimers
  imports LiveListFrame
begin

text \<open>
  The timers of the live lists. \<open>timers_ok X P w\<close>: every armed timer is the one its runtime
  (or the window) has recorded, so no runtime has two of a kind; a runtime with queued events
  has a flush armed; a stopped runtime has no timer and no queue. The runtimes of \<open>X\<close> are
  exempt from having their recorded flush armed, those of \<open>P\<close> from having one recorded: they are the ones a step is working on.
\<close>

definition recorded :: "nat \<Rightarrow> timer \<Rightarrow> world \<Rightarrow> bool" where
  "recorded h t w =
     (case t of
        FlushTimer i \<Rightarrow> rn_batchTimer (rt_at i w) = Some h \<and> rn_batchTimerKind (rt_at i w) = Some TimeoutKind
      | WindowTimer i \<Rightarrow> rn_batchTimer (rt_at i w) = Some h \<and> rn_batchTimerKind (rt_at i w) = Some TimeoutKind
      | FrameTimer i \<Rightarrow> rn_batchTimer (rt_at i w) = Some h \<and> rn_batchTimerKind (rt_at i w) = Some RafKind
      | FallbackTimer i \<Rightarrow> rn_frameFallback (rt_at i w) = Some h \<and> rn_batchTimerKind (rt_at i w) = Some RafKind
          \<and> rn_batchTimer (rt_at i w) \<noteq> None
      | LoadTimer i \<Rightarrow> rn_loadTimer (rt_at i w) = Some h
      | ResubscribeTimer i \<Rightarrow> rn_resubscribeTimer (rt_at i w) = Some h
      | BurstTimer b \<Rightarrow> wd_burst w = Some h
      | RetryTimer f \<Rightarrow> wd_retry w = Some h)"

definition flushes :: "nat \<Rightarrow> timer \<Rightarrow> bool" where
  "flushes i t = (t = FlushTimer i \<or> t = WindowTimer i \<or> t = FrameTimer i)"

definition batch_armed :: "nat \<Rightarrow> world \<Rightarrow> bool" where
  "batch_armed i w =
     (case rn_batchTimer (rt_at i w) of
        None \<Rightarrow> False
      | Some h \<Rightarrow> (case jm_get (wd_timers w) h of None \<Rightarrow> False | Some (t, ms) \<Rightarrow> flushes i t))"

definition armed_ok :: "nat \<Rightarrow> world \<Rightarrow> bool" where
  "armed_ok i w = (rn_batchTimer (rt_at i w) \<noteq> None \<longrightarrow> batch_armed i w)"

definition pending_ok :: "nat \<Rightarrow> world \<Rightarrow> bool" where
  "pending_ok i w = (rn_pending (rt_at i w) \<noteq> [] \<longrightarrow> rn_batchTimer (rt_at i w) \<noteq> None)"

definition idle :: "runtime \<Rightarrow> bool" where
  "idle r = (rn_pending r = [] \<and> rn_batchTimer r = None \<and> rn_frameFallback r = None \<and> rn_loadTimer r = None
     \<and> rn_resubscribeTimer r = None)"

definition held :: "(timer \<Rightarrow> bool) \<Rightarrow> nat option \<Rightarrow> world \<Rightarrow> bool" where
  "held P h w =
     (case h of
        None \<Rightarrow> True
      | Some k \<Rightarrow> k < wd_next w \<and> (case jm_get (wd_timers w) k of None \<Rightarrow> True | Some (t, ms) \<Rightarrow> P t))"

definition handles_ok :: "nat \<Rightarrow> world \<Rightarrow> bool" where
  "handles_ok i w =
     (held (flushes i) (rn_batchTimer (rt_at i w)) w \<and> held ((=) (FallbackTimer i)) (rn_frameFallback (rt_at i w)) w
      \<and> held ((=) (LoadTimer i)) (rn_loadTimer (rt_at i w)) w
      \<and> held ((=) (ResubscribeTimer i)) (rn_resubscribeTimer (rt_at i w)) w)"

definition window_ok :: "world \<Rightarrow> bool" where
  "window_ok w = (held (\<lambda>t. \<exists>b. t = BurstTimer b) (wd_burst w) w \<and> held (\<lambda>t. \<exists>f. t = RetryTimer f) (wd_retry w) w)"

definition timers_ok :: "nat set \<Rightarrow> nat set \<Rightarrow> world \<Rightarrow> bool" where
  "timers_ok X P w =
     ((\<forall>h t ms. jm_get (wd_timers w) h = Some (t, ms) \<longrightarrow> h < wd_next w \<and> recorded h t w)
      \<and> (\<forall>i. i \<notin> X \<longrightarrow> armed_ok i w) \<and> (\<forall>i. i \<notin> P \<longrightarrow> pending_ok i w)
      \<and> (\<forall>i. rn_stopped (rt_at i w) \<longrightarrow> idle (rt_at i w))
      \<and> (\<forall>i. wd_next w \<le> i \<longrightarrow> rn_stopped (rt_at i w))
      \<and> (\<forall>i. handles_ok i w) \<and> window_ok w)"

lemma timers_okD:
  assumes "timers_ok X P w"
  shows "jm_get (wd_timers w) h = Some (t, ms) \<Longrightarrow> recorded h t w"
    and "jm_get (wd_timers w) h = Some (t, ms) \<Longrightarrow> h < wd_next w"
    and "i \<notin> X \<Longrightarrow> armed_ok i w"
    and "rn_stopped (rt_at i w) \<Longrightarrow> idle (rt_at i w)"
    and "wd_next w \<le> i \<Longrightarrow> rn_stopped (rt_at i w)"
    and "handles_ok i w" and "window_ok w" and "i \<notin> P \<Longrightarrow> pending_ok i w"
  using assms by (auto simp: timers_ok_def)

lemma timers_okI:
  assumes "\<And>h t ms. jm_get (wd_timers w) h = Some (t, ms) \<Longrightarrow> h < wd_next w"
    and "\<And>h t ms. jm_get (wd_timers w) h = Some (t, ms) \<Longrightarrow> recorded h t w"
    and "\<And>i. i \<notin> X \<Longrightarrow> armed_ok i w" and "\<And>i. i \<notin> P \<Longrightarrow> pending_ok i w"
    and "\<And>i. rn_stopped (rt_at i w) \<Longrightarrow> idle (rt_at i w)"
    and "\<And>i. wd_next w \<le> i \<Longrightarrow> rn_stopped (rt_at i w)"
    and "\<And>i. handles_ok i w" and "window_ok w"
  shows "timers_ok X P w"
  using assms by (auto simp: timers_ok_def)

text \<open>Arming another timer, or clearing one, does not change what a handle holds.\<close>

lemma held_mono:
  assumes "held P h w" "wd_next w \<le> wd_next w'"
    and "\<And>k t ms. k < wd_next w \<Longrightarrow> jm_get (wd_timers w') k = Some (t, ms) \<Longrightarrow> jm_get (wd_timers w) k = Some (t, ms)"
  shows "held P h w'"
  using assms by (fastforce simp: held_def split: option.splits)

lemma held_None [simp]: "held P None w"
  by (simp add: held_def)

lemma heldD: "held P h w \<Longrightarrow> h = Some k \<Longrightarrow> jm_get (wd_timers w) k = Some (t, ms) \<Longrightarrow> P t"
  by (simp add: held_def)

lemma held_same:
  assumes "same_timers w w'" shows "held P h w' = held P h w"
  using assms by (simp add: held_def same_timers_def split: option.split)

lemma timers_ok_mono: "timers_ok X P w \<Longrightarrow> X \<subseteq> Y \<Longrightarrow> P \<subseteq> Q \<Longrightarrow> timers_ok Y Q w"
  by (auto simp: timers_ok_def)

text \<open>A runtime that meets the clause is exempt no longer.\<close>

lemma timers_ok_settle: "timers_ok (insert i X) (insert i P) w \<Longrightarrow> armed_ok i w \<Longrightarrow> pending_ok i w \<Longrightarrow> timers_ok X P w"
  by (auto simp: timers_ok_def)

lemma same_timers_viewD:
  assumes "same_timers w w'"
  shows "rn_stopped (rt_at i w') = rn_stopped (rt_at i w)" "rn_pending (rt_at i w') = rn_pending (rt_at i w)"
    "rn_batchTimer (rt_at i w') = rn_batchTimer (rt_at i w)"
    "rn_batchTimerKind (rt_at i w') = rn_batchTimerKind (rt_at i w)"
    "rn_frameFallback (rt_at i w') = rn_frameFallback (rt_at i w)"
    "rn_loadTimer (rt_at i w') = rn_loadTimer (rt_at i w)"
    "rn_resubscribeTimer (rt_at i w') = rn_resubscribeTimer (rt_at i w)"
    "rn_topic (rt_at i w') = rn_topic (rt_at i w)"
    "wd_timers w' = wd_timers w" "wd_next w' = wd_next w" "wd_burst w' = wd_burst w" "wd_retry w' = wd_retry w"
    "wd_parked w' = wd_parked w" "wd_active w' = wd_active w"
  using assms by (auto simp: same_timers_def timer_view_def)

lemma recorded_same:
  assumes "same_timers w w'" shows "recorded h t w' = recorded h t w"
  unfolding recorded_def same_timers_viewD [OF assms] by (rule refl)

lemma queue_ok_same:
  assumes "same_timers w w'" shows "armed_ok i w' = armed_ok i w" "pending_ok i w' = pending_ok i w"
  unfolding armed_ok_def pending_ok_def batch_armed_def same_timers_viewD [OF assms] by (rule refl)+

lemma timers_ok_same: "same_timers w w' \<Longrightarrow> timers_ok X P w' = timers_ok X P w"
  unfolding timers_ok_def
  by (simp add: recorded_same queue_ok_same idle_def same_timers_viewD [of w w'] handles_ok_def window_ok_def
      held_same [of w w'])

section \<open>Reading updates\<close>

lemma rt_at_upd [simp]: "rt_at j (upd_rt i f w) = (if j = i then f (rt_at i w) else rt_at j w)"
  by (simp add: rt_at_def upd_rt_def)

lemma upd_rt_fields [simp]:
  "wd_timers (upd_rt i f w) = wd_timers w" "wd_next (upd_rt i f w) = wd_next w"
  "wd_burst (upd_rt i f w) = wd_burst w" "wd_retry (upd_rt i f w) = wd_retry w"
  "wd_parked (upd_rt i f w) = wd_parked w" "wd_active (upd_rt i f w) = wd_active w"
  "wd_ws (upd_rt i f w) = wd_ws w" "wd_health (upd_rt i f w) = wd_health w"
  by (simp_all add: upd_rt_def)

lemma clear_handle_fields [simp]:
  "rt_at j (clear_handle h w) = rt_at j w" "wd_next (clear_handle h w) = wd_next w"
  "wd_burst (clear_handle h w) = wd_burst w" "wd_retry (clear_handle h w) = wd_retry w"
  "wd_parked (clear_handle h w) = wd_parked w" "wd_active (clear_handle h w) = wd_active w"
  "wd_ws (clear_handle h w) = wd_ws w" "wd_health (clear_handle h w) = wd_health w"
  by (simp_all add: clear_handle_def rt_at_def split: option.split)

lemma clear_handle_get [simp]:
  "jm_get (wd_timers (clear_handle h w)) k = (if h = Some k then None else jm_get (wd_timers w) k)"
  by (simp add: clear_handle_def split: option.split)

lemma set_timer_fields [simp]:
  "rt_at j (snd (set_timer t ms w)) = rt_at j w" "fst (set_timer t ms w) = wd_next w"
  "wd_next (snd (set_timer t ms w)) = Suc (wd_next w)" "wd_burst (snd (set_timer t ms w)) = wd_burst w"
  "wd_retry (snd (set_timer t ms w)) = wd_retry w" "wd_parked (snd (set_timer t ms w)) = wd_parked w"
  "wd_active (snd (set_timer t ms w)) = wd_active w" "wd_ws (snd (set_timer t ms w)) = wd_ws w"
  "jm_get (wd_timers (snd (set_timer t ms w))) k = (if k = wd_next w then Some (t, ms) else jm_get (wd_timers w) k)"
  by (simp_all add: set_timer_def rt_at_def)

lemma called_fields [simp]:
  "rt_at j (called cs w) = rt_at j w" "wd_timers (called cs w) = wd_timers w" "wd_next (called cs w) = wd_next w"
  "wd_parked (called cs w) = wd_parked w" "wd_active (called cs w) = wd_active w" "wd_ws (called cs w) = wd_ws w"
  "wd_burst (called cs w) = wd_burst w" "wd_retry (called cs w) = wd_retry w"
  by (simp_all add: called_def rt_at_def)

lemma stopped_update [simp]:
  "rn_stopped (r\<lparr>rn_batchTimer := a\<rparr>) = rn_stopped r" "rn_stopped (r\<lparr>rn_batchTimerKind := b\<rparr>) = rn_stopped r"
  "rn_stopped (r\<lparr>rn_frameFallback := c\<rparr>) = rn_stopped r" "rn_stopped (r\<lparr>rn_loadTimer := c\<rparr>) = rn_stopped r"
  "rn_stopped (r\<lparr>rn_resubscribeTimer := c\<rparr>) = rn_stopped r" "rn_stopped (r\<lparr>rn_failing := d\<rparr>) = rn_stopped r"
  "rn_stopped (r\<lparr>rn_resubscribeAttempt := n\<rparr>) = rn_stopped r" "rn_stopped (r\<lparr>rn_incompleteAttempt := n\<rparr>) = rn_stopped r"
  "rn_stopped (r\<lparr>rn_synced := p\<rparr>) = rn_stopped r" "rn_stopped (r\<lparr>rn_pending := ps\<rparr>) = rn_stopped r"
  "rn_stopped (r\<lparr>rn_deferredSince := k\<rparr>) = rn_stopped r" "rn_stopped (r\<lparr>rn_listTotal := m\<rparr>) = rn_stopped r"
  "rn_stopped (r\<lparr>rn_items := xs\<rparr>) = rn_stopped r" "rn_stopped (r\<lparr>rn_sort := o'\<rparr>) = rn_stopped r"
  "rn_stopped (r\<lparr>rn_lastInteraction := li\<rparr>) = rn_stopped r"
  by (simp_all add: rn_stopped_def)

lemma held_upd [simp]: "held P h (upd_rt i f w) = held P h w"
  by (simp add: held_def split: option.split)

section \<open>Arming and clearing\<close>

definition batch_idle :: "nat \<Rightarrow> world \<Rightarrow> bool" where
  "batch_idle i w = (case rn_batchTimer (rt_at i w) of None \<Rightarrow> True | Some h \<Rightarrow> jm_get (wd_timers w) h = None)"

definition fallback_idle :: "nat \<Rightarrow> world \<Rightarrow> bool" where
  "fallback_idle i w = (case rn_frameFallback (rt_at i w) of None \<Rightarrow> True | Some h \<Rightarrow> jm_get (wd_timers w) h = None)"

lemma set_batch_timer_ok:
  assumes ok: "timers_ok (insert i X) (insert i P) w" and live: "\<not> rn_stopped (rt_at i w)"
    and idle: "batch_idle i w" "fallback_idle i w"
    and kind: "(t = FlushTimer i \<or> t = WindowTimer i) \<and> kind = TimeoutKind \<or> t = FrameTimer i \<and> kind = RafKind"
  shows "timers_ok X P (set_batch_timer i t kind ms w)"
proof -
  have get: "jm_get (wd_timers (set_batch_timer i t kind ms w)) h =
      (if h = wd_next w then Some (t, ms) else jm_get (wd_timers w) h)" for h
    by (simp add: set_batch_timer_def set_timer_def)
  have rt: "rt_at j (set_batch_timer i t kind ms w) =
      (if j = i then (rt_at i w)\<lparr>rn_batchTimer := Some (wd_next w), rn_batchTimerKind := Some kind\<rparr> else rt_at j w)" for j
    by (auto simp: set_batch_timer_def set_timer_def rt_at_def upd_rt_def)
  have rest: "wd_next (set_batch_timer i t kind ms w) = Suc (wd_next w)"
      "wd_burst (set_batch_timer i t kind ms w) = wd_burst w" "wd_retry (set_batch_timer i t kind ms w) = wd_retry w"
    by (simp_all add: set_batch_timer_def set_timer_def)
  have rec: "recorded h t' (set_batch_timer i t kind ms w)"
    if a: "jm_get (wd_timers w) h = Some (t', ms')" for h t' ms'
  proof -
    have "recorded h t' w" using timers_okD(1) [OF ok a] .
    with a idle show ?thesis
      by (auto simp: recorded_def rt rest batch_idle_def fallback_idle_def split: timer.splits)
  qed
  have lt: "jm_get (wd_timers w) h = Some (t', ms') \<Longrightarrow> h < Suc (wd_next w)" for h t' ms'
    using timers_okD(2) [OF ok] less_SucI by blast
  have new: "recorded (wd_next w) t (set_batch_timer i t kind ms w)"
    unfolding recorded_def rt using kind by auto
  have queue: "armed_ok j (set_batch_timer i t kind ms w)" if "j \<notin> X" for j
  proof (cases "j = i")
    case True
    with kind show ?thesis by (auto simp: armed_ok_def batch_armed_def rt get flushes_def)
  next
    case False
    then have q: "armed_ok j w" using timers_okD(3) [OF ok] that by simp
    with False lt show ?thesis
      by (auto simp: armed_ok_def batch_armed_def rt get split: option.splits dest: timers_okD(2) [OF ok])
  qed
  have pend: "pending_ok j (set_batch_timer i t kind ms w)" if "j \<notin> P" for j
    using timers_okD(8) [OF ok, of j] that by (cases "j = i") (auto simp: pending_ok_def rt)
  have mono: "held P h (set_batch_timer i t kind ms w)" if "held P h w" for P h
    by (rule held_mono [OF that]) (simp_all add: get rest split: if_splits)
  have hdl: "handles_ok j (set_batch_timer i t kind ms w)" for j
    using timers_okD(6) [OF ok, of j] kind mono
    by (cases "j = i") (auto simp: handles_ok_def rt held_def get rest flushes_def)
  have win: "window_ok (set_batch_timer i t kind ms w)"
    using timers_okD(7) [OF ok] mono by (simp add: window_ok_def rest)
  show ?thesis
    by (rule timers_okI)
      (use rec lt new queue pend live timers_okD(4,5) [OF ok] hdl win in \<open>auto simp: get rt rest idle_def split: if_splits\<close>)
qed

text \<open>A field of a runtime changes; what is armed must still be recorded.\<close>

definition keeps_queue :: "(runtime \<Rightarrow> runtime) \<Rightarrow> runtime \<Rightarrow> bool" where
  "keeps_queue f r = (rn_stopped (f r) = rn_stopped r \<and> rn_pending (f r) = rn_pending r
     \<and> rn_batchTimer (f r) = rn_batchTimer r \<and> rn_batchTimerKind (f r) = rn_batchTimerKind r)"

lemma upd_field_ok:
  assumes ok: "timers_ok X P w" and keeps: "keeps_queue f (rt_at i w)"
    and rec: "\<And>h t ms. jm_get (wd_timers w) h = Some (t, ms) \<Longrightarrow> recorded h t (upd_rt i f w)"
    and idle: "rn_stopped (rt_at i w) \<Longrightarrow> idle (f (rt_at i w))" and hdl: "handles_ok i (upd_rt i f w)"
  shows "timers_ok X P (upd_rt i f w)"
proof -
  have "handles_ok j (upd_rt i f w)" for j
    using hdl timers_okD(6) [OF ok, of j] by (cases "j = i") (simp_all add: handles_ok_def)
  moreover have "window_ok (upd_rt i f w)"
    using timers_okD(7) [OF ok] by (simp add: window_ok_def)
  moreover
  have "armed_ok j (upd_rt i f w) = armed_ok j w" "pending_ok j (upd_rt i f w) = pending_ok j w" for j
    using keeps by (auto simp: armed_ok_def pending_ok_def batch_armed_def keeps_queue_def)
  ultimately show ?thesis
    by (intro timers_okI) (use ok rec idle keeps in \<open>auto simp: timers_ok_def keeps_queue_def\<close>)
qed

lemma clear_exempt_ok:
  assumes ok: "timers_ok X P w"
    and spare: "\<And>k t ms j. h = Some k \<Longrightarrow> jm_get (wd_timers w) k = Some (t, ms) \<Longrightarrow> j \<notin> X \<Longrightarrow> \<not> flushes j t"
  shows "timers_ok X P (clear_handle h w)"
proof -
  have "armed_ok j (clear_handle h w)" if "armed_ok j w" "j \<notin> X" for j
    using that spare by (auto simp: armed_ok_def batch_armed_def split: option.splits)
  moreover have "pending_ok j (clear_handle h w) = pending_ok j w" for j
    by (simp add: pending_ok_def)
  moreover have "recorded k t (clear_handle h w) = recorded k t w" for k t
    by (simp add: recorded_def split: timer.split)
  moreover have "held P k (clear_handle h w)" if "held P k w" for P k
    by (rule held_mono [OF that]) (simp_all split: if_splits)
  ultimately show ?thesis using ok by (auto simp: timers_ok_def handles_ok_def window_ok_def)
qed

lemma clear_ok:
  assumes "timers_ok X P w"
    and "\<And>k t ms. h = Some k \<Longrightarrow> jm_get (wd_timers w) k = Some (t, ms) \<Longrightarrow> (\<forall>j. \<not> flushes j t)"
  shows "timers_ok X P (clear_handle h w)"
  using clear_exempt_ok [OF assms(1)] assms(2) by blast

lemma arm_field_ok:
  assumes ok: "timers_ok X P w" and live: "\<not> rn_stopped (rt_at i w)" and keeps: "keeps_queue f (rt_at i w)"
    and rec: "\<And>h t' ms'. jm_get (wd_timers w) h = Some (t', ms') \<Longrightarrow> recorded h t' (upd_rt i f w)"
    and new: "recorded (wd_next w) t (upd_rt i f w)"
    and hdl: "handles_ok i (upd_rt i f (snd (set_timer t ms w)))"
  shows "timers_ok X P (upd_rt i f (snd (set_timer t ms w)))"
proof -
  let ?w = "upd_rt i f (snd (set_timer t ms w))"
  have get: "jm_get (wd_timers ?w) h = (if h = wd_next w then Some (t, ms) else jm_get (wd_timers w) h)" for h
    by (simp add: set_timer_def)
  have rt: "rt_at j ?w = rt_at j (upd_rt i f w)" for j
    by (simp add: set_timer_def rt_at_def upd_rt_def)
  have rest: "wd_next ?w = Suc (wd_next w)" "wd_burst ?w = wd_burst w" "wd_retry ?w = wd_retry w"
    by (simp_all add: set_timer_def)
  have r: "recorded h t' ?w = recorded h t' (upd_rt i f w)" for h t'
    unfolding recorded_def rt rest by (simp split: timer.split)
  have q: "armed_ok j ?w" if j: "j \<notin> X" for j
  proof -
    have armed: "rn_batchTimer (rt_at j w) \<noteq> None \<longrightarrow> batch_armed j w"
      using timers_okD(3) [OF ok j] by (simp add: armed_ok_def)
    have view: "rn_batchTimer (rt_at j ?w) = rn_batchTimer (rt_at j w)"
      using keeps by (simp_all add: keeps_queue_def)
    have "batch_armed j ?w" if a: "batch_armed j w"
    proof -
      from a obtain k t1 ms1 where k: "rn_batchTimer (rt_at j w) = Some k"
          "jm_get (wd_timers w) k = Some (t1, ms1)" "flushes j t1"
        by (auto simp: batch_armed_def split: option.splits)
      with timers_okD(2) [OF ok k(2)] have gk: "jm_get (wd_timers ?w) k = Some (t1, ms1)" by (simp add: get)
      show ?thesis unfolding batch_armed_def view k(1) option.case gk prod.case by (rule k(3))
    qed
    with armed show ?thesis unfolding armed_ok_def view by blast
  qed
  have pq: "pending_ok j ?w" if "j \<notin> P" for j
    using timers_okD(8) [OF ok that] keeps by (auto simp: pending_ok_def keeps_queue_def)
  have lt: "jm_get (wd_timers w) h = Some (t', ms') \<Longrightarrow> h < Suc (wd_next w)" for h t' ms'
    using timers_okD(2) [OF ok] less_SucI by blast
  have mono: "held P h ?w" if "held P h w" for P h
    by (rule held_mono [OF that]) (simp_all add: get split: if_splits)
  have hj: "handles_ok j ?w" for j
    using hdl timers_okD(6) [OF ok, of j] mono by (cases "j = i") (auto simp: handles_ok_def)
  have win: "window_ok ?w"
    using timers_okD(7) [OF ok] mono by (simp add: window_ok_def)
  show ?thesis
    by (rule timers_okI)
      (use rec new q pq live lt timers_okD(4,5) [OF ok] keeps hj win in \<open>auto simp: get r keeps_queue_def split: if_splits\<close>)
qed

section \<open>Each step of a runtime\<close>

lemma requestFlushFrame_ok:
  assumes ok: "timers_ok (insert i X) (insert i P) w" and live: "\<not> rn_stopped (rt_at i w)"
    and idle: "batch_idle i w" "fallback_idle i w"
  shows "timers_ok X P (requestFlushFrame e i w)"
proof (cases "en_hidden e")
  case True
  then show ?thesis using set_batch_timer_ok [OF ok live idle] by (simp add: requestFlushFrame_def)
next
  case False
  define w1 where "w1 = set_batch_timer i (FrameTimer i) RafKind 0 w"
  have ok1: "timers_ok X P w1"
    unfolding w1_def by (rule set_batch_timer_ok [OF ok live idle]) simp
  have rt1: "rt_at i w1 = (rt_at i w)\<lparr>rn_batchTimer := Some (wd_next w), rn_batchTimerKind := Some RafKind\<rparr>"
    by (simp add: w1_def set_batch_timer_def set_timer_def rt_at_def upd_rt_def)
  have none: "jm_get (wd_timers w1) h \<noteq> Some (FallbackTimer i, ms)" for h ms
  proof
    assume a: "jm_get (wd_timers w1) h = Some (FallbackTimer i, ms)"
    then have h: "rn_frameFallback (rt_at i w) = Some h"
      using timers_okD(1) [OF ok1 a] by (simp add: recorded_def rt1)
    have "h \<noteq> wd_next w" using a by (auto simp: w1_def set_batch_timer_def set_timer_def)
    with a have "jm_get (wd_timers w) h = Some (FallbackTimer i, ms)"
      by (simp add: w1_def set_batch_timer_def set_timer_def)
    with h idle(2) show False by (simp add: fallback_idle_def)
  qed
  have e: "requestFlushFrame e i w =
      upd_rt i (\<lambda>r. r\<lparr>rn_frameFallback := Some (wd_next w1)\<rparr>) (snd (set_timer (FallbackTimer i) FRAME_FALLBACK_MS w1))"
    using False by (simp add: requestFlushFrame_def w1_def set_timer_def)
  show ?thesis unfolding e
  proof (rule arm_field_ok [OF ok1])
    show "\<not> rn_stopped (rt_at i w1)" using live by (simp add: rt1)
    show "keeps_queue (\<lambda>r. r\<lparr>rn_frameFallback := Some (wd_next w1)\<rparr>) (rt_at i w1)" by (simp add: keeps_queue_def)
    show "recorded (wd_next w1) (FallbackTimer i) (upd_rt i (\<lambda>r. r\<lparr>rn_frameFallback := Some (wd_next w1)\<rparr>) w1)"
      by (simp add: recorded_def rt1)
    show "handles_ok i (upd_rt i (\<lambda>r. r\<lparr>rn_frameFallback := Some (wd_next w1)\<rparr>)
        (snd (set_timer (FallbackTimer i) FRAME_FALLBACK_MS w1)))"
      using timers_okD(6) [OF ok1, of i] by (auto simp: handles_ok_def held_def split: option.splits if_splits)
    show "recorded h t' (upd_rt i (\<lambda>r. r\<lparr>rn_frameFallback := Some (wd_next w1)\<rparr>) w1)"
      if "jm_get (wd_timers w1) h = Some (t', ms')" for h t' ms'
      using timers_okD(1) [OF ok1 that] none that by (auto simp: recorded_def split: timer.splits)
  qed
qed

lemma scheduleFlush_ok:
  assumes "timers_ok (insert i X) (insert i P) w" "\<not> rn_stopped (rt_at i w)" "batch_idle i w" "fallback_idle i w"
  shows "timers_ok X P (scheduleFlush e i w)"
  using requestFlushFrame_ok [OF assms] set_batch_timer_ok [OF assms]
  by (auto simp: scheduleFlush_def)

end
