(* ===== verification/LiveListSteps.thy ===== *)
theory LiveListSteps
  imports LiveListTimers
begin

text \<open>
  Every operation of \<open>realtimeSlice.ts\<close> on one runtime keeps \<open>timers_ok\<close>: clearing and
  closing, the outcome of a batch, the batch itself, the events coming in, and the timers.
\<close>

section \<open>Clearing and closing\<close>

lemma clearTimer_get:
  "jm_get (wd_timers (clearTimer i w)) h =
     (if rn_batchTimer (rt_at i w) = Some h \<or> rn_frameFallback (rt_at i w) = Some h then None else jm_get (wd_timers w) h)"
  by (auto simp: clearTimer_def Let_def split: option.splits)

lemma clearTimer_rt:
  "rt_at j (clearTimer i w) =
     (if j = i
      then (rt_at i w)\<lparr>rn_frameFallback := None, rn_batchTimer := None,
             rn_batchTimerKind := (if rn_batchTimer (rt_at i w) = None then rn_batchTimerKind (rt_at i w) else None)\<rparr>
      else rt_at j w)"
  by (auto simp: clearTimer_def Let_def split: option.splits)

lemma clearTimer_rest [simp]:
  "wd_next (clearTimer i w) = wd_next w" "wd_burst (clearTimer i w) = wd_burst w" "wd_retry (clearTimer i w) = wd_retry w"
  "wd_parked (clearTimer i w) = wd_parked w" "wd_active (clearTimer i w) = wd_active w" "wd_ws (clearTimer i w) = wd_ws w"
  by (auto simp: clearTimer_def Let_def split: option.splits)

definition own_handles :: "runtime \<Rightarrow> nat set" where
  "own_handles r = {h. Some h \<in> {rn_batchTimer r, rn_frameFallback r, rn_loadTimer r, rn_resubscribeTimer r}}"

text \<open>Clearing timers of one runtime leaves the flush of another armed.\<close>

lemma wipe_ok:
  assumes ok: "timers_ok (insert i X) (insert i P) w"
    and get: "\<And>h. jm_get (wd_timers w') h = (if h \<in> H then None else jm_get (wd_timers w) h)"
    and H: "H \<subseteq> own_handles (rt_at i w)"
    and other: "\<And>j. j \<noteq> i \<Longrightarrow> rt_at j w' = rt_at j w"
    and rest: "wd_next w' = wd_next w" "wd_burst w' = wd_burst w" "wd_retry w' = wd_retry w"
    and batch: "rn_batchTimer (rt_at i w') = None" "rn_frameFallback (rt_at i w') = None"
      "\<And>h. rn_batchTimer (rt_at i w) = Some h \<Longrightarrow> h \<in> H" "\<And>h. rn_frameFallback (rt_at i w) = Some h \<Longrightarrow> h \<in> H"
    and load: "rn_loadTimer (rt_at i w') = rn_loadTimer (rt_at i w)
        \<or> rn_loadTimer (rt_at i w') = None \<and> (\<forall>h. rn_loadTimer (rt_at i w) = Some h \<longrightarrow> h \<in> H)"
    and resub: "rn_resubscribeTimer (rt_at i w') = rn_resubscribeTimer (rt_at i w)
        \<or> rn_resubscribeTimer (rt_at i w') = None \<and> (\<forall>h. rn_resubscribeTimer (rt_at i w) = Some h \<longrightarrow> h \<in> H)"
    and stop: "rn_stopped (rt_at i w) \<Longrightarrow> rn_stopped (rt_at i w')"
    and idle: "rn_stopped (rt_at i w') \<Longrightarrow> idle (rt_at i w')"
  shows "timers_ok (insert i X) (insert i P) w'"
proof (rule timers_okI)
  have own: "held Q h w \<Longrightarrow> h \<noteq> None \<Longrightarrow> jm_get (wd_timers w) (the h) = Some (t, ms) \<Longrightarrow> Q t" for Q h t ms
    by (auto simp: held_def split: option.splits)
  have handles: "handles_ok j w" for j using timers_okD(6) [OF ok] .
  have ownt: "t = FlushTimer i \<or> t = WindowTimer i \<or> t = FrameTimer i \<or> t = FallbackTimer i \<or> t = LoadTimer i \<or> t = ResubscribeTimer i"
    if "h \<in> H" "jm_get (wd_timers w) h = Some (t, ms)" for h t ms
    using that(1) H handles [of i] that(2)
    by (auto simp: own_handles_def handles_ok_def held_def flushes_def split: option.splits)
  show "h < wd_next w'" if "jm_get (wd_timers w') h = Some (t, ms)" for h t ms
    using that timers_okD(2) [OF ok] by (auto simp: get rest split: if_splits)
  show "recorded h t w'" if a: "jm_get (wd_timers w') h = Some (t, ms)" for h t ms
  proof -
    from a have h: "h \<notin> H" "jm_get (wd_timers w) h = Some (t, ms)" by (auto simp: get split: if_splits)
    from timers_okD(1) [OF ok h(2)] have r: "recorded h t w" .
    have keep: "rn_batchTimer (rt_at j w') = rn_batchTimer (rt_at j w) \<and> rn_frameFallback (rt_at j w') = rn_frameFallback (rt_at j w)
        \<and> rn_batchTimerKind (rt_at j w') = rn_batchTimerKind (rt_at j w)" if "j \<noteq> i" for j
      using that other by simp
    show ?thesis
      using r h(1) batch load resub keep other by (auto simp: recorded_def rest split: timer.splits) (metis+)
  qed
  show "armed_ok j w'" if "j \<notin> insert i X" for j
  proof -
    have "armed_ok j w" using timers_okD(3) [OF ok] that by simp
    moreover have "\<not> flushes j t" if "h \<in> H" "jm_get (wd_timers w) h = Some (t, ms)" for h t ms
      using ownt [OF that] \<open>j \<notin> insert i X\<close> by (auto simp: flushes_def)
    ultimately show ?thesis
      using other [of j] that by (auto simp: armed_ok_def batch_armed_def get split: option.splits)
  qed
  show "pending_ok j w'" if "j \<notin> insert i P" for j
    using timers_okD(8) [OF ok that] other [of j] that by (simp add: pending_ok_def)
  show "idle (rt_at j w')" if "rn_stopped (rt_at j w')" for j
    using that idle timers_okD(4) [OF ok, of j] other [of j] by (cases "j = i") auto
  show "rn_stopped (rt_at j w')" if "wd_next w' \<le> j" for j
    using that timers_okD(5) [OF ok, of j] stop other [of j] by (cases "j = i") (auto simp: rest)
  have mono: "held Q h w'" if "held Q h w" for Q h
    by (rule held_mono [OF that]) (auto simp: get rest split: if_splits)
  show "handles_ok j w'" for j
    using handles [of j] mono other [of j] batch load resub
    by (cases "j = i") (auto simp: handles_ok_def)
  show "window_ok w'"
    using timers_okD(7) [OF ok] mono by (simp add: window_ok_def rest)
qed

lemma clearTimer_ok:
  assumes "timers_ok (insert i X) (insert i P) w"
  shows "timers_ok (insert i X) (insert i P) (clearTimer i w)"
  by (rule wipe_ok [OF assms, where H = "{h. rn_batchTimer (rt_at i w) = Some h \<or> rn_frameFallback (rt_at i w) = Some h}"])
    (use timers_okD(4) [OF assms, of i] in \<open>auto simp: clearTimer_get clearTimer_rt own_handles_def idle_def\<close>)

lemma closeRuntime_get:
  "jm_get (wd_timers (closeRuntime i w)) h = (if h \<in> own_handles (rt_at i w) then None else jm_get (wd_timers w) h)"
  by (auto simp: closeRuntime_def Let_def clearTimer_get clearTimer_rt own_handles_def)

lemma closeRuntime_rt:
  "rt_at j (closeRuntime i w) =
     (if j = i
      then (rt_at i w)\<lparr>rn_session := (rn_session (rt_at i w))\<lparr>rs_stopped := True\<rparr>, rn_frameFallback := None, rn_batchTimer := None,
             rn_batchTimerKind := (if rn_batchTimer (rt_at i w) = None then rn_batchTimerKind (rt_at i w) else None),
             rn_loadTimer := None, rn_resubscribeTimer := None, rn_pending := []\<rparr>
      else rt_at j w)"
  by (auto simp: closeRuntime_def Let_def clearTimer_rt)

lemma closeRuntime_rest [simp]:
  "wd_next (closeRuntime i w) = wd_next w" "wd_burst (closeRuntime i w) = wd_burst w"
  "wd_retry (closeRuntime i w) = wd_retry w" "wd_active (closeRuntime i w) = wd_active w" "wd_ws (closeRuntime i w) = wd_ws w"
  by (simp_all add: closeRuntime_def Let_def)

lemma closeRuntime_stopped [simp]: "rn_stopped (rt_at j (closeRuntime i w)) \<longleftrightarrow> j = i \<or> rn_stopped (rt_at j w)"
  by (simp add: closeRuntime_rt rn_stopped_def)

lemma closeRuntime_ok:
  assumes "timers_ok (insert i X) (insert i P) w"
  shows "timers_ok X P (closeRuntime i w)"
proof -
  have "timers_ok (insert i X) (insert i P) (closeRuntime i w)"
    by (rule wipe_ok [OF assms, where H = "own_handles (rt_at i w)"])
      (auto simp: closeRuntime_get closeRuntime_rt own_handles_def idle_def rn_stopped_def)
  then show ?thesis
    by (rule timers_ok_settle) (simp_all add: armed_ok_def pending_ok_def closeRuntime_rt)
qed

section \<open>Load and resubscribe timers\<close>

lemma upd_plain_ok:
  assumes "timers_ok X P w" "timer_view (f (rt_at i w)) = timer_view (rt_at i w)" "rn_topic (f (rt_at i w)) = rn_topic (rt_at i w)"
  shows "timers_ok X P (upd_rt i f w)"
proof -
  have "same_timers w (upd_rt i f w)" using assms by (intro same_timers_upd) simp_all
  then show ?thesis using assms(1) by (simp add: timers_ok_same)
qed

lemma field_drop_ok:
  assumes ok: "timers_ok X P w" and keeps: "keeps_queue f (rt_at i w)"
    and fb: "rn_frameFallback (f (rt_at i w)) = rn_frameFallback (rt_at i w)"
    and h: "h = rn_loadTimer (rt_at i w) \<and> rn_loadTimer (f (rt_at i w)) = None
          \<and> rn_resubscribeTimer (f (rt_at i w)) = rn_resubscribeTimer (rt_at i w)
        \<or> h = rn_resubscribeTimer (rt_at i w) \<and> rn_resubscribeTimer (f (rt_at i w)) = None
          \<and> rn_loadTimer (f (rt_at i w)) = rn_loadTimer (rt_at i w)"
  shows "timers_ok X P (upd_rt i f (clear_handle h w))"
proof -
  have c: "timers_ok X P (clear_handle h w)"
  proof (rule clear_ok [OF ok])
    fix k t ms assume k: "h = Some k" "jm_get (wd_timers w) k = Some (t, ms)"
    then have "LoadTimer i = t \<or> ResubscribeTimer i = t"
      using timers_okD(6) [OF ok, of i] h heldD unfolding handles_ok_def by metis
    then show "\<forall>j. \<not> flushes j t" by (auto simp: flushes_def)
  qed
  show ?thesis
  proof (rule upd_field_ok [OF c])
    show "keeps_queue f (rt_at i (clear_handle h w))" using keeps by simp
    show "recorded k t (upd_rt i f (clear_handle h w))"
      if a: "jm_get (wd_timers (clear_handle h w)) k = Some (t, ms)" for k t ms
    proof -
      from a have k: "h \<noteq> Some k" "jm_get (wd_timers w) k = Some (t, ms)" by (auto split: if_splits)
      from timers_okD(1) [OF ok k(2)] k(1) h fb keeps show ?thesis
        by (cases t) (auto simp: recorded_def keeps_queue_def)
    qed
    show "idle (f (rt_at i (clear_handle h w)))" if "rn_stopped (rt_at i (clear_handle h w))"
      using that timers_okD(4) [OF ok, of i] fb h keeps by (auto simp: idle_def keeps_queue_def)
    show "handles_ok i (upd_rt i f (clear_handle h w))"
      using timers_okD(6) [OF c, of i] h fb keeps by (auto simp: handles_ok_def keeps_queue_def)
  qed
qed

lemma markLive_ok: "timers_ok X P w \<Longrightarrow> timers_ok X P (markLive e i complete l w)"
proof -
  assume ok: "timers_ok X P w"
  define w1 where "w1 = (if complete
      then upd_rt i (\<lambda>r. r\<lparr>rn_failing := None, rn_resubscribeAttempt := 0, rn_incompleteAttempt := 0, rn_resubscribeTimer := None\<rparr>)
             (clear_handle (rn_resubscribeTimer (rt_at i w)) w) else w)"
  have "timers_ok X P w1"
    using ok by (auto simp: w1_def keeps_queue_def intro!: field_drop_ok)
  then show ?thesis
    unfolding markLive_def Let_def w1_def [symmetric]
    using timers_ok_same [OF same_timers_health [OF same_timers_refl]] by blast
qed

lemma scheduleResubscribe_ok:
  assumes ok: "timers_ok X P w" shows "timers_ok X P (scheduleResubscribe i w)"
proof (cases "rn_resubscribeTimer (rt_at i w) \<noteq> None \<or> rn_stopped (rt_at i w)")
  case True
  then show ?thesis using ok by (simp add: scheduleResubscribe_def)
next
  case False
  let ?t = "ResubscribeTimer i" and ?ms = "resubscribe_delay (rn_resubscribeAttempt (rt_at i w))"
  let ?f = "\<lambda>r. r\<lparr>rn_resubscribeAttempt := Suc (rn_resubscribeAttempt r), rn_resubscribeTimer := Some (wd_next w)\<rparr>"
  have e: "scheduleResubscribe i w = upd_rt i ?f (snd (set_timer ?t ?ms w))"
    using False by (simp add: scheduleResubscribe_def set_timer_def)
  show ?thesis unfolding e
  proof (rule arm_field_ok [OF ok])
    show "\<not> rn_stopped (rt_at i w)" using False by simp
    show "keeps_queue ?f (rt_at i w)" by (simp add: keeps_queue_def)
    show "recorded h t' (upd_rt i ?f w)" if a: "jm_get (wd_timers w) h = Some (t', ms')" for h t' ms'
      using timers_okD(1) [OF ok a] False by (auto simp: recorded_def split: timer.splits)
    show "recorded (wd_next w) ?t (upd_rt i ?f w)" by (simp add: recorded_def)
    show "handles_ok i (upd_rt i ?f (snd (set_timer ?t ?ms w)))"
      using timers_okD(6) [OF ok, of i] by (auto simp: handles_ok_def held_def split: option.splits if_splits)
  qed
qed

lemma markFailing_ok: "timers_ok X P w \<Longrightarrow> timers_ok X P (markFailing i f l w)"
proof -
  assume ok: "timers_ok X P w"
  define w1 where "w1 = upd_rt i (\<lambda>r. r\<lparr>rn_failing := Some (f\<lparr>tf_since := failing_since (rt_at i w) f\<rparr>), rn_loadTimer := None\<rparr>)
      (clear_handle (rn_loadTimer (rt_at i w)) w)"
  have "timers_ok X P w1"
    using ok by (auto simp: w1_def keeps_queue_def intro!: field_drop_ok)
  then have "timers_ok X P (writeHealth t h w1)" for t h
    using timers_ok_same [OF same_timers_health [OF same_timers_refl]] by blast
  then show ?thesis
    unfolding markFailing_def Let_def w1_def [symmetric] by (simp add: scheduleResubscribe_ok)
qed

lemma markIncomplete_ok: "timers_ok X P w \<Longrightarrow> timers_ok X P (markIncomplete e i w)"
proof -
  assume ok: "timers_ok X P w"
  define w1 where "w1 = upd_rt i (\<lambda>r. r\<lparr>rn_synced := False\<rparr>) w"
  define w2 where "w2 = upd_rt i (\<lambda>r. r\<lparr>rn_incompleteAttempt := Suc (rn_incompleteAttempt r)\<rparr>) w1"
  have ok1: "timers_ok X P w1" unfolding w1_def by (rule upd_plain_ok [OF ok]) (simp_all add: timer_view_def)
  then have "timers_ok X P w2" unfolding w2_def by (rule upd_plain_ok) (simp_all add: timer_view_def)
  then have "timers_ok X P (writeHealth t h w2)" for t h
    using timers_ok_same [OF same_timers_health [OF same_timers_refl]] by blast
  with ok1 show ?thesis
    unfolding markIncomplete_def Let_def w1_def [symmetric] w2_def [symmetric]
    by (simp add: scheduleResubscribe_ok markFailing_ok)
qed

lemma armLoadTimer_ok:
  assumes ok: "timers_ok X P w" and live: "\<not> rn_stopped (rt_at i w)"
  shows "timers_ok X P (armLoadTimer i ms w)"
proof -
  define w1 where "w1 = clear_handle (rn_loadTimer (rt_at i w)) w"
  have ok1: "timers_ok X P w1"
    unfolding w1_def using timers_okD(6) [OF ok, of i]
    by (intro clear_ok [OF ok]) (auto simp: handles_ok_def held_def flushes_def)
  have none: "rn_loadTimer (rt_at i w1) = Some h \<Longrightarrow> jm_get (wd_timers w1) h = None" for h
    by (simp add: w1_def)
  let ?f = "\<lambda>r. r\<lparr>rn_loadTimer := Some (wd_next w1)\<rparr>"
  have e: "armLoadTimer i ms w = upd_rt i ?f (snd (set_timer (LoadTimer i) ms w1))"
    by (simp add: armLoadTimer_def set_timer_def w1_def)
  show ?thesis unfolding e
  proof (rule arm_field_ok [OF ok1])
    show "\<not> rn_stopped (rt_at i w1)" using live by (simp add: w1_def)
    show "keeps_queue ?f (rt_at i w1)" by (simp add: keeps_queue_def)
    show "recorded h t' (upd_rt i ?f w1)" if a: "jm_get (wd_timers w1) h = Some (t', ms')" for h t' ms'
      using timers_okD(1) [OF ok1 a] none [of h] a by (auto simp: recorded_def split: timer.splits)
    show "recorded (wd_next w1) (LoadTimer i) (upd_rt i ?f w1)" by (simp add: recorded_def)
    show "handles_ok i (upd_rt i ?f (snd (set_timer (LoadTimer i) ms w1)))"
      using timers_okD(6) [OF ok1, of i] by (auto simp: handles_ok_def held_def split: option.splits if_splits)
  qed
qed

lemma outcomeOf_ok: "timers_ok X P w \<Longrightarrow> timers_ok X P (snd (outcomeOf e i result events w))"
proof -
  assume ok: "timers_ok X P w"
  then have "timers_ok X P (upd_rt i (\<lambda>r. r\<lparr>rn_synced := True\<rparr>) w)"
    by (rule upd_plain_ok) (simp_all add: timer_view_def)
  with ok show ?thesis
    by (auto simp: outcomeOf_def intro: markFailing_ok markIncomplete_ok markLive_ok split: option.split)
qed

lemma onTopicStatus_ok: "timers_ok X P w \<Longrightarrow> timers_ok X P (onTopicStatus e i ev w)"
proof -
  assume ok: "timers_ok X P w"
  have patch: "timers_ok X P (patchShownList i p w') = timers_ok X P w'" "timers_ok X P (writeHealth t h w') = timers_ok X P w'" for p w' t h
    by (rule timers_ok_same, intro same_timers_intros)+
  have "timers_ok X P (upd_rt i (\<lambda>r. r\<lparr>rn_failing := None, rn_resubscribeAttempt := 0\<rparr>) w)"
    using ok by (rule upd_plain_ok) (simp_all add: timer_view_def)
  with ok show ?thesis
    by (auto simp: onTopicStatus_def Let_def patch markFailing_ok)
qed

section \<open>Batches\<close>

text \<open>\<open>apply_pending\<close> empties the queue, so the runtime needs no flush armed.\<close>

lemma apply_pending_view:
  assumes a: "apply_pending i base w = (result, events, w1)"
  shows "wd_timers w1 = wd_timers w" "wd_next w1 = wd_next w" "wd_burst w1 = wd_burst w" "wd_retry w1 = wd_retry w"
    "wd_parked w1 = wd_parked w" "wd_active w1 = wd_active w"
    "rn_pending (rt_at j w1) = (if j = i then [] else rn_pending (rt_at j w))"
    "rn_stopped (rt_at j w1) = rn_stopped (rt_at j w)" "rn_topic (rt_at j w1) = rn_topic (rt_at j w)"
    "rn_batchTimer (rt_at j w1) = rn_batchTimer (rt_at j w)"
    "rn_batchTimerKind (rt_at j w1) = rn_batchTimerKind (rt_at j w)"
    "rn_frameFallback (rt_at j w1) = rn_frameFallback (rt_at j w)"
    "rn_loadTimer (rt_at j w1) = rn_loadTimer (rt_at j w)"
    "rn_resubscribeTimer (rt_at j w1) = rn_resubscribeTimer (rt_at j w)"
proof -
  obtain s res where ap: "applyRealtimeEvents base (rn_pending (rt_at i w)) (rn_session (rt_at i w)) = (s, res)"
    by (cases "applyRealtimeEvents base (rn_pending (rt_at i w)) (rn_session (rt_at i w))")
  have st: "rs_stopped s = rs_stopped (rn_session (rt_at i w))"
    using applyRealtimeEvents_stopped [of base "rn_pending (rt_at i w)" "rn_session (rt_at i w)"] by (simp add: ap)
  define w0 where "w0 = upd_rt i (\<lambda>r. r\<lparr>rn_pending := [], rn_session := s, rn_items := ar_items res\<rparr>) w"
  have w1: "w1 = cacheItems (rn_topic (rt_at i w)) (ar_items res) w0"
    using a by (auto simp: apply_pending_def Let_def ap w0_def)
  have rt: "rt_at j w1 = rt_at j w0" for j by (simp add: w1 cacheItems_def rt_at_def)
  show "wd_timers w1 = wd_timers w" "wd_next w1 = wd_next w" "wd_burst w1 = wd_burst w" "wd_retry w1 = wd_retry w"
    "wd_parked w1 = wd_parked w" "wd_active w1 = wd_active w"
    by (simp_all add: w1 cacheItems_def w0_def)
  show "rn_pending (rt_at j w1) = (if j = i then [] else rn_pending (rt_at j w))"
    "rn_stopped (rt_at j w1) = rn_stopped (rt_at j w)" "rn_topic (rt_at j w1) = rn_topic (rt_at j w)"
    "rn_batchTimer (rt_at j w1) = rn_batchTimer (rt_at j w)"
    "rn_batchTimerKind (rt_at j w1) = rn_batchTimerKind (rt_at j w)"
    "rn_frameFallback (rt_at j w1) = rn_frameFallback (rt_at j w)"
    "rn_loadTimer (rt_at j w1) = rn_loadTimer (rt_at j w)"
    "rn_resubscribeTimer (rt_at j w1) = rn_resubscribeTimer (rt_at j w)"
    by (simp_all add: rt w0_def rn_stopped_def st)
qed

lemma apply_pending_ok:
  assumes a: "apply_pending i base w = (result, events, w1)"
    and ok: "timers_ok (insert i X) (insert i P) w" and none: "rn_batchTimer (rt_at i w) = None"
  shows "timers_ok X P w1"
proof (rule timers_ok_settle)
  note v = apply_pending_view [OF a]
  have r: "recorded h t w1 = recorded h t w" for h t
    unfolding recorded_def v by (rule refl)
  have q: "armed_ok j w1 = armed_ok j w" for j
    unfolding armed_ok_def batch_armed_def v by (rule refl)
  have hd: "held Q h w1 = held Q h w" for Q h
    unfolding held_def v by (rule refl)
  show "timers_ok (insert i X) (insert i P) w1"
  proof (rule timers_okI)
    show "pending_ok j w1" if "j \<notin> insert i P" for j
      using timers_okD(8) [OF ok that] that by (simp add: pending_ok_def v)
    show "idle (rt_at j w1)" if "rn_stopped (rt_at j w1)" for j
      using timers_okD(4) [OF ok, of j] that by (simp add: idle_def v)
    show "handles_ok j w1" for j
      using timers_okD(6) [OF ok, of j] by (simp add: handles_ok_def hd v)
    show "window_ok w1" using timers_okD(7) [OF ok] by (simp add: window_ok_def hd v)
  qed (use timers_okD [OF ok] in \<open>auto simp: r q v\<close>)
  show "armed_ok i w1" "pending_ok i w1" by (simp_all add: armed_ok_def pending_ok_def v none)
qed

lemma process_off_screen_ok:
  assumes ok: "timers_ok (insert i X) (insert i P) w" and none: "rn_batchTimer (rt_at i w) = None"
  shows "timers_ok X P (process_off_screen e i w)"
proof -
  obtain result events w1 where a: "apply_pending i (rn_items (rt_at i w)) w = (result, events, w1)"
    by (metis prod_cases3)
  have ok1: "timers_ok X P w1" by (rule apply_pending_ok [OF a ok none])
  define w2 where "w2 = snd (outcomeOf e i result events w1)"
  have ok2: "timers_ok X P w2" unfolding w2_def by (rule outcomeOf_ok [OF ok1])
  have s: "same_timers w2 (markListingRemovals i result
      (if ar_changed result then (case paneTabsShowing i False w2 of Some ids \<Rightarrow> writePaneTabs i ids w2 | None \<Rightarrow> w2) else w2))"
    by (auto intro!: same_timers_intros split: option.split)
  show ?thesis
    using timers_ok_same [OF s] ok2 unfolding process_off_screen_def a Let_def prod.case w2_def by simp
qed

lemma process_on_screen_ok:
  assumes ok: "timers_ok (insert i X) (insert i P) w" and none: "rn_batchTimer (rt_at i w) = None"
  shows "timers_ok X P (process_on_screen e i st r w)"
proof -
  obtain result events w1 where a: "apply_pending i (base_items (rt_at i w) r st) w = (result, events, w1)"
    by (metis prod_cases3)
  have ok1: "timers_ok X P w1" by (rule apply_pending_ok [OF a ok none])
  define w2 where "w2 = (if rollout_kind r then rollouts i r st (ar_items result) events w1 else w1)"
  have s2: "same_timers w1 w2" by (auto simp: w2_def intro!: same_timers_intros)
  obtain sel w3 where f: "followed_selection i result events (ts_selectedItem st) w2 = (sel, w3)"
    by (cases "followed_selection i result events (ts_selectedItem st) w2")
  have "same_timers w1 w3" using same_timers_followed [OF s2, of i result events "ts_selectedItem st"] by (simp add: f)
  with ok1 have ok3: "timers_ok X P w3" by (simp add: timers_ok_same)
  obtain out w4 where o: "outcomeOf e i result events w3 = (out, w4)" by (cases "outcomeOf e i result events w3")
  have ok4: "timers_ok X P w4" using outcomeOf_ok [OF ok3, of e i result events] by (simp add: o)
  define patch where "patch = outcome_patch out (map_option tf_error (rn_failing (rt_at i w4))) (listSyncOf (rt_at i w4))"
  define c where "c = (ar_changed result \<or> sel \<noteq> ts_selectedItem st \<or> (en_copy e \<and> sel \<noteq> None) \<or> patch st \<noteq> st)"
  have s: "same_timers w4 (markListingRemovals i result (updateDetails r events
      (if c then commitList r (ar_items result) patch sel w4 else w4)))"
    by (auto intro!: same_timers_intros)
  have "process_on_screen e i st r w = markListingRemovals i result (updateDetails r events
      (if c then commitList r (ar_items result) patch sel w4 else w4))"
    unfolding process_on_screen_def a Let_def prod.case w2_def [symmetric] f o patch_def [symmetric] c_def [symmetric] by (rule refl)
  then show ?thesis using timers_ok_same [OF s] ok4 by simp
qed

lemma processBatch_ok:
  assumes ok: "timers_ok (insert i X) (insert i P) w" and idle: "batch_idle i w"
  shows "timers_ok X P (processBatch e i w)"
proof -
  define w1 where "w1 = upd_rt i (\<lambda>r. r\<lparr>rn_frameFallback := None, rn_batchTimer := None, rn_batchTimerKind := None\<rparr>)
      (clear_handle (rn_frameFallback (rt_at i w)) w)"
  have ok1: "timers_ok (insert i X) (insert i P) w1"
  proof (rule wipe_ok [OF ok, where H = "{h. rn_batchTimer (rt_at i w) = Some h \<or> rn_frameFallback (rt_at i w) = Some h}"])
    show "jm_get (wd_timers w1) h =
        (if h \<in> {h. rn_batchTimer (rt_at i w) = Some h \<or> rn_frameFallback (rt_at i w) = Some h} then None else jm_get (wd_timers w) h)" for h
      using idle by (auto simp: w1_def batch_idle_def)
  qed (use timers_okD(4) [OF ok, of i] in \<open>auto simp: w1_def own_handles_def idle_def\<close>)
  have none: "rn_batchTimer (rt_at i w1) = None" by (simp add: w1_def)
  show ?thesis
  proof (cases "rn_stopped (rt_at i w1) \<or> rn_pending (rt_at i w1) = []")
    case True
    then have "rn_pending (rt_at i w1) = []" using timers_okD(4) [OF ok1, of i] by (auto simp: idle_def)
    then have "timers_ok X P w1" by (intro timers_ok_settle [OF ok1]) (simp_all add: armed_ok_def pending_ok_def none)
    with True show ?thesis unfolding processBatch_def Let_def w1_def [symmetric] by simp
  next
    case False
    then show ?thesis
      unfolding processBatch_def Let_def w1_def [symmetric]
      using process_off_screen_ok [OF ok1 none] process_on_screen_ok [OF ok1 none]
      by (auto split: option.split)
  qed
qed

section \<open>Timers going off\<close>

lemma window_fired_ok:
  assumes "timers_ok (insert i X) (insert i P) w" "\<not> rn_stopped (rt_at i w)" "batch_idle i w" "fallback_idle i w"
  shows "timers_ok X P (window_fired e i w)"
  using requestFlushFrame_ok [OF assms] scheduleFlush_ok [OF assms] by (simp add: window_fired_def Let_def)

lemma fallback_fired_ok:
  assumes ok: "timers_ok X P w" and gone: "fallback_idle i w"
  shows "timers_ok X P (fallback_fired e i w)"
proof -
  define w1 where "w1 = upd_rt i (\<lambda>r. r\<lparr>rn_frameFallback := None\<rparr>) w"
  have ok1: "timers_ok X P w1" unfolding w1_def
  proof (rule upd_field_ok [OF ok])
    show "recorded h t (upd_rt i (\<lambda>r. r\<lparr>rn_frameFallback := None\<rparr>) w)" if a: "jm_get (wd_timers w) h = Some (t, ms)" for h t ms
      using timers_okD(1) [OF ok a] gone a by (cases t) (auto simp: recorded_def fallback_idle_def)
    show "idle ((rt_at i w)\<lparr>rn_frameFallback := None\<rparr>)" if "rn_stopped (rt_at i w)"
      using timers_okD(4) [OF ok that] by (simp add: idle_def)
    show "handles_ok i (upd_rt i (\<lambda>r. r\<lparr>rn_frameFallback := None\<rparr>) w)"
      using timers_okD(6) [OF ok, of i] by (simp add: handles_ok_def)
  qed (simp add: keeps_queue_def)
  show ?thesis
  proof (cases "rn_batchTimerKind (rt_at i w1) \<noteq> Some RafKind \<or> rn_batchTimer (rt_at i w1) = None")
    case True
    with ok1 show ?thesis by (simp add: fallback_fired_def Let_def w1_def [symmetric])
  next
    case False
    define w2 where "w2 = clear_handle (rn_batchTimer (rt_at i w1)) w1"
    have ok1': "timers_ok (insert i X) (insert i P) w1" by (rule timers_ok_mono [OF ok1]) auto
    have "timers_ok (insert i X) (insert i P) w2" unfolding w2_def
    proof (rule clear_exempt_ok [OF ok1'])
      fix k t ms j assume k: "rn_batchTimer (rt_at i w1) = Some k" "jm_get (wd_timers w1) k = Some (t, ms)" "j \<notin> insert i X"
      have "flushes i t"
        using heldD [OF _ k(1,2), of "flushes i"] timers_okD(6) [OF ok1, of i] by (simp add: handles_ok_def)
      then show "\<not> flushes j t" using k(3) by (auto simp: flushes_def)
    qed
    moreover have "batch_idle i w2" by (simp add: batch_idle_def w2_def split: option.split)
    ultimately have "timers_ok X P (processBatch e i w2)" by (rule processBatch_ok)
    then show ?thesis
      unfolding fallback_fired_def Let_def w1_def [symmetric] w2_def [symmetric] using False by (auto split: if_splits)
  qed
qed

lemma fired_field_ok:
  assumes ok: "timers_ok X P w"
    and gone: "\<And>ms h. jm_get (wd_timers w) h \<noteq> Some (t, ms)"
    and f: "t = LoadTimer i \<and> f = rn_loadTimer_update (\<lambda>_. None) \<or> t = ResubscribeTimer i \<and> f = rn_resubscribeTimer_update (\<lambda>_. None)"
  shows "timers_ok X P (upd_rt i f w)"
proof (rule upd_field_ok [OF ok])
  show "keeps_queue f (rt_at i w)" using f by (auto simp: keeps_queue_def)
  show "recorded h t' (upd_rt i f w)" if a: "jm_get (wd_timers w) h = Some (t', ms)" for h t' ms
    using timers_okD(1) [OF ok a] gone a f by (cases t') (auto simp: recorded_def)
  show "idle (f (rt_at i w))" if "rn_stopped (rt_at i w)"
    using timers_okD(4) [OF ok that] f by (auto simp: idle_def)
  show "handles_ok i (upd_rt i f w)"
    using timers_okD(6) [OF ok, of i] f by (auto simp: handles_ok_def)
qed

lemma load_fired_ok:
  assumes ok: "timers_ok X P w" and gone: "\<And>ms h. jm_get (wd_timers w) h \<noteq> Some (LoadTimer i, ms)"
  shows "timers_ok X P (load_fired e i w)"
proof -
  define w1 where "w1 = upd_rt i (rn_loadTimer_update (\<lambda>_. None)) w"
  have ok1: "timers_ok X P w1" unfolding w1_def by (rule fired_field_ok [OF ok gone]) simp
  define w2 where "w2 = (if wd_active w1 = Some i then on_ws load_timeout_screen w1 else w1)"
  have "same_timers w1 w2" by (auto simp: w2_def intro!: same_timers_intros)
  then have ok2: "timers_ok X P w2" using ok1 by (simp add: timers_ok_same)
  from ok1 ok2 show ?thesis
    unfolding load_fired_def Let_def w1_def [symmetric] w2_def [symmetric] by (auto intro: markFailing_ok)
qed

lemma resubscribe_fired_ok:
  assumes ok: "timers_ok X P w" and gone: "\<And>ms h. jm_get (wd_timers w) h \<noteq> Some (ResubscribeTimer i, ms)"
  shows "timers_ok X P (resubscribe_fired i w)"
proof -
  define w1 where "w1 = upd_rt i (rn_resubscribeTimer_update (\<lambda>_. None)) w"
  have ok1: "timers_ok X P w1" unfolding w1_def by (rule fired_field_ok [OF ok gone]) simp
  have s: "same_timers w1 (subscribe i (if c then called cs w1 else w1))" for c cs
    by (auto intro!: same_timers_intros)
  show ?thesis
    unfolding resubscribe_fired_def Let_def w1_def [symmetric] using ok1 timers_ok_same [OF s] by simp
qed

section \<open>Events coming in\<close>

lemma push_event_ok:
  assumes ok: "timers_ok X (insert i P) w" and live: "\<not> rn_stopped (rt_at i w)"
  shows "timers_ok X (insert i P) (push_event i ev w)"
proof (rule timers_okI)
  have rt: "rt_at j (push_event i ev w) = (if j = i then (rt_at i w)\<lparr>rn_pending := rn_pending (rt_at i w) @ [ev]\<rparr> else rt_at j w)" for j
    by (simp add: push_event_def)
  have tm: "wd_timers (push_event i ev w) = wd_timers w" "wd_next (push_event i ev w) = wd_next w"
    "wd_burst (push_event i ev w) = wd_burst w" "wd_retry (push_event i ev w) = wd_retry w"
    by (simp_all add: push_event_def)
  have b: "rn_batchTimer (rt_at j (push_event i ev w)) = rn_batchTimer (rt_at j w)" for j by (simp add: rt)
  have h: "held Q k (push_event i ev w) = held Q k w" for Q k by (simp add: push_event_def)
  have r: "recorded k t (push_event i ev w) = recorded k t w" for k t
    by (simp add: recorded_def rt tm split: timer.split)
  show "recorded k t (push_event i ev w)" if "jm_get (wd_timers (push_event i ev w)) k = Some (t, ms)" for k t ms
    using timers_okD(1) [OF ok] that by (simp add: tm r)
  show "armed_ok j (push_event i ev w)" if "j \<notin> X" for j
    using timers_okD(3) [OF ok that] unfolding armed_ok_def batch_armed_def b tm .
  show "pending_ok j (push_event i ev w)" if "j \<notin> insert i P" for j
    using timers_okD(8) [OF ok that] that by (simp add: pending_ok_def rt)
  show "idle (rt_at j (push_event i ev w))" if "rn_stopped (rt_at j (push_event i ev w))" for j
    using timers_okD(4) [OF ok, of j] that live by (auto simp: rt split: if_splits)
  show "handles_ok j (push_event i ev w)" for j
    using timers_okD(6) [OF ok, of j] by (cases "j = i") (simp_all add: handles_ok_def h rt)
  show "window_ok (push_event i ev w)"
    using timers_okD(7) [OF ok] by (simp add: window_ok_def h tm)
qed (use timers_okD [OF ok] in \<open>auto simp: push_event_def\<close>)

text \<open>No event stops its runtime.\<close>

lemma writeHealth_rt [simp]: "rt_at j (writeHealth t h w) = rt_at j w"
  by (simp add: writeHealth_def rt_at_def)

lemma on_ws_rt [simp]: "rt_at j (on_ws f w) = rt_at j w"
  by (simp add: on_ws_def rt_at_def)

lemma patchShownList_rt [simp]: "rt_at j (patchShownList i p w) = rt_at j w"
  by (simp add: patchShownList_def split: option.split)

lemma scheduleResubscribe_stopped [simp]:
  "rn_stopped (rt_at j (scheduleResubscribe i w)) = rn_stopped (rt_at j w)"
  by (simp add: scheduleResubscribe_def Let_def case_prod_beta)

lemma markFailing_stopped [simp]: "rn_stopped (rt_at j (markFailing i f l w)) = rn_stopped (rt_at j w)"
  by (simp add: markFailing_def Let_def)

lemma onTopicStatus_stopped [simp]: "rn_stopped (rt_at j (onTopicStatus e i ev w)) = rn_stopped (rt_at j w)"
  by (simp add: onTopicStatus_def Let_def)

lemma push_event_stopped [simp]: "rn_stopped (rt_at j (push_event i ev w)) = rn_stopped (rt_at j w)"
  by (simp add: push_event_def)

lemma receive_ok:
  assumes "timers_ok X (insert i P) (snd pw)" "\<not> rn_stopped (rt_at i (snd pw))"
  shows "timers_ok X (insert i P) (snd (receive e i b ev pw)) \<and> \<not> rn_stopped (rt_at i (snd (receive e i b ev pw)))"
proof -
  obtain pushed w where pw: "pw = (pushed, w)" by (cases pw)
  define w1 where "w1 = upd_rt i (\<lambda>r. r\<lparr>rn_loadTimer := None\<rparr>) (clear_handle (rn_loadTimer (rt_at i w)) w)"
  have ok: "timers_ok X (insert i P) w" and live: "\<not> rn_stopped (rt_at i w)" using assms by (simp_all add: pw)
  have "timers_ok X (insert i P) w1"
    unfolding w1_def by (rule field_drop_ok [OF ok]) (simp_all add: keeps_queue_def)
  moreover have "\<not> rn_stopped (rt_at i w1)" using live by (simp add: w1_def)
  ultimately show ?thesis
    unfolding pw receive_def Let_def prod.case w1_def [symmetric]
    using ok live by (auto intro: push_event_ok onTopicStatus_ok split: option.split)
qed

lemma receive_all_ok:
  assumes "timers_ok X (insert i P) (snd pw)" "\<not> rn_stopped (rt_at i (snd pw))"
  shows "timers_ok X (insert i P) (snd (foldl (\<lambda>pw ev. receive e i b ev pw) pw evs))
    \<and> \<not> rn_stopped (rt_at i (snd (foldl (\<lambda>pw ev. receive e i b ev pw) pw evs)))"
  using assms by (induction evs arbitrary: pw) (simp_all add: receive_ok)

lemma scheduleResubscribe_queue [simp]:
  "rn_pending (rt_at j (scheduleResubscribe i w)) = rn_pending (rt_at j w)"
  "rn_batchTimer (rt_at j (scheduleResubscribe i w)) = rn_batchTimer (rt_at j w)"
  by (simp_all add: scheduleResubscribe_def Let_def case_prod_beta)

lemma markFailing_queue [simp]:
  "rn_pending (rt_at j (markFailing i f l w)) = rn_pending (rt_at j w)"
  "rn_batchTimer (rt_at j (markFailing i f l w)) = rn_batchTimer (rt_at j w)"
  by (simp_all add: markFailing_def Let_def)

lemma onTopicStatus_queue [simp]:
  "rn_pending (rt_at j (onTopicStatus e i ev w)) = rn_pending (rt_at j w)"
  "rn_batchTimer (rt_at j (onTopicStatus e i ev w)) = rn_batchTimer (rt_at j w)"
  by (simp_all add: onTopicStatus_def Let_def)

text \<open>Events that push nothing leave the queue alone.\<close>

lemma receive_quiet:
  assumes "\<not> fst (receive e i b ev pw)"
  shows "\<not> fst pw" "rn_pending (rt_at j (snd (receive e i b ev pw))) = rn_pending (rt_at j (snd pw))"
    "rn_batchTimer (rt_at j (snd (receive e i b ev pw))) = rn_batchTimer (rt_at j (snd pw))"
proof -
  obtain pushed w where pw: "pw = (pushed, w)" by (cases pw)
  have "\<not> pushed \<and> (receive e i b ev pw = (pushed, w) \<or> receive e i b ev pw = (pushed, onTopicStatus e i (status_of ev) w))"
    using assms unfolding pw receive_def Let_def prod.case by (auto split: if_splits option.splits)
  then show "\<not> fst pw" "rn_pending (rt_at j (snd (receive e i b ev pw))) = rn_pending (rt_at j (snd pw))"
    "rn_batchTimer (rt_at j (snd (receive e i b ev pw))) = rn_batchTimer (rt_at j (snd pw))"
    by (auto simp: pw)
qed

lemma receive_all_quiet:
  assumes "\<not> fst (foldl (\<lambda>pw ev. receive e i b ev pw) pw evs)"
  shows "\<not> fst pw \<and> rn_pending (rt_at j (snd (foldl (\<lambda>pw ev. receive e i b ev pw) pw evs))) = rn_pending (rt_at j (snd pw))
    \<and> rn_batchTimer (rt_at j (snd (foldl (\<lambda>pw ev. receive e i b ev pw) pw evs))) = rn_batchTimer (rt_at j (snd pw))"
  using assms
proof (induction evs arbitrary: pw)
  case (Cons ev evs)
  then have q: "\<not> fst (foldl (\<lambda>pw ev. receive e i b ev pw) (receive e i b ev pw) evs)" by simp
  note ih = Cons.IH [OF q]
  then have r: "\<not> fst (receive e i b ev pw)" by blast
  from ih receive_quiet [OF r] show ?case by simp
qed simp

lemma fallback_follows_batch:
  assumes ok: "timers_ok X P w" and none: "rn_batchTimer (rt_at i w) = None"
  shows "batch_idle i w" "fallback_idle i w"
proof -
  show "batch_idle i w" using none by (simp add: batch_idle_def)
  have "jm_get (wd_timers w) h = None" if h: "rn_frameFallback (rt_at i w) = Some h" for h
  proof (rule ccontr)
    assume "jm_get (wd_timers w) h \<noteq> None"
    then obtain t ms where g: "jm_get (wd_timers w) h = Some (t, ms)" by (cases "jm_get (wd_timers w) h") auto
    then have "t = FallbackTimer i"
      using timers_okD(6) [OF ok, of i] heldD [OF _ h g, of "(=) (FallbackTimer i)"] by (simp add: handles_ok_def)
    with timers_okD(1) [OF ok g] none show False by (simp add: recorded_def)
  qed
  then show "fallback_idle i w" by (simp add: fallback_idle_def split: option.split)
qed

lemma onEvent_ok:
  assumes ok: "timers_ok X P w" and i: "i \<notin> X" "i \<notin> P"
  shows "timers_ok X P (onEvent e i b w)"
proof (cases "rn_stopped (rt_at i w) \<or> (truthy_str (wb_topic b) \<and> wb_topic b \<noteq> Some (rn_topic (rt_at i w)))")
  case True
  then show ?thesis using ok by (auto simp: onEvent_def)
next
  case False
  obtain pushed w1 where f: "foldl (\<lambda>pw ev. receive e i b ev pw) (False, w) (wb_events b) = (pushed, w1)"
    by (cases "foldl (\<lambda>pw ev. receive e i b ev pw) (False, w) (wb_events b)")
  have "timers_ok X (insert i P) w" using ok by (rule timers_ok_mono) auto
  then have ok1: "timers_ok X (insert i P) w1" and live1: "\<not> rn_stopped (rt_at i w1)"
    using receive_all_ok [of X i P "(False, w)" e b "wb_events b"] False by (simp_all add: f)
  define w2 where "w2 = (case (wb_epoch b, wb_total b) of
                    (Some ep, Some ltotal) \<Rightarrow> if wb_bulk b \<and> ep \<noteq> 0 then upd_rt i (\<lambda>r. r\<lparr>rn_listTotal := Some (ep, ltotal)\<rparr>) w1 else w1
                  | _ \<Rightarrow> w1)"
  have s2: "same_timers w1 w2"
    by (auto simp: w2_def timer_view_def rn_stopped_def intro!: same_timers_upd split: option.split)
  have ok2: "timers_ok X (insert i P) w2" using ok1 by (simp add: timers_ok_same [OF s2])
  have live2: "\<not> rn_stopped (rt_at i w2)" using live1 by (simp add: same_timers_viewD [OF s2])
  have e: "onEvent e i b w = (if pushed \<and> rn_batchTimer (rt_at i w2) = None
      then scheduleFlush e i (upd_rt i (\<lambda>r. r\<lparr>rn_deferredSince := en_perf e\<rparr>) w2) else w2)"
    unfolding onEvent_def if_not_P [OF False] Let_def f prod.case w2_def by (rule refl)
  show ?thesis
  proof (cases "pushed \<and> rn_batchTimer (rt_at i w2) = None")
    case True
    define w3 where "w3 = upd_rt i (\<lambda>r. r\<lparr>rn_deferredSince := en_perf e\<rparr>) w2"
    have s3: "same_timers w2 w3" by (auto simp: w3_def timer_view_def rn_stopped_def intro!: same_timers_upd)
    have ok3: "timers_ok (insert i X) (insert i P) w3"
      using ok2 by (simp add: timers_ok_same [OF s3]) (erule timers_ok_mono, auto)
    have "rn_batchTimer (rt_at i w3) = None" "\<not> rn_stopped (rt_at i w3)"
      using True live2 by (simp_all add: same_timers_viewD [OF s3])
    with scheduleFlush_ok [OF ok3] fallback_follows_batch [OF ok3] True show ?thesis
      by (simp add: e w3_def)
  next
    case False
    have pend: "pending_ok i w2"
    proof (cases pushed)
      case True
      with False show ?thesis by (simp add: pending_ok_def)
    next
      case np: False
      then have "rn_pending (rt_at i w1) = rn_pending (rt_at i w)" "rn_batchTimer (rt_at i w1) = rn_batchTimer (rt_at i w)"
        using receive_all_quiet [of e i b "(False, w)" "wb_events b" i] by (simp_all add: f)
      with timers_okD(8) [OF ok i(2)] show ?thesis by (simp add: pending_ok_def same_timers_viewD [OF s2])
    qed
    have all: "timers_ok (insert i X) (insert i P) w2" using ok2 by (rule timers_ok_mono) auto
    have "timers_ok X P w2" by (rule timers_ok_settle [OF all timers_okD(3) [OF ok2 i(1)] pend])
    with False show ?thesis by (auto simp: e)
  qed
qed

lemma createRuntime_rt:
  "rt_at j (snd (createRuntime e topic cluster r items order w)) =
     (if j = wd_next w then new_runtime e topic cluster r items order else rt_at j w)"
  by (simp add: createRuntime_def Let_def rt_at_def upd_rt_def writeHealth_def)

lemma createRuntime_rest [simp]:
  "fst (createRuntime e topic cluster r items order w) = wd_next w"
  "wd_timers (snd (createRuntime e topic cluster r items order w)) = wd_timers w"
  "wd_next (snd (createRuntime e topic cluster r items order w)) = Suc (wd_next w)"
  "wd_burst (snd (createRuntime e topic cluster r items order w)) = wd_burst w"
  "wd_retry (snd (createRuntime e topic cluster r items order w)) = wd_retry w"
  "wd_parked (snd (createRuntime e topic cluster r items order w)) = wd_parked w"
  "wd_active (snd (createRuntime e topic cluster r items order w)) = wd_active w"
  by (simp_all add: createRuntime_def Let_def upd_rt_def writeHealth_def)

lemma new_runtime_idle [simp]: "idle (new_runtime e topic cluster r items order)"
  "\<not> rn_stopped (new_runtime e topic cluster r items order)"
  "rn_topic (new_runtime e topic cluster r items order) = topic"
  by (simp_all add: idle_def new_runtime_def rn_stopped_def newRealtimeSession_def)

lemma createRuntime_ok:
  assumes ok: "timers_ok X P w"
  shows "timers_ok X P (snd (createRuntime e topic cluster r items order w))" (is "timers_ok X P ?w")
proof (rule timers_okI)
  let ?n = "wd_next w"
  have n: "idle (rt_at ?n w)" using timers_okD(4,5) [OF ok, of ?n] by simp
  have new: "idle (rt_at ?n ?w)" by (simp add: createRuntime_rt)
  have old: "rt_at j ?w = rt_at j w" if "j \<noteq> ?n" for j using that by (simp add: createRuntime_rt)
  have mono: "held Q h ?w" if "held Q h w" for Q h
    by (rule held_mono [OF that]) simp_all
  show "recorded h t ?w" if "jm_get (wd_timers ?w) h = Some (t, ms)" for h t ms
  proof -
    have "recorded h t w" using timers_okD(1) [OF ok] that by simp
    with n old show ?thesis unfolding recorded_def by (auto simp: idle_def split: timer.splits) (metis option.distinct(1))+
  qed
  show "armed_ok j ?w" if "j \<notin> X" for j
    using timers_okD(3) [OF ok that] new old [of j] by (cases "j = ?n") (auto simp: armed_ok_def batch_armed_def idle_def split: option.splits)
  show "pending_ok j ?w" if "j \<notin> P" for j
    using timers_okD(8) [OF ok that] new old [of j] by (cases "j = ?n") (simp_all add: pending_ok_def idle_def)
  show "idle (rt_at j ?w)" if "rn_stopped (rt_at j ?w)" for j
    using that timers_okD(4) [OF ok, of j] by (auto simp: createRuntime_rt split: if_splits)
  show "rn_stopped (rt_at j ?w)" if "wd_next ?w \<le> j" for j
    using that timers_okD(5) [OF ok, of j] by (simp add: createRuntime_rt)
  show "handles_ok j ?w" for j
    using timers_okD(6) [OF ok, of j] new old [of j] mono by (cases "j = ?n") (auto simp: handles_ok_def idle_def)
  show "window_ok ?w" using timers_okD(7) [OF ok] mono by (simp add: window_ok_def)
qed (auto dest: timers_okD(2) [OF ok] intro: less_SucI)

end
