(* ===== verification/LiveListSlots.thy ===== *)
theory LiveListSlots
  imports LiveListSteps
begin

text \<open>
  The runtimes the window keeps. \<open>slots_ok\<close>: every parked runtime is open and parked under
  its topic, the runtime on screen is open and its topic is not parked as well, and every open
  runtime is one of the two. The runtimes of \<open>L\<close> are on their way from one place to the other;
  \<open>A\<close> says whether the runtime on screen counts.
\<close>

definition slots_ok :: "nat set \<Rightarrow> bool \<Rightarrow> world \<Rightarrow> bool" where
  "slots_ok L A w =
     (jm_wf (wd_parked w)
      \<and> (\<forall>t p. jm_get (wd_parked w) t = Some p \<longrightarrow> rn_topic (rt_at p w) = t \<and> \<not> rn_stopped (rt_at p w))
      \<and> (A \<longrightarrow> (\<forall>i. wd_active w = Some i \<longrightarrow>
           \<not> rn_stopped (rt_at i w) \<and> jm_get (wd_parked w) (rn_topic (rt_at i w)) = None))
      \<and> (\<forall>i. i \<notin> L \<and> \<not> rn_stopped (rt_at i w) \<longrightarrow>
           wd_active w = Some i \<or> jm_get (wd_parked w) (rn_topic (rt_at i w)) = Some i))"

lemma slots_okD:
  assumes "slots_ok L A w"
  shows "jm_wf (wd_parked w)"
    and "jm_get (wd_parked w) t = Some p \<Longrightarrow> rn_topic (rt_at p w) = t"
    and "jm_get (wd_parked w) t = Some p \<Longrightarrow> \<not> rn_stopped (rt_at p w)"
    and "A \<Longrightarrow> wd_active w = Some i \<Longrightarrow> \<not> rn_stopped (rt_at i w)"
    and "A \<Longrightarrow> wd_active w = Some i \<Longrightarrow> jm_get (wd_parked w) (rn_topic (rt_at i w)) = None"
    and "i \<notin> L \<Longrightarrow> \<not> rn_stopped (rt_at i w) \<Longrightarrow> wd_active w = Some i \<or> jm_get (wd_parked w) (rn_topic (rt_at i w)) = Some i"
  using assms by (auto simp: slots_ok_def)

lemma slots_okI:
  assumes "jm_wf (wd_parked w)"
    and "\<And>t p. jm_get (wd_parked w) t = Some p \<Longrightarrow> rn_topic (rt_at p w) = t \<and> \<not> rn_stopped (rt_at p w)"
    and "\<And>i. A \<Longrightarrow> wd_active w = Some i \<Longrightarrow> \<not> rn_stopped (rt_at i w) \<and> jm_get (wd_parked w) (rn_topic (rt_at i w)) = None"
    and "\<And>i. i \<notin> L \<Longrightarrow> \<not> rn_stopped (rt_at i w) \<Longrightarrow>
      wd_active w = Some i \<or> jm_get (wd_parked w) (rn_topic (rt_at i w)) = Some i"
  shows "slots_ok L A w"
  using assms unfolding slots_ok_def by blast

definition same_slots :: "world \<Rightarrow> world \<Rightarrow> bool" where
  "same_slots w w' =
     (wd_parked w' = wd_parked w \<and> wd_active w' = wd_active w \<and> wd_burst w' = wd_burst w
      \<and> (\<forall>i. rn_stopped (rt_at i w') = rn_stopped (rt_at i w) \<and> rn_topic (rt_at i w') = rn_topic (rt_at i w)))"

named_theorems same_slots_intros

lemma slots_ok_same: "same_slots w w' \<Longrightarrow> slots_ok L A w' = slots_ok L A w"
  by (auto simp: same_slots_def slots_ok_def)

lemma same_slots_refl [simp, same_slots_intros]: "same_slots w w"
  by (simp add: same_slots_def)

lemma same_slots_trans: "same_slots w w1 \<Longrightarrow> same_slots w1 w2 \<Longrightarrow> same_slots w w2"
  by (simp add: same_slots_def)

lemma same_slots_timers: "same_timers w1 w2 \<Longrightarrow> same_slots w w1 \<Longrightarrow> same_slots w w2"
  by (auto simp: same_slots_def same_timers_viewD)

lemma same_slots_upd [same_slots_intros]:
  assumes "same_slots w0 w" "rn_stopped (f (rt_at i w)) = rn_stopped (rt_at i w)" "rn_topic (f (rt_at i w)) = rn_topic (rt_at i w)"
  shows "same_slots w0 (upd_rt i f w)"
  using assms by (auto simp: same_slots_def)

lemma same_slots_clear [same_slots_intros]: "same_slots w0 w \<Longrightarrow> same_slots w0 (clear_handle h w)"
  by (simp add: same_slots_def)

lemma same_slots_set [same_slots_intros]: "same_slots w0 w \<Longrightarrow> same_slots w0 (snd (set_timer t ms w))"
  by (simp add: same_slots_def)

lemma same_slots_health [same_slots_intros]: "same_slots w0 w \<Longrightarrow> same_slots w0 (writeHealth t h w)"
  by (rule same_slots_timers) (auto intro: same_timers_intros)

lemma same_slots_on_ws [same_slots_intros]: "same_slots w0 w \<Longrightarrow> same_slots w0 (on_ws f w)"
  by (rule same_slots_timers) (auto intro: same_timers_intros)

lemma same_slots_called [same_slots_intros]: "same_slots w0 w \<Longrightarrow> same_slots w0 (called cs w)"
  by (rule same_slots_timers) (auto intro: same_timers_intros)

lemma same_slots_subscribe [same_slots_intros]: "same_slots w0 w \<Longrightarrow> same_slots w0 (subscribe i w)"
  by (rule same_slots_timers) (auto intro: same_timers_intros)

lemma same_slots_patch [same_slots_intros]: "same_slots w0 w \<Longrightarrow> same_slots w0 (patchShownList i p w)"
  by (rule same_slots_timers) (auto intro: same_timers_intros)

section \<open>Steps that leave the slots alone\<close>

lemma same_slots_batch_timer [same_slots_intros]: "same_slots w0 w \<Longrightarrow> same_slots w0 (set_batch_timer i t k ms w)"
  unfolding set_batch_timer_def Let_def case_prod_beta by (intro same_slots_intros) simp_all

lemma same_slots_frame [same_slots_intros]: "same_slots w0 w \<Longrightarrow> same_slots w0 (requestFlushFrame e i w)"
  unfolding requestFlushFrame_def Let_def case_prod_beta by (auto intro!: same_slots_intros)

lemma same_slots_flush [same_slots_intros]: "same_slots w0 w \<Longrightarrow> same_slots w0 (scheduleFlush e i w)"
  by (auto simp: scheduleFlush_def intro!: same_slots_intros)

lemma same_slots_clearTimer [same_slots_intros]: "same_slots w0 w \<Longrightarrow> same_slots w0 (clearTimer i w)"
  by (simp add: same_slots_def clearTimer_rt)

lemma same_slots_live [same_slots_intros]: "same_slots w0 w \<Longrightarrow> same_slots w0 (markLive e i c l w)"
  by (auto simp: markLive_def Let_def intro!: same_slots_intros)

lemma same_slots_resub [same_slots_intros]: "same_slots w0 w \<Longrightarrow> same_slots w0 (scheduleResubscribe i w)"
  unfolding scheduleResubscribe_def Let_def case_prod_beta by (auto intro!: same_slots_intros)

lemma same_slots_failing [same_slots_intros]: "same_slots w0 w \<Longrightarrow> same_slots w0 (markFailing i f l w)"
  by (auto simp: markFailing_def Let_def intro!: same_slots_intros)

lemma same_slots_incomplete [same_slots_intros]: "same_slots w0 w \<Longrightarrow> same_slots w0 (markIncomplete e i w)"
  by (auto simp: markIncomplete_def Let_def intro!: same_slots_intros)

lemma same_slots_load [same_slots_intros]: "same_slots w0 w \<Longrightarrow> same_slots w0 (armLoadTimer i ms w)"
  unfolding armLoadTimer_def Let_def case_prod_beta by (auto intro!: same_slots_intros)

lemma same_slots_outcome [same_slots_intros]:
  "same_slots w0 w \<Longrightarrow> same_slots w0 (snd (outcomeOf e i result events w))"
  by (auto simp: outcomeOf_def intro!: same_slots_intros split: option.split)

lemma same_slots_apply:
  "apply_pending i base w = (result, events, w1) \<Longrightarrow> same_slots w0 w \<Longrightarrow> same_slots w0 w1"
  by (simp add: same_slots_def apply_pending_view)

lemma same_slots_off_screen [same_slots_intros]:
  assumes "same_slots w0 w" shows "same_slots w0 (process_off_screen e i w)"
proof -
  obtain result events w1 where a: "apply_pending i (rn_items (rt_at i w)) w = (result, events, w1)"
    by (metis prod_cases3)
  define w2 where "w2 = snd (outcomeOf e i result events w1)"
  have "same_slots w0 w2" unfolding w2_def by (intro same_slots_intros same_slots_apply [OF a assms])
  moreover have "same_timers w2 (process_off_screen e i w)"
    unfolding process_off_screen_def a Let_def prod.case w2_def [symmetric]
    by (auto intro!: same_timers_intros split: option.split)
  ultimately show ?thesis by (rule same_slots_timers [rotated])
qed

lemma same_slots_on_screen [same_slots_intros]:
  assumes "same_slots w0 w" shows "same_slots w0 (process_on_screen e i st r w)"
proof -
  obtain result events w1 where a: "apply_pending i (base_items (rt_at i w) r st) w = (result, events, w1)"
    by (metis prod_cases3)
  define w2 where "w2 = (if rollout_kind r then rollouts i r st (ar_items result) events w1 else w1)"
  have s2: "same_timers w1 w2" by (auto simp: w2_def intro!: same_timers_intros)
  obtain sel w3 where f: "followed_selection i result events (ts_selectedItem st) w2 = (sel, w3)"
    by (cases "followed_selection i result events (ts_selectedItem st) w2")
  have "same_timers w1 w3" using same_timers_followed [OF s2, of i result events "ts_selectedItem st"] by (simp add: f)
  then have s3: "same_slots w0 w3" by (rule same_slots_timers) (rule same_slots_apply [OF a assms])
  obtain out w4 where o: "outcomeOf e i result events w3 = (out, w4)" by (cases "outcomeOf e i result events w3")
  have s4: "same_slots w0 w4" using same_slots_outcome [OF s3, of e i result events] by (simp add: o)
  have "same_timers w4 (process_on_screen e i st r w)"
    unfolding process_on_screen_def a Let_def prod.case w2_def [symmetric] f o
    by (auto intro!: same_timers_intros)
  then show ?thesis using s4 by (rule same_slots_timers)
qed

lemma same_slots_batch [same_slots_intros]: "same_slots w0 w \<Longrightarrow> same_slots w0 (processBatch e i w)"
  by (auto simp: processBatch_def Let_def intro!: same_slots_intros split: option.split)

lemma same_slots_status [same_slots_intros]: "same_slots w0 w \<Longrightarrow> same_slots w0 (onTopicStatus e i ev w)"
  by (auto simp: onTopicStatus_def Let_def intro!: same_slots_intros)

lemma same_slots_receive: "same_slots w0 (snd pw) \<Longrightarrow> same_slots w0 (snd (receive e i b ev pw))"
  by (auto simp: receive_def push_event_def Let_def intro!: same_slots_intros split: prod.split option.split)

lemma same_slots_receive_all:
  "same_slots w0 (snd pw) \<Longrightarrow> same_slots w0 (snd (foldl (\<lambda>pw ev. receive e i b ev pw) pw evs))"
  by (induction evs arbitrary: pw) (simp_all add: same_slots_receive)

lemma same_slots_event [same_slots_intros]:
  assumes "same_slots w0 w" shows "same_slots w0 (onEvent e i b w)"
proof -
  obtain pushed w1 where f: "foldl (\<lambda>pw ev. receive e i b ev pw) (False, w) (wb_events b) = (pushed, w1)"
    by (cases "foldl (\<lambda>pw ev. receive e i b ev pw) (False, w) (wb_events b)")
  then have "same_slots w0 w1" using same_slots_receive_all [of w0 "(False, w)" e i b "wb_events b"] assms by simp
  then show ?thesis
    unfolding onEvent_def Let_def f prod.case
    using assms by (auto intro!: same_slots_intros split: option.split)
qed

lemma same_slots_window [same_slots_intros]: "same_slots w0 w \<Longrightarrow> same_slots w0 (window_fired e i w)"
  by (auto simp: window_fired_def Let_def intro!: same_slots_intros)

lemma same_slots_fallback [same_slots_intros]: "same_slots w0 w \<Longrightarrow> same_slots w0 (fallback_fired e i w)"
  by (auto simp: fallback_fired_def Let_def intro!: same_slots_intros)

lemma same_slots_load_fired [same_slots_intros]: "same_slots w0 w \<Longrightarrow> same_slots w0 (load_fired e i w)"
  by (auto simp: load_fired_def Let_def intro!: same_slots_intros)

lemma same_slots_resub_fired [same_slots_intros]: "same_slots w0 w \<Longrightarrow> same_slots w0 (resubscribe_fired i w)"
  by (auto simp: resubscribe_fired_def Let_def intro!: same_slots_intros)

end
