(* ===== verification/LiveListWorld.thy ===== *)
theory LiveListWorld
  imports LiveListSlots
begin

text \<open>
  The operations of the slice keep both invariants, \<open>timers_ok\<close> and \<open>slots_ok\<close>: parking with
  its eviction, starting, resuming, releasing and stopping lists, and every timer that fires.
\<close>

section \<open>Changing what the window holds\<close>

lemma rt_at_window [simp]:
  "rt_at i (w\<lparr>wd_parked := m\<rparr>) = rt_at i w" "rt_at i (w\<lparr>wd_active := a\<rparr>) = rt_at i w"
  "rt_at i (w\<lparr>wd_burst := h\<rparr>) = rt_at i w" "rt_at i (w\<lparr>wd_retry := h\<rparr>) = rt_at i w"
  "rt_at i (w\<lparr>wd_timers := ts\<rparr>) = rt_at i w"
  by (simp_all add: rt_at_def)

lemma timers_ok_window [simp]:
  "timers_ok X P (w\<lparr>wd_parked := m\<rparr>) = timers_ok X P w" "timers_ok X P (w\<lparr>wd_active := a\<rparr>) = timers_ok X P w"
  by (simp_all add: timers_ok_def recorded_def armed_ok_def batch_armed_def pending_ok_def handles_ok_def window_ok_def held_def
      cong: option.case_cong timer.case_cong)

lemma same_slots_window_timers [same_slots_intros]:
  "same_slots w0 w \<Longrightarrow> same_slots w0 (w\<lparr>wd_timers := ts\<rparr>)"
  by (simp_all add: same_slots_def)

lemma closeRuntime_topic [simp]: "rn_topic (rt_at j (closeRuntime i w)) = rn_topic (rt_at j w)"
  by (simp add: closeRuntime_rt)

lemma drop_parked_ok: "timers_ok X P w \<Longrightarrow> timers_ok X P (drop_parked topic w)"
  unfolding drop_parked_def
  by (auto intro!: closeRuntime_ok timers_ok_mono [of X P _ "insert p X" "insert p P" for p] split: option.split)

lemma drop_parked_slots:
  assumes "slots_ok L A w" shows "slots_ok L A (drop_parked topic w)"
proof (cases "jm_get (wd_parked w) topic")
  case (Some p)
  have t: "rn_topic (rt_at p w) = topic" using slots_okD(2) [OF assms Some] .
  have uniq: "q \<noteq> p" if "jm_get (wd_parked w) t' = Some q" "t' \<noteq> topic" for t' q
    using slots_okD(2) [OF assms that(1)] t that(2) by blast
  have e: "drop_parked topic w = closeRuntime p (w\<lparr>wd_parked := jm_delete (wd_parked w) topic\<rparr>)"
    by (simp add: drop_parked_def Some)
  show ?thesis
  proof (rule slots_okI)
    fix j assume j: "j \<notin> L" "\<not> rn_stopped (rt_at j (drop_parked topic w))"
    then have "j \<noteq> p" "\<not> rn_stopped (rt_at j w)" by (simp_all add: e)
    moreover from this slots_okD(6) [OF assms j(1)]
    have "wd_active w = Some j \<or> jm_get (wd_parked w) (rn_topic (rt_at j w)) = Some j" by blast
    moreover have "rn_topic (rt_at j w) \<noteq> topic" if "jm_get (wd_parked w) (rn_topic (rt_at j w)) = Some j"
      using that Some \<open>j \<noteq> p\<close> by auto
    ultimately show "wd_active (drop_parked topic w) = Some j
        \<or> jm_get (wd_parked (drop_parked topic w)) (rn_topic (rt_at j (drop_parked topic w))) = Some j"
      by (auto simp: e)
  next
    fix j assume a: A "wd_active (drop_parked topic w) = Some j"
    then have j: "\<not> rn_stopped (rt_at j w)" "jm_get (wd_parked w) (rn_topic (rt_at j w)) = None"
      using slots_okD(4,5) [OF assms a(1), of j] by (simp_all add: e)
    then have "j \<noteq> p" using t Some by auto
    with j show "\<not> rn_stopped (rt_at j (drop_parked topic w))
        \<and> jm_get (wd_parked (drop_parked topic w)) (rn_topic (rt_at j (drop_parked topic w))) = None"
      by (simp add: e)
  qed (use slots_okD(1,2,3) [OF assms] uniq in \<open>auto simp: e split: if_splits\<close>)
qed (simp add: drop_parked_def assms)

lemma evict_parked_ok: "timers_ok X P w \<Longrightarrow> timers_ok X P (evict_parked w)"
proof (induction w rule: evict_parked.induct)
  case (1 w)
  then show ?case by (subst evict_parked.simps) (auto simp: drop_parked_ok split: option.split)
qed

lemma evict_parked_slots: "slots_ok L A w \<Longrightarrow> slots_ok L A (evict_parked w)"
proof (induction w rule: evict_parked.induct)
  case (1 w)
  then show ?case by (subst evict_parked.simps) (auto simp: drop_parked_slots split: option.split)
qed

lemma drop_parked_active [simp]: "wd_active (drop_parked topic w) = wd_active w"
  by (simp add: drop_parked_def split: option.split)

lemma evict_parked_active [simp]: "wd_active (evict_parked w) = wd_active w"
proof (induction w rule: evict_parked.induct)
  case (1 w)
  then show ?case by (subst evict_parked.simps) (auto split: option.split)
qed

lemma closeRuntime_slots:
  assumes ok: "slots_ok (insert i L) A w" and out: "wd_active w \<noteq> Some i \<or> \<not> A" "\<And>t. jm_get (wd_parked w) t \<noteq> Some i"
  shows "slots_ok L A (closeRuntime i w)"
  using slots_okD [OF ok] out by (auto simp: slots_ok_def)

text \<open>A runtime on its way is parked, or put on screen.\<close>

lemma slots_park:
  assumes ok: "slots_ok (insert i L) A w" and out: "wd_active w \<noteq> Some i" "\<not> rn_stopped (rt_at i w)"
    and free: "jm_get (wd_parked w) (rn_topic (rt_at i w)) = None"
    and other: "\<And>j. A \<Longrightarrow> wd_active w = Some j \<Longrightarrow> rn_topic (rt_at j w) \<noteq> rn_topic (rt_at i w)"
    and w': "\<And>t. jm_get (wd_parked w') t = (if t = rn_topic (rt_at i w) then Some i else jm_get (wd_parked w) t)"
      "jm_wf (wd_parked w')" "wd_active w' = wd_active w" "\<And>j. rt_at j w' = rt_at j w"
  shows "slots_ok L A w'"
proof (rule slots_okI)
  show "rn_topic (rt_at p w') = t \<and> \<not> rn_stopped (rt_at p w')" if "jm_get (wd_parked w') t = Some p" for t p
    using that slots_okD(2,3) [OF ok, of t p] out by (auto simp: w' split: if_splits)
  show "\<not> rn_stopped (rt_at j w') \<and> jm_get (wd_parked w') (rn_topic (rt_at j w')) = None" if "A" "wd_active w' = Some j" for j
    using that slots_okD(4,5) [OF ok that(1), of j] other [OF that(1)] by (simp add: w')
  show "wd_active w' = Some j \<or> jm_get (wd_parked w') (rn_topic (rt_at j w')) = Some j"
    if "j \<notin> L" "\<not> rn_stopped (rt_at j w')" for j
    using that slots_okD(6) [OF ok, of j] free by (cases "j = i") (auto simp: w')
qed (simp add: w')

lemma slots_show:
  assumes ok: "slots_ok (insert i L) True w" and out: "wd_active w = None" "\<not> rn_stopped (rt_at i w)"
    and free: "jm_get (wd_parked w) (rn_topic (rt_at i w)) = None"
  shows "slots_ok L True (activate i w)"
proof (rule slots_okI)
  let ?w = "activate i w"
  have v: "wd_parked ?w = wd_parked w" "wd_active ?w = Some i" "rt_at j ?w = rt_at j w" for j
    by (simp_all add: activate_def)
  show "jm_wf (wd_parked ?w)" using slots_okD(1) [OF ok] by (simp add: v)
  show "rn_topic (rt_at p ?w) = t \<and> \<not> rn_stopped (rt_at p ?w)" if "jm_get (wd_parked ?w) t = Some p" for t p
    using that slots_okD(2,3) [OF ok, of t p] by (auto simp: v)
  show "\<not> rn_stopped (rt_at j ?w) \<and> jm_get (wd_parked ?w) (rn_topic (rt_at j ?w)) = None" if "wd_active ?w = Some j" for j
    using that out free unfolding v by auto
  show "wd_active ?w = Some j \<or> jm_get (wd_parked ?w) (rn_topic (rt_at j ?w)) = Some j"
    if "j \<notin> L" "\<not> rn_stopped (rt_at j ?w)" for j
    using that slots_okD(6) [OF ok, of j] out by (cases "j = i") (auto simp: v)
qed

section \<open>Parking\<close>

lemma parkActive_active [simp]: "wd_active (parkActive e w) = None"
proof -
  have "same_slots w' (scheduleFlush e i (clearTimer i w'))" for i w'
    by (intro same_slots_intros)
  then have "wd_active (scheduleFlush e i (clearTimer i w')) = wd_active w'" for i w'
    by (simp add: same_slots_def)
  then show ?thesis by (auto simp: parkActive_def Let_def split: option.split)
qed

lemma parkActive_ok:
  assumes t: "timers_ok {} {} w" and s: "slots_ok {} True w"
  shows "timers_ok {} {} (parkActive e w) \<and> slots_ok {} True (parkActive e w)"
proof (cases "wd_active w")
  case None
  with t s show ?thesis by (auto simp: parkActive_def slots_ok_def)
next
  case (Some i)
  define w1 where "w1 = called [StopListening i] (w\<lparr>wd_active := None\<rparr>)"
  have live: "\<not> rn_stopped (rt_at i w)" and free: "jm_get (wd_parked w) (rn_topic (rt_at i w)) = None"
    using slots_okD(4,5) [OF s TrueI Some] by auto
  have t1: "timers_ok {} {} w1"
    unfolding w1_def using t by (simp add: timers_ok_same [OF same_timers_called [OF same_timers_refl]])
  have s1: "slots_ok {i} True w1" using s Some by (auto simp: slots_ok_def w1_def)
  have act1: "wd_active w1 = None" by (simp add: w1_def)
  have out: "jm_get (wd_parked w1) t' \<noteq> Some i" for t'
    using slots_okD(2) [OF s, of t' i] free by (auto simp: w1_def)
  show ?thesis
  proof (cases "en_handlers e (rn_topic (rt_at i w))")
    case False
    then have "parkActive e w = closeRuntime i w1"
      using Some live by (simp add: parkActive_def Let_def w1_def)
    moreover have "timers_ok {} {} (closeRuntime i w1)"
      by (rule closeRuntime_ok [OF timers_ok_mono [OF t1]]) auto
    moreover have "slots_ok {} True (closeRuntime i w1)"
      by (rule closeRuntime_slots) (use s1 act1 out in auto)
    ultimately show ?thesis by simp
  next
    case True
    define w2 where "w2 = (if rn_batchTimer (rt_at i w1) \<noteq> None then scheduleFlush e i (clearTimer i w1) else w1)"
    have same: "same_slots w1 w2" by (auto simp: w2_def intro!: same_slots_intros)
    have "timers_ok {i} {i} (clearTimer i w1)"
      using clearTimer_ok [of i "{}" "{}" w1] timers_ok_mono [OF t1, of "{i}" "{i}"] by simp
    moreover have "rn_batchTimer (rt_at i (clearTimer i w1)) = None" "\<not> rn_stopped (rt_at i (clearTimer i w1))"
      using live by (simp_all add: clearTimer_rt w1_def)
    ultimately have "timers_ok {} {} (scheduleFlush e i (clearTimer i w1))"
      by (intro scheduleFlush_ok fallback_follows_batch) auto
    then have t2: "timers_ok {} {} w2" using t1 by (simp add: w2_def)
    have s2: "slots_ok {i} True w2" using s1 by (simp add: slots_ok_same [OF same])
    have view: "wd_parked w2 = wd_parked w" "wd_active w2 = None" "rn_topic (rt_at i w2) = rn_topic (rt_at i w)"
        "\<not> rn_stopped (rt_at i w2)"
      using same live by (simp_all add: same_slots_def w1_def)
    define w3 where "w3 = w2\<lparr>wd_parked := jm_set (jm_delete (wd_parked w2) (rn_topic (rt_at i w))) (rn_topic (rt_at i w)) i\<rparr>"
    have e: "parkActive e w = evict_parked w3"
    proof -
      have "parkActive e w = evict_parked
          ((case jm_get (wd_parked w2) (rn_topic (rt_at i w)) of Some p \<Rightarrow> if p \<noteq> i then closeRuntime p w2 else w2 | None \<Rightarrow> w2)
           \<lparr>wd_parked := jm_set (jm_delete (wd_parked
             (case jm_get (wd_parked w2) (rn_topic (rt_at i w)) of Some p \<Rightarrow> if p \<noteq> i then closeRuntime p w2 else w2 | None \<Rightarrow> w2))
             (rn_topic (rt_at i w))) (rn_topic (rt_at i w)) i\<rparr>)"
        using live True
        unfolding parkActive_def Let_def Some option.case rt_at_window w1_def [symmetric] w2_def [symmetric] by simp
      then show ?thesis by (simp add: view free w3_def)
    qed
    have t3: "timers_ok {} {} w3" using t2 by (simp add: w3_def)
    have s3: "slots_ok {} True w3"
      by (rule slots_park [OF s2]) (use view free slots_okD(1) [OF s] in \<open>simp_all add: w3_def\<close>)
    show ?thesis unfolding e using evict_parked_ok [OF t3] evict_parked_slots [OF s3] by blast
  qed
qed

section \<open>Starting lists\<close>

text \<open>A new runtime is open, unknown to the window, and needs no timer yet.\<close>

lemma createRuntime_slots:
  assumes ok: "slots_ok L A w" and fresh: "rn_stopped (rt_at (wd_next w) w)"
    and act: "wd_active w \<noteq> Some (wd_next w)"
  shows "slots_ok (insert (wd_next w) L) A (snd (createRuntime e topic cluster r items order w))"
proof (rule slots_okI)
  let ?n = "wd_next w" and ?w = "snd (createRuntime e topic cluster r items order w)"
  have old: "rt_at j ?w = rt_at j w" if "j \<noteq> ?n" for j using that by (simp add: createRuntime_rt)
  have unparked: "jm_get (wd_parked w) t \<noteq> Some ?n" for t using slots_okD(3) [OF ok, of t ?n] fresh by blast
  show "jm_wf (wd_parked ?w)" using slots_okD(1) [OF ok] by simp
  show "rn_topic (rt_at p ?w) = t \<and> \<not> rn_stopped (rt_at p ?w)" if p: "jm_get (wd_parked ?w) t = Some p" for t p
  proof -
    have "p \<noteq> ?n" using p unparked [of t] by auto
    with p slots_okD(2,3) [OF ok, of t p] old show ?thesis by simp
  qed
  show "\<not> rn_stopped (rt_at j ?w) \<and> jm_get (wd_parked ?w) (rn_topic (rt_at j ?w)) = None" if "A" "wd_active ?w = Some j" for j
    using that slots_okD(4,5) [OF ok that(1), of j] old [of j] act by (cases "j = ?n") simp_all
  show "wd_active ?w = Some j \<or> jm_get (wd_parked ?w) (rn_topic (rt_at j ?w)) = Some j"
    if "j \<notin> insert ?n L" "\<not> rn_stopped (rt_at j ?w)" for j
    using that slots_okD(6) [OF ok, of j] old [of j] by simp
qed

lemma same_timers_activate: "timers_ok X P (activate i w) = timers_ok X P w"
proof -
  have "timers_ok X P (activate i w) = timers_ok X P (w\<lparr>wd_active := Some i\<rparr>)"
    unfolding activate_def by (rule timers_ok_same) (intro same_timers_intros)
  then show ?thesis by simp
qed

definition world_ok :: "world \<Rightarrow> bool" where
  "world_ok w = (timers_ok {} {} w \<and> slots_ok {} True w)"

lemma world_ok_same: "same_timers w w' \<Longrightarrow> world_ok w' = world_ok w"
  unfolding world_ok_def using timers_ok_same [of w w' "{}" "{}"] slots_ok_same [of w w' "{}" True]
    same_slots_timers [of w w' w] by simp

lemma world_ok_same_slots:
  "timers_ok {} {} w' \<Longrightarrow> same_slots w w' \<Longrightarrow> world_ok w \<Longrightarrow> world_ok w'"
  unfolding world_ok_def using slots_ok_same [of w w' "{}" True] by simp

lemma refresh_ok: "world_ok w \<Longrightarrow> world_ok (refresh_shown e force i st res order w)"
  using world_ok_same [OF same_timers_refresh [OF same_timers_refl]] by blast

lemma armLoad_subscribe_ok:
  assumes "world_ok w" "\<not> rn_stopped (rt_at i w)"
  shows "world_ok (subscribe i (armLoadTimer i ms w))"
proof -
  have t: "timers_ok {} {} (armLoadTimer i ms w)"
    using assms by (intro armLoadTimer_ok) (simp_all add: world_ok_def)
  have "world_ok (armLoadTimer i ms w)"
    by (rule world_ok_same_slots [OF t _ assms(1)]) (intro same_slots_intros)
  then show ?thesis using world_ok_same [OF same_timers_subscribe [OF same_timers_refl]] by blast
qed

text \<open>A fresh runtime for a topic that has none goes on screen.\<close>

lemma start_fresh_ok:
  assumes t: "timers_ok {} {} w" and s: "slots_ok {} True w" and act: "wd_active w = None"
    and free: "jm_get (wd_parked w) topic = None"
    and c: "createRuntime e topic cluster res items order w = (i, w2)"
  shows "world_ok (subscribe i (armLoadTimer i LOAD_TIMEOUT_MS (activate i w2)))"
proof -
  have i: "i = wd_next w" and w2: "w2 = snd (createRuntime e topic cluster res items order w)"
    using createRuntime_rest(1) [of e topic cluster res items order w] by (simp_all add: c)
  have t2: "timers_ok {} {} w2" unfolding w2 by (rule createRuntime_ok [OF t])
  have s2: "slots_ok (insert i {}) True w2"
    unfolding w2 i by (rule createRuntime_slots [OF s timers_okD(5) [OF t order_refl]]) (simp add: act)
  have rt: "rt_at i w2 = new_runtime e topic cluster res items order"
    by (simp add: w2 i createRuntime_rt)
  have "slots_ok {} True (activate i w2)"
    by (rule slots_show [OF s2]) (simp_all add: rt, simp_all add: w2 act free)
  then have "world_ok (activate i w2)" using t2 by (simp add: world_ok_def same_timers_activate)
  then show ?thesis by (rule armLoad_subscribe_ok) (simp add: activate_def rt)
qed

lemma flush_again_ok:
  assumes w: "world_ok w" and live: "\<not> rn_stopped (rt_at i w)"
  shows "world_ok (scheduleFlush e i (clearTimer i w))"
    and "world_ok (scheduleFlush e i (upd_rt i (\<lambda>r. r\<lparr>rn_deferredSince := d\<rparr>) (clearTimer i w)))"
proof -
  have t: "timers_ok {} {} w" using w by (simp add: world_ok_def)
  have t1: "timers_ok {i} {i} (clearTimer i w)"
    using clearTimer_ok [of i "{}" "{}" w] timers_ok_mono [OF t, of "{i}" "{i}"] by simp
  let ?w1 = "upd_rt i (\<lambda>r. r\<lparr>rn_deferredSince := d\<rparr>) (clearTimer i w)"
  have t2: "timers_ok {i} {i} ?w1" by (rule upd_plain_ok [OF t1]) (simp_all add: timer_view_def)
  have "rn_batchTimer (rt_at i (clearTimer i w)) = None" "rn_batchTimer (rt_at i ?w1) = None"
    "\<not> rn_stopped (rt_at i (clearTimer i w))" "\<not> rn_stopped (rt_at i ?w1)"
    using live by (simp_all add: clearTimer_rt)
  then have "timers_ok {} {} (scheduleFlush e i (clearTimer i w))" "timers_ok {} {} (scheduleFlush e i ?w1)"
    using t1 t2 by (auto intro!: scheduleFlush_ok fallback_follows_batch)
  moreover have "same_slots w (scheduleFlush e i (clearTimer i w))" "same_slots w (scheduleFlush e i ?w1)"
    by (auto intro!: same_slots_intros)
  ultimately show "world_ok (scheduleFlush e i (clearTimer i w))" "world_ok (scheduleFlush e i ?w1)"
    using w world_ok_same_slots by blast+
qed

lemma resume_synced_ok:
  assumes w: "world_ok (activate i w)" and live: "\<not> rn_stopped (rt_at i w)"
  shows "world_ok (resume_synced e i st res w)"
proof -
  obtain sel w1 where f: "find_selection i (ts_selectedItem st) False (activate i w) = (sel, w1)"
    by (cases "find_selection i (ts_selectedItem st) False (activate i w)")
  have s1: "same_timers (activate i w) w1"
    using same_timers_selection [OF same_timers_refl, of "activate i w" i "ts_selectedItem st" False] by (simp add: f)
  define patch where "patch = (\<lambda>s::tab_state. s\<lparr>ts_isLoadingListItems := Some False, ts_hasReceivedInitialListData := Some True,
      ts_loadError := map_option tf_error (rn_failing (rt_at i w1)), ts_listSync := listSyncOf (rt_at i w1)\<rparr>)"
  define c where "c = (\<not> (ts_listItems st = rn_items (rt_at i w1) \<and> \<not> en_copy e \<and> ts_hasReceivedInitialListData st = Some True
      \<and> ts_isLoadingListItems st \<noteq> Some True \<and> ts_loadError st = map_option tf_error (rn_failing (rt_at i w1)) \<and> sel = ts_selectedItem st)
      \<or> listSyncOf (rt_at i w1) \<noteq> ts_listSync st)"
  define w2 where "w2 = (if c then commitList res (rn_items (rt_at i w1)) patch sel w1 else w1)"
  have s2: "same_timers (activate i w) w2"
    using s1 by (auto simp: w2_def intro: same_timers_commit)
  have e: "resume_synced e i st res w = (if rn_pending (rt_at i w2) \<noteq> []
      then scheduleFlush e i (upd_rt i (\<lambda>r. r\<lparr>rn_deferredSince := en_perf e\<rparr>) (clearTimer i w2)) else w2)"
    unfolding resume_synced_def f Let_def prod.case w2_def c_def patch_def by (rule refl)
  have "world_ok w2" using w world_ok_same [OF s2] by simp
  moreover have "\<not> rn_stopped (rt_at i w2)"
    using live by (simp add: same_timers_viewD [OF s2] activate_def)
  ultimately show ?thesis unfolding e by (simp add: flush_again_ok)
qed

lemma resume_waiting_ok:
  assumes w: "world_ok (activate i w)" and live: "\<not> rn_stopped (rt_at i w)"
  shows "world_ok (resume_waiting e i w)"
proof -
  define w1 where "w1 = activate i w"
  have ok1: "world_ok w1" and live1: "\<not> rn_stopped (rt_at i w1)"
    using w live by (simp_all add: w1_def activate_def)
  define w2 where "w2 = (if rn_loadTimer (rt_at i w1) = None \<and> rn_failing (rt_at i w1) = None
      then armLoadTimer i (LOAD_TIMEOUT_MS - (en_now e - rn_startedAt (rt_at i w1))) w1 else w1)"
  have s2: "same_slots w1 w2" by (auto simp: w2_def intro!: same_slots_intros)
  have "timers_ok {} {} w2"
    using ok1 live1 by (auto simp: w2_def world_ok_def intro: armLoadTimer_ok)
  then have ok2: "world_ok w2" by (rule world_ok_same_slots [OF _ s2 ok1])
  have live2: "\<not> rn_stopped (rt_at i w2)" using live1 s2 by (simp add: same_slots_def)
  define w3 where "w3 = (case rn_failing (rt_at i w1) of
      Some f \<Rightarrow> on_ws (updateCurrentTabState (plain_update (\<lambda>s. s\<lparr>ts_isLoadingListItems := Some False, ts_loadError := Some (tf_error f)\<rparr>))) w2
    | None \<Rightarrow> w2)"
  have s3: "same_timers w2 w3" by (auto simp: w3_def intro: same_timers_on_ws split: option.split)
  have ok3: "world_ok w3" using ok2 world_ok_same [OF s3] by simp
  have live3: "\<not> rn_stopped (rt_at i w3)" using live2 by (simp add: same_timers_viewD [OF s3])
  have e: "resume_waiting e i w = flush_resumed e i w3"
    unfolding resume_waiting_def Let_def w3_def w2_def w1_def by (rule refl)
  show ?thesis unfolding e using ok3 live3 by (simp add: flush_resumed_def flush_again_ok)
qed

lemma start_topic_ok:
  assumes w: "world_ok w" and act: "wd_active w = None"
  shows "world_ok (start_topic e topic cluster res order st w)"
proof -
  define w1 where "w1 = w\<lparr>wd_parked := jm_delete (wd_parked w) topic\<rparr>"
  define loading where "loading = on_ws (updateCurrentTabState (plain_update (show_loading (preserved_items cluster res st))))"
  have load: "same_timers x (loading x)" for x by (simp add: loading_def same_timers_intros)
  have loading_simps: "timers_ok X P (loading x) = timers_ok X P x" "slots_ok L A (loading x) = slots_ok L A x"
      "wd_active (loading x) = wd_active x" "wd_parked (loading x) = wd_parked x" "rt_at j (loading x) = rt_at j x" for X P L A x j
    using timers_ok_same [OF load] slots_ok_same [OF same_slots_timers [OF load same_slots_refl]] same_timers_viewD [OF load]
    by (simp_all add: loading_def)
  have t: "timers_ok {} {} w" and s: "slots_ok {} True w" using w by (simp_all add: world_ok_def)
  have t1: "timers_ok {} {} w1" using t by (simp add: w1_def)
  have act1: "wd_active w1 = None" by (simp add: w1_def act)
  have free1: "jm_get (wd_parked w1) topic = None" by (simp add: w1_def)
  have fresh: "world_ok (subscribe i (armLoadTimer i LOAD_TIMEOUT_MS (activate i w2)))"
    if c: "createRuntime e topic cluster res items order (loading x) = (i, w2)"
      and x: "timers_ok {} {} x" "slots_ok {} True x" "wd_active x = None" "jm_get (wd_parked x) topic = None"
    for x items i w2
    by (rule start_fresh_ok [OF _ _ _ _ c])
      (use x in \<open>simp_all add: loading_simps\<close>)
  show ?thesis
  proof (cases "jm_get (wd_parked w) topic")
    case None
    have "slots_ok {} True w1" using s None by (simp add: w1_def jm_delete_new jm_has_get)
    with None show ?thesis
      unfolding start_topic_def Let_def w1_def [symmetric] loading_def [symmetric]
      using fresh t1 act1 free1 by (auto split: prod.split)
  next
    case (Some p)
    have p: "rn_topic (rt_at p w) = topic" "\<not> rn_stopped (rt_at p w)" using slots_okD(2,3) [OF s Some] by auto
    have s1: "slots_ok {p} True w1"
    proof (rule slots_okI)
      show "wd_active w1 = Some j \<or> jm_get (wd_parked w1) (rn_topic (rt_at j w1)) = Some j"
        if "j \<notin> {p}" "\<not> rn_stopped (rt_at j w1)" for j
        using that slots_okD(6) [OF s, of j] Some by (auto simp: w1_def act)
    qed (use slots_okD(1,2,3) [OF s] in \<open>auto simp: w1_def act split: if_splits\<close>)
    have out: "jm_get (wd_parked w1) t' \<noteq> Some p" for t'
      using slots_okD(2) [OF s, of t' p] p by (auto simp: w1_def)
    have show_p: "world_ok (activate p x)" if "timers_ok {} {} x" "slots_ok {p} True x" "wd_active x = None"
        "wd_parked x = wd_parked w1" "rt_at p x = rt_at p w1" for x
      using that p by (auto simp: world_ok_def same_timers_activate w1_def intro!: slots_show)
    have synced: "world_ok (resume_synced e p st' res w1)" for st'
      by (rule resume_synced_ok [OF show_p]) (use t1 s1 act1 p in \<open>simp_all add: w1_def\<close>)
    have waiting: "world_ok (resume_waiting e p (loading w1))"
      by (rule resume_waiting_ok [OF show_p])
        (use t1 s1 act1 p in \<open>simp_all add: loading_simps, simp_all add: w1_def\<close>)
    define wc where "wc = closeRuntime p w1"
    have "timers_ok {} {} wc" unfolding wc_def by (rule closeRuntime_ok [OF timers_ok_mono [OF t1]]) auto
    moreover have "slots_ok {} True wc" unfolding wc_def
      by (rule closeRuntime_slots) (use s1 act1 out in auto)
    moreover have "wd_active wc = None" "jm_get (wd_parked wc) topic = None"
      using act1 free1 by (simp_all add: wc_def)
    ultimately have fr: "world_ok (subscribe i (armLoadTimer i LOAD_TIMEOUT_MS (activate i w2)))"
      if "createRuntime e topic cluster res items order (loading wc) = (i, w2)" for items i w2
      using fresh [OF that] by blast
    show ?thesis
      unfolding start_topic_def Let_def w1_def [symmetric] loading_def [symmetric] Some option.case wc_def [symmetric]
      using synced waiting fr by (auto split: prod.split)
  qed
qed

lemma startShownList_ok:
  assumes w: "world_ok w" shows "world_ok (startShownList e force w)"
proof -
  have "world_ok (parkActive e w)" using parkActive_ok w by (simp add: world_ok_def)
  then have "world_ok (start_topic e topic cluster res order st (parkActive e w))" for topic cluster res order st
    by (rule start_topic_ok) simp
  then show ?thesis
    using w refresh_ok [OF w] unfolding startShownList_def Let_def by (auto split: option.split prod.split)
qed

text \<open>A topic the window does not have is subscribed for a pane, and parked.\<close>

lemma create_parked_ok:
  assumes t: "timers_ok {} {} w" and s: "slots_ok {} True w" and free: "jm_get (wd_parked w) topic = None"
    and other: "\<And>j. wd_active w = Some j \<Longrightarrow> rn_topic (rt_at j w) \<noteq> topic"
    and c: "createRuntime e topic cluster res items order w = (i, w1)"
  shows "world_ok (subscribe i (armLoadTimer i LOAD_TIMEOUT_MS (w1\<lparr>wd_parked := jm_set (wd_parked w1) topic i\<rparr>)))"
proof -
  have i: "i = wd_next w" and w1: "w1 = snd (createRuntime e topic cluster res items order w)"
    using createRuntime_rest(1) [of e topic cluster res items order w] by (simp_all add: c)
  have stop: "rn_stopped (rt_at (wd_next w) w)" using timers_okD(5) [OF t order_refl] .
  have act: "wd_active w \<noteq> Some (wd_next w)" using slots_okD(4) [OF s TrueI, of "wd_next w"] stop by auto
  have t1: "timers_ok {} {} w1" unfolding w1 by (rule createRuntime_ok [OF t])
  have s1: "slots_ok (insert i {}) True w1" unfolding w1 i by (rule createRuntime_slots [OF s stop act])
  have rt: "rt_at i w1 = new_runtime e topic cluster res items order" by (simp add: w1 i createRuntime_rt)
  have v: "wd_active w1 = wd_active w" "wd_parked w1 = wd_parked w" by (simp_all add: w1)
  have "slots_ok {} True (w1\<lparr>wd_parked := jm_set (wd_parked w1) topic i\<rparr>)"
  proof (rule slots_park [OF s1])
    show "rn_topic (rt_at j w1) \<noteq> rn_topic (rt_at i w1)" if "wd_active w1 = Some j" for j
    proof -
      have a: "wd_active w = Some j" using that v(1) by simp
      then have "j \<noteq> wd_next w" using act by auto
      then have "rt_at j w1 = rt_at j w" by (simp add: w1 createRuntime_rt)
      with other [OF a] show ?thesis by (simp add: rt)
    qed
  qed (use slots_okD(1) [OF s] act free in \<open>simp_all add: v rt i [symmetric]\<close>)
  then have "world_ok (w1\<lparr>wd_parked := jm_set (wd_parked w1) topic i\<rparr>)" using t1 by (simp add: world_ok_def)
  then show ?thesis by (rule armLoad_subscribe_ok) (simp add: rt)
qed

lemma drop_parked_gone: "jm_get (wd_parked (drop_parked topic w)) topic = None"
  by (simp add: drop_parked_def split: option.split)

lemma drop_parked_topic [simp]: "rn_topic (rt_at j (drop_parked topic w)) = rn_topic (rt_at j w)"
  by (simp add: drop_parked_def split: option.split)

lemma ensure_pane_ok:
  assumes w: "world_ok w" shows "world_ok (ensure_pane e cluster shown r2 w)"
proof -
  define topic where "topic = itemsTopic cluster (lt_resource r2)"
  define skip where "skip = (Some (lt_id r2) \<notin> set shown \<or> \<not> isLiveList (lt_resource r2) \<or> (lt_cluster r2 \<noteq> [] \<and> lt_cluster r2 \<noteq> cluster)
         \<or> (case wd_active w of Some i \<Rightarrow> rn_topic (rt_at i w) = topic \<and> \<not> rn_stopped (rt_at i w) | None \<Rightarrow> False))"
  define create where "create = (\<lambda>w. let (i, w1) = createRuntime e topic cluster (lt_resource r2) (lt_items r2) (tab_sort (Some r2)) w in
               subscribe i (armLoadTimer i LOAD_TIMEOUT_MS (w1\<lparr>wd_parked := jm_set (wd_parked w1) topic i\<rparr>)))"
  have e: "ensure_pane e cluster shown r2 w = (if skip then w else
        case jm_get (wd_parked w) topic of
             Some p \<Rightarrow>
               if \<not> rn_stopped (rt_at p w) \<and> en_handlers e topic
               then (case paneTabsShowing p False w of
                       Some ids \<Rightarrow> if rn_synced (rt_at p w) then writePaneTabs p ids w else w
                     | None \<Rightarrow> w)
               else create (drop_parked topic w)
           | None \<Rightarrow> create w)"
    unfolding ensure_pane_def Let_def skip_def topic_def create_def by (rule refl)
  have t: "timers_ok {} {} w" and s: "slots_ok {} True w" using w by (simp_all add: world_ok_def)
  have panes: "world_ok (writePaneTabs p ids w)" for p ids
    using w world_ok_same [OF same_timers_panes [OF same_timers_refl]] by blast
  have other: "rn_topic (rt_at j w) \<noteq> topic" if "\<not> skip" "wd_active w = Some j" for j
    using that slots_okD(4) [OF s TrueI that(2)] by (simp add: skip_def)
  have new: "world_ok (create w)" if "\<not> skip" "jm_get (wd_parked w) topic = None"
    unfolding create_def using create_parked_ok [OF t s that(2)] other [OF that(1)] by (auto split: prod.split)
  have renew: "world_ok (create (drop_parked topic w))" if "\<not> skip"
    unfolding create_def
    using create_parked_ok [OF drop_parked_ok [OF t] drop_parked_slots [OF s] drop_parked_gone] other [OF that]
    by (auto split: prod.split)
  show ?thesis unfolding e using w panes new renew by (auto split: option.split)
qed

lemma foldl_keeps:
  assumes "\<And>w x. P w \<Longrightarrow> P (f w x)" "P w"
  shows "P (foldl f w xs)"
  using assms(2) by (induction xs arbitrary: w) (simp_all add: assms(1))

lemma ensurePaneSubscriptions_ok: "world_ok w \<Longrightarrow> world_ok (ensurePaneSubscriptions e w)"
  unfolding ensurePaneSubscriptions_def Let_def
  by (auto intro!: foldl_keeps [where P = world_ok] ensure_pane_ok split: option.split)

section \<open>The timers of the window\<close>

lemma set_window_timer_ok:
  assumes w: "world_ok w"
    and t: "(\<exists>b. t = BurstTimer b) \<and> f = wd_burst_update (\<lambda>_. Some (wd_next w)) \<and> (\<forall>h b ms. jm_get (wd_timers w) h \<noteq> Some (BurstTimer b, ms))
      \<or> (\<exists>b. t = RetryTimer b) \<and> f = wd_retry_update (\<lambda>_. Some (wd_next w)) \<and> (\<forall>h b ms. jm_get (wd_timers w) h \<noteq> Some (RetryTimer b, ms))"
  shows "world_ok (f (snd (set_timer t ms w)))"
proof -
  have ok: "timers_ok {} {} w" using w by (simp add: world_ok_def)
  let ?w = "f (snd (set_timer t ms w))"
  have rt: "rt_at j ?w = rt_at j w" for j using t by auto
  have get: "jm_get (wd_timers ?w) h = (if h = wd_next w then Some (t, ms) else jm_get (wd_timers w) h)" for h
    using t set_timer_fields(9) [of t ms w h] by auto
  have nxt: "wd_next ?w = Suc (wd_next w)" using t by auto
  have win: "t \<noteq> FlushTimer j" "t \<noteq> WindowTimer j" "t \<noteq> FrameTimer j" for j using t by auto
  have mono: "held Q h ?w" if "held Q h w" for Q h
    by (rule held_mono [OF that]) (simp_all add: get nxt split: if_splits)
  have "timers_ok {} {} ?w"
  proof (rule timers_okI)
    show "recorded h t' ?w" if a: "jm_get (wd_timers ?w) h = Some (t', ms')" for h t' ms'
    proof (cases "h = wd_next w")
      case True
      then have "t' = t" using a by (simp add: get)
      with True t show ?thesis by (auto simp: recorded_def)
    next
      case False
      then have g: "jm_get (wd_timers w) h = Some (t', ms')" using a by (simp add: get)
      have burst: "wd_burst ?w = wd_burst w \<or> (\<forall>b. t' \<noteq> BurstTimer b)"
        and retry: "wd_retry ?w = wd_retry w \<or> (\<forall>b. t' \<noteq> RetryTimer b)" using t g by auto
      from timers_okD(1) [OF ok g] burst retry show ?thesis by (auto simp: recorded_def rt split: timer.splits)
    qed
    show "armed_ok j ?w" if "j \<notin> {}" for j
    proof -
      have a: "armed_ok j w" using timers_okD(3) [OF ok, of j] by simp
      show ?thesis
      proof (cases "rn_batchTimer (rt_at j w)")
        case None
        then show ?thesis by (simp add: armed_ok_def rt)
      next
        case (Some k)
        with a obtain t1 ms1 where k: "jm_get (wd_timers w) k = Some (t1, ms1)" "flushes j t1"
          by (auto simp: armed_ok_def batch_armed_def split: option.splits)
        then have "jm_get (wd_timers ?w) k = Some (t1, ms1)" using timers_okD(2) [OF ok k(1)] by (simp add: get)
        then show ?thesis by (simp add: armed_ok_def batch_armed_def rt Some k(2))
      qed
    qed
    show "pending_ok j ?w" if "j \<notin> {}" for j
      using timers_okD(8) [OF ok, of j] by (simp add: pending_ok_def rt)
    show "handles_ok j ?w" for j
      using timers_okD(6) [OF ok, of j] mono by (simp add: handles_ok_def rt)
    show "window_ok ?w"
      using timers_okD(7) [OF ok] mono t by (auto simp: window_ok_def held_def get nxt)
    show "h < wd_next ?w" if "jm_get (wd_timers ?w) h = Some (t', ms')" for h t' ms'
      using that timers_okD(2) [OF ok, of h] by (auto simp: get nxt split: if_splits intro: less_SucI)
  qed (use timers_okD(4,5) [OF ok] in \<open>auto simp: rt nxt\<close>)
  moreover have "wd_parked ?w = wd_parked w" "wd_active ?w = wd_active w" using t by auto
  ultimately show ?thesis using w by (simp add: world_ok_def slots_ok_def rt)
qed

text \<open>Clearing the window's timers.\<close>

lemma recorded_window_gone:
  assumes "timers_ok X P w"
  shows "jm_get (wd_timers (clear_handle (wd_burst w) w)) h \<noteq> Some (BurstTimer b, ms)"
    and "jm_get (wd_timers (clear_handle (wd_retry w) w)) h \<noteq> Some (RetryTimer b, ms)"
  using timers_okD(1) [OF assms, of h "BurstTimer b" ms] timers_okD(1) [OF assms, of h "RetryTimer b" ms]
  by (auto simp: recorded_def)

lemma clear_window_ok:
  assumes w: "world_ok w" and h: "h = wd_burst w \<or> h = wd_retry w"
  shows "world_ok (clear_handle h w)"
proof -
  have ok: "timers_ok {} {} w" using w by (simp add: world_ok_def)
  have "timers_ok {} {} (clear_handle h w)"
  proof (rule clear_ok [OF ok])
    fix k t ms assume k: "h = Some k" "jm_get (wd_timers w) k = Some (t, ms)"
    have win: "held (\<lambda>t. \<exists>b. t = BurstTimer b) (wd_burst w) w" "held (\<lambda>t. \<exists>f. t = RetryTimer f) (wd_retry w) w"
      using timers_okD(7) [OF ok] by (simp_all add: window_ok_def)
    have "(\<exists>b. t = BurstTimer b) \<or> (\<exists>b. t = RetryTimer b)"
      using heldD [OF win(1) _ k(2)] heldD [OF win(2) _ k(2)] h k(1) by auto
    then show "\<forall>j. \<not> flushes j t" by (auto simp: flushes_def)
  qed
  then show ?thesis by (rule world_ok_same_slots [OF _ _ w]) (intro same_slots_intros)
qed

lemma forget_window_ok:
  assumes w: "world_ok w"
    and f: "f = wd_burst_update (\<lambda>_. None) \<and> (\<forall>h b ms. jm_get (wd_timers w) h \<noteq> Some (BurstTimer b, ms))
      \<or> f = wd_retry_update (\<lambda>_. None) \<and> (\<forall>h b ms. jm_get (wd_timers w) h \<noteq> Some (RetryTimer b, ms))"
  shows "world_ok (f w)"
proof -
  have ok: "timers_ok {} {} w" using w by (simp add: world_ok_def)
  have v: "wd_timers (f w) = wd_timers w" "wd_next (f w) = wd_next w" "rt_at j (f w) = rt_at j w"
      "wd_burst (f w) = wd_burst w \<or> wd_burst (f w) = None" "wd_retry (f w) = wd_retry w \<or> wd_retry (f w) = None" for j
    using f by auto
  have hd: "held Q h (f w) = held Q h w" for Q h by (simp add: held_def v split: option.split)
  have "timers_ok {} {} (f w)"
  proof (rule timers_okI)
    show "recorded h t (f w)" if a: "jm_get (wd_timers (f w)) h = Some (t, ms)" for h t ms
    proof -
      have g: "jm_get (wd_timers w) h = Some (t, ms)" using a by (simp add: v)
      have "wd_burst (f w) = wd_burst w \<or> (\<forall>b. t \<noteq> BurstTimer b)" "wd_retry (f w) = wd_retry w \<or> (\<forall>b. t \<noteq> RetryTimer b)"
        using f g by auto
      with timers_okD(1) [OF ok g] show ?thesis by (auto simp: recorded_def v split: timer.splits)
    qed
    show "armed_ok j (f w)" if "j \<notin> {}" for j
      using timers_okD(3) [OF ok, of j] unfolding armed_ok_def batch_armed_def v(3) v(1) by blast
    show "handles_ok j (f w)" for j using timers_okD(6) [OF ok, of j] by (simp add: handles_ok_def hd v)
    show "window_ok (f w)" using timers_okD(7) [OF ok] v(4,5) by (auto simp: window_ok_def hd)
  qed (use timers_okD(2,4,5,8) [OF ok] in \<open>auto simp: v pending_ok_def\<close>)
  moreover have "wd_parked (f w) = wd_parked w" "wd_active (f w) = wd_active w" using f by auto
  ultimately show ?thesis using w by (simp add: world_ok_def slots_ok_def v)
qed

lemma clear_start_timers_ok:
  assumes w: "world_ok w" shows "world_ok (clear_start_timers w)"
proof -
  define w1 where "w1 = clear_handle (wd_burst w) w"
  define w2 where "w2 = clear_handle (wd_retry w1) w1"
  have w1: "world_ok w1" using clear_window_ok [OF w] by (simp add: w1_def)
  have w2: "world_ok w2" using clear_window_ok [OF w1] by (simp add: w2_def)
  have "jm_get (wd_timers w1) h \<noteq> Some (BurstTimer b, ms)" for h b ms
    using recorded_window_gone(1) [of "{}" "{}" w] w by (simp add: w1_def world_ok_def)
  then have b: "jm_get (wd_timers w2) h \<noteq> Some (BurstTimer b, ms)" for h b ms by (simp add: w2_def)
  have r: "jm_get (wd_timers w2) h \<noteq> Some (RetryTimer b, ms)" for h b ms
    using recorded_window_gone(2) [of "{}" "{}" w1] w1 by (simp add: w2_def world_ok_def)
  have "world_ok (w2\<lparr>wd_burst := None\<rparr>)" by (rule forget_window_ok [OF w2]) (use b in auto)
  then have "world_ok (w2\<lparr>wd_burst := None\<rparr>\<lparr>wd_retry := None\<rparr>)" by (rule forget_window_ok) (use r in auto)
  then show ?thesis by (simp add: clear_start_timers_def w1_def w2_def)
qed

section \<open>The operations of the slice\<close>

lemma startRealtimeInternal_ok:
  assumes w: "world_ok w" shows "world_ok (startRealtimeInternal e force w)"
proof -
  define w1 where "w1 = clear_handle (wd_retry w) w"
  have ok: "world_ok w1" using clear_window_ok [OF w] by (simp add: w1_def)
  have r: "jm_get (wd_timers w1) h \<noteq> Some (RetryTimer b, ms)" for h b ms
    using recorded_window_gone(2) [of "{}" "{}" w] w by (simp add: w1_def world_ok_def)
  have "world_ok (wd_retry_update (\<lambda>_. Some (wd_next w1)) (snd (set_timer (RetryTimer force) 100 w1)))"
    by (rule set_window_timer_ok [OF ok]) (use r in auto)
  moreover have "world_ok (ensurePaneSubscriptions e (startShownList e force w))"
    using w by (simp add: ensurePaneSubscriptions_ok startShownList_ok)
  ultimately show ?thesis
    using w by (simp add: startRealtimeInternal_def w1_def [symmetric] case_prod_beta)
qed

text \<open>Starting arms no burst timer.\<close>

lemma burst_unset_ok:
  assumes "world_ok w" "wd_burst w = None" shows "jm_get (wd_timers w) h \<noteq> Some (BurstTimer b, ms)"
proof
  assume "jm_get (wd_timers w) h = Some (BurstTimer b, ms)"
  then have "recorded h (BurstTimer b) w" using assms(1) timers_okD(1) by (auto simp: world_ok_def)
  with assms(2) show False by (simp add: recorded_def)
qed

lemma same_slots_burst: "same_slots w w' \<Longrightarrow> wd_burst w' = wd_burst w"
  by (simp add: same_slots_def)

lemma drop_parked_burst [simp]: "wd_burst (drop_parked topic w) = wd_burst w"
  by (simp add: drop_parked_def split: option.split)

lemma evict_parked_burst [simp]: "wd_burst (evict_parked w) = wd_burst w"
proof (induction w rule: evict_parked.induct)
  case (1 w)
  then show ?case by (subst evict_parked.simps) (auto split: option.split)
qed

lemma same_slots_burst_simps [simp]:
  "wd_burst (scheduleFlush e i w) = wd_burst w" "wd_burst (armLoadTimer i ms w) = wd_burst w"
  "wd_burst (subscribe i w) = wd_burst w" "wd_burst (on_ws f w) = wd_burst w"
  by (rule same_slots_burst, intro same_slots_intros)+

lemma activate_burst [simp]: "wd_burst (activate i w) = wd_burst w"
  by (simp add: activate_def)

lemma parkActive_burst [simp]: "wd_burst (parkActive e w) = wd_burst w"
  by (auto simp: parkActive_def Let_def split: option.split)

lemma resume_burst [simp]:
  "wd_burst (resume_synced e i st res w) = wd_burst w" "wd_burst (resume_waiting e i w) = wd_burst w"
proof -
  obtain sel w1 where f: "find_selection i (ts_selectedItem st) False (activate i w) = (sel, w1)"
    by (cases "find_selection i (ts_selectedItem st) False (activate i w)")
  then have "wd_burst w1 = wd_burst w"
    using same_timers_selection [OF same_timers_refl, of "activate i w" i "ts_selectedItem st" False]
    by (simp add: same_timers_def)
  then show "wd_burst (resume_synced e i st res w) = wd_burst w"
    by (simp add: resume_synced_def f Let_def commitList_def)
  show "wd_burst (resume_waiting e i w) = wd_burst w"
    by (simp add: resume_waiting_def Let_def flush_resumed_def split: option.split)
qed

lemma start_topic_burst [simp]: "wd_burst (start_topic e topic cluster res order st w) = wd_burst w"
  by (simp add: start_topic_def Let_def case_prod_beta split: option.split)

lemma startShownList_burst [simp]: "wd_burst (startShownList e force w) = wd_burst w"
proof -
  have "wd_burst (refresh_shown e force i st res order w) = wd_burst w" for i st res order
    using same_timers_refresh [OF same_timers_refl, of w e force i st res order] by (simp add: same_timers_def)
  then show ?thesis by (simp add: startShownList_def Let_def split: option.split)
qed

lemma ensure_burst [simp]: "wd_burst (ensurePaneSubscriptions e w) = wd_burst w"
proof -
  have pane: "wd_burst (ensure_pane e cluster shown r2 w) = wd_burst w" for cluster shown r2 w
    by (simp add: ensure_pane_def writePaneTabs_def Let_def case_prod_beta split: option.split)
  have "wd_burst (foldl (\<lambda>w r2. ensure_pane e cluster shown r2 w) w rs) = wd_burst w" for cluster shown rs
    by (rule foldl_keeps [where P = "\<lambda>x. wd_burst x = wd_burst w"]) (simp_all add: pane)
  then show ?thesis by (simp add: ensurePaneSubscriptions_def Let_def split: option.split)
qed

lemma startRealtimeInternal_burst [simp]: "wd_burst (startRealtimeInternal e force w) = wd_burst w"
  by (simp add: startRealtimeInternal_def case_prod_beta)

lemma startRealtime_ok:
  assumes w: "world_ok w" shows "world_ok (startRealtime e force w)"
proof -
  define w1 where "w1 = (if wd_burst w \<noteq> None then clear_handle (wd_burst w) w else startRealtimeInternal e force w)"
  have ok: "world_ok w1" using w by (simp add: w1_def clear_window_ok startRealtimeInternal_ok)
  have none: "jm_get (wd_timers w1) h \<noteq> Some (BurstTimer b, ms)" for h b ms
  proof (cases "wd_burst w")
    case None
    then have "wd_burst w1 = None" by (simp add: w1_def)
    with ok show ?thesis by (rule burst_unset_ok)
  next
    case (Some k)
    then show ?thesis using recorded_window_gone(1) [of "{}" "{}" w] w by (simp add: w1_def world_ok_def)
  qed
  have "world_ok (wd_burst_update (\<lambda>_. Some (wd_next w1)) (snd (set_timer (BurstTimer (wd_burst w \<noteq> None)) 50 w1)))"
    by (rule set_window_timer_ok [OF ok]) (use none in auto)
  then show ?thesis unfolding startRealtime_def Let_def case_prod_beta w1_def [symmetric] by simp
qed

lemma burst_fired_ok:
  assumes w: "world_ok w" and gone: "\<And>h b ms. jm_get (wd_timers w) h \<noteq> Some (BurstTimer b, ms)"
  shows "world_ok (burst_fired e burst w)"
proof -
  have "world_ok (w\<lparr>wd_burst := None\<rparr>)" by (rule forget_window_ok [OF w]) (use gone in auto)
  then show ?thesis by (simp add: burst_fired_def Let_def startRealtimeInternal_ok)
qed

lemma parkRealtime_ok: "world_ok w \<Longrightarrow> world_ok (parkRealtime e w)"
  using clear_start_timers_ok parkActive_ok by (simp add: parkRealtime_def world_ok_def)

lemma close_active_ok:
  assumes w: "world_ok w" and i: "wd_active w = Some i"
  shows "timers_ok {} {} (closeRuntime i w)" and "slots_ok {} False (closeRuntime i w)"
proof -
  have t: "timers_ok {} {} w" and s: "slots_ok {} True w" using w by (simp_all add: world_ok_def)
  show "timers_ok {} {} (closeRuntime i w)" by (rule closeRuntime_ok [OF timers_ok_mono [OF t]]) auto
  have out: "jm_get (wd_parked w) t' \<noteq> Some i" for t'
    using slots_okD(2) [OF s, of t' i] slots_okD(5) [OF s TrueI i] by auto
  have "slots_ok {i} False w" using s by (auto simp: slots_ok_def)
  then show "slots_ok {} False (closeRuntime i w)" by (rule closeRuntime_slots) (use out in auto)
qed

lemma slots_off_screen: "slots_ok L False w \<Longrightarrow> (\<And>i. wd_active w = Some i \<Longrightarrow> rn_stopped (rt_at i w)) \<Longrightarrow> slots_ok L True (w\<lparr>wd_active := None\<rparr>)"
  by (auto simp: slots_ok_def)

lemma drop_parked_world_ok: "world_ok w \<Longrightarrow> world_ok (drop_parked topic w)"
  by (simp add: world_ok_def drop_parked_ok drop_parked_slots)

lemma releaseRealtimeTopics_ok:
  assumes w: "world_ok w" shows "world_ok (releaseRealtimeTopics f w)"
proof -
  define w1 where "w1 = (case wd_active w of
                  Some i \<Rightarrow> if f (rn_topic (rt_at i w)) then (closeRuntime i w)\<lparr>wd_active := None\<rparr> else w
                | None \<Rightarrow> w)"
  have "world_ok ((closeRuntime i w)\<lparr>wd_active := None\<rparr>)" if i: "wd_active w = Some i" for i
  proof -
    have "slots_ok {} True ((closeRuntime i w)\<lparr>wd_active := None\<rparr>)"
      by (rule slots_off_screen [OF close_active_ok(2) [OF w i]]) (simp add: i)
    with close_active_ok(1) [OF w i] show ?thesis by (simp add: world_ok_def)
  qed
  then have "world_ok w1" using w by (simp add: w1_def split: option.split)
  then have "world_ok (foldl (\<lambda>w topic. if f topic then drop_parked topic w else w) w1 ts)" for ts
    by (intro foldl_keeps [where P = world_ok]) (simp_all add: drop_parked_world_ok)
  then show ?thesis by (simp add: releaseRealtimeTopics_def w1_def [symmetric])
qed

lemma stop_parked_fields:
  "wd_active (stop_parked topic w) = wd_active w" "rn_stopped (rt_at j w) \<Longrightarrow> rn_stopped (rt_at j (stop_parked topic w))"
proof -
  have r: "same_timers w (resubscribePane p ids w)" for p ids by (rule same_timers_resubscribe) simp
  show "wd_active (stop_parked topic w) = wd_active w" "rn_stopped (rt_at j w) \<Longrightarrow> rn_stopped (rt_at j (stop_parked topic w))"
    by (auto simp: stop_parked_def same_timers_viewD [OF r] drop_parked_def split: option.split)
qed

lemma stop_parked_ok:
  assumes "timers_ok {} {} w \<and> slots_ok {} A w"
  shows "timers_ok {} {} (stop_parked topic w) \<and> slots_ok {} A (stop_parked topic w)"
proof -
  have r: "same_timers w (resubscribePane p ids w)" for p ids by (rule same_timers_resubscribe) simp
  show ?thesis
    using assms drop_parked_ok [of "{}" "{}" w] drop_parked_slots [of "{}" A w]
    by (auto simp: stop_parked_def timers_ok_same [OF r] slots_ok_same [OF same_slots_timers [OF r same_slots_refl]] split: option.split)
qed

lemma stopRealtime_ok:
  assumes w: "world_ok w" shows "world_ok (stopRealtime w)"
proof -
  define w1 where "w1 = clear_start_timers w"
  define w2 where "w2 = (case wd_active w1 of Some i \<Rightarrow> closeRuntime i w1 | None \<Rightarrow> w1)"
  define w3 where "w3 = foldl (\<lambda>w topic. stop_parked topic w) w2 (jm_keys (wd_parked w2))"
  have ok1: "world_ok w1" unfolding w1_def by (rule clear_start_timers_ok [OF w])
  have ok2: "timers_ok {} {} w2 \<and> slots_ok {} False w2"
  proof (cases "wd_active w1")
    case None
    then show ?thesis using ok1 by (auto simp: w2_def world_ok_def slots_ok_def)
  next
    case (Some i)
    then show ?thesis using close_active_ok [OF ok1 Some] by (simp add: w2_def)
  qed
  have act2: "rn_stopped (rt_at i w2)" if "wd_active w2 = Some i" for i
    using that by (auto simp: w2_def split: option.splits)
  define Q where "Q = (\<lambda>x. (timers_ok {} {} x \<and> slots_ok {} False x) \<and> (\<forall>i. wd_active x = Some i \<longrightarrow> rn_stopped (rt_at i x)))"
  have "Q w3" unfolding w3_def
  proof (rule foldl_keeps)
    show "Q (stop_parked topic x)" if "Q x" for x topic
      using that stop_parked_ok [of x False topic] stop_parked_fields(1) [of topic x] stop_parked_fields(2) [of _ x topic] by (simp add: Q_def)
    show "Q w2" using ok2 act2 by (simp add: Q_def)
  qed
  then have "world_ok (w3\<lparr>wd_active := None\<rparr>)"
    by (auto simp: Q_def world_ok_def intro: slots_off_screen)
  then show ?thesis unfolding stopRealtime_def Let_def w3_def w2_def w1_def .
qed

section \<open>Timers going off\<close>

lemma fire_ok:
  assumes w: "world_ok w" shows "world_ok (fire e h w)"
proof (cases "jm_get (wd_timers w) h")
  case None
  then show ?thesis using w by (simp add: fire_def)
next
  case (Some tm)
  obtain t ms where tm: "tm = (t, ms)" by (cases tm)
  define w1 where "w1 = w\<lparr>wd_timers := jm_delete (wd_timers w) h\<rparr>"
  have c: "w1 = clear_handle (Some h) w" by (simp add: w1_def clear_handle_def)
  have ok: "timers_ok {} {} w" using w by (simp add: world_ok_def)
  have g: "jm_get (wd_timers w) h = Some (t, ms)" using Some tm by simp
  have rec: "recorded h t w" by (rule timers_okD(1) [OF ok g])
  have gone: "jm_get (wd_timers w1) k \<noteq> Some (t, ms')" if "\<And>k. recorded k t w \<Longrightarrow> k = h" for k ms'
    using that timers_okD(1) [OF ok, of k t ms'] by (auto simp: w1_def)
  have same: "same_slots w w1" by (simp add: w1_def same_slots_intros)
  have e: "fire e h w = run_timer e t w1" by (simp add: fire_def g w1_def)
  have plain: "timers_ok {} {} w1" if "\<And>j. \<not> flushes j t"
    unfolding c by (rule clear_ok [OF ok]) (use that g in auto)
  have exempt: "timers_ok {i} {i} w1" if "flushes i t" for i
    unfolding c by (rule clear_exempt_ok [OF timers_ok_mono [OF ok]]) (use that g in \<open>auto simp: flushes_def\<close>)
  have idle: "batch_idle i w1" "\<not> rn_stopped (rt_at i w1)" if "flushes i t" for i
  proof -
    have b: "rn_batchTimer (rt_at i w) = Some h" using rec that by (auto simp: recorded_def flushes_def)
    then show "batch_idle i w1" by (simp add: batch_idle_def w1_def)
    show "\<not> rn_stopped (rt_at i w1)" using b timers_okD(4) [OF ok, of i] by (auto simp: w1_def idle_def)
  qed
  have batch: "timers_ok {} {} (processBatch e i w1)" if "flushes i t" for i
    by (rule processBatch_ok) (use exempt [OF that] idle [OF that] in simp_all)
  have window: "timers_ok {} {} (window_fired e i w1)" if t: "t = WindowTimer i" for i
  proof -
    have f: "flushes i t" using t by (simp add: flushes_def)
    have "rn_batchTimerKind (rt_at i w) = Some TimeoutKind" using rec t by (simp add: recorded_def)
    then have "fallback_idle i w1"
    proof -
      have "jm_get (wd_timers w) k = None" if k: "rn_frameFallback (rt_at i w) = Some k" for k
      proof (rule ccontr)
        assume "jm_get (wd_timers w) k \<noteq> None"
        then obtain t' ms' where k': "jm_get (wd_timers w) k = Some (t', ms')" by (cases "jm_get (wd_timers w) k") auto
        then have "t' = FallbackTimer i"
          using timers_okD(6) [OF ok, of i] heldD [OF _ k k', of "(=) (FallbackTimer i)"] by (simp add: handles_ok_def)
        with timers_okD(1) [OF ok k'] \<open>rn_batchTimerKind (rt_at i w) = Some TimeoutKind\<close> show False
          by (simp add: recorded_def)
      qed
      then show ?thesis by (auto simp: fallback_idle_def w1_def split: option.split)
    qed
    then show ?thesis by (intro window_fired_ok) (use exempt [OF f] idle [OF f] in simp_all)
  qed
  have fallback: "timers_ok {} {} (fallback_fired e i w1)" if t: "t = FallbackTimer i" for i
    by (rule fallback_fired_ok [OF plain]) (use t rec in \<open>auto simp: flushes_def fallback_idle_def recorded_def w1_def\<close>)
  have load: "timers_ok {} {} (load_fired e i w1)" if t: "t = LoadTimer i" for i
    by (rule load_fired_ok [OF plain]) (use t rec gone in \<open>auto simp: flushes_def recorded_def\<close>)
  have resub: "timers_ok {} {} (resubscribe_fired i w1)" if t: "t = ResubscribeTimer i" for i
    by (rule resubscribe_fired_ok [OF plain]) (use t rec gone in \<open>auto simp: flushes_def recorded_def\<close>)
  have w1: "world_ok w1" if "\<And>j. \<not> flushes j t"
    by (rule world_ok_same_slots [OF plain [OF that] same w])
  have slots: "world_ok w'" if "timers_ok {} {} w'" "same_slots w1 w'" for w'
    by (rule world_ok_same_slots [OF that(1) same_slots_trans [OF same that(2)] w])
  have burst: "world_ok (burst_fired e b w1)" if t: "t = BurstTimer b" for b
  proof (rule burst_fired_ok [OF w1])
    show "jm_get (wd_timers w1) k \<noteq> Some (BurstTimer b', ms')" for k b' ms'
      using timers_okD(1) [OF ok, of k "BurstTimer b'" ms'] rec t by (auto simp: w1_def recorded_def)
  qed (simp add: t flushes_def)
  show ?thesis
  proof (cases t)
    case (RetryTimer force)
    then show ?thesis using w1 by (simp add: e run_timer_def flushes_def startRealtimeInternal_ok)
  qed (use batch window fallback load resub burst in \<open>auto simp: e run_timer_def flushes_def intro!: slots same_slots_intros\<close>)
qed

end
