(* ===== verification/LiveListProps.thy ===== *)
theory LiveListProps
  imports LiveListWorld WorkspaceStrips
begin

text \<open>
  What the live lists guarantee: over every sequence of messages, timers, starts, stops and
  changes of the workspace, no queued event is lost, no topic has two subscriptions, closed
  subscriptions are inert, and the retries, caches and parked lists stay bounded.
\<close>

section \<open>The system as a whole\<close>

text \<open>
  A step is a message of the socket, a timer that fires, an operation of the slice, any change
  of the workspace by another slice, or the user scrolling.
\<close>

inductive live_step :: "world \<Rightarrow> world \<Rightarrow> bool" where
  Message: "live_step w (onEvent e i b w)"
| Timer: "live_step w (fire e h w)"
| Start: "live_step w (startRealtime e force w)"
| Park: "live_step w (parkRealtime e w)"
| Release: "live_step w (releaseRealtimeTopics p w)"
| Stop: "live_step w (stopRealtime w)"
| Change: "live_step w (on_ws f w)"
| Scroll: "live_step w (upd_rt i (\<lambda>r. r\<lparr>rn_lastInteraction := Some t\<rparr>) w)"

inductive_cases live_stepE: "live_step w w'"

definition no_runtime :: runtime where
  "no_runtime =
     (new_runtime \<lparr>en_now = 0, en_perf = 0, en_hidden = False, en_ready = False, en_handlers = (\<lambda>_. False), en_copy = False\<rparr>
        [] [] (mk_resource [] [] [] [] False) [] ([], Asc))\<lparr>rn_session := newRealtimeSession\<lparr>rs_stopped := True\<rparr>\<rparr>"

definition live_init :: "ws \<Rightarrow> world" where
  "live_init s = \<lparr>wd_ws = s, wd_health = [], wd_heap = (\<lambda>_. no_runtime), wd_active = None, wd_parked = [], wd_cache = [],
     wd_timers = [], wd_next = 1, wd_burst = None, wd_retry = None, wd_calls = []\<rparr>"

inductive live_reachable :: "ws \<Rightarrow> world \<Rightarrow> bool" for s where
  init: "live_reachable s (live_init s)"
| step: "live_reachable s w \<Longrightarrow> live_step w w' \<Longrightarrow> live_reachable s w'"

lemma live_init_ok: "world_ok (live_init s)"
proof -
  have "rt_at i (live_init s) = no_runtime" for i by (simp add: live_init_def rt_at_def)
  then have rt: "rn_stopped (rt_at i (live_init s))" "idle (rt_at i (live_init s))" for i
    by (simp_all add: no_runtime_def idle_def rn_stopped_def new_runtime_def)
  then show ?thesis
    unfolding world_ok_def timers_ok_def slots_ok_def
    by (auto simp: idle_def armed_ok_def pending_ok_def handles_ok_def window_ok_def) (auto simp: live_init_def)
qed

lemma live_step_ok:
  assumes w: "world_ok w" and step: "live_step w w'" shows "world_ok w'"
  using step
proof (cases rule: live_step.cases)
  case (Message e i b)
  have "timers_ok {} {} (onEvent e i b w)" using w by (intro onEvent_ok) (simp_all add: world_ok_def)
  moreover have "same_slots w (onEvent e i b w)" by (intro same_slots_intros)
  ultimately show ?thesis using Message w world_ok_same_slots by blast
next
  case (Change f)
  then show ?thesis using w world_ok_same [OF same_timers_on_ws [OF same_timers_refl]] by blast
next
  case (Scroll i t)
  have "same_timers w (upd_rt i (\<lambda>r. r\<lparr>rn_lastInteraction := Some t\<rparr>) w)"
    by (rule same_timers_upd) (simp_all add: timer_view_def)
  then show ?thesis using Scroll w world_ok_same by blast
qed (use w in \<open>simp_all add: fire_ok startRealtime_ok parkRealtime_ok releaseRealtimeTopics_ok stopRealtime_ok\<close>)

lemma reachable_ok: "live_reachable s w \<Longrightarrow> world_ok w"
  by (induction rule: live_reachable.induct) (auto intro: live_init_ok live_step_ok)

section \<open>A flush empties the queue\<close>

lemma markLive_pending [simp]: "rn_pending (rt_at j (markLive e i c l w)) = rn_pending (rt_at j w)"
  by (simp add: markLive_def Let_def)

lemma markIncomplete_pending [simp]: "rn_pending (rt_at j (markIncomplete e i w)) = rn_pending (rt_at j w)"
  by (simp add: markIncomplete_def Let_def)

lemma outcomeOf_pending [simp]: "rn_pending (rt_at j (snd (outcomeOf e i result events w))) = rn_pending (rt_at j w)"
  by (simp add: outcomeOf_def split: option.split)

lemma process_off_screen_pending: "rn_pending (rt_at i (process_off_screen e i w)) = []"
proof -
  obtain result events w1 where a: "apply_pending i (rn_items (rt_at i w)) w = (result, events, w1)"
    by (metis prod_cases3)
  define w2 where "w2 = snd (outcomeOf e i result events w1)"
  have "same_timers w2 (process_off_screen e i w)"
    unfolding process_off_screen_def a Let_def prod.case w2_def [symmetric]
    by (auto intro!: same_timers_intros split: option.split)
  then show ?thesis by (simp add: same_timers_viewD w2_def apply_pending_view [OF a])
qed

lemma process_on_screen_pending: "rn_pending (rt_at i (process_on_screen e i st r w)) = []"
proof -
  obtain result events w1 where a: "apply_pending i (base_items (rt_at i w) r st) w = (result, events, w1)"
    by (metis prod_cases3)
  define w2 where "w2 = (if rollout_kind r then rollouts i r st (ar_items result) events w1 else w1)"
  have s2: "same_timers w1 w2" by (auto simp: w2_def intro!: same_timers_intros)
  obtain sel w3 where f: "followed_selection i result events (ts_selectedItem st) w2 = (sel, w3)"
    by (cases "followed_selection i result events (ts_selectedItem st) w2")
  have s3: "same_timers w1 w3" using same_timers_followed [OF s2, of i result events "ts_selectedItem st"] by (simp add: f)
  obtain out w4 where o: "outcomeOf e i result events w3 = (out, w4)" by (cases "outcomeOf e i result events w3")
  have p4: "rn_pending (rt_at i w4) = rn_pending (rt_at i w3)"
    using outcomeOf_pending [of i e i result events w3] by (simp add: o)
  have "same_timers w4 (process_on_screen e i st r w)"
    unfolding process_on_screen_def a Let_def prod.case w2_def [symmetric] f o
    by (auto intro!: same_timers_intros)
  then show ?thesis by (simp add: same_timers_viewD p4 same_timers_viewD(2) [OF s3] apply_pending_view [OF a])
qed

lemma processBatch_pending:
  assumes "rn_stopped (rt_at i w) \<Longrightarrow> rn_pending (rt_at i w) = []"
  shows "rn_pending (rt_at i (processBatch e i w)) = []"
  using assms process_off_screen_pending process_on_screen_pending
  by (auto simp: processBatch_def Let_def split: option.split)

lemma fire_flush_pending:
  assumes w: "world_ok w" and g: "jm_get (wd_timers w) h = Some (t, ms)" and t: "t = FlushTimer i \<or> t = FrameTimer i"
  shows "rn_pending (rt_at i (fire e h w)) = []"
proof -
  define w1 where "w1 = w\<lparr>wd_timers := jm_delete (wd_timers w) h\<rparr>"
  have "rn_stopped (rt_at i w1) \<Longrightarrow> rn_pending (rt_at i w1) = []"
    using w timers_okD(4) [of "{}" "{}" w i] by (simp add: world_ok_def w1_def idle_def)
  then have "rn_pending (rt_at i (processBatch e i w1)) = []" by (rule processBatch_pending)
  then show ?thesis using t by (auto simp: fire_def g run_timer_def w1_def)
qed

lemma requestFlushFrame_armed:
  "\<exists>h t ms. jm_get (wd_timers (requestFlushFrame e i w)) h = Some (t, ms) \<and> (t = FlushTimer i \<or> t = FrameTimer i)"
proof -
  have "jm_get (wd_timers (set_batch_timer i t k ms w)) (wd_next w) = Some (t, ms)" for t k ms
    by (simp add: set_batch_timer_def set_timer_def)
  moreover have "wd_next (set_batch_timer i t k ms w) = Suc (wd_next w)" for t k ms
    by (simp add: set_batch_timer_def set_timer_def)
  ultimately have "en_hidden e \<Longrightarrow> jm_get (wd_timers (requestFlushFrame e i w)) (wd_next w) = Some (FlushTimer i, PARKED_FLUSH_MS)"
    and "\<not> en_hidden e \<Longrightarrow> jm_get (wd_timers (requestFlushFrame e i w)) (wd_next w) = Some (FrameTimer i, 0)"
    by (simp_all add: requestFlushFrame_def case_prod_beta)
  then show ?thesis by (cases "en_hidden e") blast+
qed


text \<open>A window that shows the pods of a cluster, started, with one pod reported.\<close>

definition example_clock :: rt_env where
  "example_clock = \<lparr>en_now = 5000, en_perf = 5000, en_hidden = False, en_ready = True, en_handlers = (\<lambda>_. True), en_copy = False\<rparr>"

definition pods_resource :: resource where
  "pods_resource = mk_resource ''pods'' [] ''v1'' ''Pod'' True"

definition pods_ws :: ws where
  "pods_ws = updateCurrentTabState (plain_update (\<lambda>st. st\<lparr>ts_selectedNode := Some (mk_node ''pods'' ''Pods'' ''resource'' pods_resource)\<rparr>))
     example_ws"

definition example_message :: "string \<Rightarrow> ws_message" where
  "example_message action =
     \<lparr>wm_type = ''item'', wm_channel = Some ''items'', wm_action = action, wm_item = Some (empty_object\<lparr>it_name := Some ''web-0''\<rparr>),
      wm_epoch = None, wm_itemCount = None, wm_failed = False, wm_error = None, wm_errorCode = None, wm_lastSyncAt = None,
      wm_state = [], wm_failingSince = None\<rparr>"

definition started_world :: world where
  "started_world = startRealtime example_clock False (live_init pods_ws)"

definition reported_world :: world where
  "reported_world = onEvent example_clock 1 \<lparr>wb_events = [example_message ''ADDED''], wb_topic = None, wb_bulk = False, wb_epoch = None, wb_total = None\<rparr>
     started_world"

lemma reported_reachable: "live_reachable pods_ws reported_world"
  unfolding reported_world_def started_world_def
  by (rule live_reachable.step [OF live_reachable.step [OF live_reachable.init Start] Message])

lemma reported_queue: "rn_pending (rt_at 1 reported_world) \<noteq> [] \<and> rn_deferredSince (rt_at 1 reported_world) = 5000"
  by code_simp


section \<open>One open subscription per topic, and closed ones are inert\<close>

text \<open>C7: No topic has two open runtimes, and every open runtime is the one on screen or is parked under its topic,
  so it can be found, evicted and closed: no subscription leaks.\<close>

theorem one_runtime_per_topic:
  assumes "live_reachable s w" and "\<not> rn_stopped (rt_at i w)"
  shows "(wd_active w = Some i \<or> jm_get (wd_parked w) (rn_topic (rt_at i w)) = Some i)
    \<and> (\<forall>j. \<not> rn_stopped (rt_at j w) \<and> rn_topic (rt_at j w) = rn_topic (rt_at i w) \<longrightarrow> j = i)"
proof -
  have s: "slots_ok {} True w" using reachable_ok [OF assms(1)] by (simp add: world_ok_def)
  have slot: "wd_active w = Some j \<or> jm_get (wd_parked w) (rn_topic (rt_at j w)) = Some j" if "\<not> rn_stopped (rt_at j w)" for j
    using slots_okD(6) [OF s _ that] by blast
  have free: "jm_get (wd_parked w) (rn_topic (rt_at j w)) = None" if "wd_active w = Some j" for j
    using slots_okD(5) [OF s TrueI that] .
  have "j = i" if j: "\<not> rn_stopped (rt_at j w)" "rn_topic (rt_at j w) = rn_topic (rt_at i w)" for j
    using slot [OF j(1)]
  proof
    assume a: "wd_active w = Some j"
    then show ?thesis using slot [OF assms(2)] free [OF a] j(2) by simp
  next
    assume p: "jm_get (wd_parked w) (rn_topic (rt_at j w)) = Some j"
    from slot [OF assms(2)] show ?thesis
    proof
      assume "wd_active w = Some i"
      from free [OF this] p j(2) show ?thesis by simp
    qed (use p j(2) in simp)
  qed
  with slot [OF assms(2)] show ?thesis by blast
qed

lemma reported_open: "\<not> rn_stopped (rt_at 1 reported_world)"
  by code_simp

lemma one_runtime_per_topic_witness:
  "let w = reported_world in
     (wd_active w = Some 1 \<or> jm_get (wd_parked w) (rn_topic (rt_at 1 w)) = Some 1)
     \<and> (\<forall>j. \<not> rn_stopped (rt_at j w) \<and> rn_topic (rt_at j w) = rn_topic (rt_at 1 w) \<longrightarrow> j = 1)"
  unfolding Let_def by (rule one_runtime_per_topic [OF reported_reachable reported_open])

text \<open>C8: A closed runtime is inert: the window no longer holds it, no timer of it is armed, nothing is queued, and a
  message of the socket that still reaches it changes nothing.\<close>

theorem closed_runtime_inert:
  assumes "live_reachable s w" and "rn_stopped (rt_at i w)"
  shows "onEvent e i b w = w \<and> rn_pending (rt_at i w) = [] \<and> wd_active w \<noteq> Some i \<and> (\<forall>t. jm_get (wd_parked w) t \<noteq> Some i)
    \<and> (\<forall>h t ms. jm_get (wd_timers w) h = Some (t, ms) \<longrightarrow>
         t \<notin> {FlushTimer i, WindowTimer i, FrameTimer i, FallbackTimer i, LoadTimer i, ResubscribeTimer i})"
proof -
  have t: "timers_ok {} {} w" and s: "slots_ok {} True w" using reachable_ok [OF assms(1)] by (simp_all add: world_ok_def)
  have idle: "idle (rt_at i w)" using timers_okD(4) [OF t assms(2)] .
  have "t \<notin> {FlushTimer i, WindowTimer i, FrameTimer i, FallbackTimer i, LoadTimer i, ResubscribeTimer i}"
    if "jm_get (wd_timers w) h = Some (t, ms)" for h t ms
    using timers_okD(1) [OF t that] idle by (auto simp: recorded_def idle_def)
  moreover have "wd_active w \<noteq> Some i" "jm_get (wd_parked w) t \<noteq> Some i" for t
    using slots_okD(3,4) [OF s] assms(2) by blast+
  ultimately show ?thesis using idle assms(2) by (auto simp: onEvent_def idle_def)
qed

lemma stopped_reachable: "live_reachable pods_ws (stopRealtime reported_world)"
  by (rule live_reachable.step [OF reported_reachable Stop])

lemma stopped_closed: "rn_stopped (rt_at 1 (stopRealtime reported_world))"
  by code_simp

lemma closed_runtime_inert_witness:
  "let w = stopRealtime reported_world in rn_pending (rt_at 1 w) = [] \<and> wd_active w \<noteq> Some 1"
  using closed_runtime_inert [OF stopped_reachable stopped_closed] by (auto simp: Let_def)

section \<open>Eviction\<close>

lemma closeRuntime_panes [simp]: "paneTabsShowing p a (closeRuntime i w) = paneTabsShowing p a w"
proof -
  have c: "rn_cluster (rt_at p (closeRuntime i w)) = rn_cluster (rt_at p w)" by (simp add: closeRuntime_rt)
  show ?thesis unfolding paneTabsShowing_def Let_def c closeRuntime_topic closeRuntime_rest by (rule refl)
qed

lemma drop_parked_panes [simp]: "paneTabsShowing p a (drop_parked topic w) = paneTabsShowing p a w"
proof -
  have "paneTabsShowing p a (w\<lparr>wd_parked := m\<rparr>) = paneTabsShowing p a w" for m
    unfolding paneTabsShowing_def Let_def rt_at_window by simp
  then show ?thesis by (simp add: drop_parked_def split: option.split)
qed

lemma drop_parked_wf: "jm_wf (wd_parked w) \<Longrightarrow> jm_wf (wd_parked (drop_parked topic w))"
  by (auto simp: drop_parked_def split: option.split)

lemma drop_parked_get: "jm_get (wd_parked (drop_parked topic w)) t = (if t = topic then None else jm_get (wd_parked w) t)"
  by (auto simp: drop_parked_def split: option.split)

lemma unshown_topic_unshown:
  assumes "jm_wf (wd_parked w)" "unshown_topic w = Some t" "jm_get (wd_parked w) t = Some p"
  shows "paneTabsShowing p True w = None"
proof -
  obtain q where q: "find (\<lambda>(topic, p). paneTabsShowing p True w = None) (wd_parked w) = Some (t, q)"
    using assms(2) by (auto simp: unshown_topic_def)
  then have "(t, q) \<in> set (wd_parked w)" "paneTabsShowing q True w = None"
    by (auto simp: find_Some_iff in_set_conv_nth)
  moreover from this have "jm_get (wd_parked w) t = Some q"
    using assms(1) by (simp add: jm_get_def jm_wf_def jm_keys_def)
  ultimately show ?thesis using assms(3) by simp
qed

lemma unshown_topic_none:
  "unshown_topic w = None \<longleftrightarrow> (\<forall>(t, p) \<in> set (wd_parked w). paneTabsShowing p True w \<noteq> None)"
  by (auto simp: unshown_topic_def find_None_iff)

text \<open>C9: The eviction loop ends, with at most six parked topics or only topics that a split pane shows, and it never
  evicts a topic that a split pane shows.\<close>

theorem eviction_ends:
  assumes "jm_wf (wd_parked w)"
  shows "(jm_size (wd_parked (evict_parked w)) \<le> MAX_PARKED_TOPICS
      \<or> (\<forall>(t, p) \<in> set (wd_parked (evict_parked w)). paneTabsShowing p True w \<noteq> None))
    \<and> (\<forall>t p. jm_get (wd_parked w) t = Some p \<and> paneTabsShowing p True w \<noteq> None \<longrightarrow> jm_get (wd_parked (evict_parked w)) t = Some p)"
  using assms
proof (induction w rule: evict_parked.induct)
  case (1 w)
  show ?case
  proof (cases "jm_size (wd_parked w) > MAX_PARKED_TOPICS")
    case False
    then show ?thesis by (simp add: evict_parked.simps [of w])
  next
    case True
    show ?thesis
    proof (cases "unshown_topic w")
      case None
      then have e: "evict_parked w = w" by (simp add: evict_parked.simps [of w])
      show ?thesis unfolding e using None [unfolded unshown_topic_none] by blast
    next
      case (Some t0)
      have e: "evict_parked w = evict_parked (drop_parked t0 w)" using True Some by (simp add: evict_parked.simps [of w])
      note ih = "1.IH" [OF True Some drop_parked_wf [OF "1.prems"], unfolded drop_parked_panes]
      have "jm_get (wd_parked (drop_parked t0 w)) t = Some p"
        if "jm_get (wd_parked w) t = Some p" "paneTabsShowing p True w \<noteq> None" for t p
        using that unshown_topic_unshown [OF "1.prems" Some, of p] by (auto simp: drop_parked_get)
      with ih show ?thesis unfolding e by blast
    qed
  qed
qed

lemma eviction_ends_witness:
  "jm_size (wd_parked (evict_parked (parkRealtime example_clock reported_world))) \<le> MAX_PARKED_TOPICS
    \<or> (\<forall>(t, p) \<in> set (wd_parked (evict_parked (parkRealtime example_clock reported_world))).
         paneTabsShowing p True (parkRealtime example_clock reported_world) \<noteq> None)"
proof -
  have "live_reachable pods_ws (parkRealtime example_clock reported_world)"
    by (rule live_reachable.step [OF reported_reachable Park])
  then have "jm_wf (wd_parked (parkRealtime example_clock reported_world))"
    using reachable_ok by (auto simp: world_ok_def slots_ok_def)
  then show ?thesis using eviction_ends by blast
qed

section \<open>Retries and caches\<close>


text \<open>At the limit the report is not renewed: rows of a new listing mark the list live again although it is still failing
  as incomplete, and when that listing closes with rows missing too, the topic stays live with a runtime that is not synced.\<close>

lemma incomplete_listing_left_live:
  assumes "MAX_INCOMPLETE_RESUBSCRIBES \<le> rn_incompleteAttempt (rt_at i w)"
    and "map_option tf_errorCode (rn_failing (rt_at i w)) = Some (Some ''incomplete'')"
    and "ar_failure rows = None" "\<not> ar_incomplete rows" "\<not> ar_syncSeen rows" "ar_changed rows"
    and "list_ex (\<lambda>ev. truthy_num (ev_epoch ev) \<and> ev_action ev \<noteq> Sync) events"
    and "ar_failure closing = None" "ar_incomplete closing"
  shows "let w1 = snd (outcomeOf e i rows events w); w2 = snd (outcomeOf e' i closing events' w1) in
    fst (outcomeOf e' i closing events' w1) = Some OutIncomplete \<and> \<not> rn_synced (rt_at i w2)
    \<and> (\<exists>h. jm_get (wd_health w2) (rn_topic (rt_at i w2)) = Some h \<and> th_live h)"
proof -
  define w1 where "w1 = snd (outcomeOf e i rows events w)"
  have w1: "w1 = markLive e i False None (upd_rt i (\<lambda>r. r\<lparr>rn_synced := True\<rparr>) w)"
    using assms(3-7) by (simp add: w1_def outcomeOf_def)
  have rt: "rn_incompleteAttempt (rt_at i w1) = rn_incompleteAttempt (rt_at i w)" "rn_failing (rt_at i w1) = rn_failing (rt_at i w)"
    "rn_topic (rt_at i w1) = rn_topic (rt_at i w)"
    by (simp_all add: w1 markLive_def Let_def)
  have live: "\<exists>h. jm_get (wd_health w1) (rn_topic (rt_at i w)) = Some h \<and> th_live h"
    by (auto simp: w1 markLive_def writeHealth_def Let_def)
  have "outcomeOf e' i closing events' w1 = (Some OutIncomplete, upd_rt i (\<lambda>r. r\<lparr>rn_synced := False\<rparr>) w1)"
    using assms(1,2,8,9) by (simp add: outcomeOf_def markIncomplete_def Let_def rt)
  then show ?thesis using live by (simp add: Let_def w1_def [symmetric] rt)
qed

text \<open>The rows kept for topics the user left are those of at most twelve topics, the one stored last among them with its
  rows, and nothing else is dropped while there is room.\<close>

lemma item_cache_bounded:
  assumes "jm_wf (wd_cache w)"
  shows "let m = wd_cache (cacheItems topic items w) in
    jm_wf m \<and> length (jm_keys m) \<le> MAX_CACHED_TOPICS \<and> jm_get m topic = Some items \<and> last (jm_keys m) = topic
    \<and> (length (filter (\<lambda>t. t \<noteq> topic) (jm_keys (wd_cache w))) < MAX_CACHED_TOPICS \<longrightarrow>
         (\<forall>t. t \<noteq> topic \<longrightarrow> jm_get m t = jm_get (wd_cache w) t))"
  using items_cache.store_bounded [OF assms, of topic items] items_cache.store_hit [OF assms, of topic items]
    items_cache.store_newest [OF assms, of topic items] items_cache.wf_store [OF assms, of topic items]
    items_cache.store_keeps [OF assms]
  by (simp add: cacheItems_def Let_def)

lemma item_cache_bounded_witness:
  "let m = wd_cache (cacheItems ''t'' [] (live_init ws_init)) in length (jm_keys m) \<le> MAX_CACHED_TOPICS \<and> jm_get m ''t'' = Some []"
  using item_cache_bounded [of "live_init ws_init" "''t''" "[]"] by (simp add: live_init_def Let_def)

section \<open>The queue is well typed\<close>

definition event_typed :: "kube_object rt_event \<Rightarrow> bool" where
  "event_typed ev =
     (if ev_action ev = Sync then ev_item ev = None \<and> ev_epoch ev \<noteq> None \<and> (ev_failed ev \<or> the (ev_epoch ev) > 0)
         \<and> (ev_errorCode ev \<noteq> None \<longrightarrow> ev_failed ev)
      else ev_item ev \<noteq> None \<and> \<not> ev_failed ev \<and> ev_error ev = None)"

lemma sync_event_typed: "event_typed (sync_event ev)"
  by (auto simp: event_typed_def sync_event_def Let_def given_def)

lemma item_event_typed: "action_of a = Some act \<Longrightarrow> event_typed (item_event b act ev)"
  by (auto simp: event_typed_def item_event_def action_of_def split: if_splits)

lemma receive_typed:
  assumes "list_all event_typed (rn_pending (rt_at j (snd pw)))"
  shows "list_all event_typed (rn_pending (rt_at j (snd (receive e i b ev pw))))"
  using assms by (auto simp: receive_def push_event_def sync_event_typed item_event_typed Let_def split: prod.split option.split)



text \<open>Witnesses for the two statements on incomplete listings.\<close>

definition closing_result :: "kube_object apply_result" where
  "closing_result = \<lparr>ar_items = [], ar_changed = False, ar_completedEpoch = None, ar_syncSeen = True, ar_incomplete = True,
     ar_failure = None, ar_removed = []\<rparr>"

definition rows_result :: "kube_object apply_result" where
  "rows_result = \<lparr>ar_items = [empty_object], ar_changed = True, ar_completedEpoch = None, ar_syncSeen = False, ar_incomplete = False,
     ar_failure = None, ar_removed = []\<rparr>"

definition listing_event :: "kube_object rt_event" where
  "listing_event = \<lparr>ev_action = Added, ev_item = Some empty_object, ev_epoch = Some 3, ev_itemCount = None, ev_failed = False,
     ev_error = None, ev_errorCode = None, ev_lastSyncAt = None\<rparr>"

fun incomplete_times :: "nat \<Rightarrow> nat \<Rightarrow> world \<Rightarrow> world" where
  "incomplete_times 0 i w = w"
| "incomplete_times (Suc n) i w = incomplete_times n i (markIncomplete example_clock i w)"


lemma incomplete_listing_left_live_witness:
  "let w = incomplete_times 6 1 started_world; w1 = snd (outcomeOf example_clock 1 rows_result [listing_event] w);
       w2 = snd (outcomeOf example_clock 1 closing_result [] w1) in
     \<not> rn_synced (rt_at 1 w2) \<and> (\<exists>h. jm_get (wd_health w2) (rn_topic (rt_at 1 w2)) = Some h \<and> th_live h)"
proof -
  have "MAX_INCOMPLETE_RESUBSCRIBES \<le> rn_incompleteAttempt (rt_at 1 (incomplete_times 6 1 started_world))"
    and "map_option tf_errorCode (rn_failing (rt_at 1 (incomplete_times 6 1 started_world))) = Some (Some ''incomplete'')"
    by code_simp+
  from incomplete_listing_left_live [OF this, of rows_result "[listing_event]" closing_result example_clock example_clock "[]"]
  show ?thesis by (simp add: rows_result_def closing_result_def listing_event_def truthy_num_def Let_def)
qed

end
