(* ===== verification/K8sNamesProps.thy ===== *)
theory K8sNamesProps
  imports K8sNames
begin

text \<open>
  The spelling rules and the tables of \<open>K8sNames\<close> agree: round trips between kind and
  plural, idempotence, and the lookups of the registry under both spellings.
\<close>

section \<open>Normal form of a word\<close>

lemma code_unit_char_of [simp]: "n < 256 \<Longrightarrow> code_unit (char_of n) = n"
  by (simp add: code_unit_def)

lemma code_unit_less [simp]: "code_unit c < 256"
  by (simp add: code_unit_def)

lemma lower_char_unit:
  "code_unit (lower_char c) =
     (let n = code_unit c in if (65 \<le> n \<and> n \<le> 90) \<or> (192 \<le> n \<and> n \<le> 222 \<and> n \<noteq> 215) then n + 32 else n)"
  by (simp add: lower_char_def Let_def)

lemma code_unit_inj: "code_unit a = code_unit b \<Longrightarrow> a = b"
  by (simp add: code_unit_def)

lemma lower_char_idem [simp]: "lower_char (lower_char c) = lower_char c"
  by (rule code_unit_inj) (auto simp: lower_char_unit Let_def)

lemma is_space_lower [simp]: "is_space (lower_char c) = is_space c"
  by (auto simp: is_space_def lower_char_unit Let_def)

lemma to_lower_idem [simp]: "to_lower (to_lower s) = to_lower s"
  by (simp add: to_lower_def)

lemma to_lower_append [simp]: "to_lower (s @ t) = to_lower s @ to_lower t"
  by (simp add: to_lower_def)

lemma trim_start_id: "(s \<noteq> [] \<Longrightarrow> \<not> is_space (hd s)) \<Longrightarrow> trim_start s = s"
  by (cases s) (auto simp: trim_start_def)

lemma trim_start_hd: "trim_start s \<noteq> [] \<Longrightarrow> \<not> is_space (hd (trim_start s))"
  by (metis hd_dropWhile trim_start_def)

lemma js_trim_id: "(s \<noteq> [] \<Longrightarrow> \<not> is_space (hd s) \<and> \<not> is_space (last s)) \<Longrightarrow> js_trim s = s"
  by (cases "s = []") (simp_all add: js_trim_def trim_start_id hd_rev, simp add: trim_start_def)

lemma js_trim_ends:
  assumes "js_trim s \<noteq> []"
  shows "\<not> is_space (hd (js_trim s))" "\<not> is_space (last (js_trim s))"
proof -
  let ?t = "trim_start s"
  show "\<not> is_space (last (js_trim s))"
    using assms trim_start_hd [of "rev ?t"] by (simp add: js_trim_def last_rev)
  obtain z where "rev ?t = z @ trim_start (rev ?t)"
    by (metis takeWhile_dropWhile_id trim_start_def)
  then have t: "?t = js_trim s @ rev z" by (metis js_trim_def rev_append rev_rev_ident)
  then have "?t \<noteq> []" "hd ?t = hd (js_trim s)" using assms by (simp_all only: t) simp_all
  then show "\<not> is_space (hd (js_trim s))" using trim_start_hd by metis
qed

text \<open>A word in normal form is trimmed and lower case; both spellings are.\<close>

definition is_word :: "string \<Rightarrow> bool" where
  "is_word s = (js_trim s = s \<and> to_lower s = s)"

lemma is_word_iff:
  "is_word s \<longleftrightarrow> to_lower s = s \<and> (s \<noteq> [] \<longrightarrow> \<not> is_space (hd s) \<and> \<not> is_space (last s))"
  using js_trim_ends [of s] js_trim_id [of s] by (auto simp: is_word_def)

lemma hd_to_lower: "s \<noteq> [] \<Longrightarrow> hd (to_lower s) = lower_char (hd s)"
  by (simp add: to_lower_def hd_map)

lemma last_to_lower: "s \<noteq> [] \<Longrightarrow> last (to_lower s) = lower_char (last s)"
  by (simp add: to_lower_def last_map)

lemma is_word_norm: "is_word (to_lower (js_trim s))"
proof (cases "js_trim s = []")
  case False
  then have "to_lower (js_trim s) \<noteq> []" by (simp add: to_lower_def)
  with False show ?thesis
    using js_trim_ends [OF False] by (simp add: is_word_iff hd_to_lower last_to_lower)
qed (simp add: is_word_iff to_lower_def)

lemma is_word_append:
  assumes "is_word s" "s \<noteq> []" "to_lower t = t" "t \<noteq> []" "\<not> is_space (last t)"
  shows "is_word (s @ t)"
  using assms by (simp add: is_word_iff)

lemma word_norm: "is_word s \<Longrightarrow> to_lower (js_trim s) = s"
  by (simp add: is_word_def)

section \<open>The tables\<close>

text \<open>Lower-case letters by their bits, so that the tables are checked quickly.\<close>

fun is_letter :: "char \<Rightarrow> bool" where
  "is_letter (Char b0 b1 b2 b3 b4 b5 b6 b7) =
     (\<not> b7 \<and> b6 \<and> b5 \<and> (b0 \<or> b1 \<or> b2 \<or> b3 \<or> b4) \<and> \<not> (b4 \<and> b3 \<and> (b2 \<or> (b1 \<and> b0))))"

lemma is_letter_unit: "is_letter c \<Longrightarrow> 97 \<le> code_unit c \<and> code_unit c \<le> 122"
  by (cases c) (auto simp: code_unit_def of_char_def)

lemma is_letter_word: "s \<noteq> [] \<Longrightarrow> list_all is_letter s \<Longrightarrow> is_word s"
proof -
  assume s: "s \<noteq> []" "list_all is_letter s"
  have l: "lower_char c = c \<and> \<not> is_space c" if "is_letter c" for c
    using is_letter_unit [OF that] by (auto simp: is_space_def lower_char_def Let_def)
  have "to_lower s = s" using s(2) l by (auto simp: to_lower_def list_all_iff intro: map_idI)
  moreover have "is_letter (hd s)" "is_letter (last s)"
    using s by (auto simp: list_all_iff)
  ultimately show ?thesis using l by (simp add: is_word_iff)
qed

lemma known_distinct: "distinct (jm_keys KNOWN_RESOURCE_NAMES)"
  by code_simp

lemma plurals_distinct: "distinct (jm_values KNOWN_RESOURCE_NAMES)"
  by code_simp

lemma known_words:
  "list_all (\<lambda>(kind, plural). kind \<noteq> [] \<and> plural \<noteq> [] \<and> list_all is_letter kind \<and> list_all is_letter plural)
     KNOWN_RESOURCE_NAMES"
  by code_simp

lemma known_overlap:
  "list_all (\<lambda>(kind, plural). kind = plural \<or> list_all (\<lambda>(kind', plural'). kind \<noteq> plural') KNOWN_RESOURCE_NAMES)
     KNOWN_RESOURCE_NAMES"
  by code_simp

lemma known_map: "(kind, plural) \<in> set KNOWN_RESOURCE_NAMES \<Longrightarrow> jm_get KNOWN_RESOURCE_NAMES kind = Some plural"
  using known_distinct by (simp add: jm_get_def jm_keys_def map_of_is_SomeI)

lemma known_map_iff: "jm_get KNOWN_RESOURCE_NAMES kind = Some plural \<longleftrightarrow> (kind, plural) \<in> set KNOWN_RESOURCE_NAMES"
  using known_map by (auto simp: jm_get_def dest: map_of_SomeD)

lemma known_kinds_map_iff: "jm_get KNOWN_KINDS plural = Some kind \<longleftrightarrow> (kind, plural) \<in> set KNOWN_RESOURCE_NAMES"
proof -
  have k: "jm_keys (map (\<lambda>(kind, plural). (plural, kind)) KNOWN_RESOURCE_NAMES) = jm_values KNOWN_RESOURCE_NAMES"
    by (simp add: jm_keys_def jm_values_def case_prod_unfold)
  then have e: "KNOWN_KINDS = map (\<lambda>(kind, plural). (plural, kind)) KNOWN_RESOURCE_NAMES"
    by (simp add: KNOWN_KINDS_def js_map_of_distinct plurals_distinct)
  have d: "distinct (map fst KNOWN_KINDS)" using k plurals_distinct e by (simp add: jm_keys_def)
  show ?thesis unfolding jm_get_def map_of_eq_Some_iff [OF d] by (auto simp: e)
qed

lemma known_entry:
  assumes "(kind, plural) \<in> set KNOWN_RESOURCE_NAMES"
  shows "kind \<noteq> []" "plural \<noteq> []" "is_word kind" "is_word plural"
  using assms known_words by (auto simp: list_all_iff is_letter_word)

lemma truthy_known [simp]:
  "truthy_str (jm_get KNOWN_RESOURCE_NAMES w) \<longleftrightarrow> jm_get KNOWN_RESOURCE_NAMES w \<noteq> None"
  "truthy_str (jm_get KNOWN_KINDS w) \<longleftrightarrow> jm_get KNOWN_KINDS w \<noteq> None"
  by (cases "jm_get KNOWN_RESOURCE_NAMES w"; use known_entry known_map_iff in force)
     (cases "jm_get KNOWN_KINDS w"; use known_entry known_kinds_map_iff in force)

text \<open>A word that is both a kind and a plural is its own plural (\<open>endpoints\<close>).\<close>

lemma known_both:
  assumes "(kind, plural) \<in> set KNOWN_RESOURCE_NAMES" "(kind', kind) \<in> set KNOWN_RESOURCE_NAMES"
  shows "kind = plural \<and> kind' = kind"
proof -
  have "kind = plural \<or> list_all (\<lambda>(kind', plural'). kind \<noteq> plural') KNOWN_RESOURCE_NAMES"
    using bspec [OF known_overlap [unfolded list_all_iff] assms(1)] by (simp add: list_all_iff)
  then have "kind = plural"
    using assms(2) by (auto simp: list_all_iff dest: bspec)
  with assms show ?thesis using known_kinds_map_iff by (metis option.inject)
qed

section \<open>Round trips\<close>

lemma pluralize_known: "(kind, plural) \<in> set KNOWN_RESOURCE_NAMES \<Longrightarrow> pluralize kind = plural"
  by (simp add: pluralize_def word_norm known_entry known_map)

lemma pluralize_plural:
  assumes "(kind, plural) \<in> set KNOWN_RESOURCE_NAMES"
  shows "pluralize plural = plural"
proof (cases "jm_get KNOWN_RESOURCE_NAMES plural")
  case None
  moreover have "jm_get KNOWN_KINDS plural = Some kind" using assms known_kinds_map_iff by metis
  ultimately show ?thesis using assms by (simp add: pluralize_def word_norm known_entry)
next
  case (Some p)
  then show ?thesis using assms known_both known_map_iff pluralize_known by metis
qed

lemma singularize_plural:
  "(kind, plural) \<in> set KNOWN_RESOURCE_NAMES \<Longrightarrow> singularize plural = kind"
  using known_kinds_map_iff [of plural kind] by (simp add: singularize_def word_norm known_entry)

lemma singularize_known:
  assumes "(kind, plural) \<in> set KNOWN_RESOURCE_NAMES"
  shows "singularize kind = kind"
proof (cases "jm_get KNOWN_KINDS kind")
  case None
  moreover have "jm_get KNOWN_RESOURCE_NAMES kind = Some plural" using assms known_map_iff by metis
  ultimately show ?thesis using assms by (simp add: singularize_def word_norm known_entry)
next
  case (Some p)
  then show ?thesis using assms known_both known_kinds_map_iff singularize_plural by metis
qed

lemma ends_with_snoc [simp]: "ends_with (s @ t) (u @ t) = ends_with s u" "ends_with (s @ t) t"
  by (auto simp: ends_with_iff)

lemma pluralize_word:
  assumes "is_word w" "w \<noteq> []" "jm_get KNOWN_RESOURCE_NAMES w = None" "jm_get KNOWN_KINDS w = None"
  shows "pluralize w =
     (if ends_with w ''ss'' \<or> ends_with w ''us'' then w @ ''es''
      else if ends_with w ''s'' then w
      else if sibilant_end w then w @ ''es''
      else if consonant_y_end w then drop_last 1 w @ ''ies''
      else w @ ''s'')"
  using assms by (simp add: pluralize_def word_norm)

lemma pluralize_norm: "pluralize k = pluralize (to_lower (js_trim k))"
  using is_word_norm [of k] by (simp only: pluralize_def word_norm)

lemma pluralize_is_word: "is_word w \<Longrightarrow> is_word (pluralize w)"
proof (cases "jm_get KNOWN_RESOURCE_NAMES w = None \<and> jm_get KNOWN_KINDS w = None \<and> w \<noteq> []")
  case True
  assume w: "is_word w"
  have suffixes: "to_lower ''es'' = ''es''" "to_lower ''s'' = ''s''" "to_lower ''ies'' = ''ies''" "\<not> is_space (CHR ''s'')"
    by code_simp+
  have y: "is_word (drop_last 1 w @ ''ies'')" if cy: "consonant_y_end w"
  proof -
    obtain c r where "rev w = CHR ''y'' # c # r"
      using cy by (cases "rev w"; cases "tl (rev w)") (auto simp: consonant_y_end_def)
    then have "w = rev (CHR ''y'' # c # r)" by (metis rev_rev_ident)
    then have "w = rev r @ [c, CHR ''y'']" by simp
    then obtain v where v: "w = v @ [c, CHR ''y'']" by blast
    have "is_word ((v @ [c]) @ ''ies'')"
      using w v suffixes by (cases v) (auto simp: is_word_iff to_lower_def)
    then show ?thesis by (simp add: v drop_last_def)
  qed
  show ?thesis using True w suffixes y by (simp add: pluralize_word is_word_append)
next
  case False
  assume w: "is_word w"
  show ?thesis
  proof (cases "w = []")
    case True
    then show ?thesis by (simp add: pluralize_def js_trim_def trim_start_def to_lower_def is_word_def)
  next
    case nonempty: False
    then show ?thesis using False w known_map_iff known_kinds_map_iff
      by (metis known_entry(4) not_None_eq pluralize_known pluralize_plural)
  qed
qed

lemma known_s_ends:
  "list_all (\<lambda>(kind, plural). kind = plural \<or> \<not> ends_with kind ''s'' \<or> ends_with kind ''ss'' \<or> ends_with kind ''us'')
     KNOWN_RESOURCE_NAMES"
  by code_simp

text \<open>A word spelled like a plural is left alone.\<close>

lemma pluralize_stable:
  assumes "is_word p" "ends_with p ''s''" "\<not> ends_with p ''ss''" "\<not> ends_with p ''us''"
  shows "pluralize p = p"
proof (cases "jm_get KNOWN_RESOURCE_NAMES p")
  case None
  have "p \<noteq> []" using assms(2) by (auto simp: ends_with_def)
  then show ?thesis using None assms pluralize_word by (cases "jm_get KNOWN_KINDS p") (simp_all add: pluralize_def word_norm)
next
  case (Some q)
  then have q: "(p, q) \<in> set KNOWN_RESOURCE_NAMES" by (simp add: known_map_iff)
  then have "p = q" using known_s_ends assms(2-4) by (auto simp: list_all_iff dest: bspec)
  with q show ?thesis by (simp add: pluralize_known)
qed

lemma pluralize_ending:
  assumes "is_word w" "w \<noteq> []" "jm_get KNOWN_RESOURCE_NAMES w = None" "jm_get KNOWN_KINDS w = None"
  shows "ends_with (pluralize w) ''s''" "\<not> ends_with (pluralize w) ''ss''"
  using assms by (auto simp: pluralize_word ends_with_def)

text \<open>Pluralizing is idempotent on every name whose plural does not end in
  \<open>us\<close>: a resource name, whether from the table or from the rules, passes through
  unchanged.\<close>

lemma pluralize_idempotent:
  assumes "\<not> ends_with (pluralize k) ''us''"
  shows "pluralize (pluralize k) = pluralize k"
proof -
  let ?w = "to_lower (js_trim k)"
  have w: "is_word ?w" and pk: "pluralize k = pluralize ?w" using is_word_norm pluralize_norm by blast+
  consider "?w = []" | p where "(?w, p) \<in> set KNOWN_RESOURCE_NAMES" | q where "(q, ?w) \<in> set KNOWN_RESOURCE_NAMES"
    | "?w \<noteq> []" "jm_get KNOWN_RESOURCE_NAMES ?w = None" "jm_get KNOWN_KINDS ?w = None"
    using known_map_iff known_kinds_map_iff by (metis not_None_eq)
  then show ?thesis
  proof cases
    case 1
    then have "pluralize k = []" by (simp add: pluralize_def)
    then show ?thesis by (simp add: pluralize_def js_trim_def trim_start_def to_lower_def)
  next
    case 2
    then show ?thesis by (metis pk pluralize_known pluralize_plural)
  next
    case 3
    then show ?thesis by (metis pk pluralize_plural)
  next
    case 4
    then show ?thesis
      using pluralize_stable [OF pluralize_is_word [OF w]] pluralize_ending [OF w 4] assms by (metis pk)
  qed
qed

lemma pluralize_idempotent_witness: "pluralize (pluralize ''Gateway'') = pluralize ''Gateway''"
proof (rule pluralize_idempotent)
  show "\<not> ends_with (pluralize ''Gateway'') ''us''" by code_simp
qed

text \<open>The irregular words: a silent e is taken for part of the plural ending.\<close>

definition silent_e_end :: "string \<Rightarrow> bool" where
  "silent_e_end w = (\<exists>e \<in> set [''ie'', ''sse'', ''use'', ''xe'', ''ze'', ''che'', ''she'']. ends_with w e)"

lemma singularize_word:
  assumes "is_word w" "w \<noteq> []" "jm_get KNOWN_RESOURCE_NAMES w = None" "jm_get KNOWN_KINDS w = None"
  shows "singularize w =
     (if ends_with w ''ies'' then drop_last 3 w @ ''y''
      else if drops_es w then drop_last 2 w
      else if ends_with w ''s'' \<and> \<not> ends_with w ''ss'' then drop_last 1 w
      else w)"
  using assms by (simp add: singularize_def word_norm)

lemma starts_with_Cons: "starts_with s (p # ps) \<longleftrightarrow> s \<noteq> [] \<and> hd s = p \<and> starts_with (tl s) ps"
  by (cases s) auto

lemma drop_last_append [simp]: "length t = n \<Longrightarrow> drop_last n (s @ t) = s"
  by (simp add: drop_last_def)

text \<open>For a kind outside the built-in table (and whose plural is outside it
  too), the rules undo each other: the singular of its plural is the kind in lower case,
  unless the kind is already spelled as a plural or ends in a silent e after a sibilant.\<close>

lemma singularize_pluralize:
  assumes "w = to_lower (js_trim k)" "w \<noteq> []"
    and "\<not> jm_has KNOWN_RESOURCE_NAMES w" "\<not> jm_has KNOWN_KINDS w"
    and "\<not> jm_has KNOWN_RESOURCE_NAMES (pluralize k)" "\<not> jm_has KNOWN_KINDS (pluralize k)"
    and "ends_with w ''s'' \<longrightarrow> ends_with w ''ss'' \<or> ends_with w ''us''" "\<not> silent_e_end w"
  shows "singularize (pluralize k) = w"
proof -
  have w: "is_word w" and pk: "pluralize k = pluralize w"
    using assms(1) is_word_norm pluralize_norm by blast+
  have none: "jm_get KNOWN_RESOURCE_NAMES w = None" "jm_get KNOWN_KINDS w = None"
    "jm_get KNOWN_RESOURCE_NAMES (pluralize w) = None" "jm_get KNOWN_KINDS (pluralize w) = None"
    using assms(3-6) by (auto simp: jm_has_get pk)
  have p: "is_word (pluralize w)" "pluralize w \<noteq> []"
    using pluralize_is_word [OF w] pluralize_ending(1) [OF w assms(2) none(1,2)] by (auto simp: ends_with_def)
  have y: "\<exists>v. w = v @ ''y''" if cy: "consonant_y_end w"
    using cy by (cases "rev w"; cases "tl (rev w)") (auto simp: consonant_y_end_def rev_eq_Cons_iff)
  have s: "singularize (pluralize w) =
     (let q = pluralize w in if ends_with q ''ies'' then drop_last 3 q @ ''y''
      else if drops_es q then drop_last 2 q
      else if ends_with q ''s'' \<and> \<not> ends_with q ''ss'' then drop_last 1 q
      else q)"
    using p none by (simp add: singularize_word Let_def)
  consider "ends_with w ''ss'' \<or> ends_with w ''us''" | "\<not> ends_with w ''s''" "sibilant_end w"
    | v where "w = v @ ''y''" "consonant_y_end w" | "\<not> ends_with w ''s''" "\<not> sibilant_end w" "\<not> consonant_y_end w"
    using assms(7) y by blast
  then show ?thesis
  proof cases
    case 1
    then show ?thesis using w assms(2) none
      unfolding pk s by (auto simp: Let_def starts_with_Cons pluralize_word drops_es_def ends_with_def)
  next
    case 2
    then show ?thesis using w assms(2) none
      unfolding pk s by (auto simp: Let_def starts_with_Cons pluralize_word drops_es_def ends_with_def sibilant_end_def)
  next
    case 3
    then show ?thesis using w assms(2) none
      unfolding pk s by (auto simp: Let_def starts_with_Cons pluralize_word drops_es_def ends_with_def sibilant_end_def)
  next
    case 4
    then have q: "pluralize w = w @ ''s''"
      using w assms(2) none by (auto simp: pluralize_word ends_with_def starts_with_Cons)
    have "\<not> ends_with (w @ ''s'') ''ies''" "\<not> drops_es (w @ ''s'')"
      using assms(8) by (simp_all add: silent_e_end_def drops_es_def ends_with_def)
    moreover have "ends_with (w @ ''s'') ''s''" "\<not> ends_with (w @ ''s'') ''ss''"
      using 4(1) by (simp_all add: ends_with_def)
    ultimately show ?thesis unfolding pk s by (simp add: q Let_def)
  qed
qed

lemma singularize_pluralize_witness: "singularize (pluralize ''Kafka'') = ''kafka''"
proof (rule singularize_pluralize)
  show "''kafka'' = to_lower (js_trim ''Kafka'')" by code_simp
  show "\<not> jm_has KNOWN_RESOURCE_NAMES ''kafka''" by code_simp
  show "\<not> jm_has KNOWN_KINDS ''kafka''" by code_simp
  show "\<not> jm_has KNOWN_RESOURCE_NAMES (pluralize ''Kafka'')" by code_simp
  show "\<not> jm_has KNOWN_KINDS (pluralize ''Kafka'')" by code_simp
  show "ends_with ''kafka'' ''s'' \<longrightarrow> ends_with ''kafka'' ''ss'' \<or> ends_with ''kafka'' ''us''" by code_simp
  show "\<not> silent_e_end ''kafka''" by code_simp
qed simp

text \<open>The code's two tables and the spelling rules agree: for every kind the
  table lists, both spellings are known, each gives the other, and each is a fixed point
  of the function that produces it.\<close>

lemma known_names_agree:
  "list_all (\<lambda>(kind, plural). pluralize kind = plural \<and> pluralize plural = plural
      \<and> singularize plural = kind \<and> singularize kind = kind) KNOWN_RESOURCE_NAMES"
  unfolding list_all_iff by (auto simp: pluralize_known pluralize_plural singularize_plural singularize_known)

section \<open>The registry\<close>

lemma lower_char_bits [code]:
  "lower_char (Char b0 b1 b2 b3 b4 b5 b6 b7) =
     (if b6 \<and> \<not> b5 \<and> (\<not> b7 \<and> (b0 \<or> b1 \<or> b2 \<or> b3 \<or> b4) \<and> \<not> (b4 \<and> b3 \<and> (b2 \<or> (b1 \<and> b0)))
          \<or> b7 \<and> \<not> (b0 \<and> b1 \<and> b2 \<and> b4))
      then Char b0 b1 b2 b3 b4 True b6 b7 else Char b0 b1 b2 b3 b4 b5 b6 b7)"
  by (rule code_unit_inj; simp only: lower_char_unit;
      cases b0; cases b1; cases b2; cases b3; cases b4; cases b5; cases b6; cases b7)
     (simp_all add: code_unit_def of_char_def Let_def)

lemma is_space_bits [code]:
  "is_space (Char b0 b1 b2 b3 b4 b5 b6 b7) =
     (\<not> b6 \<and> \<not> b4 \<and> (\<not> b7 \<and> \<not> b5 \<and> b3 \<and> (\<not> b2 \<and> (b0 \<or> b1) \<or> b2 \<and> \<not> b1)
                   \<or> b5 \<and> \<not> b3 \<and> \<not> b2 \<and> \<not> b1 \<and> \<not> b0))"
  by (cases b0; cases b1; cases b2; cases b3; cases b4; cases b5; cases b6; cases b7)
     (simp_all add: is_space_def code_unit_def of_char_def Let_def)

lemma by_kind_keys: "distinct (map (\<lambda>d. to_lower (rd_kind d)) DEFINITIONS)"
  by code_simp

lemma by_plural_keys: "distinct (map rd_plural DEFINITIONS)"
  by code_simp

lemma registry_kinds:
  "list_all (\<lambda>d. rd_kind d \<noteq> [] \<and> rd_plural d \<noteq> [] \<and> js_trim (rd_kind d) = rd_kind d \<and> list_all is_letter (rd_plural d)) DEFINITIONS"
  by code_simp

lemma registry_known:
  "list_all (\<lambda>d. jm_get KNOWN_RESOURCE_NAMES (to_lower (rd_kind d)) = Some (rd_plural d)) DEFINITIONS"
  by code_simp

lemma by_kind_eq: "BY_KIND = map (\<lambda>d. (to_lower (rd_kind d), d)) DEFINITIONS"
  using by_kind_keys by (simp add: BY_KIND_def js_map_of_distinct jm_keys_def comp_def)

lemma by_plural_eq: "BY_PLURAL = map (\<lambda>d. (rd_plural d, d)) DEFINITIONS"
  using by_plural_keys by (simp add: BY_PLURAL_def js_map_of_distinct jm_keys_def comp_def)

lemma map_of_keyed:
  "distinct (map f ds) \<Longrightarrow> d \<in> set ds \<Longrightarrow> map_of (map (\<lambda>d. (f d, d)) ds) (f d) = Some d"
  by (rule map_of_is_SomeI) (auto simp: comp_def)

lemma by_kind_get: "d \<in> set DEFINITIONS \<Longrightarrow> jm_get BY_KIND (to_lower (rd_kind d)) = Some d"
  unfolding jm_get_def by_kind_eq by (rule map_of_keyed [OF by_kind_keys])

lemma by_plural_get: "d \<in> set DEFINITIONS \<Longrightarrow> jm_get BY_PLURAL (rd_plural d) = Some d"
  unfolding jm_get_def by_plural_eq by (rule map_of_keyed [OF by_plural_keys])

lemma by_kind_some: "jm_get BY_KIND w = Some d \<Longrightarrow> d \<in> set DEFINITIONS \<and> w = to_lower (rd_kind d)"
  by (auto simp: jm_get_def by_kind_eq dest!: map_of_SomeD)

lemma registry_entry:
  assumes "d \<in> set DEFINITIONS"
  shows "is_word (rd_plural d)" "rd_plural d \<noteq> []" "to_lower (rd_kind d) \<noteq> []" "js_trim (rd_kind d) = rd_kind d"
    "(to_lower (rd_kind d), rd_plural d) \<in> set KNOWN_RESOURCE_NAMES"
  using assms registry_kinds registry_known
  by (auto simp: list_all_iff is_letter_word to_lower_def known_map_iff [symmetric])

text \<open>The registry is found under both spellings: every built-in resource is
  the definition of its kind, of its kind in lower case and of its plural name, its plural
  is the one the spelling rules give, and its metadata is its own.\<close>

lemma registry_both_spellings:
  "list_all (\<lambda>d. getResourceDefinition (rd_kind d) = Some d \<and> getResourceDefinition (to_lower (rd_kind d)) = Some d
      \<and> getResourceDefinition (rd_plural d) = Some d \<and> pluralize (rd_kind d) = rd_plural d
      \<and> getResourceMetadata (rd_plural d) = d) DEFINITIONS"
proof -
  have "getResourceDefinition (rd_kind d) = Some d \<and> getResourceDefinition (to_lower (rd_kind d)) = Some d
      \<and> getResourceDefinition (rd_plural d) = Some d \<and> pluralize (rd_kind d) = rd_plural d"
    if d: "d \<in> set DEFINITIONS" for d
  proof -
    note e = registry_entry [OF d]
    have k: "to_lower (js_trim (rd_kind d)) = to_lower (rd_kind d)" by (simp add: e)
    have p: "pluralize (rd_kind d) = rd_plural d"
      using pluralize_norm [of "rd_kind d"] pluralize_known [OF e(5)] k by simp
    have l: "to_lower (js_trim (to_lower (rd_kind d))) = to_lower (rd_kind d)"
      using is_word_norm [of "rd_kind d"] k by (simp add: is_word_def)
    have "getResourceDefinition (rd_plural d) = Some d"
    proof (cases "jm_get BY_KIND (rd_plural d)")
      case None
      then show ?thesis
        unfolding getResourceDefinition_def word_norm [OF e(1)] Let_def using e(2) by (simp add: by_plural_get [OF d])
    next
      case (Some d')
      then have d': "d' \<in> set DEFINITIONS" "rd_plural d = to_lower (rd_kind d')" using by_kind_some by blast+
      then have "to_lower (rd_kind d) = to_lower (rd_kind d')"
        using known_both e(5) registry_entry(5) [OF d'(1)] by metis
      then have "d' = d" using by_kind_get [OF d] by_kind_get [OF d'(1)] by (metis option.inject)
      with Some show ?thesis
        unfolding getResourceDefinition_def word_norm [OF e(1)] Let_def using e(2) by simp
    qed
    moreover have "getResourceDefinition x = Some d" if "to_lower (js_trim x) = to_lower (rd_kind d)" for x
      unfolding getResourceDefinition_def that Let_def using e(3) by (simp add: by_kind_get [OF d])
    ultimately show ?thesis using p k l by blast
  qed
  then show ?thesis by (simp add: list_all_iff getResourceMetadata_def)
qed

end
