(* ===== verification/LogEngine.thy ===== *)
theory LogEngine
  imports JsMap
begin

text \<open>
  The log viewer's engine, \<open>frontend/src/components/logs/logEngine.ts\<close>: terminal escapes
  become styled segments, a line's level is read from its first 300 characters, the buffer
  keeps at most 50,000 lines with a count per level, and a matcher finds the search text.

  Outside the model, as arguments: \<open>Date.parse\<close> (\<open>None\<close> for \<open>NaN\<close>), the clock fields of a
  time in the local zone, and the regular expression the user types (\<open>RegExp\<close>), given by what
  \<open>exec\<close> finds from an index on. The fixed regular expressions of the file are written out.
\<close>

section \<open>Terminal escapes\<close>

datatype log_level = ErrorLevel | WarnLevel | InfoLevel | DebugLevel | NoLevel

record seg =
  sg_text :: string
  sg_cls :: string

record sgr_state =
  sr_fg :: nat
  sr_bold :: bool

definition ESC :: char where "ESC = char_of (27 :: nat)"
definition CR :: char where "CR = char_of (13 :: nat)"

text \<open>\<open>CTRL_RE\<close>: every control character but the tab, the line feed and the carriage return.\<close>

definition is_ctrl :: "char \<Rightarrow> bool" where
  "is_ctrl c = (let n = code_unit c in n \<le> 8 \<or> n = 11 \<or> n = 12 \<or> (14 \<le> n \<and> n \<le> 31) \<or> n = 127)"

definition strip_ctrl :: "string \<Rightarrow> string" where
  "strip_ctrl s = filter (\<lambda>c. \<not> is_ctrl c) s"

definition sgr_code :: "nat \<Rightarrow> sgr_state \<Rightarrow> sgr_state" where
  "sgr_code c st =
     (if c = 0 then \<lparr>sr_fg = 0, sr_bold = False\<rparr>
      else if c = 1 then st\<lparr>sr_bold := True\<rparr>
      else if c = 22 then st\<lparr>sr_bold := False\<rparr>
      else if (30 \<le> c \<and> c \<le> 37) \<or> (90 \<le> c \<and> c \<le> 97) then st\<lparr>sr_fg := c\<rparr>
      else if c = 39 then st\<lparr>sr_fg := 0\<rparr>
      else st)"

text \<open>A 256-color or RGB color (38 or 48) is skipped with its arguments.\<close>

definition color_args :: "nat list \<Rightarrow> nat list" where
  "color_args cs =
     (case cs of [] \<Rightarrow> [] | n # _ \<Rightarrow> if n = 5 then drop 2 cs else if n = 2 then drop 4 cs else cs)"

lemma length_color_args [termination_simp]: "length (color_args cs) < Suc (length cs)"
  by (auto simp: color_args_def split: list.split)

fun sgr_codes :: "nat list \<Rightarrow> sgr_state \<Rightarrow> sgr_state" where
  "sgr_codes [] st = st"
| "sgr_codes (c # cs) st =
     (if c = 38 \<or> c = 48 then sgr_codes (color_args cs) st
      else sgr_codes cs (sgr_code c st))"

definition applySgr :: "sgr_state \<Rightarrow> string \<Rightarrow> sgr_state" where
  "applySgr st params =
     sgr_codes (if params = [] then [0] else map (\<lambda>c. nat (num_or (parse_int c) 0)) (split_char CHR '';'' params)) st"

definition clsOf :: "sgr_state \<Rightarrow> string" where
  "clsOf st =
     (let cls = (if sr_fg st \<noteq> 0 then ''lv-a'' @ show_nat (sr_fg st) else [])
      in if sr_bold st then (if cls \<noteq> [] then cls @ '' lv-ab'' else ''lv-ab'') else cls)"

text \<open>
  \<open>ESC_RE\<close> at the start of a string: the parameters of a color sequence (its group), or
  \<open>None\<close> for any other sequence, with what follows it.
\<close>

definition is_letter :: "char \<Rightarrow> bool" where
  "is_letter c = (let n = code_unit c in (65 \<le> n \<and> n \<le> 90) \<or> (97 \<le> n \<and> n \<le> 122))"

definition esc_at :: "string \<Rightarrow> (string option \<times> string) option" where
  "esc_at s =
     (case s of
        c # b # r \<Rightarrow>
          if c = ESC \<and> b = CHR ''['' then
            (let sgr = (\<lambda>c. is_digit c \<or> c = CHR '';''); any = (\<lambda>c. is_digit c \<or> c = CHR '';'' \<or> c = CHR ''?'') in
             case dropWhile sgr r of
               m # r' \<Rightarrow>
                 if m = CHR ''m'' then Some (Some (takeWhile sgr r), r')
                 else (case dropWhile any r of l # r'' \<Rightarrow> if is_letter l then Some (None, r'') else None | [] \<Rightarrow> None)
             | [] \<Rightarrow> None)
          else None
      | _ \<Rightarrow> None)"

record parse_state =
  ps_segs :: "seg list"
  ps_plain :: string
  ps_styled :: bool
  ps_sgr :: sgr_state

definition push_text :: "string \<Rightarrow> parse_state \<Rightarrow> parse_state" where
  "push_text t p =
     (if t = [] then p
      else let cls = clsOf (ps_sgr p) in
           p\<lparr>ps_styled := (ps_styled p \<or> cls \<noteq> []),
             ps_segs := (if ps_segs p \<noteq> [] \<and> sg_cls (last (ps_segs p)) = cls
                         then butlast (ps_segs p) @ [(last (ps_segs p))\<lparr>sg_text := sg_text (last (ps_segs p)) @ t\<rparr>]
                         else ps_segs p @ [\<lparr>sg_text = t, sg_cls = cls\<rparr>]),
             ps_plain := ps_plain p @ t\<rparr>)"

lemma esc_at_shorter: "esc_at s = Some (params, r) \<Longrightarrow> length r < length s"
proof -
  assume a: "esc_at s = Some (params, r)"
  then obtain c b t where s: "s = c # b # t" by (auto simp: esc_at_def split: list.splits)
  have d: "length (dropWhile P t) \<le> length t" for P by (rule length_dropWhile_le)
  from a d [of "\<lambda>c. is_digit c \<or> c = CHR '';''"] d [of "\<lambda>c. is_digit c \<or> c = CHR '';'' \<or> c = CHR ''?''"] show ?thesis
    by (auto simp: esc_at_def s Let_def split: if_splits list.splits)
qed

text \<open>The loop over the matches; \<open>chunk\<close> is the text since the last one.\<close>

function esc_loop :: "string \<Rightarrow> string \<Rightarrow> parse_state \<Rightarrow> parse_state" where
  "esc_loop chunk s p =
     (case esc_at s of
        Some (params, r) \<Rightarrow>
          (let p1 = push_text (strip_ctrl chunk) p in
           esc_loop [] r (case params of None \<Rightarrow> p1 | Some ps \<Rightarrow> p1\<lparr>ps_sgr := applySgr (ps_sgr p1) ps\<rparr>))
      | None \<Rightarrow> (case s of [] \<Rightarrow> push_text (strip_ctrl chunk) p | c # r \<Rightarrow> esc_loop (chunk @ [c]) r p))"
  by pat_completeness auto
termination
  by (relation "measure (\<lambda>(chunk, s, p). length s)") (auto dest: esc_at_shorter)

declare esc_loop.simps [simp del]

definition last_frame :: "string \<Rightarrow> string" where
  "last_frame raw =
     (if CR \<in> set raw then (let parts = filter (\<lambda>p. p \<noteq> []) (split_char CR raw) in if parts = [] then [] else last parts)
      else raw)"

definition parseRaw :: "string \<Rightarrow> string \<times> seg list option" where
  "parseRaw raw =
     (let s = last_frame raw in
      if ESC \<notin> set s then (strip_ctrl s, None)
      else let p = esc_loop [] s \<lparr>ps_segs = [], ps_plain = [], ps_styled = False, ps_sgr = \<lparr>sr_fg = 0, sr_bold = False\<rparr>\<rparr>
           in (ps_plain p, if ps_styled p then Some (ps_segs p) else None))"

section \<open>Levels\<close>

text \<open>
  \<open>KLOG_RE\<close> is a prefix test. \<open>LEVEL_RE\<close> asks for a keyword between word boundaries, and every
  keyword consists of word characters: it finds the first maximal word that is one.
\<close>

definition is_word :: "char \<Rightarrow> bool" where
  "is_word c = (is_letter c \<or> is_digit c \<or> c = CHR ''_'')"

function words_of :: "string \<Rightarrow> string list" where
  "words_of s =
     (case dropWhile (\<lambda>c. \<not> is_word c) s of
        [] \<Rightarrow> []
      | r \<Rightarrow> takeWhile is_word r # words_of (dropWhile is_word r))"
  by pat_completeness auto
termination
proof (relation "measure length", goal_cases)
  case (2 s x21 x22)
  then have x: "is_word x21" using hd_dropWhile [of "\<lambda>c. \<not> is_word c" s] by auto
  have "length (dropWhile is_word x22) \<le> length x22" "length (x21 # x22) \<le> length s"
    using length_dropWhile_le [of is_word x22] length_dropWhile_le [of "\<lambda>c. \<not> is_word c" s] 2 by simp_all
  with x show ?case by simp
qed simp

declare words_of.simps [simp del]

definition keyword_level :: "string \<Rightarrow> log_level option" where
  "keyword_level w =
     (if w \<in> set [''fatal'', ''panic'', ''crit'', ''critical'', ''error'', ''err''] then Some ErrorLevel
      else if w \<in> set [''warn'', ''warning''] then Some WarnLevel
      else if w = ''info'' then Some InfoLevel
      else if w \<in> set [''debug'', ''trace'', ''dbg'', ''trc''] then Some DebugLevel
      else None)"

definition klog_level :: "string \<Rightarrow> log_level option" where
  "klog_level s =
     (case s of
        k # a # b # c # d # sp # _ \<Rightarrow>
          if k \<in> set ''EWIF'' \<and> is_digit a \<and> is_digit b \<and> is_digit c \<and> is_digit d \<and> is_space sp
          then Some (if k = CHR ''E'' \<or> k = CHR ''F'' then ErrorLevel else if k = CHR ''W'' then WarnLevel else InfoLevel)
          else None
      | _ \<Rightarrow> None)"

definition detectLevel :: "string \<Rightarrow> log_level" where
  "detectLevel text =
     (let head = take 300 text in
      case klog_level head of
        Some l \<Rightarrow> l
      | None \<Rightarrow>
          (case find (\<lambda>w. keyword_level w \<noteq> None) (map to_lower (words_of head)) of
             None \<Rightarrow> NoLevel
           | Some w \<Rightarrow> nullish (keyword_level w) NoLevel))"

section \<open>The buffer\<close>

record raw_line =
  rl_data :: "string option"
  rl_podName :: "string option"
  rl_container :: "string option"
  rl_timestamp :: "string option"

record log_line =
  ll_id :: nat
  ll_text :: string
  ll_lower :: string
  ll_segs :: "seg list option"
  ll_pod :: string
  ll_container :: string
  ll_ts :: int
  ll_tsStr :: string
  ll_level :: log_level
  ll_marker :: bool

record log_env =
  le_parse :: "string \<Rightarrow> int option"
  le_clock :: "int \<Rightarrow> nat \<times> nat \<times> nat \<times> nat"

definition pad :: "nat \<Rightarrow> nat \<Rightarrow> string" where
  "pad n w = replicate (w - length (show_nat n)) CHR ''0'' @ show_nat n"

definition fmtTs :: "log_env \<Rightarrow> int \<Rightarrow> string" where
  "fmtTs e ms =
     (if ms = 0 then []
      else let (h, m, s, ms') = le_clock e ms in pad h 2 @ '':'' @ pad m 2 @ '':'' @ pad s 2 @ ''.'' @ pad ms' 3)"

definition MAX_LINES :: nat where "MAX_LINES = 50000"
definition TRIM_TO :: nat where "TRIM_TO = 45000"

record log_buffer =
  lb_lines :: "log_line list"
  lb_counts :: "log_level \<Rightarrow> int"
  lb_version :: nat
  lb_nextId :: nat
  lb_listeners :: "nat list"
  lb_raf :: bool

definition emptyCounts :: "log_level \<Rightarrow> int" where
  "emptyCounts = (\<lambda>_. 0)"

definition new_buffer :: log_buffer where
  "new_buffer = \<lparr>lb_lines = [], lb_counts = emptyCounts, lb_version = 0, lb_nextId = 1, lb_listeners = [], lb_raf = False\<rparr>"

definition bump :: "log_buffer \<Rightarrow> log_buffer" where
  "bump b = b\<lparr>lb_version := Suc (lb_version b), lb_raf := True\<rparr>"

text \<open>The animation frame: the listeners it calls, in order.\<close>

definition buffer_frame :: "log_buffer \<Rightarrow> nat list \<times> log_buffer" where
  "buffer_frame b = (lb_listeners b, b\<lparr>lb_raf := False\<rparr>)"

definition subscribe_buffer :: "nat \<Rightarrow> log_buffer \<Rightarrow> log_buffer" where
  "subscribe_buffer fn b = b\<lparr>lb_listeners := js_add (lb_listeners b) fn\<rparr>"

definition unsubscribe_buffer :: "nat \<Rightarrow> log_buffer \<Rightarrow> log_buffer" where
  "unsubscribe_buffer fn b = b\<lparr>lb_listeners := filter (\<lambda>f. f \<noteq> fn) (lb_listeners b)\<rparr>"

definition log_line_of :: "log_env \<Rightarrow> nat \<Rightarrow> raw_line \<Rightarrow> log_line" where
  "log_line_of e lineId l =
     (let (text, segs) = parseRaw (nullish (rl_data l) []);
          ts = (if truthy_str (rl_timestamp l) then nullish (le_parse e (the (rl_timestamp l))) 0 else 0)
      in \<lparr>ll_id = lineId, ll_text = text, ll_lower = to_lower text, ll_segs = segs, ll_pod = str_or (rl_podName l) [],
          ll_container = str_or (rl_container l) [], ll_ts = ts, ll_tsStr = fmtTs e ts, ll_level = detectLevel text, ll_marker = False\<rparr>)"

definition push_line :: "log_line \<Rightarrow> log_buffer \<Rightarrow> log_buffer" where
  "push_line line b =
     b\<lparr>lb_lines := lb_lines b @ [line], lb_nextId := Suc (lb_nextId b),
       lb_counts := (lb_counts b)(ll_level line := lb_counts b (ll_level line) + 1)\<rparr>"

definition trim_buffer :: "log_buffer \<Rightarrow> log_buffer" where
  "trim_buffer b =
     (if length (lb_lines b) > MAX_LINES
      then let n = length (lb_lines b) - TRIM_TO in
           b\<lparr>lb_lines := drop n (lb_lines b),
             lb_counts := foldl (\<lambda>c r. c(ll_level r := c (ll_level r) - 1)) (lb_counts b) (take n (lb_lines b))\<rparr>
      else b)"

definition append_lines :: "log_env \<Rightarrow> raw_line list \<Rightarrow> log_buffer \<Rightarrow> log_buffer" where
  "append_lines e batch b = bump (trim_buffer (foldl (\<lambda>b l. push_line (log_line_of e (lb_nextId b) l) b) b batch))"

definition appendMarker :: "string \<Rightarrow> log_buffer \<Rightarrow> log_buffer" where
  "appendMarker text b =
     bump (push_line \<lparr>ll_id = lb_nextId b, ll_text = text, ll_lower = to_lower text, ll_segs = None, ll_pod = [],
       ll_container = [], ll_ts = 0, ll_tsStr = [], ll_level = NoLevel, ll_marker = True\<rparr> b)"

definition clear_buffer :: "log_buffer \<Rightarrow> log_buffer" where
  "clear_buffer b = bump (b\<lparr>lb_lines := [], lb_counts := emptyCounts\<rparr>)"

section \<open>Searching\<close>

text \<open>
  A matcher for plain text holds the needle; one for a regular expression what its \<open>exec\<close>
  finds: the index and the length of the first match at or after an index.
\<close>

datatype matcher =
    Needle string bool
  | Regex "string \<Rightarrow> nat \<Rightarrow> (nat \<times> nat) option"

datatype built = NoMatcher | InvalidMatcher | Matcher matcher

definition buildMatcher ::
  "(string \<Rightarrow> bool \<Rightarrow> (string \<Rightarrow> nat \<Rightarrow> (nat \<times> nat) option) option) \<Rightarrow> string \<Rightarrow> bool \<Rightarrow> bool \<Rightarrow> built" where
  "buildMatcher regexp query caseSensitive useRegex =
     (if query = [] then NoMatcher
      else if useRegex then (case regexp query caseSensitive of None \<Rightarrow> InvalidMatcher | Some ex \<Rightarrow> Matcher (Regex ex))
      else Matcher (Needle (if caseSensitive then query else to_lower query) caseSensitive))"

definition matcher_test :: "matcher \<Rightarrow> log_line \<Rightarrow> bool" where
  "matcher_test m line =
     (case m of
        Needle needle cs \<Rightarrow> str_includes (if cs then ll_text line else ll_lower line) needle
      | Regex ex \<Rightarrow> ex (ll_text line) 0 \<noteq> None)"

definition find_at :: "string \<Rightarrow> string \<Rightarrow> nat \<Rightarrow> nat option" where
  "find_at hay needle i = index_of_from i (drop i hay) needle"

text \<open>At most 201 ranges are collected.\<close>

function needle_loop :: "string \<Rightarrow> string \<Rightarrow> nat option \<Rightarrow> (nat \<times> nat) list \<Rightarrow> (nat \<times> nat) list" where
  "needle_loop hay needle idx out =
     (case idx of
        None \<Rightarrow> out
      | Some i \<Rightarrow>
          (let out1 = out @ [(i, i + length needle)] in
           if length out1 > 200 then out1 else needle_loop hay needle (find_at hay needle (i + length needle)) out1))"
  by pat_completeness auto
termination
  by (relation "measure (\<lambda>(hay, needle, idx, out). 201 - length out)") auto

declare needle_loop.simps [simp del]

text \<open>
  The loop over \<open>exec\<close>: an empty match only moves on. Each turn moves the index forward, so one
  more turn than the text has characters, and one for the end, are enough.
\<close>

fun regex_loop :: "nat \<Rightarrow> (nat \<Rightarrow> (nat \<times> nat) option) \<Rightarrow> nat \<Rightarrow> (nat \<times> nat) list \<Rightarrow> (nat \<times> nat) list" where
  "regex_loop 0 ex i out = out"
| "regex_loop (Suc n) ex i out =
     (case ex i of
        None \<Rightarrow> out
      | Some (idx, len) \<Rightarrow>
          if len = 0 then regex_loop n ex (Suc idx) out
          else (let out1 = out @ [(idx, idx + len)] in if length out1 > 200 then out1 else regex_loop n ex (idx + len) out1))"

definition matcher_ranges :: "matcher \<Rightarrow> string \<Rightarrow> string \<Rightarrow> (nat \<times> nat) list" where
  "matcher_ranges m text low =
     (case m of
        Needle needle cs \<Rightarrow> (let hay = (if cs then text else low) in needle_loop hay needle (index_of hay needle) [])
      | Regex ex \<Rightarrow> regex_loop (length text + 2) (ex text) 0 [])"

end
