(* ===== verification/LogFeed.thy ===== *)
theory LogFeed
  imports LogEngine
begin

text \<open>
  One log feed over its restarts, \<open>frontend/src/components/logs/logFeedState.ts\<close>, and its
  subscription on the socket, \<open>logSubscription.ts\<close>. What the sink is told (status, error, end,
  pods and containers) is part of the feed's state here; the pods and containers are only
  handed on, as values of a parameter type.
\<close>

section \<open>The feed\<close>

datatype feed_status = Connecting | LiveFeed | Ended | ErrorFeed

record feed_end =
  fe_reason :: string
  fe_message :: "string option"

record 'p feed =
  fd_buffer :: log_buffer
  fd_lastSeq :: int
  fd_started :: bool
  fd_replacing :: bool
  fd_status :: feed_status
  fd_error :: "string option"
  fd_end :: "feed_end option"
  fd_pods :: "'p list"
  fd_containers :: "'p list"

definition endedLabel :: "feed_end option \<Rightarrow> bool \<Rightarrow> string" where
  "endedLabel fe previous =
     (case fe of
        Some f \<Rightarrow>
          if fe_reason f = ''not_found''
          then ''Stream ended: '' @ str_or (map_option (\<lambda>m. hd (split_char CHR '' '' m)) (fe_message f)) ''pod'' @ '' no longer exists''
          else if previous then ''Previous instance'' else ''Stream ended''
      | None \<Rightarrow> if previous then ''Previous instance'' else ''Stream ended'')"

definition new_feed :: "log_buffer \<Rightarrow> 'p feed" where
  "new_feed b = \<lparr>fd_buffer = b, fd_lastSeq = 0, fd_started = False, fd_replacing = False, fd_status = Connecting,
     fd_error = None, fd_end = None, fd_pods = [], fd_containers = []\<rparr>"

definition replaceOld :: "'p feed \<Rightarrow> 'p feed" where
  "replaceOld f =
     (if fd_replacing f then f\<lparr>fd_replacing := False, fd_buffer := clear_buffer (fd_buffer f)\<rparr> else f)"

definition restart_feed :: "'p feed \<Rightarrow> 'p feed" where
  "restart_feed f =
     (let f1 = f\<lparr>fd_lastSeq := 0\<rparr>;
          f2 = (if fd_started f1 then f1\<lparr>fd_replacing := True\<rparr>
                else f1\<lparr>fd_started := True, fd_replacing := False, fd_buffer := clear_buffer (fd_buffer f1)\<rparr>)
      in f2\<lparr>fd_status := Connecting, fd_error := None, fd_end := None\<rparr>)"

definition disconnect_feed :: "'p feed \<Rightarrow> 'p feed" where
  "disconnect_feed f = f\<lparr>fd_status := Connecting\<rparr>"

text \<open>A message of the stream; a line of a batch that is a plain string is its \<open>data\<close>.\<close>

datatype 'p feed_message =
    Connected
  | PodsMessage "'p list option"
  | ContainersMessage "'p list option"
  | EndMessage "string option" "string option"
  | ErrorMessage "string option"
  | BatchMessage "int option" "(string + raw_line) list option"
  | OtherMessage

definition batch_line :: "string + raw_line \<Rightarrow> raw_line" where
  "batch_line l =
     (case l of Inl s \<Rightarrow> \<lparr>rl_data = Some s, rl_podName = None, rl_container = None, rl_timestamp = None\<rparr> | Inr r \<Rightarrow> r)"

definition handle_end :: "string option \<Rightarrow> string option \<Rightarrow> 'p feed \<Rightarrow> 'p feed" where
  "handle_end reason message f =
     (let f1 = (if reason = Some ''not_found''
                then
                  let g = f\<lparr>fd_replacing := False\<rparr>;
                      text = str_or message ''the resource no longer exists'';
                      g1 = (if lb_lines (fd_buffer g) \<noteq> []
                            then g\<lparr>fd_buffer := appendMarker (''Stream ended: '' @ text) (fd_buffer g)\<rparr> else g)
                  in g1\<lparr>fd_end := Some \<lparr>fe_reason = ''not_found'', fe_message = Some text\<rparr>\<rparr>
                else (replaceOld f)\<lparr>fd_end := (if truthy_str reason
                       then Some \<lparr>fe_reason = the reason, fe_message = message\<rparr> else None)\<rparr>)
      in f1\<lparr>fd_status := Ended\<rparr>)"

definition handle_batch :: "log_env \<Rightarrow> int option \<Rightarrow> (string + raw_line) list option \<Rightarrow> 'p feed \<Rightarrow> 'p feed" where
  "handle_batch e sequence lns f =
     (if (case sequence of Some n \<Rightarrow> n \<le> fd_lastSeq f | None \<Rightarrow> False) then f
      else
        let f1 = (case sequence of Some n \<Rightarrow> f\<lparr>fd_lastSeq := n\<rparr> | None \<Rightarrow> f);
            f2 = replaceOld f1;
            f3 = f2\<lparr>fd_buffer := append_lines e (map batch_line (nullish lns [])) (fd_buffer f2)\<rparr>
        in if fd_status f3 = Connecting then f3\<lparr>fd_status := LiveFeed\<rparr> else f3)"

definition handle_message :: "log_env \<Rightarrow> 'p feed_message \<Rightarrow> 'p feed \<Rightarrow> 'p feed" where
  "handle_message e d f =
     (case d of
        Connected \<Rightarrow> f\<lparr>fd_status := LiveFeed\<rparr>
      | PodsMessage ps \<Rightarrow> f\<lparr>fd_pods := nullish ps []\<rparr>
      | ContainersMessage cs \<Rightarrow> f\<lparr>fd_containers := nullish cs []\<rparr>
      | EndMessage reason message \<Rightarrow> handle_end reason message f
      | ErrorMessage err \<Rightarrow> (replaceOld f)\<lparr>fd_error := Some (str_or err ''log stream error''), fd_status := ErrorFeed\<rparr>
      | BatchMessage sequence lns \<Rightarrow> handle_batch e sequence lns f
      | OtherMessage \<Rightarrow> f)"

section \<open>The subscription\<close>

text \<open>
  The transport's handlers, one set per channel, the messages sent, and the two listeners on
  the connection's events. A handler is a number; \<open>sb_calls\<close> logs the callbacks.
\<close>

datatype sub_call = Restarted | Disconnected | SentStart | SentStop

record log_sub =
  sb_handlers :: "(string, nat list) jsmap"
  sb_restored :: bool
  sb_state :: bool
  sb_calls :: "sub_call list"

definition start_stream :: "log_sub \<Rightarrow> log_sub" where
  "start_stream s = s\<lparr>sb_calls := sb_calls s @ [Restarted, SentStart]\<rparr>"

definition subscribeLogStream :: "nat \<Rightarrow> log_sub \<Rightarrow> log_sub" where
  "subscribeLogStream handler s =
     (let s1 = (if jm_has (sb_handlers s) ''logs'' then s else s\<lparr>sb_handlers := jm_set (sb_handlers s) ''logs'' []\<rparr>);
          s2 = s1\<lparr>sb_handlers := jm_set (sb_handlers s1) ''logs'' (js_add (nullish (jm_get (sb_handlers s1) ''logs'') []) handler)\<rparr>
      in start_stream (s2\<lparr>sb_restored := True, sb_state := True\<rparr>))"

definition connection_state :: "string \<Rightarrow> string \<Rightarrow> log_sub \<Rightarrow> log_sub" where
  "connection_state ty state s =
     (if sb_state s \<and> ty = ''websocket'' \<and> state \<noteq> ''connected'' then s\<lparr>sb_calls := sb_calls s @ [Disconnected]\<rparr> else s)"

definition connection_restored :: "string option \<Rightarrow> log_sub \<Rightarrow> log_sub" where
  "connection_restored reason s = (if sb_restored s \<and> reason \<noteq> Some ''visibility'' then start_stream s else s)"

definition unsubscribeLogStream :: "nat \<Rightarrow> log_sub \<Rightarrow> log_sub" where
  "unsubscribeLogStream handler s =
     (let s1 = s\<lparr>sb_restored := False, sb_state := False, sb_calls := sb_calls s @ [SentStop]\<rparr> in
      case jm_get (sb_handlers s1) ''logs'' of
        None \<Rightarrow> s1
      | Some hs \<Rightarrow>
          (let hs1 = filter (\<lambda>h. h \<noteq> handler) hs;
               m = jm_set (sb_handlers s1) ''logs'' hs1
           in s1\<lparr>sb_handlers := (if hs1 = [] then jm_delete m ''logs'' else m)\<rparr>))"

end
