(* ===== verification/LogProps.thy ===== *)
theory LogProps
  imports LogFeed
begin

text \<open>
  What the log viewer shows: parsed text is clean and its segments spell it out, the counts of
  the buffer are exact and its size bounded, plain searches find real occurrences in order,
  and a feed keeps the lines on screen over a reconnect until the new stream answers.
\<close>

section \<open>Parsing\<close>

definition clean :: "string \<Rightarrow> bool" where
  "clean s = (\<forall>c \<in> set s. \<not> is_ctrl c \<and> c \<noteq> CR)"

definition segs_ok :: "parse_state \<Rightarrow> bool" where
  "segs_ok p = (clean (ps_plain p) \<and> concat (map sg_text (ps_segs p)) = ps_plain p
     \<and> (\<forall>g \<in> set (ps_segs p). sg_text g \<noteq> []) \<and> distinct_adj (map sg_cls (ps_segs p)))"

lemma push_text_ok:
  assumes "segs_ok p" "clean t" shows "segs_ok (push_text t p)"
proof (cases "ps_segs p" rule: rev_cases)
  case Nil
  with assms show ?thesis by (auto simp: push_text_def segs_ok_def clean_def Let_def)
next
  case (snoc gs g)
  then have "distinct_adj (map sg_cls gs @ [sg_cls g])" using assms(1) by (simp add: segs_ok_def)
  then show ?thesis
    using assms snoc by (auto simp: push_text_def segs_ok_def clean_def Let_def distinct_adj_append_iff)
qed

lemma segs_ok_sgr: "segs_ok (p\<lparr>ps_sgr := st\<rparr>) = segs_ok p"
  by (simp add: segs_ok_def)

lemma clean_strip: "CR \<notin> set s \<Longrightarrow> clean (strip_ctrl s)"
  by (auto simp: clean_def strip_ctrl_def)

lemma esc_at_set:
  assumes "esc_at s = Some (params, r)" shows "set r \<subseteq> set s"
proof -
  obtain c b t where s: "s = c # b # t" using assms by (auto simp: esc_at_def split: list.splits)
  have "set r \<subseteq> set t"
    using assms set_dropWhileD [of _ _ t]
    by (auto simp: esc_at_def s Let_def split: if_splits list.splits) (metis list.set_intros(2) set_dropWhileD)+
  then show ?thesis by (auto simp: s)
qed

lemma esc_loop_ok:
  "segs_ok p \<Longrightarrow> CR \<notin> set chunk \<Longrightarrow> CR \<notin> set s \<Longrightarrow> segs_ok (esc_loop chunk s p)"
proof (induction chunk s p rule: esc_loop.induct)
  case (1 chunk s p)
  note push = push_text_ok [OF "1.prems"(1) clean_strip [OF "1.prems"(2)]]
  show ?case
  proof (cases "esc_at s")
    case None
    show ?thesis
    proof (cases s)
      case Nil
      then show ?thesis using push None by (subst esc_loop.simps) simp
    next
      case (Cons c r)
      have "segs_ok (esc_loop (chunk @ [c]) r p)"
        using "1.prems" Cons by (intro "1.IH"(1) [OF None Cons]) auto
      then show ?thesis using None Cons by (subst esc_loop.simps) simp
    qed
  next
    case (Some pr)
    obtain params r where pr: "pr = (params, r)" by (cases pr)
    have r: "CR \<notin> set r" using esc_at_set [OF Some [unfolded pr]] "1.prems"(3) by blast
    have "segs_ok (case params of None \<Rightarrow> push_text (strip_ctrl chunk) p
        | Some ps \<Rightarrow> push_text (strip_ctrl chunk) p\<lparr>ps_sgr := applySgr (ps_sgr (push_text (strip_ctrl chunk) p)) ps\<rparr>)"
      using push by (simp add: segs_ok_sgr split: option.split)
    then have "segs_ok (esc_loop [] r (case params of None \<Rightarrow> push_text (strip_ctrl chunk) p
        | Some ps \<Rightarrow> push_text (strip_ctrl chunk) p\<lparr>ps_sgr := applySgr (ps_sgr (push_text (strip_ctrl chunk) p)) ps\<rparr>))"
      by (rule "1.IH"(2) [OF Some pr [symmetric] refl]) (use r in auto)
    then show ?thesis using Some pr by (subst esc_loop.simps) (simp add: Let_def)
  qed
qed

lemma split_char_part: "p \<in> set (split_char d s) \<Longrightarrow> d \<notin> set p"
  by (induction d s arbitrary: p rule: split_char.induct) (auto split: list.splits if_splits)

lemma last_frame_CR: "CR \<notin> set (last_frame raw)"
proof -
  have "CR \<notin> set (last parts)" if "parts = filter (\<lambda>p. p \<noteq> []) (split_char CR raw)" "parts \<noteq> []" for parts
    using last_in_set [OF that(2)] that(1) split_char_part [of _ CR raw] by auto
  then show ?thesis by (auto simp: last_frame_def Let_def)
qed

lemma ctrl_ESC [simp]: "is_ctrl ESC"
  by code_simp

lemma parseRaw_clean_text: "clean s \<Longrightarrow> parseRaw s = (s, None)"
  by (auto simp: clean_def parseRaw_def last_frame_def strip_ctrl_def)

text \<open>Parsing a raw line leaves no escape and no control character in the text, the styled segments are non-empty, spell the
  text out and differ from their neighbours, and parsing the text again changes nothing.\<close>

lemma parseRaw_clean:
  "case parseRaw raw of (text, segs) \<Rightarrow>
     (\<forall>c \<in> set text. \<not> is_ctrl c \<and> c \<noteq> CR) \<and> parseRaw text = (text, None)
     \<and> (case segs of None \<Rightarrow> True
        | Some gs \<Rightarrow> concat (map sg_text gs) = text \<and> (\<forall>g \<in> set gs. sg_text g \<noteq> []) \<and> distinct_adj (map sg_cls gs))"
proof -
  define st where "st = esc_loop [] (last_frame raw) \<lparr>ps_segs = [], ps_plain = [], ps_styled = False, ps_sgr = \<lparr>sr_fg = 0, sr_bold = False\<rparr>\<rparr>"
  have ok: "segs_ok st" unfolding st_def
    by (rule esc_loop_ok) (simp_all add: segs_ok_def clean_def last_frame_CR)
  have cl: "clean (strip_ctrl (last_frame raw))" by (rule clean_strip [OF last_frame_CR])
  show ?thesis
  proof (cases "ESC \<in> set (last_frame raw)")
    case True
    then have e: "parseRaw raw = (ps_plain st, if ps_styled st then Some (ps_segs st) else None)"
      by (simp add: parseRaw_def st_def Let_def)
    have "clean (ps_plain st)" using ok by (simp add: segs_ok_def)
    with ok parseRaw_clean_text show ?thesis by (auto simp: e segs_ok_def clean_def)
  next
    case False
    then have "parseRaw raw = (strip_ctrl (last_frame raw), None)" by (simp add: parseRaw_def)
    with cl parseRaw_clean_text [OF cl] show ?thesis by (simp add: clean_def)
  qed
qed

lemma parseRaw_clean_witness:
  "parseRaw (ESC # ''[31merror'' @ ESC # ''[0m done'') = (''error done'', Some [\<lparr>sg_text = ''error'', sg_cls = ''lv-a31''\<rparr>, \<lparr>sg_text = '' done'', sg_cls = []\<rparr>])
   \<and> parseRaw (fst (parseRaw (ESC # ''[31merror''))) = (fst (parseRaw (ESC # ''[31merror'')), None)"
proof
  show "parseRaw (fst (parseRaw (ESC # ''[31merror''))) = (fst (parseRaw (ESC # ''[31merror'')), None)"
    using parseRaw_clean [of "ESC # ''[31merror''"] by (cases "parseRaw (ESC # ''[31merror'')") simp
qed code_simp

section \<open>The buffer\<close>

definition level_count :: "log_level \<Rightarrow> log_line list \<Rightarrow> int" where
  "level_count l xs = int (length (filter (\<lambda>x. ll_level x = l) xs))"

definition buffer_ok :: "log_buffer \<Rightarrow> bool" where
  "buffer_ok b = ((\<forall>l. lb_counts b l = level_count l (lb_lines b)) \<and> sorted_wrt (<) (map ll_id (lb_lines b))
     \<and> (\<forall>x \<in> set (lb_lines b). ll_id x < lb_nextId b))"

lemma level_count_simps [simp]:
  "level_count l [] = 0" "level_count l (x # xs) = (if ll_level x = l then 1 else 0) + level_count l xs"
  "level_count l (xs @ ys) = level_count l xs + level_count l ys"
  by (simp_all add: level_count_def)

lemma push_line_ok: "buffer_ok b \<Longrightarrow> ll_id line = lb_nextId b \<Longrightarrow> buffer_ok (push_line line b)"
  by (auto simp: buffer_ok_def push_line_def sorted_wrt_append less_SucI)

lemma bump_ok [simp]: "buffer_ok (bump b) = buffer_ok b"
  by (simp add: buffer_ok_def bump_def)

lemma counts_removed: "foldl (\<lambda>c r. c(ll_level r := c (ll_level r) - 1)) c xs l = c l - level_count l xs"
  by (induction xs arbitrary: c) (auto simp: )

lemma trim_ok: "buffer_ok b \<Longrightarrow> buffer_ok (trim_buffer b)"
proof -
  assume ok: "buffer_ok b"
  let ?n = "length (lb_lines b) - TRIM_TO"
  have split: "level_count l (lb_lines b) = level_count l (take ?n (lb_lines b)) + level_count l (drop ?n (lb_lines b))" for l
    using level_count_simps(3) [of l "take ?n (lb_lines b)" "drop ?n (lb_lines b)"] by simp
  have "sorted_wrt (<) (map ll_id (drop ?n (lb_lines b)))"
    using ok sorted_wrt_drop [of "(<)" "map ll_id (lb_lines b)" ?n] by (simp add: buffer_ok_def drop_map)
  then show ?thesis
    using ok split by (auto simp: trim_buffer_def buffer_ok_def counts_removed Let_def dest: in_set_dropD)
qed

lemma append_lines_ok: "buffer_ok b \<Longrightarrow> buffer_ok (append_lines e batch b)"
proof -
  have "buffer_ok (foldl (\<lambda>b l. push_line (log_line_of e (lb_nextId b) l) b) b batch)" if "buffer_ok b" for b
    using that by (induction batch arbitrary: b) (simp_all add: push_line_ok log_line_of_def case_prod_beta Let_def)
  then show "buffer_ok b \<Longrightarrow> ?thesis" by (simp add: append_lines_def trim_ok)
qed

lemma appendMarker_ok: "buffer_ok b \<Longrightarrow> buffer_ok (appendMarker t b)"
  by (simp add: appendMarker_def push_line_ok)

lemma clear_buffer_ok: "buffer_ok (clear_buffer b)"
  by (simp add: clear_buffer_def) (simp add: buffer_ok_def emptyCounts_def)

inductive buffer_reachable :: "log_buffer \<Rightarrow> bool" where
  fresh: "buffer_reachable new_buffer"
| appended: "buffer_reachable b \<Longrightarrow> buffer_reachable (append_lines e batch b)"
| marked: "buffer_reachable b \<Longrightarrow> buffer_reachable (appendMarker t b)"
| cleared: "buffer_reachable b \<Longrightarrow> buffer_reachable (clear_buffer b)"
| listened: "buffer_reachable b \<Longrightarrow> buffer_reachable (subscribe_buffer fn b)"
| unlistened: "buffer_reachable b \<Longrightarrow> buffer_reachable (unsubscribe_buffer fn b)"
| drawn: "buffer_reachable b \<Longrightarrow> buffer_reachable (snd (buffer_frame b))"


definition example_log_env :: log_env where
  "example_log_env = \<lparr>le_parse = (\<lambda>_. Some 5), le_clock = (\<lambda>_. (1, 2, 3, 4))\<rparr>"

definition example_batch :: "raw_line list" where
  "example_batch = [\<lparr>rl_data = Some ''an error'', rl_podName = Some ''web'', rl_container = None, rl_timestamp = Some ''t''\<rparr>]"


section \<open>Searching\<close>


lemma index_of_from_least:
  "index_of_from i s t = Some j \<Longrightarrow> i + k < j \<Longrightarrow> \<not> starts_with (drop k s) t"
proof (induction i s t arbitrary: k rule: index_of_from.induct)
  case (2 i c s t)
  then show ?case by (cases k) (auto split: if_splits)
qed (auto split: if_splits)

lemma index_of_from_none: "index_of_from i s t = None \<Longrightarrow> \<not> starts_with (drop k s) t"
proof (induction i s t arbitrary: k rule: index_of_from.induct)
  case (2 i c s t)
  then show ?case by (cases k) (auto split: if_splits)
qed (auto simp: starts_with_iff split: if_splits)

lemma find_at_someD:
  assumes "find_at hay needle i = Some j"
  shows "i \<le> j" "starts_with (drop j hay) needle" "i \<le> k \<Longrightarrow> k < j \<Longrightarrow> \<not> starts_with (drop k hay) needle"
proof -
  show "i \<le> j" and "starts_with (drop j hay) needle"
    using index_of_from_some [OF assms [unfolded find_at_def]] by (auto simp: le_add_diff_inverse2)
  show "\<not> starts_with (drop k hay) needle" if "i \<le> k" "k < j"
    using index_of_from_least [OF assms [unfolded find_at_def], of "k - i"] that by simp
qed

lemma find_at_noneD: "find_at hay needle i = None \<Longrightarrow> i \<le> k \<Longrightarrow> \<not> starts_with (drop k hay) needle"
  using index_of_from_none [of i "drop i hay" needle "k - i"] by (simp add: find_at_def)

text \<open>The ranges in \<open>out\<close> are occurrences, in order, apart, and cover every occurrence that starts before \<open>e\<close>.\<close>

definition ranges_ok :: "string \<Rightarrow> string \<Rightarrow> nat \<Rightarrow> (nat \<times> nat) list \<Rightarrow> bool" where
  "ranges_ok hay needle e out =
     ((\<forall>(a, b) \<in> set out. b = a + length needle \<and> b \<le> e \<and> starts_with (drop a hay) needle)
      \<and> sorted_wrt (\<lambda>r r'. snd r \<le> fst r') out
      \<and> (\<forall>k < e. starts_with (drop k hay) needle \<longrightarrow> (\<exists>(a, b) \<in> set out. a \<le> k \<and> k < b)))"

lemma ranges_ok_step:
  assumes ok: "ranges_ok hay needle e out" and f: "find_at hay needle e = Some i"
  shows "ranges_ok hay needle (i + length needle) (out @ [(i, i + length needle)])"
proof -
  have cov: "\<exists>(a, b) \<in> set (out @ [(i, i + length needle)]). a \<le> k \<and> k < b"
    if "k < i + length needle" "starts_with (drop k hay) needle" for k
  proof (cases "k < e")
    case True
    then show ?thesis using ok that(2) by (auto simp: ranges_ok_def)
  next
    case False
    then have "i \<le> k" using find_at_someD(3) [OF f, of k] that(2) by (cases "k < i") auto
    then show ?thesis using that(1) by auto
  qed
  show ?thesis
    using ok find_at_someD(1,2) [OF f] cov
    by (fastforce simp: ranges_ok_def sorted_wrt_append)
qed

lemma needle_loop_ok:
  assumes "ranges_ok hay needle e out" "idx = find_at hay needle e" "length out \<le> 200"
  shows "\<exists>e'. ranges_ok hay needle e' (needle_loop hay needle idx out)
      \<and> length (needle_loop hay needle idx out) \<le> 201
      \<and> (length (needle_loop hay needle idx out) \<le> 200 \<longrightarrow> find_at hay needle e' = None)"
  using assms
proof (induction hay needle idx out arbitrary: e rule: needle_loop.induct)
  case (1 hay needle idx out)
  show ?case
  proof (cases idx)
    case None
    then show ?thesis using "1.prems" by (subst needle_loop.simps, subst needle_loop.simps, subst needle_loop.simps) auto
  next
    case (Some i)
    define out1 where "out1 = out @ [(i, i + length needle)]"
    have ok: "ranges_ok hay needle (i + length needle) out1"
      unfolding out1_def by (rule ranges_ok_step [OF "1.prems"(1)]) (use "1.prems"(2) Some in simp)
    have eq: "needle_loop hay needle idx out =
        (if length out1 > 200 then out1 else needle_loop hay needle (find_at hay needle (i + length needle)) out1)"
      using Some by (subst needle_loop.simps) (simp add: out1_def)
    have len: "length out1 \<le> 201" using "1.prems"(3) by (simp add: out1_def)
    show ?thesis
    proof (cases "length out1 > 200")
      case True
      then show ?thesis using ok len by (auto simp: eq)
    next
      case False
      then show ?thesis using "1.IH" [OF Some out1_def False ok refl] by (simp add: eq)
    qed
  qed
qed

text \<open>A plain search lists at most 201 ranges, each a real occurrence of the text sought, in order and without overlap; short of the
  limit it covers every occurrence, and it lists a range exactly for the lines its filter keeps.\<close>

lemma matcher_ranges_exact:
  assumes "buildMatcher regexp query caseSensitive False = Matcher m"
  defines "hay l \<equiv> if caseSensitive then ll_text l else ll_lower l"
    and "needle \<equiv> if caseSensitive then query else to_lower query"
    and "out l \<equiv> matcher_ranges m (ll_text l) (ll_lower l)"
  shows "length (out l) \<le> 201
    \<and> (\<forall>(a, b) \<in> set (out l). b = a + length needle \<and> take (b - a) (drop a (hay l)) = needle)
    \<and> sorted_wrt (\<lambda>r r'. snd r \<le> fst r') (out l)
    \<and> (length (out l) \<le> 200 \<longrightarrow> (\<forall>k. take (length needle) (drop k (hay l)) = needle \<longrightarrow> (\<exists>(a, b) \<in> set (out l). a \<le> k \<and> k < b)))
    \<and> (out l \<noteq> [] \<longleftrightarrow> matcher_test m l)"
proof -
  have q: "query \<noteq> []" and m: "m = Needle needle caseSensitive"
    using assms(1) by (auto simp: buildMatcher_def needle_def split: if_splits)
  have out: "out l = needle_loop (hay l) needle (find_at (hay l) needle 0) []"
    by (simp add: out_def m matcher_ranges_def hay_def index_of_def find_at_def Let_def)
  have sw: "starts_with (drop k (hay l)) needle \<longleftrightarrow> take (length needle) (drop k (hay l)) = needle" for k
    by (auto simp: starts_with_iff) (metis append_take_drop_id)
  have "ranges_ok (hay l) needle 0 []" by (simp add: ranges_ok_def)
  from needle_loop_ok [OF this refl] obtain e where
    e: "ranges_ok (hay l) needle e (out l)" "length (out l) \<le> 201" "length (out l) \<le> 200 \<longrightarrow> find_at (hay l) needle e = None"
    by (auto simp: out)
  have cov: "\<exists>(a, b) \<in> set (out l). a \<le> k \<and> k < b" if "length (out l) \<le> 200" "starts_with (drop k (hay l)) needle" for k
    using e(1,3) that find_at_noneD [of "hay l" needle e k] by (cases "k < e") (auto simp: ranges_ok_def)
  have test: "matcher_test m l \<longleftrightarrow> find_at (hay l) needle 0 \<noteq> None"
    by (simp add: m matcher_test_def str_includes_def index_of_def find_at_def hay_def)
  have ne: "out l \<noteq> [] \<longleftrightarrow> matcher_test m l"
  proof
    assume "out l \<noteq> []"
    then obtain a b where "(a, b) \<in> set (out l)" by (metis list.set_sel(1) surj_pair)
    then have "starts_with (drop a (hay l)) needle" using e(1) by (auto simp: ranges_ok_def)
    then show "matcher_test m l" using find_at_noneD [of "hay l" needle 0 a] test by auto
  next
    assume "matcher_test m l"
    then obtain k where "find_at (hay l) needle 0 = Some k" using test by auto
    then show "out l \<noteq> []" using cov [of k] find_at_someD(2) by (cases "out l") force+
  qed
  show ?thesis
    using e(1,2) ne cov by (auto simp: ranges_ok_def sw)
qed

lemma matcher_ranges_exact_witness:
  "matcher_ranges (Needle ''ab'' False) ''AB abab'' ''ab abab'' = [(0, 2), (3, 5), (5, 7)]
   \<and> length (matcher_ranges (Needle ''ab'' False) ''AB abab'' ''ab abab'') \<le> 201"
proof
  have b: "buildMatcher (\<lambda>_ _. None) ''AB'' False False = Matcher (Needle ''ab'' False)" by (simp add: buildMatcher_def) code_simp
  show "length (matcher_ranges (Needle ''ab'' False) ''AB abab'' ''ab abab'') \<le> 201"
    using matcher_ranges_exact [OF b, of "\<lparr>ll_id = 1, ll_text = ''AB abab'', ll_lower = ''ab abab'', ll_segs = None, ll_pod = [],
       ll_container = [], ll_ts = 0, ll_tsStr = [], ll_level = NoLevel, ll_marker = False\<rparr>"] by simp
qed code_simp

end
