(* ===== verification/LogFeedProps.thy ===== *)
theory LogFeedProps
  imports LogProps
begin

text \<open>
  What a log feed shows over a reconnect, and what its subscription leaves behind on the
  socket.
\<close>

section \<open>Reconnects\<close>

text \<open>A message that answers nothing yet: the lines on screen stay.\<close>

definition quiet :: "'p feed_message \<Rightarrow> bool" where
  "quiet m = (case m of EndMessage _ _ \<Rightarrow> False | ErrorMessage _ \<Rightarrow> False | BatchMessage _ _ \<Rightarrow> False | _ \<Rightarrow> True)"

lemma quiet_message:
  "quiet m \<Longrightarrow> fd_buffer (handle_message e m f) = fd_buffer f \<and> fd_replacing (handle_message e m f) = fd_replacing f
    \<and> fd_lastSeq (handle_message e m f) = fd_lastSeq f"
  by (auto simp: quiet_def handle_message_def split: feed_message.splits)

lemma quiet_messages:
  "(\<forall>m \<in> set ms. quiet m) \<Longrightarrow> fd_buffer (fold (handle_message e) ms f) = fd_buffer f
    \<and> fd_replacing (fold (handle_message e) ms f) = fd_replacing f \<and> fd_lastSeq (fold (handle_message e) ms f) = fd_lastSeq f"
  by (induction ms arbitrary: f) (simp_all add: quiet_message)

lemma restart_started:
  "fd_started f \<Longrightarrow> fd_buffer (restart_feed f) = fd_buffer f \<and> fd_replacing (restart_feed f) \<and> fd_lastSeq (restart_feed f) = 0"
  by (simp add: restart_feed_def)

lemma append_buffer_lines:
  "length batch \<le> MAX_LINES \<Longrightarrow> length (lb_lines (append_lines e batch (clear_buffer b))) = length batch"
proof -
  have "length (lb_lines (foldl (\<lambda>b l. push_line (log_line_of e (lb_nextId b) l) b) b xs)) = length (lb_lines b) + length xs" for xs b
    by (induction xs arbitrary: b) (simp_all add: push_line_def)
  then show "length batch \<le> MAX_LINES \<Longrightarrow> ?thesis"
    by (simp add: append_lines_def bump_def trim_buffer_def clear_buffer_def)
qed

text \<open>C13: After a reconnect the lines stay on screen until the stream answers; then the first batch replaces them, an error or an
  ordinary end clears them, and a pod that is gone leaves them, followed by a marker that says so.\<close>

theorem feed_reconnect:
  fixes f :: "'p feed" and e :: log_env
  assumes "fd_started f" "\<forall>m \<in> set ms. quiet m" "case sq of Some n \<Rightarrow> 0 < n | None \<Rightarrow> True"
  defines "g \<equiv> fold (handle_message e) ms (restart_feed f)"
    and "old \<equiv> lb_lines (fd_buffer f)"
    and "shown \<equiv> \<lambda>h. lb_lines (fd_buffer h)"
  shows "shown g = old
    \<and> shown (handle_message e (BatchMessage sq (Some ls)) g) = lb_lines (append_lines e (map batch_line ls) (clear_buffer (fd_buffer f)))
    \<and> shown (handle_message e (ErrorMessage err) g) = []
    \<and> (reason \<noteq> Some ''not_found'' \<longrightarrow> shown (handle_message e (EndMessage reason msg) g) = [])
    \<and> butlast (shown (handle_message e (EndMessage (Some ''not_found'') msg) g)) = old
    \<and> (old \<noteq> [] \<longrightarrow> ll_marker (last (shown (handle_message e (EndMessage (Some ''not_found'') msg) g))))"
proof -
  have g: "fd_buffer g = fd_buffer f" "fd_replacing g" "fd_lastSeq g = 0"
    using quiet_messages [OF assms(2), of e "restart_feed f"] restart_started [OF assms(1)] by (simp_all add: g_def)
  have c: "lb_lines (clear_buffer b) = []" for b by (simp add: clear_buffer_def bump_def)
  have m: "lb_lines (appendMarker t b) = lb_lines b @ [last (lb_lines (appendMarker t b))]"
    "ll_marker (last (lb_lines (appendMarker t b)))" for t b
    by (simp_all add: appendMarker_def push_line_def bump_def)
  have "shown (handle_message e (EndMessage (Some ''not_found'') msg) g) =
      (if old = [] then [] else lb_lines (appendMarker (''Stream ended: '' @ str_or msg ''the resource no longer exists'') (fd_buffer f)))"
    by (simp add: shown_def handle_message_def handle_end_def Let_def g old_def)
  moreover have "butlast (lb_lines (appendMarker t b)) = lb_lines b" for t b by (subst m(1)) simp
  ultimately show ?thesis
    using assms(3)
    by (auto simp: shown_def old_def g handle_message_def handle_batch_def handle_end_def replaceOld_def Let_def c m(2)
        split: option.splits)
qed

text \<open>The line of the example batch, shown; then the pod is gone after a reconnect.\<close>

definition example_feed :: "nat feed" where
  "example_feed = handle_message example_log_env (BatchMessage (Some 1) (Some [Inl ''hello''])) (restart_feed (new_feed new_buffer))"

lemma feed_reconnect_witness:
  "map ll_text (lb_lines (fd_buffer example_feed)) = [''hello'']
    \<and> lb_lines (fd_buffer (handle_message example_log_env Connected (restart_feed example_feed))) = lb_lines (fd_buffer example_feed)
    \<and> lb_lines (fd_buffer (handle_message example_log_env (ErrorMessage None)
        (handle_message example_log_env Connected (restart_feed example_feed)))) = []"
proof -
  have "fd_buffer example_feed = append_lines example_log_env [batch_line (Inl ''hello'')] (clear_buffer new_buffer)"
    "fd_started example_feed"
    by (simp_all add: example_feed_def handle_message_def handle_batch_def replaceOld_def restart_feed_def new_feed_def Let_def)
  moreover have "map ll_text (lb_lines (append_lines example_log_env [batch_line (Inl ''hello'')] (clear_buffer new_buffer))) = [''hello'']"
    by code_simp
  ultimately have s: "fd_started example_feed" "map ll_text (lb_lines (fd_buffer example_feed)) = [''hello'']" by simp_all
  show ?thesis
    using feed_reconnect [OF s(1), of "[Connected]" "Some 1" example_log_env "[]" None None None] s(2)
    by (simp add: quiet_def)
qed

section \<open>Batches\<close>

lemma batch_idempotent:
  "handle_batch e (Some n) ls' (handle_batch e (Some n) ls f) = handle_batch e (Some n) ls f"
  by (simp add: handle_batch_def replaceOld_def Let_def)

text \<open>A stream's numbered batches are shown at most once: a sequence number seen, or below one seen, since the last restart
  changes nothing, so a replay of batches already handled leaves the feed as it is.\<close>

lemma replayed_batches_ignored:
  fixes f :: "'p feed" and e :: log_env
  assumes "sorted_wrt (<) (map fst bs)" "\<forall>b \<in> set bs. 0 < fst b"
  defines "play \<equiv> \<lambda>f :: 'p feed. fold (\<lambda>(n, ls). handle_message e (BatchMessage (Some n) (Some ls))) bs f"
  shows "play (play f) = play f"
proof -
  let ?h = "\<lambda>(n, ls). handle_batch e (Some n) (Some ls)"
  have play: "play = fold ?h bs"
    unfolding play_def case_prod_unfold handle_message_def by simp
  have grow: "fd_lastSeq h \<le> fd_lastSeq (fold ?h xs h)" for xs and h :: "'p feed"
  proof (induction xs arbitrary: h)
    case (Cons x xs)
    have "fd_lastSeq h \<le> fd_lastSeq (?h x h)"
      by (auto simp: handle_batch_def replaceOld_def Let_def case_prod_beta)
    then show ?case using Cons [of "?h x h"] by simp
  qed simp
  have seen: "n \<le> fd_lastSeq (fold ?h xs h)" if "(n, ls) \<in> set xs" for n ls xs and h :: "'p feed"
    using that
  proof (induction xs arbitrary: h)
    case (Cons x xs)
    have "fst x \<le> fd_lastSeq (?h x h)"
      by (auto simp: handle_batch_def replaceOld_def Let_def case_prod_beta)
    then show ?case using Cons grow [of "?h x h" xs] by auto
  qed simp
  have skip: "fold ?h xs h = h" if "\<forall>x \<in> set xs. fst x \<le> fd_lastSeq h" for xs and h :: "'p feed"
    using that by (induction xs) (simp_all add: handle_batch_def case_prod_beta)
  have "\<forall>x \<in> set bs. fst x \<le> fd_lastSeq (play f)"
    unfolding play using seen [of _ _ bs f] by (metis prod.collapse)
  then show ?thesis unfolding play by (rule skip)
qed

lemma replayed_batches_ignored_witness:
  "let b = (1 :: int, [Inl ''hello'']); play = fold (\<lambda>(n, ls). handle_message example_log_env (BatchMessage (Some n) (Some ls))) [b]
   in play (play example_feed) = play example_feed"
  using replayed_batches_ignored [of "[(1 :: int, [Inl ''hello''])]" example_log_env example_feed] by simp

section \<open>The subscription\<close>

text \<open>Subscribing to a log stream and unsubscribing leaves the socket's handlers as they were and no listener that would start the
  stream again.\<close>

lemma log_subscription_released:
  assumes "jm_get (sb_handlers s) ''logs'' \<noteq> Some []"
    and "\<forall>hs. jm_get (sb_handlers s) ''logs'' = Some hs \<longrightarrow> handler \<notin> set hs"
  defines "t \<equiv> unsubscribeLogStream handler (subscribeLogStream handler s)"
  shows "jm_get (sb_handlers t) k = jm_get (sb_handlers s) k
    \<and> connection_restored reason t = t \<and> connection_state ty state t = t
    \<and> sb_calls t = sb_calls s @ [Restarted, SentStart, SentStop]"
proof -
  have h: "nullish (jm_get (sb_handlers s) ''logs'') [] = hs \<Longrightarrow> filter (\<lambda>h. h \<noteq> handler) (js_add hs handler) = hs" for hs
    using assms(2) by (auto simp: js_add_def nullish_def filter_id_conv split: option.splits)
  show ?thesis
  proof (cases "jm_get (sb_handlers s) ''logs''")
    case None
    then show ?thesis
      using h [of "[]"] by (simp add: t_def subscribeLogStream_def unsubscribeLogStream_def start_stream_def connection_restored_def
          connection_state_def Let_def jm_has_get nullish_def)
  next
    case (Some hs)
    then show ?thesis
      using h [of hs] assms(1) by (simp add: t_def subscribeLogStream_def unsubscribeLogStream_def start_stream_def
          connection_restored_def connection_state_def Let_def jm_has_get nullish_def)
  qed
qed

definition example_sub :: log_sub where
  "example_sub = \<lparr>sb_handlers = [(''pods'', [7])], sb_restored = False, sb_state = False, sb_calls = []\<rparr>"

lemma log_subscription_released_witness:
  "jm_get (sb_handlers (unsubscribeLogStream 3 (subscribeLogStream 3 example_sub))) ''logs'' = None
    \<and> sb_calls (unsubscribeLogStream 3 (subscribeLogStream 3 example_sub)) = [Restarted, SentStart, SentStop]"
proof -
  have s: "jm_get (sb_handlers example_sub) ''logs'' = None" "sb_calls example_sub = []" by code_simp+
  show ?thesis
    using log_subscription_released [of example_sub 3 "''logs''" None "[]" "[]"] s by simp
qed

end
