(* ===== verification/JsonValues.thy ===== *)
theory JsonValues
  imports StoreTypes
begin

text \<open>
  Reading JSON objects as the code reads the values it types \<open>any\<close>: an object's fields are
  a list, and a field that is absent or \<open>undefined\<close> is missing from it.
\<close>

type_synonym fields = "(string \<times> json) list"

definition prop_of :: "fields \<Rightarrow> string \<Rightarrow> json option" where
  "prop_of p k = map_of p k"

definition str_prop :: "fields \<Rightarrow> string \<Rightarrow> string option" where
  "str_prop p k = (case prop_of p k of Some (JStr s) \<Rightarrow> Some s | _ \<Rightarrow> None)"

definition json_truthy :: "json option \<Rightarrow> bool" where
  "json_truthy j =
     (case j of
        None \<Rightarrow> False
      | Some v \<Rightarrow> (case v of JNull \<Rightarrow> False | JBool b \<Rightarrow> b | JNum n \<Rightarrow> n \<noteq> 0 | JStr s \<Rightarrow> s \<noteq> [] | JArr _ \<Rightarrow> True | JObj _ \<Rightarrow> True))"

end
