(* ===== verification/SocketMessages.thy ===== *)
theory SocketMessages
  imports JsonValues
begin

text \<open>
  The messages on the backend's socket, \<open>frontend/src/services/api/websocket.ts\<close>: what a
  message starts or stops (\<open>classifyMessage\<close>), and the topics of item lists.

  A message is a JavaScript object: \<open>ms_obj\<close> is its identity, which the manager compares when a
  rejected start is to be sent again; \<open>ms_payload\<close> is \<open>None\<close> when the payload is no object. A
  field that is absent or \<open>undefined\<close> is missing from the list.
\<close>

section \<open>JSON values\<close>

record message =
  ms_obj :: nat
  ms_type :: "string option"
  ms_payload :: "fields option"

definition bool_text :: "bool \<Rightarrow> string" where
  "bool_text b = (if b then ''true'' else ''false'')"

text \<open>\<open>String(v)\<close>: what a template literal inserts.\<close>

fun json_string :: "json \<Rightarrow> string" where
  "json_string JNull = ''null''"
| "json_string (JBool b) = bool_text b"
| "json_string (JNum n) = show_int n"
| "json_string (JStr s) = s"
| "json_string (JArr vs) = join_with '','' (map (\<lambda>v. if v = JNull then [] else json_string v) vs)"
| "json_string (JObj _) = ''[object Object]''"

definition in_text :: "json option \<Rightarrow> string" where
  "in_text j = (case j of None \<Rightarrow> ''undefined'' | Some v \<Rightarrow> json_string v)"

text \<open>\<open>a || ''\<close> in a template literal.\<close>

definition or_empty :: "json option \<Rightarrow> string" where
  "or_empty j = (if json_truthy j then in_text j else [])"

text \<open>\<open>JSON.stringify\<close> with a list of the properties to write.\<close>

definition hex_digit :: "nat \<Rightarrow> char" where
  "hex_digit n = (if n < 10 then char_of (48 + n) else char_of (87 + n))"

definition quoted_char :: "char \<Rightarrow> string" where
  "quoted_char c =
     (let n = code_unit c; bs = char_of (92 :: nat) in
      if n = 34 \<or> n = 92 then [bs, c]
      else if n = 8 then [bs, CHR ''b'']
      else if n = 9 then [bs, CHR ''t'']
      else if n = 10 then [bs, CHR ''n'']
      else if n = 12 then [bs, CHR ''f'']
      else if n = 13 then [bs, CHR ''r'']
      else if n < 32 then bs # ''u00'' @ [hex_digit (n div 16), hex_digit (n mod 16)]
      else [c])"

definition quoted :: "string \<Rightarrow> string" where
  "quoted s = char_of (34 :: nat) # concat (map quoted_char s) @ [char_of (34 :: nat)]"

definition joined_props :: "string list \<Rightarrow> (string \<times> string) list \<Rightarrow> string" where
  "joined_props ks ts =
     ''{'' @ join_with '','' (concat (map (\<lambda>k. case map_of ts k of None \<Rightarrow> [] | Some t \<Rightarrow> [quoted k @ '':'' @ t]) ks)) @ ''}''"

fun stringify :: "string list \<Rightarrow> json \<Rightarrow> string" where
  "stringify ks JNull = ''null''"
| "stringify ks (JBool b) = bool_text b"
| "stringify ks (JNum n) = show_int n"
| "stringify ks (JStr s) = quoted s"
| "stringify ks (JArr vs) = ''['' @ join_with '','' (map (stringify ks) vs) @ '']''"
| "stringify ks (JObj fs) = joined_props ks (map (\<lambda>(k, v). (k, stringify ks v)) fs)"

section \<open>What a message starts or stops\<close>

datatype message_op = StartOp | StopOp

type_synonym message_info = "(string \<times> message_op) option"

text \<open>\<open>key\<close> and \<open>op\<close> of a \<open>MessageInfo\<close> are both set or both \<open>null\<close>.\<close>

definition items_topic :: "string \<Rightarrow> string \<Rightarrow> string \<Rightarrow> string \<Rightarrow> string \<Rightarrow> string" where
  "items_topic cluster grp version kind namespace =
     ''items:'' @ cluster @ '':'' @ grp @ '':'' @ version @ '':'' @ kind @ '':'' @ namespace"

fun string_less :: "string \<Rightarrow> string \<Rightarrow> bool" where
  "string_less [] t = (t \<noteq> [])"
| "string_less (c # s) [] = False"
| "string_less (c # s) (d # t) = (code_unit c < code_unit d \<or> (c = d \<and> string_less s t))"

definition string_compare :: "string \<Rightarrow> string \<Rightarrow> int" where
  "string_compare a b = (if string_less a b then - 1 else if a = b then 0 else 1)"

definition metrics_identity :: "fields \<Rightarrow> string" where
  "metrics_identity p =
     (let identity = filter (\<lambda>(k, v). k \<notin> set [''action'', ''provider'', ''streamingRate'']) p
      in stringify (js_sort string_compare (map fst identity)) (JObj identity))"

definition subscribe_info :: "fields \<Rightarrow> message_info" where
  "subscribe_info p =
     (if str_prop p ''channel'' = Some ''items''
      then Some (items_topic (in_text (prop_of p ''cluster'')) (or_empty (prop_of p ''group'')) (in_text (prop_of p ''version''))
             (in_text (prop_of p ''kind'')) (or_empty (prop_of p ''namespace'')), StartOp)
      else map_option (\<lambda>t. (t, StartOp)) (str_prop p ''topic''))"

definition action_op :: "fields \<Rightarrow> message_op option" where
  "action_op p =
     (case str_prop p ''action'' of
        Some a \<Rightarrow>
          if a = ''start'' \<or> a = ''subscribe'' then Some StartOp
          else if a = ''stop'' \<or> a = ''unsubscribe'' then Some StopOp
          else None
      | None \<Rightarrow> None)"

definition stream_id :: "string \<Rightarrow> fields \<Rightarrow> json option" where
  "stream_id ty p =
     (if ty = ''logs'' \<or> ty = ''cloud.discover'' then prop_of p ''key''
      else if ty = ''dashboard'' \<or> ty = ''helm'' then prop_of p ''cluster''
      else if ty = ''metrics'' then Some (JStr (metrics_identity p))
      else None)"

definition stream_info :: "string \<Rightarrow> fields \<Rightarrow> message_info" where
  "stream_info ty p =
     (case action_op p of
        None \<Rightarrow> None
      | Some a \<Rightarrow>
          (case stream_id ty p of
             None \<Rightarrow> None
           | Some v \<Rightarrow> if v = JNull \<or> v = JStr [] then None else Some (ty @ '':'' @ json_string v, a)))"

definition classifyMessage :: "message \<Rightarrow> message_info" where
  "classifyMessage m =
     (case (ms_type m, ms_payload m) of
        (Some ty, Some p) \<Rightarrow>
          if ty = ''subscribe'' then subscribe_info p
          else if ty = ''unsubscribe'' then map_option (\<lambda>t. (t, StopOp)) (str_prop p ''topic'')
          else stream_info ty p
      | _ \<Rightarrow> None)"

text \<open>Every use asks \<open>info.key && info.op\<close>: an empty key counts as none.\<close>

definition addressed :: "message \<Rightarrow> message_info" where
  "addressed m = (case classifyMessage m of Some (k, a) \<Rightarrow> if k = [] then None else Some (k, a) | None \<Rightarrow> None)"

definition starts :: "message \<Rightarrow> string option" where
  "starts m = (case addressed m of Some (k, StartOp) \<Rightarrow> Some k | _ \<Rightarrow> None)"

section \<open>Item topics\<close>

record items_parts =
  ip_cluster :: string
  ip_group :: string
  ip_version :: string
  ip_kind :: string
  ip_namespace :: string

definition slice :: "string \<Rightarrow> nat \<Rightarrow> nat \<Rightarrow> string" where
  "slice s i j = drop i (take j s)"

definition sep_positions :: "string \<Rightarrow> nat list" where
  "sep_positions s = filter (\<lambda>i. s ! i = CHR '':'') [0..<length s]"

definition parseItemsTopic :: "string \<Rightarrow> items_parts option" where
  "parseItemsTopic topic =
     (if \<not> starts_with topic ''items:'' then None
      else
        let remainder = drop 6 topic;
            sepPositions = sep_positions remainder
        in if length sepPositions < 4 then None
           else
             let seps = drop (length sepPositions - 4) sepPositions in
             Some \<lparr>ip_cluster = slice remainder 0 (seps ! 0),
                   ip_group = slice remainder (seps ! 0 + 1) (seps ! 1),
                   ip_version = slice remainder (seps ! 1 + 1) (seps ! 2),
                   ip_kind = slice remainder (seps ! 2 + 1) (seps ! 3),
                   ip_namespace = drop (seps ! 3 + 1) remainder\<rparr>)"

section \<open>Laws\<close>

lemma sep_positions_append: "sep_positions (a @ b) = sep_positions a @ map (\<lambda>i. i + length a) (sep_positions b)"
proof -
  have "[0..<length (a @ b)] = [0..<length a] @ map (\<lambda>i. i + length a) [0..<length b]"
    using upt_add_eq_append [of 0 "length a" "length b"] map_add_upt [of "length a" "length b"]
    by (simp add: add.commute [of "length b"])
  moreover have "filter (\<lambda>i. (a @ b) ! i = CHR '':'') [0..<length a] = sep_positions a"
    unfolding sep_positions_def by (rule filter_cong) (simp_all add: nth_append)
  moreover have "filter (\<lambda>i. (a @ b) ! i = CHR '':'') (map (\<lambda>i. i + length a) [0..<length b]) = map (\<lambda>i. i + length a) (sep_positions b)"
    unfolding sep_positions_def filter_map by (simp add: comp_def nth_append)
  ultimately show ?thesis unfolding sep_positions_def [of "a @ b"] by (simp only: filter_append)
qed

lemma sep_positions_none: "CHR '':'' \<notin> set s \<Longrightarrow> sep_positions s = []"
  by (auto simp: sep_positions_def filter_empty_conv) (metis nth_mem)

lemma sep_positions_colon [simp]: "sep_positions (CHR '':'' # s) = 0 # map Suc (sep_positions s)"
  using sep_positions_append [of "'':''" s] by (simp add: sep_positions_def)

lemma slice_mid: "i = length a \<Longrightarrow> j = length a + length b \<Longrightarrow> slice (a @ b @ d) i j = b"
  by (simp add: slice_def)

text \<open>A topic's parts are its own, whatever colons the cluster's name has.\<close>

lemma parse_items_topic:
  assumes "CHR '':'' \<notin> set g \<union> set v \<union> set k \<union> set n"
  shows "parseItemsTopic (items_topic c g v k n) = Some \<lparr>ip_cluster = c, ip_group = g, ip_version = v, ip_kind = k, ip_namespace = n\<rparr>"
proof -
  have none: "sep_positions g = []" "sep_positions v = []" "sep_positions k = []" "sep_positions n = []"
    using assms by (auto intro!: sep_positions_none)
  define r where "r = c @ '':'' @ g @ '':'' @ v @ '':'' @ k @ '':'' @ n"
  define a where "a = length c"
  define b where "b = a + 1 + length g"
  define d where "d = b + 1 + length v"
  define f where "f = d + 1 + length k"
  have seps: "sep_positions r = sep_positions c @ [a, b, d, f]"
    by (simp add: r_def a_def b_def d_def f_def sep_positions_append none)
  have cs: "slice r 0 a = c" "slice r (a + 1) b = g" "slice r (b + 1) d = v" "slice r (d + 1) f = k"
    using slice_mid [of 0 "[]" a c "'':'' @ g @ '':'' @ v @ '':'' @ k @ '':'' @ n"]
      slice_mid [of "a + 1" "c @ '':''" b g "'':'' @ v @ '':'' @ k @ '':'' @ n"]
      slice_mid [of "b + 1" "c @ '':'' @ g @ '':''" d v "'':'' @ k @ '':'' @ n"]
      slice_mid [of "d + 1" "c @ '':'' @ g @ '':'' @ v @ '':''" f k "'':'' @ n"]
    by (simp_all add: r_def a_def b_def d_def f_def)
  have "r = (c @ '':'' @ g @ '':'' @ v @ '':'' @ k @ '':'') @ n" "length (c @ '':'' @ g @ '':'' @ v @ '':'' @ k @ '':'') = f + 1"
    by (simp_all add: r_def a_def b_def d_def f_def)
  then have "drop (f + 1) r = n" by (metis append_eq_conv_conj)
  moreover have "drop 6 (items_topic c g v k n) = r" "starts_with (items_topic c g v k n) ''items:''"
    by (simp_all add: items_topic_def r_def)
  ultimately show ?thesis
    using cs by (simp add: parseItemsTopic_def seps Let_def)
qed

lemma drop_colon: "i \<le> j \<Longrightarrow> j < length s \<Longrightarrow> s ! j = CHR '':'' \<Longrightarrow> drop i s = slice s i j @ '':'' @ drop (j + 1) s"
  using id_take_nth_drop [of "j - i" "drop i s"] by (simp add: slice_def drop_take)

lemma parse_items_topicD:
  assumes "parseItemsTopic t = Some p"
  shows "t = items_topic (ip_cluster p) (ip_group p) (ip_version p) (ip_kind p) (ip_namespace p)"
proof -
  define r where "r = drop 6 t"
  have sw: "starts_with t ''items:''" using assms by (auto simp: parseItemsTopic_def split: if_splits)
  then have t: "t = ''items:'' @ r" by (auto simp: starts_with_iff r_def)
  define l where "l = drop (length (sep_positions r) - 4) (sep_positions r)"
  have len: "4 \<le> length (sep_positions r)" using assms sw by (auto simp: parseItemsTopic_def r_def Let_def split: if_splits)
  then have l: "length l = 4" by (simp add: l_def)
  have "sorted_wrt (<) (sep_positions r)" by (simp add: sep_positions_def sorted_wrt_filter)
  then have "sorted_wrt (<) l" by (simp add: l_def sorted_wrt_drop)
  then have lt: "l ! 0 < l ! 1" "l ! 1 < l ! 2" "l ! 2 < l ! 3" by (simp_all add: sorted_wrt_iff_nth_less l)
  have col: "l ! i < length r \<and> r ! (l ! i) = CHR '':''" if "i < 4" for i
    using nth_mem [of i l] that l by (auto simp: l_def sep_positions_def dest!: in_set_dropD)
  have p: "p = \<lparr>ip_cluster = slice r 0 (l ! 0), ip_group = slice r (l ! 0 + 1) (l ! 1), ip_version = slice r (l ! 1 + 1) (l ! 2),
      ip_kind = slice r (l ! 2 + 1) (l ! 3), ip_namespace = drop (l ! 3 + 1) r\<rparr>"
    using assms sw len by (auto simp: parseItemsTopic_def Let_def r_def [symmetric] l_def [symmetric])
  have "drop 0 r = slice r 0 (l ! 0) @ '':'' @ slice r (l ! 0 + 1) (l ! 1) @ '':'' @ slice r (l ! 1 + 1) (l ! 2) @ '':''
      @ slice r (l ! 2 + 1) (l ! 3) @ '':'' @ drop (l ! 3 + 1) r"
    using drop_colon [of 0 "l ! 0" r] drop_colon [of "l ! 0 + 1" "l ! 1" r] drop_colon [of "l ! 1 + 1" "l ! 2" r]
      drop_colon [of "l ! 2 + 1" "l ! 3" r] col [of 0] col [of 1] col [of 2] col [of 3] lt by simp
  then show ?thesis by (simp add: t p items_topic_def)
qed

end
