(* ===== verification/SocketState.thy ===== *)
theory SocketState
  imports SocketMessages
begin

text \<open>
  The manager of the backend's socket, \<open>frontend/src/services/api/websocket.ts\<close>: its state and
  what sends messages. Sockets are shared objects (a replaced socket still has its handlers),
  so they are kept on a heap, \<open>mg_sockets\<close>, with what was sent on each; \<open>mg_ws\<close> is the one the
  manager holds. A pending retry is an entry of \<open>mg_timers\<close>; its closure's retry object is the
  one in \<open>mg_retries\<close> exactly when that one holds its timer.

  \<open>mg_waiting\<close> are the continuations that await the session's secret. Once it is known an
  \<open>await\<close> of it goes on as soon as the running task ends. What the manager tells the window and
  its handlers is logged in \<open>mg_out\<close>. Console output, the development counters and the times
  of subscriptions, which are only logged, are left out.
\<close>

section \<open>State\<close>

datatype ready_state = SockConnecting | SockOpen | SockClosing | SockClosed

record socket =
  sk_ready :: ready_state
  sk_attached :: bool
  sk_secret :: "string option"
  sk_messages :: "message list"

record retry =
  rt_attempt :: nat
  rt_at :: int
  rt_timer :: "nat option"

record retry_timer =
  ry_timer :: nat
  ry_key :: string
  ry_message :: message
  ry_delay :: int

datatype handler = PlainHandler nat | CountsHandler nat

datatype delivery =
    EventBatch json "json option"
  | BulkList "json list" "json option" int "int option"
  | WholeMessage fields
  | CountOf json json int

datatype ws_out =
    ConnectionState string string "int option"
  | ConnectionRestored
  | WindowEvent string fields
  | Delivered handler delivery

datatype waiter = InitWaiter | ReadyWaiter

record manager =
  mg_ws :: "nat option"
  mg_sockets :: "socket list"
  mg_handlers :: "(string, handler list) jsmap"
  mg_failures :: nat
  mg_connecting :: bool
  mg_secret :: "string option"
  mg_secretReady :: bool
  mg_waiting :: "waiter list"
  mg_backendReady :: bool
  mg_gaveUp :: bool
  mg_active :: "string list"
  mg_watchdog :: bool
  mg_sortPrefs :: "(string, string \<times> string) jsmap"
  mg_wasDisconnected :: bool
  mg_backendUp :: bool
  mg_lastHeartbeat :: int
  mg_heartbeatCheck :: bool
  mg_reconnect :: "int option"
  mg_attempt :: nat
  mg_notified :: bool
  mg_outbox :: "(string, message) jsmap"
  mg_outboxSeq :: nat
  mg_replayable :: "(string, message) jsmap"
  mg_sent :: "string list"
  mg_lastStart :: "(string, message) jsmap"
  mg_retries :: "(string, retry) jsmap"
  mg_timers :: "retry_timer list"
  mg_refreshing :: nat
  mg_health :: nat
  mg_recover :: nat
  mg_wait :: "(int \<times> int) option"
  mg_now :: int
  mg_draws :: nat
  mg_next :: nat
  mg_out :: "ws_out list"

text \<open>
  What happens outside: \<open>Math.random\<close>, a sequence of multiples of 2 ^ -53 below 1, and whether
  the n-th call of the \<open>WebSocket\<close> constructor throws.
\<close>

record ws_env =
  we_random :: "nat \<Rightarrow> nat"
  we_throws :: "nat \<Rightarrow> bool"

definition HEARTBEAT_TIMEOUT_MS :: int where "HEARTBEAT_TIMEOUT_MS = 20000"
definition RECONNECT_BASE_MS :: int where "RECONNECT_BASE_MS = 1000"
definition RECONNECT_MAX_MS :: int where "RECONNECT_MAX_MS = 30000"
definition OUTBOX_LIMIT :: nat where "OUTBOX_LIMIT = 500"
definition RATE_LIMIT_RETRY_BASE_MS :: int where "RATE_LIMIT_RETRY_BASE_MS = 250"
definition RATE_LIMIT_RETRY_MAX_MS :: int where "RATE_LIMIT_RETRY_MAX_MS = 4000"
definition RATE_LIMIT_MAX_RETRIES :: nat where "RATE_LIMIT_MAX_RETRIES = 5"
definition RATE_LIMIT_RESET_MS :: int where "RATE_LIMIT_RESET_MS = 30000"

definition REPLAYABLE_TYPES :: "string list" where
  "REPLAYABLE_TYPES = [''dashboard'', ''helm'', ''metrics'', ''cloud.discover'']"

definition new_manager :: manager where
  "new_manager = \<lparr>mg_ws = None, mg_sockets = [], mg_handlers = [], mg_failures = 0, mg_connecting = False, mg_secret = None,
     mg_secretReady = False, mg_waiting = [], mg_backendReady = False, mg_gaveUp = False, mg_active = [], mg_watchdog = False,
     mg_sortPrefs = [], mg_wasDisconnected = False, mg_backendUp = False, mg_lastHeartbeat = 0, mg_heartbeatCheck = False,
     mg_reconnect = None, mg_attempt = 0, mg_notified = False, mg_outbox = [], mg_outboxSeq = 0, mg_replayable = [], mg_sent = [],
     mg_lastStart = [], mg_retries = [], mg_timers = [], mg_refreshing = 0, mg_health = 0, mg_recover = 0, mg_wait = None,
     mg_now = 0, mg_draws = 0, mg_next = 0, mg_out = []\<rparr>"

definition told :: "ws_out list \<Rightarrow> manager \<Rightarrow> manager" where
  "told os m = m\<lparr>mg_out := mg_out m @ os\<rparr>"

definition ready_of :: "manager \<Rightarrow> ready_state option" where
  "ready_of m = map_option (\<lambda>i. sk_ready (mg_sockets m ! i)) (mg_ws m)"

definition ws_open :: "manager \<Rightarrow> bool" where
  "ws_open m = (ready_of m = Some SockOpen)"

definition upd_socket :: "nat \<Rightarrow> (socket \<Rightarrow> socket) \<Rightarrow> manager \<Rightarrow> manager" where
  "upd_socket i f m = m\<lparr>mg_sockets := (mg_sockets m)[i := f (mg_sockets m ! i)]\<rparr>"

definition isReady :: "manager \<Rightarrow> bool" where
  "isReady m = (mg_backendReady m \<and> ws_open m)"

text \<open>An object literal is a fresh object.\<close>

definition fresh_message :: "string \<Rightarrow> fields \<Rightarrow> manager \<Rightarrow> message \<times> manager" where
  "fresh_message ty p m = (\<lparr>ms_obj = mg_next m, ms_type = Some ty, ms_payload = Some p\<rparr>, m\<lparr>mg_next := Suc (mg_next m)\<rparr>)"

section \<open>Opening the socket\<close>

text \<open>\<open>initWebSocket\<close> up to its \<open>await\<close>, and from there on.\<close>

definition initWebSocket :: "manager \<Rightarrow> manager" where
  "initWebSocket m =
     (if mg_connecting m then m
      else if ready_of m = Some SockOpen \<or> ready_of m = Some SockConnecting then m
      else told [ConnectionState ''websocket'' ''connecting'' None] (m\<lparr>mg_connecting := True, mg_waiting := mg_waiting m @ [InitWaiter]\<rparr>))"

definition nextReconnectDelay :: "ws_env \<Rightarrow> manager \<Rightarrow> int \<times> manager" where
  "nextReconnectDelay e m =
     (let attempt = mg_attempt m; m1 = m\<lparr>mg_attempt := Suc attempt\<rparr> in
      if attempt = 0 then (RECONNECT_BASE_MS, m1)
      else let ceiling = min RECONNECT_MAX_MS (RECONNECT_BASE_MS * 2 ^ min attempt 10);
               r = int (we_random e (mg_draws m))
           in ((ceiling * (2 ^ 53 + r) + 2 ^ 53) div 2 ^ 54, m1\<lparr>mg_draws := Suc (mg_draws m)\<rparr>))"

definition schedule_reconnect_in :: "int \<Rightarrow> manager \<Rightarrow> manager" where
  "schedule_reconnect_in delay m =
     (told [ConnectionState ''websocket'' ''reconnecting'' (Some (max 1 ((delay + 999) div 1000)))] m)\<lparr>mg_reconnect := Some delay\<rparr>"

definition scheduleReconnect :: "ws_env \<Rightarrow> manager \<Rightarrow> manager" where
  "scheduleReconnect e m = (let (delay, m1) = nextReconnectDelay e m in schedule_reconnect_in delay m1)"

definition open_socket :: "ws_env \<Rightarrow> manager \<Rightarrow> manager" where
  "open_socket e m =
     (if we_throws e (length (mg_sockets m)) then scheduleReconnect e (m\<lparr>mg_connecting := False\<rparr>)
      else m\<lparr>mg_ws := Some (length (mg_sockets m)),
             mg_sockets := mg_sockets m @ [\<lparr>sk_ready = SockConnecting, sk_attached = True, sk_secret = mg_secret m, sk_messages = []\<rparr>],
             mg_watchdog := True\<rparr>)"

definition reconnectWebSocket :: "manager \<Rightarrow> manager" where
  "reconnectWebSocket m =
     (let m1 = m\<lparr>mg_heartbeatCheck := False, mg_reconnect := None\<rparr>;
          m2 = (case mg_ws m1 of
                  None \<Rightarrow> m1
                | Some i \<Rightarrow>
                    (upd_socket i (\<lambda>s. s\<lparr>sk_attached := False,
                       sk_ready := (if sk_ready s = SockClosed then SockClosed else SockClosing)\<rparr>) m1)\<lparr>mg_ws := None\<rparr>)
      in initWebSocket (m2\<lparr>mg_connecting := False\<rparr>))"

definition mark_ready :: "manager \<Rightarrow> manager" where
  "mark_ready m =
     (if mg_backendReady m then m
      else initWebSocket (told [ConnectionState ''backend'' ''connected'' None] (m\<lparr>mg_backendReady := True, mg_backendUp := True\<rparr>)))"

section \<open>Sending\<close>

definition clear_retry_timer :: "nat option \<Rightarrow> manager \<Rightarrow> manager" where
  "clear_retry_timer t m = m\<lparr>mg_timers := filter (\<lambda>y. Some (ry_timer y) \<noteq> t) (mg_timers m)\<rparr>"

definition sendNow :: "message \<Rightarrow> manager \<Rightarrow> manager" where
  "sendNow msg m =
     (case mg_ws m of
        None \<Rightarrow> m
      | Some i \<Rightarrow>
          if sk_ready (mg_sockets m ! i) \<noteq> SockOpen then m
          else
            upd_socket i (\<lambda>s. s\<lparr>sk_messages := sk_messages s @ [msg]\<rparr>)
              (case addressed msg of
                 None \<Rightarrow> m
               | Some (key, StartOp) \<Rightarrow> m\<lparr>mg_sent := js_add (mg_sent m) key, mg_lastStart := jm_set (mg_lastStart m) key msg\<rparr>
               | Some (key, StopOp) \<Rightarrow>
                   (let m1 = m\<lparr>mg_sent := filter (\<lambda>k. k \<noteq> key) (mg_sent m), mg_lastStart := jm_delete (mg_lastStart m) key\<rparr>;
                        m2 = (case jm_get (mg_retries m1) key of
                                Some r \<Rightarrow> (case rt_timer r of Some t \<Rightarrow> clear_retry_timer (Some t) m1 | None \<Rightarrow> m1)
                              | None \<Rightarrow> m1)
                    in m2\<lparr>mg_retries := jm_delete (mg_retries m2) key\<rparr>)))"

definition enqueue :: "message \<Rightarrow> manager \<Rightarrow> manager" where
  "enqueue msg m =
     (case addressed msg of
        Some (key, StopOp) \<Rightarrow> m\<lparr>mg_outbox := jm_delete (mg_outbox m) key\<rparr>
      | i \<Rightarrow>
          (let (key, m1) = (case i of Some (key, _) \<Rightarrow> (key, m)
                            | None \<Rightarrow> (CHR ''#'' # show_nat (mg_outboxSeq m), m\<lparr>mg_outboxSeq := Suc (mg_outboxSeq m)\<rparr>));
               q = jm_set (jm_delete (mg_outbox m1) key) key msg
           in m1\<lparr>mg_outbox := drop (jm_size q - OUTBOX_LIMIT) q\<rparr>))"

definition ensureWSReady :: "manager \<Rightarrow> manager" where
  "ensureWSReady m = (if ws_open m then m else initWebSocket m)"

definition note_replayable :: "message \<Rightarrow> manager \<Rightarrow> manager" where
  "note_replayable msg m =
     (case addressed msg of
        None \<Rightarrow> m
      | Some (key, a) \<Rightarrow>
          if (case ms_type msg of Some ty \<Rightarrow> ty \<in> set REPLAYABLE_TYPES | None \<Rightarrow> False)
          then (case a of
                  StartOp \<Rightarrow> m\<lparr>mg_replayable := jm_set (mg_replayable m) key msg\<rparr>
                | StopOp \<Rightarrow> m\<lparr>mg_replayable := jm_delete (mg_replayable m) key\<rparr>)
          else m)"

definition sendWS :: "message \<Rightarrow> manager \<Rightarrow> manager" where
  "sendWS msg m =
     (let m1 = note_replayable msg (ensureWSReady m)
      in if ws_open m1 then sendNow msg m1 else enqueue msg m1)"

definition send_fresh :: "string \<Rightarrow> fields \<Rightarrow> manager \<Rightarrow> manager" where
  "send_fresh ty p m = (let (msg, m1) = fresh_message ty p m in sendWS msg m1)"

definition forgetReplay :: "message \<Rightarrow> manager \<Rightarrow> manager" where
  "forgetReplay msg m =
     (case addressed msg of
        None \<Rightarrow> m
      | Some (key, _) \<Rightarrow> m\<lparr>mg_replayable := jm_delete (mg_replayable m) key\<rparr>)"

section \<open>Rejected starts\<close>

definition retry_delay :: "nat \<Rightarrow> int" where
  "retry_delay attempt = min RATE_LIMIT_RETRY_MAX_MS (RATE_LIMIT_RETRY_BASE_MS * 2 ^ attempt)"

definition retryRateLimited :: "fields \<Rightarrow> manager \<Rightarrow> manager" where
  "retryRateLimited msg m =
     (let key = str_or (opt_or (str_prop msg ''key'') (str_prop msg ''topic'')) [] in
      if key = [] then m
      else
        (case jm_get (mg_lastStart m) key of
           None \<Rightarrow> m
         | Some message \<Rightarrow>
             (let now = mg_now m;
                  r = (case jm_get (mg_retries m) key of
                         Some p \<Rightarrow> if now - rt_at p < RATE_LIMIT_RESET_MS then p else \<lparr>rt_attempt = 0, rt_at = now, rt_timer = None\<rparr>
                       | None \<Rightarrow> \<lparr>rt_attempt = 0, rt_at = now, rt_timer = None\<rparr>)
              in if rt_timer r \<noteq> None then m
                 else if rt_attempt r \<ge> RATE_LIMIT_MAX_RETRIES
                 then m\<lparr>mg_retries := jm_set (mg_retries m) key (r\<lparr>rt_at := now\<rparr>)\<rparr>
                 else
                   m\<lparr>mg_next := Suc (mg_next m),
                     mg_timers := mg_timers m @ [\<lparr>ry_timer = mg_next m, ry_key = key, ry_message = message, ry_delay = retry_delay (rt_attempt r)\<rparr>],
                     mg_retries := jm_set (mg_retries m) key
                       (r\<lparr>rt_at := now, rt_attempt := Suc (rt_attempt r), rt_timer := Some (mg_next m)\<rparr>)\<rparr>)))"

text \<open>The timer's closure; messages are compared by identity.\<close>

definition settle_retry :: "retry_timer \<Rightarrow> manager \<Rightarrow> manager" where
  "settle_retry y m =
     (let m1 = clear_retry_timer (Some (ry_timer y)) m in
      case jm_get (mg_retries m1) (ry_key y) of
        Some r \<Rightarrow> if rt_timer r = Some (ry_timer y)
                  then m1\<lparr>mg_retries := jm_set (mg_retries m1) (ry_key y) (r\<lparr>rt_timer := None\<rparr>)\<rparr> else m1
      | None \<Rightarrow> m1)"

definition retry_fired :: "retry_timer \<Rightarrow> manager \<Rightarrow> manager" where
  "retry_fired y m =
     (let m1 = settle_retry y m in
      case jm_get (mg_lastStart m1) (ry_key y) of
        None \<Rightarrow> m1
      | Some msg \<Rightarrow> if ms_obj msg = ms_obj (ry_message y) then sendWS (ry_message y) m1 else m1)"

end
