(* ===== verification/SocketSession.thy ===== *)
theory SocketSession
  imports SocketState
begin

text \<open>
  The rest of the socket's manager, \<open>frontend/src/services/api/websocket.ts\<close>: subscriptions,
  what happens to a message, opening and closing, the timers, and the steps of a session. A
  step is a task of the window: what runs before the next event, with the continuations that
  wait for the session's secret when it is known.
\<close>

section \<open>Subscriptions\<close>

definition add_handler :: "string \<Rightarrow> handler \<Rightarrow> manager \<Rightarrow> manager" where
  "add_handler topic h m =
     m\<lparr>mg_handlers := jm_set (mg_handlers m) topic (js_add (nullish (jm_get (mg_handlers m) topic) []) h)\<rparr>"

definition drop_handler :: "string \<Rightarrow> handler \<Rightarrow> manager \<Rightarrow> manager" where
  "drop_handler topic h m =
     (case jm_get (mg_handlers m) topic of
        None \<Rightarrow> m
      | Some hs \<Rightarrow>
          (let hs1 = filter (\<lambda>x. x \<noteq> h) hs
           in m\<lparr>mg_handlers := (if hs1 = [] then jm_delete (mg_handlers m) topic else jm_set (mg_handlers m) topic hs1)\<rparr>))"

definition registerActiveCluster :: "string \<Rightarrow> manager \<Rightarrow> manager" where
  "registerActiveCluster c m = m\<lparr>mg_active := js_add (mg_active m) c\<rparr>"

definition cluster_topic :: "string \<Rightarrow> string \<Rightarrow> bool" where
  "cluster_topic c topic = (starts_with topic (''items:'' @ c @ '':'') \<or> topic = ''counts:'' @ c)"

definition cleanupClusterHandlers :: "string \<Rightarrow> manager \<Rightarrow> manager" where
  "cleanupClusterHandlers c m =
     foldl (\<lambda>m topic. let m1 = send_fresh ''unsubscribe'' [(''topic'', JStr topic)] m
                      in m1\<lparr>mg_handlers := jm_delete (mg_handlers m1) topic\<rparr>)
       m (filter (cluster_topic c) (jm_keys (mg_handlers m)))"

definition payload_cluster :: "message \<Rightarrow> json option" where
  "payload_cluster msg = (case ms_payload msg of Some p \<Rightarrow> prop_of p ''cluster'' | None \<Rightarrow> None)"

definition unregisterActiveCluster :: "string \<Rightarrow> manager \<Rightarrow> manager" where
  "unregisterActiveCluster c m =
     cleanupClusterHandlers c
       (m\<lparr>mg_active := filter (\<lambda>x. x \<noteq> c) (mg_active m),
          mg_replayable := filter (\<lambda>(k, msg). payload_cluster msg \<noteq> Some (JStr c)) (mg_replayable m)\<rparr>)"

definition counts_payload :: "string \<Rightarrow> string \<Rightarrow> fields" where
  "counts_payload action topic = [(''action'', JStr action), (''topic'', JStr topic)]"

definition subscribeToCounts :: "string \<Rightarrow> nat \<Rightarrow> manager \<Rightarrow> manager" where
  "subscribeToCounts cluster h m =
     send_fresh ''subscribe'' (counts_payload ''subscribe'' (''counts:'' @ cluster)) (add_handler (''counts:'' @ cluster) (CountsHandler h) m)"

definition unsubscribeFromCounts :: "string \<Rightarrow> nat \<Rightarrow> manager \<Rightarrow> manager" where
  "unsubscribeFromCounts cluster h m =
     (let topic = ''counts:'' @ cluster in
      case jm_get (mg_handlers m) topic of
        None \<Rightarrow> m
      | Some _ \<Rightarrow>
          (let m1 = drop_handler topic (CountsHandler h) m
           in if jm_has (mg_handlers m1) topic then m1
              else send_fresh ''unsubscribe'' (counts_payload ''unsubscribe'' topic) m1))"

definition items_payload :: "items_parts \<Rightarrow> string \<times> string \<Rightarrow> fields" where
  "items_payload p prefs =
     [(''channel'', JStr ''items''), (''cluster'', JStr (ip_cluster p)), (''group'', JStr (ip_group p)), (''version'', JStr (ip_version p)),
      (''kind'', JStr (ip_kind p)), (''namespace'', JStr (ip_namespace p)), (''sortBy'', JStr (fst prefs)), (''sortOrder'', JStr (snd prefs))]"

definition subscribeToItems :: "items_parts \<Rightarrow> nat option \<Rightarrow> string option \<Rightarrow> string option \<Rightarrow> manager \<Rightarrow> manager" where
  "subscribeToItems p h sortBy sortOrder m =
     (let topic = items_topic (ip_cluster p) (ip_group p) (ip_version p) (ip_kind p) (ip_namespace p);
          prefs = (str_or sortBy ''age'', str_or sortOrder ''desc'');
          m1 = (case h of Some n \<Rightarrow> add_handler topic (PlainHandler n) m | None \<Rightarrow> m)
      in send_fresh ''subscribe'' (items_payload p prefs) (m1\<lparr>mg_sortPrefs := jm_set (mg_sortPrefs m1) topic prefs\<rparr>))"

definition topic_name :: "json option \<Rightarrow> string option" where
  "topic_name t = (case t of Some (JStr s) \<Rightarrow> Some s | _ \<Rightarrow> None)"

text \<open>A topic that is no string has no handlers, and its message has no key.\<close>

definition unsubscribe :: "json option \<Rightarrow> handler option \<Rightarrow> bool \<Rightarrow> manager \<Rightarrow> manager" where
  "unsubscribe t onEvent clearAll m =
     (let p = (case t of None \<Rightarrow> [] | Some j \<Rightarrow> [(''topic'', j)]) in
      case topic_name t of
        None \<Rightarrow> send_fresh ''unsubscribe'' p m
      | Some topic \<Rightarrow>
          (let m1 = (case onEvent of
                       None \<Rightarrow> m\<lparr>mg_handlers := jm_delete (mg_handlers m) topic\<rparr>
                     | Some h \<Rightarrow> if clearAll then m\<lparr>mg_handlers := jm_delete (mg_handlers m) topic\<rparr> else drop_handler topic h m)
           in if jm_has (mg_handlers m1) topic then m1
              else send_fresh ''unsubscribe'' p (m1\<lparr>mg_sortPrefs := jm_delete (mg_sortPrefs m1) topic\<rparr>)))"

section \<open>Messages from the backend\<close>

definition js_or :: "json option \<Rightarrow> json option \<Rightarrow> json option" where
  "js_or a b = (if json_truthy a then a else b)"

definition is_message :: "string \<Rightarrow> fields \<Rightarrow> bool" where
  "is_message s msg = (\<exists>k \<in> set [''type'', ''messageType'', ''MessageType'']. str_prop msg k = Some s)"

definition count_of :: "json \<Rightarrow> delivery list" where
  "count_of event =
     (case event of
        JObj f \<Rightarrow>
          (case prop_of f ''count'' of
             Some (JNum n) \<Rightarrow>
               if str_prop f ''channel'' = Some ''counts''
               then [CountOf (nullish (js_or (prop_of f ''group'') None) (JStr [])) (nullish (js_or (prop_of f ''resource'') None) (JStr [])) n]
               else []
           | _ \<Rightarrow> [])
      | _ \<Rightarrow> [])"

text \<open>What a handler makes of a delivery; the wrapper of \<open>subscribeToCounts\<close> takes the counts out.\<close>

definition handler_calls :: "handler \<Rightarrow> delivery \<Rightarrow> ws_out list" where
  "handler_calls h d =
     (case h of
        PlainHandler _ \<Rightarrow> [Delivered h d]
      | CountsHandler _ \<Rightarrow>
          map (Delivered h)
            (case d of
               EventBatch (JArr events) _ \<Rightarrow> concat (map count_of events)
             | EventBatch _ _ \<Rightarrow> []
             | BulkList events _ _ _ \<Rightarrow> concat (map count_of events)
             | WholeMessage f \<Rightarrow> count_of (JObj f)
             | CountOf _ _ _ \<Rightarrow> []))"

definition deliver :: "handler list \<Rightarrow> delivery \<Rightarrow> manager \<Rightarrow> manager" where
  "deliver hs d m = told (concat (map (\<lambda>h. handler_calls h d) hs)) m"

definition bulk_item :: "json \<Rightarrow> json" where
  "bulk_item item = JObj [(''channel'', JStr ''items''), (''action'', JStr ''added''), (''item'', item)]"

definition num_of :: "json option \<Rightarrow> int option" where
  "num_of j = (case j of Some (JNum n) \<Rightarrow> Some n | _ \<Rightarrow> None)"

definition handlers_of :: "json option \<Rightarrow> manager \<Rightarrow> handler list option" where
  "handlers_of t m = (case topic_name t of Some topic \<Rightarrow> jm_get (mg_handlers m) topic | None \<Rightarrow> None)"

definition dispatchMessage :: "fields \<Rightarrow> manager \<Rightarrow> manager" where
  "dispatchMessage msg m =
     (let topic = js_or (prop_of msg ''topic'') (prop_of msg ''Topic'') in
      if is_message ''batch'' msg \<and> json_truthy (prop_of msg ''events'') then
        (case handlers_of topic m of
           Some hs \<Rightarrow> deliver hs (EventBatch (the (prop_of msg ''events'')) topic) m
         | None \<Rightarrow> unsubscribe topic None False m)
      else if is_message ''bulk_list'' msg then
        (case handlers_of topic m of
           Some hs \<Rightarrow>
             (case nullish (js_or (js_or (prop_of msg ''items'') (prop_of msg ''Items'')) None) (JArr []) of
                JArr items \<Rightarrow>
                  deliver hs (BulkList (map bulk_item items) topic
                    (nullish (num_of (js_or (js_or (prop_of msg ''epoch'') (prop_of msg ''Epoch'')) None)) 0)
                    (num_of (js_or (js_or (prop_of msg ''total'') (prop_of msg ''Total'')) None))) m
              | _ \<Rightarrow> m)
         | None \<Rightarrow> unsubscribe topic None False m)
      else if \<not> json_truthy topic then
        (case handlers_of (js_or (js_or (prop_of msg ''type'') (prop_of msg ''MessageType'')) (prop_of msg ''messageType'')) m of
           Some hs \<Rightarrow> deliver hs (WholeMessage msg) m
         | None \<Rightarrow> m)
      else
        (case handlers_of topic m of
           Some hs \<Rightarrow> deliver hs (EventBatch (JArr [JObj msg]) topic) m
         | None \<Rightarrow> unsubscribe topic None False m))"

definition pick :: "string list \<Rightarrow> fields \<Rightarrow> fields" where
  "pick ks msg = concat (map (\<lambda>k. case prop_of msg k of Some v \<Rightarrow> [(k, v)] | None \<Rightarrow> []) ks)"

definition window_event :: "fields \<Rightarrow> ws_out option" where
  "window_event msg =
     (if str_prop msg ''type'' = Some ''cluster_error''
      then Some (WindowEvent ''cluster:error'' (pick [''cluster'', ''errorCode'', ''errorMessage'', ''details'', ''recoverable''] msg))
      else if str_prop msg ''type'' = Some ''cluster_error_cleared'' then Some (WindowEvent ''cluster:error-cleared'' (pick [''cluster''] msg))
      else if str_prop msg ''type'' = Some ''vcluster_status''
      then Some (WindowEvent ''vcluster:status'' (pick [''cluster'', ''state'', ''generation'', ''localPort'', ''detail''] msg))
      else if str_prop msg ''type'' = Some ''cloud_auth_changed''
      then Some (WindowEvent ''cloud:auth-changed'' (pick [''provider''] msg @ [(''local'', JBool False)]))
      else if str_prop msg ''type'' = Some ''clusters_refreshed''
      then Some (WindowEvent ''clusters:refreshed''
             [(''clusters'', nullish (js_or (prop_of msg ''clusters'') None) (JArr [])),
              (''reason'', nullish (js_or (prop_of msg ''reason'') None) (JStr ''unknown''))])
      else None)"

text \<open>A message that is no object (or cannot be parsed) is \<open>None\<close>.\<close>

definition handleMessage :: "fields option \<Rightarrow> manager \<Rightarrow> manager" where
  "handleMessage data m =
     (let m1 = m\<lparr>mg_lastHeartbeat := mg_now m\<rparr> in
      case data of
        None \<Rightarrow> m1
      | Some msg \<Rightarrow>
          if str_prop msg ''type'' = Some ''heartbeat'' then m1
          else if str_prop msg ''type'' = Some ''error'' \<and> str_prop msg ''code'' = Some ''rate_limited'' then retryRateLimited msg m1
          else (case window_event msg of Some o' \<Rightarrow> told [o'] m1 | None \<Rightarrow> dispatchMessage msg m1))"

section \<open>Opening\<close>

definition resubscribe_topic :: "manager \<times> string list \<Rightarrow> string \<Rightarrow> manager \<times> string list" where
  "resubscribe_topic ms topic =
     (let (m, stale) = ms in
      if topic \<in> set (mg_sent m) then (m, stale)
      else if starts_with topic ''items:'' then
        (case parseItemsTopic topic of
           None \<Rightarrow> (m, stale)
         | Some p \<Rightarrow>
             if ip_cluster p \<notin> set (mg_active m) then (m, stale @ [topic])
             else
               let prefs = jm_get (mg_sortPrefs m) topic in
               (send_fresh ''subscribe'' (items_payload p (str_or (map_option fst prefs) ''age'', str_or (map_option snd prefs) ''desc'')) m, stale))
      else if starts_with topic ''counts:'' then
        (if drop 7 topic \<notin> set (mg_active m) then (m, stale @ [topic])
         else (send_fresh ''subscribe'' (counts_payload ''subscribe'' topic) m, stale))
      else (m, stale))"

definition resubscribeAllTopics :: "manager \<Rightarrow> manager" where
  "resubscribeAllTopics m =
     (let (m1, stale) = foldl resubscribe_topic (m, []) (jm_keys (mg_handlers m))
      in m1\<lparr>mg_handlers := foldl jm_delete (mg_handlers m1) stale\<rparr>)"

definition replayStreams :: "manager \<Rightarrow> manager" where
  "replayStreams m =
     foldl (\<lambda>m (key, msg). if key \<in> set (mg_sent m) then m else sendNow msg m) m (mg_replayable m)"

definition flush_message :: "manager \<Rightarrow> message \<Rightarrow> manager" where
  "flush_message m msg =
     (case starts msg of
        Some key \<Rightarrow> if key \<in> set (mg_sent m) then m else sendNow msg m
      | None \<Rightarrow> sendNow msg m)"

definition flushOutbox :: "manager \<Rightarrow> manager" where
  "flushOutbox m = foldl flush_message (m\<lparr>mg_outbox := []\<rparr>) (jm_values (mg_outbox m))"

text \<open>What the application asks of the manager, in the order it asks.\<close>

datatype request =
    Send string fields
  | ForgetReplay message
  | SubscribeItems items_parts "nat option" "string option" "string option"
  | Unsubscribe string "handler option" bool
  | SubscribeCounts string nat
  | UnsubscribeCounts string nat
  | AddHandler string nat
  | DropHandler string nat
  | RegisterCluster string
  | UnregisterCluster string

definition ask :: "manager \<Rightarrow> request \<Rightarrow> manager" where
  "ask m r =
     (case r of
        Send ty p \<Rightarrow> send_fresh ty p m
      | ForgetReplay msg \<Rightarrow> forgetReplay msg m
      | SubscribeItems p h sb so \<Rightarrow> subscribeToItems p h sb so m
      | Unsubscribe t h clearAll \<Rightarrow> unsubscribe (Some (JStr t)) h clearAll m
      | SubscribeCounts c h \<Rightarrow> subscribeToCounts c h m
      | UnsubscribeCounts c h \<Rightarrow> unsubscribeFromCounts c h m
      | AddHandler t h \<Rightarrow> add_handler t (PlainHandler h) m
      | DropHandler t h \<Rightarrow> drop_handler t (PlainHandler h) m
      | RegisterCluster c \<Rightarrow> registerActiveCluster c m
      | UnregisterCluster c \<Rightarrow> unregisterActiveCluster c m)"

text \<open>\<open>onopen\<close>; \<open>rs\<close> is what the listeners of \<open>connection:restored\<close> ask for.\<close>

definition opened_state :: "manager \<Rightarrow> manager" where
  "opened_state m =
     told [ConnectionState ''websocket'' ''connected'' None]
       (m\<lparr>mg_watchdog := False, mg_connecting := False, mg_failures := 0, mg_attempt := 0, mg_notified := False, mg_sent := [],
          mg_lastStart := [], mg_lastHeartbeat := mg_now m, mg_heartbeatCheck := True, mg_wasDisconnected := False\<rparr>)"

definition socket_opened :: "request list \<Rightarrow> manager \<Rightarrow> manager" where
  "socket_opened rs m =
     (let m1 = opened_state m;
          m2 = (if mg_wasDisconnected m then foldl ask (told [ConnectionRestored] m1) rs else m1)
      in flushOutbox (replayStreams (resubscribeAllTopics m2)))"

section \<open>Closing\<close>

definition socket_closed :: "ws_env \<Rightarrow> int \<Rightarrow> bool \<Rightarrow> manager \<Rightarrow> manager" where
  "socket_closed e code wasClean m =
     (let m1 = told [ConnectionState ''websocket'' ''disconnected'' None]
            (m\<lparr>mg_heartbeatCheck := False, mg_watchdog := False, mg_connecting := False, mg_wasDisconnected := True\<rparr>)
      in if code = 1006 \<and> \<not> wasClean then
           (let n = Suc (mg_failures m1) in
            if n \<ge> 3 then m1\<lparr>mg_failures := 0, mg_refreshing := Suc (mg_refreshing m1)\<rparr>
            else scheduleReconnect e (m1\<lparr>mg_failures := n\<rparr>))
         else scheduleReconnect e (m1\<lparr>mg_failures := 0\<rparr>))"

text \<open>\<open>refreshSessionSecret\<close> once the main process has answered, and what follows it after failed handshakes.\<close>

definition refreshSessionSecret :: "string option \<Rightarrow> manager \<Rightarrow> bool \<times> manager" where
  "refreshSessionSecret answer m = (if truthy_str answer then (True, m\<lparr>mg_secret := answer\<rparr>) else (False, m))"

definition handshake_failed :: "ws_env \<Rightarrow> string option \<Rightarrow> manager \<Rightarrow> manager" where
  "handshake_failed e answer m =
     (let (refreshed, m1) = refreshSessionSecret answer m in
      if refreshed then scheduleReconnect e m1
      else
        let m2 = (if mg_notified m1 then m1 else told [WindowEvent ''toast:error'' [(''message'', JStr ''WebSocket session failed. Restart Kanivet.'')]] (m1\<lparr>mg_notified := True\<rparr>));
            m3 = told [WindowEvent ''session:invalid'' [(''message'', JStr ''WebSocket session failed. Please restart the application.'')]] m2
        in schedule_reconnect_in RECONNECT_MAX_MS m3)"

section \<open>Timers and the window\<close>

definition lost :: "manager \<Rightarrow> manager" where
  "lost m = reconnectWebSocket (m\<lparr>mg_wasDisconnected := True\<rparr>)"

definition watchdog_fired :: "manager \<Rightarrow> manager" where
  "watchdog_fired m =
     (let m1 = m\<lparr>mg_watchdog := False\<rparr> in if mg_ws m1 \<noteq> None \<and> \<not> ws_open m1 then lost m1 else m1)"

definition heartbeat_checked :: "manager \<Rightarrow> manager" where
  "heartbeat_checked m = (if ws_open m \<and> mg_now m - mg_lastHeartbeat m > HEARTBEAT_TIMEOUT_MS then lost m else m)"

definition window_shown :: "manager \<Rightarrow> manager" where
  "window_shown m = (if \<not> ws_open m then lost m else if mg_now m - mg_lastHeartbeat m > HEARTBEAT_TIMEOUT_MS then lost m else m)"

definition window_focused :: "manager \<Rightarrow> manager" where
  "window_focused m = (if ws_open m then m else lost m)"

text \<open>The backend's health, every five seconds: a request (\<open>mg_health\<close>, \<open>mg_recover\<close>), and its answer (\<open>None\<close> when it failed).\<close>

definition health_tick :: "manager \<Rightarrow> manager" where
  "health_tick m =
     (if \<not> mg_backendReady m then (if mg_gaveUp m then m\<lparr>mg_recover := Suc (mg_recover m)\<rparr> else m)
      else if ws_open m then (if mg_backendUp m then m else told [ConnectionState ''backend'' ''connected'' None] (m\<lparr>mg_backendUp := True\<rparr>))
      else m\<lparr>mg_health := Suc (mg_health m)\<rparr>)"

definition health_answered :: "bool \<Rightarrow> manager \<Rightarrow> manager" where
  "health_answered ok m =
     (let m1 = m\<lparr>mg_health := mg_health m - 1\<rparr> in
      if ok then
        (let m2 = told [ConnectionState ''backend'' ''connected'' None] (m1\<lparr>mg_backendUp := True\<rparr>)
         in if \<not> mg_backendUp m1 \<and> \<not> ws_open m2 then reconnectWebSocket m2 else m2)
      else told [ConnectionState ''backend'' ''disconnected'' None] (m1\<lparr>mg_backendUp := False\<rparr>))"

definition mark_backend_ready :: "manager \<Rightarrow> manager" where
  "mark_backend_ready m = m\<lparr>mg_waiting := mg_waiting m @ [ReadyWaiter]\<rparr>"

definition recover_answered :: "bool \<Rightarrow> manager \<Rightarrow> manager" where
  "recover_answered ok m =
     (let m1 = m\<lparr>mg_recover := mg_recover m - 1\<rparr> in if ok then mark_backend_ready m1 else m1)"

text \<open>\<open>waitForBackend\<close>: its start, and one turn of its loop with the answer it got.\<close>

definition wait_started :: "int \<Rightarrow> manager \<Rightarrow> manager" where
  "wait_started maxWait m = told [ConnectionState ''backend'' ''connecting'' None] (m\<lparr>mg_wait := Some (mg_now m, maxWait)\<rparr>)"

definition wait_turn :: "bool \<Rightarrow> manager \<Rightarrow> manager" where
  "wait_turn ok m =
     (case mg_wait m of
        None \<Rightarrow> m
      | Some (start, maxWait) \<Rightarrow>
          if mg_now m - start < maxWait then (if ok then mark_backend_ready (m\<lparr>mg_wait := None\<rparr>) else m)
          else told [ConnectionState ''backend'' ''disconnected'' None] (m\<lparr>mg_wait := None, mg_gaveUp := True\<rparr>))"

section \<open>Steps\<close>

definition waiter_weight :: "waiter \<Rightarrow> nat" where
  "waiter_weight w = (case w of InitWaiter \<Rightarrow> 1 | ReadyWaiter \<Rightarrow> 2)"

lemma told_waiting [simp]: "mg_waiting (told os m) = mg_waiting m" "mg_secretReady (told os m) = mg_secretReady m"
  by (simp_all add: told_def)

lemma scheduleReconnect_waiting [simp]:
  "mg_waiting (scheduleReconnect e m) = mg_waiting m" "mg_secretReady (scheduleReconnect e m) = mg_secretReady m"
  by (simp_all add: scheduleReconnect_def schedule_reconnect_in_def nextReconnectDelay_def Let_def split: prod.split)

lemma open_socket_waiting [simp]:
  "mg_waiting (open_socket e m) = mg_waiting m" "mg_secretReady (open_socket e m) = mg_secretReady m"
  by (simp_all add: open_socket_def)

lemma init_waiting:
  "mg_waiting (initWebSocket m) = mg_waiting m \<or> mg_waiting (initWebSocket m) = mg_waiting m @ [InitWaiter]"
  "mg_secretReady (initWebSocket m) = mg_secretReady m"
  by (simp_all add: initWebSocket_def)

lemma mark_ready_waiting:
  "mg_waiting (mark_ready m) = mg_waiting m \<or> mg_waiting (mark_ready m) = mg_waiting m @ [InitWaiter]"
  "mg_secretReady (mark_ready m) = mg_secretReady m"
  using init_waiting [of "told [ConnectionState ''backend'' ''connected'' None] (m\<lparr>mg_backendReady := True, mg_backendUp := True\<rparr>)"]
  by (auto simp: mark_ready_def)

definition run_waiter :: "ws_env \<Rightarrow> waiter \<Rightarrow> manager \<Rightarrow> manager" where
  "run_waiter e w m = (case w of InitWaiter \<Rightarrow> open_socket e m | ReadyWaiter \<Rightarrow> mark_ready m)"

function drain :: "ws_env \<Rightarrow> manager \<Rightarrow> manager" where
  "drain e m =
     (if \<not> mg_secretReady m then m
      else case mg_waiting m of [] \<Rightarrow> m | w # ws \<Rightarrow> drain e (run_waiter e w (m\<lparr>mg_waiting := ws\<rparr>)))"
  by pat_completeness auto
termination
proof (relation "measure (\<lambda>(e, m). sum_list (map waiter_weight (mg_waiting m)))", goal_cases)
  case (2 e m w ws)
  then show ?case
    using mark_ready_waiting(1) [of "m\<lparr>mg_waiting := ws\<rparr>"]
    by (auto simp: run_waiter_def waiter_weight_def split: waiter.split)
qed simp

declare drain.simps [simp del]

datatype act =
    SecretKnown "string option"
  | SocketOpened nat "request list"
  | SocketClosing nat
  | SocketClosed nat int bool
  | SocketMessage nat "fields option"
  | ReconnectFired
  | WatchdogFired
  | HeartbeatChecked
  | RetryFired retry_timer
  | HealthTick
  | HealthAnswered bool
  | RecoverAnswered bool
  | WaitStarted int
  | WaitTurn bool
  | HandshakeAnswered "string option"
  | SecretRefreshed "string option"
  | WindowShown
  | WentOnline
  | WindowFocused
  | Asked "request list"
  | Elapsed nat

definition can_act :: "act \<Rightarrow> manager \<Rightarrow> bool" where
  "can_act a m =
     (case a of
        SecretKnown _ \<Rightarrow> \<not> mg_secretReady m
      | SocketOpened i _ \<Rightarrow> i < length (mg_sockets m) \<and> sk_ready (mg_sockets m ! i) = SockConnecting
      | SocketClosing i \<Rightarrow> i < length (mg_sockets m) \<and> sk_ready (mg_sockets m ! i) = SockOpen
      | SocketClosed i _ _ \<Rightarrow> i < length (mg_sockets m) \<and> sk_ready (mg_sockets m ! i) \<noteq> SockClosed
      | SocketMessage i _ \<Rightarrow> i < length (mg_sockets m) \<and> sk_ready (mg_sockets m ! i) = SockOpen \<and> sk_attached (mg_sockets m ! i)
      | ReconnectFired \<Rightarrow> mg_reconnect m \<noteq> None
      | WatchdogFired \<Rightarrow> mg_watchdog m
      | HeartbeatChecked \<Rightarrow> mg_heartbeatCheck m
      | RetryFired y \<Rightarrow> y \<in> set (mg_timers m)
      | HealthAnswered _ \<Rightarrow> 0 < mg_health m
      | RecoverAnswered _ \<Rightarrow> 0 < mg_recover m
      | HandshakeAnswered _ \<Rightarrow> 0 < mg_refreshing m
      | _ \<Rightarrow> True)"

definition do_act :: "ws_env \<Rightarrow> act \<Rightarrow> manager \<Rightarrow> manager" where
  "do_act e a m =
     (case a of
        SecretKnown s \<Rightarrow> m\<lparr>mg_secret := s, mg_secretReady := True\<rparr>
      | SocketOpened i rs \<Rightarrow> socket_opened rs (upd_socket i (\<lambda>s. s\<lparr>sk_ready := SockOpen\<rparr>) m)
      | SocketClosing i \<Rightarrow> upd_socket i (\<lambda>s. s\<lparr>sk_ready := SockClosing\<rparr>) m
      | SocketClosed i code clean \<Rightarrow>
          (let m1 = upd_socket i (\<lambda>s. s\<lparr>sk_ready := SockClosed\<rparr>) m
           in if sk_attached (mg_sockets m ! i) then socket_closed e code clean m1 else m1)
      | SocketMessage i data \<Rightarrow> handleMessage data m
      | ReconnectFired \<Rightarrow> initWebSocket (m\<lparr>mg_reconnect := None\<rparr>)
      | WatchdogFired \<Rightarrow> watchdog_fired m
      | HeartbeatChecked \<Rightarrow> heartbeat_checked m
      | RetryFired y \<Rightarrow> retry_fired y m
      | HealthTick \<Rightarrow> health_tick m
      | HealthAnswered ok \<Rightarrow> health_answered ok m
      | RecoverAnswered ok \<Rightarrow> recover_answered ok m
      | WaitStarted maxWait \<Rightarrow> wait_started maxWait m
      | WaitTurn ok \<Rightarrow> wait_turn ok m
      | HandshakeAnswered answer \<Rightarrow> handshake_failed e answer (m\<lparr>mg_refreshing := mg_refreshing m - 1\<rparr>)
      | SecretRefreshed answer \<Rightarrow> snd (refreshSessionSecret answer m)
      | WindowShown \<Rightarrow> window_shown m
      | WentOnline \<Rightarrow> lost m
      | WindowFocused \<Rightarrow> window_focused m
      | Asked rs \<Rightarrow> foldl ask m rs
      | Elapsed d \<Rightarrow> m\<lparr>mg_now := mg_now m + int d\<rparr>)"

definition ws_step :: "ws_env \<Rightarrow> act \<Rightarrow> manager \<Rightarrow> manager" where
  "ws_step e a m = (if can_act a m then drain e (do_act e a m) else m)"

definition ws_run :: "ws_env \<Rightarrow> act list \<Rightarrow> manager" where
  "ws_run e acts = foldl (\<lambda>m a. ws_step e a m) new_manager acts"

end
