(* ===== verification/SocketFrame.thy ===== *)
theory SocketFrame
  imports SocketSession
begin

text \<open>
  What sending and subscribing leave alone: the connection's own fields, seen through
  \<open>conn_view\<close>, change only by \<open>initWebSocket\<close>.
\<close>

definition started :: "manager \<Rightarrow> bool" where
  "started m = (\<exists>st n. ConnectionState ''websocket'' st n \<in> set (mg_out m))"

definition conn_view where
  "conn_view m = (mg_ws m, map (\<lambda>s. (sk_ready s, sk_attached s)) (mg_sockets m), mg_connecting m, mg_waiting m, mg_watchdog m,
     mg_heartbeatCheck m, mg_reconnect m, mg_refreshing m, mg_secretReady m, started m)"

named_theorems conn_frame
  \<open>operations that leave the connection's fields alone\<close>

lemma started_told: "started (told os m) \<longleftrightarrow> started m \<or> (\<exists>st n. ConnectionState ''websocket'' st n \<in> set os)"
  by (auto simp: started_def told_def)

lemma started_cong: "mg_out m = mg_out m' \<Longrightarrow> started m = started m'"
  by (simp add: started_def)

lemma conn_viewI:
  "mg_ws m' = mg_ws m \<Longrightarrow> map (\<lambda>s. (sk_ready s, sk_attached s)) (mg_sockets m') = map (\<lambda>s. (sk_ready s, sk_attached s)) (mg_sockets m)
    \<Longrightarrow> mg_connecting m' = mg_connecting m \<Longrightarrow> mg_waiting m' = mg_waiting m \<Longrightarrow> mg_watchdog m' = mg_watchdog m
    \<Longrightarrow> mg_heartbeatCheck m' = mg_heartbeatCheck m \<Longrightarrow> mg_reconnect m' = mg_reconnect m \<Longrightarrow> mg_refreshing m' = mg_refreshing m
    \<Longrightarrow> mg_secretReady m' = mg_secretReady m \<Longrightarrow> started m' = started m \<Longrightarrow> conn_view m' = conn_view m"
  by (simp add: conn_view_def)

definition sock :: "manager \<Rightarrow> nat \<Rightarrow> socket" where
  "sock m i = mg_sockets m ! i"

lemma view_parts:
  assumes "conn_view m' = conn_view m"
  shows "mg_ws m' = mg_ws m" "length (mg_sockets m') = length (mg_sockets m)"
    "i < length (mg_sockets m) \<Longrightarrow> sk_ready (sock m' i) = sk_ready (sock m i) \<and> sk_attached (sock m' i) = sk_attached (sock m i)"
    "mg_connecting m' = mg_connecting m" "mg_waiting m' = mg_waiting m" "mg_watchdog m' = mg_watchdog m"
    "mg_heartbeatCheck m' = mg_heartbeatCheck m" "mg_reconnect m' = mg_reconnect m" "mg_refreshing m' = mg_refreshing m"
    "mg_secretReady m' = mg_secretReady m" "started m' = started m"
proof -
  have socks: "map (\<lambda>s. (sk_ready s, sk_attached s)) (mg_sockets m') = map (\<lambda>s. (sk_ready s, sk_attached s)) (mg_sockets m)"
    using assms by (simp add: conn_view_def)
  show "length (mg_sockets m') = length (mg_sockets m)" using arg_cong [OF socks, of length] by simp
  then show "i < length (mg_sockets m) \<Longrightarrow> sk_ready (sock m' i) = sk_ready (sock m i) \<and> sk_attached (sock m' i) = sk_attached (sock m i)"
    using arg_cong [OF socks, of "\<lambda>xs. xs ! i"] by (simp add: sock_def)
qed (use assms in \<open>simp_all add: conn_view_def\<close>)

lemma conn_told [conn_frame]: "(\<forall>st n. ConnectionState ''websocket'' st n \<notin> set os) \<Longrightarrow> conn_view (told os m) = conn_view m"
  by (rule conn_viewI) (auto simp: started_told, simp_all add: told_def)

lemma conn_upd [conn_frame]:
  "conn_view (m\<lparr>mg_handlers := h\<rparr>) = conn_view m" "conn_view (m\<lparr>mg_sortPrefs := sp\<rparr>) = conn_view m"
  "conn_view (m\<lparr>mg_outbox := q\<rparr>) = conn_view m" "conn_view (m\<lparr>mg_outboxSeq := n\<rparr>) = conn_view m"
  "conn_view (m\<lparr>mg_replayable := rp\<rparr>) = conn_view m" "conn_view (m\<lparr>mg_sent := st\<rparr>) = conn_view m"
  "conn_view (m\<lparr>mg_lastStart := ls\<rparr>) = conn_view m" "conn_view (m\<lparr>mg_retries := rs\<rparr>) = conn_view m"
  "conn_view (m\<lparr>mg_timers := ts\<rparr>) = conn_view m" "conn_view (m\<lparr>mg_next := n\<rparr>) = conn_view m"
  "conn_view (m\<lparr>mg_active := cs\<rparr>) = conn_view m" "conn_view (m\<lparr>mg_lastHeartbeat := t\<rparr>) = conn_view m"
  "conn_view (m\<lparr>mg_now := t\<rparr>) = conn_view m" "conn_view (m\<lparr>mg_secret := se\<rparr>) = conn_view m"
  "conn_view (m\<lparr>mg_failures := n\<rparr>) = conn_view m" "conn_view (m\<lparr>mg_notified := b\<rparr>) = conn_view m"
  "conn_view (m\<lparr>mg_wasDisconnected := b\<rparr>) = conn_view m" "conn_view (m\<lparr>mg_backendUp := b\<rparr>) = conn_view m"
  "conn_view (m\<lparr>mg_backendReady := b\<rparr>) = conn_view m" "conn_view (m\<lparr>mg_gaveUp := b\<rparr>) = conn_view m"
  "conn_view (m\<lparr>mg_health := n\<rparr>) = conn_view m" "conn_view (m\<lparr>mg_recover := n\<rparr>) = conn_view m"
  "conn_view (m\<lparr>mg_wait := w\<rparr>) = conn_view m" "conn_view (m\<lparr>mg_attempt := n\<rparr>) = conn_view m"
  "conn_view (m\<lparr>mg_draws := n\<rparr>) = conn_view m"
  by (simp_all add: conn_view_def started_def)

lemma map_update_same: "f x = f (xs ! i) \<Longrightarrow> map f (xs[i := x]) = map f xs"
  by (metis list_update_id map_update)

lemma conn_socket_messages [conn_frame]: "conn_view (upd_socket i (\<lambda>s. s\<lparr>sk_messages := f s\<rparr>) m) = conn_view m"
  by (rule conn_viewI) (simp_all add: upd_socket_def started_def map_update_same)

lemma conn_sendNow [conn_frame]: "conn_view (sendNow msg m) = conn_view m"
  by (auto simp: sendNow_def conn_frame clear_retry_timer_def Let_def split: option.split message_op.split)

lemma conn_enqueue [conn_frame]: "conn_view (enqueue msg m) = conn_view m"
  by (auto simp: enqueue_def conn_frame Let_def split: option.split message_op.split)

lemma conn_note [conn_frame]: "conn_view (note_replayable msg m) = conn_view m"
  by (auto simp: note_replayable_def conn_frame split: option.split message_op.split)

lemma conn_sendWS: "conn_view (sendWS msg m) = conn_view (ensureWSReady m)"
  by (simp add: sendWS_def conn_frame Let_def)

lemma conn_forget [conn_frame]: "conn_view (forgetReplay msg m) = conn_view m"
  by (auto simp: forgetReplay_def conn_frame split: option.split)

lemma conn_retryRateLimited [conn_frame]: "conn_view (retryRateLimited msg m) = conn_view m"
  by (auto simp: retryRateLimited_def conn_frame Let_def split: option.split)

lemma conn_add_handler [conn_frame]: "conn_view (add_handler t h m) = conn_view m"
  by (simp add: add_handler_def conn_frame)

lemma conn_drop_handler [conn_frame]: "conn_view (drop_handler t h m) = conn_view m"
  by (auto simp: drop_handler_def conn_frame Let_def split: option.split)

lemma conn_deliver [conn_frame]: "conn_view (deliver hs d m) = conn_view m"
  unfolding deliver_def
  by (rule conn_told) (auto simp: handler_calls_def split: handler.splits)

lemma conn_settle [conn_frame]: "conn_view (settle_retry y m) = conn_view m"
  by (auto simp: settle_retry_def clear_retry_timer_def conn_frame Let_def split: option.split)

section \<open>Invariants of a session\<close>

text \<open>
  What an invariant of the manager has to keep over its smallest operations; it then keeps
  over everything the application can ask, every message from the backend, and the opening
  of a socket.
\<close>

locale ws_invariant =
  fixes P :: "manager \<Rightarrow> bool"
  assumes told: "(\<forall>st n. ConnectionState ''websocket'' st n \<notin> set os) \<Longrightarrow> P m \<Longrightarrow> P (told os m)"
    and send: "P m \<Longrightarrow> P (sendWS msg m)"
    and now: "P m \<Longrightarrow> P (sendNow msg m)"
    and numbered: "P m \<Longrightarrow> P (m\<lparr>mg_next := Suc (mg_next m)\<rparr>)"
    and deleted: "P m \<Longrightarrow> P (m\<lparr>mg_handlers := jm_delete (mg_handlers m) t\<rparr>)"
    and added: "P m \<Longrightarrow> P (add_handler t h m)"
    and dropped: "P m \<Longrightarrow> P (drop_handler t h m)"
    and prefs: "P m \<Longrightarrow> P (m\<lparr>mg_sortPrefs := s\<rparr>)"
    and active: "P m \<Longrightarrow> P (m\<lparr>mg_active := c\<rparr>)"
    and beat: "P m \<Longrightarrow> P (m\<lparr>mg_lastHeartbeat := n\<rparr>)"
    and forgotten: "P m \<Longrightarrow> P (m\<lparr>mg_replayable := filter F (mg_replayable m)\<rparr>)"
    and emptied: "P m \<Longrightarrow> P (m\<lparr>mg_outbox := []\<rparr>)"
    and limited: "P m \<Longrightarrow> P (retryRateLimited f m)"
    and settled: "P m \<Longrightarrow> P (settle_retry y m)"
begin

lemma fresh: "P m \<Longrightarrow> P (send_fresh ty p m)"
  by (simp add: send_fresh_def fresh_message_def send numbered)

lemma forget: "P m \<Longrightarrow> P (forgetReplay msg m)"
  by (auto simp: forgetReplay_def jm_delete_def forgotten split: option.split)

lemma fold_deleted: "P m \<Longrightarrow> P (m\<lparr>mg_handlers := foldl jm_delete (mg_handlers m) ts\<rparr>)"
proof (induction ts arbitrary: m)
  case (Cons t ts)
  show ?case using Cons.IH [OF deleted [OF Cons.prems, of t]] by simp
qed simp

lemma fold_fresh: "P m \<Longrightarrow> P (foldl (\<lambda>m t. let m1 = send_fresh ty (p t) m in m1\<lparr>mg_handlers := jm_delete (mg_handlers m1) t\<rparr>) m ts)"
  by (induction ts arbitrary: m) (simp_all add: Let_def deleted fresh)

lemma unsubscribed: "P m \<Longrightarrow> P (unsubscribe t h c m)"
  by (auto simp: unsubscribe_def Let_def fresh deleted dropped prefs split: option.split)

lemma unregistered: "P m \<Longrightarrow> P (unregisterActiveCluster c m)"
  using forgotten [OF active [of m "filter (\<lambda>x. x \<noteq> c) (mg_active m)"], of "\<lambda>(k, msg). payload_cluster msg \<noteq> Some (JStr c)"]
  by (simp add: unregisterActiveCluster_def cleanupClusterHandlers_def fold_fresh)

lemma asked: "P m \<Longrightarrow> P (ask m r)"
  by (cases r)
    (auto simp: ask_def fresh forget unsubscribed unregistered added dropped active prefs registerActiveCluster_def
      subscribeToItems_def subscribeToCounts_def unsubscribeFromCounts_def Let_def split: option.split)

lemma asked_all: "P m \<Longrightarrow> P (foldl ask m rs)"
  by (induction rs arbitrary: m) (simp_all add: asked)

lemma delivered: "P m \<Longrightarrow> P (deliver hs d m)"
  unfolding deliver_def by (rule told) (auto simp: handler_calls_def split: handler.splits)

lemma dispatched: "P m \<Longrightarrow> P (dispatchMessage msg m)"
  by (auto simp: dispatchMessage_def Let_def unsubscribed delivered split: option.split json.split)

lemma handled: "P m \<Longrightarrow> P (handleMessage d m)"
proof -
  assume p: "P m"
  have "\<forall>st n. ConnectionState ''websocket'' st n \<notin> set [o']" if "window_event msg = Some o'" for msg o'
    using that by (auto simp: window_event_def split: if_splits)
  then show ?thesis
    using told [OF _ beat [OF p]]
    by (auto simp: handleMessage_def Let_def dispatched beat limited p split: option.split)
qed

lemma retried: "P m \<Longrightarrow> P (retry_fired y m)"
  by (auto simp: retry_fired_def Let_def settled send split: option.split)

lemma resubscribe_step: "P (fst ms) \<Longrightarrow> P (fst (resubscribe_topic ms t))"
  by (auto simp: resubscribe_topic_def Let_def fresh split: prod.split option.split)

lemma resubscribed: "P m \<Longrightarrow> P (resubscribeAllTopics m)"
proof -
  have "P (fst ms) \<Longrightarrow> P (fst (foldl resubscribe_topic ms ts))" for ms ts
    by (induction ts arbitrary: ms) (simp_all add: resubscribe_step)
  from this [of "(m, [])" "jm_keys (mg_handlers m)"] show "P m \<Longrightarrow> ?thesis"
    by (cases "foldl resubscribe_topic (m, []) (jm_keys (mg_handlers m))") (simp add: resubscribeAllTopics_def fold_deleted)
qed

lemma replayed: "P m \<Longrightarrow> P (replayStreams m)"
proof -
  have "P m \<Longrightarrow> P (foldl (\<lambda>m (key, msg). if key \<in> set (mg_sent m) then m else sendNow msg m) m xs)" for m xs
    by (induction xs arbitrary: m) (auto simp: now)
  then show "P m \<Longrightarrow> ?thesis" by (simp add: replayStreams_def)
qed

lemma flushed: "P m \<Longrightarrow> P (flushOutbox m)"
proof -
  have "P m \<Longrightarrow> P (foldl flush_message m xs)" for m xs
    by (induction xs arbitrary: m) (auto simp: flush_message_def now split: option.split)
  then show "P m \<Longrightarrow> ?thesis" by (simp add: flushOutbox_def emptied)
qed

lemma opened: "P (opened_state m) \<Longrightarrow> P (socket_opened rs m)"
  using told [of "[ConnectionRestored]"]
  by (auto simp: socket_opened_def Let_def intro!: flushed replayed resubscribed asked_all)

end

text \<open>A property of the connection's view is one if \<open>initWebSocket\<close> keeps it.\<close>

locale conn_property =
  fixes P :: "manager \<Rightarrow> bool"
  assumes view: "conn_view m' = conn_view m \<Longrightarrow> P m \<Longrightarrow> P m'"
    and init: "P m \<Longrightarrow> P (initWebSocket m)"

sublocale conn_property \<subseteq> ws_invariant P
proof
  show "P m \<Longrightarrow> P (sendWS msg m)" for m msg
    by (rule view [OF conn_sendWS]) (simp add: ensureWSReady_def init)
qed (erule view [rotated], simp add: conn_frame)+

end
