(* ===== verification/SocketConn.thy ===== *)
theory SocketConn
  imports SocketFrame
begin

text \<open>
  The connection over a session that knows its secret from the start and whose sockets close
  at once: one live socket at a time, and always something that leads to the next attempt.
\<close>

section \<open>The invariant\<close>

text \<open>The socket at an index: only the manager's own is attached while it lives.\<close>

definition cell_ok :: "nat option \<Rightarrow> nat \<Rightarrow> socket \<Rightarrow> bool" where
  "cell_ok ws i s =
     (if sk_attached s then sk_ready s \<noteq> SockClosing \<and> (sk_ready s = SockClosed \<or> ws = Some i)
      else sk_ready s = SockClosing \<or> sk_ready s = SockClosed)"

definition heap_ok :: "manager \<Rightarrow> bool" where
  "heap_ok m =
     ((\<forall>i. mg_ws m = Some i \<longrightarrow> i < length (mg_sockets m) \<and> sk_attached (sock m i))
      \<and> (\<forall>i < length (mg_sockets m). cell_ok (mg_ws m) i (sock m i)))"

lemma heapI:
  assumes "\<And>i. mg_ws m = Some i \<Longrightarrow> i < length (mg_sockets m) \<and> sk_attached (sock m i)"
    and "\<And>i. i < length (mg_sockets m) \<Longrightarrow> cell_ok (mg_ws m) i (sock m i)"
  shows "heap_ok m"
  unfolding heap_ok_def using assms by blast

lemma heapD:
  assumes "heap_ok m"
  shows "mg_ws m = Some i \<Longrightarrow> i < length (mg_sockets m) \<and> sk_attached (sock m i)"
    "i < length (mg_sockets m) \<Longrightarrow> cell_ok (mg_ws m) i (sock m i)"
  using assms unfolding heap_ok_def by blast+

text \<open>Changing one socket.\<close>

lemma heap_change:
  assumes h: "heap_ok m" and len: "length (mg_sockets m') = length (mg_sockets m)"
    and other: "\<And>j. j \<noteq> i \<Longrightarrow> sock m' j = sock m j"
    and ws: "mg_ws m' = mg_ws m \<or> mg_ws m' = None \<and> mg_ws m = Some i"
    and cell: "cell_ok (mg_ws m') i (sock m' i)"
    and own: "mg_ws m' = Some i \<Longrightarrow> sk_attached (sock m' i)"
  shows "heap_ok m'"
proof (rule heapI)
  fix j assume j: "mg_ws m' = Some j"
  then have "mg_ws m = Some j" using ws by auto
  then show "j < length (mg_sockets m') \<and> sk_attached (sock m' j)"
    using heapD(1) [OF h] own other [of j] len j by (cases "j = i") auto
next
  fix j assume j: "j < length (mg_sockets m')"
  then have c: "cell_ok (mg_ws m) j (sock m j)" using heapD(2) [OF h] len by simp
  show "cell_ok (mg_ws m') j (sock m' j)"
  proof (cases "j = i")
    case True
    then show ?thesis using cell by simp
  next
    case False
    then show ?thesis using c ws other [OF False] by (auto simp: cell_ok_def split: if_splits)
  qed
qed

definition flags :: "ready_state option \<Rightarrow> bool \<Rightarrow> waiter list \<Rightarrow> bool \<Rightarrow> bool \<Rightarrow> bool" where
  "flags r connecting ws watchdog check =
     ((connecting \<longleftrightarrow> r = Some SockConnecting \<or> InitWaiter \<in> set ws)
      \<and> count_list ws InitWaiter \<le> 1
      \<and> (InitWaiter \<in> set ws \<longrightarrow> r \<noteq> Some SockOpen \<and> r \<noteq> Some SockConnecting)
      \<and> (r = Some SockConnecting \<longrightarrow> watchdog)
      \<and> (r = Some SockOpen \<longrightarrow> check))"

definition flags_ok :: "manager \<Rightarrow> bool" where
  "flags_ok m = flags (ready_of m) (mg_connecting m) (mg_waiting m) (mg_watchdog m) (mg_heartbeatCheck m)"

definition supervised :: "manager \<Rightarrow> bool" where
  "supervised m =
     (ready_of m = Some SockOpen \<or> ready_of m = Some SockConnecting \<or> InitWaiter \<in> set (mg_waiting m)
      \<or> mg_reconnect m \<noteq> None \<or> 0 < mg_refreshing m)"

definition conn_ok :: "manager \<Rightarrow> bool" where
  "conn_ok m = (mg_secretReady m \<and> heap_ok m \<and> flags_ok m \<and> (started m \<longrightarrow> supervised m))"

lemma heap_same:
  assumes "mg_ws m' = mg_ws m" "mg_sockets m' = mg_sockets m"
  shows "heap_ok m' = heap_ok m" "ready_of m' = ready_of m"
  using assms by (simp_all add: heap_ok_def ready_of_def sock_def)

lemma conn_okI:
  assumes "mg_secretReady m" "heap_ok m" "flags (ready_of m) (mg_connecting m) (mg_waiting m) (mg_watchdog m) (mg_heartbeatCheck m)"
    and "started m \<Longrightarrow> ready_of m = Some SockOpen \<or> ready_of m = Some SockConnecting \<or> InitWaiter \<in> set (mg_waiting m) \<or> mg_reconnect m \<noteq> None \<or> 0 < mg_refreshing m"
  shows "conn_ok m"
  using assms by (simp add: conn_ok_def flags_ok_def supervised_def)

lemma conn_okD:
  assumes "conn_ok m"
  shows "mg_secretReady m" "heap_ok m" "flags (ready_of m) (mg_connecting m) (mg_waiting m) (mg_watchdog m) (mg_heartbeatCheck m)"
    "started m \<Longrightarrow> ready_of m = Some SockOpen \<or> ready_of m = Some SockConnecting \<or> InitWaiter \<in> set (mg_waiting m) \<or> mg_reconnect m \<noteq> None \<or> 0 < mg_refreshing m"
  using assms by (simp_all add: conn_ok_def flags_ok_def supervised_def)

text \<open>A state with the same sockets, from the flags alone.\<close>

lemma conn_ok_same:
  assumes "conn_ok m" "mg_ws m' = mg_ws m" "mg_sockets m' = mg_sockets m" "mg_secretReady m'"
    and "flags (ready_of m) (mg_connecting m') (mg_waiting m') (mg_watchdog m') (mg_heartbeatCheck m')"
    and "started m' \<Longrightarrow> ready_of m = Some SockOpen \<or> ready_of m = Some SockConnecting \<or> InitWaiter \<in> set (mg_waiting m') \<or> mg_reconnect m' \<noteq> None \<or> 0 < mg_refreshing m'"
  shows "conn_ok m'"
  using assms(4-6) heap_same [OF assms(2,3)] conn_okD(2) [OF assms(1)] by (intro conn_okI) simp_all

lemma ready_of_sock: "ready_of m = map_option (\<lambda>i. sk_ready (sock m i)) (mg_ws m)"
  by (simp add: ready_of_def sock_def)

lemma heap_view:
  assumes "conn_view m' = conn_view m" "heap_ok m" shows "heap_ok m'"
proof (rule heapI)
  fix i assume "mg_ws m' = Some i"
  then show "i < length (mg_sockets m') \<and> sk_attached (sock m' i)"
    using view_parts(1-3) [OF assms(1)] heapD(1) [OF assms(2), of i] by simp
next
  fix i assume "i < length (mg_sockets m')"
  then show "cell_ok (mg_ws m') i (sock m' i)"
    using view_parts(1-3) [OF assms(1)] heapD(2) [OF assms(2), of i] by (simp add: cell_ok_def)
qed

lemma ready_view: "conn_view m' = conn_view m \<Longrightarrow> heap_ok m \<Longrightarrow> ready_of m' = ready_of m"
  using view_parts(1-3) [of m' m] heapD(1) [of m] by (cases "mg_ws m") (simp_all add: ready_of_sock)

lemma conn_ok_view: "conn_view m' = conn_view m \<Longrightarrow> conn_ok m \<Longrightarrow> conn_ok m'"
  using view_parts [of m' m] ready_view [of m' m] heap_view [of m' m]
  by (simp add: conn_ok_def flags_ok_def supervised_def)

lemma sock_told [simp]: "sock (told os m) i = sock m i" "mg_ws (told os m) = mg_ws m" "mg_sockets (told os m) = mg_sockets m"
  "mg_connecting (told os m) = mg_connecting m" "mg_watchdog (told os m) = mg_watchdog m" "mg_heartbeatCheck (told os m) = mg_heartbeatCheck m"
  "mg_reconnect (told os m) = mg_reconnect m" "mg_refreshing (told os m) = mg_refreshing m" "ready_of (told os m) = ready_of m"
  by (simp_all add: told_def sock_def ready_of_def)

lemma init_ok:
  assumes "conn_ok m" shows "conn_ok (initWebSocket m)"
proof (cases "mg_connecting m \<or> ready_of m = Some SockOpen \<or> ready_of m = Some SockConnecting")
  case True
  then have "initWebSocket m = m" by (auto simp: initWebSocket_def)
  with assms show ?thesis by simp
next
  case False
  define m' where "m' = m\<lparr>mg_connecting := True, mg_waiting := mg_waiting m @ [InitWaiter]\<rparr>"
  have eq: "initWebSocket m = told [ConnectionState ''websocket'' ''connecting'' None] m'"
    using False by (simp add: initWebSocket_def m'_def)
  note f = conn_okD(3) [OF assms]
  have "InitWaiter \<notin> set (mg_waiting m)" using f False by (auto simp: flags_def)
  then have "flags (ready_of m) True (mg_waiting m @ [InitWaiter]) (mg_watchdog m) (mg_heartbeatCheck m)"
    using False by (auto simp: flags_def count_list_0_iff)
  then show ?thesis
    unfolding eq using conn_okD(1) [OF assms]
    by (intro conn_ok_same [OF assms]) (simp_all add: m'_def)
qed

interpretation conn: conn_property conn_ok
  by unfold_locales (rule conn_ok_view, assumption+, rule init_ok)

section \<open>The other operations\<close>

lemma schedule_view:
  "mg_ws (scheduleReconnect e m) = mg_ws m" "mg_sockets (scheduleReconnect e m) = mg_sockets m"
  "mg_connecting (scheduleReconnect e m) = mg_connecting m" "mg_watchdog (scheduleReconnect e m) = mg_watchdog m"
  "mg_heartbeatCheck (scheduleReconnect e m) = mg_heartbeatCheck m" "mg_reconnect (scheduleReconnect e m) \<noteq> None"
  "mg_refreshing (scheduleReconnect e m) = mg_refreshing m" "sock (scheduleReconnect e m) i = sock m i"
  "ready_of (scheduleReconnect e m) = ready_of m"
  by (simp_all add: scheduleReconnect_def schedule_reconnect_in_def nextReconnectDelay_def sock_def told_def ready_of_def Let_def)

lemma heap_schedule: "heap_ok (scheduleReconnect e m) = heap_ok m"
  by (rule heap_same) (simp_all add: schedule_view)

lemma schedule_ok: "mg_secretReady m \<Longrightarrow> heap_ok m \<Longrightarrow> flags_ok m \<Longrightarrow> conn_ok (scheduleReconnect e m)"
  by (simp add: conn_ok_def heap_schedule flags_ok_def supervised_def schedule_view)

lemma open_socket_ok:
  assumes ok: "conn_ok m" and w: "mg_waiting m = InitWaiter # ws"
  shows "conn_ok (open_socket e (m\<lparr>mg_waiting := ws\<rparr>))"
proof -
  note f = conn_okD(3) [OF ok, unfolded w]
  have no: "InitWaiter \<notin> set ws" "ready_of m \<noteq> Some SockOpen" "ready_of m \<noteq> Some SockConnecting" "mg_connecting m"
    using f by (auto simp: flags_def count_list_0_iff)
  note h = conn_okD(2) [OF ok]
  show ?thesis
  proof (cases "we_throws e (length (mg_sockets m))")
    case True
    define m' where "m' = m\<lparr>mg_waiting := ws, mg_connecting := False\<rparr>"
    have "heap_ok m'" "ready_of m' = ready_of m" using h heap_same [of m' m] by (simp_all add: m'_def)
    moreover have "flags (ready_of m) False ws b c" for b c using no by (auto simp: flags_def count_list_0_iff)
    ultimately have "conn_ok (scheduleReconnect e m')"
      using conn_okD(1) [OF ok] by (intro schedule_ok) (simp_all add: flags_ok_def m'_def)
    then show ?thesis using True by (simp add: open_socket_def m'_def)
  next
    case False
    define m' where "m' = open_socket e (m\<lparr>mg_waiting := ws\<rparr>)"
    have m': "mg_ws m' = Some (length (mg_sockets m))" "mg_waiting m' = ws" "mg_watchdog m'" "mg_secretReady m'" "mg_connecting m'"
      "mg_sockets m' = mg_sockets m @ [\<lparr>sk_ready = SockConnecting, sk_attached = True, sk_secret = mg_secret m, sk_messages = []\<rparr>]"
      using False no conn_okD(1) [OF ok] by (simp_all add: m'_def open_socket_def)
    have closed: "sk_ready (sock m i) \<in> {SockClosing, SockClosed}" if "i < length (mg_sockets m)" for i
      using heapD(2) [OF h that] no(2,3) by (cases "sk_ready (sock m i)") (auto simp: ready_of_sock cell_ok_def split: if_splits)
    have sock': "sock m' i = (if i = length (mg_sockets m) then \<lparr>sk_ready = SockConnecting, sk_attached = True, sk_secret = mg_secret m, sk_messages = []\<rparr> else sock m i)"
      if "i < Suc (length (mg_sockets m))" for i
      using that by (simp add: sock_def m' nth_append)
    have "heap_ok m'"
    proof (rule heapI)
      fix i assume i: "i < length (mg_sockets m')"
      then have "i < length (mg_sockets m) \<or> i = length (mg_sockets m)" by (auto simp: m'(6))
      then show "cell_ok (mg_ws m') i (sock m' i)"
      proof
        assume l: "i < length (mg_sockets m)"
        then have "sock m' i = sock m i" using sock' [of i] by simp
        then show ?thesis using heapD(2) [OF h l] closed [OF l] by (auto simp: cell_ok_def split: if_splits)
      qed (use sock' [of i] in \<open>simp add: cell_ok_def m'(1)\<close>)
    qed (use sock' in \<open>simp add: m'(1,6)\<close>)
    moreover have "ready_of m' = Some SockConnecting" by (simp add: ready_of_def m')
    ultimately show ?thesis
      unfolding m'_def [symmetric] using m' no by (intro conn_okI) (auto simp: flags_def count_list_0_iff)
  qed
qed

text \<open>A task ends with the waiting continuations.\<close>

lemma mark_ready_ok:
  assumes "conn_ok m" shows "conn_ok (mark_ready m)"
proof -
  have "conn_ok (told [ConnectionState ''backend'' ''connected'' None] (m\<lparr>mg_backendReady := True, mg_backendUp := True\<rparr>))"
    by (rule conn_ok_view [OF _ assms]) (simp add: conn_frame)
  then show ?thesis using assms by (simp add: mark_ready_def init_ok)
qed

lemma pop_ready_ok:
  assumes "conn_ok m" "mg_waiting m = ReadyWaiter # ws" shows "conn_ok (m\<lparr>mg_waiting := ws\<rparr>)"
  using conn_okD [OF assms(1)] assms(2)
  by (intro conn_ok_same [OF assms(1)]) (auto simp: flags_def started_def)

lemma drain_ok: "conn_ok m \<Longrightarrow> conn_ok (drain e m) \<and> mg_waiting (drain e m) = []"
proof (induction e m rule: drain.induct)
  case (1 e m)
  then have ready: "mg_secretReady m" by (simp add: conn_ok_def)
  show ?case
  proof (cases "mg_waiting m")
    case Nil
    then show ?thesis using "1.prems" by (simp add: drain.simps)
  next
    case (Cons w ws)
    have "conn_ok (run_waiter e w (m\<lparr>mg_waiting := ws\<rparr>))"
      using "1.prems" Cons by (cases w) (simp_all add: run_waiter_def open_socket_ok mark_ready_ok pop_ready_ok)
    then show ?thesis using "1.IH" [OF _ Cons] Cons ready by (subst (1 2) drain.simps) simp
  qed
qed

lemma upd_socket_sock [simp]:
  "mg_ws (upd_socket i f m) = mg_ws m" "length (mg_sockets (upd_socket i f m)) = length (mg_sockets m)"
  "i < length (mg_sockets m) \<Longrightarrow> sock (upd_socket i f m) j = (if j = i then f (sock m i) else sock m j)"
  by (simp_all add: upd_socket_def sock_def)

lemma reconnect_ok:
  assumes ok: "conn_ok m" and w: "mg_waiting m = []"
  shows "conn_ok (reconnectWebSocket m)"
proof -
  define m2 where "m2 = (let m1 = m\<lparr>mg_heartbeatCheck := False, mg_reconnect := None\<rparr> in
      (case mg_ws m1 of None \<Rightarrow> m1 | Some i \<Rightarrow> (upd_socket i (\<lambda>s. s\<lparr>sk_attached := False,
         sk_ready := (if sk_ready s = SockClosed then SockClosed else SockClosing)\<rparr>) m1)\<lparr>mg_ws := None\<rparr>))\<lparr>mg_connecting := False\<rparr>"
  have eq: "reconnectWebSocket m = initWebSocket m2"
    by (simp add: reconnectWebSocket_def m2_def Let_def)
  have h: "heap_ok m" "mg_secretReady m" using ok by (simp_all add: conn_ok_def)
  have m2: "mg_ws m2 = None" "mg_waiting m2 = []" "\<not> mg_connecting m2" "mg_secretReady m2"
    using w h by (simp_all add: m2_def Let_def upd_socket_def split: option.split)
  have "heap_ok m2"
  proof (cases "mg_ws m")
    case None
    then have "mg_ws m2 = mg_ws m" "mg_sockets m2 = mg_sockets m" by (simp_all add: m2_def Let_def)
    then show ?thesis using h heap_same [of m2 m] by simp
  next
    case (Some i)
    then have i: "i < length (mg_sockets m)" using heapD(1) [OF h(1)] by blast
    have len: "length (mg_sockets m2) = length (mg_sockets m)"
      by (simp add: m2_def Some Let_def upd_socket_def)
    have sock2: "sock m2 j = (if j = i then (sock m i)\<lparr>sk_attached := False,
         sk_ready := (if sk_ready (sock m i) = SockClosed then SockClosed else SockClosing)\<rparr> else sock m j)" for j
      using i by (simp add: m2_def Some Let_def upd_socket_def sock_def)
    show ?thesis
      by (rule heap_change [OF h(1) len, of i]) (simp_all add: sock2 m2(1) Some cell_ok_def)
  qed
  moreover have r: "ready_of m2 = None" by (simp add: ready_of_def m2)
  moreover have q: "initWebSocket m2 = told [ConnectionState ''websocket'' ''connecting'' None] (m2\<lparr>mg_connecting := True, mg_waiting := [InitWaiter]\<rparr>)"
    by (simp add: initWebSocket_def m2 r)
  moreover have "heap_ok (initWebSocket m2)" "ready_of (initWebSocket m2) = None"
    using \<open>heap_ok m2\<close> r heap_same [of "initWebSocket m2" m2] by (simp_all add: q)
  ultimately show ?thesis
    unfolding eq by (intro conn_okI) (simp_all add: q m2 flags_def)
qed

lemma lost_ok: "conn_ok m \<Longrightarrow> mg_waiting m = [] \<Longrightarrow> conn_ok (lost m)"
  unfolding lost_def by (rule reconnect_ok) (erule conn_ok_view [OF conn_upd(17)], simp)

lemma unwatched_ok:
  assumes "conn_ok m" "ready_of m \<noteq> Some SockConnecting" shows "conn_ok (m\<lparr>mg_watchdog := False\<rparr>)"
proof (rule conn_ok_same [OF assms(1)])
  show "flags (ready_of m) (mg_connecting (m\<lparr>mg_watchdog := False\<rparr>)) (mg_waiting (m\<lparr>mg_watchdog := False\<rparr>))
      (mg_watchdog (m\<lparr>mg_watchdog := False\<rparr>)) (mg_heartbeatCheck (m\<lparr>mg_watchdog := False\<rparr>))"
    using conn_okD(3) [OF assms(1)] assms(2) by (simp add: flags_def)
  assume "started (m\<lparr>mg_watchdog := False\<rparr>)"
  then have "started m" by (simp add: started_def)
  from conn_okD(4) [OF assms(1) this]
  show "ready_of m = Some SockOpen \<or> ready_of m = Some SockConnecting \<or> InitWaiter \<in> set (mg_waiting (m\<lparr>mg_watchdog := False\<rparr>))
    \<or> mg_reconnect (m\<lparr>mg_watchdog := False\<rparr>) \<noteq> None \<or> 0 < mg_refreshing (m\<lparr>mg_watchdog := False\<rparr>)" by simp
qed (use conn_okD(1) [OF assms(1)] in simp_all)

lemma opened_ok:
  assumes ok: "conn_ok m" and w: "mg_waiting m = []" and i: "i < length (mg_sockets m)" and c: "sk_ready (sock m i) = SockConnecting"
  shows "conn_ok (opened_state (upd_socket i (\<lambda>s. s\<lparr>sk_ready := SockOpen\<rparr>) m))" (is "conn_ok ?m")
proof -
  have h: "heap_ok m" "mg_secretReady m" using ok by (simp_all add: conn_ok_def)
  have ws: "mg_ws m = Some i" "sk_attached (sock m i)"
    using heapD(2) [OF h(1) i] c by (simp_all add: cell_ok_def split: if_splits)
  have s: "sock ?m j = (if j = i then (sock m i)\<lparr>sk_ready := SockOpen\<rparr> else sock m j)" for j
    using i by (simp add: opened_state_def upd_socket_def sock_def)
  have l: "length (mg_sockets ?m) = length (mg_sockets m)" "mg_ws ?m = Some i" "mg_waiting ?m = []" "mg_heartbeatCheck ?m" "\<not> mg_connecting ?m"
    "mg_secretReady ?m"
    using ws w h by (simp_all add: opened_state_def upd_socket_def)
  have "heap_ok ?m" by (rule heap_change [OF h(1) l(1), of i]) (simp_all add: s l(2) ws cell_ok_def)
  moreover have "ready_of ?m = Some SockOpen" unfolding ready_of_sock l s by simp
  ultimately show ?thesis using l by (intro conn_okI) (simp_all add: flags_def)
qed

lemma closed_ok:
  assumes ok: "conn_ok m" and w: "mg_waiting m = []" and i: "i < length (mg_sockets m)" and c: "sk_ready (sock m i) \<noteq> SockClosed"
    and a: "sk_attached (sock m i)"
  shows "conn_ok (socket_closed e code clean (upd_socket i (\<lambda>s. s\<lparr>sk_ready := SockClosed\<rparr>) m))"
proof -
  define m1 where "m1 = told [ConnectionState ''websocket'' ''disconnected'' None]
      ((upd_socket i (\<lambda>s. s\<lparr>sk_ready := SockClosed\<rparr>) m)\<lparr>mg_heartbeatCheck := False, mg_watchdog := False, mg_connecting := False, mg_wasDisconnected := True\<rparr>)"
  have h: "heap_ok m" "mg_secretReady m" using ok by (simp_all add: conn_ok_def)
  have ws: "mg_ws m = Some i" using heapD(2) [OF h(1) i] a c by (simp add: cell_ok_def)
  have s: "sock m1 j = (if j = i then (sock m i)\<lparr>sk_ready := SockClosed\<rparr> else sock m j)" for j
    using i by (simp add: m1_def upd_socket_def sock_def)
  have l: "length (mg_sockets m1) = length (mg_sockets m)" "mg_ws m1 = Some i" "mg_waiting m1 = []" "\<not> mg_connecting m1" "mg_secretReady m1"
    using ws w h by (simp_all add: m1_def upd_socket_def)
  have h1: "heap_ok m1" by (rule heap_change [OF h(1) l(1), of i]) (simp_all add: s l(2) ws a cell_ok_def)
  have r: "ready_of m1 = Some SockClosed" unfolding ready_of_sock l s by simp
  have fl: "flags (Some SockClosed) False [] b c" for b c by (simp add: flags_def)
  have upd: "heap_ok (m1\<lparr>mg_failures := n\<rparr>)" "ready_of (m1\<lparr>mg_failures := n\<rparr>) = Some SockClosed" for n
    using h1 r heap_same [of "m1\<lparr>mg_failures := n\<rparr>" m1] by simp_all
  have "conn_ok (m1\<lparr>mg_failures := 0, mg_refreshing := Suc (mg_refreshing m1)\<rparr>)"
    using h1 r l fl heap_same [of "m1\<lparr>mg_failures := 0, mg_refreshing := Suc (mg_refreshing m1)\<rparr>" m1]
    by (intro conn_okI ) simp_all
  moreover have "conn_ok (scheduleReconnect e (m1\<lparr>mg_failures := n\<rparr>))" for n
    using upd [of n] l fl by (intro schedule_ok) (simp_all add: flags_ok_def)
  ultimately show ?thesis
    by (simp add: socket_closed_def Let_def m1_def [symmetric])
qed

lemma detached_closed_ok:
  assumes "conn_ok m" "i < length (mg_sockets m)" "\<not> sk_attached (sock m i)"
  shows "conn_ok (upd_socket i (\<lambda>s. s\<lparr>sk_ready := SockClosed\<rparr>) m)" (is "conn_ok ?m")
proof -
  note h = conn_okD(2) [OF assms(1)]
  have ws: "mg_ws m \<noteq> Some i" using heapD(1) [OF h, of i] assms(3) by auto
  have "heap_ok ?m" by (rule heap_change [OF h, of _ i]) (use assms(2,3) ws in \<open>simp_all add: cell_ok_def\<close>)
  moreover have "ready_of ?m = ready_of m" using assms(2) ws by (cases "mg_ws m") (simp_all add: ready_of_sock)
  ultimately show ?thesis
    using conn_okD [OF assms(1)] by (intro conn_okI) (simp_all add: upd_socket_def started_def)
qed

lemma handshake_ok:
  assumes ok: "conn_ok m" shows "conn_ok (handshake_failed e answer (m\<lparr>mg_refreshing := mg_refreshing m - 1\<rparr>))"
proof -
  note d = conn_okD [OF ok]
  have upd: "mg_secretReady x \<and> heap_ok x \<and> flags_ok x"
    if "conn_view x = conn_view (m\<lparr>mg_refreshing := n\<rparr>)" for x n
  proof -
    have "heap_ok (m\<lparr>mg_refreshing := n\<rparr>)" "ready_of (m\<lparr>mg_refreshing := n\<rparr>) = ready_of m"
      using d(2) heap_same [of "m\<lparr>mg_refreshing := n\<rparr>" m] by simp_all
    then show ?thesis
      using view_parts [OF that] ready_view [OF that] heap_view [OF that] d(1,3) by (simp add: flags_ok_def)
  qed
  have inn: "conn_ok (schedule_reconnect_in t x)" if "mg_secretReady x \<and> heap_ok x \<and> flags_ok x" for t x
    using that heap_same [of "schedule_reconnect_in t x" x]
    by (intro conn_okI) (simp_all add: schedule_reconnect_in_def flags_ok_def)
  show ?thesis
  proof (cases "truthy_str answer")
    case True
    then show ?thesis
      using upd [of "m\<lparr>mg_refreshing := mg_refreshing m - 1, mg_secret := answer\<rparr>"]
      by (auto simp: handshake_failed_def refreshSessionSecret_def conn_frame intro!: schedule_ok)
  next
    case False
    then show ?thesis
      unfolding handshake_failed_def refreshSessionSecret_def
      by (auto simp: Let_def conn_frame intro!: inn upd [of _ "mg_refreshing m - 1"])
  qed
qed

section \<open>Steps\<close>

definition calm :: "act \<Rightarrow> bool" where
  "calm a = (case a of SocketClosing _ \<Rightarrow> False | _ \<Rightarrow> True)"

lemma do_act_ok:
  assumes ok: "conn_ok m" and w: "mg_waiting m = []" and a: "can_act a m" "calm a"
  shows "conn_ok (do_act e a m)"
proof (cases a)
  case (SecretKnown s)
  then show ?thesis using a ok by (simp add: can_act_def conn_ok_def)
next
  case (SocketOpened i rs)
  then show ?thesis
    using a opened_ok [OF ok w, of i] by (simp add: can_act_def do_act_def sock_def conn.opened)
next
  case (SocketClosed i code clean)
  then show ?thesis
    using a closed_ok [OF ok w, of i] detached_closed_ok [OF ok, of i] by (simp add: can_act_def do_act_def sock_def Let_def)
next
  case (SocketMessage i data)
  then show ?thesis using ok by (simp add: do_act_def conn.handled)
next
  case ReconnectFired
  have "conn_ok (initWebSocket (m\<lparr>mg_reconnect := None\<rparr>))"
  proof (cases "mg_connecting m \<or> ready_of m = Some SockOpen \<or> ready_of m = Some SockConnecting")
    case True
    then have "conn_ok (m\<lparr>mg_reconnect := None\<rparr>)"
      using conn_okD [OF ok] w by (intro conn_ok_same [OF ok]) (auto simp: flags_def)
    then show ?thesis by (rule init_ok)
  next
    case False
    define m' where "m' = initWebSocket (m\<lparr>mg_reconnect := None\<rparr>)"
    have m': "m' = told [ConnectionState ''websocket'' ''connecting'' None] (m\<lparr>mg_reconnect := None, mg_connecting := True, mg_waiting := [InitWaiter]\<rparr>)"
      using False w ready_of_def [of "m\<lparr>mg_reconnect := None\<rparr>", simplified, folded ready_of_def] by (simp add: m'_def initWebSocket_def)
    show ?thesis
      unfolding m'_def [symmetric] using conn_okD [OF ok] False w
      by (intro conn_ok_same [OF ok]) (auto simp: m' flags_def)
  qed
  then show ?thesis by (simp add: ReconnectFired do_act_def)
next
  case WatchdogFired
  have r: "ready_of (m\<lparr>mg_watchdog := False\<rparr>) = ready_of m" by (simp add: ready_of_def)
  have lw: "lost (m\<lparr>mg_watchdog := False\<rparr>) = (lost m)\<lparr>mg_watchdog := False\<rparr>"
    by (simp add: lost_def reconnectWebSocket_def initWebSocket_def ready_of_def upd_socket_def told_def Let_def split: option.split)
  show ?thesis
  proof (cases "mg_ws m = None \<or> ws_open m")
    case True
    then have "ready_of m \<noteq> Some SockConnecting" by (auto simp: ws_open_def ready_of_def)
    then have "conn_ok (m\<lparr>mg_watchdog := False\<rparr>)" by (rule unwatched_ok [OF ok])
    moreover have "do_act e a m = m\<lparr>mg_watchdog := False\<rparr>"
      using True by (auto simp: WatchdogFired do_act_def watchdog_fired_def Let_def ws_open_def r)
    ultimately show ?thesis by simp
  next
    case False
    have n: "ready_of (lost m) = None"
      by (simp add: lost_def reconnectWebSocket_def initWebSocket_def ready_of_def upd_socket_def told_def Let_def split: option.split)
    have "conn_ok ((lost m)\<lparr>mg_watchdog := False\<rparr>)"
      by (rule unwatched_ok [OF lost_ok [OF ok w]]) (simp add: n)
    moreover have "mg_ws m \<noteq> None \<and> \<not> ws_open (m\<lparr>mg_watchdog := False\<rparr>)" using False by (simp add: ws_open_def r)
    then have "do_act e a m = (lost m)\<lparr>mg_watchdog := False\<rparr>"
      by (simp only: WatchdogFired do_act_def watchdog_fired_def act.case Let_def) (simp add: lw)
    ultimately show ?thesis by simp
  qed
next
  case (HandshakeAnswered answer)
  then show ?thesis using handshake_ok [OF ok] by (simp add: do_act_def)
next
  case HeartbeatChecked
  then show ?thesis using ok lost_ok [OF ok w] by (simp add: do_act_def heartbeat_checked_def)
next
  case (RetryFired y)
  then show ?thesis using ok by (simp add: do_act_def conn.retried)
next
  case HealthTick
  have "conn_view (do_act e a m) = conn_view m"
    by (auto simp: HealthTick do_act_def health_tick_def conn_frame)
  then show ?thesis by (rule conn_ok_view [OF _ ok])
next
  case (HealthAnswered b)
  define m1 where "m1 = m\<lparr>mg_health := mg_health m - 1\<rparr>"
  have v: "conn_ok (told [ConnectionState ''backend'' s None] (m1\<lparr>mg_backendUp := u\<rparr>))" for s u
    by (rule conn_ok_view [OF _ ok]) (simp add: m1_def conn_frame)
  have "conn_ok (reconnectWebSocket (told [ConnectionState ''backend'' s None] (m1\<lparr>mg_backendUp := u\<rparr>)))" for s u
    by (rule reconnect_ok [OF v]) (simp add: m1_def w)
  note rec = this
  define up where "up = told [ConnectionState ''backend'' ''connected'' None] (m1\<lparr>mg_backendUp := True\<rparr>)"
  define down where "down = told [ConnectionState ''backend'' ''disconnected'' None] (m1\<lparr>mg_backendUp := False\<rparr>)"
  have "do_act e a m = (if b then (if \<not> mg_backendUp m1 \<and> \<not> ws_open up then reconnectWebSocket up else up) else down)"
    by (simp only: HealthAnswered do_act_def act.case health_answered_def Let_def m1_def up_def down_def)
  moreover have "conn_ok up" "conn_ok down" "conn_ok (reconnectWebSocket up)" unfolding up_def down_def by (rule v rec)+
  ultimately show ?thesis by simp
next
  case (RecoverAnswered b)
  have "conn_ok (mark_backend_ready (m\<lparr>mg_recover := n\<rparr>))" for n
    using conn_okD [OF ok] w by (intro conn_ok_same [OF ok]) (simp_all add: mark_backend_ready_def flags_def started_def)
  moreover have "conn_ok (m\<lparr>mg_recover := n\<rparr>)" for n by (rule conn_ok_view [OF _ ok]) (simp add: conn_frame)
  ultimately show ?thesis by (simp add: RecoverAnswered do_act_def recover_answered_def Let_def)
next
  case (WaitStarted d)
  have "conn_view (do_act e a m) = conn_view m" by (simp add: WaitStarted do_act_def wait_started_def conn_frame)
  then show ?thesis by (rule conn_ok_view [OF _ ok])
next
  case (WaitTurn b)
  have "conn_ok (mark_backend_ready (m\<lparr>mg_wait := n\<rparr>))" for n
    using conn_okD [OF ok] w by (intro conn_ok_same [OF ok]) (simp_all add: mark_backend_ready_def flags_def started_def)
  moreover have "conn_ok (told [ConnectionState ''backend'' ''disconnected'' None] (m\<lparr>mg_wait := None, mg_gaveUp := True\<rparr>))"
    by (rule conn_ok_view [OF _ ok]) (simp add: conn_frame)
  ultimately show ?thesis using ok by (simp add: WaitTurn do_act_def wait_turn_def split: option.split)
next
  case (SecretRefreshed s)
  have "conn_view (do_act e a m) = conn_view m" by (simp add: SecretRefreshed do_act_def refreshSessionSecret_def conn_frame)
  then show ?thesis by (rule conn_ok_view [OF _ ok])
next
  case (Asked rs)
  then show ?thesis using ok by (simp add: do_act_def conn.asked_all)
next
  case (Elapsed d)
  have "conn_view (do_act e a m) = conn_view m" by (simp add: Elapsed do_act_def conn_frame)
  then show ?thesis by (rule conn_ok_view [OF _ ok])
qed (use a lost_ok [OF ok w] ok in \<open>simp_all add: calm_def do_act_def window_shown_def window_focused_def\<close>)

lemma step_ok: "conn_ok m \<Longrightarrow> mg_waiting m = [] \<Longrightarrow> calm a \<Longrightarrow> conn_ok (ws_step e a m) \<and> mg_waiting (ws_step e a m) = []"
  by (simp add: ws_step_def drain_ok do_act_ok)

lemma run_ok:
  assumes "list_all calm acts"
  shows "conn_ok (ws_run e (SecretKnown s # acts)) \<and> mg_waiting (ws_run e (SecretKnown s # acts)) = []"
proof -
  define m0 where "m0 = ws_step e (SecretKnown s) new_manager"
  have m0: "m0 = new_manager\<lparr>mg_secret := s, mg_secretReady := True\<rparr>"
    by (simp add: m0_def ws_step_def can_act_def do_act_def new_manager_def drain.simps)
  have "conn_ok m0 \<and> mg_waiting m0 = []"
    by (simp add: m0 conn_ok_def heap_ok_def flags_ok_def flags_def ready_of_def started_def new_manager_def)
  then have "conn_ok (foldl (\<lambda>m a. ws_step e a m) m0 acts) \<and> mg_waiting (foldl (\<lambda>m a. ws_step e a m) m0 acts) = []"
    using assms by (induction acts arbitrary: m0) (simp_all add: step_ok)
  then show ?thesis by (simp add: ws_run_def m0_def)
qed

end
