(* ===== verification/SocketQueues.thy ===== *)
theory SocketQueues
  imports SocketFrame
begin

text \<open>
  The manager's queues: what was started on the connection and with which message, what to
  start again after a reconnect, what waits for the socket, and the retries of rejected
  starts. Each map's key is the one its message addresses.
\<close>

section \<open>The invariant\<close>

definition starts_ok :: "(string, message) jsmap \<Rightarrow> bool" where
  "starts_ok q = (jm_wf q \<and> (\<forall>(k, msg) \<in> set q. starts msg = Some k))"

definition outbox_ok :: "(string, message) jsmap \<Rightarrow> bool" where
  "outbox_ok q = (jm_wf q \<and> jm_size q \<le> OUTBOX_LIMIT \<and> (\<forall>(k, msg) \<in> set q. starts msg = Some k \<or> addressed msg = None))"

definition handlers_ok :: "(string, handler list) jsmap \<Rightarrow> bool" where
  "handlers_ok hs = (jm_wf hs \<and> (\<forall>(t, h) \<in> set hs. h \<noteq> [] \<and> distinct h))"

definition queues_ok :: "manager \<Rightarrow> bool" where
  "queues_ok m =
     (distinct (mg_sent m) \<and> set (mg_sent m) = set (jm_keys (mg_lastStart m)) \<and> starts_ok (mg_lastStart m)
      \<and> starts_ok (mg_replayable m) \<and> outbox_ok (mg_outbox m) \<and> handlers_ok (mg_handlers m))"

lemma queues_cong:
  "mg_sent m' = mg_sent m \<Longrightarrow> mg_lastStart m' = mg_lastStart m \<Longrightarrow> mg_replayable m' = mg_replayable m
    \<Longrightarrow> mg_outbox m' = mg_outbox m \<Longrightarrow> mg_handlers m' = mg_handlers m \<Longrightarrow> queues_ok m' = queues_ok m"
  by (simp add: queues_ok_def)

lemma starts_ok_set: "starts_ok q \<Longrightarrow> starts msg = Some k \<Longrightarrow> starts_ok (jm_set q k msg)"
  using set_jm_set [of q k msg] by (auto simp: starts_ok_def)

lemma starts_ok_filter: "starts_ok q \<Longrightarrow> starts_ok (filter F q)"
  by (simp add: starts_ok_def jm_wf_filter_pairs)

lemma starts_ok_delete: "starts_ok q \<Longrightarrow> starts_ok (jm_delete q k)"
  by (simp add: jm_delete_def starts_ok_filter)

lemma starts_addressed: "starts msg = Some k \<longleftrightarrow> addressed msg = Some (k, StartOp)"
  by (auto simp: starts_def split: option.split message_op.split)

lemma outbox_ok_delete: "outbox_ok q \<Longrightarrow> outbox_ok (jm_delete q k)"
  using order_trans [OF length_filter_le [of "\<lambda>p. fst p \<noteq> k" q]] by (auto simp: outbox_ok_def jm_delete_def jm_wf_filter_pairs jm_size_def)

lemma jm_wf_drop: "jm_wf q \<Longrightarrow> jm_wf (drop n q)"
  by (simp add: jm_wf_def jm_keys_def drop_map [symmetric])

lemma outbox_ok_put:
  assumes "outbox_ok q" "starts msg = Some k \<or> addressed msg = None"
  shows "outbox_ok (let q' = jm_set (jm_delete q k) k msg in drop (jm_size q' - OUTBOX_LIMIT) q')"
proof -
  have "jm_wf (jm_set (jm_delete q k) k msg)" using assms(1) by (simp add: outbox_ok_def)
  moreover have "starts msg' = Some k' \<or> addressed msg' = None" if m: "(k', msg') \<in> set (jm_set (jm_delete q k) k msg)" for k' msg'
  proof -
    have "(k', msg') = (k, msg) \<or> (k', msg') \<in> set q" using set_jm_set [of "jm_delete q k" k msg] m by (auto simp: jm_delete_def)
    then show ?thesis using assms by (auto simp: outbox_ok_def)
  qed
  ultimately show ?thesis
    by (fastforce simp: outbox_ok_def Let_def jm_wf_drop jm_size_def dest: in_set_dropD)
qed

lemma handlers_ok_delete: "handlers_ok hs \<Longrightarrow> handlers_ok (jm_delete hs t)"
  by (simp add: handlers_ok_def jm_delete_def jm_wf_filter_pairs)

lemma handlers_ok_put: "handlers_ok hs \<Longrightarrow> h \<noteq> [] \<Longrightarrow> distinct h \<Longrightarrow> handlers_ok (jm_set hs t h)"
  using set_jm_set [of hs t h] by (auto simp: handlers_ok_def)

lemma handlers_ok_get: "handlers_ok hs \<Longrightarrow> jm_get hs t = Some h \<Longrightarrow> h \<noteq> [] \<and> distinct h"
  by (auto simp: handlers_ok_def jm_get_def dest!: map_of_SomeD)

section \<open>Preservation\<close>

lemma queues_told: "queues_ok (told os m) = queues_ok m"
  by (rule queues_cong) (simp_all add: told_def)

lemma queues_init: "queues_ok (initWebSocket m) = queues_ok m"
  by (simp add: initWebSocket_def queues_told queues_cong [of "m\<lparr>mg_connecting := True, mg_waiting := mg_waiting m @ [InitWaiter]\<rparr>" m])

lemma queues_note: "queues_ok m \<Longrightarrow> queues_ok (note_replayable msg m)"
  by (auto simp: note_replayable_def queues_ok_def starts_ok_delete starts_addressed
      intro: starts_ok_set split: option.split message_op.split)

lemma queues_clear_timer: "queues_ok (clear_retry_timer t m) = queues_ok m"
  by (rule queues_cong) (simp_all add: clear_retry_timer_def)

lemma queues_socket: "queues_ok (upd_socket i f m) = queues_ok m"
  by (rule queues_cong) (simp_all add: upd_socket_def)

lemma queues_retries: "queues_ok (m\<lparr>mg_retries := r\<rparr>) = queues_ok m"
  by (rule queues_cong) simp_all

lemma queues_now:
  assumes "queues_ok m" shows "queues_ok (sendNow msg m)"
proof -
  have start: "queues_ok (m\<lparr>mg_sent := js_add (mg_sent m) k, mg_lastStart := jm_set (mg_lastStart m) k msg\<rparr>)"
    if "addressed msg = Some (k, StartOp)" for k
    using assms that starts_ok_set [of "mg_lastStart m" msg k]
    by (auto simp: queues_ok_def starts_addressed jm_keys_set jm_has_def)
  have stop: "queues_ok (m\<lparr>mg_sent := filter (\<lambda>k'. k' \<noteq> k) (mg_sent m), mg_lastStart := jm_delete (mg_lastStart m) k\<rparr>)" for k
    using assms by (auto simp: queues_ok_def starts_ok_delete jm_keys_delete)
  show ?thesis
    using assms start stop
    by (auto simp: sendNow_def queues_socket queues_retries queues_clear_timer Let_def split: option.split message_op.split)
qed

lemma queues_enqueue:
  assumes "queues_ok m" shows "queues_ok (enqueue msg m)"
proof (cases "addressed msg")
  case None
  then show ?thesis
    using assms outbox_ok_put [of "mg_outbox m" msg "CHR ''#'' # show_nat (mg_outboxSeq m)"]
    by (simp add: enqueue_def queues_ok_def Let_def)
next
  case (Some ka)
  obtain k a where ka: "ka = (k, a)" by (cases ka)
  show ?thesis
    using assms Some ka outbox_ok_put [of "mg_outbox m" msg k]
    by (cases a) (simp_all add: enqueue_def queues_ok_def starts_addressed outbox_ok_delete Let_def)
qed

lemma queues_send: "queues_ok m \<Longrightarrow> queues_ok (sendWS msg m)"
  by (simp add: sendWS_def ensureWSReady_def Let_def queues_now queues_enqueue queues_note queues_init)

lemma queues_drop_handler:
  assumes "queues_ok m" shows "queues_ok (drop_handler t h m)"
proof (cases "jm_get (mg_handlers m) t")
  case None
  then show ?thesis using assms by (simp add: drop_handler_def)
next
  case (Some hs)
  then have "distinct hs" using assms handlers_ok_get by (auto simp: queues_ok_def)
  then show ?thesis
    using assms Some by (simp add: drop_handler_def queues_ok_def Let_def handlers_ok_delete handlers_ok_put)
qed

lemma queues_add_handler:
  assumes "queues_ok m" shows "queues_ok (add_handler t h m)"
proof -
  have "distinct (nullish (jm_get (mg_handlers m) t) [])"
    using assms handlers_ok_get [of "mg_handlers m" t] by (cases "jm_get (mg_handlers m) t") (auto simp: queues_ok_def)
  moreover have "js_add xs h \<noteq> []" for xs by (auto simp: js_add_def)
  ultimately show ?thesis
    using assms by (simp add: add_handler_def queues_ok_def handlers_ok_put)
qed

interpretation queues: ws_invariant queues_ok
proof
  fix m :: manager assume ok: "queues_ok m"
  show "queues_ok (m\<lparr>mg_outbox := []\<rparr>)" using ok by (simp add: queues_ok_def outbox_ok_def jm_size_def)
  show "queues_ok (m\<lparr>mg_handlers := jm_delete (mg_handlers m) t\<rparr>)" for t
    using ok by (simp add: queues_ok_def handlers_ok_delete)
  show "queues_ok (m\<lparr>mg_replayable := filter F (mg_replayable m)\<rparr>)" for F
    using ok by (simp add: queues_ok_def starts_ok_filter)
  show "queues_ok (retryRateLimited f m)" for f
    using ok by (auto simp: retryRateLimited_def Let_def queues_retries queues_ok_def split: option.split)
  show "queues_ok (settle_retry y m)" for y
    using ok by (auto simp: settle_retry_def Let_def queues_retries queues_clear_timer split: option.split)
qed (simp_all add: queues_told queues_send queues_now queues_add_handler queues_drop_handler, simp_all add: queues_ok_def)

lemma queues_opened_state: "queues_ok m \<Longrightarrow> queues_ok (opened_state m)"
  by (simp add: opened_state_def queues_told) (simp add: queues_ok_def starts_ok_def)

section \<open>Retries\<close>

definition retries_ok :: "manager \<Rightarrow> bool" where
  "retries_ok m =
     ((\<forall>k r. jm_get (mg_retries m) k = Some r \<longrightarrow> rt_attempt r \<le> RATE_LIMIT_MAX_RETRIES)
      \<and> (\<forall>y \<in> set (mg_timers m). RATE_LIMIT_RETRY_BASE_MS \<le> ry_delay y \<and> ry_delay y \<le> RATE_LIMIT_RETRY_MAX_MS))"

lemma retries_cong: "mg_retries m' = mg_retries m \<Longrightarrow> mg_timers m' = mg_timers m \<Longrightarrow> retries_ok m' = retries_ok m"
  by (simp add: retries_ok_def)

lemma retries_told: "retries_ok (told os m) = retries_ok m"
  by (rule retries_cong) (simp_all add: told_def)

lemma retries_socket: "retries_ok (upd_socket i f m) = retries_ok m"
  by (rule retries_cong) (simp_all add: upd_socket_def)

lemma retries_clear: "retries_ok m \<Longrightarrow> retries_ok (clear_retry_timer t m)"
  by (simp add: retries_ok_def clear_retry_timer_def)

lemma retries_delete: "retries_ok m \<Longrightarrow> retries_ok (m\<lparr>mg_retries := jm_delete (mg_retries m) k\<rparr>)"
  by (simp add: retries_ok_def)

lemma retries_init: "retries_ok (initWebSocket m) = retries_ok m"
  by (rule retries_cong) (simp_all add: initWebSocket_def told_def)

lemma retries_now:
  assumes "retries_ok m" shows "retries_ok (sendNow msg m)"
proof -
  have upd: "retries_ok (m\<lparr>mg_sent := s, mg_lastStart := l\<rparr>)" for s l
    using assms by (simp add: retries_cong [of "m\<lparr>mg_sent := s, mg_lastStart := l\<rparr>" m])
  show ?thesis
    using assms upd retries_clear [OF upd] retries_delete [OF upd] retries_delete [OF retries_clear [OF upd]]
    by (auto simp: sendNow_def retries_socket Let_def split: option.split message_op.split)
qed

lemma retries_send: "retries_ok m \<Longrightarrow> retries_ok (sendWS msg m)"
proof -
  have noted: "retries_ok (note_replayable msg m) = retries_ok m" for m
    by (rule retries_cong) (auto simp: note_replayable_def split: option.split message_op.split)
  have queue: "retries_ok (enqueue msg m) = retries_ok m" for m
    by (rule retries_cong) (auto simp: enqueue_def Let_def split: option.split message_op.split)
  show "retries_ok m \<Longrightarrow> ?thesis"
    by (simp add: sendWS_def ensureWSReady_def Let_def retries_now noted queue retries_init)
qed

lemma retry_delay_bounds: "RATE_LIMIT_RETRY_BASE_MS \<le> retry_delay n \<and> retry_delay n \<le> RATE_LIMIT_RETRY_MAX_MS"
proof -
  have "(1 :: int) \<le> 2 ^ n" by simp
  then have "250 \<le> 250 * (2 :: int) ^ n" by linarith
  then show ?thesis by (simp add: retry_delay_def RATE_LIMIT_RETRY_BASE_MS_def RATE_LIMIT_RETRY_MAX_MS_def)
qed

lemma retries_limited:
  assumes ok: "retries_ok m" shows "retries_ok (retryRateLimited f m)"
proof -
  define key where "key = str_or (opt_or (str_prop f ''key'') (str_prop f ''topic'')) []"
  define r where "r = (case jm_get (mg_retries m) key of
      Some p \<Rightarrow> if mg_now m - rt_at p < RATE_LIMIT_RESET_MS then p else \<lparr>rt_attempt = 0, rt_at = mg_now m, rt_timer = None\<rparr>
    | None \<Rightarrow> \<lparr>rt_attempt = 0, rt_at = mg_now m, rt_timer = None\<rparr>)"
  have r: "rt_attempt r \<le> RATE_LIMIT_MAX_RETRIES"
    using ok by (auto simp: r_def retries_ok_def split: option.split)
  have "retries_ok (m\<lparr>mg_retries := jm_set (mg_retries m) key (r\<lparr>rt_at := mg_now m\<rparr>)\<rparr>)"
    using ok r by (simp add: retries_ok_def)
  moreover have "retries_ok (m\<lparr>mg_next := Suc (mg_next m),
      mg_timers := mg_timers m @ [\<lparr>ry_timer = mg_next m, ry_key = key, ry_message = message, ry_delay = retry_delay (rt_attempt r)\<rparr>],
      mg_retries := jm_set (mg_retries m) key (r\<lparr>rt_at := mg_now m, rt_attempt := Suc (rt_attempt r), rt_timer := Some (mg_next m)\<rparr>)\<rparr>)"
    if "\<not> rt_attempt r \<ge> RATE_LIMIT_MAX_RETRIES" for message
    using ok that retry_delay_bounds [of "rt_attempt r"] by (auto simp: retries_ok_def)
  ultimately show ?thesis
    using ok by (simp add: retryRateLimited_def Let_def key_def [symmetric] r_def [symmetric] split: option.split)
qed

lemma retries_settled:
  assumes ok: "retries_ok m" shows "retries_ok (settle_retry y m)"
proof -
  have c: "retries_ok (clear_retry_timer t m)" for t using ok by (rule retries_clear)
  then have "retries_ok ((clear_retry_timer t m)\<lparr>mg_retries := jm_set (mg_retries (clear_retry_timer t m)) k (r\<lparr>rt_timer := None\<rparr>)\<rparr>)"
    if "jm_get (mg_retries (clear_retry_timer t m)) k = Some r" for t k r
    using that by (simp add: retries_ok_def)
  with c show ?thesis by (simp add: settle_retry_def Let_def split: option.split)
qed

interpretation retries: ws_invariant retries_ok
proof
  show "retries_ok m \<Longrightarrow> retries_ok (drop_handler t h m)" for m t h
    by (subst retries_cong [of _ m]) (auto simp: drop_handler_def Let_def split: option.split)
qed (simp_all add: retries_told retries_send retries_now retries_limited retries_settled, simp_all add: add_handler_def retries_ok_def)

end
