(* ===== verification/SocketReopen.thy ===== *)
theory SocketReopen
  imports SocketQueues
begin

text \<open>
  What a new connection is asked for: after the listeners of \<open>connection:restored\<close>, each
  topic with a handler, each replayable stream and each queued start, once.
\<close>

section \<open>Starts sent in order\<close>

definition starts_of :: "message list \<Rightarrow> string list" where
  "starts_of msgs = List.map_filter starts msgs"

lemma starts_of_simps [simp]:
  "starts_of [] = []" "starts_of (xs @ ys) = starts_of xs @ starts_of ys"
  by (simp_all add: starts_of_def map_filter_def)

lemma starts_of_one: "starts_of [msg] = (case starts msg of None \<Rightarrow> [] | Some k \<Rightarrow> [k])"
  by (simp add: starts_of_def map_filter_def split: option.split)

definition open_at :: "nat \<Rightarrow> manager \<Rightarrow> bool" where
  "open_at i m = (mg_ws m = Some i \<and> i < length (mg_sockets m) \<and> sk_ready (mg_sockets m ! i) = SockOpen)"

text \<open>From \<open>m\<close> to \<open>m'\<close> only new starts, each once, went over the socket.\<close>

definition sends_starts :: "nat \<Rightarrow> manager \<Rightarrow> manager \<Rightarrow> bool" where
  "sends_starts i m m' =
     (\<exists>new. sk_messages (mg_sockets m' ! i) = sk_messages (mg_sockets m ! i) @ new \<and> open_at i m'
        \<and> distinct (starts_of new) \<and> set (starts_of new) \<inter> set (mg_sent m) = {}
        \<and> set (mg_sent m') = set (mg_sent m) \<union> set (starts_of new))"

lemma sends_starts_refl: "open_at i m \<Longrightarrow> mg_ws m' = mg_ws m \<Longrightarrow> mg_sockets m' = mg_sockets m \<Longrightarrow> mg_sent m' = mg_sent m \<Longrightarrow> sends_starts i m m'"
  by (auto simp: sends_starts_def open_at_def intro!: exI [of _ "[]"])

lemma sends_starts_trans:
  assumes "sends_starts i a b" "sends_starts i b c" shows "sends_starts i a c"
proof -
  obtain x where x: "sk_messages (mg_sockets b ! i) = sk_messages (mg_sockets a ! i) @ x" "distinct (starts_of x)"
    "set (starts_of x) \<inter> set (mg_sent a) = {}" "set (mg_sent b) = set (mg_sent a) \<union> set (starts_of x)"
    using assms(1) by (auto simp: sends_starts_def)
  obtain y where y: "sk_messages (mg_sockets c ! i) = sk_messages (mg_sockets b ! i) @ y" "open_at i c" "distinct (starts_of y)"
    "set (starts_of y) \<inter> set (mg_sent b) = {}" "set (mg_sent c) = set (mg_sent b) \<union> set (starts_of y)"
    using assms(2) by (auto simp: sends_starts_def)
  show ?thesis
    unfolding sends_starts_def using x y by (intro exI [of _ "x @ y"]) auto
qed

lemma sends_starts_open: "sends_starts i m m' \<Longrightarrow> open_at i m'"
  by (auto simp: sends_starts_def)

lemma sends_starts_sent: "sends_starts i m m' \<Longrightarrow> set (mg_sent m) \<subseteq> set (mg_sent m')"
  by (auto simp: sends_starts_def)

lemma sendNow_starts:
  assumes o: "open_at i m" and s: "addressed msg = None \<or> (\<exists>k. starts msg = Some k \<and> k \<notin> set (mg_sent m))"
  shows "sends_starts i m (sendNow msg m)" "starts msg = Some k \<Longrightarrow> k \<in> set (mg_sent (sendNow msg m))"
proof -
  have w: "mg_ws m = Some i" "i < length (mg_sockets m)" "sk_ready (mg_sockets m ! i) = SockOpen"
    using o by (simp_all add: open_at_def)
  show "sends_starts i m (sendNow msg m)"
  proof (cases "addressed msg")
    case None
    then have "starts_of [msg] = []" by (simp add: starts_of_one starts_def)
    then show ?thesis
      unfolding sends_starts_def using w None
      by (intro exI [of _ "[msg]"]) (simp add: sendNow_def upd_socket_def open_at_def)
  next
    case (Some a)
    then obtain k where k: "addressed msg = Some (k, StartOp)" "k \<notin> set (mg_sent m)" using s by (auto simp: starts_addressed)
    then have "starts_of [msg] = [k]" by (simp add: starts_of_one starts_def)
    then show ?thesis
      unfolding sends_starts_def using w k
      by (intro exI [of _ "[msg]"]) (auto simp: sendNow_def upd_socket_def open_at_def)
  qed
  show "k \<in> set (mg_sent (sendNow msg m))" if "starts msg = Some k"
    using that w by (simp add: starts_addressed sendNow_def upd_socket_def)
qed

section \<open>Topics\<close>

lemma send_open: "open_at i m \<Longrightarrow> sendWS msg m = sendNow msg (note_replayable msg m)"
proof -
  have "ws_open (note_replayable msg m) = ws_open m"
    by (auto simp: note_replayable_def ws_open_def ready_of_def split: option.split message_op.split)
  then show "open_at i m \<Longrightarrow> ?thesis"
    by (simp add: sendWS_def ensureWSReady_def ws_open_def ready_of_def open_at_def Let_def)
qed

text \<open>What the listed steps keep: the handlers, the queue, the active clusters.\<close>

definition same_wants :: "manager \<Rightarrow> manager \<Rightarrow> bool" where
  "same_wants m m' = (mg_handlers m' = mg_handlers m \<and> mg_outbox m' = mg_outbox m \<and> mg_active m' = mg_active m
     \<and> mg_replayable m' = mg_replayable m)"

lemma same_wants_trans: "same_wants a b \<Longrightarrow> same_wants b c \<Longrightarrow> same_wants a c"
  by (simp add: same_wants_def)

lemma same_wants_now: "same_wants m (sendNow msg m)"
  by (auto simp: same_wants_def sendNow_def upd_socket_def clear_retry_timer_def Let_def split: option.split message_op.split)

definition wants_topic :: "manager \<Rightarrow> string \<Rightarrow> bool" where
  "wants_topic m topic =
     (if starts_with topic ''items:'' then
        (case parseItemsTopic topic of Some p \<Rightarrow> ip_cluster p \<in> set (mg_active m) | None \<Rightarrow> False)
      else starts_with topic ''counts:'' \<and> drop 7 topic \<in> set (mg_active m))"

lemma in_text_str [simp]: "in_text (Some (JStr s)) = s"
  by (simp add: in_text_def)

lemma or_empty_str [simp]: "or_empty (Some (JStr s)) = s"
  by (simp add: or_empty_def json_truthy_def)

lemma starts_with_ne: "starts_with t (c # s) \<Longrightarrow> t \<noteq> []"
  by (cases t) auto

lemma items_start:
  assumes "parseItemsTopic t = Some p"
  shows "addressed \<lparr>ms_obj = n, ms_type = Some ''subscribe'', ms_payload = Some (items_payload p prefs)\<rparr> = Some (t, StartOp)"
proof -
  have "t \<noteq> []" using assms starts_with_ne [of t] by (auto simp: parseItemsTopic_def split: if_splits)
  then show ?thesis
    using parse_items_topicD [OF assms]
    by (simp add: addressed_def classifyMessage_def subscribe_info_def str_prop_def prop_of_def items_payload_def)
qed

lemma counts_start:
  assumes "starts_with t ''counts:''"
  shows "addressed \<lparr>ms_obj = n, ms_type = Some ''subscribe'', ms_payload = Some (counts_payload a t)\<rparr> = Some (t, StartOp)"
  using starts_with_ne [OF assms]
  by (simp add: addressed_def classifyMessage_def subscribe_info_def str_prop_def prop_of_def counts_payload_def)

lemma send_fresh_starts:
  assumes o: "open_at i m" and k: "\<And>n. addressed \<lparr>ms_obj = n, ms_type = Some ''subscribe'', ms_payload = Some p\<rparr> = Some (k, StartOp)"
    and new: "k \<notin> set (mg_sent m)"
  shows "sends_starts i m (send_fresh ''subscribe'' p m)" "k \<in> set (mg_sent (send_fresh ''subscribe'' p m))"
    "same_wants m (send_fresh ''subscribe'' p m)"
proof -
  define msg where "msg = \<lparr>ms_obj = mg_next m, ms_type = Some ''subscribe'', ms_payload = Some p\<rparr>"
  define m1 where "m1 = m\<lparr>mg_next := Suc (mg_next m)\<rparr>"
  have o1: "open_at i m1" using o by (simp add: open_at_def m1_def)
  have n: "note_replayable msg m1 = m1"
    by (simp add: note_replayable_def msg_def k REPLAYABLE_TYPES_def)
  have eq: "send_fresh ''subscribe'' p m = sendNow msg m1"
    by (simp add: send_fresh_def fresh_message_def msg_def [symmetric] m1_def [symmetric] send_open [OF o1] n)
  have s: "starts msg = Some k" by (simp add: starts_addressed msg_def k)
  have s1: "sends_starts i m m1" by (rule sends_starts_refl [OF o]) (simp_all add: m1_def)
  have "k \<notin> set (mg_sent m1)" using new by (simp add: m1_def)
  then show "sends_starts i m (send_fresh ''subscribe'' p m)" "k \<in> set (mg_sent (send_fresh ''subscribe'' p m))"
    unfolding eq using sends_starts_trans [OF s1 sendNow_starts(1) [OF o1, of msg]] sendNow_starts(2) [OF o1, of msg] s by auto
  show "same_wants m (send_fresh ''subscribe'' p m)"
    unfolding eq using same_wants_now [of m1 msg] by (simp add: same_wants_def m1_def)
qed

lemma resubscribe_topic_starts:
  assumes o: "open_at i m"
  shows "sends_starts i m (fst (resubscribe_topic (m, stale) t)) \<and> same_wants m (fst (resubscribe_topic (m, stale) t))
    \<and> (wants_topic m t \<longrightarrow> t \<in> set (mg_sent (fst (resubscribe_topic (m, stale) t))))
    \<and> (set (snd (resubscribe_topic (m, stale) t)) \<subseteq> set stale \<union> {t. \<not> wants_topic m t})"
proof -
  have refl: "sends_starts i m m" "same_wants m m" using sends_starts_refl [OF o] by (simp_all add: same_wants_def)
  show ?thesis
  proof (cases "t \<in> set (mg_sent m)")
    case True
    then show ?thesis using refl by (simp add: resubscribe_topic_def)
  next
    case new: False
    show ?thesis
    proof (cases "starts_with t ''items:''")
      case items: True
      show ?thesis
      proof (cases "parseItemsTopic t")
        case None
        then show ?thesis using refl new items by (simp add: resubscribe_topic_def wants_topic_def)
      next
        case (Some p)
        show ?thesis
          using refl new items Some send_fresh_starts [OF o items_start [OF Some] new]
          by (simp add: resubscribe_topic_def wants_topic_def Let_def)
      qed
    next
      case False
      show ?thesis
        using refl new False send_fresh_starts [OF o, of "counts_payload ''subscribe'' t" t] counts_start [of t _ "''subscribe''"]
        by (simp add: resubscribe_topic_def wants_topic_def)
    qed
  qed
qed

lemma same_wants_topic: "same_wants m m' \<Longrightarrow> wants_topic m' t = wants_topic m t"
  by (auto simp: same_wants_def wants_topic_def split: option.split)

lemma resubscribe_fold_starts:
  assumes "open_at i m"
  shows "sends_starts i m (fst (foldl resubscribe_topic (m, stale) ts)) \<and> same_wants m (fst (foldl resubscribe_topic (m, stale) ts))
    \<and> (\<forall>t \<in> set ts. wants_topic m t \<longrightarrow> t \<in> set (mg_sent (fst (foldl resubscribe_topic (m, stale) ts))))
    \<and> set (snd (foldl resubscribe_topic (m, stale) ts)) \<subseteq> set stale \<union> {t. \<not> wants_topic m t}"
  using assms
proof (induction ts arbitrary: m stale)
  case Nil
  then show ?case using sends_starts_refl [OF Nil] by (simp add: same_wants_def)
next
  case (Cons t ts)
  obtain m1 stale1 where m1: "resubscribe_topic (m, stale) t = (m1, stale1)" by (cases "resubscribe_topic (m, stale) t")
  note one = resubscribe_topic_starts [OF Cons.prems, of stale t, unfolded m1 fst_conv snd_conv]
  then have "open_at i m1" using sends_starts_open by blast
  note ih = Cons.IH [OF this, of stale1]
  have w: "wants_topic m1 x = wants_topic m x" for x using one same_wants_topic by blast
  show ?case
    using one ih sends_starts_trans [of i m m1] same_wants_trans [of m m1] sends_starts_sent [of i m1]
    by (auto simp: m1 w)
qed

section \<open>The three phases\<close>

lemma resubscribed_starts:
  assumes "open_at i m"
  shows "sends_starts i m (resubscribeAllTopics m)" "mg_outbox (resubscribeAllTopics m) = mg_outbox m"
    "mg_replayable (resubscribeAllTopics m) = mg_replayable m"
    "t \<in> set (jm_keys (mg_handlers m)) \<Longrightarrow> wants_topic m t \<Longrightarrow> t \<in> set (mg_sent (resubscribeAllTopics m))"
proof -
  obtain m1 stale where f: "foldl resubscribe_topic (m, []) (jm_keys (mg_handlers m)) = (m1, stale)"
    by (cases "foldl resubscribe_topic (m, []) (jm_keys (mg_handlers m))")
  note all = resubscribe_fold_starts [OF assms, of "[]" "jm_keys (mg_handlers m)", unfolded f fst_conv]
  have eq: "resubscribeAllTopics m = m1\<lparr>mg_handlers := foldl jm_delete (mg_handlers m1) stale\<rparr>"
    by (simp add: resubscribeAllTopics_def f)
  show "sends_starts i m (resubscribeAllTopics m)"
    using all sends_starts_trans [of i m m1] sends_starts_refl [of i m1 "resubscribeAllTopics m"] sends_starts_open [of i m m1]
    by (simp add: eq)
  show "mg_outbox (resubscribeAllTopics m) = mg_outbox m" "mg_replayable (resubscribeAllTopics m) = mg_replayable m"
    "t \<in> set (jm_keys (mg_handlers m)) \<Longrightarrow> wants_topic m t \<Longrightarrow> t \<in> set (mg_sent (resubscribeAllTopics m))"
    using all by (simp_all add: eq same_wants_def)
qed

lemma replayed_starts:
  assumes "open_at i m" "starts_ok (mg_replayable m)"
  shows "sends_starts i m (replayStreams m)" "mg_outbox (replayStreams m) = mg_outbox m"
    "k \<in> set (jm_keys (mg_replayable m)) \<Longrightarrow> k \<in> set (mg_sent (replayStreams m))"
proof -
  let ?step = "\<lambda>m (key, msg). if key \<in> set (mg_sent m) then m else sendNow msg m"
  have "sends_starts i m (foldl ?step m xs) \<and> same_wants m (foldl ?step m xs) \<and> fst ` set xs \<subseteq> set (mg_sent (foldl ?step m xs))"
    if "\<forall>(k, msg) \<in> set xs. starts msg = Some k" "open_at i m" for xs m
    using that
  proof (induction xs arbitrary: m)
    case Nil
    then show ?case using sends_starts_refl [of i m m] by (simp add: same_wants_def)
  next
    case (Cons x xs)
    obtain k msg where x: "x = (k, msg)" "starts msg = Some k" using Cons.prems(1) by (cases x) auto
    define m1 where "m1 = ?step m x"
    have one: "sends_starts i m m1" "same_wants m m1" "k \<in> set (mg_sent m1)"
      using sends_starts_refl [of i m m] sendNow_starts [OF Cons.prems(2), of msg] same_wants_now [of m msg] Cons.prems(2) x
      by (auto simp: m1_def same_wants_def)
    have eq: "foldl ?step m (x # xs) = foldl ?step m1 xs" by (simp only: foldl_Cons m1_def)
    note ih = Cons.IH [of m1]
    show ?case
      unfolding eq using one ih Cons.prems(1) sends_starts_open [OF one(1)] sends_starts_trans [OF one(1)] same_wants_trans [OF one(2)]
        sends_starts_sent [of i m1 "foldl ?step m1 xs"]
      by (auto simp: x)
  qed
  note all = this [OF _ assms(1), of "mg_replayable m"]
  then show "sends_starts i m (replayStreams m)" "mg_outbox (replayStreams m) = mg_outbox m"
    "k \<in> set (jm_keys (mg_replayable m)) \<Longrightarrow> k \<in> set (mg_sent (replayStreams m))"
    using assms(2) by (auto simp: replayStreams_def starts_ok_def same_wants_def jm_keys_def)
qed

lemma flushed_starts:
  assumes "open_at i m" "outbox_ok (mg_outbox m)"
  shows "sends_starts i m (flushOutbox m)" "mg_outbox (flushOutbox m) = []"
    "k \<in> set (starts_of (jm_values (mg_outbox m))) \<Longrightarrow> k \<in> set (mg_sent (flushOutbox m))"
proof -
  have "sends_starts i m (foldl flush_message m xs) \<and> same_wants m (foldl flush_message m xs)
      \<and> set (starts_of xs) \<subseteq> set (mg_sent (foldl flush_message m xs))"
    if "\<forall>msg \<in> set xs. addressed msg = None \<or> starts msg \<noteq> None" "open_at i m" for xs m
    using that
  proof (induction xs arbitrary: m)
    case Nil
    then show ?case using sends_starts_refl [of i m m] by (simp add: same_wants_def)
  next
    case (Cons msg xs)
    define m1 where "m1 = flush_message m msg"
    have p: "addressed msg = None \<or> starts msg \<noteq> None" using Cons.prems(1) by simp
    have one: "sends_starts i m m1" "same_wants m m1" "set (starts_of [msg]) \<subseteq> set (mg_sent m1)"
    proof -
      note now = sendNow_starts [OF Cons.prems(2), of msg] same_wants_now [of m msg]
      show "sends_starts i m m1" "same_wants m m1" "set (starts_of [msg]) \<subseteq> set (mg_sent m1)"
        using sends_starts_refl [of i m m] now Cons.prems(2) p
        by (cases "starts msg"; auto simp: m1_def flush_message_def same_wants_def starts_of_one)+
    qed
    have c: "starts_of (msg # xs) = starts_of [msg] @ starts_of xs" using starts_of_simps(2) [of "[msg]" xs] by simp
    note ih = Cons.IH [of m1]
    show ?case
      using one ih Cons.prems(1) sends_starts_open [OF one(1)] sends_starts_trans [OF one(1)] same_wants_trans [OF one(2)]
        sends_starts_sent [of i m1 "foldl flush_message m1 xs"]
      by (auto simp: m1_def [symmetric] c)
  qed
  moreover have "\<forall>msg \<in> set (jm_values (mg_outbox m)). addressed msg = None \<or> starts msg \<noteq> None"
    using assms(2) by (auto simp: outbox_ok_def jm_values_def)
  moreover have "open_at i (m\<lparr>mg_outbox := []\<rparr>)" using assms(1) by (simp add: open_at_def)
  ultimately have all: "sends_starts i (m\<lparr>mg_outbox := []\<rparr>) (flushOutbox m)" "same_wants (m\<lparr>mg_outbox := []\<rparr>) (flushOutbox m)"
    "set (starts_of (jm_values (mg_outbox m))) \<subseteq> set (mg_sent (flushOutbox m))"
    unfolding flushOutbox_def by blast+
  then show "sends_starts i m (flushOutbox m)" "mg_outbox (flushOutbox m) = []"
    "k \<in> set (starts_of (jm_values (mg_outbox m))) \<Longrightarrow> k \<in> set (mg_sent (flushOutbox m))"
    by (auto simp: sends_starts_def same_wants_def)
qed

lemma reopened_starts:
  assumes "open_at i m" "queues_ok m"
  defines "m' \<equiv> flushOutbox (replayStreams (resubscribeAllTopics m))"
  shows "sends_starts i m m'" "mg_outbox m' = []"
    "set (jm_keys (mg_replayable m)) \<union> {t \<in> set (jm_keys (mg_handlers m)). wants_topic m t}
       \<union> set (starts_of (jm_values (mg_outbox m))) \<subseteq> set (mg_sent m')"
proof -
  note a = resubscribed_starts [OF assms(1)]
  have q1: "queues_ok (resubscribeAllTopics m)" by (rule queues.resubscribed [OF assms(2)])
  note o1 = sends_starts_open [OF a(1)]
  have r: "starts_ok (mg_replayable (resubscribeAllTopics m))" using q1 by (simp add: queues_ok_def)
  note b = replayed_starts [OF o1 r]
  note o2 = sends_starts_open [OF b(1)]
  have "outbox_ok (mg_outbox (replayStreams (resubscribeAllTopics m)))" using queues.replayed [OF q1] by (simp add: queues_ok_def)
  note c = flushed_starts [OF o2 this]
  show "sends_starts i m m'" unfolding m'_def by (rule sends_starts_trans [OF a(1) sends_starts_trans [OF b(1) c(1)]])
  show "mg_outbox m' = []" unfolding m'_def by (rule c(2))
  show "set (jm_keys (mg_replayable m)) \<union> {t \<in> set (jm_keys (mg_handlers m)). wants_topic m t}
       \<union> set (starts_of (jm_values (mg_outbox m))) \<subseteq> set (mg_sent m')"
    unfolding m'_def using a(2,3,4) b(2,3) c(3) subsetD [OF sends_starts_sent [OF b(1)]] subsetD [OF sends_starts_sent [OF c(1)]] by auto
qed

text \<open>The socket stays open while the listeners ask.\<close>

lemma open_view: "conn_view m' = conn_view m \<Longrightarrow> open_at i m \<Longrightarrow> open_at i m'"
  using view_parts(1,2) [of m' m] view_parts(3) [of m' m i] by (simp add: open_at_def sock_def)

interpretation opened: conn_property "open_at i"
proof
  show "conn_view m' = conn_view m \<Longrightarrow> open_at i m \<Longrightarrow> open_at i m'" for m m' by (rule open_view)
  show "open_at i m \<Longrightarrow> open_at i (initWebSocket m)" for m by (simp add: initWebSocket_def open_at_def ready_of_def)
qed

end
