(* ===== verification/SocketProps.thy ===== *)
theory SocketProps
  imports SocketConn SocketReopen
begin

text \<open>
  What a session of the backend's socket guarantees: one live socket, an attempt always under
  way, each stream asked for once per connection, bounded queues and retries; and what it does
  not: the late close of a replaced socket, the socket opened twice at startup, and the
  clusters whose names start alike.
\<close>

section \<open>The connection leaves the queues alone\<close>

definition queue_view where
  "queue_view m = (mg_sent m, mg_lastStart m, mg_replayable m, mg_outbox m, mg_handlers m, mg_retries m, mg_timers m)"

definition both_ok :: "manager \<Rightarrow> bool" where
  "both_ok m = (queues_ok m \<and> retries_ok m)"

lemma both_view: "queue_view m' = queue_view m \<Longrightarrow> both_ok m' = both_ok m"
  by (simp add: both_ok_def queue_view_def queues_ok_def retries_ok_def)

named_theorems queue_frame \<open>operations that leave the queues alone\<close>

lemma view_told [queue_frame]: "queue_view (told os m) = queue_view m"
  by (simp add: queue_view_def told_def)

lemma view_init [queue_frame]: "queue_view (initWebSocket m) = queue_view m"
  by (simp add: initWebSocket_def queue_frame) (simp add: queue_view_def)

lemma view_schedule [queue_frame]: "queue_view (scheduleReconnect e m) = queue_view m"
  by (simp add: scheduleReconnect_def schedule_reconnect_in_def nextReconnectDelay_def queue_view_def told_def Let_def)

lemma view_open [queue_frame]: "queue_view (open_socket e m) = queue_view m"
  by (simp add: open_socket_def queue_frame) (simp add: queue_view_def)

lemma view_reconnect [queue_frame]: "queue_view (reconnectWebSocket m) = queue_view m"
  by (simp add: reconnectWebSocket_def Let_def queue_frame) (simp add: queue_view_def upd_socket_def split: option.split)

lemma view_lost [queue_frame]: "queue_view (lost m) = queue_view m"
  by (simp add: lost_def queue_frame) (simp add: queue_view_def)

lemma view_mark [queue_frame]: "queue_view (mark_ready m) = queue_view m"
  by (simp add: mark_ready_def queue_frame) (simp add: queue_view_def)

lemma view_upd [queue_frame]:
  "queue_view (m\<lparr>mg_waiting := w\<rparr>) = queue_view m" "queue_view (m\<lparr>mg_health := n\<rparr>) = queue_view m"
  "queue_view (m\<lparr>mg_recover := n\<rparr>) = queue_view m" "queue_view (m\<lparr>mg_watchdog := b\<rparr>) = queue_view m"
  "queue_view (m\<lparr>mg_backendUp := b\<rparr>) = queue_view m" "queue_view (m\<lparr>mg_wait := x\<rparr>) = queue_view m"
  "queue_view (m\<lparr>mg_gaveUp := b\<rparr>) = queue_view m" "queue_view (m\<lparr>mg_now := t\<rparr>) = queue_view m"
  "queue_view (m\<lparr>mg_secret := s\<rparr>) = queue_view m" "queue_view (m\<lparr>mg_secretReady := b\<rparr>) = queue_view m"
  "queue_view (m\<lparr>mg_reconnect := r\<rparr>) = queue_view m" "queue_view (m\<lparr>mg_refreshing := n\<rparr>) = queue_view m"
  "queue_view (m\<lparr>mg_notified := b\<rparr>) = queue_view m" "queue_view (m\<lparr>mg_failures := n\<rparr>) = queue_view m"
  "queue_view (upd_socket i f m) = queue_view m"
  by (simp_all add: queue_view_def upd_socket_def)

lemma view_closed [queue_frame]: "queue_view (socket_closed e c w m) = queue_view m"
  by (simp add: socket_closed_def Let_def queue_frame) (simp add: queue_view_def told_def)

lemma view_handshake [queue_frame]: "queue_view (handshake_failed e a m) = queue_view m"
  by (auto simp: handshake_failed_def refreshSessionSecret_def schedule_reconnect_in_def Let_def queue_frame)

lemma view_drain [queue_frame]: "queue_view (drain e m) = queue_view m"
proof (induction e m rule: drain.induct)
  case (1 e m)
  then show ?case
    by (subst drain.simps) (auto simp: run_waiter_def queue_frame split: list.split waiter.split)
qed

interpretation both: ws_invariant both_ok
proof
  fix m :: manager assume "both_ok m"
  then have q: "queues_ok m" and r: "retries_ok m" by (simp_all add: both_ok_def)
  show "both_ok (told os m)" if "\<forall>st n. ConnectionState ''websocket'' st n \<notin> set os" for os
    using q r that by (simp add: both_ok_def queues.told retries.told)
  show "both_ok (sendWS msg m)" "both_ok (sendNow msg m)" "both_ok (m\<lparr>mg_next := Suc (mg_next m)\<rparr>)"
    "both_ok (m\<lparr>mg_handlers := jm_delete (mg_handlers m) t\<rparr>)" "both_ok (add_handler t h m)" "both_ok (drop_handler t h m)"
    "both_ok (m\<lparr>mg_sortPrefs := s\<rparr>)" "both_ok (m\<lparr>mg_active := c\<rparr>)" "both_ok (m\<lparr>mg_lastHeartbeat := n\<rparr>)"
    "both_ok (m\<lparr>mg_replayable := filter F (mg_replayable m)\<rparr>)" "both_ok (m\<lparr>mg_outbox := []\<rparr>)" "both_ok (retryRateLimited f m)"
    "both_ok (settle_retry y m)" for msg t h s c n F f y
    unfolding both_ok_def
    using q r by (simp_all add: queues.send retries.send queues.now retries.now queues.numbered retries.numbered queues.deleted retries.deleted
        queues.added retries.added queues.dropped retries.dropped queues.prefs retries.prefs queues.active retries.active queues.beat retries.beat
        queues.forgotten retries.forgotten queues.emptied retries.emptied queues.limited retries.limited queues.settled retries.settled)
qed

lemma both_opened_state: "both_ok m \<Longrightarrow> both_ok (opened_state m)"
proof -
  have "retries_ok (opened_state m) = retries_ok m" by (rule retries_cong) (simp_all add: opened_state_def told_def)
  then show "both_ok m \<Longrightarrow> ?thesis" by (simp add: both_ok_def queues_opened_state)
qed

lemma both_do_act:
  assumes ok: "both_ok m" shows "both_ok (do_act e a m)"
proof -
  have frame: "both_ok m'" if "queue_view m' = queue_view m" for m' using both_view [OF that] ok by simp
  show ?thesis
  proof (cases a)
    case (SocketOpened i rs)
    have "both_ok (opened_state (upd_socket i (\<lambda>s. s\<lparr>sk_ready := SockOpen\<rparr>) m))"
      by (intro both_opened_state frame) (simp add: queue_frame)
    then show ?thesis by (simp add: SocketOpened do_act_def both.opened)
  qed (auto simp: do_act_def both.handled both.retried both.asked_all ok queue_frame Let_def
      watchdog_fired_def heartbeat_checked_def window_shown_def window_focused_def health_tick_def health_answered_def
      recover_answered_def mark_backend_ready_def wait_started_def wait_turn_def refreshSessionSecret_def
      intro!: frame split: option.split)
qed

lemma both_run: "both_ok (ws_run e acts)"
proof -
  have step: "both_ok m \<Longrightarrow> both_ok (ws_step e a m)" for a m
    using both_view [OF view_drain] by (simp add: ws_step_def both_do_act)
  have "both_ok m \<Longrightarrow> both_ok (foldl (\<lambda>m a. ws_step e a m) m acts)" for m
    by (induction acts arbitrary: m) (simp_all add: step)
  moreover have "both_ok new_manager"
    by (simp add: both_ok_def queues_ok_def retries_ok_def new_manager_def starts_ok_def outbox_ok_def handlers_ok_def jm_size_def)
  ultimately show ?thesis by (simp add: ws_run_def)
qed

section \<open>One live socket, always attended\<close>


text \<open>A new attempt: one more socket, or one planned.\<close>

definition attempted :: "manager \<Rightarrow> manager \<Rightarrow> bool" where
  "attempted m m' = (length (mg_sockets m') = Suc (length (mg_sockets m)) \<or> mg_reconnect m' \<noteq> None)"

lemma drain_init:
  assumes "mg_secretReady m" "mg_waiting m = [InitWaiter]"
  shows "attempted m (drain e m)"
proof -
  have "drain e m = open_socket e (m\<lparr>mg_waiting := []\<rparr>)"
    using assms by (subst drain.simps, subst drain.simps) (simp add: run_waiter_def)
  then show ?thesis
    by (simp add: attempted_def open_socket_def scheduleReconnect_def schedule_reconnect_in_def Let_def case_prod_beta)
qed

lemma init_attempt:
  assumes "mg_secretReady m" "mg_waiting m = []" "\<not> mg_connecting m" "ready_of m \<noteq> Some SockOpen" "ready_of m \<noteq> Some SockConnecting"
  shows "attempted m (drain e (initWebSocket m))"
proof -
  have "initWebSocket m = told [ConnectionState ''websocket'' ''connecting'' None] (m\<lparr>mg_connecting := True, mg_waiting := [InitWaiter]\<rparr>)"
    using assms by (simp add: initWebSocket_def)
  then show ?thesis using drain_init [of "initWebSocket m" e] assms by (simp add: attempted_def)
qed

lemma lost_attempt:
  assumes "mg_secretReady m" "mg_waiting m = []" shows "attempted m (drain e (lost m))"
proof -
  have w: "mg_secretReady (lost m)" "mg_waiting (lost m) = [InitWaiter]" "length (mg_sockets (lost m)) = length (mg_sockets m)"
    using assms by (simp_all add: lost_def reconnectWebSocket_def initWebSocket_def ready_of_def upd_socket_def told_def Let_def split: option.split)
  from drain_init [OF w(1,2), of e] show ?thesis by (simp add: attempted_def w(3))
qed


definition example_socket_env :: ws_env where
  "example_socket_env = \<lparr>we_random = (\<lambda>_. 0), we_throws = (\<lambda>_. False)\<rparr>"

definition dashboard_start :: request where
  "dashboard_start = Send ''dashboard'' [(''action'', JStr ''start''), (''cluster'', JStr ''prod'')]"

definition dropped_run :: "act list" where
  "dropped_run = [Asked [dashboard_start], SocketOpened 0 [], SocketClosed 0 1001 True]"

definition dropped_manager :: manager where
  "dropped_manager = ws_run example_socket_env (SecretKnown None # dropped_run)"



section \<open>Streams over a reconnect\<close>

text \<open>The state in which a new connection asks for its streams: after the listeners.\<close>

definition after_listeners :: "nat \<Rightarrow> request list \<Rightarrow> manager \<Rightarrow> manager" where
  "after_listeners i rs m =
     (let m1 = upd_socket i (\<lambda>s. s\<lparr>sk_ready := SockOpen\<rparr>) m
      in if mg_wasDisconnected m then foldl ask (told [ConnectionRestored] (opened_state m1)) rs else opened_state m1)"


text \<open>A dropped session with a dashboard, a list of an open cluster and a start sent while it was down.\<close>

definition pods_parts :: items_parts where
  "pods_parts = \<lparr>ip_cluster = ''prod'', ip_group = [], ip_version = ''v1'', ip_kind = ''pods'', ip_namespace = []\<rparr>"

definition restored_run :: "act list" where
  "restored_run = [SecretKnown None, Asked [RegisterCluster ''prod'', dashboard_start, SubscribeItems pods_parts (Some 1) None None],
     SocketOpened 0 [], SocketClosed 0 1001 True, ReconnectFired,
     Asked [Send ''helm'' [(''action'', JStr ''subscribe''), (''cluster'', JStr ''prod'')]]]"


section \<open>Queues and retries\<close>

text \<open>C17: In every session the queue holds at most 500 messages, and each map of the manager is keyed by what its message starts: the queue
  (but for messages that address nothing), what was started on this connection, and what is started again on the next.\<close>

theorem socket_queues_keyed:
  assumes "m = ws_run e acts"
  shows "jm_size (mg_outbox m) \<le> OUTBOX_LIMIT \<and> distinct (jm_keys (mg_outbox m))
    \<and> (jm_get (mg_outbox m) k = Some a \<longrightarrow> starts a = Some k \<or> addressed a = None)
    \<and> (jm_get (mg_lastStart m) k = Some b \<longrightarrow> starts b = Some k)
    \<and> (jm_get (mg_replayable m) k = Some c \<longrightarrow> starts c = Some k)
    \<and> set (mg_sent m) = set (jm_keys (mg_lastStart m))"
proof -
  have "queues_ok m" using both_run [of e acts] assms by (simp add: both_ok_def)
  then show ?thesis
    by (auto simp: queues_ok_def outbox_ok_def starts_ok_def jm_wf_def jm_get_def dest!: map_of_SomeD)
qed

lemma socket_queues_keyed_witness:
  "jm_size (mg_outbox dropped_manager) \<le> 500 \<and> set (mg_sent dropped_manager) = set (jm_keys (mg_lastStart dropped_manager))"
  using socket_queues_keyed [OF dropped_manager_def] by (simp add: OUTBOX_LIMIT_def)

text \<open>A rejected start is sent again at most five times in a row, after 250 to 4,000 milliseconds; and once it was stopped, a retry
  still pending sends nothing.\<close>

lemma rejected_starts_bounded:
  assumes "m = ws_run e acts"
  shows "(jm_get (mg_retries m) k = Some r \<longrightarrow> rt_attempt r \<le> 5)
    \<and> (y \<in> set (mg_timers m) \<longrightarrow> 250 \<le> ry_delay y \<and> ry_delay y \<le> 4000)
    \<and> (jm_get (mg_lastStart m) (ry_key y) = None \<longrightarrow>
         mg_sockets (retry_fired y m) = mg_sockets m \<and> mg_outbox (retry_fired y m) = mg_outbox m)"
proof -
  have r: "retries_ok m" using both_run [of e acts] assms by (simp add: both_ok_def)
  have s: "mg_sockets (settle_retry y m) = mg_sockets m" "mg_outbox (settle_retry y m) = mg_outbox m" "mg_lastStart (settle_retry y m) = mg_lastStart m"
    by (auto simp: settle_retry_def clear_retry_timer_def Let_def split: option.split)
  show ?thesis
    using r s by (auto simp: retries_ok_def RATE_LIMIT_MAX_RETRIES_def RATE_LIMIT_RETRY_BASE_MS_def RATE_LIMIT_RETRY_MAX_MS_def
        retry_fired_def Let_def)
qed

text \<open>A rejected dashboard, asked for again, and stopped before its timer fired.\<close>

definition rejected_run :: "act list" where
  "rejected_run = [SecretKnown None, Asked [dashboard_start], SocketOpened 0 [],
     SocketMessage 0 (Some [(''type'', JStr ''error''), (''code'', JStr ''rate_limited''), (''key'', JStr ''dashboard:prod'')])]"

definition rejected_manager :: manager where
  "rejected_manager = ws_run example_socket_env rejected_run"

lemma rejected_starts_bounded_witness:
  "map ry_delay (mg_timers rejected_manager) = [250] \<and> (\<exists>y. y = hd (mg_timers rejected_manager) \<and> 250 \<le> ry_delay y \<and> ry_delay y \<le> 4000)"
proof
  show d: "map ry_delay (mg_timers rejected_manager) = [250]" by code_simp
  then have "hd (mg_timers rejected_manager) \<in> set (mg_timers rejected_manager)" by (cases "mg_timers rejected_manager") auto
  then show "\<exists>y. y = hd (mg_timers rejected_manager) \<and> 250 \<le> ry_delay y \<and> ry_delay y \<le> 4000"
    using rejected_starts_bounded [OF rejected_manager_def, of "[]" "\<lparr>rt_attempt = 0, rt_at = 0, rt_timer = None\<rparr>" "hd (mg_timers rejected_manager)"] by blast
qed

section \<open>Topics\<close>

text \<open>The topic of an item list is read back into its parts although cluster names may contain colons, any topic that can be read is the
  topic of what was read, and the subscription sent for those parts has the topic as its key.\<close>

lemma items_topic_roundtrip:
  fixes cluster :: string
  assumes "CHR '':'' \<notin> set grp \<union> set version \<union> set kind \<union> set namespace"
  defines "p \<equiv> \<lparr>ip_cluster = cluster, ip_group = grp, ip_version = version, ip_kind = kind, ip_namespace = namespace\<rparr>"
  shows "parseItemsTopic (items_topic cluster grp version kind namespace) = Some p
    \<and> classifyMessage \<lparr>ms_obj = n, ms_type = Some ''subscribe'', ms_payload = Some (items_payload p prefs)\<rparr>
        = Some (items_topic cluster grp version kind namespace, StartOp)
    \<and> (parseItemsTopic t = Some q \<longrightarrow> t = items_topic (ip_cluster q) (ip_group q) (ip_version q) (ip_kind q) (ip_namespace q))"
  using parse_items_topic [OF assms(1)] parse_items_topicD [of t q]
  by (simp add: p_def classifyMessage_def subscribe_info_def str_prop_def prop_of_def items_payload_def)

lemma items_topic_roundtrip_witness:
  "parseItemsTopic ''items:arn:aws:eks:prod:apps:v1:deployments:'' =
     Some \<lparr>ip_cluster = ''arn:aws:eks:prod'', ip_group = ''apps'', ip_version = ''v1'', ip_kind = ''deployments'', ip_namespace = []\<rparr>"
  using items_topic_roundtrip [of "''apps''" "''v1''" "''deployments''" "[]" "''arn:aws:eks:prod''"] by (simp add: items_topic_def)

section \<open>What a session does not guarantee\<close>

text \<open>C18: A socket that was closing when the next one was opened still has its handlers: its late close stops the heartbeat check of the
  live socket and arms a retry that finds the socket open, so the session goes on with nothing watching it.\<close>

theorem late_close_unwatched:
  fixes e :: ws_env and clean :: bool
  assumes "mg_ws m = Some j" "j < length (mg_sockets m)" "sk_ready (mg_sockets m ! j) = SockOpen" "mg_waiting m = []"
    and "i < length (mg_sockets m)" "i \<noteq> j" "sk_ready (mg_sockets m ! i) = SockClosing" "sk_attached (mg_sockets m ! i)"
    and "code \<noteq> 1006"
  defines "m' \<equiv> ws_step e ReconnectFired (ws_step e (SocketClosed i code clean) m)"
  shows "ready_of m' = Some SockOpen \<and> \<not> mg_heartbeatCheck m' \<and> \<not> mg_watchdog m' \<and> mg_reconnect m' = None"
proof -
  define m1 where "m1 = do_act e (SocketClosed i code clean) m"
  define m0 where "m0 = told [ConnectionState ''websocket'' ''disconnected'' None]
      ((upd_socket i (\<lambda>s. s\<lparr>sk_ready := SockClosed\<rparr>) m)\<lparr>mg_heartbeatCheck := False, mg_watchdog := False, mg_connecting := False, mg_wasDisconnected := True\<rparr>)"
  have eq: "m1 = scheduleReconnect e (m0\<lparr>mg_failures := 0\<rparr>)"
    using assms(8,9) by (simp add: m1_def do_act_def socket_closed_def m0_def Let_def)
  have r0: "ready_of (m0\<lparr>mg_failures := 0\<rparr>) = Some SockOpen"
    using assms(1-3,6) by (simp add: m0_def ready_of_def upd_socket_def told_def)
  have m0: "mg_waiting m0 = []" "\<not> mg_heartbeatCheck m0" "\<not> mg_watchdog m0" "\<not> mg_connecting m0"
    using assms(4) by (simp_all add: m0_def upd_socket_def)
  have m1: "ready_of m1 = Some SockOpen" "mg_waiting m1 = []" "\<not> mg_heartbeatCheck m1" "\<not> mg_watchdog m1" "mg_reconnect m1 \<noteq> None" "\<not> mg_connecting m1"
    unfolding eq using m0 by (simp_all add: schedule_view r0 del: not_None_eq)
  have s1: "ws_step e (SocketClosed i code clean) m = m1"
    using assms(5,7) m1(2) by (simp add: ws_step_def can_act_def m1_def [symmetric] drain.simps [of e m1])
  define m2 where "m2 = m1\<lparr>mg_reconnect := None\<rparr>"
  have m2: "ready_of m2 = Some SockOpen" "mg_waiting m2 = []" "\<not> mg_connecting m2" using m1 by (simp_all add: m2_def ready_of_def)
  have "initWebSocket m2 = m2" using m2 by (simp add: initWebSocket_def)
  then have "do_act e ReconnectFired m1 = m2" by (simp add: do_act_def m2_def [symmetric])
  then have "ws_step e ReconnectFired m1 = m2"
    using m1(5) m2(2) by (simp add: ws_step_def can_act_def drain.simps [of e m2])
  then have "m' = m2" by (simp only: m'_def s1)
  then show ?thesis using m1 m2(1) by (simp add: m2_def)
qed

text \<open>It happens: the backend starts to close the socket, and something is sent before the close ends.\<close>

definition closing_run :: "act list" where
  "closing_run = [SecretKnown None, Asked [dashboard_start], SocketOpened 0 [], SocketClosing 0, Asked [dashboard_start], SocketOpened 1 []]"

lemma late_close_unwatched_witness:
  "let m = ws_step example_socket_env ReconnectFired (ws_step example_socket_env (SocketClosed 0 1001 True) (ws_run example_socket_env closing_run))
   in ready_of m = Some SockOpen \<and> \<not> mg_heartbeatCheck m"
proof -
  define m where "m = ws_run example_socket_env closing_run"
  have "mg_ws m = Some 1" "1 < length (mg_sockets m)" "sk_ready (mg_sockets m ! 1) = SockOpen" "mg_waiting m = []"
    "0 < length (mg_sockets m)" "(0 :: nat) \<noteq> 1" "sk_ready (mg_sockets m ! 0) = SockClosing" "sk_attached (mg_sockets m ! 0)"
    unfolding m_def by code_simp+
  from late_close_unwatched [OF this, of 1001 example_socket_env True] show ?thesis by (simp add: m_def Let_def)
qed

text \<open>Before the secret is known, a send and the window's focus each begin to connect: two sockets open.\<close>

lemma startup_two_sockets:
  "map (\<lambda>s. (sk_ready s, sk_attached s)) (mg_sockets (ws_run example_socket_env
      [Asked [dashboard_start], WindowFocused, SecretKnown None, SocketOpened 0 [], SocketOpened 1 []])) = [(SockOpen, True), (SockOpen, True)]"
  by code_simp

lemma send_fresh_handlers:
  "mg_handlers (send_fresh ty p m) = mg_handlers m \<and> mg_active (send_fresh ty p m) = mg_active m"
proof -
  have now: "mg_handlers (sendNow msg m) = mg_handlers m \<and> mg_active (sendNow msg m) = mg_active m" for msg m
    using same_wants_now [of m msg] by (simp add: same_wants_def)
  have "mg_handlers (initWebSocket m) = mg_handlers m \<and> mg_active (initWebSocket m) = mg_active m" for m
    by (simp add: initWebSocket_def told_def)
  moreover have "mg_handlers (note_replayable msg m) = mg_handlers m \<and> mg_active (note_replayable msg m) = mg_active m" for msg m
    by (auto simp: note_replayable_def split: option.split message_op.split)
  moreover have "mg_handlers (enqueue msg m) = mg_handlers m \<and> mg_active (enqueue msg m) = mg_active m" for msg m
    by (auto simp: enqueue_def Let_def split: option.split message_op.split)
  ultimately show ?thesis
    by (simp add: send_fresh_def fresh_message_def sendWS_def ensureWSReady_def now Let_def)
qed

lemma cleanup_handlers:
  "mg_handlers (cleanupClusterHandlers c m) = foldl jm_delete (mg_handlers m) (filter (cluster_topic c) (jm_keys (mg_handlers m)))
    \<and> mg_active (cleanupClusterHandlers c m) = mg_active m"
proof -
  let ?f = "\<lambda>m topic. let m1 = send_fresh ''unsubscribe'' [(''topic'', JStr topic)] m
                      in m1\<lparr>mg_handlers := jm_delete (mg_handlers m1) topic\<rparr>"
  have "mg_handlers (foldl ?f m ts) = foldl jm_delete (mg_handlers m) ts \<and> mg_active (foldl ?f m ts) = mg_active m" for m ts
    by (induction ts arbitrary: m) (simp_all add: Let_def send_fresh_handlers)
  then show ?thesis by (simp add: cleanupClusterHandlers_def)
qed

lemma foldl_jm_delete_get: "jm_get (foldl jm_delete q ks) k = (if k \<in> set ks then None else jm_get q k)"
  by (induction ks arbitrary: q) auto

text \<open>Closing a cluster drops its own handlers, and those of any open cluster whose name begins with its name and a colon: their lists
  get no more events.\<close>

lemma closed_prefix_drops_others:
  assumes "jm_get (mg_handlers m) (items_topic (c @ '':'' @ d) g v k n) = Some hs" "c @ '':'' @ d \<in> set (mg_active m)"
  defines "m' \<equiv> unregisterActiveCluster c m"
  shows "jm_get (mg_handlers m') (items_topic (c @ '':'' @ d) g v k n) = None \<and> jm_get (mg_handlers m') (items_topic c g v k n) = None
    \<and> c @ '':'' @ d \<in> set (mg_active m')"
proof -
  have p: "cluster_topic c (items_topic (c @ '':'' @ d) g v k n)" "cluster_topic c (items_topic c g v k n)"
    by (auto simp: cluster_topic_def items_topic_def starts_with_iff)
  have h: "jm_has (mg_handlers m) (items_topic (c @ '':'' @ d) g v k n)" using assms(1) by (simp add: jm_has_get)
  have "jm_get (mg_handlers m') t = None" if "cluster_topic c t" for t
    using that by (cases "jm_has (mg_handlers m) t")
      (auto simp: m'_def unregisterActiveCluster_def cleanup_handlers foldl_jm_delete_get jm_has_def jm_has_get [unfolded jm_has_def])
  moreover have "c @ '':'' @ d \<in> set (mg_active m')"
    using assms(2) by (simp add: m'_def unregisterActiveCluster_def cleanup_handlers)
  ultimately show ?thesis using p by blast
qed

definition two_clusters :: manager where
  "two_clusters = ws_run example_socket_env [SecretKnown None, Asked [RegisterCluster ''dev'', RegisterCluster ''dev:eu'',
     SubscribeItems (pods_parts\<lparr>ip_cluster := ''dev:eu''\<rparr>) (Some 1) None None]]"

lemma closed_prefix_drops_others_witness:
  "jm_get (mg_handlers two_clusters) ''items:dev:eu::v1:pods:'' = Some [PlainHandler 1]
   \<and> jm_get (mg_handlers (unregisterActiveCluster ''dev'' two_clusters)) ''items:dev:eu::v1:pods:'' = None"
proof
  show h: "jm_get (mg_handlers two_clusters) ''items:dev:eu::v1:pods:'' = Some [PlainHandler 1]" by code_simp
  have a: "''dev:eu'' \<in> set (mg_active two_clusters)" by code_simp
  show "jm_get (mg_handlers (unregisterActiveCluster ''dev'' two_clusters)) ''items:dev:eu::v1:pods:'' = None"
    using closed_prefix_drops_others [of two_clusters "''dev''" "''eu''" "[]" "''v1''" "''pods''" "[]"] h a by (simp add: items_topic_def)
qed

end
