(* ===== verification/TopologyGraph.thy ===== *)
theory TopologyGraph
  imports JsMap
begin

text \<open>
  The graph of the topology view (\<open>components/topology/graphModel.ts\<close>): the nodes and edges
  the backend sends, what the client knows of them after merging responses, and the nodes
  that are visible from a focus given the nodes the user expanded. The visible set is the
  set of nodes reachable through expanded ones.
\<close>

section \<open>Data\<close>

datatype health = HHealthy | HWarning | HError | HUnknown

record topo_node =
  tn_id :: string
  tn_group :: string
  tn_version :: string
  tn_kind :: string
  tn_namespace :: "string option"
  tn_name :: string
  tn_uid :: "string option"
  tn_health :: health
  tn_status :: "string option"
  tn_owner :: "string option"
  tn_missing :: bool
  tn_app :: "string option"

record topo_edge =
  te_id :: string
  te_source :: string
  te_target :: string
  te_relation :: string

record topo_graph =
  tg_nodes :: "topo_node list"
  tg_edges :: "topo_edge list"
  tg_focus :: "string option"
  tg_truncated :: bool
  tg_warnings :: "string list"

record known_graph =
  kn_nodes :: "(string, topo_node) jsmap"
  kn_edges :: "(string, topo_edge) jsmap"
  kn_warnings :: "string list"
  kn_truncated :: bool

definition emptyKnown :: known_graph where
  "emptyKnown = \<lparr>kn_nodes = [], kn_edges = [], kn_warnings = [], kn_truncated = False\<rparr>"

section \<open>Merging a response\<close>

definition put_nodes :: "(string, topo_node) jsmap \<Rightarrow> topo_node list \<Rightarrow> (string, topo_node) jsmap" where
  "put_nodes m ns = foldl (\<lambda>m n. jm_set m (tn_id n) n) m ns"

definition put_edges :: "(string, topo_edge) jsmap \<Rightarrow> topo_edge list \<Rightarrow> (string, topo_edge) jsmap" where
  "put_edges m es = foldl (\<lambda>m e. jm_set m (te_id e) e) m es"

text \<open>The known edges at a node the response is authoritative for that the response no longer has.\<close>

definition stale_edge :: "topo_graph \<Rightarrow> string list \<Rightarrow> string \<times> topo_edge \<Rightarrow> bool" where
  "stale_edge g auth p =
     ((te_source (snd p) \<in> set auth \<or> te_target (snd p) \<in> set auth)
      \<and> fst p \<notin> set (map te_id (tg_edges g)))"

definition touched_ids :: "(string, topo_edge) jsmap \<Rightarrow> string list" where
  "touched_ids edges = foldl (\<lambda>s e. js_add (js_add s (te_source e)) (te_target e)) [] (jm_values edges)"

definition orphan_node :: "topo_graph \<Rightarrow> string list \<Rightarrow> (string, topo_edge) jsmap \<Rightarrow> string \<Rightarrow> bool" where
  "orphan_node g auth edges k =
     (k \<notin> set (map tn_id (tg_nodes g)) \<and> k \<notin> set (touched_ids edges) \<and> k \<notin> set auth)"

definition mergeGraph :: "known_graph \<Rightarrow> topo_graph \<Rightarrow> string list option \<Rightarrow> known_graph" where
  "mergeGraph known g authoritativeFor =
     (let edges0 = (case authoritativeFor of None \<Rightarrow> kn_edges known
                    | Some auth \<Rightarrow> filter (\<lambda>p. \<not> stale_edge g auth p) (kn_edges known));
          nodes = put_nodes (kn_nodes known) (tg_nodes g);
          edges = put_edges edges0 (tg_edges g);
          nodes' = (case authoritativeFor of None \<Rightarrow> nodes
                    | Some auth \<Rightarrow> filter (\<lambda>p. \<not> orphan_node g auth edges (fst p)) nodes)
      in \<lparr>kn_nodes = nodes', kn_edges = edges, kn_warnings = js_set_of (tg_warnings g),
          kn_truncated = (kn_truncated known \<or> tg_truncated g)\<rparr>)"

definition knownFrom :: "topo_graph \<Rightarrow> known_graph" where
  "knownFrom g = mergeGraph emptyKnown g None"

section \<open>What is visible from a focus\<close>

definition adj_add :: "(string, string list) jsmap \<Rightarrow> string \<Rightarrow> string \<Rightarrow> (string, string list) jsmap" where
  "adj_add adj a b = jm_set adj a (js_add (nullish (jm_get adj a) []) b)"

definition adjacency :: "topo_edge list \<Rightarrow> (string, string list) jsmap" where
  "adjacency edges =
     foldl (\<lambda>adj e. adj_add (adj_add adj (te_source e) (te_target e)) (te_target e) (te_source e)) [] edges"

definition visit :: "known_graph \<Rightarrow> string list \<times> string list \<Rightarrow> string \<Rightarrow> string list \<times> string list" where
  "visit known vq n =
     (if n \<notin> set (fst vq) \<and> jm_has (kn_nodes known) n then (fst vq @ [n], snd vq @ [n]) else vq)"

definition unseen_nodes :: "known_graph \<Rightarrow> string list \<Rightarrow> nat" where
  "unseen_nodes known visible = card (set (jm_keys (kn_nodes known)) - set visible)"

lemma visit_unseen:
  "length (snd (visit known vq n)) + 2 * unseen_nodes known (fst (visit known vq n))
    \<le> length (snd vq) + 2 * unseen_nodes known (fst vq)"
proof (cases "n \<notin> set (fst vq) \<and> jm_has (kn_nodes known) n")
  case True
  then have n: "n \<in> set (jm_keys (kn_nodes known)) - set (fst vq)" by (simp add: jm_has_def)
  have "unseen_nodes known (fst vq @ [n]) = card (set (jm_keys (kn_nodes known)) - set (fst vq) - {n})"
    unfolding unseen_nodes_def by (rule arg_cong [where f = card]) auto
  with n have "unseen_nodes known (fst vq) = Suc (unseen_nodes known (fst vq @ [n]))"
    unfolding unseen_nodes_def by (metis card_Suc_Diff1 finite_Diff finite_set)
  then show ?thesis using True by (simp add: visit_def)
qed (auto simp: visit_def)

lemma visits_unseen:
  "length (snd (foldl (visit known) vq ns)) + 2 * unseen_nodes known (fst (foldl (visit known) vq ns))
    \<le> length (snd vq) + 2 * unseen_nodes known (fst vq)"
proof (induction ns arbitrary: vq)
  case (Cons n ns)
  show ?case using Cons.IH [of "visit known vq n"] visit_unseen [of known vq n] by simp
qed simp

function visible_loop ::
  "known_graph \<Rightarrow> (string, string list) jsmap \<Rightarrow> string list \<Rightarrow> string list \<Rightarrow> string list \<Rightarrow> string list" where
  "visible_loop known adj expanded visible [] = visible"
| "visible_loop known adj expanded visible (k # queue) =
     (if k \<notin> set expanded then visible_loop known adj expanded visible queue
      else let vq = foldl (visit known) (visible, queue) (nullish (jm_get adj k) [])
           in visible_loop known adj expanded (fst vq) (snd vq))"
  by pat_completeness auto
termination
proof (relation "measure (\<lambda>(known, adj, expanded, visible, queue). length queue + 2 * unseen_nodes known visible)", goal_cases)
  case (3 known adj expanded visible k queue vq)
  then show ?case using visits_unseen [of known "(visible, queue)"] by (simp add: le_imp_less_Suc case_prod_unfold)
qed auto

definition visibleFromFocus :: "known_graph \<Rightarrow> string \<Rightarrow> string list \<Rightarrow> string list" where
  "visibleFromFocus known focus expanded =
     visible_loop known (adjacency (jm_values (kn_edges known))) expanded [focus] [focus]"

text \<open>The loop's \<open>other\<close>: the far end of an edge at the node, if the edge is at it.\<close>

definition far_end :: "string \<Rightarrow> topo_edge \<Rightarrow> string option" where
  "far_end k e =
     (if te_source e = k then Some (te_target e) else if te_target e = k then Some (te_source e) else None)"

definition hiddenNeighbourCount :: "known_graph \<Rightarrow> string \<Rightarrow> string list \<Rightarrow> nat" where
  "hiddenNeighbourCount known k visible =
     snd (foldl (\<lambda>(seen, count) e.
        (case far_end k e of None \<Rightarrow> (seen, count)
         | Some other \<Rightarrow>
             if other \<noteq> [] \<and> other \<notin> set seen \<and> other \<notin> set visible
             then (js_add seen other, count + 1) else (seen, count)))
       ([], 0) (jm_values (kn_edges known)))"

section \<open>Node identifiers\<close>

definition parseNodeId :: "string \<Rightarrow> string \<times> string option \<times> string" where
  "parseNodeId k =
     (let parts = split_char (CHR ''/'') k
      in (parts ! 0, nth_opt parts 1, join_with ''/'' (drop 2 parts)))"

definition nodeIdFor :: "string \<Rightarrow> string option \<Rightarrow> string \<Rightarrow> string" where
  "nodeIdFor kind namespace name = kind @ ''/'' @ str_or namespace [] @ ''/'' @ name"

section \<open>Merging: laws\<close>

text \<open>What a known graph satisfies: each node and edge stands under its own identifier.\<close>

definition known_wf :: "known_graph \<Rightarrow> bool" where
  "known_wf known \<longleftrightarrow> jm_wf (kn_nodes known) \<and> jm_wf (kn_edges known)
     \<and> (\<forall>k n. jm_get (kn_nodes known) k = Some n \<longrightarrow> tn_id n = k)
     \<and> (\<forall>k e. jm_get (kn_edges known) k = Some e \<longrightarrow> te_id e = k)"

lemma jm_wf_put_nodes: "jm_wf m \<Longrightarrow> jm_wf (put_nodes m ns)"
  unfolding put_nodes_def by (induction ns arbitrary: m) auto

lemma jm_wf_put_edges: "jm_wf m \<Longrightarrow> jm_wf (put_edges m es)"
  unfolding put_edges_def by (induction es arbitrary: m) auto

lemma put_nodes_get:
  "jm_get (put_nodes m ns) k = (case find (\<lambda>n. tn_id n = k) (rev ns) of Some n \<Rightarrow> Some n | None \<Rightarrow> jm_get m k)"
  unfolding put_nodes_def by (induction ns rule: rev_induct) (auto split: option.splits)

lemma put_edges_get:
  "jm_get (put_edges m es) k = (case find (\<lambda>e. te_id e = k) (rev es) of Some e \<Rightarrow> Some e | None \<Rightarrow> jm_get m k)"
  unfolding put_edges_def by (induction es rule: rev_induct) (auto split: option.splits)

lemma find_rev_none: "find P (rev xs) = None \<longleftrightarrow> (\<forall>x \<in> set xs. \<not> P x)"
  by (auto simp: find_None_iff)

lemma known_wf_empty [simp]: "known_wf emptyKnown"
  by (simp add: known_wf_def emptyKnown_def)

lemma mergeGraph_edges:
  assumes "known_wf known"
  shows "jm_get (kn_edges (mergeGraph known g A)) k =
    (case find (\<lambda>e. te_id e = k) (rev (tg_edges g)) of Some e \<Rightarrow> Some e
     | None \<Rightarrow> (case jm_get (kn_edges known) k of None \<Rightarrow> None
        | Some e \<Rightarrow> if A \<noteq> None \<and> (te_source e \<in> set (the A) \<or> te_target e \<in> set (the A)) then None else Some e))"
proof (cases "find (\<lambda>e. te_id e = k) (rev (tg_edges g))")
  case None
  then have "k \<notin> set (map te_id (tg_edges g))" by (auto simp: find_rev_none)
  with None assms show ?thesis
    by (auto simp: mergeGraph_def Let_def put_edges_get jm_get_filter_pairs known_wf_def stale_edge_def split: option.split)
qed (simp add: mergeGraph_def Let_def put_edges_get)

lemma mergeGraph_wf [inv_intros]:
  assumes "known_wf known"
  shows "known_wf (mergeGraph known g A)"
proof -
  have wf: "jm_wf (kn_nodes known)" "jm_wf (kn_edges known)" using assms by (auto simp: known_wf_def)
  have e: "te_id e = k" if "jm_get (kn_edges (mergeGraph known g A)) k = Some e" for k e
    using that assms by (auto simp: mergeGraph_edges known_wf_def dest: find_some_iff split: option.splits if_splits)
  have n0: "tn_id n = k" if "jm_get (put_nodes (kn_nodes known) (tg_nodes g)) k = Some n" for k n
    using that assms by (auto simp: put_nodes_get known_wf_def dest: find_some_iff split: option.splits)
  have n: "tn_id n = k" if "jm_get (kn_nodes (mergeGraph known g A)) k = Some n" for k n
    using that n0 wf
    by (auto simp: mergeGraph_def Let_def jm_get_filter_some jm_wf_put_nodes split: option.splits)
  have "jm_wf (kn_nodes (mergeGraph known g A))" "jm_wf (kn_edges (mergeGraph known g A))"
    using wf by (auto simp: mergeGraph_def Let_def intro!: jm_wf_put_nodes jm_wf_put_edges jm_wf_filter_pairs split: option.split)
  then show ?thesis using e n by (auto simp: known_wf_def)
qed

lemma knownFrom_wf [simp]: "known_wf (knownFrom g)"
  by (simp add: knownFrom_def mergeGraph_wf)

section \<open>Reachability\<close>

definition neighbour :: "known_graph \<Rightarrow> string \<Rightarrow> string \<Rightarrow> bool" where
  "neighbour known a b = list_ex (\<lambda>e. (te_source e = a \<and> te_target e = b) \<or> (te_source e = b \<and> te_target e = a))
     (jm_values (kn_edges known))"

inductive focus_reach :: "known_graph \<Rightarrow> string \<Rightarrow> string list \<Rightarrow> string \<Rightarrow> bool"
  for known focus expanded where
  at_focus: "focus_reach known focus expanded focus"
| through: "\<lbrakk>focus_reach known focus expanded a; a \<in> set expanded; neighbour known a b;
      jm_has (kn_nodes known) b\<rbrakk> \<Longrightarrow> focus_reach known focus expanded b"

lemma adj_add_get: "set (nullish (jm_get (adj_add adj a b) k) []) =
    set (nullish (jm_get adj k) []) \<union> (if k = a then {b} else {})"
  by (auto simp: adj_add_def)

lemma adjacency_neighbours:
  "b \<in> set (nullish (jm_get (adjacency (jm_values (kn_edges known))) a) []) \<longleftrightarrow> neighbour known a b"
proof -
  have "b \<in> set (nullish (jm_get (adjacency es) a) []) \<longleftrightarrow>
      list_ex (\<lambda>e. (te_source e = a \<and> te_target e = b) \<or> (te_source e = b \<and> te_target e = a)) es" for es
  proof (induction es rule: rev_induct)
    case Nil
    then show ?case by (simp add: adjacency_def)
  next
    case (snoc e es)
    then show ?case by (auto simp: adjacency_def adj_add_get split: if_splits)
  qed
  then show ?thesis by (simp add: neighbour_def)
qed

lemma visits_result:
  "foldl (visit known) (v, q) ns = (v', q') \<Longrightarrow> distinct v \<Longrightarrow>
    \<exists>new. v' = v @ new \<and> q' = q @ new \<and> distinct v'
      \<and> set v' = set v \<union> {n \<in> set ns. jm_has (kn_nodes known) n}"
proof (induction ns arbitrary: v q)
  case (Cons n ns)
  show ?case
  proof (cases "n \<notin> set v \<and> jm_has (kn_nodes known) n")
    case True
    have "foldl (visit known) (v @ [n], q @ [n]) ns = (v', q')" using Cons.prems(1) True by (simp add: visit_def [of known "(v, q)"])
    from Cons.IH [OF this] obtain new where "v' = (v @ [n]) @ new" "q' = (q @ [n]) @ new" "distinct v'"
      "set v' = set (v @ [n]) \<union> {n \<in> set ns. jm_has (kn_nodes known) n}"
      using True Cons.prems(2) by auto
    with True show ?thesis by (intro exI [of _ "n # new"]) auto
  next
    case False
    have "foldl (visit known) (v, q) ns = (v', q')" using Cons.prems(1) False by (auto simp: visit_def [of known "(v, q)"])
    from Cons.IH [OF this Cons.prems(2)] False show ?thesis by auto
  qed
qed simp

text \<open>The loop's invariant: every visible node is reached, and one that is not queued has
  its neighbours visible when it is expanded.\<close>

definition loop_inv :: "known_graph \<Rightarrow> string \<Rightarrow> string list \<Rightarrow> string list \<Rightarrow> string list \<Rightarrow> bool" where
  "loop_inv known focus expanded visible queue \<longleftrightarrow>
     focus \<in> set visible \<and> distinct visible \<and> set queue \<subseteq> set visible
     \<and> (\<forall>a \<in> set visible. focus_reach known focus expanded a)
     \<and> (\<forall>a \<in> set visible - set queue. \<forall>b. a \<in> set expanded \<and> neighbour known a b \<and> jm_has (kn_nodes known) b
          \<longrightarrow> b \<in> set visible)"

lemma loop_inv_skip:
  "loop_inv known focus expanded visible (k # queue) \<Longrightarrow> k \<notin> set expanded \<Longrightarrow>
    loop_inv known focus expanded visible queue"
  by (auto simp: loop_inv_def)

lemma loop_inv_visit:
  assumes inv: "loop_inv known focus expanded visible (k # queue)" and ex: "k \<in> set expanded"
    and vq: "foldl (visit known) (visible, queue) (nullish (jm_get (adjacency (jm_values (kn_edges known))) k) []) = (v', q')"
  shows "loop_inv known focus expanded v' q'"
proof -
  have "distinct visible" using inv by (simp add: loop_inv_def)
  then obtain new where new: "v' = visible @ new" "q' = queue @ new" "distinct v'"
    and set: "set v' = set visible \<union> {n. neighbour known k n \<and> jm_has (kn_nodes known) n}"
    using visits_result [OF vq] by (auto simp: adjacency_neighbours)
  have k: "focus_reach known focus expanded k" using inv by (simp add: loop_inv_def)
  have reach: "focus_reach known focus expanded a" if "a \<in> set v'" for a
    using that inv through [OF k ex] by (auto simp: set loop_inv_def)
  have closed: "b \<in> set v'"
    if "a \<in> set v' - set q'" "a \<in> set expanded" "neighbour known a b" "jm_has (kn_nodes known) b" for a b
  proof (cases "a = k")
    case False
    then have "a \<in> set visible - set (k # queue)" using that new by auto
    with that inv show ?thesis by (auto simp: loop_inv_def set)
  qed (use that set in auto)
  have "focus \<in> set v'" "set q' \<subseteq> set v'" using inv new by (auto simp: loop_inv_def)
  with new(3) reach closed show ?thesis unfolding loop_inv_def by blast
qed

lemma visible_loop_inv:
  "loop_inv known focus expanded visible queue \<Longrightarrow> adj = adjacency (jm_values (kn_edges known)) \<Longrightarrow>
    loop_inv known focus expanded (visible_loop known adj expanded visible queue) []"
proof (induction known adj expanded visible queue rule: visible_loop.induct)
  case (2 known adj expanded visible k queue)
  show ?case
  proof (cases "k \<in> set expanded")
    case True
    obtain v' q' where vq: "foldl (visit known) (visible, queue) (nullish (jm_get adj k) []) = (v', q')" by fastforce
    have "loop_inv known focus expanded v' q'" using loop_inv_visit [OF "2.prems"(1) True] vq "2.prems"(2) by simp
    then show ?thesis using "2.IH"(2) [OF _ vq [symmetric]] True vq "2.prems"(2) by simp
  next
    case False
    then show ?thesis using "2.IH"(1) loop_inv_skip [OF "2.prems"(1)] "2.prems"(2) by simp
  qed
qed simp

lemma visible_reach:
  "distinct (visibleFromFocus known focus expanded)
   \<and> (k \<in> set (visibleFromFocus known focus expanded) \<longleftrightarrow> focus_reach known focus expanded k)"
proof -
  have "loop_inv known focus expanded [focus] [focus]" by (simp add: loop_inv_def at_focus)
  then have inv: "loop_inv known focus expanded (visibleFromFocus known focus expanded) []"
    unfolding visibleFromFocus_def by (rule visible_loop_inv) simp
  have "focus_reach known focus expanded k \<Longrightarrow> k \<in> set (visibleFromFocus known focus expanded)"
    by (induction rule: focus_reach.induct) (use inv in \<open>auto simp: loop_inv_def\<close>)
  with inv show ?thesis by (auto simp: loop_inv_def)
qed

text \<open>Collapsing can only hide: fewer expanded nodes, fewer visible ones.\<close>

lemma visible_mono:
  assumes "set expanded \<subseteq> set expanded'"
  shows "set (visibleFromFocus known focus expanded) \<subseteq> set (visibleFromFocus known focus expanded')"
proof
  fix k assume "k \<in> set (visibleFromFocus known focus expanded)"
  then have "focus_reach known focus expanded k" using visible_reach by blast
  then have "focus_reach known focus expanded' k"
    by (induction rule: focus_reach.induct) (use assms in \<open>auto intro: focus_reach.intros\<close>)
  then show "k \<in> set (visibleFromFocus known focus expanded')" using visible_reach by blast
qed

end
