(* ===== verification/TopologyView.thy ===== *)
theory TopologyView
  imports TopologyGraph
begin

text \<open>
  What the topology view draws (\<open>components/topology/graphModel.ts\<close>, \<open>buildView\<close>): pods of
  one owner fold into a group, edges that come to join the same two drawn nodes fold into
  one with a weight, hidden kinds are left out. Every shown node is drawn exactly once, as
  itself or in one group, and every drawn edge joins two drawn nodes and weighs as many
  edges as it stands for. \<open>localeCompare\<close> is the parameter \<open>lc\<close>.
\<close>

section \<open>Kinds, health and drawn nodes\<close>

datatype kind_family = FNetwork | FWorkloads | FPods | FConfig | FStorage | FPolicy | FNodes

definition KIND_FAMILY :: "(string, kind_family) jsmap" where
  "KIND_FAMILY =
    [(''Gateway'', FNetwork), (''HTTPRoute'', FNetwork), (''Ingress'', FNetwork), (''Service'', FNetwork),
     (''Deployment'', FWorkloads), (''StatefulSet'', FWorkloads), (''DaemonSet'', FWorkloads),
     (''ReplicaSet'', FWorkloads), (''Job'', FWorkloads), (''CronJob'', FWorkloads),
     (''Pod'', FPods),
     (''ConfigMap'', FConfig), (''Secret'', FConfig), (''ServiceAccount'', FConfig),
     (''PersistentVolumeClaim'', FStorage), (''PersistentVolume'', FStorage), (''StorageClass'', FStorage),
     (''HorizontalPodAutoscaler'', FPolicy), (''PodDisruptionBudget'', FPolicy), (''NetworkPolicy'', FPolicy),
     (''Node'', FNodes)]"

definition familyOf :: "string \<Rightarrow> kind_family" where
  "familyOf kind = nullish (jm_get KIND_FAMILY kind) FWorkloads"

record health_counts =
  hc_healthy :: nat
  hc_warning :: nat
  hc_error :: nat
  hc_unknown :: nat

definition no_counts :: health_counts where
  "no_counts = \<lparr>hc_healthy = 0, hc_warning = 0, hc_error = 0, hc_unknown = 0\<rparr>"

definition health_count :: "health_counts \<Rightarrow> health \<Rightarrow> nat" where
  "health_count c h = (case h of HHealthy \<Rightarrow> hc_healthy c | HWarning \<Rightarrow> hc_warning c
     | HError \<Rightarrow> hc_error c | HUnknown \<Rightarrow> hc_unknown c)"

definition add_count :: "health_counts \<Rightarrow> health \<Rightarrow> nat \<Rightarrow> health_counts" where
  "add_count c h n = (case h of
       HHealthy \<Rightarrow> c\<lparr>hc_healthy := hc_healthy c + n\<rparr>
     | HWarning \<Rightarrow> c\<lparr>hc_warning := hc_warning c + n\<rparr>
     | HError \<Rightarrow> c\<lparr>hc_error := hc_error c + n\<rparr>
     | HUnknown \<Rightarrow> c\<lparr>hc_unknown := hc_unknown c + n\<rparr>)"

record view_node =
  vn_id :: string
  vn_node :: topo_node
  vn_members :: "topo_node list option"
  vn_counts :: "health_counts option"

record view_edge =
  ve_id :: string
  ve_source :: string
  ve_target :: string
  ve_relation :: string
  ve_weight :: nat

record view_graph =
  vg_nodes :: "view_node list"
  vg_edges :: "view_edge list"

record view_options =
  vo_hiddenFamilies :: "kind_family list option"
  vo_ungrouped :: "string list option"
  vo_groupThreshold :: "int option"
  vo_pinned :: "string option"

definition groupIdFor :: "string \<Rightarrow> string" where
  "groupIdFor ownerId = ''group:'' @ ownerId"

definition worstFirst :: "health list" where
  "worstFirst = [HError, HWarning, HUnknown, HHealthy]"

definition worstHealth :: "health_counts \<Rightarrow> health" where
  "worstHealth counts = nullish (find (\<lambda>h. 0 < health_count counts h) worstFirst) HUnknown"

definition summarizeCounts :: "health_counts \<Rightarrow> string" where
  "summarizeCounts c = join_with (CHR '' '' # CHR 0xB7 # '' '')
     ((if hc_healthy c \<noteq> 0 then [show_nat (hc_healthy c) @ '' ready''] else [])
      @ (if hc_warning c \<noteq> 0 then [show_nat (hc_warning c) @ '' pending''] else [])
      @ (if hc_error c \<noteq> 0 then [show_nat (hc_error c) @ '' failing''] else [])
      @ (if hc_unknown c \<noteq> 0 then [show_nat (hc_unknown c) @ '' unknown''] else []))"

section \<open>Building the view\<close>

definition is_shown :: "known_graph \<Rightarrow> view_options \<Rightarrow> string \<Rightarrow> bool" where
  "is_shown known opts k =
     (case jm_get (kn_nodes known) k of None \<Rightarrow> False
      | Some n \<Rightarrow> \<not> (Some k \<noteq> vo_pinned opts
                    \<and> familyOf (tn_kind n) \<in> set (nullish (vo_hiddenFamilies opts) [])))"

definition shown_ids :: "known_graph \<Rightarrow> view_options \<Rightarrow> string list \<Rightarrow> string list" where
  "shown_ids known opts visible = js_set_of (filter (is_shown known opts) visible)"

text \<open>The owner whose pods a shown node is counted among, if it is.\<close>

definition pod_owner :: "known_graph \<Rightarrow> view_options \<Rightarrow> string list \<Rightarrow> string \<Rightarrow> string option" where
  "pod_owner known opts shown k =
     (case jm_get (kn_nodes known) k of None \<Rightarrow> None
      | Some n \<Rightarrow>
          if tn_kind n \<noteq> ''Pod'' \<or> \<not> truthy_str (tn_owner n) \<or> the (tn_owner n) \<notin> set shown
             \<or> the (tn_owner n) \<in> set (nullish (vo_ungrouped opts) []) \<or> Some k = vo_pinned opts
          then None else tn_owner n)"

definition jm_push :: "('k, 'v list) jsmap \<Rightarrow> 'k \<Rightarrow> 'v \<Rightarrow> ('k, 'v list) jsmap" where
  "jm_push m k x = jm_set m k (nullish (jm_get m k) [] @ [x])"

definition by_owner :: "known_graph \<Rightarrow> view_options \<Rightarrow> string list \<Rightarrow> (string, topo_node list) jsmap" where
  "by_owner known opts shown =
     foldl (\<lambda>m k. case pod_owner known opts shown k of None \<Rightarrow> m
            | Some ow \<Rightarrow> jm_push m ow (the (jm_get (kn_nodes known) k))) [] shown"

definition group_counts :: "topo_node list \<Rightarrow> health_counts" where
  "group_counts pods = foldl (\<lambda>c p. add_count c (tn_health p) 1) no_counts pods"

definition group_node ::
  "(string \<Rightarrow> string \<Rightarrow> int) \<Rightarrow> known_graph \<Rightarrow> string \<Rightarrow> topo_node list \<Rightarrow> view_node" where
  "group_node lc known ow pods =
     (let gid = groupIdFor ow;
          counts = group_counts pods;
          ownerNode = the (jm_get (kn_nodes known) ow);
          sorted = js_sort (\<lambda>a b. lc (tn_name a) (tn_name b)) pods
      in \<lparr>vn_id = gid,
          vn_node = \<lparr>tn_id = gid, tn_group = [], tn_version = ''v1'', tn_kind = ''Pod'',
            tn_namespace = tn_namespace ownerNode, tn_name = show_nat (length pods) @ '' pods'', tn_uid = None,
            tn_health = worstHealth counts, tn_status = Some (summarizeCounts counts), tn_owner = Some ow,
            tn_missing = False, tn_app = None\<rparr>,
          vn_members = Some sorted, vn_counts = Some counts\<rparr>)"

definition group_step ::
  "(string \<Rightarrow> string \<Rightarrow> int) \<Rightarrow> known_graph \<Rightarrow> view_options \<Rightarrow>
    (string, string) jsmap \<times> view_node list \<Rightarrow> string \<times> topo_node list \<Rightarrow> (string, string) jsmap \<times> view_node list" where
  "group_step lc known opts an op =
     (if int (length (snd op)) < nullish (vo_groupThreshold opts) 2 then an
      else (foldl (\<lambda>alias p. jm_set alias (tn_id p) (groupIdFor (fst op))) (fst an) (snd op),
            snd an @ [group_node lc known (fst op) (snd op)]))"

definition single_node :: "known_graph \<Rightarrow> string \<Rightarrow> view_node" where
  "single_node known k =
     \<lparr>vn_id = k, vn_node = the (jm_get (kn_nodes known) k), vn_members = None, vn_counts = None\<rparr>"

text \<open>The edge the view draws for a known edge, when both its ends are shown and not in one group.\<close>

definition lifted_edge :: "string list \<Rightarrow> (string, string) jsmap \<Rightarrow> topo_edge \<Rightarrow> view_edge option" where
  "lifted_edge shown alias e =
     (if te_source e \<notin> set shown \<or> te_target e \<notin> set shown then None
      else let s = str_or (jm_get alias (te_source e)) (te_source e);
               t = str_or (jm_get alias (te_target e)) (te_target e)
           in if s = t then None
              else Some \<lparr>ve_id = s @ ''|'' @ te_relation e @ ''|'' @ t, ve_source = s, ve_target = t,
                         ve_relation = te_relation e, ve_weight = 1\<rparr>)"

definition add_edge :: "(string, view_edge) jsmap \<Rightarrow> view_edge \<Rightarrow> (string, view_edge) jsmap" where
  "add_edge edges v =
     (case jm_get edges (ve_id v) of
        Some prev \<Rightarrow> jm_set edges (ve_id v) (prev\<lparr>ve_weight := ve_weight prev + ve_weight v\<rparr>)
      | None \<Rightarrow> jm_set edges (ve_id v) v)"

definition buildView ::
  "(string \<Rightarrow> string \<Rightarrow> int) \<Rightarrow> known_graph \<Rightarrow> string list \<Rightarrow> view_options \<Rightarrow> view_graph" where
  "buildView lc known visible opts =
     (let shown = shown_ids known opts visible;
          an = foldl (group_step lc known opts) ([], []) (by_owner known opts shown);
          alias = fst an;
          nodes = snd an @ map (single_node known) (filter (\<lambda>k. \<not> jm_has alias k) shown);
          edges = foldl (\<lambda>m e. case lifted_edge shown alias e of None \<Rightarrow> m | Some v \<Rightarrow> add_edge m v)
                    [] (jm_values (kn_edges known))
      in \<lparr>vg_nodes = js_sort (\<lambda>a b. lc (vn_id a) (vn_id b)) nodes,
          vg_edges = js_sort (\<lambda>a b. lc (ve_id a) (ve_id b)) (jm_values edges)\<rparr>)"

section \<open>Search and labels\<close>

definition search_hit :: "string \<Rightarrow> topo_node \<Rightarrow> bool" where
  "search_hit q n = (str_includes (to_lower (tn_name n)) q \<or> to_lower (tn_kind n) = q)"

definition searchMatches :: "view_graph \<Rightarrow> string \<Rightarrow> string list" where
  "searchMatches view query =
     (let q = to_lower (js_trim query)
      in if q = [] then []
         else map vn_id (filter (\<lambda>v. case vn_members v of Some ms \<Rightarrow> list_ex (search_hit q) ms
                                      | None \<Rightarrow> search_hit q (vn_node v)) (vg_nodes view)))"

definition RELATION_LABEL :: "(string, string) jsmap" where
  "RELATION_LABEL =
    [(''owns'', ''owns''), (''selects'', ''selects''), (''exposes'', ''exposes''), (''routes'', ''routes to''),
     (''attaches'', ''attaches''), (''mounts'', ''mounts''), (''env'', ''env from''), (''runs-as'', ''runs as''),
     (''tls'', ''TLS''), (''binds'', ''binds''), (''class'', ''class''), (''scales'', ''scales''),
     (''protects'', ''protects''), (''runs-on'', ''runs on''), (''applies-to'', ''applies to''),
     (''pulls-with'', ''pull secret'')]"

section \<open>Grouping into lists\<close>

lemma jm_wf_push [simp]: "jm_wf m \<Longrightarrow> jm_wf (jm_push m k x)"
  by (simp add: jm_push_def)

lemma jm_get_push: "jm_get (jm_push m k x) k' =
    (if k' = k then Some (nullish (jm_get m k) [] @ [x]) else jm_get m k')"
  by (simp add: jm_push_def)

lemma mset_concat_set: "jm_get m k = Some old \<Longrightarrow>
    mset (concat (map f (jm_values (jm_set m k new)))) + mset (f old) = mset (concat (map f (jm_values m))) + mset (f new)"
  by (induction m) (auto simp: jm_get_def jm_values_def split: if_splits)

lemma mset_concat_push: "mset (concat (jm_values (jm_push m k x))) = add_mset x (mset (concat (jm_values m)))"
proof (cases "jm_get m k")
  case None
  then have "\<not> jm_has m k" by (simp add: jm_has_get)
  then show ?thesis by (simp add: jm_push_def None jm_set_new jm_values_def)
next
  case (Some old)
  have "mset (concat (jm_values (jm_push m k x))) + mset old = mset (concat (jm_values m)) + mset (old @ [x])"
    using mset_concat_set [OF Some, of "\<lambda>x. x"] by (simp add: jm_push_def Some)
  then show ?thesis by simp
qed

lemma mset_concat_pushes:
  "mset (concat (jm_values (foldl (\<lambda>m k. case f k of None \<Rightarrow> m | Some ow \<Rightarrow> jm_push m ow (g k)) m xs)))
    = mset (concat (jm_values m)) + mset (map g (filter (\<lambda>k. f k \<noteq> None) xs))"
  by (induction xs arbitrary: m) (auto simp: mset_concat_push split: option.split)

lemma pushes_keys:
  "k \<in> set (jm_keys (foldl (\<lambda>m k. case f k of None \<Rightarrow> m | Some ow \<Rightarrow> jm_push m ow (g k)) m xs))
    \<longleftrightarrow> k \<in> set (jm_keys m) \<or> (\<exists>x \<in> set xs. f x = Some k)"
  by (induction xs arbitrary: m) (auto simp: jm_push_def jm_keys_set jm_has_def split: option.splits)

lemma pushes_wf:
  "jm_wf m \<Longrightarrow> jm_wf (foldl (\<lambda>m k. case f k of None \<Rightarrow> m | Some ow \<Rightarrow> jm_push m ow (g k)) m xs)"
  by (induction xs arbitrary: m) (auto split: option.split)

section \<open>Each shown node is drawn once\<close>

definition big_group :: "view_options \<Rightarrow> string \<times> topo_node list \<Rightarrow> bool" where
  "big_group opts op = (\<not> int (length (snd op)) < nullish (vo_groupThreshold opts) 2)"

definition drawn_ids :: "view_node \<Rightarrow> string list" where
  "drawn_ids v = (case vn_members v of Some ms \<Rightarrow> map tn_id ms | None \<Rightarrow> [vn_id v])"

lemma alias_pods: "jm_get (foldl (\<lambda>alias p. jm_set alias (tn_id p) gid) al pods) k =
    (if k \<in> tn_id ` set pods then Some gid else jm_get al k)"
  by (induction pods arbitrary: al) auto

lemma group_steps:
  "snd (foldl (group_step lc known opts) an ops) = snd an @ map (\<lambda>op. group_node lc known (fst op) (snd op)) (filter (big_group opts) ops)
   \<and> (jm_has (fst (foldl (group_step lc known opts) an ops)) k
      \<longleftrightarrow> jm_has (fst an) k \<or> (\<exists>op \<in> set (filter (big_group opts) ops). k \<in> tn_id ` set (snd op)))
   \<and> (\<forall>gid. jm_get (fst (foldl (group_step lc known opts) an ops)) k = Some gid
      \<longrightarrow> jm_get (fst an) k = Some gid \<or> (\<exists>op \<in> set (filter (big_group opts) ops). gid = groupIdFor (fst op)))"
proof (induction ops arbitrary: an)
  case (Cons op ops)
  show ?case
  proof (cases "big_group opts op")
    case False
    then show ?thesis using Cons.IH [of an] by (simp add: group_step_def big_group_def)
  next
    case True
    then have st: "group_step lc known opts an op =
        (foldl (\<lambda>alias p. jm_set alias (tn_id p) (groupIdFor (fst op))) (fst an) (snd op),
         snd an @ [group_node lc known (fst op) (snd op)])"
      by (simp add: group_step_def big_group_def)
    have al: "jm_get (fst (group_step lc known opts an op)) k
        = (if k \<in> tn_id ` set (snd op) then Some (groupIdFor (fst op)) else jm_get (fst an) k)"
      "snd (group_step lc known opts an op) = snd an @ [group_node lc known (fst op) (snd op)]"
      by (simp_all add: st alias_pods)
    show ?thesis using Cons.IH [of "group_step lc known opts an op"] True
      by (cases "k \<in> tn_id ` set (snd op)") (auto simp only: foldl_Cons al jm_has_get filter.simps list.set list.map append.simps append_assoc if_True if_False option.simps insert_iff bex_simps all_simps split: if_split_asm)
  qed
qed simp

lemma group_node_ids: "mset (drawn_ids (group_node lc known ow pods)) = mset (map tn_id pods)"
  by (simp add: group_node_def drawn_ids_def Let_def)

lemma group_node_id [simp]: "vn_id (group_node lc known ow pods) = groupIdFor ow"
  by (simp add: group_node_def Let_def)

lemma single_node_ids [simp]: "drawn_ids (single_node known k) = [k]" "vn_id (single_node known k) = k"
  by (simp_all add: single_node_def drawn_ids_def)

lemma pod_owner_known: "pod_owner known opts shown k = Some ow \<Longrightarrow> \<exists>n. jm_get (kn_nodes known) k = Some n"
  by (auto simp: pod_owner_def split: option.splits)

lemma mset_concat_filter_le: "mset (concat (map f (filter P xs))) \<subseteq># mset (concat (map f xs))"
  by (induction xs) (auto intro: subset_mset.add_increasing)

lemma mset_concat_map: "(\<And>x. x \<in> set xs \<Longrightarrow> mset (f x) = mset (g x)) \<Longrightarrow> mset (concat (map f xs)) = mset (concat (map g xs))"
  by (induction xs) auto

lemma mset_concat_perm: "mset xs = mset ys \<Longrightarrow> mset (concat (map f xs)) = mset (concat (map f ys))"
proof -
  have "mset (concat (map f zs)) = sum_mset (image_mset (\<lambda>x. mset (f x)) (mset zs))" for zs
    by (induction zs) auto
  then show "mset xs = mset ys \<Longrightarrow> ?thesis" by simp
qed

lemma distinct_mset_le:
  assumes "mset xs \<subseteq># mset ys" "distinct ys"
  shows "distinct xs"
  unfolding distinct_count_atmost_1
proof
  fix a
  have "count (mset xs) a \<le> count (mset ys) a" using assms(1) by (rule mset_subset_eq_count)
  moreover have "count (mset ys) a \<le> 1" using assms(2) unfolding distinct_count_atmost_1 by simp
  moreover have "0 < count (mset xs) a \<longleftrightarrow> a \<in> set xs" by (metis count_greater_zero_iff set_mset_mset)
  ultimately show "count (mset xs) a = (if a \<in> set xs then 1 else 0)" by (simp only: split: if_split) linarith
qed

lemma grouped_ids:
  assumes "known_wf known" "shown = shown_ids known opts visible"
  shows "mset (map tn_id (concat (jm_values (by_owner known opts shown))))
    = mset (filter (\<lambda>k. pod_owner known opts shown k \<noteq> None) shown)"
proof -
  have ids: "tn_id (the (jm_get (kn_nodes known) k)) = k" if "pod_owner known opts shown k \<noteq> None" for k
    using that pod_owner_known [of known opts shown k] assms(1) by (auto simp: known_wf_def)
  have "mset (map tn_id (concat (jm_values (by_owner known opts shown))))
      = image_mset tn_id (mset (map (\<lambda>k. the (jm_get (kn_nodes known) k)) (filter (\<lambda>k. pod_owner known opts shown k \<noteq> None) shown)))"
    using mset_concat_pushes [where f = "pod_owner known opts shown" and g = "\<lambda>k. the (jm_get (kn_nodes known) k)" and m = "[]" and xs = shown]
    by (simp add: by_owner_def)
  also have "\<dots> = mset (map (\<lambda>k. tn_id (the (jm_get (kn_nodes known) k))) (filter (\<lambda>k. pod_owner known opts shown k \<noteq> None) shown))"
    by (simp add: image_mset.compositionality comp_def)
  also have "map (\<lambda>k. tn_id (the (jm_get (kn_nodes known) k))) (filter (\<lambda>k. pod_owner known opts shown k \<noteq> None) shown)
      = filter (\<lambda>k. pod_owner known opts shown k \<noteq> None) shown"
    by (rule map_idI) (simp add: ids)
  finally show ?thesis .
qed

lemma shown_known: "k \<in> set (shown_ids known opts visible) \<Longrightarrow> \<exists>n. jm_get (kn_nodes known) k = Some n"
  by (auto simp: shown_ids_def is_shown_def split: option.splits)

lemma shown_distinct [simp]: "distinct (shown_ids known opts visible)"
  by (simp add: shown_ids_def)

lemma drawn_ids_all:
  assumes "known_wf known"
  shows "distinct (concat (map drawn_ids (vg_nodes (buildView lc known visible opts))))"
    and "set (concat (map drawn_ids (vg_nodes (buildView lc known visible opts)))) = set (shown_ids known opts visible)"
proof -
  define shown where "shown = shown_ids known opts visible"
  define groups where "groups = filter (big_group opts) (by_owner known opts shown)"
  define an where "an = foldl (group_step lc known opts) ([], []) (by_owner known opts shown)"
  define pods where "pods = concat (map (map tn_id \<circ> snd) groups)"
  have nodes: "mset (vg_nodes (buildView lc known visible opts))
      = mset (map (\<lambda>op. group_node lc known (fst op) (snd op)) groups @ map (single_node known) (filter (\<lambda>k. \<not> jm_has (fst an) k) shown))"
    using group_steps [of lc known opts "([], [])" "by_owner known opts shown"]
    by (simp add: buildView_def Let_def an_def groups_def shown_def)
  have al: "jm_has (fst an) k \<longleftrightarrow> k \<in> set pods" for k
    using group_steps [of lc known opts "([], [])" "by_owner known opts shown" k]
    by (auto simp: an_def groups_def pods_def)
  have gr: "mset (concat (map drawn_ids (map (\<lambda>op. group_node lc known (fst op) (snd op)) groups))) = mset pods"
    unfolding pods_def map_map by (rule mset_concat_map) (simp add: group_node_ids)
  have si: "concat (map drawn_ids (map (single_node known) xs)) = xs" for xs by (induction xs) auto
  have "mset (concat (map drawn_ids (vg_nodes (buildView lc known visible opts))))
      = mset (concat (map drawn_ids (map (\<lambda>op. group_node lc known (fst op) (snd op)) groups
          @ map (single_node known) (filter (\<lambda>k. \<not> jm_has (fst an) k) shown))))"
    by (rule mset_concat_perm) (rule nodes)
  also have "\<dots> = mset (pods @ filter (\<lambda>k. k \<notin> set pods) shown)"
    unfolding map_append concat_append si mset_append gr by (simp add: al)
  finally have eq: "mset (concat (map drawn_ids (vg_nodes (buildView lc known visible opts))))
      = mset (pods @ filter (\<lambda>k. k \<notin> set pods) shown)" .
  have "mset pods \<subseteq># mset (concat (map (map tn_id \<circ> snd) (by_owner known opts shown)))"
    unfolding pods_def groups_def by (rule mset_concat_filter_le)
  also have "mset (concat (map (map tn_id \<circ> snd) (by_owner known opts shown)))
      = mset (map tn_id (concat (jm_values (by_owner known opts shown))))"
    by (simp add: jm_values_def map_concat)
  also have "\<dots> = mset (filter (\<lambda>k. pod_owner known opts shown k \<noteq> None) shown)"
    by (rule grouped_ids [OF assms shown_def])
  finally have sub: "mset pods \<subseteq># mset (filter (\<lambda>k. pod_owner known opts shown k \<noteq> None) shown)" .
  have "distinct pods"
    using sub by (rule distinct_mset_le) (simp add: shown_def)
  moreover have "set pods \<subseteq> set shown" using set_mset_mono [OF sub] by auto
  ultimately have "distinct (pods @ filter (\<lambda>k. k \<notin> set pods) shown)"
    "set (pods @ filter (\<lambda>k. k \<notin> set pods) shown) = set shown"
    by (auto simp: shown_def)
  then show "distinct (concat (map drawn_ids (vg_nodes (buildView lc known visible opts))))"
    "set (concat (map drawn_ids (vg_nodes (buildView lc known visible opts)))) = set (shown_ids known opts visible)"
    using mset_eq_imp_distinct_iff [OF eq] mset_eq_setD [OF eq] by (simp_all add: shown_def)
qed

section \<open>Drawn edges\<close>

text \<open>Folding edges into a map sums the weights of those with one identifier.\<close>

lemma add_edge_get: "jm_get (add_edge m v) k =
    (if k = ve_id v then Some (case jm_get m k of Some p \<Rightarrow> p\<lparr>ve_weight := ve_weight p + ve_weight v\<rparr> | None \<Rightarrow> v)
     else jm_get m k)"
  by (auto simp: add_edge_def split: option.split)

lemma add_edge_wf [simp]: "jm_wf m \<Longrightarrow> jm_wf (add_edge m v)"
  by (auto simp: add_edge_def split: option.split)

definition folded_edges :: "view_edge list \<Rightarrow> (string, view_edge) jsmap" where
  "folded_edges vs = foldl add_edge [] vs"

lemma folded_edges_wf [simp]: "jm_wf (folded_edges vs)"
  unfolding folded_edges_def by (induction vs rule: rev_induct) auto

lemma folded_edges_snoc: "folded_edges (vs @ [v]) = add_edge (folded_edges vs) v"
  by (simp add: folded_edges_def)

lemma folded_edges_get:
  "(jm_get (folded_edges vs) k = None \<longleftrightarrow> k \<notin> ve_id ` set vs)
   \<and> (\<forall>p. jm_get (folded_edges vs) k = Some p \<longrightarrow> ve_id p = k
        \<and> ve_weight p = sum_list (map ve_weight (filter (\<lambda>v. ve_id v = k) vs))
        \<and> (\<exists>v \<in> set vs. ve_id v = k \<and> ve_source p = ve_source v \<and> ve_target p = ve_target v \<and> ve_relation p = ve_relation v))"
proof (induction vs rule: rev_induct)
  case Nil
  then show ?case by (simp add: folded_edges_def)
next
  case (snoc v vs)
  show ?case
  proof (cases "k = ve_id v")
    case False
    then show ?thesis using snoc by (auto simp: folded_edges_snoc add_edge_get)
  next
    case True
    show ?thesis
    proof (cases "jm_get (folded_edges vs) k")
      case None
      then have "k \<notin> ve_id ` set vs" using snoc by blast
      then have "filter (\<lambda>w. ve_id w = k) vs = []" by (auto simp: filter_empty_conv)
      with None True show ?thesis by (simp add: folded_edges_snoc add_edge_get del: sum_list_eq_0_iff)
    next
      case (Some p)
      with snoc True show ?thesis by (auto simp: folded_edges_snoc add_edge_get)
    qed
  qed
qed

lemma folded_edges_filter:
  "foldl (\<lambda>m e. case f e of None \<Rightarrow> m | Some v \<Rightarrow> add_edge m v) [] es = folded_edges (List.map_filter f es)"
  unfolding folded_edges_def
  by (induction es rule: rev_induct) (auto simp: map_filter_def split: option.split)

lemma folded_edges_values:
  assumes "p \<in> set (jm_values (folded_edges vs))"
  shows "jm_get (folded_edges vs) (ve_id p) = Some p"
proof -
  obtain k where k: "jm_get (folded_edges vs) k = Some p" using assms by (auto simp: jm_values_get)
  with folded_edges_get [of vs k] show ?thesis by auto
qed

text \<open>The edges that a view draws for, each with the drawn edge it counts for.\<close>

definition view_alias :: "(string \<Rightarrow> string \<Rightarrow> int) \<Rightarrow> known_graph \<Rightarrow> string list \<Rightarrow> view_options \<Rightarrow> (string, string) jsmap" where
  "view_alias lc known visible opts =
     fst (foldl (group_step lc known opts) ([], []) (by_owner known opts (shown_ids known opts visible)))"

definition lifted_edges :: "(string \<Rightarrow> string \<Rightarrow> int) \<Rightarrow> known_graph \<Rightarrow> string list \<Rightarrow> view_options \<Rightarrow> view_edge list" where
  "lifted_edges lc known visible opts =
     List.map_filter (lifted_edge (shown_ids known opts visible) (view_alias lc known visible opts)) (jm_values (kn_edges known))"

lemma view_edges: "set (vg_edges (buildView lc known visible opts))
    = set (jm_values (folded_edges (lifted_edges lc known visible opts)))"
  by (simp add: buildView_def Let_def folded_edges_filter lifted_edges_def view_alias_def)

lemma drawn_end:
  assumes "k \<in> set (shown_ids known opts visible)"
  shows "str_or (jm_get (view_alias lc known visible opts) k) k \<in> vn_id ` set (vg_nodes (buildView lc known visible opts))"
proof -
  define shown where "shown = shown_ids known opts visible"
  define al where "al = view_alias lc known visible opts"
  have nodes: "set (vg_nodes (buildView lc known visible opts))
      = (\<lambda>op. group_node lc known (fst op) (snd op)) ` set (filter (big_group opts) (by_owner known opts shown))
        \<union> single_node known ` set (filter (\<lambda>k. \<not> jm_has al k) shown)"
    using group_steps [of lc known opts "([], [])" "by_owner known opts shown"]
    by (simp add: buildView_def Let_def shown_def al_def view_alias_def)
  show ?thesis
  proof (cases "jm_get al k")
    case None
    then have "single_node known k \<in> set (vg_nodes (buildView lc known visible opts))"
      using assms by (simp add: nodes jm_has_get shown_def)
    with None show ?thesis by (force simp: al_def)
  next
    case (Some gid)
    then obtain op where op: "op \<in> set (filter (big_group opts) (by_owner known opts shown))" "gid = groupIdFor (fst op)"
      using group_steps [of lc known opts "([], [])" "by_owner known opts shown" k]
      by (auto simp: al_def view_alias_def shown_def)
    then have "group_node lc known (fst op) (snd op) \<in> set (vg_nodes (buildView lc known visible opts))"
      by (simp add: nodes)
    moreover have "vn_id (group_node lc known (fst op) (snd op)) = gid" "gid \<noteq> []"
      using op(2) by (simp_all add: groupIdFor_def)
    ultimately show ?thesis using Some by (force simp: al_def)
  qed
qed

lemma lifted_edges_drawn:
  assumes "v \<in> set (lifted_edges lc known visible opts)"
  shows "ve_source v \<in> vn_id ` set (vg_nodes (buildView lc known visible opts))"
    "ve_target v \<in> vn_id ` set (vg_nodes (buildView lc known visible opts))"
    "ve_weight v = 1" "ve_source v \<noteq> ve_target v"
  using assms drawn_end
  by (auto simp: lifted_edges_def map_filter_def lifted_edge_def Let_def split: if_splits)

lemma view_edges_all:
  assumes "p \<in> set (vg_edges (buildView lc known visible opts))"
  shows "ve_source p \<in> vn_id ` set (vg_nodes (buildView lc known visible opts))"
    and "ve_target p \<in> vn_id ` set (vg_nodes (buildView lc known visible opts))"
    and "ve_source p \<noteq> ve_target p"
    and "ve_weight p = length (filter (\<lambda>v. ve_id v = ve_id p) (lifted_edges lc known visible opts))"
    and "0 < ve_weight p"
proof -
  define vs where "vs = lifted_edges lc known visible opts"
  have "jm_get (folded_edges vs) (ve_id p) = Some p"
    using assms folded_edges_values by (auto simp: view_edges vs_def)
  then have p: "ve_weight p = sum_list (map ve_weight (filter (\<lambda>v. ve_id v = ve_id p) vs))"
    "\<exists>v \<in> set vs. ve_id v = ve_id p \<and> ve_source p = ve_source v \<and> ve_target p = ve_target v"
    using folded_edges_get [of vs "ve_id p"] by auto
  from p(2) obtain v where v: "v \<in> set vs" "ve_source p = ve_source v" "ve_target p = ve_target v" by auto
  show "ve_source p \<in> vn_id ` set (vg_nodes (buildView lc known visible opts))"
    "ve_target p \<in> vn_id ` set (vg_nodes (buildView lc known visible opts))" "ve_source p \<noteq> ve_target p"
    using lifted_edges_drawn [OF v(1) [unfolded vs_def]] by (simp_all add: v)
  have "map ve_weight (filter (\<lambda>v. ve_id v = ve_id p) vs) = replicate (length (filter (\<lambda>v. ve_id v = ve_id p) vs)) 1"
    using lifted_edges_drawn(3) by (intro replicate_eqI) (auto simp: vs_def)
  then show w: "ve_weight p = length (filter (\<lambda>v. ve_id v = ve_id p) (lifted_edges lc known visible opts))"
    by (simp add: p(1) vs_def sum_list_replicate)
  show "0 < ve_weight p" unfolding w using p(2) by (auto simp: vs_def filter_empty_conv)
qed

end
