(* ===== verification/TopologyApp.thy ===== *)
theory TopologyApp
  imports TopologyView
begin

text \<open>
  The application view of the topology (\<open>components/topology/appModel.ts\<close>): a Deployment's
  only ReplicaSet folds into it, each drawn node gets a lane, small configuration nodes hang
  under the workload that uses them, and edges that repeat what is drawn are left out.
\<close>

section \<open>Data\<close>

definition SATELLITE_KINDS :: "string list" where
  "SATELLITE_KINDS =
    [''ConfigMap'', ''Secret'', ''ServiceAccount'', ''PersistentVolumeClaim'',
     ''HorizontalPodAutoscaler'', ''PodDisruptionBudget'', ''NetworkPolicy'']"

definition HOST_KINDS :: "string list" where
  "HOST_KINDS = [''Deployment'', ''StatefulSet'', ''DaemonSet'', ''ReplicaSet'', ''Job'', ''CronJob'', ''Pod'']"

definition OTHER_LANE :: string where
  "OTHER_LANE = ''other''"

definition SAT_OUTGOING :: "string list" where
  "SAT_OUTGOING = [''scales'', ''protects'', ''applies-to'']"

datatype lane_source = LApp | LOwner | LOther

record app_lane =
  al_id :: string
  al_label :: string
  al_source :: lane_source
  al_nodeIds :: "string list"
  al_health :: health
  al_counts :: health_counts

record app_view =
  av_lanes :: "app_lane list"
  av_hostOf :: "(string, string) jsmap"
  av_satellitesOf :: "(string, string list) jsmap"
  av_edges :: "view_edge list"
  av_view :: view_graph
  av_folded :: "(string, string) jsmap"

section \<open>Owners\<close>

text \<open>The owner's identifier, when the node is known and names one.\<close>

definition owner_of :: "known_graph \<Rightarrow> string \<Rightarrow> string option" where
  "owner_of known k =
     (case jm_get (kn_nodes known) k of None \<Rightarrow> None
      | Some n \<Rightarrow> if truthy_str (tn_owner n) then tn_owner n else None)"

fun top_owner_steps :: "nat \<Rightarrow> known_graph \<Rightarrow> string \<Rightarrow> string" where
  "top_owner_steps 0 known cur = cur"
| "top_owner_steps (Suc i) known cur =
     (case owner_of known cur of None \<Rightarrow> cur
      | Some ow \<Rightarrow> if jm_has (kn_nodes known) ow then top_owner_steps i known ow else cur)"

definition topOwner :: "known_graph \<Rightarrow> string \<Rightarrow> string" where
  "topOwner known k = top_owner_steps 8 known k"

fun owner_chain_steps :: "nat \<Rightarrow> known_graph \<Rightarrow> string list \<Rightarrow> string \<Rightarrow> string list" where
  "owner_chain_steps 0 known out cur = out"
| "owner_chain_steps (Suc i) known out cur =
     (case owner_of known cur of None \<Rightarrow> out
      | Some ow \<Rightarrow> if ow \<in> set out then out else owner_chain_steps i known (out @ [ow]) ow)"

definition ownerChain :: "known_graph \<Rightarrow> string \<Rightarrow> string list" where
  "ownerChain known k = owner_chain_steps 8 known [k] k"

definition unreferencedConfig :: "known_graph \<Rightarrow> string list" where
  "unreferencedConfig known =
     foldl (\<lambda>out n. if tn_kind n \<in> set SATELLITE_KINDS \<and> tn_id n \<notin> set (touched_ids (kn_edges known))
              then js_add out (tn_id n) else out) [] (jm_values (kn_nodes known))"

section \<open>Folding a Deployment's only ReplicaSet\<close>

text \<open>The Deployment a drawn ReplicaSet belongs to, when both are drawn.\<close>

definition drawn_deployment :: "known_graph \<Rightarrow> view_graph \<Rightarrow> view_node \<Rightarrow> string option" where
  "drawn_deployment known view v =
     (if tn_kind (vn_node v) \<noteq> ''ReplicaSet'' \<or> vn_members v \<noteq> None then None
      else if \<not> truthy_str (tn_owner (vn_node v)) \<or> the (tn_owner (vn_node v)) \<notin> set (map vn_id (vg_nodes view))
              \<or> map_option tn_kind (jm_get (kn_nodes known) (the (tn_owner (vn_node v)))) \<noteq> Some ''Deployment''
           then None else tn_owner (vn_node v))"

definition replica_sets_of :: "known_graph \<Rightarrow> view_graph \<Rightarrow> (string, string list) jsmap" where
  "replica_sets_of known view =
     foldl (\<lambda>m v. case drawn_deployment known view v of None \<Rightarrow> m | Some dep \<Rightarrow> jm_push m dep (vn_id v))
       [] (vg_nodes view)"

definition folded_sets :: "(string, string list) jsmap \<Rightarrow> (string, string) jsmap" where
  "folded_sets rsOf =
     foldl (\<lambda>m (dep, ids). if length ids = 1 then jm_set m (hd ids) dep else m) [] rsOf"

definition refolded_edge :: "(string, string) jsmap \<Rightarrow> view_edge \<Rightarrow> view_edge option" where
  "refolded_edge folded e =
     (let s = str_or (jm_get folded (ve_source e)) (ve_source e);
          t = str_or (jm_get folded (ve_target e)) (ve_target e)
      in if s = t then None
         else Some (e\<lparr>ve_id := s @ ''|'' @ ve_relation e @ ''|'' @ t, ve_source := s, ve_target := t\<rparr>))"

definition foldReplicaSets ::
  "(string \<Rightarrow> string \<Rightarrow> int) \<Rightarrow> known_graph \<Rightarrow> view_graph \<Rightarrow> view_graph \<times> (string, string) jsmap" where
  "foldReplicaSets lc known view =
     (let folded = folded_sets (replica_sets_of known view) in
      if jm_size folded = 0 then (view, folded)
      else let edges = foldl (\<lambda>m e. case refolded_edge folded e of None \<Rightarrow> m | Some v \<Rightarrow> add_edge m v) [] (vg_edges view)
           in (\<lparr>vg_nodes = filter (\<lambda>v. \<not> jm_has folded (vn_id v)) (vg_nodes view),
                vg_edges = js_sort (\<lambda>a b. lc (ve_id a) (ve_id b)) (jm_values edges)\<rparr>, folded))"

section \<open>Lanes\<close>

type_synonym lane_map = "(string, string) jsmap"
type_synonym label_map = "(string, string \<times> lane_source) jsmap"

definition setLane :: "lane_map \<times> label_map \<Rightarrow> string \<Rightarrow> string \<times> string \<times> lane_source \<Rightarrow> lane_map \<times> label_map" where
  "setLane ll vid key =
     (jm_set (fst ll) vid (fst key), if jm_has (snd ll) (fst key) then snd ll else jm_set (snd ll) (fst key) (snd key))"

definition app_key :: "string \<Rightarrow> string \<times> string \<times> lane_source" where
  "app_key a = (''app:'' @ a, a, LApp)"

definition ownKey :: "known_graph \<Rightarrow> view_node \<Rightarrow> (string \<times> string \<times> lane_source) option" where
  "ownKey known v =
     (let n = (if vn_members v \<noteq> None
               then nullish (case tn_owner (vn_node v) of None \<Rightarrow> None | Some ow \<Rightarrow> jm_get (kn_nodes known) ow) (vn_node v)
               else vn_node v)
      in if truthy_str (tn_app n) then Some (app_key (the (tn_app n)))
         else if tn_kind n \<notin> set HOST_KINDS then None
         else let top = nullish (jm_get (kn_nodes known) (topOwner known (tn_id n))) n
              in if truthy_str (tn_app top) then Some (app_key (the (tn_app top)))
                 else Some (''owner:'' @ tn_id top, tn_name top, LOwner))"

definition is_satellite :: "view_node \<Rightarrow> bool" where
  "is_satellite v = (tn_kind (vn_node v) \<in> set SATELLITE_KINDS)"

definition is_host :: "view_node \<Rightarrow> bool" where
  "is_host v = (tn_kind (vn_node v) \<in> set HOST_KINDS)"

definition named_lanes :: "known_graph \<Rightarrow> view_node list \<Rightarrow> lane_map \<times> label_map" where
  "named_lanes known vs =
     foldl (\<lambda>ll v. if is_satellite v \<and> \<not> truthy_str (tn_app (vn_node v)) then ll
              else (case ownKey known v of None \<Rightarrow> ll | Some key \<Rightarrow> setLane ll (vn_id v) key)) ([], []) vs"

definition edges_by :: "(view_edge \<Rightarrow> string) \<Rightarrow> view_edge list \<Rightarrow> (string, view_edge list) jsmap" where
  "edges_by f es = foldl (\<lambda>m e. jm_push m (f e) e) [] es"

text \<open>\<open>.find(Boolean)\<close> over looked-up lanes.\<close>

definition first_lane :: "string option list \<Rightarrow> string option" where
  "first_lane ls = (case find truthy_str ls of None \<Rightarrow> None | Some l \<Rightarrow> l)"

definition entry_pass :: "(string, view_edge list) jsmap \<Rightarrow> view_node list \<Rightarrow> lane_map \<Rightarrow> lane_map" where
  "entry_pass outgoing vs laneOf =
     foldl (\<lambda>m v. if jm_has m (vn_id v) \<or> is_satellite v then m
              else (case first_lane (map (\<lambda>e. jm_get m (ve_target e))
                           (filter (\<lambda>e. ve_relation e \<noteq> ''runs-on'') (nullish (jm_get outgoing (vn_id v)) []))) of
                      None \<Rightarrow> m | Some l \<Rightarrow> jm_set m (vn_id v) l)) laneOf vs"

section \<open>Satellites\<close>

definition drawn_as :: "view_graph \<Rightarrow> (string, string) jsmap \<Rightarrow> (string, string) jsmap" where
  "drawn_as view folded =
     foldl (\<lambda>m ft. jm_set m (fst ft) (snd ft))
       (foldl (\<lambda>m v. foldl (\<lambda>m t. jm_set m (tn_id t) (vn_id v)) (jm_set m (vn_id v) (vn_id v)) (nullish (vn_members v) []))
          [] (vg_nodes view))
       folded"

definition by_id :: "view_graph \<Rightarrow> (string, view_node) jsmap" where
  "by_id view = js_map_of (map (\<lambda>v. (vn_id v, v)) (vg_nodes view))"

definition hostRank :: "(string, view_node) jsmap \<Rightarrow> string \<Rightarrow> int" where
  "hostRank byId vid =
     (let k = (case jm_get byId vid of None \<Rightarrow> [] | Some v \<Rightarrow> tn_kind (vn_node v))
      in if k = ''Pod'' then 2 else if k = ''ReplicaSet'' then 1 else 0)"

definition host_drawn :: "(string, view_node) jsmap \<Rightarrow> string \<Rightarrow> bool" where
  "host_drawn byId k = (case jm_get byId k of None \<Rightarrow> False | Some v \<Rightarrow> is_host v)"

text \<open>The drawn workload an edge's other end stands for, its top drawn owner first.\<close>

definition candidate_host ::
  "known_graph \<Rightarrow> (string, view_node) jsmap \<Rightarrow> (string, string) jsmap \<Rightarrow> string \<Rightarrow> string \<Rightarrow> string option" where
  "candidate_host known byId drawnAs vid otherId =
     (case jm_get drawnAs otherId of None \<Rightarrow> None
      | Some ov \<Rightarrow>
          if ov = [] \<or> ov = vid \<or> \<not> host_drawn byId ov then None
          else let ovNode = the (jm_get byId ov);
                   chain = ownerChain known (if vn_members ovNode \<noteq> None then the (tn_owner (vn_node ovNode)) else ov);
                   top = find (\<lambda>r. truthy_str r \<and> host_drawn byId (the r)) (map (jm_get drawnAs) (rev chain))
               in Some (case top of Some (Some t) \<Rightarrow> t | _ \<Rightarrow> ov))"

definition consider_host ::
  "known_graph \<Rightarrow> (string, view_node) jsmap \<Rightarrow> (string, string) jsmap \<Rightarrow> string \<Rightarrow> string list \<Rightarrow> string \<Rightarrow> string list" where
  "consider_host known byId drawnAs vid cs otherId =
     (case candidate_host known byId drawnAs vid otherId of None \<Rightarrow> cs | Some h \<Rightarrow> js_add cs h)"

definition candidate_hosts ::
  "known_graph \<Rightarrow> (string, view_node) jsmap \<Rightarrow> (string, string) jsmap \<Rightarrow> view_node \<Rightarrow> string list" where
  "candidate_hosts known byId drawnAs v =
     foldl (\<lambda>cs e.
        let cs1 = (if te_target e = tn_id (vn_node v) \<and> te_relation e \<notin> set SAT_OUTGOING
                   then consider_host known byId drawnAs (vn_id v) cs (te_source e) else cs)
        in if te_source e = tn_id (vn_node v) \<and> te_relation e \<in> set SAT_OUTGOING
           then consider_host known byId drawnAs (vn_id v) cs1 (te_target e) else cs1)
       [] (jm_values (kn_edges known))"

definition hosts_of ::
  "(string \<Rightarrow> string \<Rightarrow> int) \<Rightarrow> known_graph \<Rightarrow> (string, view_node) jsmap \<Rightarrow> (string, string) jsmap
    \<Rightarrow> view_node list \<Rightarrow> (string, string) jsmap" where
  "hosts_of lc known byId drawnAs vs =
     foldl (\<lambda>m v. if \<not> is_satellite v then m
              else (case js_sort (\<lambda>a b. let r = hostRank byId a - hostRank byId b in if r \<noteq> 0 then r else lc a b)
                           (candidate_hosts known byId drawnAs v) of
                      [] \<Rightarrow> m
                    | h # _ \<Rightarrow> if h \<noteq> [] \<and> \<not> is_satellite (the (jm_get byId h)) then jm_set m (vn_id v) h else m)) [] vs"

definition ride_with_hosts :: "(string, string) jsmap \<Rightarrow> lane_map \<Rightarrow> lane_map" where
  "ride_with_hosts hostOf laneOf =
     foldl (\<lambda>m sh. if truthy_str (jm_get m (snd sh)) then jm_set m (fst sh) (the (jm_get m (snd sh))) else m) laneOf hostOf"

definition pointed_lanes :: "(string, view_edge list) jsmap \<Rightarrow> view_node list \<Rightarrow> lane_map \<Rightarrow> lane_map" where
  "pointed_lanes incoming vs laneOf =
     foldl (\<lambda>m v. if jm_has m (vn_id v) then m
              else (case first_lane (map (\<lambda>e. jm_get m (ve_source e)) (nullish (jm_get incoming (vn_id v)) [])) of
                      None \<Rightarrow> m | Some l \<Rightarrow> jm_set m (vn_id v) l)) laneOf vs"

section \<open>The lanes drawn\<close>

definition new_lane :: "label_map \<Rightarrow> string \<Rightarrow> app_lane" where
  "new_lane labels key =
     (let meta = nullish (jm_get labels key) (''Other resources'', LOther)
      in \<lparr>al_id = key, al_label = fst meta, al_source = (if key = OTHER_LANE then LOther else snd meta),
          al_nodeIds = [], al_health = HUnknown, al_counts = no_counts\<rparr>)"

definition add_counts :: "health_counts \<Rightarrow> health_counts \<Rightarrow> health_counts" where
  "add_counts c d = foldl (\<lambda>c h. add_count c h (health_count d h)) c [HHealthy, HWarning, HError, HUnknown]"

definition vote :: "(string, string) jsmap \<Rightarrow> view_node \<Rightarrow> app_lane \<Rightarrow> app_lane" where
  "vote hostOf v lane =
     (if jm_has hostOf (vn_id v) then lane
      else (case vn_counts v of
              Some d \<Rightarrow> lane\<lparr>al_counts := add_counts (al_counts lane) d\<rparr>
            | None \<Rightarrow> if tn_missing (vn_node v) then lane
                      else lane\<lparr>al_counts := add_count (al_counts lane) (tn_health (vn_node v)) 1\<rparr>))"

definition lane_key :: "lane_map \<Rightarrow> string \<Rightarrow> string" where
  "lane_key laneOf vid = str_or (jm_get laneOf vid) OTHER_LANE"

definition join_lane ::
  "(string, string) jsmap \<Rightarrow> lane_map \<Rightarrow> label_map \<Rightarrow> (string, app_lane) jsmap \<Rightarrow> view_node \<Rightarrow> (string, app_lane) jsmap" where
  "join_lane hostOf laneOf labels lanes v =
     (let key = lane_key laneOf (vn_id v);
          lane = nullish (jm_get lanes key) (new_lane labels key)
      in jm_set lanes key (vote hostOf v (lane\<lparr>al_nodeIds := al_nodeIds lane @ [vn_id v]\<rparr>)))"

definition severity :: "health \<Rightarrow> int" where
  "severity h = (case h of HError \<Rightarrow> 0 | HWarning \<Rightarrow> 1 | HUnknown \<Rightarrow> 2 | HHealthy \<Rightarrow> 2)"

definition lane_order :: "(string \<Rightarrow> string \<Rightarrow> int) \<Rightarrow> app_lane \<Rightarrow> app_lane \<Rightarrow> int" where
  "lane_order lc a b =
     (if (al_id a = OTHER_LANE) \<noteq> (al_id b = OTHER_LANE) then (if al_id a = OTHER_LANE then 1 else - 1)
      else let d = severity (al_health a) - severity (al_health b) in if d \<noteq> 0 then d else lc (al_label a) (al_label b))"

definition drawn_lanes ::
  "(string \<Rightarrow> string \<Rightarrow> int) \<Rightarrow> (string, string) jsmap \<Rightarrow> lane_map \<Rightarrow> label_map \<Rightarrow> view_node list \<Rightarrow> app_lane list" where
  "drawn_lanes lc hostOf laneOf labels vs =
     js_sort (lane_order lc)
       (map (\<lambda>lane. lane\<lparr>al_health := worstHealth (al_counts lane)\<rparr>)
          (jm_values (foldl (join_lane hostOf laneOf labels) [] vs)))"

definition kind_index :: "(string, view_node) jsmap \<Rightarrow> string \<Rightarrow> int" where
  "kind_index byId k =
     (case find_index (\<lambda>x. x = tn_kind (vn_node (the (jm_get byId k)))) SATELLITE_KINDS of None \<Rightarrow> - 1 | Some i \<Rightarrow> int i)"

definition satellite_order :: "(string \<Rightarrow> string \<Rightarrow> int) \<Rightarrow> (string, view_node) jsmap \<Rightarrow> string \<Rightarrow> string \<Rightarrow> int" where
  "satellite_order lc byId a b =
     (let d = kind_index byId a - kind_index byId b
      in if d \<noteq> 0 then d else lc (tn_name (vn_node (the (jm_get byId a)))) (tn_name (vn_node (the (jm_get byId b)))))"

definition satellites_of ::
  "(string \<Rightarrow> string \<Rightarrow> int) \<Rightarrow> (string, view_node) jsmap \<Rightarrow> (string, string) jsmap \<Rightarrow> (string, string list) jsmap" where
  "satellites_of lc byId hostOf =
     map (\<lambda>(h, sats). (h, js_sort (satellite_order lc byId) sats))
       (foldl (\<lambda>m sh. jm_push m (snd sh) (fst sh)) [] hostOf)"

section \<open>Edges still drawn\<close>

definition exposed_by :: "view_edge list \<Rightarrow> (string, string list) jsmap" where
  "exposed_by es =
     foldl (\<lambda>m e. if ve_relation e \<noteq> ''exposes'' then m
              else jm_set m (ve_source e) (js_add (nullish (jm_get m (ve_source e)) []) (ve_target e))) [] es"

text \<open>A Service's \<open>selects\<close> edge to pods whose workload it already exposes.\<close>

definition repeats_exposes ::
  "known_graph \<Rightarrow> (string, view_node) jsmap \<Rightarrow> (string, string list) jsmap \<Rightarrow> view_edge \<Rightarrow> bool" where
  "repeats_exposes known byId exposes e =
     (ve_relation e = ''selects''
      \<and> (case jm_get exposes (ve_source e) of None \<Rightarrow> False
         | Some exposed \<Rightarrow>
             let start = (case jm_get byId (ve_target e) of None \<Rightarrow> ve_target e
                          | Some t \<Rightarrow> if vn_members t \<noteq> None then the (tn_owner (vn_node t)) else ve_target e)
             in list_ex (\<lambda>k. k \<in> set exposed) (ownerChain known start)))"

definition pruneEdges :: "known_graph \<Rightarrow> view_graph \<Rightarrow> (string, string) jsmap \<Rightarrow> view_edge list" where
  "pruneEdges known view hostOf =
     filter (\<lambda>e. \<not> (jm_has hostOf (ve_source e) \<or> jm_has hostOf (ve_target e))
               \<and> \<not> repeats_exposes known (by_id view) (exposed_by (vg_edges view)) e) (vg_edges view)"

definition settled_lanes ::
  "(string \<Rightarrow> string \<Rightarrow> int) \<Rightarrow> known_graph \<Rightarrow> view_graph \<Rightarrow> (string, string) jsmap \<Rightarrow> (string, string) jsmap \<times> lane_map \<times> label_map" where
  "settled_lanes lc known view folded =
     (let vs = vg_nodes view;
          ll = named_lanes known vs;
          outgoing = edges_by ve_source (vg_edges view);
          incoming = edges_by ve_target (vg_edges view);
          laneOf1 = entry_pass outgoing vs (entry_pass outgoing vs (entry_pass outgoing vs (fst ll)));
          hostOf = hosts_of lc known (by_id view) (drawn_as view folded) vs;
          laneOf2 = pointed_lanes incoming vs (ride_with_hosts hostOf laneOf1)
      in (hostOf, laneOf2, snd ll))"

definition buildAppView :: "(string \<Rightarrow> string \<Rightarrow> int) \<Rightarrow> known_graph \<Rightarrow> view_graph \<Rightarrow> app_view" where
  "buildAppView lc known fullView =
     (let vf = foldReplicaSets lc known fullView; view = fst vf; folded = snd vf;
          sl = settled_lanes lc known view folded;
          hostOf = fst sl; laneOf = fst (snd sl); labels = snd (snd sl);
          hostOf' = filter (\<lambda>sh. jm_get laneOf (fst sh) = jm_get laneOf (snd sh)) hostOf
      in \<lparr>av_lanes = drawn_lanes lc hostOf laneOf labels (vg_nodes view), av_hostOf = hostOf',
          av_satellitesOf = satellites_of lc (by_id view) hostOf',
          av_edges = pruneEdges known view hostOf', av_view = view, av_folded = folded\<rparr>)"

definition laneSize :: "app_lane \<Rightarrow> app_view \<Rightarrow> nat" where
  "laneSize lane app = length (filter (\<lambda>k. \<not> jm_has (av_hostOf app) k) (al_nodeIds lane))"

end
