(* ===== verification/TopologySession.thy ===== *)
theory TopologySession
  imports TopologyView
begin

text \<open>
  The state behind the topology view (\<open>components/topology/useTopologyGraph.ts\<close>): what is
  looked at, what is known and expanded, and the requests under way. Requests are answered
  in any order; each carries the generation it was made in, and an answer to an earlier one
  is dropped. Updates of one event are applied before the next event, as React does.
\<close>

section \<open>Errors (\<open>utils/errorMessage.ts\<close>)\<close>

record api_error =
  ae_body :: "string option"
  ae_message :: "string option"

definition getErrorMessage :: "api_error \<Rightarrow> string \<Rightarrow> string" where
  "getErrorMessage err fallback = str_or (opt_or (ae_body err) (ae_message err)) fallback"

definition failureMessage :: "string \<Rightarrow> api_error \<Rightarrow> string" where
  "failureMessage action err =
     (let detail = getErrorMessage err [] in if detail \<noteq> [] then action @ '': '' @ detail else action)"

section \<open>State\<close>

record topo_ref =
  tr_group :: "string option"
  tr_version :: "string option"
  tr_kind :: string
  tr_namespace :: "string option"
  tr_name :: string

datatype topo_mode =
    FocusMode topo_ref "string option"
  | NamespaceMode string

datatype topo_call =
    CallNeighbors string topo_ref "string option" bool
  | CallNamespace string string bool

datatype topo_pending =
    PLoad nat topo_call
  | PExpand nat string string topo_call
  | PRefreshNamespace nat topo_call
  | PRefreshFocus nat "(string \<times> topo_call option) list"

record topo_session =
  ts_cluster :: string
  ts_mode :: "topo_mode option"
  ts_includeIdle :: bool
  ts_poll :: bool
  ts_known :: known_graph
  ts_focusId :: "string option"
  ts_expanded :: "string list"
  ts_loadingIds :: "string list"
  ts_loading :: bool
  ts_error :: "string option"
  ts_updatedAt :: "int option"
  ts_generation :: nat
  ts_aborted :: bool
  ts_pending :: "topo_pending list"

definition initial_session :: "bool \<Rightarrow> topo_session" where
  "initial_session poll =
     \<lparr>ts_cluster = [], ts_mode = None, ts_includeIdle = False, ts_poll = poll, ts_known = emptyKnown,
      ts_focusId = None, ts_expanded = [], ts_loadingIds = [], ts_loading = False, ts_error = None,
      ts_updatedAt = None, ts_generation = 0, ts_aborted = False, ts_pending = []\<rparr>"

definition refOfNode :: "topo_node \<Rightarrow> topo_ref" where
  "refOfNode n = \<lparr>tr_group = Some (tn_group n), tr_version = Some (tn_version n), tr_kind = tn_kind n,
     tr_namespace = tn_namespace n, tr_name = tn_name n\<rparr>"

definition modeKey :: "topo_mode option \<Rightarrow> string" where
  "modeKey mode =
     (case mode of None \<Rightarrow> []
      | Some (FocusMode ref _) \<Rightarrow> ''f:'' @ nodeIdFor (tr_kind ref) (tr_namespace ref) (tr_name ref)
      | Some (NamespaceMode namespace) \<Rightarrow> ''n:'' @ namespace)"

definition contextNs :: "topo_mode option \<Rightarrow> string option" where
  "contextNs mode =
     (case mode of None \<Rightarrow> None
      | Some (FocusMode ref context) \<Rightarrow> opt_or context (tr_namespace ref)
      | Some (NamespaceMode namespace) \<Rightarrow> Some namespace)"

definition visible_ids :: "topo_session \<Rightarrow> string list" where
  "visible_ids s =
     (case ts_mode s of
        Some (NamespaceMode _) \<Rightarrow> jm_keys (kn_nodes (ts_known s))
      | _ \<Rightarrow> if truthy_str (ts_focusId s)
             then visibleFromFocus (ts_known s) (the (ts_focusId s)) (ts_expanded s) else [])"

section \<open>Looking at something else\<close>

definition load_call :: "topo_session \<Rightarrow> topo_mode \<Rightarrow> topo_call" where
  "load_call s mode =
     (case mode of
        FocusMode ref _ \<Rightarrow> CallNeighbors (ts_cluster s) ref (contextNs (Some mode)) (ts_includeIdle s)
      | NamespaceMode namespace \<Rightarrow> CallNamespace (ts_cluster s) namespace (ts_includeIdle s))"

text \<open>The effect that loads from scratch, after the cleanup of the one before aborted its request.\<close>

definition load_effect :: "topo_session \<Rightarrow> topo_session" where
  "load_effect s0 =
     (let s = s0\<lparr>ts_aborted := True\<rparr> in
      case ts_mode s of None \<Rightarrow> s
      | Some mode \<Rightarrow>
          if ts_cluster s = [] then s
          else let gen = ts_generation s + 1
               in s\<lparr>ts_generation := gen, ts_aborted := False, ts_loading := True, ts_error := None,
                    ts_known := emptyKnown, ts_expanded := [], ts_pending := ts_pending s @ [PLoad gen (load_call s mode)]\<rparr>)"

definition configure :: "topo_session \<Rightarrow> string \<Rightarrow> topo_mode option \<Rightarrow> bool \<Rightarrow> topo_session" where
  "configure s cluster mode includeIdle =
     (let s' = s\<lparr>ts_cluster := cluster, ts_mode := mode, ts_includeIdle := includeIdle\<rparr>
      in if (cluster, modeKey mode, includeIdle) = (ts_cluster s, modeKey (ts_mode s), ts_includeIdle s)
         then s' else load_effect s')"

definition load_done :: "topo_session \<Rightarrow> nat \<Rightarrow> topo_graph \<Rightarrow> int \<Rightarrow> topo_session" where
  "load_done s gen g now =
     (if gen \<noteq> ts_generation s then s
      else s\<lparr>ts_known := knownFrom g, ts_focusId := tg_focus g,
             ts_expanded := (if truthy_str (tg_focus g) then [the (tg_focus g)] else []),
             ts_updatedAt := Some now, ts_loading := False\<rparr>)"

definition load_failed :: "topo_session \<Rightarrow> nat \<Rightarrow> api_error \<Rightarrow> topo_session" where
  "load_failed s gen err =
     (if gen \<noteq> ts_generation s then s
      else let s' = (if ts_aborted s then s
                     else s\<lparr>ts_error := Some (failureMessage ''Could not load the topology'' err)\<rparr>)
           in s'\<lparr>ts_loading := False\<rparr>)"

section \<open>Expanding and collapsing\<close>

definition expand_start :: "topo_session \<Rightarrow> string \<Rightarrow> topo_session" where
  "expand_start s k =
     (case jm_get (kn_nodes (ts_known s)) k of None \<Rightarrow> s
      | Some n \<Rightarrow>
          if ts_cluster s = [] then s
          else s\<lparr>ts_loadingIds := js_add (ts_loadingIds s) k,
                 ts_pending := ts_pending s @ [PExpand (ts_generation s) k (tn_name n)
                   (CallNeighbors (ts_cluster s) (refOfNode n) (opt_or (tn_namespace n) (contextNs (ts_mode s))) (ts_includeIdle s))]\<rparr>)"

definition not_loading :: "topo_session \<Rightarrow> string \<Rightarrow> topo_session" where
  "not_loading s k = s\<lparr>ts_loadingIds := filter (\<lambda>x. x \<noteq> k) (ts_loadingIds s)\<rparr>"

definition expand_done :: "topo_session \<Rightarrow> nat \<Rightarrow> string \<Rightarrow> topo_graph \<Rightarrow> topo_session" where
  "expand_done s gen k g =
     not_loading
       (if gen \<noteq> ts_generation s then s
        else s\<lparr>ts_known := mergeGraph (ts_known s) g (Some [k]), ts_expanded := js_add (ts_expanded s) k\<rparr>) k"

definition expand_failed :: "topo_session \<Rightarrow> nat \<Rightarrow> string \<Rightarrow> string \<Rightarrow> api_error \<Rightarrow> topo_session" where
  "expand_failed s gen k name err =
     not_loading
       (if gen = ts_generation s then s\<lparr>ts_error := Some (failureMessage (''Could not expand '' @ name) err)\<rparr> else s) k"

definition collapse :: "topo_session \<Rightarrow> string \<Rightarrow> topo_session" where
  "collapse s k = s\<lparr>ts_expanded := filter (\<lambda>x. x \<noteq> k) (ts_expanded s)\<rparr>"

definition expand_todo :: "topo_session \<Rightarrow> string list" where
  "expand_todo s =
     take 40 (filter (\<lambda>k. k \<notin> set (ts_expanded s) \<and> \<not> starts_with k ''Node/'' \<and> \<not> starts_with k ''StorageClass/'')
       (if truthy_str (ts_focusId s) then visibleFromFocus (ts_known s) (the (ts_focusId s)) (ts_expanded s) else []))"

definition expandAll :: "topo_session \<Rightarrow> topo_session" where
  "expandAll s = foldl expand_start s (expand_todo s)"

section \<open>Live updates\<close>

definition refresh_start :: "topo_session \<Rightarrow> topo_session" where
  "refresh_start s =
     (case ts_mode s of None \<Rightarrow> s
      | Some mode \<Rightarrow>
          if ts_cluster s = [] then s
          else (case mode of
              NamespaceMode namespace \<Rightarrow>
                s\<lparr>ts_pending := ts_pending s
                   @ [PRefreshNamespace (ts_generation s) (CallNamespace (ts_cluster s) namespace (ts_includeIdle s))]\<rparr>
            | FocusMode _ _ \<Rightarrow>
                s\<lparr>ts_pending := ts_pending s
                   @ [PRefreshFocus (ts_generation s)
                       (map (\<lambda>k. (k, map_option (\<lambda>n. CallNeighbors (ts_cluster s) (refOfNode n)
                                        (opt_or (tn_namespace n) (contextNs (ts_mode s))) (ts_includeIdle s))
                                      (jm_get (kn_nodes (ts_known s)) k))) (ts_expanded s))]\<rparr>))"

definition refreshed :: "topo_session \<Rightarrow> known_graph \<Rightarrow> int \<Rightarrow> topo_session" where
  "refreshed s known now = s\<lparr>ts_known := known, ts_updatedAt := Some now, ts_error := None\<rparr>"

definition refresh_namespace_done :: "topo_session \<Rightarrow> nat \<Rightarrow> topo_graph \<Rightarrow> int \<Rightarrow> topo_session" where
  "refresh_namespace_done s gen g now =
     (if gen \<noteq> ts_generation s then s else refreshed s (knownFrom g) now)"

definition refresh_namespace_failed :: "topo_session \<Rightarrow> nat \<Rightarrow> api_error \<Rightarrow> topo_session" where
  "refresh_namespace_failed s gen err =
     (if gen = ts_generation s then s\<lparr>ts_error := Some (failureMessage ''Could not refresh the topology'' err)\<rparr> else s)"

text \<open>A failed read of one expanded node is \<open>None\<close>: the others are merged without it.\<close>

definition merge_refreshed :: "known_graph \<Rightarrow> (string \<times> topo_graph option) list \<Rightarrow> known_graph" where
  "merge_refreshed known results =
     foldl (\<lambda>acc (k, r). case r of None \<Rightarrow> acc | Some g \<Rightarrow> mergeGraph acc g (Some [k])) known results"

definition refresh_focus_done :: "topo_session \<Rightarrow> nat \<Rightarrow> (string \<times> topo_graph option) list \<Rightarrow> int \<Rightarrow> topo_session" where
  "refresh_focus_done s gen results now =
     (if gen \<noteq> ts_generation s then s else refreshed s (merge_refreshed (ts_known s) results) now)"

definition poll_tick :: "topo_session \<Rightarrow> bool \<Rightarrow> topo_session" where
  "poll_tick s document_visible =
     (if ts_poll s \<and> ts_mode s \<noteq> None \<and> document_visible then refresh_start s else s)"

section \<open>The session as a transition system\<close>

definition answered :: "topo_pending \<Rightarrow> topo_session \<Rightarrow> topo_session" where
  "answered p s = s\<lparr>ts_pending := remove1 p (ts_pending s)\<rparr>"

text \<open>A step carries the graphs it took in, each with the generation of its request.\<close>

definition graphs_of :: "nat \<Rightarrow> (string \<times> topo_graph option) list \<Rightarrow> (nat \<times> topo_graph) list" where
  "graphs_of gen results = List.map_filter (\<lambda>(k, r). map_option (Pair gen) r) results"

inductive topo_step :: "topo_session \<Rightarrow> (nat \<times> topo_graph) list \<Rightarrow> topo_session \<Rightarrow> bool" where
  st_configure: "topo_step s [] (configure s cluster mode includeIdle)"
| st_expand: "topo_step s [] (expand_start s k)"
| st_collapse: "topo_step s [] (collapse s k)"
| st_expand_all: "topo_step s [] (expandAll s)"
| st_refresh: "topo_step s [] (refresh_start s)"
| st_poll: "topo_step s [] (poll_tick s document_visible)"
| st_load_done: "PLoad gen c \<in> set (ts_pending s) \<Longrightarrow>
    topo_step s [(gen, g)] (load_done (answered (PLoad gen c) s) gen g now)"
| st_load_failed: "PLoad gen c \<in> set (ts_pending s) \<Longrightarrow>
    topo_step s [] (load_failed (answered (PLoad gen c) s) gen err)"
| st_expand_done: "PExpand gen k name c \<in> set (ts_pending s) \<Longrightarrow>
    topo_step s [(gen, g)] (expand_done (answered (PExpand gen k name c) s) gen k g)"
| st_expand_failed: "PExpand gen k name c \<in> set (ts_pending s) \<Longrightarrow>
    topo_step s [] (expand_failed (answered (PExpand gen k name c) s) gen k name err)"
| st_namespace_done: "PRefreshNamespace gen c \<in> set (ts_pending s) \<Longrightarrow>
    topo_step s [(gen, g)] (refresh_namespace_done (answered (PRefreshNamespace gen c) s) gen g now)"
| st_namespace_failed: "PRefreshNamespace gen c \<in> set (ts_pending s) \<Longrightarrow>
    topo_step s [] (refresh_namespace_failed (answered (PRefreshNamespace gen c) s) gen err)"
| st_focus_done: "\<lbrakk>PRefreshFocus gen calls \<in> set (ts_pending s);
    list_all2 (\<lambda>c r. fst r = fst c \<and> (snd c = None \<longrightarrow> snd r = None)) calls results\<rbrakk> \<Longrightarrow>
    topo_step s (graphs_of gen results) (refresh_focus_done (answered (PRefreshFocus gen calls) s) gen results now)"

inductive topo_reachable :: "topo_session \<Rightarrow> (nat \<times> topo_graph) list \<Rightarrow> bool" where
  tr_init: "topo_reachable (initial_session poll) []"
| tr_step: "topo_reachable s log \<Longrightarrow> topo_step s ans s' \<Longrightarrow> topo_reachable s' (log @ ans)"

section \<open>The invariant\<close>

definition is_load :: "nat \<Rightarrow> topo_pending \<Rightarrow> bool" where
  "is_load gen p = (case p of PLoad g _ \<Rightarrow> g = gen | _ \<Rightarrow> False)"

text \<open>The graph's view of the state, with every node on it from an answer of the current generation.\<close>

definition graph_ok :: "topo_session \<Rightarrow> (nat \<times> topo_graph) list \<Rightarrow> bool" where
  "graph_ok s log \<longleftrightarrow> known_wf (ts_known s)
     \<and> (\<forall>k n. jm_get (kn_nodes (ts_known s)) k = Some n \<longrightarrow> (\<exists>g. (ts_generation s, g) \<in> set log \<and> n \<in> set (tg_nodes g)))"

text \<open>The view of the requests: one load of a generation at most, the spinner for the current one.\<close>

definition loads_ok :: "topo_session \<Rightarrow> bool" where
  "loads_ok s \<longleftrightarrow>
     (\<forall>gen. length (filter (is_load gen) (ts_pending s)) \<le> (if gen \<le> ts_generation s then 1 else 0))
     \<and> (ts_loading s \<longleftrightarrow> filter (is_load (ts_generation s)) (ts_pending s) \<noteq> [])"

definition expands_ok :: "topo_session \<Rightarrow> bool" where
  "expands_ok s \<longleftrightarrow> (\<forall>k \<in> set (ts_loadingIds s). \<exists>gen name c. PExpand gen k name c \<in> set (ts_pending s))"

named_theorems topo_defs \<open>the handlers of the topology session\<close>

lemmas handler_defs [topo_defs] =
  load_done_def load_failed_def expand_start_def not_loading_def expand_done_def expand_failed_def collapse_def
  refresh_start_def refreshed_def refresh_namespace_done_def refresh_namespace_failed_def refresh_focus_done_def
  poll_tick_def answered_def configure_def load_effect_def

subsection \<open>What is known\<close>

lemma put_nodes_from: "jm_get (put_nodes m ns) k = Some n \<Longrightarrow> jm_get m k = Some n \<or> n \<in> set ns"
  by (auto simp: put_nodes_get dest: find_some_iff split: option.splits)

lemma mergeGraph_from:
  assumes "known_wf known" "jm_get (kn_nodes (mergeGraph known g A)) k = Some n"
  shows "jm_get (kn_nodes known) k = Some n \<or> n \<in> set (tg_nodes g)"
proof -
  have "jm_wf (put_nodes (kn_nodes known) (tg_nodes g))"
    using assms(1) by (auto simp: known_wf_def intro: jm_wf_put_nodes)
  then have "jm_get (put_nodes (kn_nodes known) (tg_nodes g)) k = Some n"
    using assms(2) by (auto simp: mergeGraph_def Let_def jm_get_filter_some split: option.splits)
  then show ?thesis by (rule put_nodes_from)
qed

lemma knownFrom_from: "jm_get (kn_nodes (knownFrom g)) k = Some n \<Longrightarrow> n \<in> set (tg_nodes g)"
  using mergeGraph_from [OF known_wf_empty, of g None k n] by (auto simp: knownFrom_def emptyKnown_def)

lemma graph_okI:
  "known_wf (ts_known s) \<Longrightarrow>
    (\<And>k n. jm_get (kn_nodes (ts_known s)) k = Some n \<Longrightarrow> \<exists>g. (ts_generation s, g) \<in> set log \<and> n \<in> set (tg_nodes g)) \<Longrightarrow>
    graph_ok s log"
  by (simp add: graph_ok_def)

lemma graph_ok_same:
  "graph_ok s log \<Longrightarrow> ts_known s' = ts_known s \<Longrightarrow> ts_generation s' = ts_generation s \<Longrightarrow> set log \<subseteq> set log' \<Longrightarrow> graph_ok s' log'"
  unfolding graph_ok_def by (metis subsetD)

lemma graph_ok_empty: "ts_known s = emptyKnown \<Longrightarrow> graph_ok s log"
  by (simp add: graph_ok_def) (simp add: emptyKnown_def)

lemma graph_ok_from: "ts_known s = knownFrom g \<Longrightarrow> (ts_generation s, g) \<in> set log \<Longrightarrow> graph_ok s log"
  by (rule graph_okI) (simp_all, metis knownFrom_from)

lemma graph_ok_merge:
  assumes "graph_ok s log" "ts_known s' = mergeGraph (ts_known s) g A" "ts_generation s' = ts_generation s"
    "set log \<subseteq> set log'" "(ts_generation s, g) \<in> set log'"
  shows "graph_ok s' log'"
proof (rule graph_okI)
  have wf: "known_wf (ts_known s)" using assms(1) by (simp add: graph_ok_def)
  then show "known_wf (ts_known s')" by (simp add: assms(2) mergeGraph_wf)
  fix k n assume "jm_get (kn_nodes (ts_known s')) k = Some n"
  then have "jm_get (kn_nodes (ts_known s)) k = Some n \<or> n \<in> set (tg_nodes g)"
    unfolding assms(2) by (rule mergeGraph_from [OF wf])
  then show "\<exists>g. (ts_generation s', g) \<in> set log' \<and> n \<in> set (tg_nodes g)"
    using assms(1,3,4,5) unfolding graph_ok_def by (metis subsetD)
qed

lemma merge_refreshed_ok:
  assumes "graph_ok s log" "set (graphs_of (ts_generation s) results) \<subseteq> set log"
  shows "graph_ok (s\<lparr>ts_known := merge_refreshed (ts_known s) results\<rparr>) log"
  using assms
proof (induction results arbitrary: s)
  case Nil
  then show ?case by (auto intro: graph_ok_same simp: merge_refreshed_def)
next
  case (Cons kr results)
  obtain k r where kr: "kr = (k, r)" by fastforce
  show ?case
  proof (cases r)
    case None
    then show ?thesis using Cons.IH [of s] Cons.prems by (simp add: kr merge_refreshed_def graphs_of_def map_filter_def)
  next
    case (Some g)
    define s1 where "s1 = s\<lparr>ts_known := mergeGraph (ts_known s) g (Some [k])\<rparr>"
    have "graph_ok s1 log"
      using Cons.prems by (intro graph_ok_merge [OF Cons.prems(1)]) (auto simp: s1_def kr Some graphs_of_def map_filter_def)
    then have "graph_ok (s1\<lparr>ts_known := merge_refreshed (ts_known s1) results\<rparr>) log"
      using Cons.prems(2) by (intro Cons.IH) (auto simp: s1_def kr Some graphs_of_def map_filter_def)
    then show ?thesis by (simp add: s1_def kr Some merge_refreshed_def)
  qed
qed

lemma expandAll_frame:
  "ts_known (expandAll s) = ts_known s \<and> ts_generation (expandAll s) = ts_generation s"
proof -
  have "ts_known (foldl expand_start s ks) = ts_known s \<and> ts_generation (foldl expand_start s ks) = ts_generation s" for ks
    by (induction ks arbitrary: s) (auto simp: expand_start_def split: option.split)
  then show ?thesis by (simp add: expandAll_def)
qed

lemma graph_ok_step: "topo_step s ans s' \<Longrightarrow> graph_ok s log \<Longrightarrow> graph_ok s' (log @ ans)"
proof (induction rule: topo_step.induct)
  case (st_configure s cluster mode includeIdle)
  then show ?case
    by (auto simp: configure_def load_effect_def Let_def intro: graph_ok_same graph_ok_empty split: option.split)
next
  case (st_load_done gen c s g now)
  then show ?case
    by (cases "gen = ts_generation s") (auto simp: load_done_def answered_def intro: graph_ok_same graph_ok_from)
next
  case (st_expand_done gen k name c s g)
  show ?case
  proof (cases "gen = ts_generation s")
    case True
    with st_expand_done(2) show ?thesis
      by (intro graph_ok_merge [OF st_expand_done(2), where g = g and A = "Some [k]"])
         (auto simp: expand_done_def answered_def not_loading_def)
  next
    case False
    with st_expand_done(2) show ?thesis
      by (auto simp: expand_done_def answered_def not_loading_def intro: graph_ok_same)
  qed
next
  case (st_namespace_done gen c s g now)
  then show ?case
    by (cases "gen = ts_generation s")
       (auto simp: refresh_namespace_done_def refreshed_def answered_def intro: graph_ok_same graph_ok_from)
next
  case (st_focus_done gen calls s results now)
  show ?case
  proof (cases "gen = ts_generation s")
    case True
    have "graph_ok (s\<lparr>ts_known := merge_refreshed (ts_known s) results\<rparr>) (log @ graphs_of gen results)"
      using True by (intro merge_refreshed_ok graph_ok_same [OF st_focus_done(3)]) auto
    then show ?thesis
      by (rule graph_ok_same) (simp_all add: refresh_focus_done_def refreshed_def answered_def True)
  next
    case False
    with st_focus_done(3) show ?thesis
      by (auto simp: refresh_focus_done_def answered_def intro: graph_ok_same)
  qed
qed (auto simp: topo_defs Let_def expandAll_frame intro: graph_ok_same split: option.split topo_mode.split)

subsection \<open>The requests under way\<close>

lemma is_load_simps [simp]:
  "is_load gen (PLoad g c) = (g = gen)" "\<not> is_load gen (PExpand a b n d)"
  "\<not> is_load gen (PRefreshNamespace a c)" "\<not> is_load gen (PRefreshFocus a e)"
  by (simp_all add: is_load_def)

lemma answer_frames [simp]:
  "ts_pending (load_done s gen g now) = ts_pending s"
  "ts_pending (load_failed s gen err) = ts_pending s"
  "ts_pending (collapse s k) = ts_pending s"
  "ts_pending (refresh_namespace_done s gen g now) = ts_pending s"
  "ts_pending (refresh_namespace_failed s gen err) = ts_pending s"
  "ts_pending (refresh_focus_done s gen results now) = ts_pending s"
  "ts_pending (expand_done s gen k g) = ts_pending s"
  "ts_pending (expand_failed s gen k name err) = ts_pending s"
  "ts_generation (load_done s gen g now) = ts_generation s"
  "ts_generation (load_failed s gen err) = ts_generation s"
  "ts_generation (collapse s k) = ts_generation s"
  "ts_generation (refresh_namespace_done s gen g now) = ts_generation s"
  "ts_generation (refresh_namespace_failed s gen err) = ts_generation s"
  "ts_generation (refresh_focus_done s gen results now) = ts_generation s"
  "ts_generation (expand_done s gen k g) = ts_generation s"
  "ts_generation (expand_failed s gen k name err) = ts_generation s"
  "ts_loading (collapse s k) = ts_loading s"
  "ts_loading (refresh_namespace_done s gen g now) = ts_loading s"
  "ts_loading (refresh_namespace_failed s gen err) = ts_loading s"
  "ts_loading (refresh_focus_done s gen results now) = ts_loading s"
  "ts_loading (expand_done s gen k g) = ts_loading s"
  "ts_loading (expand_failed s gen k name err) = ts_loading s"
  "ts_loadingIds (load_done s gen g now) = ts_loadingIds s"
  "ts_loadingIds (load_failed s gen err) = ts_loadingIds s"
  "ts_loadingIds (collapse s k) = ts_loadingIds s"
  "ts_loadingIds (refresh_namespace_done s gen g now) = ts_loadingIds s"
  "ts_loadingIds (refresh_namespace_failed s gen err) = ts_loadingIds s"
  "ts_loadingIds (refresh_focus_done s gen results now) = ts_loadingIds s"
  by (simp_all add: load_done_def load_failed_def collapse_def refreshed_def refresh_namespace_done_def
    refresh_namespace_failed_def refresh_focus_done_def expand_done_def expand_failed_def not_loading_def Let_def)

lemma answered_frames [simp]:
  "ts_pending (answered p s) = remove1 p (ts_pending s)" "ts_generation (answered p s) = ts_generation s"
  "ts_loading (answered p s) = ts_loading s" "ts_loadingIds (answered p s) = ts_loadingIds s"
  by (simp_all add: answered_def)

lemma loads_ok_same:
  "loads_ok s \<Longrightarrow> ts_loading s' = ts_loading s \<Longrightarrow> ts_generation s' = ts_generation s \<Longrightarrow>
    (\<And>gen. filter (is_load gen) (ts_pending s') = filter (is_load gen) (ts_pending s)) \<Longrightarrow> loads_ok s'"
  by (simp add: loads_ok_def)

lemma load_answered:
  assumes "loads_ok s" "PLoad gen c \<in> set (ts_pending s)"
  shows "filter (is_load gen) (remove1 (PLoad gen c) (ts_pending s)) = []"
    and "gen' \<noteq> gen \<Longrightarrow> filter (is_load gen') (remove1 (PLoad gen c) (ts_pending s)) = filter (is_load gen') (ts_pending s)"
proof -
  have "PLoad gen c \<in> set (filter (is_load gen) (ts_pending s))" using assms(2) by simp
  moreover have "length (filter (is_load gen) (ts_pending s)) \<le> 1"
    using assms(1) unfolding loads_ok_def by (metis (full_types) le_zero_eq zero_le_one)
  ultimately have one: "filter (is_load gen) (ts_pending s) = [PLoad gen c]"
    by (cases "filter (is_load gen) (ts_pending s)") auto
  then show "filter (is_load gen) (remove1 (PLoad gen c) (ts_pending s)) = []" by (simp add: filter_remove1)
  show "gen' \<noteq> gen \<Longrightarrow> filter (is_load gen') (remove1 (PLoad gen c) (ts_pending s)) = filter (is_load gen') (ts_pending s)"
    by (simp add: filter_remove1)
qed

lemma loads_ok_answered:
  assumes ok: "loads_ok s" and p: "PLoad gen c \<in> set (ts_pending s)"
    and s': "ts_pending s' = remove1 (PLoad gen c) (ts_pending s)" "ts_generation s' = ts_generation s"
      "ts_loading s' = (if gen = ts_generation s then False else ts_loading s)"
  shows "loads_ok s'"
proof -
  have "length (filter (is_load g) (ts_pending s')) \<le> (if g \<le> ts_generation s' then 1 else 0)" for g
    using ok load_answered [OF ok p] by (cases "g = gen") (auto simp: loads_ok_def s')
  moreover have "ts_loading s' \<longleftrightarrow> filter (is_load (ts_generation s')) (ts_pending s') \<noteq> []"
  proof (cases "gen = ts_generation s")
    case True
    then show ?thesis using load_answered(1) [OF ok p] by (simp add: s')
  next
    case False
    then show ?thesis using ok load_answered(2) [OF ok p, of "ts_generation s"] by (simp add: loads_ok_def s')
  qed
  ultimately show ?thesis by (simp add: loads_ok_def)
qed

lemma loads_ok_new:
  assumes ok: "loads_ok s"
    and s': "ts_generation s' = ts_generation s + 1" "ts_loading s'"
      "ts_pending s' = ts_pending s @ [PLoad (ts_generation s + 1) c]"
  shows "loads_ok s'"
proof -
  have "length (filter (is_load gen) (ts_pending s)) = 0" if "ts_generation s < gen" for gen
    using ok that unfolding loads_ok_def by (metis le_zero_eq not_le)
  moreover have "length (filter (is_load gen) (ts_pending s)) \<le> 1" for gen
    using ok unfolding loads_ok_def by (metis (full_types) le_zero_eq zero_le_one)
  ultimately show ?thesis by (auto simp: loads_ok_def le_Suc_eq s')
qed

lemma loads_ok_effect: "loads_ok s \<Longrightarrow> loads_ok (load_effect s)"
proof -
  assume ok: "loads_ok s"
  show ?thesis
  proof (cases "ts_mode s = None \<or> ts_cluster s = []")
    case True
    then show ?thesis using ok by (auto simp: load_effect_def Let_def intro: loads_ok_same split: option.split)
  next
    case False
    then obtain mode where "ts_mode s = Some mode" "ts_cluster s \<noteq> []" by auto
    then show ?thesis
      by (intro loads_ok_new [OF ok, where c = "load_call (s\<lparr>ts_aborted := True\<rparr>) mode"])
         (simp_all add: load_effect_def Let_def)
  qed
qed

lemma expand_start_loads: "loads_ok s \<Longrightarrow> loads_ok (expand_start s k)"
  by (auto simp: expand_start_def intro: loads_ok_same split: option.split)

lemma expands_ok_same:
  "expands_ok s \<Longrightarrow> set (ts_loadingIds s') \<subseteq> set (ts_loadingIds s) \<Longrightarrow>
    (\<And>gen k name c. PExpand gen k name c \<in> set (ts_pending s) \<Longrightarrow> PExpand gen k name c \<in> set (ts_pending s')) \<Longrightarrow> expands_ok s'"
  unfolding expands_ok_def by (metis subsetD)

lemma expands_ok_answered:
  assumes ok: "expands_ok s"
    and s': "ts_loadingIds s' = filter (\<lambda>x. x \<noteq> k) (ts_loadingIds s)"
      "ts_pending s' = remove1 (PExpand gen k name c) (ts_pending s)"
  shows "expands_ok s'"
  unfolding expands_ok_def
proof
  fix x assume "x \<in> set (ts_loadingIds s')"
  then have x: "x \<in> set (ts_loadingIds s)" "x \<noteq> k" by (auto simp: s')
  then obtain gen' name' c' where "PExpand gen' x name' c' \<in> set (ts_pending s)"
    using ok unfolding expands_ok_def by blast
  with x(2) have "PExpand gen' x name' c' \<in> set (ts_pending s')" by (simp add: s' in_set_remove1)
  then show "\<exists>gen name c. PExpand gen x name c \<in> set (ts_pending s')" by blast
qed

lemma expand_start_expands: "expands_ok s \<Longrightarrow> expands_ok (expand_start s k)"
  unfolding expands_ok_def
  by (cases "jm_get (kn_nodes (ts_known s)) k") (fastforce simp: expand_start_def)+

lemma refresh_start_loads: "loads_ok s \<Longrightarrow> loads_ok (refresh_start s)"
  by (auto simp: refresh_start_def intro: loads_ok_same split: option.split topo_mode.split)

lemma refresh_start_expands: "expands_ok s \<Longrightarrow> expands_ok (refresh_start s)"
  by - (rule expands_ok_same [of s], auto simp: refresh_start_def split: option.splits topo_mode.splits)

lemma foldl_expand_start:
  "loads_ok s \<and> expands_ok s \<Longrightarrow> loads_ok (foldl expand_start s ks) \<and> expands_ok (foldl expand_start s ks)"
  by (induction ks arbitrary: s) (simp_all add: expand_start_loads expand_start_expands)

lemma loads_ok_step: "topo_step s ans s' \<Longrightarrow> loads_ok s \<and> expands_ok s \<Longrightarrow> loads_ok s'"
proof (induction rule: topo_step.induct)
  case (st_configure s cluster mode includeIdle)
  then have "loads_ok (s\<lparr>ts_cluster := cluster, ts_mode := mode, ts_includeIdle := includeIdle\<rparr>)"
    by (auto intro: loads_ok_same)
  with st_configure show ?case by (simp only: configure_def Let_def loads_ok_effect if_True if_False simp_thms split: if_split)
next
  case (st_expand_all s)
  then show ?case by (simp add: expandAll_def foldl_expand_start)
next
  case (st_load_done gen c s g now)
  then have "loads_ok s" by blast
  then show ?case using st_load_done(1) by (rule loads_ok_answered) (simp_all add: load_done_def)
next
  case (st_load_failed gen c s err)
  then have "loads_ok s" by blast
  then show ?case using st_load_failed(1) by (rule loads_ok_answered) (simp_all add: load_failed_def Let_def)
next
  case (st_expand s k)
  then show ?case by (simp add: expand_start_loads)
next
  case (st_refresh s)
  then show ?case by (simp add: refresh_start_loads)
next
  case (st_poll s document_visible)
  then show ?case by (simp add: poll_tick_def refresh_start_loads)
next
  case (st_collapse s k)
  then show ?case by - (rule loads_ok_same [of s], simp_all add: filter_remove1)
next
  case (st_expand_done gen k name c s g)
  then show ?case by - (rule loads_ok_same [of s], simp_all add: filter_remove1)
next
  case (st_expand_failed gen k name c s err)
  then show ?case by - (rule loads_ok_same [of s], simp_all add: filter_remove1)
next
  case (st_namespace_done gen c s g now)
  then show ?case by - (rule loads_ok_same [of s], simp_all add: filter_remove1)
next
  case (st_namespace_failed gen c s err)
  then show ?case by - (rule loads_ok_same [of s], simp_all add: filter_remove1)
next
  case (st_focus_done gen calls s results now)
  then show ?case by - (rule loads_ok_same [of s], simp_all add: filter_remove1)
qed

lemma expands_ok_step: "topo_step s ans s' \<Longrightarrow> loads_ok s \<and> expands_ok s \<Longrightarrow> expands_ok s'"
proof (induction rule: topo_step.induct)
  case (st_expand_all s)
  then show ?case by (simp add: expandAll_def foldl_expand_start)
next
  case (st_expand s k)
  then show ?case by (simp add: expand_start_expands)
next
  case (st_expand_done gen k name c s g)
  then have "expands_ok s" by blast
  then show ?case by (rule expands_ok_answered [where gen = gen and k = k and name = name and c = c]) (simp_all add: expand_done_def not_loading_def)
next
  case (st_expand_failed gen k name c s err)
  then have "expands_ok s" by blast
  then show ?case by (rule expands_ok_answered [where gen = gen and k = k and name = name and c = c]) (simp_all add: expand_failed_def not_loading_def)
next
  case (st_configure s cluster mode includeIdle)
  then show ?case
    by - (rule expands_ok_same [of s], auto simp: configure_def load_effect_def Let_def split: option.splits if_splits)
next
  case (st_refresh s)
  then show ?case by (simp add: refresh_start_expands)
next
  case (st_poll s document_visible)
  then show ?case by (simp add: poll_tick_def refresh_start_expands)
next
  case (st_load_done gen c s g now)
  then show ?case by - (rule expands_ok_same [of s], simp_all add: in_set_remove1)
next
  case (st_load_failed gen c s err)
  then show ?case by - (rule expands_ok_same [of s], simp_all add: in_set_remove1)
next
  case (st_namespace_done gen c s g now)
  then show ?case by - (rule expands_ok_same [of s], simp_all add: in_set_remove1)
next
  case (st_namespace_failed gen c s err)
  then show ?case by - (rule expands_ok_same [of s], simp_all add: in_set_remove1)
next
  case (st_focus_done gen calls s results now)
  then show ?case by - (rule expands_ok_same [of s], simp_all add: in_set_remove1)
next
  case (st_collapse s k)
  then show ?case by - (rule expands_ok_same [of s], simp_all)
qed

lemma topo_reachable_ok: "topo_reachable s log \<Longrightarrow> graph_ok s log \<and> loads_ok s \<and> expands_ok s"
proof (induction rule: topo_reachable.induct)
  case (tr_init poll)
  then show ?case by (simp add: initial_session_def graph_ok_empty loads_ok_def expands_ok_def)
next
  case (tr_step s log ans s')
  then show ?case using graph_ok_step loads_ok_step expands_ok_step by blast
qed

end
