(* ===== verification/TopologyProps.thy ===== *)
theory TopologyProps
  imports TopologyApp TopologySession
begin

text \<open>
  The properties of the topology view: what is visible, what a response replaces, that the
  drawn graph stands for the shown one, that lanes hold each drawn node once, and that a
  session never shows an answer to what is no longer looked at.
\<close>

section \<open>Lanes\<close>

lemma vote_keeps [simp]: "al_nodeIds (vote hostOf v lane) = al_nodeIds lane" "al_id (vote hostOf v lane) = al_id lane"
  by (simp_all add: vote_def split: option.split)

lemma new_lane_simps [simp]: "al_nodeIds (new_lane labels key) = []" "al_id (new_lane labels key) = key"
  by (simp_all add: new_lane_def Let_def)

lemma join_lane_nodes:
  "mset (concat (map al_nodeIds (jm_values (join_lane hostOf laneOf labels lanes v))))
    = add_mset (vn_id v) (mset (concat (map al_nodeIds (jm_values lanes))))"
proof (cases "jm_get lanes (lane_key laneOf (vn_id v))")
  case None
  then have "\<not> jm_has lanes (lane_key laneOf (vn_id v))" by (simp add: jm_has_get)
  then show ?thesis by (simp add: join_lane_def Let_def None jm_set_new jm_values_def)
next
  case (Some lane)
  define new where "new = vote hostOf v (lane\<lparr>al_nodeIds := al_nodeIds lane @ [vn_id v]\<rparr>)"
  have "mset (concat (map al_nodeIds (jm_values (jm_set lanes (lane_key laneOf (vn_id v)) new)))) + mset (al_nodeIds lane)
      = mset (concat (map al_nodeIds (jm_values lanes))) + mset (al_nodeIds new)"
    by (rule mset_concat_set [OF Some])
  then show ?thesis by (simp add: join_lane_def Let_def Some new_def)
qed

definition lanes_keyed :: "(string, app_lane) jsmap \<Rightarrow> bool" where
  "lanes_keyed lanes \<longleftrightarrow> jm_wf lanes \<and> (\<forall>(k, l) \<in> set lanes. al_id l = k)"

lemma join_lane_keyed:
  assumes "lanes_keyed lanes"
  shows "lanes_keyed (join_lane hostOf laneOf labels lanes v)"
proof -
  define key where "key = lane_key laneOf (vn_id v)"
  define lane where "lane = nullish (jm_get lanes key) (new_lane labels key)"
  have "al_id lane = key"
    using assms by (cases "jm_get lanes key") (auto simp: lane_def lanes_keyed_def jm_get_def dest!: map_of_SomeD)
  then have "lanes_keyed (jm_set lanes key (vote hostOf v (lane\<lparr>al_nodeIds := al_nodeIds lane @ [vn_id v]\<rparr>)))"
    using assms set_jm_set [of lanes key] by (fastforce simp: lanes_keyed_def)
  then show ?thesis by (simp add: join_lane_def Let_def key_def lane_def)
qed

lemma join_lanes:
  "lanes_keyed lanes \<Longrightarrow> lanes_keyed (foldl (join_lane hostOf laneOf labels) lanes vs)
   \<and> mset (concat (map al_nodeIds (jm_values (foldl (join_lane hostOf laneOf labels) lanes vs))))
     = mset (concat (map al_nodeIds (jm_values lanes))) + mset (map vn_id vs)"
  by (induction vs arbitrary: lanes) (simp_all add: join_lane_keyed join_lane_nodes)

lemma drawn_lanes_all:
  "mset (concat (map al_nodeIds (drawn_lanes lc hostOf laneOf labels vs))) = mset (map vn_id vs)"
  "distinct (map al_id (drawn_lanes lc hostOf laneOf labels vs))"
proof -
  define lanes where "lanes = foldl (join_lane hostOf laneOf labels) [] vs"
  have l: "lanes_keyed lanes" "mset (concat (map al_nodeIds (jm_values lanes))) = mset (map vn_id vs)"
    using join_lanes [of "[]" hostOf laneOf labels vs] by (simp_all add: lanes_def lanes_keyed_def)
  have "mset (concat (map al_nodeIds (drawn_lanes lc hostOf laneOf labels vs)))
      = mset (concat (map al_nodeIds (map (\<lambda>lane. lane\<lparr>al_health := worstHealth (al_counts lane)\<rparr>) (jm_values lanes))))"
    unfolding drawn_lanes_def lanes_def by (rule mset_concat_perm) simp
  also have "\<dots> = mset (map vn_id vs)" by (simp add: comp_def l)
  finally show "mset (concat (map al_nodeIds (drawn_lanes lc hostOf laneOf labels vs))) = mset (map vn_id vs)" .
  have "map al_id (jm_values lanes) = jm_keys lanes"
    using l(1) by (auto simp: lanes_keyed_def jm_values_def jm_keys_def)
  then have d: "distinct (map al_id (map (\<lambda>lane. lane\<lparr>al_health := worstHealth (al_counts lane)\<rparr>) (jm_values lanes)))"
    using l(1) by (simp add: comp_def lanes_keyed_def jm_wf_def)
  have "mset (map al_id (drawn_lanes lc hostOf laneOf labels vs))
      = mset (map al_id (map (\<lambda>lane. lane\<lparr>al_health := worstHealth (al_counts lane)\<rparr>) (jm_values lanes)))"
    by (simp add: drawn_lanes_def lanes_def image_mset.compositionality)
  with d show "distinct (map al_id (drawn_lanes lc hostOf laneOf labels vs))"
    using mset_eq_imp_distinct_iff by blast
qed

section \<open>Folding ReplicaSets\<close>

text \<open>What holds of a view built from a known graph and is kept by folding.\<close>

definition view_ok :: "known_graph \<Rightarrow> view_graph \<Rightarrow> bool" where
  "view_ok known view \<longleftrightarrow>
     (\<forall>e \<in> set (vg_edges view). ve_source e \<in> vn_id ` set (vg_nodes view) \<and> ve_target e \<in> vn_id ` set (vg_nodes view)
        \<and> ve_source e \<noteq> ve_target e \<and> 0 < ve_weight e)
     \<and> (\<forall>v \<in> set (vg_nodes view). vn_members v = None \<longrightarrow> vn_node v = the (jm_get (kn_nodes known) (vn_id v)))"

lemma buildView_ok: "view_ok known (buildView lc known visible opts)"
proof -
  have "vn_node v = the (jm_get (kn_nodes known) (vn_id v))"
    if "v \<in> set (vg_nodes (buildView lc known visible opts))" "vn_members v = None" for v
    using that group_steps [of lc known opts "([], [])" "by_owner known opts (shown_ids known opts visible)"]
    by (auto simp: buildView_def Let_def single_node_def group_node_def)
  then show ?thesis using view_edges_all by (auto simp: view_ok_def)
qed

lemma pushes_from:
  "(k, xs) \<in> set (foldl (\<lambda>m y. case f y of None \<Rightarrow> m | Some ow \<Rightarrow> jm_push m ow (g y)) m ys) \<Longrightarrow> x \<in> set xs \<Longrightarrow>
    (\<exists>xs0. (k, xs0) \<in> set m \<and> x \<in> set xs0) \<or> (\<exists>y \<in> set ys. f y = Some k \<and> g y = x)"
proof (induction ys arbitrary: m)
  case (Cons y ys)
  show ?case
  proof (cases "f y")
    case None
    with Cons show ?thesis by fastforce
  next
    case (Some ow)
    have "(\<exists>xs0. (k, xs0) \<in> set (jm_push m ow (g y)) \<and> x \<in> set xs0) \<or> (\<exists>y \<in> set ys. f y = Some k \<and> g y = x)"
      using Cons.prems Some by (intro Cons.IH) simp_all
    moreover have "(\<exists>xs0. (k, xs0) \<in> set m \<and> x \<in> set xs0) \<or> (k = ow \<and> x = g y)"
      if "(k, xs0) \<in> set (jm_push m ow (g y))" "x \<in> set xs0" for xs0
    proof (cases "(k, xs0) \<in> set m")
      case False
      then have "k = ow" "xs0 = nullish (jm_get m ow) [] @ [g y]"
        using that(1) set_jm_set [of m ow] unfolding jm_push_def by blast+
      with that(2) show ?thesis by (cases "jm_get m ow") (auto simp: jm_get_def dest: map_of_SomeD)
    qed (use that in blast)
    ultimately show ?thesis using Some by auto
  qed
qed auto

lemma folded_sets_from: "jm_get (folded_sets rsOf) r = Some dep \<Longrightarrow> \<exists>ids. (dep, ids) \<in> set rsOf \<and> r \<in> set ids"
proof -
  have "jm_get (foldl (\<lambda>m (dep, ids). if length ids = 1 then jm_set m (hd ids) dep else m) m0 rs) r = Some dep \<Longrightarrow>
      jm_get m0 r = Some dep \<or> (\<exists>ids. (dep, ids) \<in> set rs \<and> r \<in> set ids)" for rs m0
  proof (induction rs arbitrary: m0)
    case (Cons d rs)
    obtain dep' ids where d: "d = (dep', ids)" by fastforce
    show ?case
    proof (cases "length ids = 1")
      case True
      then have "hd ids \<in> set ids" by (cases ids) auto
      with Cons.IH [of "jm_set m0 (hd ids) dep'"] Cons.prems True d show ?thesis by (auto split: if_splits)
    next
      case False
      with Cons.IH [of m0] Cons.prems d show ?thesis by auto
    qed
  qed simp
  from this [of "[]"] show "jm_get (folded_sets rsOf) r = Some dep \<Longrightarrow> ?thesis" by (auto simp: folded_sets_def)
qed

text \<open>A folded node is a drawn ReplicaSet; the node drawing it is drawn, a Deployment, and not folded.\<close>

lemma folded_node:
  assumes ok: "view_ok known view" and f: "jm_get (folded_sets (replica_sets_of known view)) r = Some dep"
  shows "dep \<in> vn_id ` set (vg_nodes view)" "dep \<noteq> []" "\<not> jm_has (folded_sets (replica_sets_of known view)) dep"
    "\<exists>v \<in> set (vg_nodes view). vn_id v = r \<and> tn_kind (vn_node v) = ''ReplicaSet'' \<and> vn_members v = None"
proof -
  have from_node: "\<exists>v \<in> set (vg_nodes view). drawn_deployment known view v = Some d \<and> vn_id v = k"
    if k: "jm_get (folded_sets (replica_sets_of known view)) k = Some d" for k d
  proof -
    obtain ids where "(d, ids) \<in> set (replica_sets_of known view)" "k \<in> set ids"
      using folded_sets_from [OF k] by blast
    then show ?thesis
      using pushes_from [where k = d and xs = ids and f = "drawn_deployment known view" and g = vn_id and m = "[]" and ys = "vg_nodes view" and x = k] by (simp add: replica_sets_of_def)
  qed
  obtain v where v: "v \<in> set (vg_nodes view)" "drawn_deployment known view v = Some dep" "vn_id v = r"
    using from_node [OF f] by blast
  then have dep: "tn_owner (vn_node v) = Some dep" "dep \<noteq> []" "dep \<in> vn_id ` set (vg_nodes view)"
      "map_option tn_kind (jm_get (kn_nodes known) dep) = Some ''Deployment''"
    and rs: "tn_kind (vn_node v) = ''ReplicaSet''" "vn_members v = None"
    by (auto simp: drawn_deployment_def split: if_splits)
  show "dep \<in> vn_id ` set (vg_nodes view)" "dep \<noteq> []" by (rule dep)+
  show "\<exists>v \<in> set (vg_nodes view). vn_id v = r \<and> tn_kind (vn_node v) = ''ReplicaSet'' \<and> vn_members v = None"
    using v rs by blast
  show "\<not> jm_has (folded_sets (replica_sets_of known view)) dep"
  proof
    assume "jm_has (folded_sets (replica_sets_of known view)) dep"
    then obtain d where "jm_get (folded_sets (replica_sets_of known view)) dep = Some d" by (auto simp: jm_has_get)
    then obtain w where w: "w \<in> set (vg_nodes view)" "drawn_deployment known view w = Some d" "vn_id w = dep"
      using from_node by blast
    then have "tn_kind (vn_node w) = ''ReplicaSet''" "vn_members w = None"
      by (auto simp: drawn_deployment_def split: if_splits)
    moreover have "vn_node w = the (jm_get (kn_nodes known) dep)" using ok w calculation(2) by (auto simp: view_ok_def)
    ultimately show False using dep(4) by auto
  qed
qed

lemma foldReplicaSets_ok:
  assumes ok: "view_ok known view"
  shows "view_ok known (fst (foldReplicaSets lc known view))"
proof -
  define folded where "folded = folded_sets (replica_sets_of known view)"
  show ?thesis
  proof (cases "jm_size folded = 0")
    case True
    then show ?thesis using ok by (simp add: foldReplicaSets_def Let_def folded_def)
  next
    case False
    define view' where "view' = fst (foldReplicaSets lc known view)"
    have nodes: "vg_nodes view' = filter (\<lambda>v. \<not> jm_has folded (vn_id v)) (vg_nodes view)"
      using False by (simp add: view'_def foldReplicaSets_def Let_def folded_def)
    have edges: "set (vg_edges view') = set (jm_values (folded_edges (List.map_filter (refolded_edge folded) (vg_edges view))))"
      using False by (simp add: view'_def foldReplicaSets_def Let_def folded_def folded_edges_filter)
    have drawn: "str_or (jm_get folded k) k \<in> vn_id ` set (vg_nodes view')" if "k \<in> vn_id ` set (vg_nodes view)" for k
    proof (cases "jm_get folded k")
      case None
      with that show ?thesis by (auto simp: nodes jm_has_get)
    next
      case (Some dep)
      with folded_node(1-3) [OF ok, of k dep] show ?thesis by (auto simp: nodes folded_def)
    qed
    have lifted: "ve_source v \<in> vn_id ` set (vg_nodes view') \<and> ve_target v \<in> vn_id ` set (vg_nodes view')
        \<and> ve_source v \<noteq> ve_target v \<and> 0 < ve_weight v"
      if "v \<in> set (List.map_filter (refolded_edge folded) (vg_edges view))" for v
      using that ok drawn by (auto simp: map_filter_def refolded_edge_def Let_def view_ok_def split: if_splits)
    have "ve_source p \<in> vn_id ` set (vg_nodes view') \<and> ve_target p \<in> vn_id ` set (vg_nodes view')
        \<and> ve_source p \<noteq> ve_target p \<and> 0 < ve_weight p" if p: "p \<in> set (vg_edges view')" for p
    proof -
      define vs where "vs = List.map_filter (refolded_edge folded) (vg_edges view)"
      have "jm_get (folded_edges vs) (ve_id p) = Some p" using p by (simp add: edges vs_def folded_edges_values)
      then obtain v where v: "v \<in> set vs" "ve_id v = ve_id p" "ve_source p = ve_source v" "ve_target p = ve_target v"
        and w: "ve_weight p = sum_list (map ve_weight (filter (\<lambda>v. ve_id v = ve_id p) vs))"
        using folded_edges_get [of vs "ve_id p"] by blast
      have "ve_weight v \<le> ve_weight p"
        unfolding w using v(1,2) by (intro member_le_sum_list) auto
      with lifted [of v] v show ?thesis by (simp add: vs_def)
    qed
    moreover have "vn_node v = the (jm_get (kn_nodes known) (vn_id v))"
      if "v \<in> set (vg_nodes view')" "vn_members v = None" for v
      using that ok by (auto simp: nodes view_ok_def)
    ultimately show ?thesis by (simp add: view_ok_def view'_def)
  qed
qed

section \<open>Hosts\<close>

lemma candidate_host_drawn: "candidate_host known byId drawnAs vid k = Some h \<Longrightarrow> host_drawn byId h"
proof -
  assume c: "candidate_host known byId drawnAs vid k = Some h"
  have top: "host_drawn byId t" if "find (\<lambda>r. truthy_str r \<and> host_drawn byId (the r)) rs = Some (Some t)" for rs t
    using find_some_iff [OF that] by simp
  show ?thesis
    using c by (auto simp: candidate_host_def Let_def dest: top split: option.splits if_splits)
qed

lemma foldl_invariant: "P a \<Longrightarrow> (\<And>a x. P a \<Longrightarrow> P (f a x)) \<Longrightarrow> P (foldl f a xs)"
  by (induction xs arbitrary: a) auto

lemma candidate_hosts_drawn: "h \<in> set (candidate_hosts known byId drawnAs v) \<Longrightarrow> host_drawn byId h"
proof -
  define P where "P cs \<longleftrightarrow> (\<forall>h \<in> set cs. host_drawn byId h)" for cs
  have c: "P (consider_host known byId drawnAs (vn_id v) cs k)" if "P cs" for cs k
    using that by (auto simp: P_def consider_host_def dest: candidate_host_drawn split: option.split)
  have "P (candidate_hosts known byId drawnAs v)"
    unfolding candidate_hosts_def
    by (rule foldl_invariant) (simp_all add: Let_def c, simp add: P_def)
  then show "h \<in> set (candidate_hosts known byId drawnAs v) \<Longrightarrow> ?thesis" by (simp add: P_def)
qed

lemma hosts_of_drawn:
  "jm_get (hosts_of lc known byId drawnAs vs) s = Some h \<Longrightarrow>
    (\<exists>v \<in> set vs. vn_id v = s \<and> is_satellite v) \<and> host_drawn byId h"
proof -
  define step where "step = (\<lambda>m v. if \<not> is_satellite v then m
              else (case js_sort (\<lambda>a b. let r = hostRank byId a - hostRank byId b in if r \<noteq> 0 then r else lc a b)
                           (candidate_hosts known byId drawnAs v) of
                      [] \<Rightarrow> m
                    | h # _ \<Rightarrow> if h \<noteq> [] \<and> \<not> is_satellite (the (jm_get byId h)) then jm_set m (vn_id v) h else m))"
  have one: "jm_get m s = Some h \<or> (vn_id v = s \<and> is_satellite v \<and> host_drawn byId h)"
    if "jm_get (step m v) s = Some h" for m v
  proof -
    define cs where "cs = js_sort (\<lambda>a b. let r = hostRank byId a - hostRank byId b in if r \<noteq> 0 then r else lc a b)
        (candidate_hosts known byId drawnAs v)"
    have "host_drawn byId c" if "c \<in> set cs" for c
      using that unfolding cs_def set_js_sort by (rule candidate_hosts_drawn)
    then show ?thesis
      using that unfolding step_def cs_def [symmetric] by (cases cs) (auto split: if_splits)
  qed
  have "jm_get (foldl step m vs) s = Some h \<Longrightarrow>
      jm_get m s = Some h \<or> (\<exists>v \<in> set vs. vn_id v = s \<and> is_satellite v) \<and> host_drawn byId h" for m vs
  proof (induction vs arbitrary: m)
    case (Cons v vs)
    have "jm_get (step m v) s = Some h \<or> (\<exists>v \<in> set vs. vn_id v = s \<and> is_satellite v) \<and> host_drawn byId h"
      using Cons.prems by (intro Cons.IH) simp
    with one [of m v] show ?case by auto
  qed simp
  from this [of "[]" vs] show "jm_get (hosts_of lc known byId drawnAs vs) s = Some h \<Longrightarrow> ?thesis"
    by (simp add: hosts_of_def step_def)
qed

section \<open>The properties\<close>

definition topo_item :: "string \<Rightarrow> string \<Rightarrow> string option \<Rightarrow> health \<Rightarrow> topo_node" where
  "topo_item kind name own h =
     \<lparr>tn_id = nodeIdFor kind (Some ''ns'') name, tn_group = [], tn_version = ''v1'', tn_kind = kind,
      tn_namespace = Some ''ns'', tn_name = name, tn_uid = None, tn_health = h, tn_status = None, tn_owner = own,
      tn_missing = False, tn_app = None\<rparr>"

definition topo_link :: "topo_node \<Rightarrow> string \<Rightarrow> topo_node \<Rightarrow> topo_edge" where
  "topo_link a r b = \<lparr>te_id = tn_id a @ ''|'' @ r @ ''|'' @ tn_id b, te_source = tn_id a, te_target = tn_id b, te_relation = r\<rparr>"

definition web_graph :: topo_graph where
  "web_graph =
     (let svc = topo_item ''Service'' ''web'' None HHealthy;
          dep = topo_item ''Deployment'' ''web'' None HHealthy;
          rs = topo_item ''ReplicaSet'' ''web-1'' (Some (tn_id dep)) HHealthy;
          p1 = topo_item ''Pod'' ''web-1-a'' (Some (tn_id rs)) HHealthy;
          p2 = topo_item ''Pod'' ''web-1-b'' (Some (tn_id rs)) HError;
          cm = topo_item ''ConfigMap'' ''cfg'' None HHealthy
      in \<lparr>tg_nodes = [svc, dep, rs, p1, p2, cm],
          tg_edges = [topo_link svc ''exposes'' dep, topo_link dep ''owns'' rs, topo_link rs ''owns'' p1, topo_link rs ''owns'' p2,
                      topo_link svc ''selects'' p1, topo_link svc ''selects'' p2, topo_link dep ''mounts'' cm],
          tg_focus = Some (tn_id dep), tg_truncated = False, tg_warnings = []\<rparr>)"

text \<open>C24: The nodes visible from a focus are exactly those reached from it through expanded nodes, each once; collapsing a node hides
  whatever was reached only through it and shows nothing new.\<close>

theorem visible_is_reachable:
  "distinct (visibleFromFocus known focus expanded)
   \<and> set (visibleFromFocus known focus expanded) = Collect (focus_reach known focus expanded)
   \<and> set (visibleFromFocus known focus (filter (\<lambda>x. x \<noteq> k) expanded)) \<subseteq> set (visibleFromFocus known focus expanded)"
proof -
  have "set (visibleFromFocus known focus expanded) = Collect (focus_reach known focus expanded)"
    using visible_reach [of known focus expanded] by blast
  moreover have "distinct (visibleFromFocus known focus expanded)" using visible_reach by blast
  moreover have "set (visibleFromFocus known focus (filter (\<lambda>x. x \<noteq> k) expanded)) \<subseteq> set (visibleFromFocus known focus expanded)"
    by (rule visible_mono) auto
  ultimately show ?thesis by blast
qed


text \<open>Reading the ReplicaSet again after its second pod went away: its edge and, when nothing else points at it, the pod are dropped.\<close>

definition web_rs_again :: topo_graph where
  "web_rs_again = web_graph\<lparr>tg_nodes := take 4 (tg_nodes web_graph), tg_edges := take 3 (tg_edges web_graph)\<rparr>"


text \<open>C26: Every shown node is drawn exactly once, as itself or as a member of one group, and nothing else is drawn; every drawn edge joins
  two different drawn nodes and weighs as many known edges as it stands for.\<close>

theorem view_stands_for_shown:
  fixes lc :: "string \<Rightarrow> string \<Rightarrow> int" and visible :: "string list" and opts :: view_options
  assumes "known_wf known"
  defines "view \<equiv> buildView lc known visible opts"
  shows "distinct (concat (map drawn_ids (vg_nodes view)))
    \<and> set (concat (map drawn_ids (vg_nodes view))) = {k \<in> set visible. is_shown known opts k}
    \<and> (p \<in> set (vg_edges view) \<longrightarrow> ve_source p \<in> vn_id ` set (vg_nodes view) \<and> ve_target p \<in> vn_id ` set (vg_nodes view)
        \<and> ve_source p \<noteq> ve_target p \<and> 0 < ve_weight p
        \<and> ve_weight p = length (filter (\<lambda>v. ve_id v = ve_id p) (lifted_edges lc known visible opts)))"
  using drawn_ids_all [OF assms(1), of lc visible opts] view_edges_all [of p lc known visible opts]
  by (auto simp: view_def shown_ids_def)

definition all_options :: view_options where
  "all_options = \<lparr>vo_hiddenFamilies = None, vo_ungrouped = None, vo_groupThreshold = None, vo_pinned = None\<rparr>"

definition web_view :: view_graph where
  "web_view = buildView code_unit_compare (knownFrom web_graph) (jm_keys (kn_nodes (knownFrom web_graph))) all_options"

lemma view_stands_for_shown_witness:
  "distinct (concat (map drawn_ids (vg_nodes web_view)))
   \<and> map vn_id (vg_nodes web_view)
      = [''ConfigMap/ns/cfg'', ''Deployment/ns/web'', ''ReplicaSet/ns/web-1'', ''Service/ns/web'', ''group:ReplicaSet/ns/web-1'']
   \<and> map ve_weight (vg_edges web_view) = [1, 1, 2, 1, 2]"
proof (intro conjI)
  show "distinct (concat (map drawn_ids (vg_nodes web_view)))"
    unfolding web_view_def using view_stands_for_shown [OF knownFrom_wf] by blast
qed code_simp+

lemma buildAppView_parts:
  "av_view (buildAppView lc known view) = fst (foldReplicaSets lc known view)"
  "set (av_edges (buildAppView lc known view)) \<subseteq> {e \<in> set (vg_edges (av_view (buildAppView lc known view))).
      \<not> jm_has (av_hostOf (buildAppView lc known view)) (ve_source e) \<and> \<not> jm_has (av_hostOf (buildAppView lc known view)) (ve_target e)}"
  by (auto simp: buildAppView_def Let_def pruneEdges_def)

lemma hostOf_drawn:
  assumes "jm_get (av_hostOf (buildAppView lc known view)) s = Some h"
  shows "(\<exists>v \<in> set (vg_nodes (av_view (buildAppView lc known view))). vn_id v = s \<and> is_satellite v)
    \<and> host_drawn (by_id (av_view (buildAppView lc known view))) h"
proof -
  define vf where "vf = foldReplicaSets lc known view"
  have wf: "jm_wf (hosts_of lc known byId drawnAs vs)" for byId drawnAs vs
    unfolding hosts_of_def by (rule foldl_invariant) (auto split: list.split)
  have "jm_get (hosts_of lc known (by_id (fst vf)) (drawn_as (fst vf) (snd vf)) (vg_nodes (fst vf))) s = Some h"
    using assms by (auto simp: buildAppView_def settled_lanes_def Let_def vf_def jm_get_filter_some wf)
  from hosts_of_drawn [OF this] show ?thesis by (simp add: buildAppView_parts vf_def)
qed

text \<open>C27: In the application view of what is drawn, every edge still drawn joins two different drawn nodes, neither of them a satellite,
  and every satellite is a drawn configuration node hanging under a drawn workload, whatever was folded and pruned on the way.\<close>

theorem app_view_drawn:
  fixes lc :: "string \<Rightarrow> string \<Rightarrow> int" and known :: known_graph and visible :: "string list" and opts :: view_options
  defines "app \<equiv> buildAppView lc known (buildView lc known visible opts)"
  shows "(e \<in> set (av_edges app) \<longrightarrow>
       ve_source e \<in> vn_id ` set (vg_nodes (av_view app)) \<and> ve_target e \<in> vn_id ` set (vg_nodes (av_view app))
       \<and> ve_source e \<noteq> ve_target e \<and> 0 < ve_weight e
       \<and> \<not> jm_has (av_hostOf app) (ve_source e) \<and> \<not> jm_has (av_hostOf app) (ve_target e))
    \<and> (jm_get (av_hostOf app) s = Some h \<longrightarrow>
       (\<exists>v \<in> set (vg_nodes (av_view app)). vn_id v = s \<and> is_satellite v) \<and> host_drawn (by_id (av_view app)) h)"
proof -
  have "view_ok known (av_view app)"
    unfolding app_def buildAppView_parts by (rule foldReplicaSets_ok [OF buildView_ok])
  then show ?thesis
    using buildAppView_parts(2) [of lc known "buildView lc known visible opts"] hostOf_drawn [of lc known _ s h]
    unfolding app_def view_ok_def by blast
qed

definition web_app :: app_view where
  "web_app = buildAppView code_unit_compare (knownFrom web_graph) web_view"

lemma app_view_drawn_witness:
  "ve_source (hd (av_edges web_app)) \<in> vn_id ` set (vg_nodes (av_view web_app))
   \<and> host_drawn (by_id (av_view web_app)) ''Deployment/ns/web''
   \<and> map ve_id (av_edges web_app)
      = [''Deployment/ns/web|owns|group:ReplicaSet/ns/web-1'', ''Service/ns/web|exposes|Deployment/ns/web'']"
proof -
  have es: "map ve_id (av_edges web_app)
      = [''Deployment/ns/web|owns|group:ReplicaSet/ns/web-1'', ''Service/ns/web|exposes|Deployment/ns/web'']"
    by code_simp
  then have e: "hd (av_edges web_app) \<in> set (av_edges web_app)" by (cases "av_edges web_app") auto
  have h: "jm_get (av_hostOf web_app) ''ConfigMap/ns/cfg'' = Some ''Deployment/ns/web''" by code_simp
  show ?thesis
    using app_view_drawn [where known = "knownFrom web_graph" and lc = code_unit_compare and opts = all_options
        and visible = "jm_keys (kn_nodes (knownFrom web_graph))" and e = "hd (av_edges web_app)"
        and s = "''ConfigMap/ns/cfg''" and h = "''Deployment/ns/web''"] e h es
    unfolding web_app_def web_view_def by blast
qed

text \<open>Every drawn node is in exactly one lane of the application view, and the lanes are distinct.\<close>

lemma lanes_partition:
  "mset (concat (map al_nodeIds (av_lanes (buildAppView lc known view))))
     = mset (map vn_id (vg_nodes (av_view (buildAppView lc known view))))
   \<and> distinct (map al_id (av_lanes (buildAppView lc known view)))"
proof -
  define sl where "sl = settled_lanes lc known (fst (foldReplicaSets lc known view)) (snd (foldReplicaSets lc known view))"
  have "av_lanes (buildAppView lc known view)
      = drawn_lanes lc (fst sl) (fst (snd sl)) (snd (snd sl)) (vg_nodes (av_view (buildAppView lc known view)))"
    by (simp add: buildAppView_def Let_def sl_def)
  then show ?thesis using drawn_lanes_all by simp
qed


definition web_ref :: "string \<Rightarrow> topo_mode option" where
  "web_ref name = Some (FocusMode \<lparr>tr_group = None, tr_version = None, tr_kind = ''Deployment'', tr_namespace = Some ''ns'', tr_name = name\<rparr> None)"

text \<open>The user looks at one Deployment, then at another before the first answer arrives.\<close>

definition two_looks :: topo_session where
  "two_looks = configure (configure (initial_session True) ''dev'' (web_ref ''api'') False) ''dev'' (web_ref ''web'') False"

lemma two_looks_reachable: "topo_reachable two_looks []"
  unfolding two_looks_def using tr_step [OF tr_step [OF tr_init st_configure] st_configure] by simp

definition second_answered :: topo_session where
  "second_answered =
     (let c = (\<lambda>name. CallNeighbors ''dev'' \<lparr>tr_group = None, tr_version = None, tr_kind = ''Deployment'', tr_namespace = Some ''ns'', tr_name = name\<rparr>
                        (Some ''ns'') False);
          s1 = load_done (answered (PLoad 2 (c ''web'')) two_looks) 2 web_graph 100
      in load_done (answered (PLoad 1 (c ''api'')) s1) 1 (web_graph\<lparr>tg_nodes := [], tg_edges := []\<rparr>) 200)"

lemma second_answered_reachable:
  "topo_reachable second_answered [(2, web_graph), (1, web_graph\<lparr>tg_nodes := [], tg_edges := []\<rparr>)]"
proof -
  let ?c = "\<lambda>name. CallNeighbors ''dev'' \<lparr>tr_group = None, tr_version = None, tr_kind = ''Deployment'', tr_namespace = Some ''ns'', tr_name = name\<rparr>
                        (Some ''ns'') False"
  have p: "ts_pending two_looks = [PLoad 1 (?c ''api''), PLoad 2 (?c ''web'')]" by code_simp
  then have "PLoad 2 (?c ''web'') \<in> set (ts_pending two_looks)" by simp
  from tr_step [OF two_looks_reachable st_load_done [OF this]]
  have s1: "topo_reachable (load_done (answered (PLoad 2 (?c ''web'')) two_looks) 2 web_graph 100) [(2, web_graph)]" by simp
  have "PLoad 1 (?c ''api'') \<in> set (ts_pending (load_done (answered (PLoad 2 (?c ''web'')) two_looks) 2 web_graph 100))"
    by (simp add: p)
  from tr_step [OF s1 st_load_done [OF this]] show ?thesis by (simp add: second_answered_def)
qed


text \<open>The view shows that it is loading exactly while the request for what is looked at is under way, and a node shows it is expanding
  only while a request for it is.\<close>

lemma loading_shown_exactly:
  assumes "topo_reachable s log"
  shows "(ts_loading s \<longleftrightarrow> (\<exists>c. PLoad (ts_generation s) c \<in> set (ts_pending s)))
    \<and> (k \<in> set (ts_loadingIds s) \<longrightarrow> (\<exists>gen name c. PExpand gen k name c \<in> set (ts_pending s)))"
proof -
  have "is_load gen p \<longleftrightarrow> (\<exists>c. p = PLoad gen c)" for gen p by (cases p) auto
  then have "filter (is_load gen) ps \<noteq> [] \<longleftrightarrow> (\<exists>c. PLoad gen c \<in> set ps)" for gen ps
    by (auto simp: filter_empty_conv)
  then show ?thesis
    using topo_reachable_ok [OF assms] by (simp add: loads_ok_def expands_ok_def)
qed

lemma loading_shown_exactly_witness:
  "(ts_loading two_looks = (\<exists>c. PLoad (ts_generation two_looks) c \<in> set (ts_pending two_looks))) \<and> ts_loading two_looks \<and> \<not> ts_loading second_answered"
proof (intro conjI)
  show "ts_loading two_looks = (\<exists>c. PLoad (ts_generation two_looks) c \<in> set (ts_pending two_looks))"
    using loading_shown_exactly [OF two_looks_reachable] by blast
qed code_simp+

text \<open>Identifiers are read back into their parts.\<close>

lemma parse_node_id:
  assumes "CHR ''/'' \<notin> set kind" "CHR ''/'' \<notin> set (str_or namespace [])"
  shows "parseNodeId (nodeIdFor kind namespace name) = (kind, Some (str_or namespace []), name)"
  using assms by (simp add: parseNodeId_def nodeIdFor_def split_char_append split_char_no_sep nth_opt_def join_split_char Let_def)

end
