(* ===== verification/PersistSnapshot.thy ===== *)
theory PersistSnapshot
  imports JsonValues
begin

text \<open>
  The saved workspace of a cluster tab (\<open>store/persistence.ts\<close>, \<open>store/persistedItem.ts\<close>): the
  snapshot built from the live state, the reading of a stored one of any version, and what
  is compared to find changes. Values the code types \<open>any\<close> are JSON values; the text that
  \<open>JSON.stringify\<close> and \<open>JSON.parse\<close> make of them is left out, and a stored text that is no
  JSON is \<open>None\<close>.
\<close>

section \<open>Objects\<close>

text \<open>A property read of any value; only objects have the properties the code reads.\<close>

definition fields_of :: "json \<Rightarrow> fields" where
  "fields_of j = (case j of JObj p \<Rightarrow> p | _ \<Rightarrow> [])"

definition jprop :: "json option \<Rightarrow> string \<Rightarrow> json option" where
  "jprop j k = (case j of None \<Rightarrow> None | Some v \<Rightarrow> prop_of (fields_of v) k)"

definition is_object :: "json \<Rightarrow> bool" where
  "is_object j = (case j of JObj _ \<Rightarrow> True | _ \<Rightarrow> False)"

text \<open>\<open>a ?? b\<close>\<close>

definition json_or :: "json option \<Rightarrow> json option \<Rightarrow> json option" where
  "json_or a b = (case a of None \<Rightarrow> b | Some JNull \<Rightarrow> b | Some v \<Rightarrow> Some v)"

text \<open>An object literal: what is \<open>undefined\<close> is not written.\<close>

definition js_obj :: "(string \<times> json option) list \<Rightarrow> json" where
  "js_obj es = JObj (List.map_filter (\<lambda>(k, v). map_option (Pair k) v) es)"

text \<open>\<open>{...o, k: v}\<close>\<close>

definition obj_with :: "fields \<Rightarrow> string \<Rightarrow> json option \<Rightarrow> fields" where
  "obj_with p k v = (case v of None \<Rightarrow> jm_delete p k | Some x \<Rightarrow> jm_set p k x)"

definition opt_str :: "string option \<Rightarrow> json option" where
  "opt_str = map_option JStr"

definition null_str :: "string option \<Rightarrow> json option" where
  "null_str s = Some (case s of None \<Rightarrow> JNull | Some x \<Rightarrow> JStr x)"

text \<open>\<open>typeof v === 'string'\<close>\<close>

definition as_str :: "json option \<Rightarrow> string option" where
  "as_str j = (case j of Some (JStr s) \<Rightarrow> Some s | _ \<Rightarrow> None)"

definition asArray :: "json option \<Rightarrow> json list" where
  "asArray j = (case j of Some (JArr xs) \<Rightarrow> xs | _ \<Rightarrow> [])"

definition asString :: "json option \<Rightarrow> string" where
  "asString j = (case as_str j of None \<Rightarrow> [] | Some s \<Rightarrow> s)"

text \<open>\<open>v && typeof v === 'object'\<close>\<close>

definition truthy_object :: "json option \<Rightarrow> json option" where
  "truthy_object j = (case j of Some (JObj p) \<Rightarrow> Some (JObj p) | Some (JArr xs) \<Rightarrow> Some (JArr xs) | _ \<Rightarrow> None)"

section \<open>What is kept of an object\<close>

definition persistedItem :: "json option \<Rightarrow> json option" where
  "persistedItem item =
     (if truthy_object item = None then item
      else let metadata = (if json_truthy (jprop item ''metadata'') then jprop item ''metadata'' else Some (JObj []))
           in Some (js_obj
                [(''name'', json_or (jprop metadata ''name'') (jprop item ''name'')),
                 (''namespace'', json_or (jprop metadata ''namespace'') (jprop item ''namespace'')),
                 (''uid'', json_or (jprop metadata ''uid'') (jprop item ''uid'')),
                 (''kind'', jprop item ''kind''),
                 (''apiVersion'', jprop item ''apiVersion'')]))"

definition null_item :: "json option \<Rightarrow> json" where
  "null_item item = (case json_or (persistedItem item) (Some JNull) of None \<Rightarrow> JNull | Some v \<Rightarrow> v)"

definition stripListTab :: "json \<Rightarrow> json" where
  "stripListTab rt =
     (if \<not> json_truthy (Some rt) then rt
      else JObj (jm_set (jm_set (jm_delete (jm_delete (fields_of rt) ''items'') ''selectedItem'')
                    ''selectedItem'' (null_item (jprop (Some rt) ''selectedItem''))) ''items'' (JArr [])))"

definition saved_detail_tab :: "json \<Rightarrow> json" where
  "saved_detail_tab dt = JObj (obj_with (fields_of dt) ''item'' (persistedItem (jprop (Some dt) ''item'')))"

section \<open>The live state\<close>

record live_state =
  lv_resourceListTabs :: "json list option"
  lv_activeResourceListTab :: "string option"
  lv_activeByPane :: "json option"
  lv_detailTabs :: "json list option"
  lv_activeDetailTab :: "string option"
  lv_centerPaneLayout :: "json option"
  lv_focusedCenterPaneId :: "string option"
  lv_expandedNodes :: "string list option"
  lv_selectedNode :: "json option"
  lv_searchQuery :: "string option"
  lv_listFilter :: "string option"
  lv_isDetailsPanelCollapsed :: bool
  lv_sortBy :: "string option"
  lv_sortOrder :: "string option"
  lv_selectedNamespace :: "string option"
  lv_selectedNamespaces :: "string list option"

record live_bottom =
  lb_id :: string
  lb_type :: string
  lb_title :: string
  lb_customTitle :: "string option"
  lb_resource :: "json option"
  lb_cluster :: string
  lb_selectedContainer :: "string option"
  lb_location :: string
  lb_paneId :: "string option"

record tab_snapshot =
  sn_v :: int
  sn_resourceListTabs :: "json list"
  sn_activeResourceListTab :: "string option"
  sn_activeByPane :: json
  sn_detailTabs :: "json list"
  sn_activeDetailTab :: "string option"
  sn_centerPaneLayout :: "json option"
  sn_focusedCenterPaneId :: "string option"
  sn_expandedNodes :: "string list"
  sn_selectedNode :: "json option"
  sn_searchQuery :: string
  sn_listFilter :: string
  sn_isDetailsPanelCollapsed :: bool
  sn_sortBy :: "string option"
  sn_sortOrder :: "string option"
  sn_selectedNamespace :: "string option"
  sn_selectedNamespaces :: "string list option"
  sn_bottomTabs :: "json list"
  sn_activeBottomTab :: "string option"

definition SNAPSHOT_VERSION :: int where
  "SNAPSHOT_VERSION = 2"

definition TABSTATE_KEY :: "string \<Rightarrow> string" where
  "TABSTATE_KEY cluster = ''kanivet.tabstate.'' @ cluster"

definition CLUSTER_SCOPED_KEY_PREFIXES :: "string list" where
  "CLUSTER_SCOPED_KEY_PREFIXES =
    [''kanivet.tabstate.'', ''kanivet.lastResource.'', ''kanivet.lastItem.'', ''kanivet.lastDetailTab.'',
     ''kanivet.namespace.'', ''kanivet.selectedNamespaces.'']"

definition RESTORABLE_BOTTOM_TYPES :: "string list" where
  "RESTORABLE_BOTTOM_TYPES = [''logs'', ''deployment-logs'', ''edit'', ''trace'']"

section \<open>Building a snapshot\<close>

definition bottomTabRef :: "json option \<Rightarrow> json" where
  "bottomTabRef resource =
     (let metadata = (if json_truthy (jprop resource ''metadata'') then jprop resource ''metadata'' else Some (JObj []))
      in js_obj [(''apiVersion'', jprop resource ''apiVersion''), (''kind'', jprop resource ''kind''),
                 (''name'', json_or (jprop metadata ''name'') (jprop resource ''name'')),
                 (''namespace'', json_or (jprop metadata ''namespace'') (jprop resource ''namespace''))])"

definition restorable :: "string \<Rightarrow> live_bottom \<Rightarrow> bool" where
  "restorable cluster bt =
     (lb_cluster bt = cluster \<and> lb_type bt \<in> set RESTORABLE_BOTTOM_TYPES
      \<and> \<not> json_truthy (jprop (lb_resource bt) ''_isHelmValues'')
      \<and> json_truthy (jprop (Some (bottomTabRef (lb_resource bt))) ''name''))"

definition saved_bottom :: "string \<Rightarrow> live_bottom \<Rightarrow> json" where
  "saved_bottom cluster bt =
     js_obj [(''id'', Some (JStr (lb_id bt))), (''type'', Some (JStr (lb_type bt))), (''title'', Some (JStr (lb_title bt))),
             (''customTitle'', opt_str (lb_customTitle bt)), (''cluster'', Some (JStr cluster)),
             (''selectedContainer'', opt_str (lb_selectedContainer bt)), (''location'', Some (JStr (lb_location bt))),
             (''paneId'', opt_str (lb_paneId bt)), (''ref'', Some (bottomTabRef (lb_resource bt)))]"

definition restorableBottomTabs :: "live_bottom list \<Rightarrow> string \<Rightarrow> json list" where
  "restorableBottomTabs bottomTabs cluster = map (saved_bottom cluster) (filter (restorable cluster) bottomTabs)"

definition saved_node :: "json option \<Rightarrow> json option" where
  "saved_node n =
     (if json_truthy n
      then Some (js_obj [(''id'', jprop n ''id''), (''label'', jprop n ''label''), (''type'', jprop n ''type''), (''data'', jprop n ''data'')])
      else None)"

definition buildTabSnapshot :: "live_state \<Rightarrow> live_bottom list \<Rightarrow> string option \<Rightarrow> string \<Rightarrow> tab_snapshot" where
  "buildTabSnapshot st bottomTabs activeBottomTab cluster =
     (let bottom = restorableBottomTabs bottomTabs cluster
      in \<lparr>sn_v = SNAPSHOT_VERSION,
          sn_resourceListTabs = map stripListTab (nullish (lv_resourceListTabs st) []),
          sn_activeResourceListTab = lv_activeResourceListTab st,
          sn_activeByPane = nullish (lv_activeByPane st) (JObj []),
          sn_detailTabs = map saved_detail_tab (nullish (lv_detailTabs st) []),
          sn_activeDetailTab = lv_activeDetailTab st,
          sn_centerPaneLayout = lv_centerPaneLayout st,
          sn_focusedCenterPaneId = lv_focusedCenterPaneId st,
          sn_expandedNodes = nullish (lv_expandedNodes st) [],
          sn_selectedNode = saved_node (lv_selectedNode st),
          sn_searchQuery = str_or (lv_searchQuery st) [],
          sn_listFilter = str_or (lv_listFilter st) [],
          sn_isDetailsPanelCollapsed = lv_isDetailsPanelCollapsed st,
          sn_sortBy = lv_sortBy st, sn_sortOrder = lv_sortOrder st,
          sn_selectedNamespace = lv_selectedNamespace st, sn_selectedNamespaces = lv_selectedNamespaces st,
          sn_bottomTabs = bottom,
          sn_activeBottomTab =
            (if list_ex (\<lambda>bt. as_str (jprop (Some bt) ''id'') = activeBottomTab \<and> activeBottomTab \<noteq> None) bottom
             then activeBottomTab else None)\<rparr>)"

text \<open>The stored value: \<open>JSON.stringify\<close> of a snapshot.\<close>

definition snapshot_json :: "tab_snapshot \<Rightarrow> json" where
  "snapshot_json s = js_obj
     [(''v'', Some (JNum (sn_v s))),
      (''resourceListTabs'', Some (JArr (sn_resourceListTabs s))),
      (''activeResourceListTab'', null_str (sn_activeResourceListTab s)),
      (''activeResourceListTabByPane'', Some (sn_activeByPane s)),
      (''detailTabs'', Some (JArr (sn_detailTabs s))),
      (''activeDetailTab'', null_str (sn_activeDetailTab s)),
      (''centerPaneLayout'', sn_centerPaneLayout s),
      (''focusedCenterPaneId'', null_str (sn_focusedCenterPaneId s)),
      (''expandedNodes'', Some (JArr (map JStr (sn_expandedNodes s)))),
      (''selectedNode'', Some (nullish (sn_selectedNode s) JNull)),
      (''searchQuery'', Some (JStr (sn_searchQuery s))),
      (''listFilter'', Some (JStr (sn_listFilter s))),
      (''isDetailsPanelCollapsed'', Some (JBool (sn_isDetailsPanelCollapsed s))),
      (''sortBy'', opt_str (sn_sortBy s)),
      (''sortOrder'', opt_str (sn_sortOrder s)),
      (''selectedNamespace'', opt_str (sn_selectedNamespace s)),
      (''selectedNamespaces'', map_option (\<lambda>ns. JArr (map JStr ns)) (sn_selectedNamespaces s)),
      (''bottomTabs'', Some (JArr (sn_bottomTabs s))),
      (''activeBottomTab'', null_str (sn_activeBottomTab s))]"

section \<open>Reading a stored one\<close>

definition has_id :: "json \<Rightarrow> bool" where
  "has_id j = (is_object j \<and> as_str (jprop (Some j) ''id'') \<noteq> None)"

definition read_list_tab :: "json \<Rightarrow> json" where
  "read_list_tab rt =
     JObj (jm_set (jm_set (fields_of rt) ''items'' (JArr [])) ''selectedItem'' (null_item (jprop (Some rt) ''selectedItem'')))"

definition readable_bottom :: "json \<Rightarrow> bool" where
  "readable_bottom bt =
     (as_str (jprop (Some bt) ''id'') \<noteq> None
      \<and> (case as_str (jprop (Some bt) ''type'') of None \<Rightarrow> False | Some ty \<Rightarrow> ty \<in> set RESTORABLE_BOTTOM_TYPES)
      \<and> as_str (jprop (jprop (Some bt) ''ref'') ''name'') \<noteq> None)"

definition read_strings :: "json list \<Rightarrow> string list" where
  "read_strings = List.map_filter (\<lambda>j. as_str (Some j))"

definition parseTabSnapshot :: "json option \<Rightarrow> tab_snapshot option" where
  "parseTabSnapshot raw =
     (case raw of
        Some (JObj p) \<Rightarrow>
          let at = prop_of p in
          if (case at ''v'' of Some (JNum v) \<Rightarrow> SNAPSHOT_VERSION < v | _ \<Rightarrow> False) then None
          else let bottomTabs = filter readable_bottom (asArray (at ''bottomTabs'')) in Some
            \<lparr>sn_v = SNAPSHOT_VERSION,
             sn_resourceListTabs = map read_list_tab (filter has_id (asArray (at ''resourceListTabs''))),
             sn_activeResourceListTab = as_str (at ''activeResourceListTab''),
             sn_activeByPane = nullish (truthy_object (at ''activeResourceListTabByPane'')) (JObj []),
             sn_detailTabs = map saved_detail_tab (filter has_id (asArray (at ''detailTabs''))),
             sn_activeDetailTab = as_str (at ''activeDetailTab''),
             sn_centerPaneLayout = truthy_object (at ''centerPaneLayout''),
             sn_focusedCenterPaneId = Some (nullish (as_str (at ''focusedCenterPaneId'')) ''root''),
             sn_expandedNodes = read_strings (asArray (at ''expandedNodes'')),
             sn_selectedNode = (if as_str (jprop (truthy_object (at ''selectedNode'')) ''type'') \<noteq> None
                                then at ''selectedNode'' else None),
             sn_searchQuery = asString (at ''searchQuery''),
             sn_listFilter = asString (at ''listFilter''),
             sn_isDetailsPanelCollapsed = (at ''isDetailsPanelCollapsed'' = Some (JBool True)),
             sn_sortBy = as_str (at ''sortBy''),
             sn_sortOrder = (case as_str (at ''sortOrder'') of Some x \<Rightarrow> if x = ''asc'' \<or> x = ''desc'' then Some x else None | None \<Rightarrow> None),
             sn_selectedNamespace = as_str (at ''selectedNamespace''),
             sn_selectedNamespaces = (case at ''selectedNamespaces'' of Some (JArr ns) \<Rightarrow> Some (read_strings ns) | _ \<Rightarrow> None),
             sn_bottomTabs = bottomTabs,
             sn_activeBottomTab = (case as_str (at ''activeBottomTab'') of None \<Rightarrow> None
                | Some x \<Rightarrow> if list_ex (\<lambda>bt. as_str (jprop (Some bt) ''id'') = Some x) bottomTabs then Some x else None)\<rparr>
      | _ \<Rightarrow> None)"

text \<open>\<open>{...base, ...snapshotToTabState(snap)}\<close>: a sorting or namespace the snapshot does not have stays the base's.\<close>

definition snapshotToTabState :: "tab_snapshot \<Rightarrow> live_state \<Rightarrow> live_state" where
  "snapshotToTabState s base = base
     \<lparr>lv_activeResourceListTab := sn_activeResourceListTab s, lv_activeByPane := Some (sn_activeByPane s),
      lv_resourceListTabs := Some (sn_resourceListTabs s), lv_detailTabs := Some (sn_detailTabs s),
      lv_activeDetailTab := sn_activeDetailTab s, lv_focusedCenterPaneId := Some (str_or (sn_focusedCenterPaneId s) ''root''),
      lv_centerPaneLayout := sn_centerPaneLayout s, lv_expandedNodes := Some (js_set_of (sn_expandedNodes s)),
      lv_selectedNode := sn_selectedNode s, lv_searchQuery := Some (sn_searchQuery s), lv_listFilter := Some (sn_listFilter s),
      lv_isDetailsPanelCollapsed := sn_isDetailsPanelCollapsed s,
      lv_sortBy := (if truthy_str (sn_sortBy s) then sn_sortBy s else lv_sortBy base),
      lv_sortOrder := (if truthy_str (sn_sortOrder s) then sn_sortOrder s else lv_sortOrder base),
      lv_selectedNamespace := (if sn_selectedNamespace s \<noteq> None then sn_selectedNamespace s else lv_selectedNamespace base),
      lv_selectedNamespaces := (if sn_selectedNamespaces s \<noteq> None then sn_selectedNamespaces s else lv_selectedNamespaces base)\<rparr>"

section \<open>Finding changes\<close>

text \<open>
  The code compares references where this compares values: state is never changed in place,
  so values that differ have different references.
\<close>

definition sameRef :: "json option \<Rightarrow> json option \<Rightarrow> bool" where
  "sameRef a b =
     (a = b
      \<or> (json_truthy a \<and> json_truthy b
         \<and> (let pa = persistedItem a; pb = persistedItem b
             in jprop pa ''name'' = jprop pb ''name'' \<and> jprop pa ''namespace'' = jprop pb ''namespace''
                \<and> jprop pa ''uid'' = jprop pb ''uid'' \<and> jprop pa ''kind'' = jprop pb ''kind'')))"

definition same_fields :: "string list \<Rightarrow> json \<Rightarrow> json \<Rightarrow> bool" where
  "same_fields ks x y = list_all (\<lambda>k. jprop (Some x) k = jprop (Some y) k) ks"

definition sameListTabs :: "json list option \<Rightarrow> json list option \<Rightarrow> bool" where
  "sameListTabs a b =
     list_all2 (\<lambda>x y. x = y
        \<or> (same_fields [''id'', ''title'', ''resource'', ''selectedNamespaces'', ''sortBy'', ''sortOrder'', ''isPinned'', ''paneId''] x y
           \<and> sameRef (jprop (Some x) ''selectedItem'') (jprop (Some y) ''selectedItem'')))
       (nullish a []) (nullish b [])"

definition sameDetailTabs :: "json list option \<Rightarrow> json list option \<Rightarrow> bool" where
  "sameDetailTabs a b =
     list_all2 (\<lambda>x y. x = y
        \<or> (same_fields [''id'', ''title'', ''resource'', ''isPinned'', ''location'', ''paneId''] x y
           \<and> sameRef (jprop (Some x) ''item'') (jprop (Some y) ''item'')))
       (nullish a []) (nullish b [])"

definition sameSelectedNode :: "json option \<Rightarrow> json option \<Rightarrow> bool" where
  "sameSelectedNode a b =
     (a = b \<or> (json_truthy a \<and> json_truthy b
       \<and> jprop a ''id'' = jprop b ''id'' \<and> jprop a ''type'' = jprop b ''type'' \<and> jprop a ''data'' = jprop b ''data''))"

text \<open>The fields of \<open>DIRECT_KEYS\<close>.\<close>

definition direct_fields where
  "direct_fields st =
     (lv_activeResourceListTab st, lv_activeByPane st, lv_activeDetailTab st, lv_centerPaneLayout st, lv_focusedCenterPaneId st,
      lv_expandedNodes st, lv_searchQuery st, lv_listFilter st, lv_isDetailsPanelCollapsed st, lv_sortBy st, lv_sortOrder st,
      lv_selectedNamespace st, lv_selectedNamespaces st)"

definition tabStateChanged :: "live_state \<Rightarrow> live_state \<Rightarrow> bool" where
  "tabStateChanged old new =
     (if old = new then False
      else if direct_fields old \<noteq> direct_fields new then True
      else \<not> (sameListTabs (lv_resourceListTabs old) (lv_resourceListTabs new)
             \<and> sameDetailTabs (lv_detailTabs old) (lv_detailTabs new)
             \<and> sameSelectedNode (lv_selectedNode old) (lv_selectedNode new)))"

end
