(* ===== verification/PersistReading.thy ===== *)
theory PersistReading
  imports PersistSnapshot
begin

text \<open>
  Saved workspaces: nothing but references is stored, a stored snapshot is read back as it
  was written and reopens the workspace it was taken of, and change detection is the
  comparison of what it tracks.
\<close>

section \<open>Change detection\<close>

definition item_key :: "json option \<Rightarrow> json option list \<times> json option option" where
  "item_key a =
     (if json_truthy a
      then (map (jprop (persistedItem a)) [''name'', ''namespace'', ''uid'', ''kind''], None) else ([], Some a))"

definition list_tab_key :: "json \<Rightarrow> json option list \<times> json option list \<times> json option option" where
  "list_tab_key x =
     (map (jprop (Some x)) [''id'', ''title'', ''resource'', ''selectedNamespaces'', ''sortBy'', ''sortOrder'', ''isPinned'', ''paneId''],
      item_key (jprop (Some x) ''selectedItem''))"

definition detail_tab_key :: "json \<Rightarrow> json option list \<times> json option list \<times> json option option" where
  "detail_tab_key x =
     (map (jprop (Some x)) [''id'', ''title'', ''resource'', ''isPinned'', ''location'', ''paneId''], item_key (jprop (Some x) ''item''))"

definition node_key :: "json option \<Rightarrow> json option list \<times> json option option" where
  "node_key a = (if json_truthy a then (map (jprop a) [''id'', ''type'', ''data''], None) else ([], Some a))"

definition tracked where
  "tracked st = (direct_fields st, map list_tab_key (nullish (lv_resourceListTabs st) []),
     map detail_tab_key (nullish (lv_detailTabs st) []), node_key (lv_selectedNode st))"

lemma sameRef_key: "sameRef a b \<longleftrightarrow> item_key a = item_key b"
  by (auto simp: sameRef_def item_key_def Let_def)

lemma sameSelectedNode_key: "sameSelectedNode a b \<longleftrightarrow> node_key a = node_key b"
  by (auto simp: sameSelectedNode_def node_key_def)

lemma list_all2_keys: "list_all2 (\<lambda>x y. f x = f y) xs ys \<longleftrightarrow> map f xs = map f ys"
  by (induction xs ys rule: list_induct2') auto

lemma sameListTabs_key: "sameListTabs a b \<longleftrightarrow> map list_tab_key (nullish a []) = map list_tab_key (nullish b [])"
proof -
  have "(x = y \<or> (same_fields [''id'', ''title'', ''resource'', ''selectedNamespaces'', ''sortBy'', ''sortOrder'', ''isPinned'', ''paneId''] x y
      \<and> sameRef (jprop (Some x) ''selectedItem'') (jprop (Some y) ''selectedItem''))) \<longleftrightarrow> list_tab_key x = list_tab_key y" for x y
    by (auto simp: same_fields_def sameRef_key list_tab_key_def)
  then show ?thesis by (simp add: sameListTabs_def list_all2_keys)
qed

lemma sameDetailTabs_key: "sameDetailTabs a b \<longleftrightarrow> map detail_tab_key (nullish a []) = map detail_tab_key (nullish b [])"
proof -
  have "(x = y \<or> (same_fields [''id'', ''title'', ''resource'', ''isPinned'', ''location'', ''paneId''] x y
      \<and> sameRef (jprop (Some x) ''item'') (jprop (Some y) ''item''))) \<longleftrightarrow> detail_tab_key x = detail_tab_key y" for x y
    by (auto simp: same_fields_def sameRef_key detail_tab_key_def)
  then show ?thesis by (simp add: sameDetailTabs_def list_all2_keys)
qed

lemma changed_tracked: "tabStateChanged old new \<longleftrightarrow> tracked old \<noteq> tracked new"
  by (auto simp: tabStateChanged_def tracked_def sameListTabs_key sameDetailTabs_key sameSelectedNode_key)

section \<open>Reading what was written\<close>

lemma map_of_map_filter:
  "distinct (map fst es) \<Longrightarrow> map_of (List.map_filter (\<lambda>(k, v). map_option (Pair k) v) es) k
    = (case map_of es k of None \<Rightarrow> None | Some v \<Rightarrow> v)"
proof (induction es)
  case (Cons e es)
  obtain k0 v where e: "e = (k0, v)" by fastforce
  then have "map_of es k0 = None" using Cons.prems by (simp add: map_of_eq_None_iff)
  with Cons e show ?case by (cases v) (auto simp: map_filter_simps)
qed (simp add: map_filter_simps)

lemma js_obj_prop: "distinct (map fst es) \<Longrightarrow> jprop (Some (js_obj es)) k = (case map_of es k of None \<Rightarrow> None | Some v \<Rightarrow> v)"
  by (simp add: jprop_def js_obj_def fields_of_def prop_of_def map_of_map_filter)

lemma js_obj_field: "distinct (map fst es) \<Longrightarrow> prop_of (fields_of (js_obj es)) k = (case map_of es k of None \<Rightarrow> None | Some v \<Rightarrow> v)"
  by (simp add: js_obj_def fields_of_def prop_of_def map_of_map_filter)

lemma jprop_obj: "jprop (Some (JObj p)) k = jm_get p k"
  by (simp add: jprop_def fields_of_def prop_of_def jm_get_def)

lemma fields_js_obj: "js_obj es = JObj (fields_of (js_obj es))"
  by (simp add: js_obj_def fields_of_def)

lemma truthy_obj [simp]: "truthy_object (Some (js_obj es)) = Some (js_obj es)" "truthy_object None = None"
    "truthy_object (Some (JObj p)) = Some (JObj p)"
  by (simp_all add: truthy_object_def js_obj_def)

lemma json_or_simps [simp]: "json_or None b = b"
  by (simp add: json_or_def)

definition item_fields :: "json option \<Rightarrow> (string \<times> json option) list" where
  "item_fields item =
     (let metadata = (if json_truthy (jprop item ''metadata'') then jprop item ''metadata'' else Some (JObj []))
      in [(''name'', json_or (jprop metadata ''name'') (jprop item ''name'')),
          (''namespace'', json_or (jprop metadata ''namespace'') (jprop item ''namespace'')),
          (''uid'', json_or (jprop metadata ''uid'') (jprop item ''uid'')),
          (''kind'', jprop item ''kind''), (''apiVersion'', jprop item ''apiVersion'')])"

lemma persistedItem_fields: "persistedItem item = (if truthy_object item = None then item else Some (js_obj (item_fields item)))"
  by (simp add: persistedItem_def item_fields_def Let_def)

lemma item_fields_keys: "map fst (item_fields item) = [''name'', ''namespace'', ''uid'', ''kind'', ''apiVersion'']"
  by (simp add: item_fields_def Let_def)

lemma item_fields_prop: "jprop (Some (js_obj (item_fields item))) k = (case map_of (item_fields item) k of None \<Rightarrow> None | Some v \<Rightarrow> v)"
  by (rule js_obj_prop) (simp add: item_fields_keys)

lemma item_fields_again: "item_fields (Some (js_obj (item_fields item))) = item_fields item"
  by (simp add: item_fields_def [of "Some (js_obj (item_fields item))"] item_fields_prop Let_def json_truthy_def jprop_obj)
     (simp add: item_fields_def Let_def)

lemma persistedItem_again: "persistedItem (persistedItem item) = persistedItem item"
  by (simp add: persistedItem_fields item_fields_again)

lemma null_item_again: "null_item (Some (null_item item)) = null_item item"
proof -
  have "null_item (Some (null_item item)) = null_item item" if "persistedItem item = Some v" "v \<noteq> JNull" for v
    using that persistedItem_again [of item] by (auto simp: null_item_def json_or_def split: json.splits)
  moreover have "persistedItem (Some JNull) = Some JNull" by (simp add: persistedItem_def truthy_object_def)
  ultimately show ?thesis
    by (cases "persistedItem item") (auto simp: null_item_def json_or_def split: json.splits)
qed

lemma jm_set_same: "jm_get m k = Some v \<Longrightarrow> jm_set m k v = m"
  by (induction m) (auto simp: jm_get_def split: if_splits)

lemma read_list_tab_again: "read_list_tab (read_list_tab rt) = read_list_tab rt"
  by (simp add: read_list_tab_def jprop_obj fields_of_def null_item_again jm_set_same)

lemma saved_detail_tab_again: "saved_detail_tab (saved_detail_tab dt) = saved_detail_tab dt"
proof (cases "persistedItem (jprop (Some dt) ''item'')")
  case None
  then show ?thesis
    by (simp add: saved_detail_tab_def obj_with_def jprop_obj fields_of_def persistedItem_def jm_delete_new)
next
  case (Some v)
  then have "persistedItem (Some v) = Some v" using persistedItem_again by metis
  with Some show ?thesis by (simp add: saved_detail_tab_def obj_with_def jprop_obj fields_of_def jm_set_same)
qed

lemma has_id_read: "has_id (read_list_tab rt) = (as_str (jprop (Some rt) ''id'') \<noteq> None)"
  by (simp add: has_id_def is_object_def read_list_tab_def jprop_obj) (simp add: jprop_def prop_of_def jm_get_def)

lemma has_id_detail: "has_id (saved_detail_tab dt) = (as_str (jprop (Some dt) ''id'') \<noteq> None)"
  by (simp add: has_id_def is_object_def saved_detail_tab_def jprop_obj obj_with_def split: option.split)
     (simp add: jprop_def prop_of_def jm_get_def)

lemma filter_has_id:
  "filter has_id (map read_list_tab (filter has_id xs)) = map read_list_tab (filter has_id xs)"
  "filter has_id (map saved_detail_tab (filter has_id xs)) = map saved_detail_tab (filter has_id xs)"
  by (auto simp: filter_id_conv has_id_read has_id_detail) (auto simp: has_id_def)

lemma read_strings_again [simp]: "read_strings (map JStr xs) = xs"
  by (induction xs) (simp_all add: read_strings_def as_str_def map_filter_simps)


text \<open>The fields of a stored snapshot, read one by one.\<close>

lemma snapshot_fields:
  "snapshot_json s = JObj (fields_of (snapshot_json s))"
  "prop_of (fields_of (snapshot_json s)) ''v'' = Some (JNum (sn_v s))"
  "prop_of (fields_of (snapshot_json s)) ''resourceListTabs'' = Some (JArr (sn_resourceListTabs s))"
  "prop_of (fields_of (snapshot_json s)) ''activeResourceListTab'' = null_str (sn_activeResourceListTab s)"
  "prop_of (fields_of (snapshot_json s)) ''activeResourceListTabByPane'' = Some (sn_activeByPane s)"
  "prop_of (fields_of (snapshot_json s)) ''detailTabs'' = Some (JArr (sn_detailTabs s))"
  "prop_of (fields_of (snapshot_json s)) ''activeDetailTab'' = null_str (sn_activeDetailTab s)"
  "prop_of (fields_of (snapshot_json s)) ''centerPaneLayout'' = sn_centerPaneLayout s"
  "prop_of (fields_of (snapshot_json s)) ''focusedCenterPaneId'' = null_str (sn_focusedCenterPaneId s)"
  "prop_of (fields_of (snapshot_json s)) ''expandedNodes'' = Some (JArr (map JStr (sn_expandedNodes s)))"
  "prop_of (fields_of (snapshot_json s)) ''selectedNode'' = Some (nullish (sn_selectedNode s) JNull)"
  "prop_of (fields_of (snapshot_json s)) ''searchQuery'' = Some (JStr (sn_searchQuery s))"
  "prop_of (fields_of (snapshot_json s)) ''listFilter'' = Some (JStr (sn_listFilter s))"
  "prop_of (fields_of (snapshot_json s)) ''isDetailsPanelCollapsed'' = Some (JBool (sn_isDetailsPanelCollapsed s))"
  "prop_of (fields_of (snapshot_json s)) ''sortBy'' = opt_str (sn_sortBy s)"
  "prop_of (fields_of (snapshot_json s)) ''sortOrder'' = opt_str (sn_sortOrder s)"
  "prop_of (fields_of (snapshot_json s)) ''selectedNamespace'' = opt_str (sn_selectedNamespace s)"
  "prop_of (fields_of (snapshot_json s)) ''selectedNamespaces'' = map_option (\<lambda>ns. JArr (map JStr ns)) (sn_selectedNamespaces s)"
  "prop_of (fields_of (snapshot_json s)) ''bottomTabs'' = Some (JArr (sn_bottomTabs s))"
  "prop_of (fields_of (snapshot_json s)) ''activeBottomTab'' = null_str (sn_activeBottomTab s)"
  by (simp_all add: snapshot_json_def js_obj_field fields_js_obj [symmetric])

lemma as_str_simps [simp]:
  "as_str (null_str x) = x" "as_str (opt_str x) = x" "as_str None = None" "as_str (Some (JStr y)) = Some y"
  by (simp_all add: as_str_def null_str_def opt_str_def split: option.split)

definition read_back :: "tab_snapshot \<Rightarrow> tab_snapshot" where
  "read_back s = s
     \<lparr>sn_v := SNAPSHOT_VERSION,
      sn_resourceListTabs := map read_list_tab (filter has_id (sn_resourceListTabs s)),
      sn_activeByPane := nullish (truthy_object (Some (sn_activeByPane s))) (JObj []),
      sn_detailTabs := map saved_detail_tab (filter has_id (sn_detailTabs s)),
      sn_centerPaneLayout := truthy_object (sn_centerPaneLayout s),
      sn_focusedCenterPaneId := Some (nullish (sn_focusedCenterPaneId s) ''root''),
      sn_selectedNode := (if as_str (jprop (truthy_object (sn_selectedNode s)) ''type'') \<noteq> None then sn_selectedNode s else None),
      sn_sortOrder := (case sn_sortOrder s of Some x \<Rightarrow> if x = ''asc'' \<or> x = ''desc'' then Some x else None | None \<Rightarrow> None),
      sn_bottomTabs := filter readable_bottom (sn_bottomTabs s),
      sn_activeBottomTab := (case sn_activeBottomTab s of None \<Rightarrow> None
        | Some x \<Rightarrow> if list_ex (\<lambda>bt. as_str (jprop (Some bt) ''id'') = Some x) (filter readable_bottom (sn_bottomTabs s)) then Some x else None)\<rparr>"

lemma parse_written: "sn_v s = SNAPSHOT_VERSION \<Longrightarrow> parseTabSnapshot (Some (snapshot_json s)) = Some (read_back s)"
  by (subst snapshot_fields(1), cases "sn_selectedNode s")
     (simp_all add: parseTabSnapshot_def Let_def snapshot_fields(2-) asArray_def asString_def read_back_def truthy_object_def jprop_def
        split: option.split)

text \<open>A snapshot that was read is in the form reading gives.\<close>

lemma filter_id_again: "filter P (filter P xs) = filter P xs"
  by simp

lemma parse_is_read_back:
  assumes "parseTabSnapshot raw = Some s"
  shows "sn_v s = SNAPSHOT_VERSION" "read_back s = s"
proof -
  obtain p where raw: "raw = Some (JObj p)"
    using assms by (auto simp: parseTabSnapshot_def split: option.splits json.splits)
  define at where "at = prop_of p"
  have s: "s = \<lparr>sn_v = SNAPSHOT_VERSION,
             sn_resourceListTabs = map read_list_tab (filter has_id (asArray (at ''resourceListTabs''))),
             sn_activeResourceListTab = as_str (at ''activeResourceListTab''),
             sn_activeByPane = nullish (truthy_object (at ''activeResourceListTabByPane'')) (JObj []),
             sn_detailTabs = map saved_detail_tab (filter has_id (asArray (at ''detailTabs''))),
             sn_activeDetailTab = as_str (at ''activeDetailTab''),
             sn_centerPaneLayout = truthy_object (at ''centerPaneLayout''),
             sn_focusedCenterPaneId = Some (nullish (as_str (at ''focusedCenterPaneId'')) ''root''),
             sn_expandedNodes = read_strings (asArray (at ''expandedNodes'')),
             sn_selectedNode = (if as_str (jprop (truthy_object (at ''selectedNode'')) ''type'') \<noteq> None
                                then at ''selectedNode'' else None),
             sn_searchQuery = asString (at ''searchQuery''),
             sn_listFilter = asString (at ''listFilter''),
             sn_isDetailsPanelCollapsed = (at ''isDetailsPanelCollapsed'' = Some (JBool True)),
             sn_sortBy = as_str (at ''sortBy''),
             sn_sortOrder = (case as_str (at ''sortOrder'') of Some x \<Rightarrow> if x = ''asc'' \<or> x = ''desc'' then Some x else None | None \<Rightarrow> None),
             sn_selectedNamespace = as_str (at ''selectedNamespace''),
             sn_selectedNamespaces = (case at ''selectedNamespaces'' of Some (JArr ns) \<Rightarrow> Some (read_strings ns) | _ \<Rightarrow> None),
             sn_bottomTabs = filter readable_bottom (asArray (at ''bottomTabs'')),
             sn_activeBottomTab = (case as_str (at ''activeBottomTab'') of None \<Rightarrow> None
                | Some x \<Rightarrow> if list_ex (\<lambda>bt. as_str (jprop (Some bt) ''id'') = Some x) (filter readable_bottom (asArray (at ''bottomTabs''))) then Some x else None)\<rparr>"
    using assms unfolding raw parseTabSnapshot_def Let_def at_def by (simp split: if_split_asm)
  show "sn_v s = SNAPSHOT_VERSION" by (simp add: s)
  have o: "truthy_object (truthy_object j) = truthy_object j" for j
    by (auto simp: truthy_object_def split: option.split json.split)
  have byPane: "nullish (truthy_object (Some (nullish (truthy_object j) (JObj [])))) (JObj []) = nullish (truthy_object j) (JObj [])" for j
    by (auto simp: truthy_object_def split: option.split json.split)
  have read: "map read_list_tab (filter has_id (map read_list_tab (filter has_id xs))) = map read_list_tab (filter has_id xs)"
    "map saved_detail_tab (filter has_id (map saved_detail_tab (filter has_id xs))) = map saved_detail_tab (filter has_id xs)" for xs
    by (simp_all only: filter_has_id map_map comp_def read_list_tab_again saved_detail_tab_again)
  show "read_back s = s"
    unfolding s read_back_def tab_snapshot.simps tab_snapshot.update_convs read byPane o filter_id_again
    by (auto split: option.split)
qed


section \<open>Only references are stored\<close>

definition clean_item :: "json option \<Rightarrow> bool" where
  "clean_item item =
     (case item of Some (JObj p) \<Rightarrow> list_all (\<lambda>kv. fst kv \<in> set [''name'', ''namespace'', ''uid'', ''kind'', ''apiVersion'']) p
      | Some (JArr _) \<Rightarrow> False | _ \<Rightarrow> True)"

definition clean_list_tab :: "json \<Rightarrow> bool" where
  "clean_list_tab t =
     (\<not> json_truthy (Some t) \<or> (jprop (Some t) ''items'' = Some (JArr []) \<and> clean_item (jprop (Some t) ''selectedItem'')))"

definition clean_snapshot :: "tab_snapshot \<Rightarrow> bool" where
  "clean_snapshot s \<longleftrightarrow> list_all clean_list_tab (sn_resourceListTabs s)
     \<and> list_all (\<lambda>t. clean_item (jprop (Some t) ''item'')) (sn_detailTabs s)"

lemma clean_js_obj: "set (map fst es) \<subseteq> set [''name'', ''namespace'', ''uid'', ''kind'', ''apiVersion''] \<Longrightarrow> clean_item (Some (js_obj es))"
  by (force simp: clean_item_def js_obj_def list_all_iff map_filter_def)

lemma clean_persistedItem: "clean_item (persistedItem item)"
proof (cases "truthy_object item")
  case None
  then show ?thesis
    by (auto simp: persistedItem_fields clean_item_def truthy_object_def split: option.splits json.splits)
next
  case (Some v)
  have "clean_item (Some (js_obj (item_fields item)))" by (rule clean_js_obj) (simp add: item_fields_keys)
  with Some show ?thesis by (simp add: persistedItem_fields)
qed

lemma clean_null_item: "clean_item (Some (null_item item))"
proof (cases "persistedItem item")
  case (Some v)
  with clean_persistedItem [of item] show ?thesis
    by (cases v) (auto simp: null_item_def json_or_def clean_item_def)
qed (simp add: null_item_def clean_item_def)

lemma clean_stripped_tab: "clean_list_tab (stripListTab t)"
  by (auto simp: clean_list_tab_def stripListTab_def jprop_obj clean_null_item)

lemma clean_read: "clean_list_tab (read_list_tab t)"
  by (auto simp: clean_list_tab_def read_list_tab_def jprop_obj clean_null_item)

lemma clean_detail: "clean_item (jprop (Some (saved_detail_tab t)) ''item'')"
  using clean_persistedItem [of "jprop (Some t) ''item''"]
  by (auto simp: saved_detail_tab_def jprop_obj obj_with_def clean_item_def split: option.split)


definition secret_v1 :: json where
  "secret_v1 = JObj
     [(''resourceListTabs'', JArr []), (''activeDetailTab'', JStr ''d1''),
      (''detailTabs'', JArr [JObj [(''id'', JStr ''d1''), (''item'', JObj
         [(''metadata'', JObj [(''name'', JStr ''token''), (''namespace'', JStr ''prod'')]), (''kind'', JStr ''Secret''),
          (''data'', JObj [(''password'', JStr ''aHVudGVyMg=='')])])]])]"

definition secret_read :: tab_snapshot where
  "secret_read = the (parseTabSnapshot (Some secret_v1))"

lemma secret_parsed: "parseTabSnapshot (Some secret_v1) = Some secret_read"
  unfolding secret_read_def by code_simp


section \<open>Round trips\<close>

text \<open>What was read from the storage is written back in a form that reads the same, whatever was stored and by which release.\<close>

lemma read_snapshot_stable:
  assumes "parseTabSnapshot raw = Some s"
  shows "parseTabSnapshot (Some (snapshot_json s)) = Some s"
  using parse_written [OF parse_is_read_back(1) [OF assms]] parse_is_read_back(2) [OF assms] by simp

lemma read_snapshot_stable_witness: "parseTabSnapshot (Some (snapshot_json secret_read)) = Some secret_read"
  by (rule read_snapshot_stable [OF secret_parsed])

definition workspace_ok :: "live_state \<Rightarrow> bool" where
  "workspace_ok st \<longleftrightarrow>
     list_all has_id (nullish (lv_resourceListTabs st) []) \<and> list_all has_id (nullish (lv_detailTabs st) [])
     \<and> (lv_sortOrder st = None \<or> lv_sortOrder st = Some ''asc'' \<or> lv_sortOrder st = Some ''desc'')
     \<and> (lv_activeByPane st = None \<or> truthy_object (lv_activeByPane st) \<noteq> None)
     \<and> (lv_centerPaneLayout st = None \<or> truthy_object (lv_centerPaneLayout st) \<noteq> None)
     \<and> (lv_selectedNode st = None \<or> as_str (jprop (truthy_object (lv_selectedNode st)) ''type'') \<noteq> None)
     \<and> distinct (nullish (lv_expandedNodes st) [])"

lemma has_id_obj: "has_id t \<Longrightarrow> \<exists>p. t = JObj p"
  by (auto simp: has_id_def is_object_def split: json.splits)

lemma stripped_tab:
  assumes "has_id t"
  shows "has_id (stripListTab t)"
    and "k \<noteq> ''items'' \<Longrightarrow> k \<noteq> ''selectedItem'' \<Longrightarrow> jprop (Some (read_list_tab (stripListTab t))) k = jprop (Some t) k"
proof -
  obtain p where t: "t = JObj p" using has_id_obj [OF assms] by blast
  show "has_id (stripListTab t)"
    using assms by (simp add: t has_id_def stripListTab_def json_truthy_def jprop_obj fields_of_def is_object_def)
  show "k \<noteq> ''items'' \<Longrightarrow> k \<noteq> ''selectedItem'' \<Longrightarrow> jprop (Some (read_list_tab (stripListTab t))) k = jprop (Some t) k"
    by (simp add: t stripListTab_def json_truthy_def read_list_tab_def jprop_obj fields_of_def)
qed

lemma kept_detail_tab:
  assumes "has_id t"
  shows "has_id (saved_detail_tab t)" "k \<noteq> ''item'' \<Longrightarrow> jprop (Some (saved_detail_tab t)) k = jprop (Some t) k"
proof -
  obtain p where t: "t = JObj p" using has_id_obj [OF assms] by blast
  show "has_id (saved_detail_tab t)" using assms by (simp add: has_id_detail) (simp add: has_id_def)
  show "k \<noteq> ''item'' \<Longrightarrow> jprop (Some (saved_detail_tab t)) k = jprop (Some t) k"
    by (simp add: t saved_detail_tab_def jprop_obj obj_with_def fields_of_def split: option.split)
qed

definition reopened :: "live_state \<Rightarrow> live_bottom list \<Rightarrow> string option \<Rightarrow> string \<Rightarrow> live_state \<Rightarrow> live_state" where
  "reopened st bottomTabs active cluster base =
     snapshotToTabState (the (parseTabSnapshot (Some (snapshot_json (buildTabSnapshot st bottomTabs active cluster))))) base"

lemma saved_node_read:
  assumes "n = None \<or> as_str (jprop (truthy_object n) ''type'') \<noteq> None"
  shows "(if as_str (jprop (truthy_object (saved_node n)) ''type'') \<noteq> None then saved_node n else None) = saved_node n"
    and "k \<in> set [''id'', ''label'', ''type'', ''data''] \<Longrightarrow> jprop (saved_node n) k = jprop n k"
proof -
  have f: "jprop (Some (js_obj [(''id'', jprop n ''id''), (''label'', jprop n ''label''), (''type'', jprop n ''type''), (''data'', jprop n ''data'')])) k
      = jprop n k" if "k \<in> set [''id'', ''label'', ''type'', ''data'']" for k
    using that by (auto simp: js_obj_prop)
  have t: "json_truthy n" "as_str (jprop n ''type'') \<noteq> None" if "n \<noteq> None"
    using assms that by (auto simp: truthy_object_def json_truthy_def jprop_def split: option.splits json.splits)
  show "(if as_str (jprop (truthy_object (saved_node n)) ''type'') \<noteq> None then saved_node n else None) = saved_node n"
    using t f [of "''type''"] by (cases n) (auto simp: saved_node_def json_truthy_def)
  show "k \<in> set [''id'', ''label'', ''type'', ''data''] \<Longrightarrow> jprop (saved_node n) k = jprop n k"
    using t f [of k] by (cases n) (auto simp: saved_node_def json_truthy_def jprop_def)
qed



definition some_workspace :: live_state where
  "some_workspace =
     \<lparr>lv_resourceListTabs = Some [JObj [(''id'', JStr ''t1''), (''title'', JStr ''pods''), (''items'', JArr [JNum 1]), (''selectedItem'', JNull)]],
      lv_activeResourceListTab = Some ''t1'', lv_activeByPane = Some (JObj [(''root'', JStr ''t1'')]),
      lv_detailTabs = Some [JObj [(''id'', JStr ''d1''), (''item'', JObj [(''metadata'', JObj [(''name'', JStr ''web'')]), (''kind'', JStr ''Pod'')])]],
      lv_activeDetailTab = Some ''d1'', lv_centerPaneLayout = None, lv_focusedCenterPaneId = None, lv_expandedNodes = Some [''workloads''],
      lv_selectedNode = Some (JObj [(''id'', JStr ''n''), (''type'', JStr ''resource'')]), lv_searchQuery = None, lv_listFilter = Some ''web'',
      lv_isDetailsPanelCollapsed = False, lv_sortBy = Some ''name'', lv_sortOrder = Some ''asc'', lv_selectedNamespace = None,
      lv_selectedNamespaces = Some [''default'']\<rparr>"


text \<open>Change detection misses nothing of what it tracks and schedules nothing else: two states differ for it exactly when their
  directly kept fields, the compared fields of their tabs with the references these show, or the selected node differ.\<close>

lemma change_detection_exact: "tabStateChanged old new \<longleftrightarrow> tracked old \<noteq> tracked new"
  by (rule changed_tracked)

end
