(* ===== verification/PersistWriter.thy ===== *)
theory PersistWriter
  imports PersistSnapshot
begin

text \<open>
  The single writer of snapshots (\<open>store/persistence.ts\<close>, from \<open>Writer\<close> on): a throttled save
  per cluster, the listener that schedules it, the flush on leaving, the cancel when a tab
  closes, and the removal of keys of clusters that are no longer open. A write of the
  storage may fail; its outcome is a parameter of the event.
\<close>

section \<open>State\<close>

record store_view =
  sv_activeTabs :: "(string \<times> live_state) list"
  sv_bottomTabs :: "live_bottom list"
  sv_activeBottomTab :: "string option"

record writer =
  wr_store :: store_view
  wr_installed :: bool
  wr_hydrated :: bool
  wr_prevTabs :: "(string, live_state) jsmap"
  wr_prevBottom :: "live_bottom list"
  wr_prevActiveBottom :: "string option"
  wr_pending :: "string list"
  wr_storage :: "(string, json) jsmap"
  wr_warned :: bool

definition THROTTLE_MS :: int where
  "THROTTLE_MS = 1000"

definition safeSetItem :: "bool \<Rightarrow> string \<Rightarrow> json \<Rightarrow> writer \<Rightarrow> writer" where
  "safeSetItem ok key value w =
     (if ok then w\<lparr>wr_storage := jm_set (wr_storage w) key value\<rparr> else w\<lparr>wr_warned := True\<rparr>)"

definition saveCluster :: "bool \<Rightarrow> string \<Rightarrow> writer \<Rightarrow> writer" where
  "saveCluster ok cluster w0 =
     (let w = w0\<lparr>wr_pending := filter (\<lambda>c. c \<noteq> cluster) (wr_pending w0)\<rparr>
      in if \<not> wr_installed w then w
         else (case map_of (sv_activeTabs (wr_store w)) cluster of
                 None \<Rightarrow> w
               | Some st \<Rightarrow> safeSetItem ok (TABSTATE_KEY cluster)
                   (snapshot_json (buildTabSnapshot st (sv_bottomTabs (wr_store w)) (sv_activeBottomTab (wr_store w)) cluster)) w))"

definition schedule :: "string \<Rightarrow> writer \<Rightarrow> writer" where
  "schedule cluster w = (if cluster \<in> set (wr_pending w) then w else w\<lparr>wr_pending := wr_pending w @ [cluster]\<rparr>)"

text \<open>The outcome of each write is read off \<open>oks\<close>; past its end writes succeed.\<close>

definition flushPendingSnapshots :: "bool list \<Rightarrow> writer \<Rightarrow> writer" where
  "flushPendingSnapshots oks w =
     foldl (\<lambda>w (cluster, ok). saveCluster ok cluster w) w
       (zip (wr_pending w) (oks @ replicate (length (wr_pending w)) True))"

definition cancelPendingSnapshot :: "string \<Rightarrow> writer \<Rightarrow> writer" where
  "cancelPendingSnapshot cluster w = w\<lparr>wr_pending := filter (\<lambda>c. c \<noteq> cluster) (wr_pending w)\<rparr>"

definition markHydrated :: "writer \<Rightarrow> writer" where
  "markHydrated w = w\<lparr>wr_hydrated := True\<rparr>"

definition installPersistence :: "store_view \<Rightarrow> bool \<Rightarrow> writer \<Rightarrow> writer" where
  "installPersistence s alreadyHydrated w =
     w\<lparr>wr_store := s, wr_installed := True, wr_hydrated := alreadyHydrated, wr_prevTabs := js_map_of (sv_activeTabs s),
       wr_prevBottom := sv_bottomTabs s, wr_prevActiveBottom := sv_activeBottomTab s\<rparr>"

section \<open>The listener\<close>

definition schedule_tabs :: "store_view \<Rightarrow> writer \<Rightarrow> writer" where
  "schedule_tabs s w =
     foldl (\<lambda>w (cluster, st). case jm_get (wr_prevTabs w) cluster of
                None \<Rightarrow> schedule cluster w
              | Some before \<Rightarrow> if tabStateChanged before st then schedule cluster w else w) w (sv_activeTabs s)"

definition schedule_bottom :: "store_view \<Rightarrow> writer \<Rightarrow> writer" where
  "schedule_bottom s w =
     (let touched = js_set_of (map lb_cluster (sv_bottomTabs s @ wr_prevBottom w));
          w1 = foldl (\<lambda>w cluster. schedule cluster w) w touched
      in if sv_activeBottomTab s \<noteq> wr_prevActiveBottom w
         then (case find (\<lambda>bt. Some (lb_id bt) = sv_activeBottomTab s) (sv_bottomTabs s) of
                 None \<Rightarrow> w1
               | Some bt \<Rightarrow> if lb_cluster bt \<noteq> [] then schedule (lb_cluster bt) w1 else w1)
         else w1)"

definition store_changed :: "store_view \<Rightarrow> writer \<Rightarrow> writer" where
  "store_changed s w0 =
     (let w = w0\<lparr>wr_store := s\<rparr> in
      if \<not> wr_installed w then w
      else
        let tabsChanged = list_ex (\<lambda>(cluster, st). jm_get (wr_prevTabs w) cluster \<noteq> Some st) (sv_activeTabs s);
            bottomChanged = (sv_bottomTabs s \<noteq> wr_prevBottom w \<or> sv_activeBottomTab s \<noteq> wr_prevActiveBottom w)
        in if \<not> tabsChanged \<and> \<not> bottomChanged \<and> length (sv_activeTabs s) = jm_size (wr_prevTabs w) then w
           else
             let w1 = (if wr_hydrated w
                       then (let w1 = schedule_tabs s w in if bottomChanged then schedule_bottom s w1 else w1) else w)
             in w1\<lparr>wr_prevTabs := js_map_of (sv_activeTabs s), wr_prevBottom := sv_bottomTabs s,
                   wr_prevActiveBottom := sv_activeBottomTab s\<rparr>)"

section \<open>Removing keys of closed clusters\<close>

definition stale_key :: "string list \<Rightarrow> string \<Rightarrow> bool" where
  "stale_key openClusters key =
     (case find (starts_with key) CLUSTER_SCOPED_KEY_PREFIXES of
        None \<Rightarrow> False
      | Some p \<Rightarrow> drop (length p) key \<notin> set openClusters)"

definition pruneClusterScopedKeys :: "string list \<Rightarrow> (string, json) jsmap \<Rightarrow> (string, json) jsmap" where
  "pruneClusterScopedKeys openClusters storage =
     foldl (\<lambda>m key. if stale_key openClusters key then jm_delete m key else m) storage
       (filter (\<lambda>key. key \<noteq> []) (jm_keys storage))"

text \<open>What \<open>closeTab\<close> does to it (\<open>store/tabSlice.ts\<close>): the tab goes, its save is cancelled, its keys are removed.\<close>

definition closed_keys :: "string \<Rightarrow> string list" where
  "closed_keys cluster = map (\<lambda>p. p @ cluster) CLUSTER_SCOPED_KEY_PREFIXES"

definition tab_closed :: "string \<Rightarrow> writer \<Rightarrow> writer" where
  "tab_closed cluster w =
     (let s = wr_store w;
          w1 = store_changed (s\<lparr>sv_activeTabs := filter (\<lambda>t. fst t \<noteq> cluster) (sv_activeTabs s)\<rparr>) w;
          w2 = cancelPendingSnapshot cluster w1
      in w2\<lparr>wr_storage := foldl jm_delete (wr_storage w2) (closed_keys cluster)\<rparr>)"

section \<open>The steps\<close>

datatype persist_event =
    StoreChanged store_view
  | TimerFired string bool
  | Leaving "bool list"
  | Hydrated
  | TabClosed string

definition persist_step :: "persist_event \<Rightarrow> writer \<Rightarrow> writer" where
  "persist_step e w =
     (case e of
        StoreChanged s \<Rightarrow> store_changed s w
      | TimerFired cluster ok \<Rightarrow> if cluster \<in> set (wr_pending w) then saveCluster ok cluster w else w
      | Leaving oks \<Rightarrow> flushPendingSnapshots oks w
      | Hydrated \<Rightarrow> markHydrated w
      | TabClosed cluster \<Rightarrow> tab_closed cluster w)"

end
