(* ===== verification/PersistProps.thy ===== *)
theory PersistProps
  imports PersistReading PersistWriter
begin

text \<open>
  The writer keeps every open tab's snapshot current: what is not being saved is stored as
  change detection sees it, leaving saves the rest, and a closed tab's snapshot stays gone.
\<close>

section \<open>The writer keeps saved snapshots current\<close>

text \<open>The part of the dock's tabs that a cluster's snapshot holds.\<close>

definition bottom_part :: "store_view \<Rightarrow> string \<Rightarrow> json list \<times> string option" where
  "bottom_part s cluster =
     (let bottom = restorableBottomTabs (sv_bottomTabs s) cluster
      in (bottom, if list_ex (\<lambda>bt. as_str (jprop (Some bt) ''id'') = sv_activeBottomTab s \<and> sv_activeBottomTab s \<noteq> None) bottom
                  then sv_activeBottomTab s else None))"

text \<open>The stored snapshot was taken of a state that change detection does not tell from the current one.\<close>

definition saved_current :: "writer \<Rightarrow> string \<Rightarrow> live_state \<Rightarrow> bool" where
  "saved_current w cluster st \<longleftrightarrow>
     (\<exists>st0 s0. jm_get (wr_storage w) (TABSTATE_KEY cluster)
          = Some (snapshot_json (buildTabSnapshot st0 (sv_bottomTabs s0) (sv_activeBottomTab s0) cluster))
        \<and> tracked st0 = tracked st \<and> bottom_part s0 cluster = bottom_part (wr_store w) cluster)"

definition open_state :: "writer \<Rightarrow> string \<Rightarrow> live_state option" where
  "open_state w cluster = map_of (sv_activeTabs (wr_store w)) cluster"

definition covered :: "writer \<Rightarrow> string \<Rightarrow> bool" where
  "covered w cluster \<longleftrightarrow> (\<forall>st. open_state w cluster = Some st \<longrightarrow> cluster \<in> set (wr_pending w) \<or> saved_current w cluster st)"

text \<open>What the listener remembers is the store it saw last.\<close>

definition mirrored :: "writer \<Rightarrow> bool" where
  "mirrored w \<longleftrightarrow> jm_wf (wr_prevTabs w) \<and> (\<forall>c. jm_get (wr_prevTabs w) c = open_state w c)
     \<and> wr_prevBottom w = sv_bottomTabs (wr_store w) \<and> wr_prevActiveBottom w = sv_activeBottomTab (wr_store w)"

text \<open>No snapshot is stored of a cluster that is not open.\<close>

definition writer_ok :: "writer \<Rightarrow> bool" where
  "writer_ok w \<longleftrightarrow> wr_installed w \<and> wr_hydrated w \<and> mirrored w \<and> (\<forall>c. covered w c)
     \<and> (\<forall>c. jm_has (wr_storage w) (TABSTATE_KEY c) \<longrightarrow> open_state w c \<noteq> None)"

text \<open>Tabs are opened one way and closed by \<open>closeTab\<close>; every write succeeds.\<close>

definition event_ok :: "writer \<Rightarrow> persist_event \<Rightarrow> bool" where
  "event_ok w e = (case e of
       StoreChanged s \<Rightarrow> distinct (map fst (sv_activeTabs s)) \<and> list_all (\<lambda>t. fst t \<in> fst ` set (sv_activeTabs s)) (sv_activeTabs (wr_store w))
     | TimerFired c ok \<Rightarrow> ok
     | Leaving oks \<Rightarrow> list_all (\<lambda>ok. ok) oks
     | Hydrated \<Rightarrow> True
     | TabClosed c \<Rightarrow> distinct (map fst (sv_activeTabs (wr_store w))))"

subsection \<open>Saving\<close>

lemma tabstate_key_inj [simp]: "TABSTATE_KEY c = TABSTATE_KEY d \<longleftrightarrow> c = d"
  by (simp add: TABSTATE_KEY_def)

lemma saved_current_now:
  "jm_get (wr_storage w) (TABSTATE_KEY c)
      = Some (snapshot_json (buildTabSnapshot st (sv_bottomTabs (wr_store w)) (sv_activeBottomTab (wr_store w)) c)) \<Longrightarrow>
    saved_current w c st"
  unfolding saved_current_def by blast

lemma saved_current_same:
  "saved_current w c st \<Longrightarrow> jm_get (wr_storage w') (TABSTATE_KEY c) = jm_get (wr_storage w) (TABSTATE_KEY c) \<Longrightarrow>
    tracked st' = tracked st \<Longrightarrow> bottom_part (wr_store w') c = bottom_part (wr_store w) c \<Longrightarrow> saved_current w' c st'"
  unfolding saved_current_def by metis

lemma saveCluster_frames [simp]:
  "wr_store (saveCluster ok c w) = wr_store w" "wr_installed (saveCluster ok c w) = wr_installed w"
  "wr_hydrated (saveCluster ok c w) = wr_hydrated w" "wr_prevTabs (saveCluster ok c w) = wr_prevTabs w"
  "wr_prevBottom (saveCluster ok c w) = wr_prevBottom w" "wr_prevActiveBottom (saveCluster ok c w) = wr_prevActiveBottom w"
  "wr_pending (saveCluster ok c w) = filter (\<lambda>x. x \<noteq> c) (wr_pending w)"
  "open_state (saveCluster ok c w) d = open_state w d"
  by (simp_all add: saveCluster_def safeSetItem_def Let_def open_state_def split: option.split)

lemma saveCluster_storage:
  "wr_installed w \<Longrightarrow> jm_get (wr_storage (saveCluster True c w)) k =
    (case open_state w c of None \<Rightarrow> jm_get (wr_storage w) k
     | Some st \<Rightarrow> if k = TABSTATE_KEY c
         then Some (snapshot_json (buildTabSnapshot st (sv_bottomTabs (wr_store w)) (sv_activeBottomTab (wr_store w)) c))
         else jm_get (wr_storage w) k)"
  by (simp add: saveCluster_def safeSetItem_def Let_def open_state_def split: option.split)

lemma saveCluster_ok:
  assumes ok: "writer_ok w"
  shows "writer_ok (saveCluster True c w)"
proof -
  have inst: "wr_installed w" using ok by (simp add: writer_ok_def)
  have "covered (saveCluster True c w) d" for d
    unfolding covered_def
  proof (intro allI impI)
    fix st assume st: "open_state (saveCluster True c w) d = Some st"
    show "d \<in> set (wr_pending (saveCluster True c w)) \<or> saved_current (saveCluster True c w) d st"
    proof (cases "d = c")
      case True
      then have "saved_current (saveCluster True c w) d st"
        using st by (intro saved_current_now) (simp add: saveCluster_storage [OF inst])
      then show ?thesis by blast
    next
      case False
      have "d \<in> set (wr_pending w) \<or> saved_current w d st" using ok st by (simp add: writer_ok_def covered_def)
      moreover have "saved_current (saveCluster True c w) d st" if "saved_current w d st"
        using False by (intro saved_current_same [OF that]) (auto simp: saveCluster_storage [OF inst] split: option.split)
      ultimately show ?thesis using False by auto
    qed
  qed
  moreover have "open_state w d \<noteq> None" if "jm_has (wr_storage (saveCluster True c w)) (TABSTATE_KEY d)" for d
    using that ok unfolding writer_ok_def by (auto simp: jm_has_get saveCluster_storage [OF inst] split: option.splits if_splits)
  ultimately show ?thesis using ok by (simp add: writer_ok_def mirrored_def)
qed

lemma flush_all:
  assumes "writer_ok w" "list_all (\<lambda>ok. ok) oks"
  shows "writer_ok (flushPendingSnapshots oks w)" "wr_pending (flushPendingSnapshots oks w) = []"
proof -
  have one: "writer_ok (foldl (\<lambda>w (c, ok). saveCluster ok c w) w cs)
      \<and> wr_pending (foldl (\<lambda>w (c, ok). saveCluster ok c w) w cs) = filter (\<lambda>x. x \<notin> fst ` set cs) (wr_pending w)"
    if "writer_ok w" "\<forall>(c, ok) \<in> set cs. ok" for cs w
    using that
  proof (induction cs arbitrary: w)
    case (Cons p cs)
    obtain c ok where p: "p = (c, ok)" by fastforce
    with Cons.prems have "writer_ok (saveCluster ok c w)" by (auto intro: saveCluster_ok)
    from Cons.IH [OF this] Cons.prems(2) show ?case by (simp add: p)
  qed simp
  define cs where "cs = zip (wr_pending w) (oks @ replicate (length (wr_pending w)) True)"
  have "\<forall>(c, ok) \<in> set cs. ok"
  proof clarify
    fix c ok assume "(c, ok) \<in> set cs"
    then have "ok \<in> set (oks @ replicate (length (wr_pending w)) True)" unfolding cs_def by (rule set_zip_rightD)
    then show ok using assms(2) by (auto simp: list_all_iff)
  qed
  moreover have "fst ` set cs = set (wr_pending w)"
  proof -
    have "map fst cs = wr_pending w" by (simp add: cs_def map_fst_zip_take)
    then show ?thesis by (metis list.set_map)
  qed
  ultimately show "writer_ok (flushPendingSnapshots oks w)" "wr_pending (flushPendingSnapshots oks w) = []"
    using one [OF assms(1), of cs] by (simp_all add: flushPendingSnapshots_def cs_def)
qed


subsection \<open>The listener schedules what changed\<close>

definition needs_save :: "writer \<Rightarrow> string \<Rightarrow> live_state \<Rightarrow> bool" where
  "needs_save w c st = (case jm_get (wr_prevTabs w) c of None \<Rightarrow> True | Some before \<Rightarrow> tabStateChanged before st)"

lemma schedule_pending: "schedule c w = w\<lparr>wr_pending := js_add (wr_pending w) c\<rparr>"
  by (simp add: schedule_def js_add_def)

lemma schedule_tabs_pending:
  "\<exists>ps. schedule_tabs s w = w\<lparr>wr_pending := ps\<rparr>
    \<and> set ps = set (wr_pending w) \<union> fst ` {t \<in> set (sv_activeTabs s). needs_save w (fst t) (snd t)}"
proof -
  have "\<exists>ps. foldl (\<lambda>w (cluster, st). case jm_get (wr_prevTabs w) cluster of None \<Rightarrow> schedule cluster w
              | Some before \<Rightarrow> if tabStateChanged before st then schedule cluster w else w) w ts = w\<lparr>wr_pending := ps\<rparr>
    \<and> set ps = set (wr_pending w) \<union> fst ` {t \<in> set ts. needs_save w (fst t) (snd t)}" for ts
  proof (induction ts arbitrary: w)
    case Nil
    then show ?case by (intro exI [of _ "wr_pending w"]) simp
  next
    case (Cons t ts)
    obtain c st where t: "t = (c, st)" by fastforce
    define w1 where "w1 = (if needs_save w c st then schedule c w else w)"
    have w1: "(case jm_get (wr_prevTabs w) c of None \<Rightarrow> schedule c w
        | Some before \<Rightarrow> if tabStateChanged before st then schedule c w else w) = w1"
      by (auto simp: w1_def needs_save_def split: option.split)
    have ns: "needs_save w1 c' st' = needs_save w c' st'" for c' st'
      by (simp add: w1_def needs_save_def schedule_pending)
    obtain ps where ps: "foldl (\<lambda>w (cluster, st). case jm_get (wr_prevTabs w) cluster of None \<Rightarrow> schedule cluster w
              | Some before \<Rightarrow> if tabStateChanged before st then schedule cluster w else w) w1 ts = w1\<lparr>wr_pending := ps\<rparr>"
      "set ps = set (wr_pending w1) \<union> fst ` {t \<in> set ts. needs_save w (fst t) (snd t)}"
      using Cons.IH [of w1] unfolding ns by blast
    have "set ps = set (wr_pending w) \<union> fst ` {u \<in> set (t # ts). needs_save w (fst u) (snd u)}"
      unfolding ps(2) by (cases "needs_save w c st") (auto simp: w1_def t schedule_pending image_iff)
    moreover have "w1\<lparr>wr_pending := ps\<rparr> = w\<lparr>wr_pending := ps\<rparr>" by (simp add: w1_def schedule_pending)
    ultimately show ?case using ps(1) by (intro exI [of _ ps]) (simp add: t w1)
  qed
  then show ?thesis by (simp add: schedule_tabs_def)
qed

lemma schedules_pending: "\<exists>ps. foldl (\<lambda>w c. schedule c w) w cs = w\<lparr>wr_pending := ps\<rparr> \<and> set ps = set (wr_pending w) \<union> set cs"
proof (induction cs arbitrary: w)
  case Nil
  then show ?case by (intro exI [of _ "wr_pending w"]) simp
next
  case (Cons c cs)
  obtain ps where "foldl (\<lambda>w c. schedule c w) (schedule c w) cs = (schedule c w)\<lparr>wr_pending := ps\<rparr>"
    "set ps = set (wr_pending (schedule c w)) \<union> set cs" using Cons by blast
  then show ?case by (intro exI [of _ ps]) (simp add: schedule_pending)
qed

lemma schedule_bottom_pending:
  "\<exists>ps. schedule_bottom s w = w\<lparr>wr_pending := ps\<rparr>
    \<and> set (wr_pending w) \<union> lb_cluster ` set (sv_bottomTabs s @ wr_prevBottom w) \<subseteq> set ps"
proof -
  obtain ps where ps: "foldl (\<lambda>w c. schedule c w) w (js_set_of (map lb_cluster (sv_bottomTabs s @ wr_prevBottom w))) = w\<lparr>wr_pending := ps\<rparr>"
    "set ps = set (wr_pending w) \<union> set (js_set_of (map lb_cluster (sv_bottomTabs s @ wr_prevBottom w)))"
    using schedules_pending by blast
  show ?thesis
  proof (cases "sv_activeBottomTab s \<noteq> wr_prevActiveBottom w
      \<and> (\<exists>bt. find (\<lambda>bt. Some (lb_id bt) = sv_activeBottomTab s) (sv_bottomTabs s) = Some bt \<and> lb_cluster bt \<noteq> [])")
    case True
    then obtain bt where "find (\<lambda>bt. Some (lb_id bt) = sv_activeBottomTab s) (sv_bottomTabs s) = Some bt" "lb_cluster bt \<noteq> []"
      "sv_activeBottomTab s \<noteq> wr_prevActiveBottom w" by blast
    then have "schedule_bottom s w = schedule (lb_cluster bt) (w\<lparr>wr_pending := ps\<rparr>)"
      using ps(1) by (auto simp: schedule_bottom_def Let_def)
    then show ?thesis using ps(2) by (intro exI [of _ "js_add ps (lb_cluster bt)"]) (auto simp: schedule_pending)
  next
    case False
    then have "schedule_bottom s w = w\<lparr>wr_pending := ps\<rparr>"
      using ps(1) by (auto simp: schedule_bottom_def Let_def split: option.splits)
    then show ?thesis using ps(2) by (intro exI [of _ ps]) auto
  qed
qed

text \<open>A cluster with no tab in the dock before or after keeps its part of it, which is empty.\<close>

lemma bottom_part_untouched:
  assumes "c \<notin> lb_cluster ` set (sv_bottomTabs s @ sv_bottomTabs s')"
  shows "bottom_part s c = bottom_part s' c"
proof -
  have "filter (restorable c) (sv_bottomTabs s) = []" "filter (restorable c) (sv_bottomTabs s') = []"
    using assms by (auto simp: filter_empty_conv restorable_def)
  then show ?thesis by (simp add: bottom_part_def restorableBottomTabs_def)
qed

text \<open>What the listener leaves of the writer.\<close>

lemma store_changed_result:
  assumes inst: "wr_installed w" "wr_hydrated w" and mirror: "mirrored w" and dist: "distinct (map fst (sv_activeTabs s))"
  shows "\<exists>ps prev. store_changed s w = w\<lparr>wr_store := s, wr_pending := ps, wr_prevTabs := prev, wr_prevBottom := sv_bottomTabs s,
        wr_prevActiveBottom := sv_activeBottomTab s\<rparr>
    \<and> jm_wf prev \<and> (\<forall>c. jm_get prev c = map_of (sv_activeTabs s) c) \<and> set (wr_pending w) \<subseteq> set ps
    \<and> (\<forall>c st. map_of (sv_activeTabs s) c = Some st \<longrightarrow> needs_save w c st \<longrightarrow> c \<in> set ps)
    \<and> ((sv_bottomTabs s = sv_bottomTabs (wr_store w) \<and> sv_activeBottomTab s = sv_activeBottomTab (wr_store w))
       \<or> lb_cluster ` set (sv_bottomTabs s @ sv_bottomTabs (wr_store w)) \<subseteq> set ps)"
proof -
  define quiet where "quiet \<longleftrightarrow> \<not> list_ex (\<lambda>(c, st). jm_get (wr_prevTabs w) c \<noteq> Some st) (sv_activeTabs s)
      \<and> \<not> (sv_bottomTabs s \<noteq> wr_prevBottom w \<or> sv_activeBottomTab s \<noteq> wr_prevActiveBottom w)
      \<and> length (sv_activeTabs s) = jm_size (wr_prevTabs w)"
  have mapped: "jm_get (js_map_of (sv_activeTabs s)) c = map_of (sv_activeTabs s) c" for c
    using dist by (simp add: js_map_of_distinct jm_keys_def jm_get_def)
  show ?thesis
  proof (cases quiet)
    case True
    have keep: "(c, st) \<in> set (sv_activeTabs s) \<Longrightarrow> jm_get (wr_prevTabs w) c = Some st" for c st
      using True by (auto simp: quiet_def list_ex_iff)
    have wf: "jm_wf (wr_prevTabs w)" using mirror by (simp add: mirrored_def)
    have "set (map fst (sv_activeTabs s)) \<subseteq> set (jm_keys (wr_prevTabs w))"
      using keep by (auto simp: jm_has_def [symmetric] jm_has_get)
    moreover have "card (set (map fst (sv_activeTabs s))) = card (set (jm_keys (wr_prevTabs w)))"
      using True dist wf unfolding jm_wf_def quiet_def by (simp only: distinct_card) (simp add: jm_size_keys)
    ultimately have dom: "set (map fst (sv_activeTabs s)) = set (jm_keys (wr_prevTabs w))"
      by (intro card_subset_eq) simp_all
    have same: "jm_get (wr_prevTabs w) c = map_of (sv_activeTabs s) c" for c
    proof (cases "map_of (sv_activeTabs s) c")
      case None
      then have "\<not> jm_has (wr_prevTabs w) c" using dom by (auto simp: jm_has_def map_of_eq_None_iff)
      with None show ?thesis by (simp add: jm_has_get)
    next
      case (Some st)
      with keep [OF map_of_SomeD [OF Some]] show ?thesis by simp
    qed
    have res: "store_changed s w = w\<lparr>wr_store := s\<rparr>"
      using True inst by (simp add: store_changed_def Let_def quiet_def)
    have q: "sv_bottomTabs s = wr_prevBottom w" "sv_activeBottomTab s = wr_prevActiveBottom w"
      using True by (simp_all add: quiet_def)
    have no: "\<not> needs_save w c st" if "map_of (sv_activeTabs s) c = Some st" for c st
      using same [of c] that by (simp add: needs_save_def tabStateChanged_def)
    show ?thesis
      using same q no mirror
      by (intro exI [of _ "wr_pending w"] exI [of _ "wr_prevTabs w"]) (auto simp: res mirrored_def)
  next
    case False
    obtain ps where ps: "schedule_tabs s (w\<lparr>wr_store := s\<rparr>) = w\<lparr>wr_store := s, wr_pending := ps\<rparr>"
      "set ps = set (wr_pending w) \<union> fst ` {t \<in> set (sv_activeTabs s). needs_save w (fst t) (snd t)}"
      using schedule_tabs_pending [of s "w\<lparr>wr_store := s\<rparr>"] by (auto simp: needs_save_def)
    have needs: "c \<in> set ps" if "map_of (sv_activeTabs s) c = Some st" "needs_save w c st" for c st
      using that unfolding ps(2) by (force dest!: map_of_SomeD)
    have bottoms: "wr_prevBottom w = sv_bottomTabs (wr_store w)" "wr_prevActiveBottom w = sv_activeBottomTab (wr_store w)"
      using mirror by (simp_all add: mirrored_def)
    show ?thesis
    proof (cases "sv_bottomTabs s \<noteq> wr_prevBottom w \<or> sv_activeBottomTab s \<noteq> wr_prevActiveBottom w")
      case True
      obtain qs where qs: "schedule_bottom s (w\<lparr>wr_store := s, wr_pending := ps\<rparr>) = w\<lparr>wr_store := s, wr_pending := qs\<rparr>"
        "set ps \<union> lb_cluster ` set (sv_bottomTabs s @ wr_prevBottom w) \<subseteq> set qs"
        using schedule_bottom_pending [of s "w\<lparr>wr_store := s, wr_pending := ps\<rparr>"] by auto
      have "store_changed s w = w\<lparr>wr_store := s, wr_pending := qs, wr_prevTabs := js_map_of (sv_activeTabs s),
          wr_prevBottom := sv_bottomTabs s, wr_prevActiveBottom := sv_activeBottomTab s\<rparr>"
        using False True inst ps(1) qs(1) by (simp add: store_changed_def Let_def quiet_def)
      moreover have "c \<in> set qs" if "map_of (sv_activeTabs s) c = Some st" "needs_save w c st" for c st
        using needs [OF that] qs(2) by blast
      moreover have "set (wr_pending w) \<subseteq> set qs" using ps(2) qs(2) by blast
      ultimately show ?thesis using qs(2) mapped bottoms
        by (intro exI [of _ qs] exI [of _ "js_map_of (sv_activeTabs s)"]) simp
    next
      case nobottom: False
      have "store_changed s w = w\<lparr>wr_store := s, wr_pending := ps, wr_prevTabs := js_map_of (sv_activeTabs s),
          wr_prevBottom := sv_bottomTabs s, wr_prevActiveBottom := sv_activeBottomTab s\<rparr>"
        using False nobottom inst ps(1) by (auto simp: store_changed_def Let_def quiet_def)
      moreover have "set (wr_pending w) \<subseteq> set ps" using ps(2) by blast
      ultimately show ?thesis using needs mapped bottoms nobottom
        by (intro exI [of _ ps] exI [of _ "js_map_of (sv_activeTabs s)"]) simp
    qed
  qed
qed


lemma store_changed_ok:
  assumes ok: "writer_ok w" and dist: "distinct (map fst (sv_activeTabs s))"
    and dropped: "\<And>c. open_state w c \<noteq> None \<Longrightarrow> map_of (sv_activeTabs s) c = None \<Longrightarrow> c \<in> gone"
  shows "mirrored (store_changed s w) \<and> wr_installed (store_changed s w) \<and> wr_hydrated (store_changed s w)
    \<and> (\<forall>c. covered (store_changed s w) c)
    \<and> (\<forall>c. jm_has (wr_storage (store_changed s w)) (TABSTATE_KEY c) \<longrightarrow> open_state (store_changed s w) c \<noteq> None \<or> c \<in> gone)
    \<and> wr_store (store_changed s w) = s"
proof -
  have inst: "wr_installed w" "wr_hydrated w" and mirror: "mirrored w" using ok by (simp_all add: writer_ok_def)
  obtain ps prev where res: "store_changed s w = w\<lparr>wr_store := s, wr_pending := ps, wr_prevTabs := prev, wr_prevBottom := sv_bottomTabs s,
        wr_prevActiveBottom := sv_activeBottomTab s\<rparr>"
    and prev: "jm_wf prev" "\<And>c. jm_get prev c = map_of (sv_activeTabs s) c"
    and ps: "set (wr_pending w) \<subseteq> set ps" "\<And>c st. map_of (sv_activeTabs s) c = Some st \<Longrightarrow> needs_save w c st \<Longrightarrow> c \<in> set ps"
      "(sv_bottomTabs s = sv_bottomTabs (wr_store w) \<and> sv_activeBottomTab s = sv_activeBottomTab (wr_store w))
       \<or> lb_cluster ` set (sv_bottomTabs s @ sv_bottomTabs (wr_store w)) \<subseteq> set ps"
    using store_changed_result [OF inst mirror dist] by blast
  have "covered (store_changed s w) c" for c
    unfolding covered_def
  proof (intro allI impI)
    fix st assume st: "open_state (store_changed s w) c = Some st"
    then have now: "map_of (sv_activeTabs s) c = Some st" by (simp add: res open_state_def)
    show "c \<in> set (wr_pending (store_changed s w)) \<or> saved_current (store_changed s w) c st"
    proof (cases "c \<in> set ps")
      case False
      then have "\<not> needs_save w c st" using ps(2) [OF now] by blast
      then obtain before where b: "open_state w c = Some before" "tracked before = tracked st"
        using mirror by (auto simp: needs_save_def mirrored_def changed_tracked split: option.splits)
      have "c \<notin> set (wr_pending w)" using False ps(1) by blast
      then have saved: "saved_current w c before" using ok b(1) by (auto simp: writer_ok_def covered_def)
      have "bottom_part s c = bottom_part (wr_store w) c"
      proof (cases "sv_bottomTabs s = sv_bottomTabs (wr_store w) \<and> sv_activeBottomTab s = sv_activeBottomTab (wr_store w)")
        case True
        then have e: "sv_bottomTabs s = sv_bottomTabs (wr_store w)" "sv_activeBottomTab s = sv_activeBottomTab (wr_store w)" by auto
        show ?thesis unfolding bottom_part_def e ..
      next
        case changed: False
        with ps(3) False have "c \<notin> lb_cluster ` set (sv_bottomTabs s @ sv_bottomTabs (wr_store w))" by blast
        then show ?thesis by (rule bottom_part_untouched)
      qed
      then have "saved_current (store_changed s w) c st"
        using b(2) by (intro saved_current_same [OF saved]) (simp_all add: res)
      then show ?thesis by blast
    qed (simp add: res)
  qed
  moreover have "open_state (store_changed s w) c \<noteq> None \<or> c \<in> gone"
    if "jm_has (wr_storage (store_changed s w)) (TABSTATE_KEY c)" for c
  proof -
    have "open_state w c \<noteq> None" using that ok by (simp add: res writer_ok_def)
    with dropped [of c] show ?thesis by (cases "map_of (sv_activeTabs s) c") (auto simp: res open_state_def)
  qed
  ultimately show ?thesis using prev inst by (simp add: res mirrored_def open_state_def)
qed

lemma closed_keys_tabstate: "TABSTATE_KEY c \<in> set (closed_keys d) \<longleftrightarrow> c = d"
  by (auto simp: closed_keys_def CLUSTER_SCOPED_KEY_PREFIXES_def TABSTATE_KEY_def)

lemma foldl_delete_get: "jm_get (foldl jm_delete q ks) k = (if k \<in> set ks then None else jm_get q k)"
  by (induction ks arbitrary: q) auto

lemma tab_closed_ok:
  assumes ok: "writer_ok w" and dist: "distinct (map fst (sv_activeTabs (wr_store w)))"
  shows "writer_ok (tab_closed cluster w)" "jm_get (wr_storage (tab_closed cluster w)) (TABSTATE_KEY cluster) = None"
proof -
  define s where "s = (wr_store w)\<lparr>sv_activeTabs := filter (\<lambda>t. fst t \<noteq> cluster) (sv_activeTabs (wr_store w))\<rparr>"
  define w1 where "w1 = store_changed s w"
  have left: "map_of (filter (\<lambda>t. fst t \<noteq> cluster) ts) c = (if c = cluster then None else map_of ts c)" for ts :: "(string \<times> live_state) list" and c
    by (induction ts) auto
  have sc: "mirrored w1" "wr_installed w1" "wr_hydrated w1" "\<And>c. covered w1 c" "wr_store w1 = s"
      "\<And>c. jm_has (wr_storage w1) (TABSTATE_KEY c) \<Longrightarrow> open_state w1 c \<noteq> None \<or> c \<in> {cluster}"
  proof -
    have "distinct (map fst (sv_activeTabs s))" using dist by (simp add: s_def distinct_map_filter)
    moreover have "c \<in> {cluster}" if "open_state w c \<noteq> None" "map_of (sv_activeTabs s) c = None" for c
      using that by (simp add: s_def open_state_def left split: if_splits)
    ultimately show "mirrored w1" "wr_installed w1" "wr_hydrated w1" "\<And>c. covered w1 c" "wr_store w1 = s"
      "\<And>c. jm_has (wr_storage w1) (TABSTATE_KEY c) \<Longrightarrow> open_state w1 c \<noteq> None \<or> c \<in> {cluster}"
      using store_changed_ok [OF ok, of s "{cluster}"] unfolding w1_def by blast+
  qed
  have w': "tab_closed cluster w = w1\<lparr>wr_pending := filter (\<lambda>c. c \<noteq> cluster) (wr_pending w1),
      wr_storage := foldl jm_delete (wr_storage w1) (closed_keys cluster)\<rparr>"
    by (simp add: tab_closed_def Let_def s_def [symmetric] w1_def cancelPendingSnapshot_def)
  have closed: "open_state w1 cluster = None" by (simp add: open_state_def sc(5)) (simp add: s_def left)
  have "covered (tab_closed cluster w) c" for c
    unfolding covered_def
  proof (intro allI impI)
    fix st assume "open_state (tab_closed cluster w) c = Some st"
    then have st: "open_state w1 c = Some st" by (simp add: w' open_state_def)
    with closed have ne: "c \<noteq> cluster" by auto
    have "c \<in> set (wr_pending w1) \<or> saved_current w1 c st" using sc(4) st by (simp add: covered_def)
    moreover have "saved_current (tab_closed cluster w) c st" if "saved_current w1 c st"
      using ne by (intro saved_current_same [OF that]) (simp_all add: w' foldl_delete_get closed_keys_tabstate)
    ultimately show "c \<in> set (wr_pending (tab_closed cluster w)) \<or> saved_current (tab_closed cluster w) c st"
      using ne by (auto simp: w')
  qed
  moreover have "open_state (tab_closed cluster w) c \<noteq> None" if "jm_has (wr_storage (tab_closed cluster w)) (TABSTATE_KEY c)" for c
    using that sc(6) [of c] by (auto simp: w' jm_has_get foldl_delete_get closed_keys_tabstate open_state_def split: if_splits)
  ultimately show "writer_ok (tab_closed cluster w)"
    using sc by (simp add: writer_ok_def mirrored_def w' open_state_def)
  show "jm_get (wr_storage (tab_closed cluster w)) (TABSTATE_KEY cluster) = None"
    by (simp add: w' foldl_delete_get closed_keys_tabstate)
qed

lemma persist_step_ok:
  assumes "writer_ok w" "event_ok w e"
  shows "writer_ok (persist_step e w)"
proof (cases e)
  case (StoreChanged s)
  have "map_of (sv_activeTabs s) c \<noteq> None" if opened: "open_state w c \<noteq> None" for c
  proof -
    obtain st where "(c, st) \<in> set (sv_activeTabs (wr_store w))" using opened by (auto simp: open_state_def dest: map_of_SomeD)
    moreover have "\<forall>t \<in> set (sv_activeTabs (wr_store w)). fst t \<in> fst ` set (sv_activeTabs s)"
      using assms(2) by (simp add: StoreChanged event_ok_def list_all_iff)
    ultimately have "c \<in> fst ` set (sv_activeTabs s)" by (metis fst_conv)
    then show ?thesis by (simp add: map_of_eq_None_iff del: not_None_eq)
  qed
  then have dropped: "c \<in> {}" if "open_state w c \<noteq> None" "map_of (sv_activeTabs s) c = None" for c using that by blast
  have "distinct (map fst (sv_activeTabs s))" using assms(2) by (simp add: StoreChanged event_ok_def)
  from store_changed_ok [OF assms(1) this dropped] show ?thesis by (simp add: StoreChanged persist_step_def writer_ok_def)
next
  case (TimerFired c ok)
  then show ?thesis using assms saveCluster_ok by (simp add: persist_step_def event_ok_def)
next
  case (Leaving oks)
  then show ?thesis using assms flush_all(1) by (simp add: persist_step_def event_ok_def)
next
  case Hydrated
  then show ?thesis
    using assms by (auto simp: persist_step_def markHydrated_def writer_ok_def mirrored_def covered_def open_state_def saved_current_def)
next
  case (TabClosed c)
  then show ?thesis using assms tab_closed_ok(1) by (simp add: persist_step_def event_ok_def)
qed

fun events_ok :: "writer \<Rightarrow> persist_event list \<Rightarrow> bool" where
  "events_ok w [] = True"
| "events_ok w (e # es) = (event_ok w e \<and> events_ok (persist_step e w) es)"

lemma persist_steps_ok: "writer_ok w \<Longrightarrow> events_ok w es \<Longrightarrow> writer_ok (foldl (\<lambda>w e. persist_step e w) w es)"
  by (induction es arbitrary: w) (auto intro: persist_step_ok)


definition empty_writer :: writer where
  "empty_writer = installPersistence \<lparr>sv_activeTabs = [], sv_bottomTabs = [], sv_activeBottomTab = None\<rparr> True
     \<lparr>wr_store = \<lparr>sv_activeTabs = [], sv_bottomTabs = [], sv_activeBottomTab = None\<rparr>, wr_installed = False, wr_hydrated = False,
      wr_prevTabs = [], wr_prevBottom = [], wr_prevActiveBottom = None, wr_pending = [], wr_storage = [], wr_warned = False\<rparr>"

lemma empty_writer_ok: "writer_ok empty_writer"
  by (simp add: empty_writer_def installPersistence_def writer_ok_def mirrored_def covered_def open_state_def js_map_of_def)

definition a_session :: "persist_event list" where
  "a_session =
     [StoreChanged \<lparr>sv_activeTabs = [(''dev'', some_workspace)], sv_bottomTabs = [], sv_activeBottomTab = None\<rparr>,
      TimerFired ''dev'' True,
      StoreChanged \<lparr>sv_activeTabs = [(''dev'', some_workspace\<lparr>lv_listFilter := Some ''api''\<rparr>), (''prod'', some_workspace)],
         sv_bottomTabs = [], sv_activeBottomTab = None\<rparr>,
      TabClosed ''prod'']"


end
