(* ===== verification/Spec2Isabelle.thy ===== *)
theory Spec2Isabelle
  imports ApiProps EvidenceProps DetailLoadsProps TreeProps RolloutProps NavigationProps RealtimeProps LiveListProps K8sNamesProps WorkspaceStrips LogFeedProps SocketProps TopologyProps PersistProps
begin

text \<open>
  A verification library for the front end of Kanivet, a desktop client for Kubernetes
  (\<open>frontend/src/\<close>, TypeScript). A window shows clusters as tabs; a cluster tab holds lists,
  details and terminals, a topology graph and logs; one socket to the local backend carries
  the live lists and logs; what is open is saved and reopened. The parts, in the order of the
  theories:

  \<^item> Shared: \<open>Prelude\<close> (strings, truthiness, comparators and stable sort; the locale
    \<open>comparator\<close>), \<open>JsMap\<close> (the JavaScript \<open>Map\<close> and \<open>Set\<close>; the locales \<open>ordered_map\<close> and
    \<open>bounded_cache\<close>), \<open>JsonValues\<close> (values typed \<open>any\<close>).
  \<^item> Names: \<open>K8sNames\<close> (\<open>utils/pluralization.ts\<close>, \<open>k8sResources.ts\<close>, \<open>resourceUtils.ts\<close>) and
    \<open>K8sNamesProps\<close>; \<open>SearchResults\<close> (\<open>utils/searchResults.ts\<close>).
  \<^item> The store and its tabs: \<open>StoreTypes\<close> (\<open>store/types.ts\<close>, \<open>utils.ts\<close>,
    \<open>navigationTargets.ts\<close>), \<open>Workspace\<close> (the shared state \<open>ws\<close>, \<open>utils/centerPaneLayout.ts\<close>, the
    selection; the locale \<open>tab_strip\<close>, interpreted for the bottom and the detail strip),
    \<open>BottomTabs\<close>, \<open>ListTabs\<close>, \<open>ClusterTabs\<close> (\<open>bottomTabSlice.ts\<close>, \<open>resourceListTabSlice.ts\<close>,
    \<open>tabSlice.ts\<close> and \<open>detailTabSlice.ts\<close>). \<open>WorkspaceProps\<close> makes one machine of all
    operations, \<open>ws_step\<close>, and proves its invariant \<open>ws_wf\<close>; \<open>WorkspaceStrips\<close> says what opening
    and closing do.
  \<^item> The list reducer: \<open>RealtimeReducer\<close> (\<open>store/realtimeReducer.ts\<close>, imperative: slots, a cached
    index, compaction), \<open>RealtimeSpec\<close> (the same on an ordered map from keys to rows, and the
    refinement between the two), \<open>RealtimeProps\<close>.
  \<^item> The live lists (\<open>store/realtimeSlice.ts\<close>): \<open>RealtimeRuntime\<close> (runtimes on a heap, timers,
    topic health, backoff), \<open>RealtimeBatches\<close> (what a batch writes to the workspace, through
    the reducer), \<open>RealtimeControl\<close> (receiving, parking, starting and stopping; \<open>run_timer\<close> fires a
    timer). \<open>LiveListFrame\<close>, \<open>LiveListTimers\<close>, \<open>LiveListSteps\<close>, \<open>LiveListSlots\<close> and
    \<open>LiveListWorld\<close> carry the invariants \<open>timers_ok\<close> and \<open>slots_ok\<close> through every operation;
    \<open>LiveListProps\<close> has the steps and the theorems.
  \<^item> The log viewer (\<open>components/logs/\<close>): \<open>LogEngine\<close> (\<open>logEngine.ts\<close>: escapes, levels, the
    bounded buffer, search), \<open>LogFeed\<close> (\<open>logFeedState.ts\<close>, \<open>logSubscription.ts\<close>), \<open>LogProps\<close>,
    \<open>LogFeedProps\<close>.
  \<^item> The backend's socket (\<open>services/api/websocket.ts\<close>): \<open>SocketMessages\<close> (what a message
    starts or stops), \<open>SocketState\<close> (the manager, sending, connecting), \<open>SocketSession\<close>
    (subscriptions, dispatch, handshake, watchdog, and the tasks of a session, \<open>act\<close>, \<open>ws_step\<close>,
    \<open>ws_run\<close>). \<open>SocketFrame\<close> has the locales \<open>ws_invariant\<close> and \<open>conn_property\<close>: a client shows
    that its predicate is kept by the basic writes and gets that every task keeps it;
    \<open>SocketConn\<close>, \<open>SocketQueues\<close> and \<open>SocketReopen\<close> interpret them; \<open>SocketProps\<close>.
  \<^item> The backend's HTTP client (\<open>services/api/client.ts\<close>): \<open>ApiGate\<close> (the two slots of long
    requests), \<open>ApiClient\<close> (the cache, round trips that callers join, the refresh of a lost
    session), \<open>ApiProps\<close>.
  \<^item> What is loaded into the store (\<open>store/resourceSlice.ts\<close>): \<open>LoadedDetails\<close>
    (\<open>applyLoadedDetails.ts\<close>: one object, one incarnation), \<open>DetailLoads\<close> (the requests for details
    and events), \<open>DetailLoadsProps\<close>; \<open>TreeNodes\<close> (the sidebar's tree, \<open>keepKnownCounts.ts\<close>),
    \<open>TreeLoading\<close> (loading and expanding, \<open>countRefetch.ts\<close>, \<open>vclusterRestore.ts\<close>), \<open>TreeSteps\<close>
    (what each step leaves of loads, reconnections and counts), \<open>TreeProps\<close>; \<open>Rollouts\<close> (restarts
    and the rollouts followed after them), \<open>RolloutProps\<close>; \<open>Navigation\<close>
    (\<open>navigationSlice.ts\<close>: the queue of the history and restoring an entry), \<open>NavigationProps\<close>.
  \<^item> Rightsizing evidence: \<open>EvidenceLoader\<close> (\<open>components/rightsizing/evidenceLoader.ts\<close>),
    \<open>EvidenceProps\<close>.
  \<^item> The topology view (\<open>components/topology/\<close>): \<open>TopologyGraph\<close>, \<open>TopologyView\<close>
    (\<open>graphModel.ts\<close>), \<open>TopologyApp\<close> (\<open>appModel.ts\<close>), \<open>TopologySession\<close> (\<open>useTopologyGraph.ts\<close>
    with \<open>utils/errorMessage.ts\<close>), \<open>TopologyProps\<close>.
  \<^item> Saved workspaces: \<open>PersistSnapshot\<close>, \<open>PersistWriter\<close> (\<open>store/persistence.ts\<close>,
    \<open>persistedItem.ts\<close>), \<open>PersistReading\<close>, \<open>PersistProps\<close>.
\<close>

text \<open>
  How state and effects are modelled. A zustand store, a class with fields or a React hook is
  a record passed through its operations; objects that several closures hold (runtimes,
  sockets) are on a heap indexed by numbers. A timer is an entry of a list until it is cleared
  or fires, and firing is a step of its own, so every interleaving of timers, messages and
  operations is a sequence of steps. An \<open>await\<close> ends the operation; its continuation is another
  step. Calls to the API, the storage and the window are logged (\<open>ws_log\<close>, \<open>wd_calls\<close>,
  \<open>sb_calls\<close>, \<open>mg_out\<close>). Exceptions and absent values are \<open>option\<close>s or branches.

  Parameters, for what is outside the repository: \<open>localeCompare\<close>, \<open>Date.parse\<close> and the local
  clock, \<open>RegExp.exec\<close>, random numbers, clocks, whether the window is hidden, whether a
  storage write fails, whether the socket's constructor throws. Where a theorem needs one to
  behave (a comparison that is total and transitive, matches that lie in the text), that is a
  hypothesis of the theorem, with a witness on a concrete function.

  Bounds. Loops that are not structural have measures: \<open>esc_loop\<close> and \<open>words_of\<close> the text left,
  \<open>needle_loop\<close> the places left of at most 201, \<open>visible_loop\<close> the queue and the nodes not yet seen,
  \<open>evict_parked\<close> the parked runtimes, \<open>drain\<close> the weight of the continuations, the cache's trim
  its length. \<open>regex_loop\<close> has fuel, the length of the text plus two: every turn moves
  \<open>lastIndex\<close> forward and it stops past the end. The code's own limits are constants under their names
  (\<open>MAX_PARKED_TOPICS\<close>, \<open>OUTBOX_LIMIT\<close>, \<open>MAX_LINES\<close>, \<open>RATE_LIMIT_MAX_RETRIES\<close>); chains of
  owners are followed eight steps, as in the code.

  What the theorems show. The reducer implements its map; listings remove exactly what they
  did not deliver; older versions never replace newer. Every reachable workspace has a
  consistent index, unique ids and open active tabs. Every queued event of a live list is
  flushed, no topic has two subscriptions, closed ones are inert. Log text is clean, counts
  are exact, searches find occurrences. One live socket at a time with an attempt always
  under way, each stream asked for once per connection. The topology shows exactly what is
  reachable, draws each shown node once, and never shows an answer to what is no longer
  looked at. A saved workspace holds references only and reopens as it was, and the stored
  snapshot is current once the writer has run. Long requests hold two slots at most; a read
  never joins a round trip from before an invalidation. An evidence refresh is cancelled when
  no view uses it, and a view that waits for one is told of its end. Details and events reach
  only the object, and the incarnation, they were asked for. A tree under way can be joined,
  counts stay on screen, and pending ones are asked for again. The history is asked in the
  order of the clicks, and a click stops older restores. Some theorems state what the code gets
  wrong: \<open>late_close_unwatched\<close>, \<open>late_answer_cached\<close>, \<open>action_on_deleted_opens_shown\<close>,
  \<open>rollout_answers_go_to_shown_tab\<close>, and the lemmas \<open>moved_preview_id_collides\<close> and
  \<open>incomplete_listing_left_live\<close>.
\<close>

text \<open>
  Not modelled:

  \<^item> \<open>components/rightsizing/\<close> but for the loader: arithmetic on floating-point usage figures,
    which the library theories have no doubles for.
  \<^item> Of \<open>store/resourceSlice.ts\<close> the loading of list items, pinned details and the actions on
    objects (one API call and one invalidation each); \<open>clusterSlice.ts\<close>, \<open>clusterRetry.ts\<close>,
    \<open>restoreWorkspace.ts\<close>, \<open>index.ts\<close>: sequences of awaited API calls around the store.
  \<^item> Columns and their values (\<open>utils/resourceColumnValues.ts\<close>, \<open>resourceListColumns.ts\<close>,
    \<open>columnSorting.ts\<close>, \<open>nodeColumns.tsx\<close>): formatting of dates and quantities.
  \<^item> \<open>utils/compareRefs.ts\<close>, \<open>changes.ts\<close>; the AI stores; the endpoint functions under \<open>services/api/\<close>;
    sign-in with cloud providers; themes and Monaco; the canvas layout of the topology
    (\<open>layout.ts\<close>, dagre and floating-point coordinates).
  \<^item> React components: rendering and wiring of events. \<open>public/electron.js\<close>: windows and processes
    of the operating system. The Go backend.
\<close>

end
